(* ===== verification/Lethe_Prelude.thy ===== *)
theory Lethe_Prelude
  imports Main "HOL-Library.AList" "HOL-Library.List_Lexorder" "HOL-Library.Sublist"
    "HOL-Library.Multiset"
begin

text \<open>
  The vocabulary the component theories share: ECMAScript strings, numbers and values as
  the program meets them, insertion-ordered maps, and the generic list lemmas the
  component proofs rest on.

  A string is its list of UTF-16 code units, because \<open>length\<close>, \<open>trim\<close> and the
  character tests of the source count code units.  A number is an integer, a fraction, an
  infinity or NaN; \<open>JFrac n d\<close> is the double \<open>n / d\<close> in lowest terms with
  \<open>d > 1\<close>, and \<open>-0\<close> is \<open>0\<close>.
  A \<open>Map\<close> is an association list in insertion order: \<open>set\<close> on a present key
  keeps its position and on an absent key appends, which is \<^const>\<open>AList.update\<close>.
\<close>

section \<open>Collections of facts\<close>

named_theorems step_simps \<open>unfoldings of the operations of a component\<close>
named_theorems keeps \<open>an operation keeps an invariant or a frame\<close>

section \<open>Strings as UTF-16 code units\<close>

type_synonym jstr = "nat list"

definition lit :: "string \<Rightarrow> jstr" where
  "lit s = map of_char s"

definition js_space :: "nat \<Rightarrow> bool" where
  "js_space c \<longleftrightarrow> (9 \<le> c \<and> c \<le> 13) \<or> c = 32 \<or> c = 160 \<or> c = 5760
     \<or> (8192 \<le> c \<and> c \<le> 8202) \<or> c = 8232 \<or> c = 8233 \<or> c = 8239 \<or> c = 8287
     \<or> c = 12288 \<or> c = 65279"

definition js_trim :: "jstr \<Rightarrow> jstr" where
  "js_trim s = rev (dropWhile js_space (rev (dropWhile js_space s)))"

definition js_includes :: "jstr \<Rightarrow> jstr \<Rightarrow> bool" where
  "js_includes s t \<longleftrightarrow> sublist t s"

lemma length_lit [simp]: "length (lit s) = length s"
  by (simp add: lit_def)

lemma lit_inject [simp]: "lit s = lit t \<longleftrightarrow> s = t"
  unfolding lit_def by (rule inj_map_eq_map) (rule inj_of_char)

lemma js_trim_idem [simp]: "js_trim (js_trim s) = js_trim s"
proof -
  have edge: "dropWhile P (rev (dropWhile P (rev xs))) = rev (dropWhile P (rev xs))"
    if "dropWhile P xs = xs" for P and xs :: "'b list"
  proof (cases xs)
    case Nil
    then show ?thesis by simp
  next
    case (Cons x ys)
    with that have "\<not> P x" by (metis dropWhile.simps(2) impossible_Cons length_dropWhile_le)
    with Cons have "dropWhile P (rev xs) = dropWhile P (rev ys) @ [x]"
      by (simp add: dropWhile_append3)
    with \<open>\<not> P x\<close> show ?thesis by simp
  qed
  have idem: "dropWhile P (dropWhile P xs) = dropWhile P xs" for P and xs :: "'b list"
    by (induction xs) auto
  show ?thesis
    unfolding js_trim_def by (subst edge) (simp_all add: idem)
qed

section \<open>Numbers\<close>

datatype js_number = JInt int | JFrac int nat | JInf | JNegInf | JNan

definition max_safe :: int where
  "max_safe = 9007199254740991"

fun is_integer :: "js_number \<Rightarrow> bool" where
  "is_integer (JInt n) = True"
| "is_integer _ = False"

fun is_safe_integer :: "js_number \<Rightarrow> bool" where
  "is_safe_integer (JInt n) = (\<bar>n\<bar> \<le> max_safe)"
| "is_safe_integer _ = False"

fun int_value :: "js_number \<Rightarrow> int" where
  "int_value (JInt n) = n"
| "int_value _ = 0"

fun is_finite :: "js_number \<Rightarrow> bool" where
  "is_finite (JInt n) = True"
| "is_finite (JFrac n d) = True"
| "is_finite _ = False"

fun num_of :: "js_number \<Rightarrow> int" where
  "num_of (JInt n) = n"
| "num_of (JFrac n d) = n"
| "num_of _ = 0"

fun den_of :: "js_number \<Rightarrow> int" where
  "den_of (JFrac n d) = int d"
| "den_of _ = 1"

text \<open>The comparison \<open><\<close> and \<open>Math.max\<close>, \<open>Math.min\<close>.\<close>

definition js_less :: "js_number \<Rightarrow> js_number \<Rightarrow> bool" where
  "js_less a b \<longleftrightarrow> a \<noteq> JNan \<and> b \<noteq> JNan \<and> a \<noteq> JInf \<and> b \<noteq> JNegInf
     \<and> (a = JNegInf \<or> b = JInf \<or> num_of a * den_of b < num_of b * den_of a)"

definition js_max :: "js_number \<Rightarrow> js_number \<Rightarrow> js_number" where
  "js_max a b = (if a = JNan \<or> b = JNan then JNan else if js_less a b then b else a)"

definition js_min :: "js_number \<Rightarrow> js_number \<Rightarrow> js_number" where
  "js_min a b = (if a = JNan \<or> b = JNan then JNan else if js_less b a then b else a)"

text \<open>The decimal text of a natural number.\<close>

fun decimal :: "nat \<Rightarrow> jstr" where
  "decimal n = (if n < 10 then [48 + n] else decimal (n div 10) @ [48 + n mod 10])"

declare decimal.simps [simp del]

lemma decimal_value: "foldl (\<lambda>v c. 10 * v + (c - 48)) 0 (decimal n) = n"
proof (induction n rule: decimal.induct)
  case (1 n)
  then show ?case by (cases "n < 10") (simp_all add: decimal.simps [of n])
qed

lemma decimal_inject [simp]: "decimal m = decimal n \<longleftrightarrow> m = n"
  by (metis decimal_value)

section \<open>Insertion-ordered maps\<close>

type_synonym ('k, 'v) jmap = "('k \<times> 'v) list"

lemma map_of_update [simp]: "map_of (AList.update k v m) = (map_of m)(k \<mapsto> v)"
  by (rule update_conv')

lemma map_of_delete [simp]: "map_of (AList.delete k m) = (map_of m)(k := None)"
  by (rule delete_conv')

lemma keys_update [simp]: "fst ` set (AList.update k v m) = insert k (fst ` set m)"
  by (simp add: dom_map_of_conv_image_fst [symmetric])

lemma keys_delete [simp]: "fst ` set (AList.delete k m) = fst ` set m - {k}"
  by (auto simp: dom_map_of_conv_image_fst [symmetric])

lemma update_twice [simp]: "AList.update k v (AList.update k v' m) = AList.update k v m"
  by (induction m) auto

lemma update_fresh: "k \<notin> fst ` set m \<Longrightarrow> AList.update k v m = m @ [(k, v)]"
  by (induction m) auto

lemma sum_list_update:
  fixes f :: "'v \<Rightarrow> nat"
  shows "map_of m k = Some v \<Longrightarrow>
    sum_list (map (\<lambda>p. f (snd p)) (AList.update k v' m)) + f v
      = sum_list (map (\<lambda>p. f (snd p)) m) + f v'"
  by (induction m) (auto split: if_splits)

lemma sum_list_delete_le:
  fixes f :: "'v \<Rightarrow> nat"
  shows "sum_list (map (\<lambda>p. f (snd p)) (AList.delete k m)) \<le> sum_list (map (\<lambda>p. f (snd p)) m)"
  by (induction m) auto

lemma sum_list_delete:
  fixes f :: "'v \<Rightarrow> nat"
  shows "map_of m k = Some v \<Longrightarrow> distinct (map fst m) \<Longrightarrow>
    sum_list (map (\<lambda>p. f (snd p)) (AList.delete k m)) + f v
      = sum_list (map (\<lambda>p. f (snd p)) m)"
proof (induction m)
  case (Cons p m)
  then show ?case
    by (cases "fst p = k") auto
qed simp

lemma mset_concat_update:
  "map_of m k = Some q \<Longrightarrow>
    mset (concat (map snd (AList.update k q' m))) + mset q = mset (concat (map snd m)) + mset q'"
  by (induction m) (auto split: if_splits)

lemma mset_concat_delete:
  "map_of m k = Some [] \<Longrightarrow> distinct (map fst m) \<Longrightarrow>
    mset (concat (map snd (AList.delete k m))) = mset (concat (map snd m))"
  by (induction m) (auto split: if_splits)

lemma sum_list_lengths: "sum_list (map (\<lambda>p. length (snd p)) m) = length (concat (map snd m))"
  by (induction m) auto

section \<open>Branches of a guard chain\<close>

text \<open>A chain of guards that ends in a value took one of its branches.\<close>

lemma if_SomeE:
  "(if b then x else y) = Some s \<Longrightarrow> (b \<Longrightarrow> x = Some s \<Longrightarrow> P) \<Longrightarrow> (\<not> b \<Longrightarrow> y = Some s \<Longrightarrow> P) \<Longrightarrow> P"
  by (cases b) auto

section \<open>Removing the first occurrence\<close>

lemma mset_remove1_eq:
  "x \<in> set xs \<Longrightarrow> length (remove1 x xs) = length xs - 1"
  by (simp add: length_remove1)

lemma subseq_remove1: "subseq (map f (remove1 x xs)) (map f xs)"
  by (induction xs) auto

section \<open>Finding\<close>

lemma find_append_left: "find P xs = Some x \<Longrightarrow> find P (xs @ ys) = Some x"
  by (induction xs) auto

lemma find_append_right: "find P xs = None \<Longrightarrow> P y \<Longrightarrow> find P (xs @ [y]) = Some y"
  by (induction xs) (auto split: if_splits)

end
