(* ===== verification/Turn_Admission.thy ===== *)
theory Turn_Admission
  imports Lethe_Prelude
begin

text \<open>
  The turn admission controller, \<open>src/pi/turn-admission-controller.ts\<close>: at most one
  running work item per conversation key, a bounded number of running keys, a bounded
  queue, absolute deadlines, and round-robin service of the keys.

  The record \<open>tac\<close> has the fields of the class.  Three things the source leaves to the
  host are explicit: \<open>ticks\<close> counts the readings of \<open>this.now()\<close>, the \<open>n\<close>-th of
  which is \<open>clock n\<close> for an arbitrary environment function \<open>clock\<close>; \<open>inflight\<close>
  holds the started promise chains, with a flag that is set once the promise of the work has
  been settled and its \<open>finally\<close> block is still to run; \<open>trace\<close> logs what the
  outside observes (newest entry last).  A work item is identified by \<open>wid\<close>, its object
  identity.
\<close>

section \<open>State\<close>

datatype outcome = Resolved | Rejected | QueueTimedOut "int option"

datatype effect =
    Submitted jstr nat
  | Started jstr nat "int option" "int option" \<comment> \<open>deadline, and the clock reading that passed it\<close>
  | Settled nat outcome
  | IdleNotified nat

datatype admission_error =
    KeyRequired | BadDeadline | QueueTimeoutError "int option" | OverloadedError

datatype range_error = BadMaxConcurrent | BadMaxQueued

record work =
  wid :: nat
  deadline :: "int option"
  armed :: bool

record tac =
  max_concurrent :: int
  max_queued :: int
  queues :: "(jstr, work list) jmap"
  key_order :: "jstr list"
  active_keys :: "jstr set"
  idle_waiters :: "nat list"
  cursor :: nat
  active :: int
  queued :: int
  inflight :: "(jstr \<times> work \<times> bool) list"
  ticks :: nat
  next_id :: nat
  trace :: "effect list"

text \<open>The bounds of the configuration and the constructor.\<close>

definition pi_max_concurrent_turns_min :: int where "pi_max_concurrent_turns_min = 1"
definition pi_max_concurrent_turns_max :: int where "pi_max_concurrent_turns_max = 16"
definition pi_max_queued_turns_min :: int where "pi_max_queued_turns_min = 0"
definition pi_max_queued_turns_max :: int where "pi_max_queued_turns_max = 128"

definition new_controller :: "js_number \<Rightarrow> js_number \<Rightarrow> range_error + tac" where
  "new_controller mc mq =
     (if \<not> is_integer mc \<or> int_value mc < pi_max_concurrent_turns_min
         \<or> int_value mc > pi_max_concurrent_turns_max then Inl BadMaxConcurrent
      else if \<not> is_integer mq \<or> int_value mq < pi_max_queued_turns_min
         \<or> int_value mq > pi_max_queued_turns_max then Inl BadMaxQueued
      else Inr \<lparr> max_concurrent = int_value mc, max_queued = int_value mq,
                 queues = [], key_order = [], active_keys = {}, idle_waiters = [],
                 cursor = 0, active = 0, queued = 0, inflight = [],
                 ticks = 0, next_id = 0, trace = [] \<rparr>)"

section \<open>Operations\<close>

definition queue_of :: "jstr \<Rightarrow> tac \<Rightarrow> work list" where
  "queue_of k s = (case map_of (queues s) k of None \<Rightarrow> [] | Some q \<Rightarrow> q)"

definition emit :: "effect \<Rightarrow> tac \<Rightarrow> tac" where
  "emit e s = s\<lparr>trace := trace s @ [e]\<rparr>"

definition tick :: "tac \<Rightarrow> tac" where
  "tick s = s\<lparr>ticks := Suc (ticks s)\<rparr>"

fun index_of :: "'a \<Rightarrow> 'a list \<Rightarrow> nat option" where
  "index_of x [] = None"
| "index_of x (y # ys) = (if x = y then Some 0 else map_option Suc (index_of x ys))"

text \<open>\<open>removeKey\<close>: drop the key from the ring and keep the cursor on the same successor.\<close>

definition remove_key :: "jstr \<Rightarrow> tac \<Rightarrow> tac" where
  "remove_key k s = (case index_of k (key_order s) of
     None \<Rightarrow> s
   | Some i \<Rightarrow>
       let ko = take i (key_order s) @ drop (Suc i) (key_order s);
           c = (if i < cursor s then cursor s - 1 else cursor s)
       in s\<lparr>key_order := ko, queues := AList.delete k (queues s),
            cursor := (if c \<ge> length ko then 0 else c)\<rparr>)"

definition remove_key_if_empty :: "jstr \<Rightarrow> tac \<Rightarrow> tac" where
  "remove_key_if_empty k s =
     (if queue_of k s = [] \<and> k \<notin> active_keys s then remove_key k s else s)"

text \<open>\<open>nextRunnableKey\<close>: one turn of the ring, starting at the cursor.\<close>

definition runnable :: "tac \<Rightarrow> jstr \<Rightarrow> bool" where
  "runnable s k \<longleftrightarrow> k \<noteq> [] \<and> k \<notin> active_keys s \<and> queue_of k s \<noteq> []"

fun scan_keys :: "nat \<Rightarrow> tac \<Rightarrow> jstr option \<times> tac" where
  "scan_keys 0 s = (None, s)"
| "scan_keys (Suc n) s =
     (let c = (if cursor s \<ge> length (key_order s) then 0 else cursor s);
          k = key_order s ! c;
          s' = s\<lparr>cursor := (c + 1) mod length (key_order s)\<rparr>
      in if runnable s' k then (Some k, s') else scan_keys n s')"

definition next_runnable_key :: "tac \<Rightarrow> jstr option \<times> tac" where
  "next_runnable_key s =
     (if length (key_order s) = 0 then (None, s) else scan_keys (length (key_order s)) s)"

text \<open>
  The body of the loop in \<open>pump\<close>: \<open>take_work\<close> is \<open>queue.shift()\<close> with the
  bookkeeping after it, \<open>admit\<close> the deadline check and the start of the work.
\<close>

definition take_work :: "jstr \<Rightarrow> tac \<Rightarrow> (work \<times> tac) option" where
  "take_work k s = (case queue_of k s of
     [] \<Rightarrow> None
   | w # q \<Rightarrow> Some (w\<lparr>armed := False\<rparr>,
                 s\<lparr>queues := AList.update k q (queues s), queued := queued s - 1\<rparr>))"

definition start_work :: "jstr \<Rightarrow> work \<Rightarrow> int option \<Rightarrow> tac \<Rightarrow> tac" where
  "start_work k w reading s =
     emit (Started k (wid w) (deadline w) reading)
       (s\<lparr>active := active s + 1, active_keys := insert k (active_keys s),
          inflight := inflight s @ [(k, w, False)]\<rparr>)"

definition admit :: "(nat \<Rightarrow> int) \<Rightarrow> jstr \<Rightarrow> work \<Rightarrow> tac \<Rightarrow> tac" where
  "admit clock k w s = (case deadline w of
     None \<Rightarrow> start_work k w None s
   | Some d \<Rightarrow>
       if d \<le> clock (ticks s)
       then remove_key_if_empty k (emit (Settled (wid w) (QueueTimedOut (Some d))) (tick s))
       else start_work k w (Some (clock (ticks s))) (tick s))"

definition backlog :: "tac \<Rightarrow> nat" where
  "backlog s = sum_list (map (\<lambda>p. length (snd p)) (queues s))"

text \<open>The scan moves only the cursor, and the key it returns is runnable.\<close>

lemma scan_keys_frame:
  "scan_keys n s = (r, s') \<Longrightarrow> \<exists>c. s' = s\<lparr>cursor := c\<rparr>"
proof (induction n arbitrary: s)
  case 0
  then show ?case by (auto intro: exI [of _ "cursor s"])
next
  case (Suc n)
  let ?c = "if cursor s \<ge> length (key_order s) then 0 else cursor s"
  let ?s = "s\<lparr>cursor := (?c + 1) mod length (key_order s)\<rparr>"
  show ?case
  proof (cases "runnable ?s (key_order s ! ?c)")
    case True
    with Suc.prems have "s' = ?s" by (simp add: Let_def del: One_nat_def)
    then show ?thesis by blast
  next
    case False
    with Suc.prems have "scan_keys n ?s = (r, s')" by (simp add: Let_def del: One_nat_def)
    from Suc.IH [OF this] show ?thesis by auto
  qed
qed

lemma scan_keys_runnable: "scan_keys n s = (Some k, s') \<Longrightarrow> runnable s' k"
  by (induction n arbitrary: s) (auto simp: Let_def split: if_splits)

lemma next_runnable_key_frame:
  "next_runnable_key s = (r, s') \<Longrightarrow> \<exists>c. s' = s\<lparr>cursor := c\<rparr>"
  by (auto simp: next_runnable_key_def split: if_splits dest: scan_keys_frame
      intro: exI [of _ "cursor s"])

lemma next_runnable_key_runnable: "next_runnable_key s = (Some k, s') \<Longrightarrow> runnable s' k"
  by (auto simp: next_runnable_key_def split: if_splits dest: scan_keys_runnable)

lemma take_work_backlog:
  "take_work k s = Some (w, s') \<Longrightarrow> Suc (backlog s') = backlog s"
  using sum_list_update [of "queues s" k "queue_of k s" length "tl (queue_of k s)"]
  by (auto simp: take_work_def backlog_def queue_of_def split: list.splits option.splits)

lemma remove_key_backlog: "backlog (remove_key k s) \<le> backlog s"
  by (auto simp: remove_key_def backlog_def Let_def sum_list_delete_le split: option.splits)

lemma admit_backlog: "backlog (admit clock k w s) \<le> backlog s"
  using remove_key_backlog [of k "emit e (tick s)" for e]
  by (auto simp: admit_def start_work_def emit_def tick_def remove_key_if_empty_def backlog_def
      split: option.splits)

lemma pump_round_takes:
  "(Some k, s1) = next_runnable_key s \<Longrightarrow> take_work k s1 \<noteq> None"
  by (drule sym, drule next_runnable_key_runnable)
    (auto simp: runnable_def take_work_def split: list.splits)

lemma pump_round_decreases:
  assumes "(Some k, s1) = next_runnable_key s" and "Some (w, s2) = take_work k s1"
  shows "backlog (admit clock k w s2) < backlog s"
proof -
  have "Suc (backlog s2) = backlog s1" using assms(2) [symmetric] by (rule take_work_backlog)
  moreover have "backlog s1 = backlog s"
    using next_runnable_key_frame [OF assms(1) [symmetric]] by (auto simp: backlog_def)
  moreover have "backlog (admit clock k w s2) \<le> backlog s2" by (rule admit_backlog)
  ultimately show ?thesis by simp
qed

text \<open>
  The \<open>pump\<close> loop.  It stops because every round takes one item off a queue; the
  \<open>continue\<close> of the source on an empty queue is the third branch, and is never reached.
\<close>

function pump :: "(nat \<Rightarrow> int) \<Rightarrow> tac \<Rightarrow> tac" where
  "pump clock s =
     (if active s < max_concurrent s then
        (case next_runnable_key s of
           (None, s1) \<Rightarrow> s1
         | (Some k, s1) \<Rightarrow>
             (case take_work k s1 of
                None \<Rightarrow> pump clock s1
              | Some (w, s2) \<Rightarrow> pump clock (admit clock k w s2)))
      else s)"
  by pat_completeness auto
termination
  by (relation "measure (\<lambda>(clock, s). backlog s)") (auto simp: pump_round_takes pump_round_decreases)

declare pump.simps [simp del]

text \<open>The public operations and the two halves of a started promise chain.\<close>

definition notify_idle_if_settled :: "tac \<Rightarrow> tac" where
  "notify_idle_if_settled s =
     (if active s \<noteq> 0 \<or> queued s \<noteq> 0 then s
      else s\<lparr>idle_waiters := [], trace := trace s @ map IdleNotified (idle_waiters s)\<rparr>)"

definition arm_queue_timeout :: "work \<Rightarrow> tac \<Rightarrow> work \<times> tac" where
  "arm_queue_timeout w s =
     (case deadline w of None \<Rightarrow> (w, s) | Some d \<Rightarrow> (w\<lparr>armed := True\<rparr>, tick s))"

definition push_work :: "jstr \<Rightarrow> int option \<Rightarrow> tac \<Rightarrow> tac" where
  "push_work k dl s =
     (let s1 = (case map_of (queues s) k of
                  None \<Rightarrow> s\<lparr>queues := AList.update k [] (queues s), key_order := key_order s @ [k]\<rparr>
                | Some q \<Rightarrow> s);
          w = \<lparr>wid = next_id s, deadline = dl, armed = False\<rparr>;
          (w', s2) = arm_queue_timeout w (s1\<lparr>queued := queued s1 + 1, next_id := Suc (next_id s)\<rparr>)
      in emit (Submitted k (wid w))
           (s2\<lparr>queues := AList.update k (queue_of k s2 @ [w']) (queues s2)\<rparr>))"

definition schedule :: "(nat \<Rightarrow> int) \<Rightarrow> jstr \<Rightarrow> js_number option \<Rightarrow> tac
    \<Rightarrow> (admission_error + nat) \<times> tac" where
  "schedule clock conversation_key dl s =
     (let k = js_trim conversation_key in
      if k = [] then (Inl KeyRequired, s)
      else if (case dl of None \<Rightarrow> False | Some d \<Rightarrow> \<not> is_safe_integer d \<or> int_value d < 0)
        then (Inl BadDeadline, s)
      else
        let now = clock (ticks s); s0 = tick s; d = map_option int_value dl in
        if (case d of None \<Rightarrow> False | Some t \<Rightarrow> t \<le> now) then (Inl (QueueTimeoutError d), s0)
        else
          let can_start = active s0 < max_concurrent s0 \<and> k \<notin> active_keys s0 in
          if \<not> can_start \<and> queued s0 \<ge> max_queued s0 then (Inl OverloadedError, s0)
          else (Inr (next_id s0), pump clock (push_work k d s0)))"

definition wait_for_idle :: "tac \<Rightarrow> tac" where
  "wait_for_idle s =
     (if active s = 0 \<and> queued s = 0
      then emit (IdleNotified (next_id s)) (s\<lparr>next_id := Suc (next_id s)\<rparr>)
      else s\<lparr>idle_waiters := idle_waiters s @ [next_id s], next_id := Suc (next_id s)\<rparr>)"

definition expire_queued_work :: "(nat \<Rightarrow> int) \<Rightarrow> jstr \<Rightarrow> work \<Rightarrow> tac \<Rightarrow> tac" where
  "expire_queued_work clock k w s = (case map_of (queues s) k of
     None \<Rightarrow> s
   | Some q \<Rightarrow>
       if w \<notin> set q then s
       else notify_idle_if_settled (pump clock (remove_key_if_empty k
         (emit (Settled (wid w) (QueueTimedOut (deadline w)))
           (s\<lparr>queues := AList.update k (remove1 w q) (queues s), queued := queued s - 1\<rparr>)))))"

text \<open>The timer callback: re-arm while the deadline is ahead, otherwise expire.\<close>

definition timer_fires :: "(nat \<Rightarrow> int) \<Rightarrow> jstr \<Rightarrow> work \<Rightarrow> tac \<Rightarrow> tac" where
  "timer_fires clock k w s = (case deadline w of
     None \<Rightarrow> expire_queued_work clock k w s
   | Some d \<Rightarrow>
       if d - clock (ticks s) > 0 then snd (arm_queue_timeout w (tick s))
       else expire_queued_work clock k w (tick s))"

definition settle_work :: "jstr \<Rightarrow> work \<Rightarrow> bool \<Rightarrow> tac \<Rightarrow> tac" where
  "settle_work k w ok s =
     emit (Settled (wid w) (if ok then Resolved else Rejected))
       (s\<lparr>inflight := map (\<lambda>e. if e = (k, w, False) then (k, w, True) else e) (inflight s)\<rparr>)"

definition finish_work :: "(nat \<Rightarrow> int) \<Rightarrow> jstr \<Rightarrow> work \<Rightarrow> tac \<Rightarrow> tac" where
  "finish_work clock k w s =
     notify_idle_if_settled (pump clock (remove_key_if_empty k
       (s\<lparr>inflight := remove1 (k, w, True) (inflight s),
          active := active s - 1, active_keys := active_keys s - {k}\<rparr>)))"

text \<open>One step of the controller under an environment that chooses what happens next.\<close>

inductive tac_step :: "(nat \<Rightarrow> int) \<Rightarrow> tac \<Rightarrow> tac \<Rightarrow> bool" for clock where
  step_schedule: "tac_step clock s (snd (schedule clock k dl s))"
| step_wait: "tac_step clock s (wait_for_idle s)"
| step_timer: "w \<in> set (queue_of k s) \<Longrightarrow> armed w \<Longrightarrow> tac_step clock s (timer_fires clock k w s)"
| step_settle: "(k, w, False) \<in> set (inflight s) \<Longrightarrow> tac_step clock s (settle_work k w ok s)"
| step_finish: "(k, w, True) \<in> set (inflight s) \<Longrightarrow> tac_step clock s (finish_work clock k w s)"

inductive tac_reachable :: "(nat \<Rightarrow> int) \<Rightarrow> tac \<Rightarrow> bool" for clock where
  start: "new_controller mc mq = Inr s \<Longrightarrow> tac_reachable clock s"
| step: "tac_reachable clock s \<Longrightarrow> tac_step clock s s' \<Longrightarrow> tac_reachable clock s'"

end
