(* ===== verification/Turn_Admission_Facts.thy ===== *)
theory Turn_Admission_Facts
  imports Turn_Admission
begin

text \<open>
  The invariant of the turn admission controller, kept by every operation, and the
  properties that follow from it: the bounds, mutual exclusion per conversation, exactly-once
  settlement, FIFO order per conversation, no start after a deadline, work conservation,
  fairness of the ring and the drain of the controller.
\<close>

section \<open>Observations\<close>

definition queued_works :: "tac \<Rightarrow> work list" where
  "queued_works s = concat (map snd (queues s))"

definition running_ids :: "tac \<Rightarrow> nat list" where
  "running_ids s = map (\<lambda>(k, w, b). wid w) (filter (\<lambda>(k, w, b). \<not> b) (inflight s))"

fun submitted_ids :: "effect list \<Rightarrow> nat list" where
  "submitted_ids [] = []"
| "submitted_ids (Submitted k i # es) = i # submitted_ids es"
| "submitted_ids (e # es) = submitted_ids es"

fun settled_ids :: "effect list \<Rightarrow> nat list" where
  "settled_ids [] = []"
| "settled_ids (Settled i r # es) = i # settled_ids es"
| "settled_ids (e # es) = settled_ids es"

fun submits_of :: "jstr \<Rightarrow> effect list \<Rightarrow> nat list" where
  "submits_of k [] = []"
| "submits_of k (Submitted k' i # es) = (if k' = k then i # submits_of k es else submits_of k es)"
| "submits_of k (e # es) = submits_of k es"

fun starts_of :: "jstr \<Rightarrow> effect list \<Rightarrow> nat list" where
  "starts_of k [] = []"
| "starts_of k (Started k' i d t # es) = (if k' = k then i # starts_of k es else starts_of k es)"
| "starts_of k (e # es) = starts_of k es"

fun punctual :: "effect \<Rightarrow> bool" where
  "punctual (Started k i d t) = (case d of None \<Rightarrow> True | Some x \<Rightarrow> (\<exists>y. t = Some y \<and> y < x))"
| "punctual e = True"

lemma submitted_ids_append [simp]: "submitted_ids (xs @ ys) = submitted_ids xs @ submitted_ids ys"
  by (induction xs rule: submitted_ids.induct) auto

lemma settled_ids_append [simp]: "settled_ids (xs @ ys) = settled_ids xs @ settled_ids ys"
  by (induction xs rule: settled_ids.induct) auto

lemma submits_of_append [simp]: "submits_of k (xs @ ys) = submits_of k xs @ submits_of k ys"
  by (induction k xs rule: submits_of.induct) auto

lemma starts_of_append [simp]: "starts_of k (xs @ ys) = starts_of k xs @ starts_of k ys"
  by (induction k xs rule: starts_of.induct) auto

lemma idle_notices [simp]:
  "submitted_ids (map IdleNotified is) = []" "settled_ids (map IdleNotified is) = []"
  "submits_of k (map IdleNotified is) = []" "starts_of k (map IdleNotified is) = []"
  by (induction "is") auto

section \<open>The invariant\<close>

definition keys_ok :: "tac \<Rightarrow> bool" where
  "keys_ok s \<longleftrightarrow> distinct (key_order s) \<and> distinct (map fst (queues s))
     \<and> fst ` set (queues s) = set (key_order s) \<and> [] \<notin> set (key_order s)
     \<and> (cursor s < length (key_order s) \<or> cursor s = 0)"

definition active_ok :: "tac \<Rightarrow> bool" where
  "active_ok s \<longleftrightarrow> distinct (map fst (inflight s)) \<and> fst ` set (inflight s) = active_keys s
     \<and> active s = int (length (inflight s)) \<and> active s \<le> max_concurrent s
     \<and> active_keys s \<subseteq> set (key_order s)"

definition counts_ok :: "tac \<Rightarrow> bool" where
  "counts_ok s \<longleftrightarrow> queued s = int (length (queued_works s))"

text \<open>No key but those of \<open>A\<close> is kept without a queued or a running item.\<close>

definition no_stale_key :: "jstr set \<Rightarrow> tac \<Rightarrow> bool" where
  "no_stale_key A s \<longleftrightarrow> (\<forall>k \<in> set (key_order s) - A. k \<in> active_keys s \<or> queue_of k s \<noteq> [])"

definition ids_ok :: "tac \<Rightarrow> bool" where
  "ids_ok s \<longleftrightarrow> distinct (submitted_ids (trace s)) \<and> (\<forall>i \<in> set (submitted_ids (trace s)). i < next_id s)
     \<and> mset (submitted_ids (trace s))
       = image_mset wid (mset (queued_works s)) + mset (running_ids s) + mset (settled_ids (trace s))"

definition fifo_ok :: "tac \<Rightarrow> bool" where
  "fifo_ok s \<longleftrightarrow> (\<forall>k. subseq (starts_of k (trace s) @ map wid (queue_of k s)) (submits_of k (trace s)))"

definition punctual_ok :: "tac \<Rightarrow> bool" where
  "punctual_ok s \<longleftrightarrow> list_all punctual (trace s)"

definition core_but :: "jstr set \<Rightarrow> tac \<Rightarrow> bool" where
  "core_but A s \<longleftrightarrow> keys_ok s \<and> active_ok s \<and> counts_ok s \<and> no_stale_key A s
     \<and> ids_ok s \<and> fifo_ok s \<and> punctual_ok s"

abbreviation core_ok :: "tac \<Rightarrow> bool" where
  "core_ok \<equiv> core_but {}"

definition work_conserving :: "tac \<Rightarrow> bool" where
  "work_conserving s \<longleftrightarrow> (active s < max_concurrent s \<longrightarrow> (\<forall>k. \<not> runnable s k))"

definition tac_inv :: "tac \<Rightarrow> bool" where
  "tac_inv s \<longleftrightarrow> core_ok s \<and> work_conserving s \<and> 1 \<le> max_concurrent s \<and> 0 \<le> max_queued s
     \<and> queued s \<le> max_queued s \<and> (idle_waiters s \<noteq> [] \<longrightarrow> 0 < active s)"

lemmas core_defs = core_but_def keys_ok_def active_ok_def counts_ok_def no_stale_key_def
  ids_ok_def fifo_ok_def punctual_ok_def

section \<open>Queues under updates\<close>

lemma queue_of_upd [simp]:
  "queue_of k (s\<lparr>queues := AList.update k' q m\<rparr>) = (if k = k' then q else queue_of k (s\<lparr>queues := m\<rparr>))"
  by (simp add: queue_of_def)

lemma queue_of_del [simp]:
  "queue_of k (s\<lparr>queues := AList.delete k' m\<rparr>) = (if k = k' then [] else queue_of k (s\<lparr>queues := m\<rparr>))"
  by (simp add: queue_of_def)

lemma queue_of_frame [simp]:
  "queue_of k (s\<lparr>queues := queues s\<rparr>) = queue_of k s"
  "queue_of k (s\<lparr>cursor := c\<rparr>) = queue_of k s"
  "queue_of k (s\<lparr>key_order := ko\<rparr>) = queue_of k s"
  "queue_of k (s\<lparr>active := a\<rparr>) = queue_of k s"
  "queue_of k (s\<lparr>active_keys := ks\<rparr>) = queue_of k s"
  "queue_of k (s\<lparr>queued := n\<rparr>) = queue_of k s"
  "queue_of k (s\<lparr>inflight := fl\<rparr>) = queue_of k s"
  "queue_of k (s\<lparr>ticks := t\<rparr>) = queue_of k s"
  "queue_of k (s\<lparr>next_id := i\<rparr>) = queue_of k s"
  "queue_of k (s\<lparr>trace := tr\<rparr>) = queue_of k s"
  "queue_of k (s\<lparr>idle_waiters := ws\<rparr>) = queue_of k s"
  by (simp_all add: queue_of_def)

lemma queued_works_frame [simp]:
  "queued_works (s\<lparr>cursor := c\<rparr>) = queued_works s"
  "queued_works (s\<lparr>key_order := ko\<rparr>) = queued_works s"
  "queued_works (s\<lparr>active := a\<rparr>) = queued_works s"
  "queued_works (s\<lparr>active_keys := ks\<rparr>) = queued_works s"
  "queued_works (s\<lparr>queued := n\<rparr>) = queued_works s"
  "queued_works (s\<lparr>inflight := fl\<rparr>) = queued_works s"
  "queued_works (s\<lparr>ticks := t\<rparr>) = queued_works s"
  "queued_works (s\<lparr>next_id := i\<rparr>) = queued_works s"
  "queued_works (s\<lparr>trace := tr\<rparr>) = queued_works s"
  "queued_works (s\<lparr>idle_waiters := ws\<rparr>) = queued_works s"
  by (simp_all add: queued_works_def)

lemma queue_of_lookup: "queue_of k s \<noteq> [] \<Longrightarrow> map_of (queues s) k = Some (queue_of k s)"
  by (simp add: queue_of_def split: option.splits)

lemma queue_of_key: "queue_of k s \<noteq> [] \<Longrightarrow> k \<in> fst ` set (queues s)"
  by (drule queue_of_lookup) (force dest: map_of_SomeD)

lemma queued_works_update:
  "map_of (queues s) k = Some q \<Longrightarrow>
    mset (queued_works (s\<lparr>queues := AList.update k q' (queues s)\<rparr>)) + mset q
      = mset (queued_works s) + mset q'"
  by (simp add: queued_works_def mset_concat_update)

lemma queued_works_delete:
  "map_of (queues s) k = Some [] \<Longrightarrow> distinct (map fst (queues s)) \<Longrightarrow>
    mset (queued_works (s\<lparr>queues := AList.delete k (queues s)\<rparr>)) = mset (queued_works s)"
  by (simp add: queued_works_def mset_concat_delete)

lemma in_queued_works: "w \<in> set (queue_of k s) \<Longrightarrow> w \<in> set (queued_works s)"
  by (auto simp: queue_of_def queued_works_def split: option.splits) (metis map_of_SomeD snd_conv)

lemma index_of_remove1:
  "index_of x xs = Some i \<Longrightarrow> take i xs @ drop (Suc i) xs = remove1 x xs \<and> i < length xs"
  by (induction xs arbitrary: i) (auto split: if_splits)

lemma index_of_None: "index_of x xs = None \<longleftrightarrow> x \<notin> set xs"
  by (induction xs) auto

lemma remove_key_absent: "k \<notin> set (key_order s) \<Longrightarrow> remove_key k s = s"
  by (simp add: remove_key_def index_of_None [symmetric])

lemma remove_key_present:
  assumes "k \<in> set (key_order s)"
  obtains c where "remove_key k s = s\<lparr>key_order := remove1 k (key_order s),
      queues := AList.delete k (queues s), cursor := c\<rparr>"
    and "c < length (remove1 k (key_order s)) \<or> c = 0"
proof -
  from assms obtain i where i: "index_of k (key_order s) = Some i"
    using index_of_None [of k "key_order s"] by auto
  with index_of_remove1 [OF i] that show ?thesis
    by (simp add: remove_key_def Let_def)
qed

section \<open>Every primitive step keeps the core invariant\<close>

lemma running_ids_simps [simp]:
  "running_ids (s\<lparr>inflight := fl @ [(k, w, False)]\<rparr>) = running_ids (s\<lparr>inflight := fl\<rparr>) @ [wid w]"
  by (simp add: running_ids_def)

lemma running_ids_frame [simp]:
  "running_ids (s\<lparr>cursor := c\<rparr>) = running_ids s"
  "running_ids (s\<lparr>key_order := ko\<rparr>) = running_ids s"
  "running_ids (s\<lparr>queues := qs\<rparr>) = running_ids s"
  "running_ids (s\<lparr>active := a\<rparr>) = running_ids s"
  "running_ids (s\<lparr>active_keys := ks\<rparr>) = running_ids s"
  "running_ids (s\<lparr>queued := n\<rparr>) = running_ids s"
  "running_ids (s\<lparr>ticks := t\<rparr>) = running_ids s"
  "running_ids (s\<lparr>next_id := i\<rparr>) = running_ids s"
  "running_ids (s\<lparr>trace := tr\<rparr>) = running_ids s"
  "running_ids (s\<lparr>idle_waiters := ws\<rparr>) = running_ids s"
  by (simp_all add: running_ids_def)

lemma core_fifo:
  "core_but A s \<Longrightarrow> subseq (starts_of k (trace s) @ map wid (queue_of k s)) (submits_of k (trace s))"
  by (simp add: core_but_def fifo_ok_def)

lemma core_cursor: "core_but A s \<Longrightarrow> c < length (key_order s) \<or> c = 0 \<Longrightarrow> core_but A (s\<lparr>cursor := c\<rparr>)"
  unfolding core_defs by simp

lemma core_remove_key_if_empty:
  assumes core: "core_but {k} s"
  shows "core_ok (remove_key_if_empty k s)"
proof (cases "queue_of k s = [] \<and> k \<notin> active_keys s \<and> k \<in> set (key_order s)")
  case False
  then have same: "remove_key_if_empty k s = s"
    by (auto simp: remove_key_if_empty_def remove_key_absent)
  from False core have "no_stale_key {} s"
    by (auto simp: core_but_def no_stale_key_def)
  with core show ?thesis by (simp add: same core_but_def)
next
  case True
  then obtain c where s': "remove_key_if_empty k s = s\<lparr>key_order := remove1 k (key_order s),
      queues := AList.delete k (queues s), cursor := c\<rparr>" (is "_ = ?s")
    and c: "c < length (remove1 k (key_order s)) \<or> c = 0"
    by (metis remove_key_if_empty_def remove_key_present)
  from core have d: "distinct (key_order s)" "distinct (map fst (queues s))"
    and ks: "fst ` set (queues s) = set (key_order s)"
    by (auto simp: core_defs)
  have "map_of (queues s) k = Some []"
    using True ks by (cases "map_of (queues s) k") (simp_all add: queue_of_def map_of_eq_None_iff)
  from queued_works_delete [OF this d(2)]
  have q: "mset (queued_works ?s) = mset (queued_works s)"
    by (simp add: queued_works_def)
  then have l: "length (queued_works ?s) = length (queued_works s)"
    by (metis size_mset)
  have qo: "queue_of x ?s = queue_of x s" for x
    using True by (simp add: queue_of_def)
  show ?thesis
    unfolding s' core_but_def
  proof (intro conjI)
    show "keys_ok ?s" using core c by (auto simp: core_defs distinct_delete)
    show "active_ok ?s" using core True by (auto simp: core_defs)
    show "counts_ok ?s" using core l by (simp add: core_defs)
    show "no_stale_key {} ?s" using core d qo by (auto simp: core_defs)
    show "ids_ok ?s" using core q by (simp add: core_defs)
    show "fifo_ok ?s" using core qo by (simp add: core_defs)
    show "punctual_ok ?s" using core by (simp add: core_defs)
  qed
qed

lemma core_start:
  assumes core: "core_ok s" and run: "runnable s k" and q: "queue_of k s = w # q"
    and room: "active s < max_concurrent s" and w': "wid w' = wid w"
    and p: "punctual (Started k (wid w) (deadline w) r)"
  shows "core_ok (s\<lparr>queues := AList.update k q (queues s), queued := queued s - 1, ticks := t,
      active := active s + 1, active_keys := insert k (active_keys s),
      inflight := inflight s @ [(k, w', False)],
      trace := trace s @ [Started k (wid w) (deadline w) r]\<rparr>)" (is "core_ok ?s")
proof -
  from run have k: "k \<notin> active_keys s" "k \<in> fst ` set (queues s)"
    by (auto simp: runnable_def queue_of_key)
  from q have m: "map_of (queues s) k = Some (w # q)"
    by (metis list.discI queue_of_lookup)
  from queued_works_update [OF m, of q]
  have qw: "mset (queued_works s) = add_mset w (mset (queued_works ?s))"
    by (simp add: queued_works_def)
  then have l: "length (queued_works s) = Suc (length (queued_works ?s))"
    by (metis size_add_mset size_mset)
  have qo: "queue_of x ?s = (if x = k then q else queue_of x s)" for x
    by (simp add: queue_of_def)
  show ?thesis
    unfolding core_but_def
  proof (intro conjI)
    show "keys_ok ?s" using core k by (auto simp: core_defs distinct_update)
    show "active_ok ?s" using core k room by (auto simp: core_defs)
    show "counts_ok ?s" using core l by (simp add: core_defs)
    show "no_stale_key {} ?s" using core qo by (simp add: core_defs)
    show "ids_ok ?s" using core qw w' by (simp add: core_defs running_ids_def)
    show "fifo_ok ?s"
      unfolding fifo_ok_def
    proof
      fix x
      show "subseq (starts_of x (trace ?s) @ map wid (queue_of x ?s)) (submits_of x (trace ?s))"
        using core_fifo [OF core, of x] q by (auto simp: qo)
    qed
    show "punctual_ok ?s" using core p by (simp add: core_defs)
  qed
qed

lemma core_drop:
  assumes core: "core_ok s" and m: "map_of (queues s) k = Some q" and w: "w \<in> set q"
  shows "core_but {k} (s\<lparr>queues := AList.update k (remove1 w q) (queues s), queued := queued s - 1,
      ticks := t, trace := trace s @ [Settled (wid w) r]\<rparr>)" (is "core_but {k} ?s")
proof -
  from w obtain r where "mset q = add_mset w r" and "mset (remove1 w q) = r"
    by (metis insert_DiffM mset_remove1 set_mset_mset)
  with queued_works_update [OF m, of "remove1 w q"]
  have qw: "mset (queued_works s) = add_mset w (mset (queued_works ?s))"
    by (simp add: queued_works_def del: mset_remove1)
  then have l: "length (queued_works s) = Suc (length (queued_works ?s))"
    by (metis size_add_mset size_mset)
  have qo: "queue_of x ?s = (if x = k then remove1 w q else queue_of x s)" for x
    by (simp add: queue_of_def)
  from m have q: "queue_of k s = q" by (simp add: queue_of_def)
  from m have k: "k \<in> fst ` set (queues s)" by (metis domI dom_map_of_conv_image_fst)
  have sub: "subseq (starts_of k (trace s) @ map wid (remove1 w q)) (starts_of k (trace s) @ map wid q)"
    by (intro list_emb_append_mono subseq_remove1) simp
  show ?thesis
    unfolding core_but_def
  proof (intro conjI)
    show "keys_ok ?s" using core k by (auto simp: core_defs distinct_update)
    show "active_ok ?s" using core by (simp add: core_defs)
    show "counts_ok ?s" using core l by (simp add: core_defs)
    show "no_stale_key {k} ?s" using core qo by (simp add: core_defs)
    show "ids_ok ?s" using core qw by (simp add: core_defs)
    show "fifo_ok ?s"
      unfolding fifo_ok_def
    proof
      fix x
      show "subseq (starts_of x (trace ?s) @ map wid (queue_of x ?s)) (submits_of x (trace ?s))"
        using core_fifo [OF core, of x] subseq_order.trans [OF sub, of "submits_of k (trace s)"] q
        by (cases "x = k") (simp_all add: qo)
    qed
    show "punctual_ok ?s" using core by (simp add: core_defs)
  qed
qed

lemma core_admit:
  assumes core: "core_ok s" and run: "runnable s k" and room: "active s < max_concurrent s"
    and t: "take_work k s = Some (w, s2)"
  shows "core_ok (admit clock k w s2)"
proof -
  from t obtain v q where q: "queue_of k s = v # q" and w: "w = v\<lparr>armed := False\<rparr>"
    and s2: "s2 = s\<lparr>queues := AList.update k q (queues s), queued := queued s - 1\<rparr>"
    by (auto simp: take_work_def split: list.splits)
  have m: "map_of (queues s) k = Some (v # q)"
    using q by (metis list.discI queue_of_lookup)
  note started = core_start [OF core run q room, of w]
  note dropped = core_remove_key_if_empty
    [OF core_drop [OF core m, of v "QueueTimedOut (deadline v)" "Suc (ticks s)"]]
  show ?thesis
    using started [of None "ticks s"] started [of "Some (clock (ticks s))" "Suc (ticks s)"] dropped
    by (auto simp: admit_def start_work_def emit_def tick_def w s2 split: option.splits)
qed

lemma core_push:
  assumes core: "core_ok s" and k: "k \<noteq> []"
  shows "core_ok (push_work k dl s)"
proof -
  let ?q = "queue_of k s"
  let ?ko = "if k \<in> set (key_order s) then key_order s else key_order s @ [k]"
  let ?w = "\<lparr>wid = next_id s, deadline = dl, armed = dl \<noteq> None\<rparr>"
  let ?t = "if dl = None then ticks s else Suc (ticks s)"
  let ?s = "s\<lparr>queues := AList.update k (?q @ [?w]) (queues s), key_order := ?ko,
    queued := queued s + 1, next_id := Suc (next_id s), ticks := ?t,
    trace := trace s @ [Submitted k (next_id s)]\<rparr>"
  from core have ks: "fst ` set (queues s) = set (key_order s)" by (simp add: core_defs)
  have known: "map_of (queues s) k = None \<longleftrightarrow> k \<notin> set (key_order s)"
    by (simp add: ks map_of_eq_None_iff)
  have push: "push_work k dl s = ?s"
    using known
    by (cases "map_of (queues s) k"; cases dl)
      (simp_all add: push_work_def arm_queue_timeout_def emit_def tick_def queue_of_def Let_def)
  have qw: "mset (queued_works ?s) = add_mset ?w (mset (queued_works s))"
  proof (cases "map_of (queues s) k")
    case None
    then have "k \<notin> fst ` set (queues s)" by (simp add: map_of_eq_None_iff)
    with None show ?thesis by (simp add: queued_works_def update_fresh queue_of_def)
  next
    case (Some q)
    then show ?thesis
      using queued_works_update [OF Some, of "q @ [?w]"] by (simp add: queued_works_def queue_of_def)
  qed
  then have l: "length (queued_works ?s) = Suc (length (queued_works s))"
    by (metis size_add_mset size_mset)
  have qo: "queue_of x ?s = (if x = k then ?q @ [?w] else queue_of x s)" for x
    by (simp add: queue_of_def)
  have fresh: "next_id s \<notin> set (submitted_ids (trace s))" using core by (auto simp: core_defs)
  show ?thesis
    unfolding push core_but_def
  proof (intro conjI)
    show "keys_ok ?s" using core k by (auto simp: core_defs distinct_update)
    show "active_ok ?s" using core by (auto simp: core_defs)
    show "counts_ok ?s" using core l by (simp add: core_defs)
    show "no_stale_key {} ?s" using core qo by (auto simp: core_defs)
    show "ids_ok ?s" using core qw fresh by (auto simp: core_defs)
    show "fifo_ok ?s"
      unfolding fifo_ok_def
    proof
      fix x
      show "subseq (starts_of x (trace ?s) @ map wid (queue_of x ?s)) (submits_of x (trace ?s))"
        using core_fifo [OF core, of x] by (auto simp: qo simp flip: append_assoc)
    qed
    show "punctual_ok ?s" using core by (simp add: core_defs)
  qed
qed

lemma core_settle:
  assumes core: "core_ok s" and e: "(k, w, False) \<in> set (inflight s)"
  shows "core_ok (settle_work k w ok s)"
proof -
  let ?f = "\<lambda>e. if e = (k, w, False) then (k, w, True) else e"
  let ?run = "\<lambda>fl. map (\<lambda>(k, w, b). wid w) (filter (\<lambda>(k, w, b). \<not> b) fl)"
  from e obtain xs ys where fl: "inflight s = xs @ (k, w, False) # ys"
    by (meson split_list)
  have "distinct (map fst (inflight s))" using core by (simp add: core_defs)
  then have "k \<notin> fst ` set xs" "k \<notin> fst ` set ys" by (auto simp: fl)
  then have "map ?f xs = xs" "map ?f ys = ys"
    by (auto intro!: map_idI simp: rev_image_eqI)
  then have fl': "map ?f (inflight s) = xs @ (k, w, True) # ys" by (simp add: fl)
  have "core_ok (s\<lparr>inflight := xs @ (k, w, True) # ys, trace := trace s @ [Settled (wid w) r]\<rparr>)" for r
    using core by (auto simp: core_defs fl running_ids_def)
  then show ?thesis by (simp add: settle_work_def emit_def fl')
qed

lemma core_unlock:
  assumes core: "core_ok s" and e: "(k, w, True) \<in> set (inflight s)"
  shows "core_but {k} (s\<lparr>inflight := remove1 (k, w, True) (inflight s), active := active s - 1,
      active_keys := active_keys s - {k}\<rparr>)"
proof -
  from e obtain xs ys where fl: "inflight s = xs @ (k, w, True) # ys" "(k, w, True) \<notin> set xs"
    by (meson split_list_first)
  then have r: "remove1 (k, w, True) (inflight s) = xs @ ys" by (simp add: remove1_append)
  have d: "distinct (map fst (inflight s))" and a: "active_keys s = fst ` set (inflight s)"
    using core by (auto simp: core_defs)
  then have "active_keys s - {k} = fst ` set (xs @ ys)"
    by (auto simp: fl rev_image_eqI)
  then show ?thesis
    unfolding r using core by (auto simp: core_defs fl running_ids_def)
qed

section \<open>The ring\<close>

text \<open>The key at distance \<open>i\<close> from the cursor.\<close>

definition ring :: "tac \<Rightarrow> nat \<Rightarrow> jstr" where
  "ring s i = key_order s ! ((cursor s + i) mod length (key_order s))"

lemma runnable_frame [simp]: "runnable (s\<lparr>cursor := c\<rparr>) k = runnable s k"
  by (simp add: runnable_def)

lemma ring_advance:
  "ring (s\<lparr>cursor := Suc (cursor s) mod length (key_order s)\<rparr>) i = ring s (Suc i)"
  by (simp add: ring_def mod_simps)

lemma suc_mod_shift: "Suc (Suc c mod n + j) mod n = Suc (Suc (c + j)) mod n"
  using mod_add_left_eq [of "Suc c" n "Suc j"] by simp

lemma scan_keys_spec:
  assumes "cursor s < length (key_order s)"
  shows "case scan_keys n s of
      (None, s') \<Rightarrow> \<forall>i<n. \<not> runnable s (ring s i)
    | (Some k, s') \<Rightarrow> \<exists>j<n. k = ring s j \<and> runnable s k \<and> (\<forall>i<j. \<not> runnable s (ring s i))
        \<and> s' = s\<lparr>cursor := (cursor s + j + 1) mod length (key_order s)\<rparr>"
  using assms
proof (induction n arbitrary: s)
  case 0
  then show ?case by simp
next
  case (Suc n)
  let ?s = "s\<lparr>cursor := (cursor s + 1) mod length (key_order s)\<rparr>"
  have k0: "key_order s ! cursor s = ring s 0" using Suc.prems by (simp add: ring_def)
  show ?case
  proof (cases "runnable s (ring s 0)")
    case True
    then show ?thesis using Suc.prems k0 by (auto simp: Let_def)
  next
    case False
    have less: "cursor ?s < length (key_order ?s)" using Suc.prems by (cases "key_order s") auto
    have scan: "scan_keys (Suc n) s = scan_keys n ?s"
      using False Suc.prems k0 by (simp add: Let_def)
    note IH = Suc.IH [OF less]
    show ?thesis
    proof (cases "scan_keys n ?s")
      case (Pair r s')
      show ?thesis
      proof (cases r)
        case None
        with IH Pair have "\<forall>i<n. \<not> runnable s (ring s (Suc i))" by (simp add: ring_advance)
        with False None Pair scan show ?thesis by (auto simp: less_Suc_eq_0_disj)
      next
        case (Some k)
        with IH Pair obtain j where j: "j < n" "k = ring s (Suc j)" "runnable s k"
            "\<forall>i<j. \<not> runnable s (ring s (Suc i))"
            "s' = s\<lparr>cursor := (cursor s + Suc j + 1) mod length (key_order s)\<rparr>"
          by (auto simp: ring_advance suc_mod_shift)
        with False have "\<forall>i<Suc j. \<not> runnable s (ring s i)" by (auto simp: less_Suc_eq_0_disj)
        with j Some Pair scan show ?thesis by (auto intro!: exI [of _ "Suc j"])
      qed
    qed
  qed
qed

lemma ring_covers:
  assumes "cursor s < length (key_order s)" and "k \<in> set (key_order s)"
  obtains i where "i < length (key_order s)" and "ring s i = k"
proof -
  let ?n = "length (key_order s)"
  from assms(2) obtain j where j: "j < ?n" "key_order s ! j = k" by (auto simp: in_set_conv_nth)
  let ?i = "(j + ?n - cursor s) mod ?n"
  have "(cursor s + ?i) mod ?n = (cursor s + (j + ?n - cursor s)) mod ?n" by (simp add: mod_simps)
  also have "\<dots> = j" using assms(1) j by simp
  finally have "ring s ?i = k" using j by (simp add: ring_def)
  moreover have "?i < ?n" using assms(2) by (intro mod_less_divisor) (auto simp: length_pos_if_in_set)
  ultimately show thesis using that by blast
qed

lemma runnable_in_order: "keys_ok s \<Longrightarrow> runnable s k \<Longrightarrow> k \<in> set (key_order s)"
  by (auto simp: keys_ok_def runnable_def dest: queue_of_key)

lemma next_runnable_key_None:
  assumes ok: "keys_ok s" and none: "next_runnable_key s = (None, s')"
  shows "\<not> runnable s k"
proof
  assume r: "runnable s k"
  with ok have k: "k \<in> set (key_order s)" by (rule runnable_in_order)
  with ok have c: "cursor s < length (key_order s)" by (cases "key_order s") (auto simp: keys_ok_def)
  obtain i where "i < length (key_order s)" "ring s i = k" by (rule ring_covers [OF c k])
  with scan_keys_spec [OF c, of "length (key_order s)"] none r k show False
    by (auto simp: next_runnable_key_def split: if_splits)
qed

lemma next_runnable_key_Some:
  assumes ok: "keys_ok s" and some: "next_runnable_key s = (Some k, s')"
  obtains j where "j < length (key_order s)" and "k = ring s j" and "runnable s k"
    and "\<And>i. i < j \<Longrightarrow> \<not> runnable s (ring s i)"
    and "s' = s\<lparr>cursor := (cursor s + j + 1) mod length (key_order s)\<rparr>"
proof -
  from some have ne: "key_order s \<noteq> []" by (auto simp: next_runnable_key_def)
  with ok have c: "cursor s < length (key_order s)" by (auto simp: keys_ok_def)
  from scan_keys_spec [OF c, of "length (key_order s)"] some ne that show thesis
    by (auto simp: next_runnable_key_def)
qed

section \<open>The loop\<close>

lemma scan_keys_cursor:
  "scan_keys n t = (r, s') \<Longrightarrow> cursor t < length (key_order t) \<Longrightarrow> cursor s' < length (key_order s')"
proof (induction n arbitrary: t)
  case (Suc n)
  have "Suc (cursor t) mod length (key_order t) < length (key_order t)"
    using Suc.prems by (intro mod_less_divisor) auto
  with Suc show ?case by (fastforce simp: Let_def split: if_splits)
qed simp

lemma core_next_runnable:
  assumes "core_but A s" and "next_runnable_key s = (r, s')"
  shows "core_but A s'"
proof (cases r)
  case None
  have ok: "keys_ok s" using assms by (simp add: core_but_def)
  have "cursor s' < length (key_order s') \<or> cursor s' = 0"
  proof (cases "key_order s")
    case Nil
    with assms None ok show ?thesis by (auto simp: next_runnable_key_def keys_ok_def)
  next
    case (Cons x xs)
    with assms have "scan_keys (length (key_order s)) s = (r, s')"
      by (simp add: next_runnable_key_def del: scan_keys.simps)
    moreover have "cursor s < length (key_order s)" using ok Cons by (auto simp: keys_ok_def)
    ultimately show ?thesis by (simp add: scan_keys_cursor)
  qed
  moreover obtain c where "s' = s\<lparr>cursor := c\<rparr>"
    using next_runnable_key_frame [OF assms(2)] by blast
  ultimately show ?thesis using core_cursor [OF assms(1), of c] by simp
next
  case (Some k)
  have ok: "keys_ok s" using assms by (simp add: core_but_def)
  obtain j where "j < length (key_order s)"
      "s' = s\<lparr>cursor := (cursor s + j + 1) mod length (key_order s)\<rparr>"
    using next_runnable_key_Some [OF ok] assms(2) Some by metis
  then show ?thesis by (auto intro!: core_cursor [OF assms(1)] disjI1 mod_less_divisor)
qed

text \<open>
  Proof rule for the loop: a property that holds at the start, survives a move of the cursor
  and survives a round, holds at the end, where the controller is also work conserving.
\<close>

lemma pump_rule:
  assumes core: "core_ok s" and P: "P s"
    and cur: "\<And>t c. P t \<Longrightarrow> P (t\<lparr>cursor := c\<rparr>)"
    and round: "\<And>clock t k w t2. core_ok t \<Longrightarrow> P t \<Longrightarrow> runnable t k \<Longrightarrow> active t < max_concurrent t \<Longrightarrow>
      take_work k t = Some (w, t2) \<Longrightarrow> P (admit clock k w t2)"
  shows "core_ok (pump clock s) \<and> P (pump clock s) \<and> work_conserving (pump clock s)"
  using core P
proof (induction clock s rule: pump.induct)
  case (1 clock s)
  have ok: "keys_ok s" using "1.prems" by (simp add: core_but_def)
  show ?case
  proof (cases "active s < max_concurrent s")
    case False
    then show ?thesis using "1.prems" by (simp add: pump.simps [of clock s] work_conserving_def)
  next
    case True
    obtain r s1 where nr: "next_runnable_key s = (r, s1)" by (cases "next_runnable_key s")
    obtain c where s1: "s1 = s\<lparr>cursor := c\<rparr>" using next_runnable_key_frame [OF nr] by blast
    have core1: "core_ok s1" using "1.prems" nr by (blast intro: core_next_runnable)
    have P1: "P s1" unfolding s1 by (rule cur) (rule "1.prems")
    show ?thesis
    proof (cases r)
      case None
      with nr have "pump clock s = s1" by (simp add: pump.simps [of clock s] True)
      moreover have "\<not> runnable s1 k" for k
        using next_runnable_key_None [OF ok] nr None s1 by simp
      ultimately show ?thesis using core1 P1 by (simp add: work_conserving_def)
    next
      case (Some k)
      have run: "runnable s1 k" using nr Some by (metis next_runnable_key_runnable)
      then obtain w s2 where t: "take_work k s1 = Some (w, s2)"
        by (cases "queue_of k s1") (auto simp: runnable_def take_work_def)
      have room: "active s1 < max_concurrent s1" using True s1 by simp
      have eq: "pump clock s = pump clock (admit clock k w s2)"
        using nr Some t by (simp add: pump.simps [of clock s] True)
      show ?thesis
        unfolding eq
        by (rule "1.IH" (2) [OF True nr [symmetric] Some t refl])
          (rule core_admit [OF core1 run room t], rule round [OF core1 P1 run room t])
    qed
  qed
qed

text \<open>What a round of the loop does to the counters, the waiters and the configuration.\<close>

lemma remove_key_fields [simp]:
  "max_concurrent (remove_key k s) = max_concurrent s" "max_queued (remove_key k s) = max_queued s"
  "queued (remove_key k s) = queued s" "active (remove_key k s) = active s"
  "idle_waiters (remove_key k s) = idle_waiters s" "trace (remove_key k s) = trace s"
  "inflight (remove_key k s) = inflight s" "active_keys (remove_key k s) = active_keys s"
  by (simp_all add: remove_key_def Let_def split: option.splits)

lemma remove_key_if_empty_fields [simp]:
  "max_concurrent (remove_key_if_empty k s) = max_concurrent s"
  "max_queued (remove_key_if_empty k s) = max_queued s"
  "queued (remove_key_if_empty k s) = queued s" "active (remove_key_if_empty k s) = active s"
  "idle_waiters (remove_key_if_empty k s) = idle_waiters s"
  "trace (remove_key_if_empty k s) = trace s" "inflight (remove_key_if_empty k s) = inflight s"
  by (simp_all add: remove_key_if_empty_def)

lemma admit_fields:
  assumes "take_work k s = Some (w, s2)"
  shows "max_concurrent (admit clock k w s2) = max_concurrent s"
    and "max_queued (admit clock k w s2) = max_queued s"
    and "idle_waiters (admit clock k w s2) = idle_waiters s"
    and "queued (admit clock k w s2) = queued s - 1"
    and "active s \<le> active (admit clock k w s2)"
  using assms
  by (auto simp: take_work_def admit_def start_work_def emit_def tick_def
      split: list.splits option.splits)

lemma pump_frame:
  assumes core: "core_ok s"
  shows "core_ok (pump clock s)" and "work_conserving (pump clock s)"
    and "max_concurrent (pump clock s) = max_concurrent s"
    and "max_queued (pump clock s) = max_queued s"
    and "idle_waiters (pump clock s) = idle_waiters s"
    and "queued (pump clock s) \<le> queued s" and "active s \<le> active (pump clock s)"
proof -
  let ?P = "\<lambda>t. max_concurrent t = max_concurrent s \<and> max_queued t = max_queued s
    \<and> idle_waiters t = idle_waiters s \<and> queued t \<le> queued s \<and> active s \<le> active t"
  have "core_ok (pump clock s) \<and> ?P (pump clock s) \<and> work_conserving (pump clock s)"
  proof (rule pump_rule [OF core])
    fix clock t k w t2
    assume "?P t" and t: "take_work k t = Some (w, t2)"
    with admit_fields [OF t, of clock] show "?P (admit clock k w t2)" by simp
  qed simp_all
  then show "core_ok (pump clock s)" and "work_conserving (pump clock s)"
    and "max_concurrent (pump clock s) = max_concurrent s"
    and "max_queued (pump clock s) = max_queued s"
    and "idle_waiters (pump clock s) = idle_waiters s"
    and "queued (pump clock s) \<le> queued s" and "active s \<le> active (pump clock s)"
    by simp_all
qed

text \<open>A controller with a queued item and a free slot never leaves the loop empty-handed.\<close>

lemma pump_takes:
  assumes core: "core_ok s" and room: "active s < max_concurrent s" and run: "runnable s k"
  shows "queued (pump clock s) < queued s"
proof -
  have ok: "keys_ok s" using core by (simp add: core_but_def)
  obtain r s1 where nr: "next_runnable_key s = (r, s1)" by (cases "next_runnable_key s")
  with ok run obtain k' where r: "r = Some k'" by (cases r) (auto dest: next_runnable_key_None)
  have core1: "core_ok s1" using core nr by (rule core_next_runnable)
  obtain c where s1: "s1 = s\<lparr>cursor := c\<rparr>" using next_runnable_key_frame [OF nr] by blast
  have run1: "runnable s1 k'" using nr r by (metis next_runnable_key_runnable)
  then obtain w s2 where t: "take_work k' s1 = Some (w, s2)"
    by (cases "queue_of k' s1") (auto simp: runnable_def take_work_def)
  have "core_ok (admit clock k' w s2)" using core1 run1 room s1 t by (auto intro: core_admit)
  then have "queued (pump clock (admit clock k' w s2)) \<le> queued (admit clock k' w s2)"
    by (rule pump_frame)
  with admit_fields (4) [OF t, of clock] nr r t s1 room show ?thesis
    by (simp add: pump.simps [of clock s])
qed

section \<open>Every step keeps the invariant\<close>

lemma core_frame:
  "core_but A s \<Longrightarrow> core_but A (s\<lparr>ticks := t\<rparr>)"
  "core_but A s \<Longrightarrow> core_but A (s\<lparr>idle_waiters := ws\<rparr>)"
  unfolding core_defs by simp_all

lemma core_notify: "core_but A s \<Longrightarrow> core_but A (s\<lparr>idle_waiters := ws, trace := trace s @ map IdleNotified is\<rparr>)"
  unfolding core_defs by (auto simp: list_all_iff)

lemma queued_works_witness:
  assumes "keys_ok s" and "w \<in> set (queued_works s)"
  obtains k where "w \<in> set (queue_of k s)"
proof -
  from assms obtain k q where "(k, q) \<in> set (queues s)" "w \<in> set q"
    by (auto simp: queued_works_def)
  with assms(1) that show thesis
    by (auto simp: keys_ok_def queue_of_def dest!: map_of_is_SomeI)
qed

lemma busy_active:
  assumes core: "core_ok s" and wc: "work_conserving s" and mc: "1 \<le> max_concurrent s"
    and busy: "queued s \<noteq> 0"
  shows "0 < active s"
proof (rule ccontr)
  assume "\<not> 0 < active s"
  with core have zero: "active s = 0" "active_keys s = {}" by (auto simp: core_defs)
  from core have ok: "keys_ok s" and "queued_works s \<noteq> []"
    using busy by (auto simp: core_but_def counts_ok_def)
  then obtain w where "w \<in> set (queued_works s)" by (cases "queued_works s") auto
  then obtain k where k: "w \<in> set (queue_of k s)" by (rule queued_works_witness [OF ok])
  then have "queue_of k s \<noteq> []" by auto
  moreover from this have "k \<noteq> []" using ok queue_of_key [of k s] by (auto simp: keys_ok_def)
  ultimately have "runnable s k" using zero by (simp add: runnable_def)
  with wc mc zero show False by (auto simp: work_conserving_def)
qed

lemma tac_invI:
  assumes "core_ok s" and "work_conserving s" and "1 \<le> max_concurrent s" and "0 \<le> max_queued s"
    and "queued s \<le> max_queued s" and "idle_waiters s \<noteq> [] \<Longrightarrow> 0 < active s"
  shows "tac_inv s"
  using assms by (simp add: tac_inv_def)

text \<open>The tail \<open>pump(); notifyIdleIfSettled()\<close> restores the invariant.\<close>

lemma inv_pump_notify:
  assumes core: "core_ok s" and mc: "1 \<le> max_concurrent s" and mq: "0 \<le> max_queued s"
    and q: "queued s \<le> max_queued s"
  shows "tac_inv (notify_idle_if_settled (pump clock s))"
proof -
  let ?p = "pump clock s"
  note p = pump_frame [OF core, of clock]
  have busy: "queued ?p \<noteq> 0 \<Longrightarrow> 0 < active ?p"
    using p mc by (intro busy_active) auto
  have nonneg: "0 \<le> active ?p" using p(1) by (auto simp: core_defs)
  show ?thesis
  proof (cases "active ?p \<noteq> 0 \<or> queued ?p \<noteq> 0")
    case True
    then show ?thesis
      using p mc mq q busy nonneg
      by (auto intro!: tac_invI simp: notify_idle_if_settled_def)
  next
    case False
    let ?s = "?p\<lparr>idle_waiters := [], trace := trace ?p @ map IdleNotified (idle_waiters ?p)\<rparr>"
    have "work_conserving ?s" using p(2) by (simp add: work_conserving_def runnable_def)
    with False show ?thesis
      using p mc mq q
      by (auto intro!: tac_invI core_notify simp: notify_idle_if_settled_def)
  qed
qed

lemma inv_new_controller: "new_controller mc mq = Inr s \<Longrightarrow> tac_inv s"
  by (auto simp: new_controller_def tac_inv_def core_defs work_conserving_def runnable_def
      queue_of_def queued_works_def running_ids_def pi_max_concurrent_turns_min_def
      pi_max_queued_turns_min_def split: if_splits)

lemma inv_tick: "tac_inv s \<Longrightarrow> tac_inv (tick s)"
  by (simp add: tac_inv_def tick_def core_frame work_conserving_def runnable_def)

lemma push_fields:
  "max_concurrent (push_work k d s) = max_concurrent s" "max_queued (push_work k d s) = max_queued s"
  "queued (push_work k d s) = queued s + 1" "active (push_work k d s) = active s"
  "idle_waiters (push_work k d s) = idle_waiters s" "active_keys (push_work k d s) = active_keys s"
  "queue_of k (push_work k d s) \<noteq> []"
  by (auto simp: push_work_def arm_queue_timeout_def emit_def tick_def Let_def queue_of_def
      split: option.splits)

lemma inv_schedule_push:
  assumes inv: "tac_inv s" and k: "k \<noteq> []"
    and room: "active s < max_concurrent s \<and> k \<notin> active_keys s \<or> queued s < max_queued s"
  shows "tac_inv (pump clock (push_work k d s))"
proof -
  let ?t = "push_work k d s"
  from inv k have core: "core_ok ?t" by (auto simp: tac_inv_def intro: core_push)
  note p = pump_frame [OF core, of clock]
  have "queued (pump clock ?t) \<le> max_queued s"
  proof (cases "queued s < max_queued s")
    case True
    with p(6) show ?thesis by (simp add: push_fields)
  next
    case False
    with room k have "runnable ?t k" "active ?t < max_concurrent ?t"
      by (auto simp: runnable_def push_fields)
    from pump_takes [OF core this(2,1), of clock] inv show ?thesis
      by (simp add: push_fields tac_inv_def)
  qed
  with p inv show ?thesis
    by (intro tac_invI) (auto simp: push_fields tac_inv_def)
qed

lemma inv_schedule: "tac_inv s \<Longrightarrow> tac_inv (snd (schedule clock ck dl s))"
  using inv_tick [of s]
  by (auto simp: schedule_def Let_def intro!: inv_schedule_push)

lemma inv_wait_for_idle:
  assumes inv: "tac_inv s"
  shows "tac_inv (wait_for_idle s)"
proof (cases "active s = 0 \<and> queued s = 0")
  case True
  have "core_ok (s\<lparr>next_id := Suc (next_id s), trace := trace s @ [IdleNotified (next_id s)]\<rparr>)"
    using inv by (auto simp: tac_inv_def core_defs)
  with True inv show ?thesis
    by (auto simp: wait_for_idle_def emit_def tac_inv_def work_conserving_def runnable_def)
next
  case False
  have "0 < active s"
    using False inv busy_active [of s] by (cases "queued s = 0") (auto simp: tac_inv_def core_defs)
  moreover have "core_ok (s\<lparr>idle_waiters := ws, next_id := Suc (next_id s)\<rparr>)" for ws
    using inv by (auto simp: tac_inv_def core_defs)
  ultimately show ?thesis
    using False inv
    by (auto simp: wait_for_idle_def tac_inv_def work_conserving_def runnable_def)
qed

lemma inv_expire:
  assumes inv: "tac_inv s"
  shows "tac_inv (expire_queued_work clock k w s)"
proof (cases "\<exists>q. map_of (queues s) k = Some q \<and> w \<in> set q")
  case False
  with inv show ?thesis by (auto simp: expire_queued_work_def split: option.splits)
next
  case True
  then obtain q where m: "map_of (queues s) k = Some q" and w: "w \<in> set q" by blast
  have core: "core_ok s" using inv by (simp add: tac_inv_def)
  note drop = core_remove_key_if_empty [OF core_drop [OF core m w, where t = "ticks s" and r = "QueueTimedOut (deadline w)"]]
  have "0 \<le> max_queued s" "1 \<le> max_concurrent s" "queued s \<le> max_queued s"
    using inv by (auto simp: tac_inv_def)
  with drop m w show ?thesis
    by (auto simp: expire_queued_work_def emit_def intro!: inv_pump_notify)
qed

lemma inv_timer: "tac_inv s \<Longrightarrow> tac_inv (timer_fires clock k w s)"
  using inv_tick [of s] inv_tick [of "tick s"]
  by (auto simp: timer_fires_def arm_queue_timeout_def inv_expire split: option.splits)

lemma inv_settle:
  assumes inv: "tac_inv s" and e: "(k, w, False) \<in> set (inflight s)"
  shows "tac_inv (settle_work k w ok s)"
proof -
  have "core_ok (settle_work k w ok s)" using inv e by (auto simp: tac_inv_def intro: core_settle)
  with inv show ?thesis
    by (simp add: tac_inv_def settle_work_def emit_def work_conserving_def runnable_def)
qed

lemma inv_finish:
  assumes inv: "tac_inv s" and e: "(k, w, True) \<in> set (inflight s)"
  shows "tac_inv (finish_work clock k w s)"
proof -
  have "core_ok s" using inv by (simp add: tac_inv_def)
  from core_remove_key_if_empty [OF core_unlock [OF this e]] inv show ?thesis
    unfolding finish_work_def by (intro inv_pump_notify) (auto simp: tac_inv_def)
qed

lemma inv_step: "tac_step clock s s' \<Longrightarrow> tac_inv s \<Longrightarrow> tac_inv s'"
  by (induction rule: tac_step.induct)
    (auto intro: inv_schedule inv_wait_for_idle inv_timer inv_settle inv_finish)

lemma inv_reachable: "tac_reachable clock s \<Longrightarrow> tac_inv s"
  by (induction rule: tac_reachable.induct) (auto intro: inv_new_controller inv_step)

section \<open>What the invariant gives\<close>

text \<open>
  C1. In every reachable state of the controller the number of running turns respects the
  configured bound, equals the number of keys held, no conversation key has two turns in
  flight, and the number of queued turns respects its bound.
\<close>

theorem admission_bounds:
  assumes "tac_reachable clock s"
  shows "0 \<le> active s \<and> active s \<le> max_concurrent s \<and> active s = int (card (active_keys s))
    \<and> distinct (map fst (inflight s)) \<and> 0 \<le> queued s \<and> queued s \<le> max_queued s"
proof -
  have "core_ok s" "queued s \<le> max_queued s"
    using inv_reachable [OF assms] by (auto simp: tac_inv_def)
  moreover from this(1) have "card (active_keys s) = length (inflight s)"
    by (metis active_ok_def core_but_def distinct_card length_map set_map)
  ultimately show ?thesis by (auto simp: core_defs)
qed

text \<open>
  C2. Every accepted turn is accounted for exactly once: it is queued, or running, or its
  promise has been settled, and it is never settled twice.
\<close>

theorem admission_exactly_once:
  assumes "tac_reachable clock s"
  shows "distinct (submitted_ids (trace s)) \<and> distinct (settled_ids (trace s))
    \<and> mset (submitted_ids (trace s))
      = mset (map wid (queued_works s)) + mset (running_ids s) + mset (settled_ids (trace s))"
proof -
  have ids: "ids_ok s" using inv_reachable [OF assms] by (simp add: tac_inv_def core_but_def)
  then obtain ys where "mset (submitted_ids (trace s)) = mset (ys @ settled_ids (trace s))"
    by (metis ex_mset ids_ok_def mset_append)
  moreover have "distinct (submitted_ids (trace s))" using ids by (simp add: ids_ok_def)
  ultimately have "distinct (settled_ids (trace s))"
    by (metis distinct_append mset_eq_imp_distinct_iff)
  with ids show ?thesis by (simp add: ids_ok_def)
qed

text \<open>
  The turns of one conversation start in the order in which they were submitted: the starts
  so far, followed by the queue, are a subsequence of the submissions.
\<close>

theorem admission_fifo:
  assumes "tac_reachable clock s"
  shows "subseq (starts_of k (trace s) @ map wid (queue_of k s)) (submits_of k (trace s))"
  using inv_reachable [OF assms] core_fifo by (auto simp: tac_inv_def)

text \<open>
  C3. No turn is started at or after its deadline: the clock reading taken when it left the
  queue was strictly before the deadline.
\<close>

theorem admission_deadline:
  assumes "tac_reachable clock s" and "Started k i (Some d) r \<in> set (trace s)"
  shows "\<exists>t. r = Some t \<and> t < d"
proof -
  have "list_all punctual (trace s)"
    using inv_reachable [OF assms(1)] by (simp add: tac_inv_def core_but_def punctual_ok_def)
  with assms(2) have "punctual (Started k i (Some d) r)" by (simp only: list_all_iff)
  then show ?thesis by simp
qed

text \<open>
  The controller is work conserving and announces idleness: between two steps a free slot
  means that no conversation has a turn it could start, and when nothing is running or queued
  nobody waits for that any more.
\<close>

theorem admission_work_conserving:
  assumes "tac_reachable clock s"
  shows "(active s < max_concurrent s \<longrightarrow> (\<forall>k. \<not> runnable s k))
    \<and> (active s = 0 \<longrightarrow> queued s = 0 \<and> idle_waiters s = [])"
proof -
  have inv: "tac_inv s" using assms by (rule inv_reachable)
  then have "queued s \<noteq> 0 \<longrightarrow> 0 < active s" by (auto simp: tac_inv_def intro: busy_active)
  with inv show ?thesis by (auto simp: tac_inv_def work_conserving_def)
qed

text \<open>
  Round-robin service: whenever the ring serves another key, a key that could be served
  comes strictly closer to the cursor, so it is passed over fewer times than there are keys.
\<close>

theorem admission_ring_fair:
  assumes "tac_reachable clock s" and "next_runnable_key s = (Some k, s')"
    and "runnable s k'" and "ring s i = k'" and "k \<noteq> k'"
  shows "\<exists>i'. i' < i \<and> ring s' i' = k'"
proof -
  have ok: "keys_ok s"
    using inv_reachable [OF assms(1)] by (simp add: tac_inv_def core_but_def)
  from next_runnable_key_Some [OF ok assms(2)] obtain j where j: "k = ring s j"
      "\<And>i. i < j \<Longrightarrow> \<not> runnable s (ring s i)"
      "s' = s\<lparr>cursor := (cursor s + j + 1) mod length (key_order s)\<rparr>"
    by metis
  with assms(3-5) have "j < i" by (metis linorder_neqE_nat)
  then obtain d where i: "i = Suc (j + d)" by (auto simp: less_iff_Suc_add)
  have "ring s' d = ring s i"
    using j(3) mod_add_left_eq [of "Suc (cursor s + j)" "length (key_order s)" d]
    by (simp add: ring_def i add.assoc)
  with i assms(4) show ?thesis by (intro exI [of _ d]) simp
qed

section \<open>Drain\<close>

text \<open>The steps that need no new submission: a started turn ends, its chain runs on.\<close>

inductive drain_step :: "(nat \<Rightarrow> int) \<Rightarrow> tac \<Rightarrow> tac \<Rightarrow> bool" for clock where
  drain_settle: "(k, w, False) \<in> set (inflight s) \<Longrightarrow> drain_step clock s (settle_work k w ok s)"
| drain_finish: "(k, w, True) \<in> set (inflight s) \<Longrightarrow> drain_step clock s (finish_work clock k w s)"

definition pending :: "tac \<Rightarrow> nat" where
  "pending s = 3 * length (queued_works s)
     + sum_list (map (\<lambda>(k, w, b). if b then 1 else 2) (inflight s))"

lemma drain_is_step: "drain_step clock s s' \<Longrightarrow> tac_step clock s s'"
  by (induction rule: drain_step.induct) (auto intro: tac_step.intros)

lemma sum_list_remove1:
  fixes f :: "'a \<Rightarrow> nat"
  shows "x \<in> set xs \<Longrightarrow> sum_list (map f (remove1 x xs)) + f x = sum_list (map f xs)"
  by (induction xs) auto

lemma pending_remove_key: "core_but {k} s \<Longrightarrow> pending (remove_key_if_empty k s) = pending s"
proof -
  assume core: "core_but {k} s"
  from core_remove_key_if_empty [OF core] core
  have "int (length (queued_works (remove_key_if_empty k s))) = int (length (queued_works s))"
    by (auto simp: core_but_def counts_ok_def)
  then show ?thesis by (simp add: pending_def)
qed

lemma pending_admit:
  assumes core: "core_ok s" and run: "runnable s k" and room: "active s < max_concurrent s"
    and t: "take_work k s = Some (w, s2)"
  shows "pending (admit clock k w s2) < pending s"
proof -
  note after = core_admit [OF core run room t, of clock]
  have "int (length (queued_works s)) = int (length (queued_works (admit clock k w s2))) + 1"
    using core after admit_fields(4) [OF t, of clock] by (simp add: core_but_def counts_ok_def)
  moreover have "sum_list (map (\<lambda>(k, w, b). if b then 1 else 2) (inflight (admit clock k w s2)))
      \<le> sum_list (map (\<lambda>(k, w, b). if b then 1 else 2) (inflight s)) + (2::nat)"
    using t by (auto simp: take_work_def admit_def start_work_def emit_def tick_def
        split: list.splits option.splits)
  ultimately show ?thesis unfolding pending_def by linarith
qed

lemma pending_pump: "core_ok s \<Longrightarrow> pending (pump clock s) \<le> pending s"
  using pump_rule [of s "\<lambda>t. pending t \<le> pending s" clock]
  by (auto simp: pending_def [of "t\<lparr>cursor := c\<rparr>" for t c] pending_def [symmetric]
      dest: pending_admit intro: less_imp_le less_le_trans)

lemma drain_decreases:
  assumes "drain_step clock s s'" and inv: "tac_inv s"
  shows "pending s' < pending s"
  using assms(1)
proof cases
  case (drain_settle k w ok)
  then obtain xs ys where fl: "inflight s = xs @ (k, w, False) # ys" by (meson split_list)
  have "distinct (map fst (inflight s))" using inv by (simp add: tac_inv_def core_defs)
  then have "k \<notin> fst ` set xs" "k \<notin> fst ` set ys" by (auto simp: fl)
  then have "map (\<lambda>e. if e = (k, w, False) then (k, w, True) else e) (inflight s) = xs @ (k, w, True) # ys"
    by (auto simp: fl rev_image_eqI intro!: map_idI)
  then show ?thesis by (simp add: drain_settle settle_work_def emit_def pending_def fl)
next
  case (drain_finish k w)
  let ?s = "s\<lparr>inflight := remove1 (k, w, True) (inflight s), active := active s - 1,
    active_keys := active_keys s - {k}\<rparr>"
  have "core_ok s" using inv by (simp add: tac_inv_def)
  from core_unlock [OF this drain_finish(2)] have core: "core_but {k} ?s" .
  have "pending s' \<le> pending (remove_key_if_empty k ?s)"
    using pending_pump [OF core_remove_key_if_empty [OF core], of clock]
    by (auto simp: drain_finish finish_work_def notify_idle_if_settled_def pending_def)
  also have "\<dots> = pending ?s" by (rule pending_remove_key [OF core])
  also have "\<dots> < pending s"
    using sum_list_remove1 [OF drain_finish(2), of "\<lambda>(k, w, b). if b then 1 else 2"]
    by (simp add: pending_def)
  finally show ?thesis .
qed

lemma drain_progress:
  assumes "tac_inv s" and "active s \<noteq> 0"
  shows "\<exists>s'. drain_step clock s s'"
proof -
  from assms have "inflight s \<noteq> []" by (auto simp: tac_inv_def core_defs)
  then obtain k w b where "(k, w, b) \<in> set (inflight s)" by (cases "inflight s") auto
  then show ?thesis by (cases b) (auto intro: drain_step.intros)
qed

text \<open>
  C4. The controller drains: from every reachable state the completion of running turns leads
  to the idle state, every run of completions being at most \<open>pending s\<close> steps long, so neither
  a queued turn nor a caller waiting for idleness is stuck.
\<close>

theorem admission_drains:
  assumes "tac_reachable clock s"
  shows "(\<exists>s'. (drain_step clock)\<^sup>*\<^sup>* s s' \<and> active s' = 0 \<and> queued s' = 0 \<and> idle_waiters s' = [])
    \<and> (\<forall>n s'. (drain_step clock ^^ n) s s' \<longrightarrow> n \<le> pending s)"
proof
  have inv: "tac_inv s" using assms by (rule inv_reachable)
  have keep: "drain_step clock t t' \<Longrightarrow> tac_inv t \<Longrightarrow> tac_inv t'" for t t'
    by (blast intro: inv_step drain_is_step)
  have idle: "tac_inv t \<Longrightarrow> active t = 0 \<Longrightarrow> queued t = 0 \<and> idle_waiters t = []" for t
    using busy_active [of t] by (auto simp: tac_inv_def)
  show "\<exists>s'. (drain_step clock)\<^sup>*\<^sup>* s s' \<and> active s' = 0 \<and> queued s' = 0 \<and> idle_waiters s' = []"
    using inv
  proof (induction "pending s" arbitrary: s rule: less_induct)
    case less
    show ?case
    proof (cases "active s = 0")
      case True
      with less.prems idle show ?thesis by blast
    next
      case False
      with less.prems obtain t where t: "drain_step clock s t" using drain_progress by blast
      with less.prems have "pending t < pending s" "tac_inv t" by (auto intro: drain_decreases keep)
      with less.hyps obtain s' where "(drain_step clock)\<^sup>*\<^sup>* t s'" "active s' = 0 \<and> queued s' = 0 \<and> idle_waiters s' = []"
        by blast
      with t show ?thesis by (blast intro: converse_rtranclp_into_rtranclp)
    qed
  qed
  have "(drain_step clock ^^ n) s s' \<Longrightarrow> tac_inv s' \<and> n + pending s' \<le> pending s" for n s'
  proof (induction n arbitrary: s')
    case 0
    with inv show ?case by simp
  next
    case (Suc n)
    then obtain t where "(drain_step clock ^^ n) s t" and t: "drain_step clock t s'" by auto
    with Suc.IH have "tac_inv t" "n + pending t \<le> pending s" by auto
    with drain_decreases [OF t] keep [OF t] show ?case by auto
  qed
  then show "\<forall>n s'. (drain_step clock ^^ n) s s' \<longrightarrow> n \<le> pending s" by force
qed

section \<open>The outcome of a submission\<close>

lemma push_queue_of:
  "queue_of k' (push_work k d s) = (if k' = k
     then queue_of k s @ [\<lparr>wid = next_id s, deadline = d, armed = d \<noteq> None\<rparr>] else queue_of k' s)"
  by (cases d) (auto simp: push_work_def arm_queue_timeout_def emit_def tick_def Let_def queue_of_def
      split: option.splits)

lemma admit_trace: "\<exists>es. trace (admit clock k w s) = trace s @ es"
  by (auto simp: admit_def start_work_def emit_def tick_def split: option.splits)

lemma take_work_trace: "take_work k s = Some (w, s2) \<Longrightarrow> trace s2 = trace s"
  by (auto simp: take_work_def split: list.splits)

lemma pump_trace:
  assumes "core_ok s"
  shows "\<exists>es. trace (pump clock s) = trace s @ es"
proof -
  have "core_ok (pump clock s) \<and> (\<exists>es. trace (pump clock s) = trace s @ es)
    \<and> work_conserving (pump clock s)"
  proof (rule pump_rule [OF assms])
    fix clock t k w t2
    assume "\<exists>es. trace t = trace s @ es" and t: "take_work k t = Some (w, t2)"
    then show "\<exists>es. trace (admit clock k w t2) = trace s @ es"
      using admit_trace [of clock k w t2] take_work_trace [OF t] by auto
  qed simp_all
  then show ?thesis by blast
qed

text \<open>
  A submission that finds a free slot and no running turn of its conversation starts at
  once, whatever the queue cap (zero included): the call returns a fresh id, and the turn is
  running when it returns, without having displaced anything from the queue.
\<close>

theorem admission_immediate_start:
  assumes "tac_reachable clock s" and "js_trim ck \<noteq> []" and "active s < max_concurrent s"
    and "js_trim ck \<notin> active_keys s" and "schedule clock ck None s = (r, s')"
  shows "r = Inr (next_id s) \<and> Started (js_trim ck) (next_id s) None None \<in> set (trace s')
    \<and> next_id s \<notin> set (submitted_ids (trace s))"
proof -
  let ?k = "js_trim ck"
  let ?t = "push_work ?k None (tick s)"
  let ?w = "\<lparr>wid = next_id s, deadline = None, armed = False\<rparr>"
  have inv: "tac_inv s" using assms(1) by (rule inv_reachable)
  then have core: "core_ok ?t"
    using inv_tick [of s] assms(2) by (auto simp: tac_inv_def intro: core_push)
  have ok: "keys_ok ?t" using core by (simp add: core_but_def)
  have r: "r = Inr (next_id s)" and s': "s' = pump clock ?t"
    using assms by (auto simp: schedule_def Let_def tick_def)
  have idle: "\<not> runnable s k" for k
    using inv assms(3) by (simp add: tac_inv_def work_conserving_def)
  have empty: "queue_of ?k s = []" using idle [of ?k] assms(2,4) by (simp add: runnable_def)
  have only: "runnable ?t k \<longleftrightarrow> k = ?k" for k
    using idle [of k] assms(2,4) by (auto simp: runnable_def push_fields push_queue_of tick_def)
  obtain r1 s1 where nr: "next_runnable_key ?t = (r1, s1)" by (cases "next_runnable_key ?t")
  obtain c where s1: "s1 = ?t\<lparr>cursor := c\<rparr>" using next_runnable_key_frame [OF nr] by blast
  have r1: "r1 = Some ?k"
  proof (cases r1)
    case None
    with next_runnable_key_None [OF ok, of s1 ?k] nr only show ?thesis by simp
  next
    case (Some k)
    with nr have "runnable s1 k" by (metis next_runnable_key_runnable)
    with only s1 Some show ?thesis by simp
  qed
  have "queue_of ?k s1 = [?w]" using s1 empty by (simp add: push_queue_of tick_def)
  then obtain s2 where t: "take_work ?k s1 = Some (?w, s2)" by (simp add: take_work_def)
  have core1: "core_ok s1" using core nr by (rule core_next_runnable)
  have a: "core_ok (admit clock ?k ?w s2)"
    using core_admit [OF core1 _ _ t] only s1 assms(3) by (simp add: push_fields tick_def)
  have room: "active ?t < max_concurrent ?t" using assms(3) by (simp add: push_fields tick_def)
  have "s' = pump clock (admit clock ?k ?w s2)"
    unfolding s' by (subst pump.simps) (simp add: nr r1 t room)
  with pump_trace [OF a, of clock]
  have "Started ?k (next_id s) None None \<in> set (trace s')"
    by (auto simp: admit_def start_work_def emit_def)
  moreover have "next_id s \<notin> set (submitted_ids (trace s))"
    using inv by (auto simp: tac_inv_def core_but_def ids_ok_def)
  ultimately show ?thesis using r by simp
qed

section \<open>Witnesses\<close>

text \<open>
  A concrete run with one slot and a queue of two: two turns of conversation \<open>a\<close> and one of
  \<open>b\<close> with a deadline; then the first turn is settled and finished.
\<close>

lemmas turn_evals = schedule_def js_trim_def js_space_def push_work_def arm_queue_timeout_def
  emit_def tick_def queue_of_def next_runnable_key_def runnable_def take_work_def admit_def
  start_work_def remove_key_if_empty_def remove_key_def max_safe_def notify_idle_if_settled_def
  settle_work_def finish_work_def Let_def

definition demo_clock :: "nat \<Rightarrow> int" where
  "demo_clock n = int n"

definition demo0 :: tac where
  "demo0 = \<lparr>max_concurrent = 1, max_queued = 2, queues = [], key_order = [], active_keys = {},
     idle_waiters = [], cursor = 0, active = 0, queued = 0, inflight = [], ticks = 0, next_id = 0,
     trace = []\<rparr>"

definition demo_a :: work where
  "demo_a = \<lparr>wid = 0, deadline = None, armed = False\<rparr>"

definition demo1 :: tac where
  "demo1 = snd (schedule demo_clock [97] None demo0)"

definition demo2 :: tac where
  "demo2 = snd (schedule demo_clock [97] None demo1)"

definition demo3 :: tac where
  "demo3 = snd (schedule demo_clock [98] (Some (JInt 50)) demo2)"

definition demo4 :: tac where
  "demo4 = settle_work [97] demo_a True demo3"

definition demo5 :: tac where
  "demo5 = finish_work demo_clock [97] demo_a demo4"

lemma demo0_new: "new_controller (JInt 1) (JInt 2) = Inr demo0"
  by (simp add: new_controller_def demo0_def pi_max_concurrent_turns_min_def
      pi_max_concurrent_turns_max_def pi_max_queued_turns_min_def pi_max_queued_turns_max_def)

lemma demo1_eq: "demo1 = \<lparr>max_concurrent = 1, max_queued = 2, queues = [([97], [])],
    key_order = [[97]], active_keys = {[97]}, idle_waiters = [], cursor = 0, active = 1,
    queued = 0, inflight = [([97], demo_a, False)], ticks = 1, next_id = 1,
    trace = [Submitted [97] 0, Started [97] 0 None None]\<rparr>"
  by (simp add: demo1_def demo0_def demo_a_def turn_evals pump.simps)

lemma demo2_eq: "demo2 = demo1\<lparr>queues := [([97], [\<lparr>wid = 1, deadline = None, armed = False\<rparr>])],
    queued := 1, ticks := 2, next_id := 2, trace := trace demo1 @ [Submitted [97] 1]\<rparr>"
  by (simp add: demo2_def demo1_eq demo_a_def turn_evals pump.simps)

lemma demo3_eq: "demo3 = demo2\<lparr>queues := [([97], [\<lparr>wid = 1, deadline = None, armed = False\<rparr>]),
      ([98], [\<lparr>wid = 2, deadline = Some 50, armed = True\<rparr>])],
    key_order := [[97], [98]], queued := 2, ticks := 4, next_id := 3,
    trace := trace demo2 @ [Submitted [98] 2]\<rparr>"
  by (simp add: demo3_def demo2_eq demo1_eq demo_a_def demo_clock_def turn_evals pump.simps)

lemma demo5_eq:
  "active demo5 = 1 \<and> queued demo5 = 1 \<and> active_keys demo5 = {[97]} \<and> settled_ids (trace demo5) = [0]"
  by (simp add: demo5_def demo4_def demo3_eq demo2_eq demo1_eq demo_a_def demo_clock_def turn_evals
      pump.simps)

lemma reachable_schedule:
  "tac_reachable clock s \<Longrightarrow> tac_reachable clock (snd (schedule clock k d s))"
  by (rule tac_reachable.step [OF _ step_schedule])

lemma demo_reachable: "tac_reachable demo_clock demo3" "tac_reachable demo_clock demo5"
proof -
  have d3: "tac_reachable demo_clock demo3"
    unfolding demo3_def demo2_def demo1_def
    by (intro reachable_schedule) (rule tac_reachable.start [OF demo0_new])
  moreover have "tac_reachable demo_clock demo4"
    unfolding demo4_def
    by (rule tac_reachable.step [OF d3 step_settle]) (simp add: demo3_eq demo2_eq demo1_eq)
  then show "tac_reachable demo_clock demo5"
    unfolding demo5_def
    by (rule tac_reachable.step [OF _ step_finish])
      (simp add: demo4_def settle_work_def emit_def demo3_eq demo2_eq demo1_eq)
  show "tac_reachable demo_clock demo3" by (rule d3)
qed

theorem admission_bounds_witness:
  "active demo5 = 1 \<and> queued demo5 = 1 \<and> active demo5 \<le> max_concurrent demo5
    \<and> active demo5 = int (card (active_keys demo5))"
  using admission_bounds [OF demo_reachable(2)] demo5_eq by simp

theorem admission_exactly_once_witness:
  "settled_ids (trace demo5) = [0] \<and> distinct (submitted_ids (trace demo5))
    \<and> mset (submitted_ids (trace demo5))
      = mset (map wid (queued_works demo5)) + mset (running_ids demo5) + mset (settled_ids (trace demo5))"
  using admission_exactly_once [OF demo_reachable(2)] demo5_eq by simp

theorem admission_fifo_witness:
  "subseq (starts_of [97] (trace demo3) @ map wid (queue_of [97] demo3)) (submits_of [97] (trace demo3))
    \<and> starts_of [97] (trace demo3) = [0] \<and> map wid (queue_of [97] demo3) = [1]"
  using admission_fifo [OF demo_reachable(1), of "[97]"]
  by (simp add: demo3_eq demo2_eq demo1_eq queue_of_def)

definition demo_late :: tac where
  "demo_late = snd (schedule demo_clock [98] (Some (JInt 50)) demo0)"

lemma demo_late_reachable: "tac_reachable demo_clock demo_late"
  unfolding demo_late_def
  by (rule tac_reachable.step [OF tac_reachable.start [OF demo0_new] step_schedule])

lemma demo_late_started: "Started [98] 0 (Some 50) (Some 2) \<in> set (trace demo_late)"
  by (simp add: demo_late_def demo0_def demo_clock_def turn_evals pump.simps)

theorem admission_deadline_witness:
  "Started [98] 0 (Some 50) (Some 2) \<in> set (trace demo_late) \<and> (\<exists>t. Some 2 = Some t \<and> t < (50::int))"
  using admission_deadline [OF demo_late_reachable demo_late_started] demo_late_started by simp

lemma demo0_reachable: "tac_reachable demo_clock demo0"
  by (rule tac_reachable.start [OF demo0_new])

theorem admission_work_conserving_witness:
  "active demo0 < max_concurrent demo0 \<and> \<not> runnable demo0 [97] \<and> queued demo0 = 0
    \<and> idle_waiters demo0 = []"
proof -
  have "active demo0 < max_concurrent demo0" "active demo0 = 0" by (simp_all add: demo0_def)
  with admission_work_conserving [OF demo0_reachable] show ?thesis by blast
qed

definition demo_ring :: tac where
  "demo_ring = snd (schedule demo_clock [99] None (snd (schedule demo_clock [98] None demo1)))"

lemma demo_ring_reachable: "tac_reachable demo_clock demo_ring"
  unfolding demo_ring_def demo1_def
  by (intro reachable_schedule demo0_reachable)

lemma demo_ring_eq: "demo_ring = demo1\<lparr>queues := [([97], []),
      ([98], [\<lparr>wid = 1, deadline = None, armed = False\<rparr>]),
      ([99], [\<lparr>wid = 2, deadline = None, armed = False\<rparr>])],
    key_order := [[97], [98], [99]], queued := 2, ticks := 3, next_id := 3,
    trace := trace demo1 @ [Submitted [98] 1, Submitted [99] 2]\<rparr>"
  by (simp add: demo_ring_def demo1_eq turn_evals pump.simps)

lemma demo_ring_facts:
  "next_runnable_key demo_ring = (Some [98], demo_ring\<lparr>cursor := 2\<rparr>)" "runnable demo_ring [99]"
  "ring demo_ring 2 = [99]"
  by (simp_all add: demo_ring_eq demo1_eq turn_evals ring_def)

theorem admission_ring_fair_witness:
  "runnable demo_ring [99] \<and> ring demo_ring 2 = [99]
    \<and> (\<exists>i'. i' < 2 \<and> ring (demo_ring\<lparr>cursor := 2\<rparr>) i' = [99])"
proof -
  have "[98::nat] \<noteq> [99]" by simp
  from admission_ring_fair [OF demo_ring_reachable demo_ring_facts(1-3) this] demo_ring_facts
  show ?thesis by blast
qed

theorem admission_drains_witness:
  "queued demo5 = 1 \<and> (\<exists>s'. (drain_step demo_clock)\<^sup>*\<^sup>* demo5 s' \<and> active s' = 0 \<and> queued s' = 0)"
  using admission_drains [OF demo_reachable(2)] demo5_eq by blast

theorem admission_immediate_start_witness:
  "fst (schedule demo_clock [97] None demo0) = Inr 0
    \<and> Started [97] 0 None None \<in> set (trace demo1)"
proof -
  have t: "js_trim [97] = [97]" by (simp add: js_trim_def js_space_def)
  have "js_trim [97] \<noteq> []" "active demo0 < max_concurrent demo0" "js_trim [97] \<notin> active_keys demo0"
    by (simp_all add: t demo0_def)
  from admission_immediate_start [OF demo0_reachable this prod.collapse [symmetric]]
  show ?thesis by (simp add: t demo1_def demo0_def)
qed

end
