(* ===== verification/Json_Text.thy ===== *)
theory Json_Text
  imports Lethe_Prelude
begin

text \<open>
  Values of unknown shape, as the program meets them in requests and in JSON columns, and the
  text \<open>JSON.stringify\<close> gives for strings and for objects of rendered fields.  The reader
  \<open>unjson\<close> takes a quoted string back apart, so rendered strings can be told apart inside a
  longer text; the registries and the job payloads rest on that.
\<close>

section \<open>Untrusted values\<close>

text \<open>A \<open>Date\<close> is its time value, which an invalid date lacks.\<close>

datatype jval =
    JUndefined | JNull | JBool bool | JNum js_number | JStr jstr | JDate "int option"
  | JArr "jval list" | JObj "(jstr \<times> jval) list"

fun is_record :: "jval \<Rightarrow> bool" where
  "is_record (JObj fs) = True"
| "is_record v = False"

fun get_field :: "jval \<Rightarrow> jstr \<Rightarrow> jval" where
  "get_field (JObj fs) k = (case map_of fs k of None \<Rightarrow> JUndefined | Some v \<Rightarrow> v)"
| "get_field v k = JUndefined"

fun object_keys :: "jval \<Rightarrow> jstr list" where
  "object_keys (JObj fs) = map fst fs"
| "object_keys v = []"

fun string_of :: "jval \<Rightarrow> jstr" where
  "string_of (JStr s) = s"
| "string_of v = []"

section \<open>JSON texts\<close>

definition hex_char :: "nat \<Rightarrow> nat" where
  "hex_char n = (if n < 10 then 48 + n else 87 + n)"

definition unicode_escape :: "nat \<Rightarrow> jstr" where
  "unicode_escape c = [92, 117, hex_char (c div 4096), hex_char (c div 256 mod 16),
     hex_char (c div 16 mod 16), hex_char (c mod 16)]"

definition high_surrogate :: "nat \<Rightarrow> bool" where
  "high_surrogate c \<longleftrightarrow> 55296 \<le> c \<and> c \<le> 56319"

definition low_surrogate :: "nat \<Rightarrow> bool" where
  "low_surrogate c \<longleftrightarrow> 56320 \<le> c \<and> c \<le> 57343"

definition simple_escapes :: "(nat \<times> nat) list" where
  "simple_escapes = [(34, 34), (92, 92), (8, 98), (12, 102), (10, 110), (13, 114), (9, 116)]"

text \<open>\<open>QuoteJSONString\<close> of ECMAScript: lone surrogates and control characters are escaped.\<close>

fun json_chars :: "jstr \<Rightarrow> jstr" where
  "json_chars [] = []"
| "json_chars (c # cs) =
     (case map_of simple_escapes c of
        Some e \<Rightarrow> 92 # e # json_chars cs
      | None \<Rightarrow>
          if c < 32 then unicode_escape c @ json_chars cs
          else if high_surrogate c then
            (case cs of
               d # ds \<Rightarrow> if low_surrogate d then c # d # json_chars ds else unicode_escape c @ json_chars cs
             | [] \<Rightarrow> unicode_escape c)
          else if low_surrogate c then unicode_escape c @ json_chars cs
          else c # json_chars cs)"

definition json_string :: "jstr \<Rightarrow> jstr" where
  "json_string s = 34 # json_chars s @ [34]"

text \<open>An object of already rendered values, in the order of its fields.\<close>

fun json_fields :: "(jstr \<times> jstr) list \<Rightarrow> jstr" where
  "json_fields [] = []"
| "json_fields [(k, v)] = json_string k @ 58 # v"
| "json_fields ((k, v) # p # ps) = json_string k @ 58 # v @ 44 # json_fields (p # ps)"

definition json_object :: "(jstr \<times> jstr) list \<Rightarrow> jstr" where
  "json_object fs = 123 # json_fields fs @ [125]"

subsection \<open>A reader for quoted strings\<close>

definition unhex :: "nat \<Rightarrow> nat" where
  "unhex c = (if c < 58 then c - 48 else c - 87)"

fun unjson :: "jstr \<Rightarrow> (jstr \<times> jstr) option" where
  "unjson [] = None"
| "unjson (c # cs) =
     (if c = 34 then Some ([], cs)
      else if c = 92 then
        (case cs of
           e # r \<Rightarrow>
             if e = 117 then
               (case r of
                  h1 # h2 # h3 # h4 # r' \<Rightarrow>
                    map_option (\<lambda>(s, t). ((unhex h1 * 4096 + unhex h2 * 256 + unhex h3 * 16 + unhex h4) # s, t))
                      (unjson r')
                | _ \<Rightarrow> None)
             else (case map_of (map prod.swap simple_escapes) e of
                 None \<Rightarrow> None
               | Some x \<Rightarrow> map_option (\<lambda>(s, t). (x # s, t)) (unjson r))
         | [] \<Rightarrow> None)
      else map_option (\<lambda>(s, t). (c # s, t)) (unjson cs))"

definition utf16 :: "jstr \<Rightarrow> bool" where
  "utf16 s \<longleftrightarrow> list_all (\<lambda>c. c < 65536) s"

lemma unhex_hex [simp]: "n < 16 \<Longrightarrow> unhex (hex_char n) = n"
  by (auto simp: unhex_def hex_char_def)

lemma hex_value: "c < 65536 \<Longrightarrow>
    unhex (hex_char (c div 4096)) * 4096 + unhex (hex_char (c div 256 mod 16)) * 256
      + unhex (hex_char (c div 16 mod 16)) * 16 + unhex (hex_char (c mod 16)) = (c::nat)"
proof -
  assume "c < 65536"
  then have small: "c div 4096 < 16" by (simp add: less_mult_imp_div_less)
  have step: "x = x div 16 * 16 + x mod 16" for x :: nat by simp
  have d: "c div 256 = c div 16 div 16" "c div 4096 = c div 256 div 16" by (simp_all flip: div_mult2_eq)
  have sum: "c = c div 4096 * 4096 + c div 256 mod 16 * 256 + c div 16 mod 16 * 16 + c mod 16"
    using step [of c] step [of "c div 16"] step [of "c div 256"] d
    by linarith
  show ?thesis
    using small sum by (simp only: unhex_hex mod_less_divisor zero_less_numeral)
qed

lemma unjson_escape:
  "c < 65536 \<Longrightarrow> unjson (unicode_escape c @ r) = map_option (\<lambda>(s, t). (c # s, t)) (unjson r)"
  using hex_value [of c] by (simp add: unicode_escape_def)

lemma simple_escape_back:
  "map_of simple_escapes c = Some e \<Longrightarrow> map_of (map prod.swap simple_escapes) e = Some c \<and> e \<noteq> 117"
  by (auto simp: simple_escapes_def split: if_splits)

lemma unjson_json_chars: "utf16 s \<Longrightarrow> unjson (json_chars s @ 34 # r) = Some (s, r)"
proof (induction s rule: json_chars.induct)
  case (2 c cs)
  then have c: "c < 65536" and cs: "utf16 cs" by (simp_all add: utf16_def)
  show ?case
  proof (cases "map_of simple_escapes c")
    case (Some e)
    with "2.IH" cs simple_escape_back [OF Some] show ?thesis by simp
  next
    case None
    then have plain: "c \<noteq> 34" "c \<noteq> 92" by (auto simp: simple_escapes_def split: if_splits)
    note esc = unjson_escape [OF c]
    consider (low) "c < 32" | (pair) d ds where "\<not> c < 32" "high_surrogate c" "cs = d # ds" "low_surrogate d"
      | (single) "\<not> c < 32" "high_surrogate c" "\<And>d ds. cs = d # ds \<Longrightarrow> \<not> low_surrogate d"
      | (tail) "\<not> c < 32" "\<not> high_surrogate c" by blast
    then show ?thesis
    proof cases
      case low
      with None esc "2.IH" cs show ?thesis by simp
    next
      case pair
      then have "d \<noteq> 34" "d \<noteq> 92" by (auto simp: low_surrogate_def)
      with pair None plain "2.IH" cs show ?thesis by (simp add: utf16_def)
    next
      case single
      with None esc "2.IH" cs show ?thesis by (cases cs) auto
    next
      case tail
      with None plain esc "2.IH" cs show ?thesis by (cases "low_surrogate c") auto
    qed
  qed
qed simp

declare json_chars.simps [simp del] unjson.simps [simp del]

text \<open>Rendered strings can be told apart inside a longer text.\<close>

lemma json_string_prefix:
  assumes "utf16 a" and "utf16 b"
  shows "json_string a @ x = json_string b @ y \<longleftrightarrow> a = b \<and> x = y"
proof
  assume "json_string a @ x = json_string b @ y"
  then have "unjson (json_chars a @ 34 # x) = unjson (json_chars b @ 34 # y)"
    by (simp add: json_string_def)
  with assms show "a = b \<and> x = y" by (simp add: unjson_json_chars)
qed simp

lemma json_string_inject: "utf16 a \<Longrightarrow> utf16 b \<Longrightarrow> json_string a = json_string b \<longleftrightarrow> a = b"
  using json_string_prefix [of a b "[]" "[]"] by simp

definition string_fields :: "(jstr \<times> jstr) list \<Rightarrow> (jstr \<times> jstr) list" where
  "string_fields fs = map (\<lambda>(k, v). (k, json_string v)) fs"

lemma json_fields_prefix:
  assumes "list_all (\<lambda>(k, v). utf16 k \<and> utf16 v) fs" and "list_all (\<lambda>(k, v). utf16 k \<and> utf16 v) gs"
    and "fs \<noteq> []" and "gs \<noteq> []"
  shows "json_fields (string_fields fs) @ 125 # x = json_fields (string_fields gs) @ 125 # y
    \<longleftrightarrow> fs = gs \<and> x = y"
  using assms
proof (induction fs arbitrary: gs)
  case (Cons f fs)
  obtain k v where f: "f = (k, v)" by (cases f)
  from Cons.prems obtain k' v' gs' where g: "gs = (k', v') # gs'" by (cases gs) auto
  have u: "utf16 k" "utf16 v" "utf16 k'" "utf16 v'" using Cons.prems f g by auto
  show ?case
  proof (cases "fs = [] \<or> gs' = []")
    case True
    then show ?thesis
      using u by (cases fs; cases gs')
        (auto simp: f g string_fields_def json_string_prefix)
  next
    case False
    then obtain f2 fs2 g2 gs2 where fs: "fs = f2 # fs2" and gs': "gs' = g2 # gs2"
      by (meson neq_Nil_conv)
    have "json_fields (string_fields fs) @ 125 # x = json_fields (string_fields gs') @ 125 # y
        \<longleftrightarrow> fs = gs' \<and> x = y"
      using Cons.prems False f g by (intro Cons.IH) auto
    then show ?thesis
      using u by (cases f2; cases g2) (simp add: f g fs gs' string_fields_def json_string_prefix)
  qed
qed simp

lemma utf16_lit [simp]: "utf16 (lit s)"
proof -
  have "(of_char c :: nat) < 65536" for c
    by (rule less_trans [of _ 256]) (simp_all)
  then show ?thesis by (simp add: utf16_def lit_def list_all_iff)
qed

lemma utf16_json_chars: "utf16 s \<Longrightarrow> utf16 (json_chars s)"
proof (induction s rule: json_chars.induct)
  case (2 c cs)
  have esc: "utf16 (unicode_escape n)" if "n < 65536" for n
  proof -
    have hex: "hex_char k < 65536" if "k < 16" for k using that by (simp add: hex_char_def)
    have "n div 4096 < 16" using that by (simp add: less_mult_imp_div_less)
    then show ?thesis by (simp add: unicode_escape_def utf16_def hex)
  qed
  have simple: "e < 65536" if "map_of simple_escapes c = Some e" for e
    using that by (auto simp: simple_escapes_def split: if_splits)
  have c: "c < 65536" "utf16 cs" using "2.prems" by (simp_all add: utf16_def)
  show ?case
  proof (cases "map_of simple_escapes c")
    case (Some e)
    with 2 c simple show ?thesis by (simp add: json_chars.simps utf16_def)
  next
    case None
    with 2 c esc [of c] show ?thesis
      by (cases cs) (simp_all add: json_chars.simps utf16_def)
  qed
qed (simp add: json_chars.simps)

lemma utf16_append [simp]: "utf16 (a @ b) \<longleftrightarrow> utf16 a \<and> utf16 b"
  and utf16_Cons [simp]: "utf16 (c # a) \<longleftrightarrow> c < 65536 \<and> utf16 a"
  and utf16_Nil [simp]: "utf16 []"
  by (simp_all add: utf16_def)

lemma utf16_json_string: "utf16 s \<Longrightarrow> utf16 (json_string s)"
  by (simp add: json_string_def utf16_json_chars)

end
