(* ===== verification/Governance_Scope.thy ===== *)
theory Governance_Scope
  imports Json_Text
begin

text \<open>
  What the three governance handle registries of \<open>src/http/\<close> share: the check of an
  untrusted scope value (\<open>normalizeScope\<close>, \<open>hasExactKeys\<close>, \<open>isBoundedString\<close>), the
  patterns of session ids, digests and opaque handles, the random handles themselves, and
  the text \<open>JSON.stringify\<close> gives for a normalised scope, which the registries compare
  and hash.  The last section proves that this text determines the scope.
\<close>

section \<open>Keys and bounded strings\<close>

definition has_exact_keys :: "jval \<Rightarrow> jstr list \<Rightarrow> bool" where
  "has_exact_keys v keys =
     (let actual = sort (object_keys v); expected = sort keys
      in length actual = length expected \<and> list_all2 (=) actual expected)"

text \<open>Control characters are single code units, so the test per code point is one per code unit.\<close>

fun is_bounded_string :: "jval \<Rightarrow> nat \<Rightarrow> bool" where
  "is_bounded_string (JStr s) n =
     (1 \<le> length s \<and> length s \<le> n \<and> js_trim s = s \<and> \<not> list_ex (\<lambda>c. c \<le> 31 \<or> c = 127) s)"
| "is_bounded_string v n = False"

section \<open>Scopes\<close>

datatype gov_scope =
    ScopeGlobal
  | ScopeSystem
  | ScopeUser jstr
  | ScopeGroup jstr
  | ScopeTool jstr
  | ScopePrivateConversation jstr
  | ScopeGroupConversation jstr jstr

definition max_scope_identifier_length :: nat where
  "max_scope_identifier_length = 256"

definition scope_id_ok :: "jval \<Rightarrow> jstr \<Rightarrow> bool" where
  "scope_id_ok v k = is_bounded_string (get_field v k) max_scope_identifier_length"

definition normalize_scope :: "jval \<Rightarrow> gov_scope option" where
  "normalize_scope v =
     (case get_field v (lit ''kind'') of
        JStr kind \<Rightarrow>
          if kind = lit ''global'' then (if has_exact_keys v [lit ''kind''] then Some ScopeGlobal else None)
          else if kind = lit ''system'' then (if has_exact_keys v [lit ''kind''] then Some ScopeSystem else None)
          else if kind = lit ''user'' then
            (if has_exact_keys v [lit ''kind'', lit ''canonicalUserId''] \<and> scope_id_ok v (lit ''canonicalUserId'')
             then Some (ScopeUser (string_of (get_field v (lit ''canonicalUserId'')))) else None)
          else if kind = lit ''group'' then
            (if has_exact_keys v [lit ''kind'', lit ''groupId''] \<and> scope_id_ok v (lit ''groupId'')
             then Some (ScopeGroup (string_of (get_field v (lit ''groupId'')))) else None)
          else if kind = lit ''tool'' then
            (if has_exact_keys v [lit ''kind'', lit ''toolName''] \<and> scope_id_ok v (lit ''toolName'')
             then Some (ScopeTool (string_of (get_field v (lit ''toolName'')))) else None)
          else if kind = lit ''conversation'' then
            (if get_field v (lit ''conversationType'') = JStr (lit ''private'')
                \<and> has_exact_keys v [lit ''kind'', lit ''conversationId'', lit ''conversationType'']
                \<and> scope_id_ok v (lit ''conversationId'')
             then Some (ScopePrivateConversation (string_of (get_field v (lit ''conversationId''))))
             else if get_field v (lit ''conversationType'') = JStr (lit ''group'')
                \<and> has_exact_keys v [lit ''kind'', lit ''conversationId'', lit ''conversationType'', lit ''groupId'']
                \<and> scope_id_ok v (lit ''conversationId'') \<and> scope_id_ok v (lit ''groupId'')
             then Some (ScopeGroupConversation (string_of (get_field v (lit ''conversationId'')))
                    (string_of (get_field v (lit ''groupId''))))
             else None)
          else None
      | _ \<Rightarrow> None)"

fun copy_scope :: "gov_scope \<Rightarrow> gov_scope" where
  "copy_scope ScopeGlobal = ScopeGlobal"
| "copy_scope ScopeSystem = ScopeSystem"
| "copy_scope (ScopeUser u) = ScopeUser u"
| "copy_scope (ScopeGroup g) = ScopeGroup g"
| "copy_scope (ScopeTool t) = ScopeTool t"
| "copy_scope (ScopePrivateConversation c) = ScopePrivateConversation c"
| "copy_scope (ScopeGroupConversation c g) = ScopeGroupConversation c g"

lemma copy_scope_id [simp]: "copy_scope s = s"
  by (cases s) simp_all

text \<open>The identifiers of a scope, and what normalisation guarantees of them.\<close>

fun scope_ids :: "gov_scope \<Rightarrow> jstr list" where
  "scope_ids ScopeGlobal = []"
| "scope_ids ScopeSystem = []"
| "scope_ids (ScopeUser u) = [u]"
| "scope_ids (ScopeGroup g) = [g]"
| "scope_ids (ScopeTool t) = [t]"
| "scope_ids (ScopePrivateConversation c) = [c]"
| "scope_ids (ScopeGroupConversation c g) = [c, g]"

definition scope_ok :: "gov_scope \<Rightarrow> bool" where
  "scope_ok s \<longleftrightarrow> (\<forall>i \<in> set (scope_ids s). is_bounded_string (JStr i) max_scope_identifier_length)"

lemma is_bounded_string_JStr: "is_bounded_string v n \<Longrightarrow> v = JStr (string_of v)"
  by (cases v) auto

lemma scope_id_ok_string: "scope_id_ok v k \<Longrightarrow> is_bounded_string (JStr (string_of (get_field v k))) max_scope_identifier_length"
  unfolding scope_id_ok_def by (metis is_bounded_string_JStr)

lemma normalize_scope_ok:
  assumes "normalize_scope v = Some s"
  shows "scope_ok s"
proof -
  from assms obtain kind where k: "get_field v (lit ''kind'') = JStr kind"
    unfolding normalize_scope_def by (cases "get_field v (lit ''kind'')") simp_all
  let ?id = "\<lambda>k. string_of (get_field v k)"
  from assms have "s = ScopeGlobal \<or> s = ScopeSystem \<or> (\<exists>k. scope_id_ok v k \<and> s = ScopeUser (?id k))
      \<or> (\<exists>k. scope_id_ok v k \<and> s = ScopeGroup (?id k)) \<or> (\<exists>k. scope_id_ok v k \<and> s = ScopeTool (?id k))
      \<or> (\<exists>k. scope_id_ok v k \<and> s = ScopePrivateConversation (?id k))
      \<or> (\<exists>k l. scope_id_ok v k \<and> scope_id_ok v l \<and> s = ScopeGroupConversation (?id k) (?id l))"
    unfolding normalize_scope_def k jval.case
    by (simp only: option.inject option.distinct split: if_split_asm) blast+
  then show ?thesis
    by (elim disjE exE conjE) (simp_all add: scope_ok_def scope_id_ok_string del: is_bounded_string.simps)
qed

section \<open>Patterns and random handles\<close>

definition hex_digit :: "nat \<Rightarrow> bool" where
  "hex_digit c \<longleftrightarrow> (48 \<le> c \<and> c \<le> 57) \<or> (97 \<le> c \<and> c \<le> 102)"

definition session_id_pattern :: "jstr \<Rightarrow> bool" where
  "session_id_pattern s \<longleftrightarrow> length s = 64 \<and> list_all hex_digit s"

definition base64url_char :: "nat \<Rightarrow> bool" where
  "base64url_char c \<longleftrightarrow> (65 \<le> c \<and> c \<le> 90) \<or> (97 \<le> c \<and> c \<le> 122) \<or> (48 \<le> c \<and> c \<le> 57)
     \<or> c = 95 \<or> c = 45"

definition opaque_handle_pattern :: "jstr \<Rightarrow> bool" where
  "opaque_handle_pattern s \<longleftrightarrow> length s = 43 \<and> list_all base64url_char s"

text \<open>\<open>randomBytes(32).toString('base64url')\<close>, the bytes coming from the environment.\<close>

definition base64url_digit :: "nat \<Rightarrow> nat" where
  "base64url_digit n = (if n < 26 then 65 + n else if n < 52 then 71 + n
     else if n < 62 then n - 4 else if n = 62 then 45 else 95)"

fun base64url :: "nat list \<Rightarrow> jstr" where
  "base64url (a # b # c # r) =
     [base64url_digit (a div 4), base64url_digit (a mod 4 * 16 + b div 16),
      base64url_digit (b mod 16 * 4 + c div 64), base64url_digit (c mod 64)] @ base64url r"
| "base64url [a, b] =
     [base64url_digit (a div 4), base64url_digit (a mod 4 * 16 + b div 16),
      base64url_digit (b mod 16 * 4)]"
| "base64url [a] = [base64url_digit (a div 4), base64url_digit (a mod 4 * 16)]"
| "base64url [] = []"

definition random_opaque_value :: "(nat \<Rightarrow> nat list) \<Rightarrow> nat \<Rightarrow> jstr" where
  "random_opaque_value rnd n = base64url (rnd n)"

definition random_source :: "(nat \<Rightarrow> nat list) \<Rightarrow> bool" where
  "random_source rnd \<longleftrightarrow> (\<forall>n. length (rnd n) = 32 \<and> list_all (\<lambda>b. b < 256) (rnd n))"

lemma base64url_digit_char [simp]: "base64url_char (base64url_digit n)"
  by (simp add: base64url_char_def base64url_digit_def) linarith?

lemma base64url_chars: "list_all base64url_char (base64url bs)"
  by (induction bs rule: base64url.induct) simp_all

lemma length_base64url: "length (base64url bs) = (4 * length bs + 2) div 3"
  by (induction bs rule: base64url.induct) auto

lemma random_opaque_value_pattern:
  "random_source rnd \<Longrightarrow> opaque_handle_pattern (random_opaque_value rnd n)"
  by (simp add: opaque_handle_pattern_def random_opaque_value_def random_source_def
      base64url_chars length_base64url)

section \<open>The text of a scope\<close>

definition json_kind :: "string \<Rightarrow> jstr \<times> jstr" where
  "json_kind k = (lit ''kind'', json_string (lit k))"

fun scope_fields :: "gov_scope \<Rightarrow> (jstr \<times> jstr) list" where
  "scope_fields ScopeGlobal = [json_kind ''global'']"
| "scope_fields ScopeSystem = [json_kind ''system'']"
| "scope_fields (ScopeUser u) = [json_kind ''user'', (lit ''canonicalUserId'', json_string u)]"
| "scope_fields (ScopeGroup g) = [json_kind ''group'', (lit ''groupId'', json_string g)]"
| "scope_fields (ScopeTool t) = [json_kind ''tool'', (lit ''toolName'', json_string t)]"
| "scope_fields (ScopePrivateConversation c) =
     [json_kind ''conversation'', (lit ''conversationId'', json_string c),
      (lit ''conversationType'', json_string (lit ''private''))]"
| "scope_fields (ScopeGroupConversation c g) =
     [json_kind ''conversation'', (lit ''conversationId'', json_string c),
      (lit ''conversationType'', json_string (lit ''group'')), (lit ''groupId'', json_string g)]"

definition json_scope :: "gov_scope \<Rightarrow> jstr" where
  "json_scope s = json_object (scope_fields s)"

fun plain_fields :: "gov_scope \<Rightarrow> (jstr \<times> jstr) list" where
  "plain_fields ScopeGlobal = [(lit ''kind'', lit ''global'')]"
| "plain_fields ScopeSystem = [(lit ''kind'', lit ''system'')]"
| "plain_fields (ScopeUser u) = [(lit ''kind'', lit ''user''), (lit ''canonicalUserId'', u)]"
| "plain_fields (ScopeGroup g) = [(lit ''kind'', lit ''group''), (lit ''groupId'', g)]"
| "plain_fields (ScopeTool t) = [(lit ''kind'', lit ''tool''), (lit ''toolName'', t)]"
| "plain_fields (ScopePrivateConversation c) =
     [(lit ''kind'', lit ''conversation''), (lit ''conversationId'', c), (lit ''conversationType'', lit ''private'')]"
| "plain_fields (ScopeGroupConversation c g) =
     [(lit ''kind'', lit ''conversation''), (lit ''conversationId'', c), (lit ''conversationType'', lit ''group''),
      (lit ''groupId'', g)]"

definition utf16_scope :: "gov_scope \<Rightarrow> bool" where
  "utf16_scope s \<longleftrightarrow> list_all utf16 (scope_ids s)"

lemma scope_fields_string: "scope_fields s = string_fields (plain_fields s)"
  by (cases s) (simp_all add: json_kind_def string_fields_def)

lemma plain_fields_inject: "plain_fields s = plain_fields t \<longleftrightarrow> s = t"
  by (cases s; cases t) simp_all

lemma plain_fields_utf16: "utf16_scope s \<Longrightarrow> list_all (\<lambda>(k, v). utf16 k \<and> utf16 v) (plain_fields s)"
  by (cases s) (simp_all add: utf16_scope_def)

lemma plain_fields_nonempty: "plain_fields s \<noteq> []"
  by (cases s) simp_all

lemma json_scope_prefix:
  "utf16_scope s \<Longrightarrow> utf16_scope t \<Longrightarrow> json_scope s @ x = json_scope t @ y \<longleftrightarrow> s = t \<and> x = y"
  using json_fields_prefix [OF plain_fields_utf16 plain_fields_utf16 plain_fields_nonempty plain_fields_nonempty]
  by (simp add: json_scope_def json_object_def scope_fields_string plain_fields_inject)

text \<open>
  \<open>JSON.stringify\<close> of a normalised scope determines the scope: two scopes with the same
  scope key are equal, whatever quotes, backslashes, controls or lone surrogates their
  identifiers hold.
\<close>

theorem scope_key_injective:
  "utf16_scope s \<Longrightarrow> utf16_scope t \<Longrightarrow> json_scope s = json_scope t \<longleftrightarrow> s = t"
  using json_scope_prefix [of s t "[]" "[]"] by simp

theorem scope_key_injective_witness:
  "json_scope (ScopeGroupConversation [34, 44] [120]) \<noteq> json_scope (ScopeGroupConversation [34] [44, 120])"
proof -
  have "utf16_scope (ScopeGroupConversation [34, 44] [120])" "utf16_scope (ScopeGroupConversation [34] [44, 120])"
    by (simp_all add: utf16_scope_def utf16_def)
  from scope_key_injective [OF this] show ?thesis by simp
qed

end
