(* ===== verification/Handle_Registry.thy ===== *)
theory Handle_Registry
  imports Governance_Scope
begin

text \<open>
  The store under the scope and the resource handle registries: \<open>recordsByHandle\<close> and
  \<open>handleByBinding\<close>, the removal of expired and revoked records, the drawing of a fresh
  random handle, and the common tail of \<open>issue\<close>.  A registry's own record extends
  \<open>handle_rec\<close>, as the interfaces of the source do.  The invariant \<open>reg_sync\<close> says that the
  two maps are one list of records seen from both keys; \<open>reg_bounded\<close> are the capacity
  limits.  The locale \<open>session_store\<close> is what the HTTP server relies on when it revokes a
  session.
\<close>

section \<open>State\<close>

record handle_rec =
  hr_handle :: jstr
  hr_binding :: jstr
  hr_session :: jstr
  hr_expires :: int

record 'r registry =
  by_handle :: "(jstr, 'r handle_rec_scheme) jmap"
  by_binding :: "(jstr, jstr) jmap"
  draws :: nat

datatype handle_error = InvalidHandleInput | HandleCapacity | InvalidHandleClock

definition empty_registry :: "'r registry" where
  "empty_registry = \<lparr>by_handle = [], by_binding = [], draws = 0\<rparr>"

definition max_active_sessions :: nat where
  "max_active_sessions = 8"

definition max_handles_per_session :: nat where
  "max_handles_per_session = 512"

definition max_session_ttl_ms :: int where
  "max_session_ttl_ms = 3600000"

definition max_purpose_length :: nat where
  "max_purpose_length = 128"

definition records :: "'r registry \<Rightarrow> 'r handle_rec_scheme list" where
  "records reg = map snd (by_handle reg)"

section \<open>Operations\<close>

fun read_now :: "js_number \<Rightarrow> int option" where
  "read_now now = (if \<not> is_safe_integer now \<or> int_value now < 0 then None else Some (int_value now))"

definition remove_record :: "jstr \<Rightarrow> 'r handle_rec_scheme \<Rightarrow> 'r registry \<Rightarrow> 'r registry" where
  "remove_record h r reg =
     (let reg1 = reg\<lparr>by_handle := AList.delete h (by_handle reg)\<rparr>
      in if map_of (by_binding reg1) (hr_binding r) = Some h
         then reg1\<lparr>by_binding := AList.delete (hr_binding r) (by_binding reg1)\<rparr> else reg1)"

definition remove_where :: "('r handle_rec_scheme \<Rightarrow> bool) \<Rightarrow> 'r registry \<Rightarrow> 'r registry" where
  "remove_where P reg =
     fold (\<lambda>(h, r) reg. if P r then remove_record h r reg else reg) (by_handle reg) reg"

definition remove_expired :: "int \<Rightarrow> 'r registry \<Rightarrow> 'r registry" where
  "remove_expired now reg = remove_where (\<lambda>r. hr_expires r \<le> now) reg"

definition revoke_session :: "jstr \<Rightarrow> 'r registry \<Rightarrow> 'r registry" where
  "revoke_session sid reg =
     (if \<not> session_id_pattern sid then reg else remove_where (\<lambda>r. hr_session r = sid) reg)"

definition clear_registry :: "'r registry \<Rightarrow> 'r registry" where
  "clear_registry reg = reg\<lparr>by_handle := [], by_binding := []\<rparr>"

definition session_records :: "jstr \<Rightarrow> 'r registry \<Rightarrow> 'r handle_rec_scheme list" where
  "session_records sid reg = filter (\<lambda>r. hr_session r = sid) (records reg)"

definition active_session_count :: "'r registry \<Rightarrow> nat" where
  "active_session_count reg = length (remdups (map hr_session (records reg)))"

text \<open>The drawing loop runs until an unused handle comes up; it need not end.\<close>

partial_function (option) fresh_handle ::
  "(nat \<Rightarrow> nat list) \<Rightarrow> (jstr, 'a) jmap \<Rightarrow> nat \<Rightarrow> (jstr \<times> nat) option" where
  "fresh_handle rnd m n =
     (if random_opaque_value rnd n \<in> fst ` set m then fresh_handle rnd m (Suc n)
      else Some (random_opaque_value rnd n, Suc n))"

definition existing_record :: "jstr \<Rightarrow> 'r registry \<Rightarrow> 'r handle_rec_scheme option" where
  "existing_record bk reg =
     (case map_of (by_binding reg) bk of
        None \<Rightarrow> None
      | Some h \<Rightarrow> if h = [] then None else map_of (by_handle reg) h)"

definition issue_record ::
  "(nat \<Rightarrow> nat list) \<Rightarrow> int \<Rightarrow> jstr \<Rightarrow> int \<Rightarrow> jstr \<Rightarrow> (jstr \<Rightarrow> 'r handle_rec_scheme)
    \<Rightarrow> 'r registry \<Rightarrow> ('r registry \<times> (handle_error + (jstr \<times> int))) option" where
  "issue_record rnd now sid ex bk mk reg =
     (let reg1 = remove_expired now reg; mine = session_records sid reg1
      in if list_ex (\<lambda>r. hr_expires r \<noteq> ex) mine then Some (reg1, Inl InvalidHandleInput)
         else case existing_record bk reg1 of
           Some r \<Rightarrow> Some (reg1, Inr (hr_handle r, hr_expires r))
         | None \<Rightarrow>
             if (mine = [] \<and> max_active_sessions \<le> active_session_count reg1)
                \<or> max_handles_per_session \<le> length mine
             then Some (reg1, Inl HandleCapacity)
             else map_option
               (\<lambda>(h, n). (reg1\<lparr>by_handle := AList.update h (mk h) (by_handle reg1),
                               by_binding := AList.update bk h (by_binding reg1), draws := n\<rparr>,
                          Inr (h, hr_expires (mk h))))
               (fresh_handle rnd (by_handle reg1) (draws reg1)))"

section \<open>The drawing loop\<close>

text \<open>\<open>can_draw rnd m n\<close>: some draw from the \<open>n\<close>-th on is not a key of \<open>m\<close>.\<close>

definition can_draw :: "(nat \<Rightarrow> nat list) \<Rightarrow> (jstr, 'a) jmap \<Rightarrow> nat \<Rightarrow> bool" where
  "can_draw rnd m n \<longleftrightarrow> (\<exists>k. random_opaque_value rnd (n + k) \<notin> fst ` set m)"

lemma fresh_handle_result:
  assumes "fresh_handle rnd m n = Some y"
  shows "fst y \<notin> fst ` set m \<and> n < snd y \<and> (\<exists>k. fst y = random_opaque_value rnd k)"
proof (rule fresh_handle.raw_induct [OF _ assms], goal_cases)
  case (1 fh rnd m n y)
  show ?case
  proof (cases "random_opaque_value rnd n \<in> fst ` set m")
    case True
    with 1(2) have "fh rnd m (Suc n) = Some y" by simp
    from 1(1) [OF this] show ?thesis by (simp add: Suc_lessD)
  next
    case False
    with 1(2) have "y = (random_opaque_value rnd n, Suc n)" by simp
    with False show ?thesis by (metis fst_conv snd_conv lessI)
  qed
qed

lemma fresh_handle_SomeD:
  "fresh_handle rnd m n = Some (h, n') \<Longrightarrow>
    h \<notin> fst ` set m \<and> n < n' \<and> (\<exists>k. h = random_opaque_value rnd k)"
  using fresh_handle_result [of rnd m n "(h, n')"] by simp

lemma fresh_handle_returns:
  "can_draw rnd m n \<Longrightarrow> \<exists>h n'. fresh_handle rnd m n = Some (h, n')"
proof -
  have "random_opaque_value rnd (n + k) \<notin> fst ` set m \<Longrightarrow> \<exists>h n'. fresh_handle rnd m n = Some (h, n')" for k
  proof (induction k arbitrary: n)
    case (Suc k)
    then show ?case by (subst fresh_handle.simps) (simp del: split_paired_Ex)
  qed (simp add: fresh_handle.simps)
  then show "can_draw rnd m n \<Longrightarrow> ?thesis" by (auto simp: can_draw_def)
qed

section \<open>The two maps are one list\<close>

definition reg_sync :: "'r registry \<Rightarrow> bool" where
  "reg_sync reg \<longleftrightarrow>
     distinct (map fst (by_handle reg)) \<and> distinct (map hr_binding (records reg))
     \<and> by_binding reg = map (\<lambda>(h, r). (hr_binding r, h)) (by_handle reg)
     \<and> (\<forall>(h, r) \<in> set (by_handle reg). hr_handle r = h \<and> opaque_handle_pattern h)"

lemma delete_middle:
  "distinct (map fst (zs @ (k, v) # ys)) \<Longrightarrow> AList.delete k (zs @ (k, v) # ys) = zs @ ys"
  by (induction zs) auto

lemma reg_sync_drop:
  assumes "reg_sync reg" and "by_handle reg = zs @ (h, r) # ys"
  shows "reg_sync (remove_record h r reg) \<and> by_handle (remove_record h r reg) = zs @ ys
    \<and> draws (remove_record h r reg) = draws reg"
proof -
  let ?flip = "\<lambda>(h, r). (hr_binding r, h)"
  have d: "distinct (map fst (zs @ (h, r) # ys))" using assms by (simp add: reg_sync_def)
  have b: "by_binding reg = map ?flip zs @ (hr_binding r, h) # map ?flip ys"
    using assms by (simp add: reg_sync_def)
  have bd: "distinct (map fst (by_binding reg))"
    using assms(1) by (simp add: reg_sync_def records_def case_prod_unfold comp_def)
  have "map_of (by_binding reg) (hr_binding r) = Some h"
    using bd by (intro map_of_is_SomeI) (simp_all add: b)
  moreover have "AList.delete (hr_binding r) (by_binding reg) = map ?flip (zs @ ys)"
    using delete_middle [OF bd [unfolded b]] by (simp add: b)
  moreover have "AList.delete h (by_handle reg) = zs @ ys"
    unfolding assms(2) using d by (rule delete_middle)
  ultimately have "remove_record h r reg = reg\<lparr>by_handle := zs @ ys, by_binding := map ?flip (zs @ ys)\<rparr>"
    by (simp add: remove_record_def Let_def)
  then show ?thesis using assms by (auto simp: reg_sync_def records_def)
qed

lemma remove_where_spec:
  assumes "reg_sync reg"
  shows "reg_sync (remove_where P reg)"
    and "by_handle (remove_where P reg) = filter (\<lambda>(h, r). \<not> P r) (by_handle reg)"
    and "draws (remove_where P reg) = draws reg"
proof -
  let ?f = "\<lambda>(h, r) reg. if P r then remove_record h r reg else reg"
  have "reg_sync (fold ?f ys reg) \<and> by_handle (fold ?f ys reg) = zs @ filter (\<lambda>(h, r). \<not> P r) ys
      \<and> draws (fold ?f ys reg) = draws reg"
    if "reg_sync reg" "by_handle reg = zs @ ys" for ys zs and reg :: "'a registry"
    using that
  proof (induction ys arbitrary: zs reg)
    case (Cons y ys)
    obtain h r where y: "y = (h, r)" by fastforce
    show ?case
    proof (cases "P r")
      case True
      note drop = reg_sync_drop [OF Cons.prems(1), of zs h r ys]
      from True drop Cons.prems Cons.IH [of "remove_record h r reg" zs] y show ?thesis by simp
    next
      case False
      with Cons.prems Cons.IH [of reg "zs @ [y]"] y show ?thesis by simp
    qed
  qed simp
  from this [OF assms, of "[]"] show "reg_sync (remove_where P reg)"
    "by_handle (remove_where P reg) = filter (\<lambda>(h, r). \<not> P r) (by_handle reg)"
    "draws (remove_where P reg) = draws reg"
    by (simp_all add: remove_where_def)
qed

lemma records_remove_where:
  "reg_sync reg \<Longrightarrow> records (remove_where P reg) = filter (\<lambda>r. \<not> P r) (records reg)"
  by (simp add: records_def remove_where_spec filter_map comp_def case_prod_unfold)

lemma lookup_remove_where:
  assumes "reg_sync reg"
  shows "map_of (by_handle (remove_where P reg)) h
    = (case map_of (by_handle reg) h of Some r \<Rightarrow> if P r then None else Some r | None \<Rightarrow> None)"
proof -
  have "map_of (filter (\<lambda>(h, r). \<not> P r) xs) h
      = (case map_of xs h of Some r \<Rightarrow> if P r then None else Some r | None \<Rightarrow> None)"
    if "distinct (map fst xs)" for xs :: "(jstr \<times> 'a handle_rec_scheme) list"
    using that by (induction xs) (auto simp: map_of_eq_None_iff split: option.splits
        dest: map_of_SomeD)
  with assms show ?thesis by (simp add: remove_where_spec reg_sync_def)
qed

lemma existing_record_sync:
  assumes "reg_sync reg"
  shows "existing_record bk reg = Some r \<longleftrightarrow> r \<in> set (records reg) \<and> hr_binding r = bk"
proof -
  have bd: "distinct (map fst (by_binding reg))" and hd: "distinct (map fst (by_handle reg))"
    using assms by (simp_all add: reg_sync_def records_def case_prod_unfold comp_def)
  have pat: "h \<noteq> []" if "(h, r) \<in> set (by_handle reg)" for h r
    using assms that by (fastforce simp: reg_sync_def opaque_handle_pattern_def)
  have flip: "(bk, h) \<in> set (by_binding reg) \<longleftrightarrow> (\<exists>r. (h, r) \<in> set (by_handle reg) \<and> hr_binding r = bk)" for h
    using assms by (force simp: reg_sync_def)
  have "existing_record bk reg = Some r \<longleftrightarrow>
      (\<exists>h. map_of (by_binding reg) bk = Some h \<and> h \<noteq> [] \<and> map_of (by_handle reg) h = Some r)"
    by (auto simp: existing_record_def split: option.splits)
  also have "\<dots> \<longleftrightarrow> (\<exists>h. (\<exists>r'. (h, r') \<in> set (by_handle reg) \<and> hr_binding r' = bk) \<and> (h, r) \<in> set (by_handle reg))"
    using bd hd pat by (simp only: map_of_eq_Some_iff flip) blast
  also have "\<dots> \<longleftrightarrow> r \<in> set (records reg) \<and> hr_binding r = bk"
    using eq_key_imp_eq_value [OF hd] unfolding records_def set_map image_iff
    by (metis (no_types, lifting) prod.collapse snd_conv)
  finally show ?thesis .
qed

section \<open>Issuing\<close>

definition same_expiry :: "'r registry \<Rightarrow> bool" where
  "same_expiry reg \<longleftrightarrow> (\<forall>r \<in> set (records reg). \<forall>q \<in> set (records reg).
     hr_session r = hr_session q \<longrightarrow> hr_expires r = hr_expires q)"

definition reg_bounded :: "'r registry \<Rightarrow> bool" where
  "reg_bounded reg \<longleftrightarrow> active_session_count reg \<le> max_active_sessions
     \<and> (\<forall>sid. length (session_records sid reg) \<le> max_handles_per_session)"

definition reg_inv :: "'r registry \<Rightarrow> bool" where
  "reg_inv reg \<longleftrightarrow> reg_sync reg \<and> same_expiry reg \<and> reg_bounded reg"

definition makes :: "jstr \<Rightarrow> int \<Rightarrow> jstr \<Rightarrow> (jstr \<Rightarrow> 'r handle_rec_scheme) \<Rightarrow> bool" where
  "makes sid ex bk mk \<longleftrightarrow> (\<forall>h. hr_handle (mk h) = h \<and> hr_session (mk h) = sid
     \<and> hr_expires (mk h) = ex \<and> hr_binding (mk h) = bk)"

lemma remove_expired_spec [simp]:
  assumes "reg_sync reg"
  shows "reg_sync (remove_expired now reg)"
    and "records (remove_expired now reg) = filter (\<lambda>r. now < hr_expires r) (records reg)"
    and "draws (remove_expired now reg) = draws reg"
  using assms by (simp_all add: remove_expired_def remove_where_spec records_remove_where not_le)

text \<open>A returned issue is one of three: refused, answered with a live record, or fresh.\<close>

lemma issue_record_cases:
  assumes "issue_record rnd now sid ex bk mk reg = Some (reg', res)"
    and "reg_sync reg" and "random_source rnd" and "makes sid ex bk mk"
  obtains (refused) e where "res = Inl e" and "reg' = remove_expired now reg"
  | (existing) r where "res = Inr (hr_handle r, hr_expires r)" and "reg' = remove_expired now reg"
      and "r \<in> set (records reg')" and "hr_binding r = bk"
      and "\<forall>q \<in> set (session_records sid reg'). hr_expires q = ex"
  | (fresh) h where "res = Inr (h, ex)" and "h \<notin> fst ` set (by_handle (remove_expired now reg))"
      and "by_handle reg' = by_handle (remove_expired now reg) @ [(h, mk h)]" and "reg_sync reg'"
      and "\<forall>r \<in> set (session_records sid (remove_expired now reg)). hr_expires r = ex"
      and "session_records sid (remove_expired now reg) \<noteq> [] \<or>
             active_session_count (remove_expired now reg) < max_active_sessions"
      and "length (session_records sid (remove_expired now reg)) < max_handles_per_session"
proof -
  let ?r1 = "remove_expired now reg"
  let ?mine = "session_records sid ?r1"
  have sync: "reg_sync ?r1" using assms(2) by simp
  show ?thesis
  proof (cases "list_ex (\<lambda>r. hr_expires r \<noteq> ex) ?mine")
    case True
    with assms(1) show ?thesis by (intro refused) (auto simp: issue_record_def Let_def)
  next
    case False
    then have ex: "\<forall>r \<in> set ?mine. hr_expires r = ex" by (simp add: list_ex_iff)
    show ?thesis
    proof (cases "existing_record bk ?r1")
      case (Some r)
      with existing_record_sync [OF sync] have "r \<in> set (records ?r1)" "hr_binding r = bk" by auto
      with Some False ex assms(1) show ?thesis by (intro existing) (auto simp: issue_record_def Let_def)
    next
      case None
      show ?thesis
      proof (cases "(?mine = [] \<and> max_active_sessions \<le> active_session_count ?r1)
          \<or> max_handles_per_session \<le> length ?mine")
        case True
        with None False assms(1) show ?thesis by (intro refused) (auto simp: issue_record_def Let_def)
      next
        case cap: False
        from assms(1) None False cap obtain h n
          where f: "fresh_handle rnd (by_handle ?r1) (draws ?r1) = Some (h, n)"
            and r': "reg' = ?r1\<lparr>by_handle := AList.update h (mk h) (by_handle ?r1),
              by_binding := AList.update bk h (by_binding ?r1), draws := n\<rparr>"
            and res: "res = Inr (h, ex)"
          using assms(4) by (auto simp: issue_record_def Let_def makes_def)
        from fresh_handle_SomeD [OF f] have new: "h \<notin> fst ` set (by_handle ?r1)"
          and pat: "opaque_handle_pattern h"
          using random_opaque_value_pattern [OF assms(3)] by auto
        have "bk \<notin> hr_binding ` set (records ?r1)"
          using None existing_record_sync [OF sync] by (metis imageE not_None_eq)
        moreover have "fst ` set (by_binding ?r1) = hr_binding ` set (records ?r1)"
          using sync by (force simp: reg_sync_def records_def)
        ultimately have nb: "bk \<notin> fst ` set (by_binding ?r1)" by simp
        have bh: "by_handle reg' = by_handle ?r1 @ [(h, mk h)]"
          and bb: "by_binding reg' = by_binding ?r1 @ [(bk, h)]"
          using r' new nb by (simp_all add: update_fresh)
        have "reg_sync reg'"
          using sync new nb pat assms(4) \<open>bk \<notin> hr_binding ` _\<close>
          by (auto simp: reg_sync_def bh bb records_def makes_def)
        with bh res new ex cap show ?thesis by (intro fresh) (auto simp: not_le)
      qed
    qed
  qed
qed

lemma length_remdups_filter_le: "length (remdups (map f (filter P xs))) \<le> length (remdups (map f xs))"
  by (simp add: length_remdups_card_conv) (rule card_mono, auto)

lemma reg_inv_remove_where:
  assumes "reg_inv reg"
  shows "reg_inv (remove_where P reg)"
proof -
  have "active_session_count (remove_where P reg) \<le> active_session_count reg"
    using assms by (simp add: active_session_count_def reg_inv_def records_remove_where length_remdups_filter_le)
  moreover have "length (session_records sid (remove_where P reg)) \<le> length (session_records sid reg)" for sid
  proof -
    have "session_records sid (remove_where P reg) = filter (\<lambda>r. \<not> P r) (session_records sid reg)"
      using assms by (simp add: session_records_def reg_inv_def records_remove_where conj_commute)
    then show ?thesis by simp
  qed
  ultimately have "reg_bounded (remove_where P reg)"
    using assms unfolding reg_inv_def reg_bounded_def by (meson le_trans)
  with assms show ?thesis
    by (simp add: reg_inv_def remove_where_spec same_expiry_def records_remove_where)
qed

lemma reg_inv_empty: "reg_inv empty_registry"
  by (simp add: reg_inv_def reg_sync_def same_expiry_def reg_bounded_def empty_registry_def records_def
      active_session_count_def session_records_def)

lemma reg_inv_remove_expired: "reg_inv reg \<Longrightarrow> reg_inv (remove_expired now reg)"
  unfolding remove_expired_def by (rule reg_inv_remove_where)

lemma reg_inv_revoke: "reg_inv reg \<Longrightarrow> reg_inv (revoke_session sid reg)"
  by (simp add: revoke_session_def reg_inv_remove_where)

lemma reg_inv_clear: "reg_inv (clear_registry reg)"
  using reg_inv_empty by (simp add: reg_inv_def reg_sync_def same_expiry_def reg_bounded_def empty_registry_def
      records_def active_session_count_def session_records_def clear_registry_def)

lemma reg_inv_issue:
  assumes "issue_record rnd now sid ex bk mk reg = Some (reg', res)"
    and "reg_inv reg" and "random_source rnd" and "makes sid ex bk mk"
  shows "reg_inv reg'"
proof -
  let ?r1 = "remove_expired now reg"
  have inv1: "reg_inv ?r1" using assms(2) by (rule reg_inv_remove_expired)
  have sync: "reg_sync reg" using assms(2) by (simp add: reg_inv_def)
  show ?thesis
  proof (rule issue_record_cases [OF assms(1) sync assms(3,4)])
    fix h
    assume bh: "by_handle reg' = by_handle ?r1 @ [(h, mk h)]" and s': "reg_sync reg'"
      and ex: "\<forall>r \<in> set (session_records sid ?r1). hr_expires r = ex"
      and cap: "session_records sid ?r1 \<noteq> [] \<or> active_session_count ?r1 < max_active_sessions"
        "length (session_records sid ?r1) < max_handles_per_session"
    have rs: "records reg' = records ?r1 @ [mk h]" by (simp add: records_def bh)
    have mk: "hr_session (mk h) = sid" "hr_expires (mk h) = ex" using assms(4) by (simp_all add: makes_def)
    have old: "same_expiry ?r1" and mine: "\<forall>r \<in> set (records ?r1). hr_session r = sid \<longrightarrow> hr_expires r = ex"
      using inv1 ex by (auto simp only: reg_inv_def session_records_def set_filter)
    have "same_expiry reg'"
      using old mine mk unfolding same_expiry_def rs set_append list.set by (metis Un_iff empty_iff insert_iff)
    moreover have "active_session_count reg' \<le> max_active_sessions"
    proof (cases "session_records sid ?r1 = []")
      case True
      then have "sid \<notin> hr_session ` set (records ?r1)" by (auto simp: session_records_def filter_empty_conv)
      with True cap show ?thesis
        by (simp add: active_session_count_def length_remdups_card_conv rs mk)
    next
      case False
      then have "sid \<in> hr_session ` set (records ?r1)" by (auto simp: session_records_def filter_empty_conv)
      with inv1 show ?thesis
        by (simp add: active_session_count_def length_remdups_card_conv rs mk insert_absorb
            reg_inv_def reg_bounded_def)
    qed
    moreover have "length (session_records s reg') \<le> max_handles_per_session" for s
      using inv1 cap by (auto simp: session_records_def rs mk reg_inv_def reg_bounded_def)
    ultimately show "reg_inv reg'" using s' by (simp add: reg_inv_def reg_bounded_def)
  qed (use inv1 in auto)
qed

section \<open>Counting and looking up\<close>

lemma lookup_record:
  "reg_sync reg \<Longrightarrow> map_of (by_handle reg) h = Some r \<longleftrightarrow> r \<in> set (records reg) \<and> hr_handle r = h"
  by (force simp: reg_sync_def records_def image_iff)

lemma length_by_key:
  assumes "\<And>k. length (filter (\<lambda>x. f x = k) xs) \<le> b"
  shows "length xs \<le> length (remdups (map f xs)) * b"
proof -
  have "length (filter (\<lambda>x. f x \<in> K) xs) \<le> card K * b" if "finite K" for K
    using that
  proof (induction K rule: finite_induct)
    case (insert k K)
    have "length (filter (\<lambda>x. f x \<in> insert k K) xs)
        = length (filter (\<lambda>x. f x = k) xs) + length (filter (\<lambda>x. f x \<in> K) xs)"
      using insert(2) by (induction xs) auto
    with insert assms [of k] show ?case by simp
  qed simp
  from this [of "f ` set xs"] show ?thesis
    by (simp add: length_remdups_card_conv filter_id_conv [THEN iffD2])
qed

lemma reg_inv_counts:
  assumes "reg_inv reg"
  shows "active_session_count reg \<le> 8 \<and> length (session_records sid reg) \<le> 512
    \<and> length (by_handle reg) \<le> 4096 \<and> length (by_binding reg) = length (by_handle reg)"
proof -
  have b: "active_session_count reg \<le> 8" "\<And>sid. length (session_records sid reg) \<le> 512"
    using assms by (simp_all add: reg_inv_def reg_bounded_def max_active_sessions_def max_handles_per_session_def)
  have "length (records reg) \<le> length (remdups (map hr_session (records reg))) * 512"
    using b(2) by (intro length_by_key) (simp add: session_records_def)
  also have "\<dots> \<le> 4096" using b(1) by (simp add: active_session_count_def)
  finally have "length (by_handle reg) \<le> 4096" by (simp add: records_def)
  with b assms show ?thesis by (simp add: reg_inv_def reg_sync_def)
qed

section \<open>What the HTTP server relies on\<close>

text \<open>
  A store of handles, each owned by a session and with a deadline.  The server only purges
  and revokes between issues; the locale proves that any sequence of the two, in any order,
  leaves exactly the handles that were neither revoked nor past their deadline.
\<close>

datatype maintenance = Purge int | Revoke jstr

locale session_store =
  fixes store_inv :: "'s \<Rightarrow> bool"
    and owner :: "'s \<Rightarrow> jstr \<Rightarrow> jstr option"
    and deadline :: "'s \<Rightarrow> jstr \<Rightarrow> int option"
    and purge :: "int \<Rightarrow> 's \<Rightarrow> 's"
    and revoke :: "jstr \<Rightarrow> 's \<Rightarrow> 's"
  assumes purge_inv: "store_inv s \<Longrightarrow> store_inv (purge t s)"
    and revoke_inv: "store_inv s \<Longrightarrow> store_inv (revoke sid s)"
    and owned_deadline: "store_inv s \<Longrightarrow> owner s h = None \<longleftrightarrow> deadline s h = None"
    and owner_purge: "store_inv s \<Longrightarrow> deadline s h = Some e \<Longrightarrow>
      owner (purge t s) h = (if e \<le> t then None else owner s h)"
    and deadline_purge: "store_inv s \<Longrightarrow> deadline s h = Some e \<Longrightarrow>
      deadline (purge t s) h = (if e \<le> t then None else Some e)"
    and purge_none: "store_inv s \<Longrightarrow> owner s h = None \<Longrightarrow> owner (purge t s) h = None"
    and owner_revoke: "store_inv s \<Longrightarrow> session_id_pattern sid \<Longrightarrow>
      owner (revoke sid s) h = (if owner s h = Some sid then None else owner s h)"
    and deadline_revoke: "store_inv s \<Longrightarrow> session_id_pattern sid \<Longrightarrow>
      deadline (revoke sid s) h = (if owner s h = Some sid then None else deadline s h)"
    and revoke_malformed: "\<not> session_id_pattern sid \<Longrightarrow> revoke sid s = s"
begin

lemma maintain_inv:
  "store_inv s \<Longrightarrow> store_inv (fold (\<lambda>m. case m of Purge t \<Rightarrow> purge t | Revoke sid \<Rightarrow> revoke sid) ms s)"
  by (induction ms arbitrary: s) (simp_all add: purge_inv revoke_inv split: maintenance.splits)

lemma maintain_none:
  "store_inv s \<Longrightarrow> owner s h = None \<Longrightarrow>
    owner (fold (\<lambda>m. case m of Purge t \<Rightarrow> purge t | Revoke sid \<Rightarrow> revoke sid) ms s) h = None"
proof (induction ms arbitrary: s)
  case (Cons m ms)
  have "store_inv (case m of Purge t \<Rightarrow> purge t s | Revoke sid \<Rightarrow> revoke sid s)"
    using Cons.prems by (simp add: purge_inv revoke_inv split: maintenance.splits)
  moreover have "owner (case m of Purge t \<Rightarrow> purge t s | Revoke sid \<Rightarrow> revoke sid s) h = None"
  proof (cases m)
    case (Revoke sid)
    with Cons.prems show ?thesis
      by (cases "session_id_pattern sid") (simp_all add: owner_revoke revoke_malformed)
  qed (use Cons.prems in \<open>simp add: purge_none\<close>)
  ultimately show ?case using Cons.IH by (cases m) simp_all
qed simp

lemma maintain_owner:
  "store_inv s \<Longrightarrow> owner s h = Some sid \<Longrightarrow> session_id_pattern sid \<Longrightarrow> deadline s h = Some e \<Longrightarrow>
    owner (fold (\<lambda>m. case m of Purge t \<Rightarrow> purge t | Revoke sid \<Rightarrow> revoke sid) ms s) h
      = (if Revoke sid \<in> set ms \<or> (\<exists>t. Purge t \<in> set ms \<and> e \<le> t) then None else Some sid)"
proof (induction ms arbitrary: s)
  case (Cons m ms)
  show ?case
  proof (cases m)
    case (Purge t)
    show ?thesis
    proof (cases "e \<le> t")
      case True
      with Cons.prems Purge show ?thesis
        using maintain_none [OF purge_inv, of s t h ms] by (auto simp: owner_purge)
    next
      case False
      with Cons.prems Purge Cons.IH [of "purge t s"] show ?thesis
        by (auto simp: owner_purge deadline_purge purge_inv)
    qed
  next
    case (Revoke sid')
    show ?thesis
    proof (cases "sid' = sid")
      case True
      with Cons.prems Revoke show ?thesis
        using maintain_none [OF revoke_inv, of s sid h ms] by (simp add: owner_revoke)
    next
      case False
      have "owner (revoke sid' s) h = Some sid \<and> deadline (revoke sid' s) h = Some e"
        using False Cons.prems
        by (cases "session_id_pattern sid'") (simp_all add: owner_revoke deadline_revoke revoke_malformed)
      with False Cons.prems Revoke Cons.IH [of "revoke sid' s"] show ?thesis by (auto simp: revoke_inv)
    qed
  qed
qed simp

end

text \<open>The registries provide it: a handle is owned by the session of its record.\<close>

definition handle_owner :: "'r registry \<Rightarrow> jstr \<Rightarrow> jstr option" where
  "handle_owner reg h = map_option hr_session (map_of (by_handle reg) h)"

definition handle_deadline :: "'r registry \<Rightarrow> jstr \<Rightarrow> int option" where
  "handle_deadline reg h = map_option hr_expires (map_of (by_handle reg) h)"

interpretation hs: session_store reg_sync handle_owner handle_deadline remove_expired revoke_session
  by unfold_locales
    (auto simp: handle_owner_def handle_deadline_def revoke_session_def remove_expired_def
      remove_where_spec(1) lookup_remove_where split: option.splits)

end
