(* ===== verification/Handle_Log.thy ===== *)
theory Handle_Log
  imports Handle_Registry
begin

text \<open>
  A handle registry in service: the calls it gets, in order, with the answers it gave.  The
  locale \<open>handle_service\<close> is the contract the scope and the resource registries share (an
  issue either rejects or is \<open>issue_record\<close> on a record that belongs to the request, a
  resolve only drops what has expired); inside it the invariant of any reachable registry is
  proved once: the capacity limits hold and every live record goes back to an issue whose
  session was not revoked since.
\<close>

datatype ('i, 'q) handle_call =
    CIssue js_number 'i
  | CResolve js_number 'q
  | CRevoke jstr
  | CClear

datatype 'o handle_answer =
    AIssued "handle_error + (jstr \<times> int)"
  | AResolved "handle_error + 'o option"
  | ADone

fun handle_exec ::
  "(js_number \<Rightarrow> 'i \<Rightarrow> 'r registry \<Rightarrow> ('r registry \<times> (handle_error + (jstr \<times> int))) option)
   \<Rightarrow> (js_number \<Rightarrow> 'q \<Rightarrow> 'r registry \<Rightarrow> 'r registry \<times> (handle_error + 'o option))
   \<Rightarrow> ('i, 'q) handle_call \<Rightarrow> 'r registry \<Rightarrow> ('r registry \<times> 'o handle_answer) option" where
  "handle_exec issue resolve (CIssue t i) reg = map_option (map_prod id AIssued) (issue t i reg)"
| "handle_exec issue resolve (CResolve t q) reg = Some (map_prod id AResolved (resolve t q reg))"
| "handle_exec issue resolve (CRevoke sid) reg = Some (revoke_session sid reg, ADone)"
| "handle_exec issue resolve CClear reg = Some (clear_registry reg, ADone)"

fun handle_run ::
  "(js_number \<Rightarrow> 'i \<Rightarrow> 'r registry \<Rightarrow> ('r registry \<times> (handle_error + (jstr \<times> int))) option)
   \<Rightarrow> (js_number \<Rightarrow> 'q \<Rightarrow> 'r registry \<Rightarrow> 'r registry \<times> (handle_error + 'o option))
   \<Rightarrow> ('i, 'q) handle_call list \<Rightarrow> 'r registry
   \<Rightarrow> ('r registry \<times> (('i, 'q) handle_call \<times> 'o handle_answer) list) option" where
  "handle_run issue resolve [] reg = Some (reg, [])"
| "handle_run issue resolve (c # cs) reg =
     (case handle_exec issue resolve c reg of
        None \<Rightarrow> None
      | Some (reg1, a) \<Rightarrow> map_option (map_prod id ((#) (c, a))) (handle_run issue resolve cs reg1))"

lemma handle_run_append:
  "handle_run issue resolve (cs @ ds) reg =
     (case handle_run issue resolve cs reg of
        None \<Rightarrow> None
      | Some (reg1, log) \<Rightarrow> map_option (map_prod id ((@) log)) (handle_run issue resolve ds reg1))"
  by (induction cs arbitrary: reg)
    (auto simp: option.map_comp comp_def map_prod_def case_prod_unfold option.map_ident
      split: option.splits)

lemma handle_run_log: "handle_run issue resolve cs reg = Some (reg', log) \<Longrightarrow> map fst log = cs"
  by (induction cs arbitrary: reg reg' log) (auto split: option.splits)

text \<open>\<open>granted matches log r\<close>: some issue of the log returned the record's handle for a request
  that the record matches, and neither a revocation of its session nor a clear came after.\<close>

definition granted ::
  "('i \<Rightarrow> 'r handle_rec_scheme \<Rightarrow> bool) \<Rightarrow> (('i, 'q) handle_call \<times> 'o handle_answer) list
    \<Rightarrow> 'r handle_rec_scheme \<Rightarrow> bool" where
  "granted matches log r \<longleftrightarrow> (\<exists>l1 t i l2.
     log = l1 @ (CIssue t i, AIssued (Inr (hr_handle r, hr_expires r))) # l2 \<and> matches i r
     \<and> CRevoke (hr_session r) \<notin> fst ` set l2 \<and> CClear \<notin> fst ` set l2)"

definition served ::
  "('i \<Rightarrow> 'r handle_rec_scheme \<Rightarrow> bool) \<Rightarrow> (('i, 'q) handle_call \<times> 'o handle_answer) list
    \<Rightarrow> 'r registry \<Rightarrow> bool" where
  "served matches log reg \<longleftrightarrow> reg_inv reg \<and>
     (\<forall>r \<in> set (records reg). granted matches log r \<and> session_id_pattern (hr_session r))"

lemma granted_snoc:
  "granted matches log r \<Longrightarrow> c \<noteq> CRevoke (hr_session r) \<Longrightarrow> c \<noteq> CClear \<Longrightarrow>
    granted matches (log @ [(c, a)]) r"
  unfolding granted_def by (elim exE conjE) (rule exI, rule exI, rule exI, rule exI, auto)

lemma served_inv: "served matches log reg \<Longrightarrow> reg_inv reg"
  by (simp add: served_def)

lemma served_sync: "served matches log reg \<Longrightarrow> reg_sync reg"
  by (simp add: served_def reg_inv_def)

lemma served_shrink:
  assumes "served matches log reg" and "reg_inv reg'" and "set (records reg') \<subseteq> set (records reg)"
    and "c \<noteq> CClear" and "\<And>r. r \<in> set (records reg') \<Longrightarrow> c \<noteq> CRevoke (hr_session r)"
  shows "served matches (log @ [(c, a)]) reg'"
  using assms unfolding served_def by (meson granted_snoc subsetD)

locale handle_service =
  fixes issue :: "js_number \<Rightarrow> 'i \<Rightarrow> 'r registry \<Rightarrow> ('r registry \<times> (handle_error + (jstr \<times> int))) option"
    and resolve :: "js_number \<Rightarrow> 'q \<Rightarrow> 'r registry \<Rightarrow> 'r registry \<times> (handle_error + 'o option)"
    and rnd :: "nat \<Rightarrow> nat list"
    and matches :: "'i \<Rightarrow> 'r handle_rec_scheme \<Rightarrow> bool"
  assumes issue_shape: "issue t i reg = Some (reg', res) \<Longrightarrow>
      (reg' = reg \<and> (\<exists>e. res = Inl e)) \<or>
      (\<exists>now sid ex bk mk. issue_record rnd now sid ex bk mk reg = Some (reg', res)
         \<and> makes sid ex bk mk \<and> session_id_pattern sid \<and> (\<forall>h. matches i (mk h)))"
    and resolve_shape: "fst (resolve t q reg) = reg \<or> (\<exists>now. fst (resolve t q reg) = remove_expired now reg)"
begin

lemma issue_inv:
  assumes "issue t i reg = Some (reg', res)" and "reg_inv reg" and "random_source rnd"
  shows "reg_inv reg'"
  using issue_shape [OF assms(1)] assms(2,3) by (auto dest: reg_inv_issue)

lemma issue_served:
  assumes "issue t i reg = Some (reg', res)" and "served matches log reg" and "random_source rnd"
  shows "served matches (log @ [(CIssue t i, AIssued res)]) reg'"
  using issue_shape [OF assms(1)]
proof (elim disjE exE conjE)
  fix e
  assume "reg' = reg" and "res = Inl e"
  with assms(2) show ?thesis by (intro served_shrink [OF assms(2)]) (auto simp: served_inv)
next
  fix now sid ex bk mk
  assume rec: "issue_record rnd now sid ex bk mk reg = Some (reg', res)" and mk: "makes sid ex bk mk"
    and sid: "session_id_pattern sid" and m: "\<forall>h. matches i (mk h)"
  let ?r1 = "remove_expired now reg"
  have sync: "reg_sync reg" using assms(2) by (rule served_sync)
  have old: "served matches (log @ [(CIssue t i, AIssued res)]) ?r1"
    using sync assms(2)
    by (intro served_shrink [OF assms(2)]) (auto simp: reg_inv_remove_expired served_inv)
  have inv': "reg_inv reg'" using issue_inv assms served_inv by blast
  from rec sync assms(3) mk show ?thesis
  proof (cases rule: issue_record_cases)
    case (fresh h)
    have f: "hr_handle (mk h) = h" "hr_expires (mk h) = ex" "hr_session (mk h) = sid"
      using mk by (simp_all add: makes_def)
    have "records reg' = records ?r1 @ [mk h]" by (simp add: records_def fresh(3))
    moreover have "granted matches (log @ [(CIssue t i, AIssued res)]) (mk h)"
      unfolding granted_def using m fresh(1) f
      by (intro exI [of _ log] exI [of _ t] exI [of _ i] exI [of _ "[]"]) simp
    ultimately show ?thesis using old inv' sid f by (auto simp: served_def)
  qed (use old in auto)
qed

lemma exec_served:
  assumes "handle_exec issue resolve c reg = Some (reg', a)" and "served matches log reg" and "random_source rnd"
  shows "served matches (log @ [(c, a)]) reg'"
proof -
  note inv = served_inv [OF assms(2)] and sync = served_sync [OF assms(2)]
  show ?thesis
  proof (cases c)
    case (CIssue t i)
    with assms issue_served show ?thesis by auto
  next
    case (CResolve t q)
    then have r': "reg' = fst (resolve t q reg)" using assms(1) by (auto simp: map_prod_def case_prod_unfold)
    have "set (records reg') \<subseteq> set (records reg) \<and> reg_inv reg'"
      using resolve_shape [of t q reg] sync inv r' by (auto simp: reg_inv_remove_expired)
    with CResolve show ?thesis by (intro served_shrink [OF assms(2)]) auto
  next
    case (CRevoke sid)
    then have r': "reg' = revoke_session sid reg" using assms(1) by simp
    have "set (records reg') \<subseteq> set (records reg)" "\<And>r. r \<in> set (records reg') \<Longrightarrow> hr_session r \<noteq> sid"
      using sync assms(2)
      by (auto simp: r' revoke_session_def records_remove_where served_def split: if_splits)
    with inv r' CRevoke show ?thesis by (intro served_shrink [OF assms(2)]) (auto simp: reg_inv_revoke)
  next
    case CClear
    with assms(1) have "reg' = clear_registry reg" by simp
    then show ?thesis
      using reg_inv_clear [of reg] by (simp add: served_def) (simp add: clear_registry_def records_def)
  qed
qed

lemma run_served:
  "handle_run issue resolve cs empty_registry = Some (reg, log) \<Longrightarrow> random_source rnd \<Longrightarrow>
    served matches log reg"
proof (induction cs arbitrary: reg log rule: rev_induct)
  case Nil
  then show ?case using reg_inv_empty by (auto simp: served_def empty_registry_def records_def)
next
  case (snoc c cs)
  then obtain reg1 log1 a where "handle_run issue resolve cs empty_registry = Some (reg1, log1)"
    and "handle_exec issue resolve c reg1 = Some (reg, a)" and "log = log1 @ [(c, a)]"
    by (auto simp: handle_run_append split: option.splits)
  with snoc exec_served show ?case by blast
qed

lemma run_inv:
  "handle_run issue resolve cs empty_registry = Some (reg, log) \<Longrightarrow> random_source rnd \<Longrightarrow> reg_inv reg"
  using run_served served_inv by blast

lemma run_bounds:
  assumes "handle_run issue resolve cs empty_registry = Some (reg, log)" and "random_source rnd"
  shows "active_session_count reg \<le> 8 \<and> length (session_records sid reg) \<le> 512
    \<and> length (by_handle reg) \<le> 4096 \<and> length (by_binding reg) = length (by_handle reg)"
  using reg_inv_counts [OF run_inv [OF assms]] .

lemma run_maintenance:
  assumes "handle_run issue resolve cs empty_registry = Some (reg, log)" and "random_source rnd"
    and "r \<in> set (records reg)"
  shows "handle_owner (fold (\<lambda>m. case m of Purge t \<Rightarrow> remove_expired t | Revoke sid \<Rightarrow> revoke_session sid) ms reg)
      (hr_handle r)
    = (if Revoke (hr_session r) \<in> set ms \<or> (\<exists>t. Purge t \<in> set ms \<and> hr_expires r \<le> t) then None
       else Some (hr_session r))"
proof -
  have ok: "served matches log reg" by (rule run_served [OF assms(1,2)])
  then have sync: "reg_sync reg" and sid: "session_id_pattern (hr_session r)"
    using assms(3) by (auto simp: served_def reg_inv_def)
  have "map_of (by_handle reg) (hr_handle r) = Some r" using sync assms(3) by (simp add: lookup_record)
  then show ?thesis
    by (intro hs.maintain_owner sync sid) (simp_all add: handle_owner_def handle_deadline_def)
qed

lemma run_can_draw:
  assumes "handle_run issue resolve cs empty_registry = Some (reg, log)" and "random_source rnd"
    and "can_draw rnd (by_handle reg) (draws reg)"
  shows "\<exists>reg' res. issue_record rnd now sid ex bk mk reg = Some (reg', res)"
proof -
  have sync: "reg_sync reg" using run_inv [OF assms(1,2)] by (simp add: reg_inv_def)
  have "can_draw rnd (by_handle (remove_expired now reg)) (draws (remove_expired now reg))"
    using assms(3) sync by (fastforce simp: can_draw_def remove_expired_def remove_where_spec)
  from fresh_handle_returns [OF this] show ?thesis
    by (fastforce simp: issue_record_def Let_def split: option.split)
qed

end

end
