(* ===== verification/Scope_Handles.thy ===== *)
theory Scope_Handles
  imports Handle_Log
begin

text \<open>
  \<open>GovernanceScopeHandleRegistry\<close> of \<open>src/http/governance-scope-handle-registry.ts\<close>: opaque
  handles that stand for one scope, for one browser session and one purpose.  The digest of
  a binding (SHA-256 of its JSON text) is a parameter \<open>sha\<close> and the random bytes are a
  stream \<open>rnd\<close>.  The last section records the calls and proves that \<open>resolve\<close> gives a scope
  back only to the session and the purpose it was issued to.
\<close>

section \<open>State and inputs\<close>

record scope_rec = handle_rec +
  sr_purpose :: jstr
  sr_scope :: gov_scope

type_synonym scope_registry = "unit scope_rec_ext registry"

record issue_scope_input =
  is_session :: jstr
  is_expires :: js_number
  is_purpose :: jstr
  is_scope :: jval

record resolve_scope_input =
  rs_session :: jstr
  rs_handle :: jstr
  rs_purpose :: jstr

section \<open>Operations\<close>

definition scope_binding_text :: "jstr \<Rightarrow> jstr \<Rightarrow> gov_scope \<Rightarrow> jstr" where
  "scope_binding_text sid purpose s =
     lit ''lethebot-governance-scope-binding:v1'' @ 0 #
     json_object [(lit ''sessionId'', json_string sid), (lit ''purpose'', json_string purpose),
                  (lit ''scope'', json_scope s)]"

definition scope_binding_key :: "(jstr \<Rightarrow> jstr) \<Rightarrow> jstr \<Rightarrow> jstr \<Rightarrow> gov_scope \<Rightarrow> jstr" where
  "scope_binding_key sha sid purpose s = sha (scope_binding_text sid purpose s)"

definition scope_record :: "(jstr \<Rightarrow> jstr) \<Rightarrow> jstr \<Rightarrow> int \<Rightarrow> jstr \<Rightarrow> gov_scope \<Rightarrow> jstr \<Rightarrow> scope_rec" where
  "scope_record sha sid ex purpose s h =
     \<lparr>hr_handle = h, hr_binding = scope_binding_key sha sid purpose s, hr_session = sid,
      hr_expires = ex, sr_purpose = purpose, sr_scope = s\<rparr>"

definition issue_scope ::
  "(nat \<Rightarrow> nat list) \<Rightarrow> (jstr \<Rightarrow> jstr) \<Rightarrow> js_number \<Rightarrow> issue_scope_input \<Rightarrow> scope_registry
    \<Rightarrow> (scope_registry \<times> (handle_error + (jstr \<times> int))) option" where
  "issue_scope rnd sha clock inp reg =
     (case read_now clock of
        None \<Rightarrow> Some (reg, Inl InvalidHandleClock)
      | Some now \<Rightarrow>
          (case normalize_scope (is_scope inp) of
             None \<Rightarrow> Some (reg, Inl InvalidHandleInput)
           | Some s \<Rightarrow>
               if \<not> session_id_pattern (is_session inp)
                  \<or> \<not> is_safe_integer (is_expires inp)
                  \<or> int_value (is_expires inp) \<le> now
                  \<or> now + max_session_ttl_ms < int_value (is_expires inp)
                  \<or> \<not> is_bounded_string (JStr (is_purpose inp)) max_purpose_length
               then Some (reg, Inl InvalidHandleInput)
               else issue_record rnd now (is_session inp) (int_value (is_expires inp))
                      (scope_binding_key sha (is_session inp) (is_purpose inp) s)
                      (scope_record sha (is_session inp) (int_value (is_expires inp)) (is_purpose inp) s)
                      reg))"

definition resolve_scope ::
  "js_number \<Rightarrow> resolve_scope_input \<Rightarrow> scope_registry \<Rightarrow> scope_registry \<times> (handle_error + gov_scope option)" where
  "resolve_scope clock inp reg =
     (if \<not> session_id_pattern (rs_session inp)
         \<or> \<not> opaque_handle_pattern (rs_handle inp)
         \<or> \<not> is_bounded_string (JStr (rs_purpose inp)) max_purpose_length
      then (reg, Inr None)
      else case read_now clock of
        None \<Rightarrow> (reg, Inl InvalidHandleClock)
      | Some now \<Rightarrow>
          let reg1 = remove_expired now reg
          in case map_of (by_handle reg1) (rs_handle inp) of
               None \<Rightarrow> (reg1, Inr None)
             | Some r \<Rightarrow>
                 if hr_session r \<noteq> rs_session inp \<or> sr_purpose r \<noteq> rs_purpose inp
                 then (reg1, Inr None)
                 else (reg1, Inr (Some (copy_scope (sr_scope r)))))"

text \<open>The registry in service.\<close>

type_synonym scope_call = "(issue_scope_input, resolve_scope_input) handle_call"

abbreviation scope_run ::
  "(nat \<Rightarrow> nat list) \<Rightarrow> (jstr \<Rightarrow> jstr) \<Rightarrow> scope_call list \<Rightarrow> scope_registry
    \<Rightarrow> (scope_registry \<times> (scope_call \<times> gov_scope handle_answer) list) option" where
  "scope_run rnd sha \<equiv> handle_run (issue_scope rnd sha) resolve_scope"

section \<open>Every operation keeps the invariant\<close>

lemma scope_record_makes:
  "makes sid ex (scope_binding_key sha sid purpose s) (scope_record sha sid ex purpose s)"
  by (simp add: makes_def scope_record_def)

text \<open>An issue that got past the checks is \<open>issue_record\<close>.\<close>

lemma issue_scope_cases:
  assumes "issue_scope rnd sha clock inp reg = Some (reg', res)"
  obtains (rejected) e where "reg' = reg" and "res = Inl e"
  | (passed) now s where "read_now clock = Some now" and "normalize_scope (is_scope inp) = Some s"
      and "now < int_value (is_expires inp)" and "int_value (is_expires inp) \<le> now + max_session_ttl_ms"
      and "session_id_pattern (is_session inp)"
      and "is_bounded_string (JStr (is_purpose inp)) max_purpose_length"
      and "issue_record rnd now (is_session inp) (int_value (is_expires inp))
             (scope_binding_key sha (is_session inp) (is_purpose inp) s)
             (scope_record sha (is_session inp) (int_value (is_expires inp)) (is_purpose inp) s) reg
           = Some (reg', res)"
  using assms unfolding issue_scope_def
  by (simp only: not_less not_le split: option.splits if_splits) (auto simp del: is_bounded_string.simps)

definition scope_matches :: "(jstr \<Rightarrow> jstr) \<Rightarrow> issue_scope_input \<Rightarrow> scope_rec \<Rightarrow> bool" where
  "scope_matches sha i r \<longleftrightarrow> is_session i = hr_session r \<and> is_purpose i = sr_purpose r
     \<and> normalize_scope (is_scope i) = Some (sr_scope r)
     \<and> hr_binding r = scope_binding_key sha (hr_session r) (sr_purpose r) (sr_scope r)"

lemma issue_scope_shape:
  "issue_scope rnd sha t i reg = Some (reg', res) \<Longrightarrow>
    (reg' = reg \<and> (\<exists>e. res = Inl e)) \<or>
    (\<exists>now sid ex bk mk. issue_record rnd now sid ex bk mk reg = Some (reg', res)
       \<and> makes sid ex bk mk \<and> session_id_pattern sid \<and> (\<forall>h. scope_matches sha i (mk h)))"
proof (erule issue_scope_cases, goal_cases)
  case (2 now s)
  have "\<forall>h. scope_matches sha i (scope_record sha (is_session i) (int_value (is_expires i)) (is_purpose i) s h)"
    using 2(2) by (simp add: scope_matches_def scope_record_def)
  with 2(5,7) scope_record_makes show ?case by blast
qed simp

lemma resolve_scope_shape:
  "fst (resolve_scope clock inp reg) = reg \<or> (\<exists>now. fst (resolve_scope clock inp reg) = remove_expired now reg)"
  by (auto simp: resolve_scope_def Let_def split: option.splits simp del: is_bounded_string.simps read_now.simps)

interpretation sc: handle_service "issue_scope rnd sha" resolve_scope rnd "scope_matches sha" for rnd sha
  by unfold_locales (erule issue_scope_shape, rule resolve_scope_shape)

section \<open>Binding texts\<close>

lemma json_field_prefix:
  "utf16 a \<Longrightarrow> utf16 b \<Longrightarrow> json_string a @ 44 # x = json_string b @ 44 # y \<longleftrightarrow> a = b \<and> x = y"
  by (simp add: json_string_prefix)

lemma utf16_hex: "session_id_pattern sid \<Longrightarrow> utf16 sid"
  by (auto simp: session_id_pattern_def utf16_def hex_digit_def list_all_iff)

lemma scope_binding_text_inject:
  assumes "utf16 sid" "utf16 sid'" "utf16 p" "utf16 p'" "utf16_scope s" "utf16_scope s'"
  shows "scope_binding_text sid p s = scope_binding_text sid' p' s' \<longleftrightarrow> sid = sid' \<and> p = p' \<and> s = s'"
  using assms json_scope_prefix [of s s' "[]" "[]"]
  by (simp add: scope_binding_text_def json_object_def json_field_prefix)

definition call_text :: "scope_call \<Rightarrow> jstr list" where
  "call_text c = (case c of
     CIssue t i \<Rightarrow> (case normalize_scope (is_scope i) of
        Some s \<Rightarrow> [scope_binding_text (is_session i) (is_purpose i) s] | None \<Rightarrow> [])
   | _ \<Rightarrow> [])"

definition call_utf16 :: "scope_call \<Rightarrow> bool" where
  "call_utf16 c \<longleftrightarrow> (case c of
     CIssue t i \<Rightarrow> utf16 (is_purpose i) \<and> (case normalize_scope (is_scope i) of
        Some s \<Rightarrow> utf16_scope s | None \<Rightarrow> True)
   | _ \<Rightarrow> True)"

text \<open>With no two of the texts hashed so far in collision, a binding key names one grant.\<close>

lemma binding_key_unique:
  assumes "served (scope_matches sha) log reg" and "r \<in> set (records reg)"
    and "inj_on sha (set (concat (map call_text (map fst log @ [CIssue t i]))))"
    and "list_all call_utf16 (map fst log @ [CIssue t i])"
    and "normalize_scope (is_scope i) = Some s" and "session_id_pattern (is_session i)"
    and "hr_binding r = scope_binding_key sha (is_session i) (is_purpose i) s"
  shows "hr_session r = is_session i \<and> sr_purpose r = is_purpose i \<and> sr_scope r = s"
proof -
  have r: "granted (scope_matches sha) log r" "session_id_pattern (hr_session r)"
    using assms(1,2) by (auto simp: served_def)
  then obtain t' i' where c: "CIssue t' i' \<in> fst ` set log" and i': "is_session i' = hr_session r"
    "is_purpose i' = sr_purpose r" "normalize_scope (is_scope i') = Some (sr_scope r)"
    and key: "hr_binding r = scope_binding_key sha (hr_session r) (sr_purpose r) (sr_scope r)"
    unfolding granted_def scope_matches_def by fastforce
  have u: "utf16 (sr_purpose r)" "utf16_scope (sr_scope r)" "utf16 (is_purpose i)" "utf16_scope s"
    using assms(4,5) c i' by (fastforce simp: call_utf16_def list_all_iff)+
  have mem: "call_text (CIssue t' i') = [scope_binding_text (hr_session r) (sr_purpose r) (sr_scope r)]"
    "call_text (CIssue t i) = [scope_binding_text (is_session i) (is_purpose i) s]"
    using assms(5) i' by (simp_all add: call_text_def)
  have "scope_binding_text (hr_session r) (sr_purpose r) (sr_scope r)
      = scope_binding_text (is_session i) (is_purpose i) s"
  proof (rule inj_onD [OF assms(3)])
    show "sha (scope_binding_text (hr_session r) (sr_purpose r) (sr_scope r))
        = sha (scope_binding_text (is_session i) (is_purpose i) s)"
      using key assms(7) by (simp add: scope_binding_key_def)
  qed (use mem c in \<open>force+\<close>)
  then show ?thesis using u r(2) assms(6) by (simp add: scope_binding_text_inject utf16_hex)
qed

text \<open>What a successful issue leaves behind.\<close>

lemma issue_scope_result:
  assumes "issue_scope rnd sha t i reg = Some (reg', Inr (h, ex))" and "reg_inv reg" and "random_source rnd"
  obtains now s r where "read_now t = Some now" and "normalize_scope (is_scope i) = Some s"
    and "session_id_pattern (is_session i)" and "is_bounded_string (JStr (is_purpose i)) max_purpose_length"
    and "r \<in> set (records reg')" and "hr_handle r = h" and "hr_expires r = ex"
    and "hr_binding r = scope_binding_key sha (is_session i) (is_purpose i) s"
    and "\<forall>q \<in> set (session_records (is_session i) reg'). hr_expires q = int_value (is_expires i)"
    and "is_safe_integer (is_expires i)"
  using assms(1)
proof (cases rule: issue_scope_cases)
  case (passed now s)
  have sync: "reg_sync reg" using assms(2) by (simp add: reg_inv_def)
  have safe: "is_safe_integer (is_expires i)"
    using assms(1) passed(1,2) by (auto simp: issue_scope_def split: if_splits)
  from passed(7) sync assms(3) scope_record_makes show ?thesis
  proof (cases rule: issue_record_cases)
    case (existing r)
    with passed safe show ?thesis by (intro that [of now s r]) auto
  next
    case (fresh h')
    let ?r = "scope_record sha (is_session i) ex (is_purpose i) s h"
    have e: "h' = h" "ex = int_value (is_expires i)" using fresh(1) by auto
    have rs: "records reg' = records (remove_expired now reg) @ [?r]"
      using fresh(3) e by (simp add: records_def)
    have "\<forall>q \<in> set (session_records (is_session i) reg'). hr_expires q = int_value (is_expires i)"
      using fresh(5) e by (auto simp: session_records_def rs scope_record_def)
    then show ?thesis
      using passed e rs safe by (intro that [of now s ?r]) (auto simp: scope_record_def)
  qed simp
qed simp

lemma resolve_scope_some:
  assumes "resolve_scope t inp reg = (reg', Inr (Some s))" and "reg_sync reg"
  obtains now r where "read_now t = Some now" and "r \<in> set (records reg)" and "now < hr_expires r"
    and "hr_handle r = rs_handle inp" and "hr_session r = rs_session inp" and "sr_purpose r = rs_purpose inp"
    and "sr_scope r = s"
proof -
  from assms(1) obtain now r where n: "read_now t = Some now"
    and r: "map_of (by_handle (remove_expired now reg)) (rs_handle inp) = Some r"
    and "hr_session r = rs_session inp" "sr_purpose r = rs_purpose inp" "sr_scope r = s"
    unfolding resolve_scope_def
    by (auto simp: Let_def simp del: is_bounded_string.simps read_now.simps split: if_split_asm option.splits)
  moreover from r assms(2) have "r \<in> set (records reg)" "now < hr_expires r" "hr_handle r = rs_handle inp"
    by (simp_all add: lookup_record)
  ultimately show ?thesis using that by blast
qed

lemma resolve_scope_hit:
  assumes "reg_sync reg" and "r \<in> set (records reg)" and "read_now t = Some now" and "now < hr_expires r"
    and "session_id_pattern (hr_session r)" and "is_bounded_string (JStr (sr_purpose r)) max_purpose_length"
  shows "resolve_scope t \<lparr>rs_session = hr_session r, rs_handle = hr_handle r, rs_purpose = sr_purpose r\<rparr> reg
    = (remove_expired now reg, Inr (Some (sr_scope r)))"
proof -
  have "opaque_handle_pattern (hr_handle r)" using assms(1,2) by (auto simp: reg_sync_def records_def)
  moreover have "map_of (by_handle (remove_expired now reg)) (hr_handle r) = Some r"
    using assms by (simp add: lookup_record)
  ultimately show ?thesis
    using assms by (simp add: resolve_scope_def Let_def del: is_bounded_string.simps read_now.simps)
qed

section \<open>Properties\<close>

text \<open>
  Whatever calls a fresh registry has served, at most eight sessions hold live handles,
  no session holds more than 512, and the registry holds at most 4096 in all.
\<close>

theorem scope_registry_bounds:
  assumes "scope_run rnd sha cs empty_registry = Some (reg, log)" and "random_source rnd"
  shows "active_session_count reg \<le> 8 \<and> length (session_records sid reg) \<le> 512
    \<and> length (by_handle reg) \<le> 4096 \<and> length (by_binding reg) = length (by_handle reg)"
  by (rule sc.run_bounds [OF assms])

text \<open>
  C5. \<open>resolve\<close> never leaks: a scope comes back only for a handle that an earlier issue
  returned for the same session, the same purpose and exactly that scope, that has not
  expired, and whose session has not been revoked (nor the registry cleared) since.
\<close>

theorem scope_resolution_sound:
  assumes "scope_run rnd sha cs empty_registry = Some (reg, log)" and "random_source rnd"
    and "resolve_scope t inp reg = (reg', Inr (Some s))"
  shows "\<exists>now ex l1 t0 i l2. read_now t = Some now \<and> now < ex
    \<and> log = l1 @ (CIssue t0 i, AIssued (Inr (rs_handle inp, ex))) # l2
    \<and> is_session i = rs_session inp \<and> is_purpose i = rs_purpose inp
    \<and> normalize_scope (is_scope i) = Some s
    \<and> CRevoke (rs_session inp) \<notin> fst ` set l2 \<and> CClear \<notin> fst ` set l2"
proof -
  have ok: "served (scope_matches sha) log reg" by (rule sc.run_served [OF assms(1,2)])
  then have "reg_sync reg" by (rule served_sync)
  with assms(3) obtain now r where r: "read_now t = Some now" "r \<in> set (records reg)" "now < hr_expires r"
    "hr_handle r = rs_handle inp" "hr_session r = rs_session inp" "sr_purpose r = rs_purpose inp"
    "sr_scope r = s" by (rule resolve_scope_some)
  from ok r(2) have "granted (scope_matches sha) log r" by (simp add: served_def)
  with r show ?thesis unfolding granted_def scope_matches_def by metis
qed

text \<open>
  What was issued resolves: with no two binding texts in collision under the digest, the
  handle an issue returns gives its normalised scope back to that session and purpose at
  any later time before the returned expiry, which is the session's own.
\<close>

theorem scope_issue_resolve:
  assumes "scope_run rnd sha cs empty_registry = Some (reg, log)" and "random_source rnd"
    and "inj_on sha (set (concat (map call_text (cs @ [CIssue t i]))))"
    and "list_all call_utf16 (cs @ [CIssue t i])"
    and "issue_scope rnd sha t i reg = Some (reg', Inr (h, ex))"
    and "read_now t' = Some now'" and "now' < ex"
  shows "is_expires i = JInt ex \<and> (\<exists>s. normalize_scope (is_scope i) = Some s
    \<and> resolve_scope t' \<lparr>rs_session = is_session i, rs_handle = h, rs_purpose = is_purpose i\<rparr> reg'
        = (remove_expired now' reg', Inr (Some s)))"
proof -
  have ok: "served (scope_matches sha) log reg" by (rule sc.run_served [OF assms(1,2)])
  then have inv: "reg_inv reg" by (rule served_inv)
  from assms(5) inv assms(2) obtain s r where r: "normalize_scope (is_scope i) = Some s"
      "session_id_pattern (is_session i)" "is_bounded_string (JStr (is_purpose i)) max_purpose_length"
      "r \<in> set (records reg')" "hr_handle r = h" "hr_expires r = ex"
      "hr_binding r = scope_binding_key sha (is_session i) (is_purpose i) s"
      "\<forall>q \<in> set (session_records (is_session i) reg'). hr_expires q = int_value (is_expires i)"
      "is_safe_integer (is_expires i)"
    by (rule issue_scope_result)
  have ok': "served (scope_matches sha) (log @ [(CIssue t i, AIssued (Inr (h, ex)))]) reg'"
    by (rule sc.issue_served [OF assms(5) ok assms(2)])
  have calls: "map fst (log @ [(CIssue t i, AIssued (Inr (h, ex)))]) = cs @ [CIssue t i]"
    using handle_run_log [OF assms(1)] by simp
  have same: "hr_session r = is_session i \<and> sr_purpose r = is_purpose i \<and> sr_scope r = s"
  proof (rule binding_key_unique [OF ok' r(4) _ _ r(1,2,7)])
    show "inj_on sha (set (concat (map call_text
        (map fst (log @ [(CIssue t i, AIssued (Inr (h, ex)))]) @ [CIssue t i]))))"
      using assms(3) unfolding calls by (simp add: insert_absorb Un_assoc)
    show "list_all call_utf16 (map fst (log @ [(CIssue t i, AIssued (Inr (h, ex)))]) @ [CIssue t i])"
      using assms(4) unfolding calls by simp
  qed
  have "is_expires i = JInt ex"
    using r same by (cases "is_expires i") (auto simp: session_records_def)
  moreover have "reg_sync reg'" using ok' by (rule served_sync)
  ultimately show ?thesis
    using resolve_scope_hit [of reg' r t' now'] r same assms(6,7) by auto
qed

text \<open>
  Issuing the same binding again before it expires gives the same handle and the same
  expiry, and changes nothing but dropping what has expired meanwhile.
\<close>

theorem scope_issue_idempotent:
  assumes "scope_run rnd sha cs empty_registry = Some (reg, log)" and "random_source rnd"
    and "issue_scope rnd sha t i reg = Some (reg', Inr (h, ex))"
    and "read_now t' = Some now'" and "now' < ex" and "is_expires i = JInt ex"
    and "ex \<le> now' + max_session_ttl_ms"
  shows "issue_scope rnd sha t' i reg' = Some (remove_expired now' reg', Inr (h, ex))"
proof -
  have inv: "reg_inv reg" by (rule sc.run_inv [OF assms(1,2)])
  from assms(3) inv assms(2) obtain s r where r: "normalize_scope (is_scope i) = Some s"
      "session_id_pattern (is_session i)" "is_bounded_string (JStr (is_purpose i)) max_purpose_length"
      "r \<in> set (records reg')" "hr_handle r = h" "hr_expires r = ex"
      "hr_binding r = scope_binding_key sha (is_session i) (is_purpose i) s"
      "\<forall>q \<in> set (session_records (is_session i) reg'). hr_expires q = int_value (is_expires i)"
      "is_safe_integer (is_expires i)"
    by (rule issue_scope_result)
  have sync': "reg_sync reg'" using sc.issue_inv [OF assms(3) inv assms(2)] by (simp add: reg_inv_def)
  then have sync1: "reg_sync (remove_expired now' reg')"
    and rs: "records (remove_expired now' reg') = filter (\<lambda>r. now' < hr_expires r) (records reg')" by simp_all
  have found: "existing_record (scope_binding_key sha (is_session i) (is_purpose i) s) (remove_expired now' reg') = Some r"
    using r assms(5) by (simp add: existing_record_sync [OF sync1] rs)
  have "\<not> list_ex (\<lambda>r. hr_expires r \<noteq> ex) (session_records (is_session i) (remove_expired now' reg'))"
    using r(8) assms(6) by (auto simp: list_ex_iff session_records_def rs)
  with found r assms(4-7) show ?thesis
    by (simp add: issue_scope_def issue_record_def Let_def del: is_bounded_string.simps read_now.simps)
qed

text \<open>
  C6. Issue always returns when the random source still has an unused value: the drawing
  loop ends, so the call ends with a handle or with one of its three errors.
\<close>

theorem scope_issue_returns:
  assumes "scope_run rnd sha cs empty_registry = Some (reg, log)" and "random_source rnd"
    and "can_draw rnd (by_handle reg) (draws reg)"
  shows "\<exists>reg' res. issue_scope rnd sha t i reg = Some (reg', res)"
  using sc.run_can_draw [OF assms]
  by (auto simp: issue_scope_def simp del: is_bounded_string.simps read_now.simps split: option.split)

text \<open>
  After any sequence of purges and revocations, in any order, a handle is live exactly
  when its session was not revoked and no purge was at or after its expiry.
\<close>

theorem scope_maintenance:
  assumes "scope_run rnd sha cs empty_registry = Some (reg, log)" and "random_source rnd"
    and "r \<in> set (records reg)"
  shows "handle_owner (fold (\<lambda>m. case m of Purge t \<Rightarrow> remove_expired t | Revoke sid \<Rightarrow> revoke_session sid) ms reg)
      (hr_handle r)
    = (if Revoke (hr_session r) \<in> set ms \<or> (\<exists>t. Purge t \<in> set ms \<and> hr_expires r \<le> t) then None
       else Some (hr_session r))"
  by (rule sc.run_maintenance [OF assms])

section \<open>Concrete instances\<close>

definition demo_sid :: jstr where
  "demo_sid = replicate 64 97"

definition demo_rnd :: "nat \<Rightarrow> nat list" where
  "demo_rnd n = [n mod 256, 0, 0, 0, 0, 0, 0, 0, 0, 0, 0, 0, 0, 0, 0, 0, 0, 0, 0, 0, 0, 0, 0, 0, 0, 0, 0, 0, 0, 0, 0, 0]"

definition demo_purpose :: jstr where
  "demo_purpose = [114, 101, 97, 100]"

definition demo_issue :: issue_scope_input where
  "demo_issue = \<lparr>is_session = demo_sid, is_expires = JInt 1000, is_purpose = demo_purpose,
     is_scope = JObj [(lit ''kind'', JStr (lit ''global''))]\<rparr>"

definition demo_handle :: jstr where
  "demo_handle = random_opaque_value demo_rnd 0"

definition demo_record :: scope_rec where
  "demo_record = scope_record id demo_sid 1000 demo_purpose ScopeGlobal demo_handle"

definition demo_registry :: scope_registry where
  "demo_registry = \<lparr>by_handle = [(demo_handle, demo_record)],
     by_binding = [(scope_binding_key id demo_sid demo_purpose ScopeGlobal, demo_handle)], draws = 1\<rparr>"

lemma demo_rnd_source: "random_source demo_rnd"
  by (simp add: random_source_def demo_rnd_def)

lemma demo_session_ok: "session_id_pattern demo_sid"
  by (simp add: session_id_pattern_def demo_sid_def list_all_iff hex_digit_def)

lemma demo_purpose_ok: "is_bounded_string (JStr demo_purpose) max_purpose_length"
  by (simp add: demo_purpose_def max_purpose_length_def js_trim_def js_space_def)

lemma demo_scope: "normalize_scope (is_scope demo_issue) = Some ScopeGlobal"
  by (simp add: demo_issue_def normalize_scope_def has_exact_keys_def Let_def)

lemma demo_issue_eq: "issue_scope demo_rnd id (JInt 10) demo_issue empty_registry = Some (demo_registry, Inr (demo_handle, 1000))"
  using demo_scope demo_session_ok demo_purpose_ok
  by (simp add: issue_scope_def demo_issue_def max_safe_def max_session_ttl_ms_def issue_record_def Let_def
      remove_expired_def remove_where_def empty_registry_def session_records_def records_def
      existing_record_def active_session_count_def max_active_sessions_def max_handles_per_session_def
      fresh_handle.simps demo_registry_def demo_handle_def demo_record_def scope_record_def
      del: is_bounded_string.simps)

lemma demo_run_eq:
  "scope_run demo_rnd id [CIssue (JInt 10) demo_issue] empty_registry =
    Some (demo_registry, [(CIssue (JInt 10) demo_issue, AIssued (Inr (demo_handle, 1000)))])"
  by (simp add: demo_issue_eq)

lemma demo_run_nil: "scope_run demo_rnd id [] empty_registry = Some (empty_registry, [])"
  by simp

lemma demo_texts: "inj_on id (set (concat (map call_text ([] @ [CIssue (JInt 10) demo_issue]))))"
  by simp

lemma demo_utf16: "list_all call_utf16 ([] @ [CIssue (JInt 10) demo_issue])"
  using demo_scope by (simp add: call_utf16_def utf16_scope_def demo_issue_def demo_purpose_def utf16_def)

lemma demo_resolves:
  "resolve_scope (JInt 20) \<lparr>rs_session = demo_sid, rs_handle = demo_handle, rs_purpose = demo_purpose\<rparr> demo_registry
    = (remove_expired 20 demo_registry, Inr (Some ScopeGlobal))"
proof -
  have "reg_sync demo_registry"
    using sc.run_inv [OF demo_run_eq demo_rnd_source] by (simp add: reg_inv_def)
  from resolve_scope_hit [OF this, of demo_record "JInt 20" 20] demo_session_ok demo_purpose_ok
  show ?thesis
    by (simp add: demo_registry_def records_def demo_record_def scope_record_def max_safe_def
        del: is_bounded_string.simps)
qed

theorem scope_registry_bounds_witness:
  "active_session_count demo_registry \<le> 8 \<and> length (by_handle demo_registry) \<le> 4096"
  using scope_registry_bounds [OF demo_run_eq demo_rnd_source] by simp

theorem scope_resolution_sound_witness:
  "\<exists>now ex. read_now (JInt 20) = Some now \<and> now < ex"
  using scope_resolution_sound [OF demo_run_eq demo_rnd_source demo_resolves] by blast

theorem scope_issue_resolve_witness:
  "resolve_scope (JInt 20) \<lparr>rs_session = is_session demo_issue, rs_handle = demo_handle,
      rs_purpose = is_purpose demo_issue\<rparr> demo_registry
    = (remove_expired 20 demo_registry, Inr (Some ScopeGlobal))"
  using scope_issue_resolve [OF demo_run_nil demo_rnd_source demo_texts demo_utf16 demo_issue_eq,
      of "JInt 20" 20] demo_scope
  by (simp add: max_safe_def)

theorem scope_issue_idempotent_witness:
  "issue_scope demo_rnd id (JInt 20) demo_issue demo_registry
    = Some (remove_expired 20 demo_registry, Inr (demo_handle, 1000))"
  using scope_issue_idempotent [OF demo_run_nil demo_rnd_source demo_issue_eq, of "JInt 20" 20]
  by (simp add: max_safe_def demo_issue_def max_session_ttl_ms_def)

theorem scope_issue_returns_witness:
  "\<exists>reg' res. issue_scope demo_rnd id (JInt 30) demo_issue demo_registry = Some (reg', res)"
proof (rule scope_issue_returns [OF demo_run_eq demo_rnd_source])
  show "can_draw demo_rnd (by_handle demo_registry) (draws demo_registry)"
    unfolding can_draw_def
    by (rule exI [of _ 0]) (simp add: demo_registry_def demo_handle_def random_opaque_value_def demo_rnd_def
        base64url_digit_def)
qed

theorem scope_maintenance_witness:
  "handle_owner (revoke_session (replicate 64 98) (remove_expired 500 demo_registry)) demo_handle = Some demo_sid"
proof -
  have "demo_sid \<noteq> replicate 64 98" by (simp add: demo_sid_def replicate_eq_replicate)
  with scope_maintenance [OF demo_run_eq demo_rnd_source, of demo_record "[Purge 500, Revoke (replicate 64 98)]"]
  show ?thesis by (simp add: demo_registry_def records_def demo_record_def scope_record_def)
qed

end
