(* ===== verification/Resource_Handles.thy ===== *)
theory Resource_Handles
  imports Handle_Log
begin

text \<open>
  \<open>GovernanceResourceHandleRegistry\<close> of \<open>src/http/governance-resource-handle-registry.ts\<close>:
  handles that stand for one resource under one scope.  It shares its store and its contract
  with the scope registry (\<open>Handle_Registry\<close>, \<open>Handle_Log\<close>); here are its own record, its
  binding text, its \<open>issue\<close> and its \<open>resolve\<close>, which also checks the resource kind and the scope.
\<close>

section \<open>State and inputs\<close>

record resource_rec = handle_rec +
  rr_purpose :: jstr
  rr_kind :: jstr
  rr_id :: jstr
  rr_scope_key :: jstr

type_synonym resource_registry = "unit resource_rec_ext registry"

record issue_resource_input =
  ir_session :: jstr
  ir_expires :: js_number
  ir_purpose :: jstr
  ir_kind :: jstr
  ir_id :: jstr
  ir_scope :: jval

record resolve_resource_input =
  rr_in_session :: jstr
  rr_in_handle :: jstr
  rr_in_purpose :: jstr
  rr_in_kind :: jstr
  rr_in_scope :: jval

definition max_resource_kind_length :: nat where
  "max_resource_kind_length = 128"

definition max_resource_identifier_length :: nat where
  "max_resource_identifier_length = 256"

section \<open>Operations\<close>

definition resource_binding_text :: "jstr \<Rightarrow> jstr \<Rightarrow> jstr \<Rightarrow> jstr \<Rightarrow> jstr \<Rightarrow> jstr" where
  "resource_binding_text sid purpose kind rid scope_key =
     lit ''lethebot-governance-resource-binding:v1'' @ 0 #
     json_object [(lit ''sessionId'', json_string sid), (lit ''purpose'', json_string purpose),
                  (lit ''resourceKind'', json_string kind), (lit ''resourceId'', json_string rid),
                  (lit ''scopeKey'', json_string scope_key)]"

definition resource_binding_key :: "(jstr \<Rightarrow> jstr) \<Rightarrow> jstr \<Rightarrow> jstr \<Rightarrow> jstr \<Rightarrow> jstr \<Rightarrow> jstr \<Rightarrow> jstr" where
  "resource_binding_key sha sid purpose kind rid scope_key =
     sha (resource_binding_text sid purpose kind rid scope_key)"

definition resource_record ::
  "(jstr \<Rightarrow> jstr) \<Rightarrow> issue_resource_input \<Rightarrow> jstr \<Rightarrow> jstr \<Rightarrow> resource_rec" where
  "resource_record sha i scope_key h =
     \<lparr>hr_handle = h,
      hr_binding = resource_binding_key sha (ir_session i) (ir_purpose i) (ir_kind i) (ir_id i) scope_key,
      hr_session = ir_session i, hr_expires = int_value (ir_expires i),
      rr_purpose = ir_purpose i, rr_kind = ir_kind i, rr_id = ir_id i, rr_scope_key = scope_key\<rparr>"

definition issue_resource ::
  "(nat \<Rightarrow> nat list) \<Rightarrow> (jstr \<Rightarrow> jstr) \<Rightarrow> js_number \<Rightarrow> issue_resource_input \<Rightarrow> resource_registry
    \<Rightarrow> (resource_registry \<times> (handle_error + (jstr \<times> int))) option" where
  "issue_resource rnd sha clock inp reg =
     (case read_now clock of
        None \<Rightarrow> Some (reg, Inl InvalidHandleClock)
      | Some now \<Rightarrow>
          (case normalize_scope (ir_scope inp) of
             None \<Rightarrow> Some (reg, Inl InvalidHandleInput)
           | Some s \<Rightarrow>
               if \<not> session_id_pattern (ir_session inp)
                  \<or> \<not> is_safe_integer (ir_expires inp)
                  \<or> int_value (ir_expires inp) \<le> now
                  \<or> now + max_session_ttl_ms < int_value (ir_expires inp)
                  \<or> \<not> is_bounded_string (JStr (ir_purpose inp)) max_purpose_length
                  \<or> \<not> is_bounded_string (JStr (ir_kind inp)) max_resource_kind_length
                  \<or> \<not> is_bounded_string (JStr (ir_id inp)) max_resource_identifier_length
               then Some (reg, Inl InvalidHandleInput)
               else issue_record rnd now (ir_session inp) (int_value (ir_expires inp))
                      (resource_binding_key sha (ir_session inp) (ir_purpose inp) (ir_kind inp) (ir_id inp)
                         (json_scope s))
                      (resource_record sha inp (json_scope s)) reg))"

text \<open>The answer is the pair of the resource's kind and id.\<close>

definition resolve_resource ::
  "js_number \<Rightarrow> resolve_resource_input \<Rightarrow> resource_registry
    \<Rightarrow> resource_registry \<times> (handle_error + (jstr \<times> jstr) option)" where
  "resolve_resource clock inp reg =
     (case normalize_scope (rr_in_scope inp) of
        None \<Rightarrow> (reg, Inr None)
      | Some s \<Rightarrow>
          if \<not> session_id_pattern (rr_in_session inp)
             \<or> \<not> opaque_handle_pattern (rr_in_handle inp)
             \<or> \<not> is_bounded_string (JStr (rr_in_purpose inp)) max_purpose_length
             \<or> \<not> is_bounded_string (JStr (rr_in_kind inp)) max_resource_kind_length
          then (reg, Inr None)
          else case read_now clock of
            None \<Rightarrow> (reg, Inl InvalidHandleClock)
          | Some now \<Rightarrow>
              let reg1 = remove_expired now reg
              in case map_of (by_handle reg1) (rr_in_handle inp) of
                   None \<Rightarrow> (reg1, Inr None)
                 | Some r \<Rightarrow>
                     if hr_session r \<noteq> rr_in_session inp \<or> rr_purpose r \<noteq> rr_in_purpose inp
                        \<or> rr_kind r \<noteq> rr_in_kind inp \<or> rr_scope_key r \<noteq> json_scope s
                     then (reg1, Inr None)
                     else (reg1, Inr (Some (rr_kind r, rr_id r))))"

type_synonym resource_call = "(issue_resource_input, resolve_resource_input) handle_call"

abbreviation resource_run ::
  "(nat \<Rightarrow> nat list) \<Rightarrow> (jstr \<Rightarrow> jstr) \<Rightarrow> resource_call list \<Rightarrow> resource_registry
    \<Rightarrow> (resource_registry \<times> (resource_call \<times> (jstr \<times> jstr) handle_answer) list) option" where
  "resource_run rnd sha \<equiv> handle_run (issue_resource rnd sha) resolve_resource"

section \<open>The registry keeps the shared contract\<close>

definition resource_matches :: "(jstr \<Rightarrow> jstr) \<Rightarrow> issue_resource_input \<Rightarrow> resource_rec \<Rightarrow> bool" where
  "resource_matches sha i r \<longleftrightarrow> ir_session i = hr_session r \<and> ir_purpose i = rr_purpose r
     \<and> ir_kind i = rr_kind r \<and> ir_id i = rr_id r
     \<and> map_option json_scope (normalize_scope (ir_scope i)) = Some (rr_scope_key r)
     \<and> hr_binding r = resource_binding_key sha (hr_session r) (rr_purpose r) (rr_kind r) (rr_id r) (rr_scope_key r)"

lemma issue_resource_cases:
  assumes "issue_resource rnd sha clock inp reg = Some (reg', res)"
  obtains (rejected) e where "reg' = reg" and "res = Inl e"
  | (passed) now s where "read_now clock = Some now" and "normalize_scope (ir_scope inp) = Some s"
      and "session_id_pattern (ir_session inp)" and "is_safe_integer (ir_expires inp)"
      and "is_bounded_string (JStr (ir_purpose inp)) max_purpose_length"
      and "is_bounded_string (JStr (ir_kind inp)) max_resource_kind_length"
      and "issue_record rnd now (ir_session inp) (int_value (ir_expires inp))
             (resource_binding_key sha (ir_session inp) (ir_purpose inp) (ir_kind inp) (ir_id inp) (json_scope s))
             (resource_record sha inp (json_scope s)) reg = Some (reg', res)"
  using assms unfolding issue_resource_def
  by (simp only: not_less not_le split: option.splits if_splits) (auto simp del: is_bounded_string.simps)

lemma resource_record_makes:
  "makes (ir_session i) (int_value (ir_expires i))
     (resource_binding_key sha (ir_session i) (ir_purpose i) (ir_kind i) (ir_id i) k) (resource_record sha i k)"
  by (simp add: makes_def resource_record_def)

lemma issue_resource_shape:
  "issue_resource rnd sha t i reg = Some (reg', res) \<Longrightarrow>
    (reg' = reg \<and> (\<exists>e. res = Inl e)) \<or>
    (\<exists>now sid ex bk mk. issue_record rnd now sid ex bk mk reg = Some (reg', res)
       \<and> makes sid ex bk mk \<and> session_id_pattern sid \<and> (\<forall>h. resource_matches sha i (mk h)))"
proof (erule issue_resource_cases, goal_cases)
  case (2 now s)
  have "\<forall>h. resource_matches sha i (resource_record sha i (json_scope s) h)"
    using 2(2) by (simp add: resource_matches_def resource_record_def)
  with 2(3,7) resource_record_makes show ?case by blast
qed simp

lemma resolve_resource_shape:
  "fst (resolve_resource clock q reg) = reg \<or> (\<exists>now. fst (resolve_resource clock q reg) = remove_expired now reg)"
  by (auto simp: resolve_resource_def Let_def split: option.splits simp del: is_bounded_string.simps read_now.simps)

interpretation rc: handle_service "issue_resource rnd sha" resolve_resource rnd "resource_matches sha" for rnd sha
  by unfold_locales (erule issue_resource_shape, rule resolve_resource_shape)

section \<open>Binding texts\<close>

lemma utf16_json_scope: "utf16_scope s \<Longrightarrow> utf16 (json_scope s)"
  by (cases s) (simp_all add: utf16_scope_def json_scope_def json_object_def json_kind_def utf16_json_string)

lemma json_field_split:
  "utf16 a \<Longrightarrow> utf16 b \<Longrightarrow> json_string a @ c # x = json_string b @ c # y \<longleftrightarrow> a = b \<and> x = y"
  by (simp add: json_string_prefix)

lemma resource_binding_text_inject:
  assumes "list_all utf16 [sid, sid', p, p', k, k', i, i', s, s']"
  shows "resource_binding_text sid p k i s = resource_binding_text sid' p' k' i' s'
    \<longleftrightarrow> sid = sid' \<and> p = p' \<and> k = k' \<and> i = i' \<and> s = s'"
  using assms by (simp add: resource_binding_text_def json_object_def json_field_split json_string_inject)

definition resource_call_text :: "resource_call \<Rightarrow> jstr list" where
  "resource_call_text c = (case c of
     CIssue t i \<Rightarrow> (case normalize_scope (ir_scope i) of
        Some s \<Rightarrow> [resource_binding_text (ir_session i) (ir_purpose i) (ir_kind i) (ir_id i) (json_scope s)]
      | None \<Rightarrow> [])
   | _ \<Rightarrow> [])"

definition resource_call_utf16 :: "resource_call \<Rightarrow> bool" where
  "resource_call_utf16 c \<longleftrightarrow> (case c of
     CIssue t i \<Rightarrow> list_all utf16 [ir_session i, ir_purpose i, ir_kind i, ir_id i] \<and>
       (case normalize_scope (ir_scope i) of Some s \<Rightarrow> utf16_scope s | None \<Rightarrow> True)
   | _ \<Rightarrow> True)"

lemma resource_binding_unique:
  assumes "served (resource_matches sha) log reg" and "r \<in> set (records reg)"
    and "inj_on sha (set (concat (map resource_call_text (map fst log))))"
    and "list_all resource_call_utf16 (map fst log)"
    and "CIssue t i \<in> set (map fst log)" and "normalize_scope (ir_scope i) = Some s"
    and "hr_binding r = resource_binding_key sha (ir_session i) (ir_purpose i) (ir_kind i) (ir_id i) (json_scope s)"
  shows "hr_session r = ir_session i \<and> rr_purpose r = ir_purpose i \<and> rr_kind r = ir_kind i
    \<and> rr_id r = ir_id i \<and> rr_scope_key r = json_scope s"
proof -
  have "granted (resource_matches sha) log r" using assms(1,2) by (auto simp: served_def)
  then obtain t' i' s' where c: "CIssue t' i' \<in> set (map fst log)"
    and i': "ir_session i' = hr_session r" "ir_purpose i' = rr_purpose r" "ir_kind i' = rr_kind r"
      "ir_id i' = rr_id r" "normalize_scope (ir_scope i') = Some s'" "rr_scope_key r = json_scope s'"
    and key: "hr_binding r = resource_binding_key sha (hr_session r) (rr_purpose r) (rr_kind r) (rr_id r) (rr_scope_key r)"
    unfolding granted_def resource_matches_def by fastforce
  have u: "resource_call_utf16 (CIssue t i)" "resource_call_utf16 (CIssue t' i')"
    using assms(4,5) c by (auto simp: list_all_iff)
  let ?x = "resource_binding_text (hr_session r) (rr_purpose r) (rr_kind r) (rr_id r) (rr_scope_key r)"
  let ?y = "resource_binding_text (ir_session i) (ir_purpose i) (ir_kind i) (ir_id i) (json_scope s)"
  have "resource_call_text (CIssue t' i') = [?x]" "resource_call_text (CIssue t i) = [?y]"
    using assms(6) i' by (simp_all add: resource_call_text_def)
  then have mem: "?x \<in> set (concat (map resource_call_text (map fst log)))"
    "?y \<in> set (concat (map resource_call_text (map fst log)))"
    using c assms(5) unfolding set_concat set_map by (metis UN_I image_eqI list.set_intros(1))+
  have "sha ?x = sha ?y" using key assms(7) by (simp add: resource_binding_key_def)
  from inj_onD [OF assms(3) this mem] have "?x = ?y" .
  then show ?thesis
    using u i' assms(6)
    by (simp add: resource_binding_text_inject resource_call_utf16_def utf16_json_scope)
qed

lemma resolve_resource_some:
  assumes "resolve_resource t inp reg = (reg', Inr (Some (kind, rid)))"
  obtains now s r where "read_now t = Some now" and "normalize_scope (rr_in_scope inp) = Some s"
    and "map_of (by_handle (remove_expired now reg)) (rr_in_handle inp) = Some r"
    and "hr_session r = rr_in_session inp" and "rr_purpose r = rr_in_purpose inp"
    and "rr_kind r = rr_in_kind inp" and "rr_scope_key r = json_scope s"
    and "kind = rr_kind r" and "rid = rr_id r"
proof (cases "normalize_scope (rr_in_scope inp)")
  case None
  with assms show ?thesis by (simp add: resolve_resource_def)
next
  case (Some s)
  show ?thesis
  proof (cases "read_now t")
    case None
    with assms Some show ?thesis
      by (simp add: resolve_resource_def del: is_bounded_string.simps read_now.simps split: if_split_asm)
  next
    case now: (Some now)
    show ?thesis
    proof (cases "map_of (by_handle (remove_expired now reg)) (rr_in_handle inp)")
      case None
      with assms Some now show ?thesis
        by (simp add: resolve_resource_def Let_def del: is_bounded_string.simps read_now.simps split: if_split_asm)
    next
      case (Some r)
      with assms \<open>normalize_scope _ = _\<close> now show ?thesis
        by (intro that [of now s r])
          (simp_all add: resolve_resource_def Let_def del: is_bounded_string.simps read_now.simps split: if_split_asm)
    qed
  qed
qed

section \<open>Properties\<close>

text \<open>
  A resource handle resolves only for the session, the purpose, the resource kind and the
  scope it was issued for, before its expiry and while its session has not been revoked (nor
  the registry cleared) since; the resource given back is the one of that issue.
\<close>

theorem resource_resolution_sound:
  assumes "resource_run rnd sha cs empty_registry = Some (reg, log)" and "random_source rnd"
    and "resolve_resource t inp reg = (reg', Inr (Some (kind, rid)))"
  shows "\<exists>now ex l1 t0 i l2 s s0. read_now t = Some now \<and> now < ex
    \<and> log = l1 @ (CIssue t0 i, AIssued (Inr (rr_in_handle inp, ex))) # l2
    \<and> ir_session i = rr_in_session inp \<and> ir_purpose i = rr_in_purpose inp
    \<and> ir_kind i = rr_in_kind inp \<and> kind = ir_kind i \<and> rid = ir_id i
    \<and> normalize_scope (ir_scope i) = Some s0 \<and> normalize_scope (rr_in_scope inp) = Some s
    \<and> json_scope s0 = json_scope s
    \<and> CRevoke (rr_in_session inp) \<notin> fst ` set l2 \<and> CClear \<notin> fst ` set l2"
proof -
  have ok: "served (resource_matches sha) log reg" by (rule rc.run_served [OF assms(1,2)])
  then have sync: "reg_sync reg" by (rule served_sync)
  from assms(3) obtain now s r where n: "read_now t = Some now" "normalize_scope (rr_in_scope inp) = Some s"
    and r: "map_of (by_handle (remove_expired now reg)) (rr_in_handle inp) = Some r"
    "hr_session r = rr_in_session inp" "rr_purpose r = rr_in_purpose inp" "rr_kind r = rr_in_kind inp"
    "rr_scope_key r = json_scope s" "kind = rr_kind r" "rid = rr_id r"
    by (rule resolve_resource_some)
  have live: "r \<in> set (records reg)" "now < hr_expires r" "hr_handle r = rr_in_handle inp"
    using r(1) sync by (simp_all add: lookup_record)
  with ok have "granted (resource_matches sha) log r" by (simp add: served_def)
  then obtain l1 t0 i l2 where
    g: "log = l1 @ (CIssue t0 i, AIssued (Inr (hr_handle r, hr_expires r))) # l2" "resource_matches sha i r"
    "CRevoke (hr_session r) \<notin> fst ` set l2" "CClear \<notin> fst ` set l2"
    unfolding granted_def by (elim exE conjE)
  then obtain s0 where s0: "normalize_scope (ir_scope i) = Some s0" "rr_scope_key r = json_scope s0"
    unfolding resource_matches_def by auto
  have "ir_session i = rr_in_session inp" "ir_purpose i = rr_in_purpose inp" "ir_kind i = rr_in_kind inp"
    "kind = ir_kind i" "rid = ir_id i"
    using g(2) r(2-6) unfolding resource_matches_def by (simp_all add: r(6,7))
  moreover have "log = l1 @ (CIssue t0 i, AIssued (Inr (rr_in_handle inp, hr_expires r))) # l2"
    "CRevoke (rr_in_session inp) \<notin> fst ` set l2"
    using g(1,3) by (simp_all add: live r(2))
  moreover have "json_scope s0 = json_scope s" using s0(2) r(5) by simp
  ultimately show ?thesis using n s0(1) live(2) g(4) by (intro exI conjI) assumption+
qed

text \<open>
  What was issued resolves: with no two binding texts in collision under the digest, the
  handle an issue returns gives its resource back to the same session, purpose, kind and
  scope at any later time before the returned expiry.
\<close>

theorem resource_issue_resolve:
  assumes "resource_run rnd sha cs empty_registry = Some (reg, log)" and "random_source rnd"
    and "inj_on sha (set (concat (map resource_call_text (cs @ [CIssue t i]))))"
    and "list_all resource_call_utf16 (cs @ [CIssue t i])"
    and "issue_resource rnd sha t i reg = Some (reg', Inr (h, ex))"
    and "read_now t' = Some now'" and "now' < ex"
  shows "resolve_resource t' \<lparr>rr_in_session = ir_session i, rr_in_handle = h, rr_in_purpose = ir_purpose i,
      rr_in_kind = ir_kind i, rr_in_scope = ir_scope i\<rparr> reg'
    = (remove_expired now' reg', Inr (Some (ir_kind i, ir_id i)))"
proof -
  have inv: "reg_inv reg" by (rule rc.run_inv [OF assms(1,2)])
  let ?log = "log @ [(CIssue t i, AIssued (Inr (h, ex)))]"
  have ok': "served (resource_matches sha) ?log reg'"
    by (rule rc.issue_served [OF assms(5) rc.run_served [OF assms(1,2)] assms(2)])
  have calls: "map fst ?log = cs @ [CIssue t i]" using handle_run_log [OF assms(1)] by simp
  from assms(5) obtain now s where p: "normalize_scope (ir_scope i) = Some s"
    "session_id_pattern (ir_session i)" "is_bounded_string (JStr (ir_purpose i)) max_purpose_length"
    "is_bounded_string (JStr (ir_kind i)) max_resource_kind_length"
    and rec: "issue_record rnd now (ir_session i) (int_value (ir_expires i))
             (resource_binding_key sha (ir_session i) (ir_purpose i) (ir_kind i) (ir_id i) (json_scope s))
             (resource_record sha i (json_scope s)) reg = Some (reg', Inr (h, ex))"
    by (rule issue_resource_cases) auto
  have sync: "reg_sync reg" using inv by (simp add: reg_inv_def)
  from rec sync assms(2) resource_record_makes
  obtain r where r: "r \<in> set (records reg')" "hr_handle r = h" "hr_expires r = ex"
    "hr_binding r = resource_binding_key sha (ir_session i) (ir_purpose i) (ir_kind i) (ir_id i) (json_scope s)"
  proof (cases rule: issue_record_cases)
    case (existing r)
    then show ?thesis by (intro that [of r]) auto
  next
    case (fresh h')
    then show ?thesis
      by (intro that [of "resource_record sha i (json_scope s) h"]) (auto simp: records_def resource_record_def)
  qed simp
  have same: "hr_session r = ir_session i \<and> rr_purpose r = ir_purpose i \<and> rr_kind r = ir_kind i
    \<and> rr_id r = ir_id i \<and> rr_scope_key r = json_scope s"
    using resource_binding_unique [OF ok' r(1), unfolded calls, OF assms(3,4) _ p(1) r(4), of t] by simp
  have sync': "reg_sync reg'" using ok' by (rule served_sync)
  then have "opaque_handle_pattern h" using r by (auto simp: reg_sync_def records_def)
  moreover have "map_of (by_handle (remove_expired now' reg')) h = Some r"
    using sync' r assms(7) by (simp add: lookup_record)
  ultimately show ?thesis
    using p same assms(6) by (simp add: resolve_resource_def Let_def del: is_bounded_string.simps read_now.simps)
qed

section \<open>Concrete instances\<close>

definition res_rnd :: "nat \<Rightarrow> nat list" where
  "res_rnd n = [n mod 256, 0, 0, 0, 0, 0, 0, 0, 0, 0, 0, 0, 0, 0, 0, 0, 0, 0, 0, 0, 0, 0, 0, 0, 0, 0, 0, 0, 0, 0, 0, 0]"

definition res_issue :: issue_resource_input where
  "res_issue = \<lparr>ir_session = replicate 64 97, ir_expires = JInt 1000, ir_purpose = [114, 101, 97, 100],
     ir_kind = [109], ir_id = [49], ir_scope = JObj [(lit ''kind'', JStr (lit ''system''))]\<rparr>"

definition res_handle :: jstr where
  "res_handle = random_opaque_value res_rnd 0"

definition res_registry :: resource_registry where
  "res_registry = \<lparr>by_handle = [(res_handle, resource_record id res_issue (json_scope ScopeSystem) res_handle)],
     by_binding = [(resource_binding_key id (ir_session res_issue) (ir_purpose res_issue) (ir_kind res_issue)
        (ir_id res_issue) (json_scope ScopeSystem), res_handle)], draws = 1\<rparr>"

lemma res_rnd_source: "random_source res_rnd"
  by (simp add: random_source_def res_rnd_def)

lemma res_input_ok:
  "normalize_scope (ir_scope res_issue) = Some ScopeSystem" "session_id_pattern (ir_session res_issue)"
  "is_bounded_string (JStr (ir_purpose res_issue)) max_purpose_length"
  "is_bounded_string (JStr (ir_kind res_issue)) max_resource_kind_length"
  "is_bounded_string (JStr (ir_id res_issue)) max_resource_identifier_length"
  "ir_expires res_issue = JInt 1000"
  by (simp_all add: res_issue_def normalize_scope_def has_exact_keys_def Let_def session_id_pattern_def
      list_all_iff hex_digit_def max_purpose_length_def max_resource_kind_length_def
      max_resource_identifier_length_def js_trim_def js_space_def)

lemma res_issue_eq:
  "issue_resource res_rnd id (JInt 10) res_issue empty_registry = Some (res_registry, Inr (res_handle, 1000))"
  using res_input_ok
  by (simp add: issue_resource_def max_safe_def max_session_ttl_ms_def issue_record_def Let_def
      remove_expired_def remove_where_def empty_registry_def session_records_def records_def
      existing_record_def active_session_count_def max_active_sessions_def max_handles_per_session_def
      fresh_handle.simps res_registry_def res_handle_def resource_record_def
      del: is_bounded_string.simps)

lemma res_run_nil: "resource_run res_rnd id [] empty_registry = Some (empty_registry, [])"
  by simp

lemma res_run_eq:
  "resource_run res_rnd id [CIssue (JInt 10) res_issue] empty_registry =
    Some (res_registry, [(CIssue (JInt 10) res_issue, AIssued (Inr (res_handle, 1000)))])"
  by (simp add: res_issue_eq)

lemma res_utf16: "list_all resource_call_utf16 ([] @ [CIssue (JInt 10) res_issue])"
  using res_input_ok(1) by (simp add: resource_call_utf16_def utf16_scope_def)
    (simp add: res_issue_def utf16_def list_all_iff)

definition res_query :: resolve_resource_input where
  "res_query = \<lparr>rr_in_session = ir_session res_issue, rr_in_handle = res_handle,
     rr_in_purpose = ir_purpose res_issue, rr_in_kind = ir_kind res_issue, rr_in_scope = ir_scope res_issue\<rparr>"

lemma res_resolves:
  "resolve_resource (JInt 20) res_query res_registry
    = (remove_expired 20 res_registry, Inr (Some (ir_kind res_issue, ir_id res_issue)))"
proof -
  have "opaque_handle_pattern res_handle"
    unfolding res_handle_def by (rule random_opaque_value_pattern [OF res_rnd_source])
  moreover have "remove_expired 20 res_registry = res_registry"
    by (simp add: remove_expired_def remove_where_def res_registry_def resource_record_def res_input_ok)
  ultimately show ?thesis
    using res_input_ok
    by (simp add: resolve_resource_def res_query_def Let_def max_safe_def del: is_bounded_string.simps)
      (simp add: res_registry_def resource_record_def)
qed

theorem resource_resolution_sound_witness:
  "\<exists>now ex. read_now (JInt 20) = Some now \<and> now < ex"
  using resource_resolution_sound [OF res_run_eq res_rnd_source res_resolves] by blast

theorem resource_issue_resolve_witness:
  "resolve_resource (JInt 20) \<lparr>rr_in_session = ir_session res_issue, rr_in_handle = res_handle,
      rr_in_purpose = ir_purpose res_issue, rr_in_kind = ir_kind res_issue, rr_in_scope = ir_scope res_issue\<rparr>
      res_registry
    = (remove_expired 20 res_registry, Inr (Some (ir_kind res_issue, ir_id res_issue)))"
  by (rule resource_issue_resolve [OF res_run_nil res_rnd_source _ res_utf16 res_issue_eq])
    (simp_all add: max_safe_def)

end
