(* ===== verification/Preview_Handles.thy ===== *)
theory Preview_Handles
  imports Handle_Registry
begin

text \<open>
  \<open>GovernancePreviewHandleRegistry\<close> of \<open>src/http/governance-preview-handle-registry.ts\<close>:
  one-time handles for a previewed governance action.  A record stays after it was consumed,
  so that a replay can be told from an unknown handle, until it expires or 64 later ones of
  its session are consumed.  Deleting entries of a \<open>Map\<close> while iterating over it visits every
  entry once, so those loops are a \<open>filter\<close>.
\<close>

section \<open>State and inputs\<close>

record preview_binding =
  pb_resource_id :: jstr
  pb_expected_state :: jstr
  pb_expected_revision :: int
  pb_digest :: jstr
  pb_expected_at :: "int option"

record preview_rec =
  pv_handle :: jstr
  pv_session :: jstr
  pv_session_expires :: int
  pv_actor_kind :: jstr
  pv_action :: jstr
  pv_kind :: jstr
  pv_scope_key :: jstr
  pv_binding :: preview_binding
  pv_expires :: int
  pv_consumed :: bool

record preview_registry =
  previews :: "(jstr, preview_rec) jmap"
  pv_draws :: nat

record issue_preview_input =
  ip_session :: jstr
  ip_expires :: js_number
  ip_actor :: jval
  ip_action :: jstr
  ip_kind :: jstr
  ip_resource_id :: jstr
  ip_scope :: jval
  ip_state :: jstr
  ip_revision :: js_number
  ip_digest :: jstr
  ip_expected_at :: "js_number option"

record consume_preview_input =
  cp_session :: jstr
  cp_handle :: jstr
  cp_actor :: jval
  cp_action :: jstr
  cp_kind :: jstr
  cp_resource_id :: jstr
  cp_scope :: jval

datatype consume_result =
    Consumed preview_binding
  | AlreadyConsumed
  | NotFoundOrDenied

definition empty_previews :: preview_registry where
  "empty_previews = \<lparr>previews = [], pv_draws = 0\<rparr>"

definition max_previews_per_session :: nat where
  "max_previews_per_session = 64"

definition max_consumed_previews_per_session :: nat where
  "max_consumed_previews_per_session = 64"

definition max_preview_ttl_ms :: int where
  "max_preview_ttl_ms = 300000"

definition max_action_length :: nat where
  "max_action_length = 128"

definition max_preview_kind_length :: nat where
  "max_preview_kind_length = 128"

definition max_preview_id_length :: nat where
  "max_preview_id_length = 256"

definition max_expected_state_length :: nat where
  "max_expected_state_length = 64"

definition local_admin :: jstr where
  "local_admin = lit ''local_admin''"

section \<open>Operations\<close>

definition is_local_admin_actor :: "jval \<Rightarrow> bool" where
  "is_local_admin_actor v \<longleftrightarrow> is_record v \<and> has_exact_keys v [lit ''kind'']
     \<and> get_field v (lit ''kind'') = JStr local_admin"

fun preview_read_now :: "js_number \<Rightarrow> int option" where
  "preview_read_now now =
     (if \<not> is_safe_integer now \<or> int_value now < 0 \<or> max_safe - max_session_ttl_ms < int_value now
      then None else Some (int_value now))"

definition preview_records :: "preview_registry \<Rightarrow> preview_rec list" where
  "preview_records reg = map snd (previews reg)"

definition previews_without :: "(preview_rec \<Rightarrow> bool) \<Rightarrow> preview_registry \<Rightarrow> preview_registry" where
  "previews_without P reg = reg\<lparr>previews := filter (\<lambda>(h, r). \<not> P r) (previews reg)\<rparr>"

definition purge_previews :: "int \<Rightarrow> preview_registry \<Rightarrow> preview_registry" where
  "purge_previews now reg = previews_without (\<lambda>r. pv_expires r \<le> now) reg"

definition revoke_previews :: "jstr \<Rightarrow> preview_registry \<Rightarrow> preview_registry" where
  "revoke_previews sid reg =
     (if \<not> session_id_pattern sid then reg else previews_without (\<lambda>r. pv_session r = sid) reg)"

definition clear_previews :: "preview_registry \<Rightarrow> preview_registry" where
  "clear_previews reg = reg\<lparr>previews := []\<rparr>"

definition trim_consumed :: "jstr \<Rightarrow> preview_registry \<Rightarrow> preview_registry" where
  "trim_consumed sid reg =
     (let handles = map pv_handle (filter (\<lambda>r. pv_session r = sid \<and> pv_consumed r) (preview_records reg));
          old = take (length handles - max_consumed_previews_per_session) handles
      in reg\<lparr>previews := fold AList.delete old (previews reg)\<rparr>)"

definition preview_record :: "int \<Rightarrow> issue_preview_input \<Rightarrow> gov_scope \<Rightarrow> jstr \<Rightarrow> preview_rec" where
  "preview_record now i s h =
     \<lparr>pv_handle = h, pv_session = ip_session i, pv_session_expires = int_value (ip_expires i),
      pv_actor_kind = string_of (get_field (ip_actor i) (lit ''kind'')),
      pv_action = ip_action i, pv_kind = ip_kind i, pv_scope_key = json_scope s,
      pv_binding = \<lparr>pb_resource_id = ip_resource_id i, pb_expected_state = ip_state i,
        pb_expected_revision = int_value (ip_revision i), pb_digest = ip_digest i,
        pb_expected_at = map_option int_value (ip_expected_at i)\<rparr>,
      pv_expires = min (int_value (ip_expires i)) (now + max_preview_ttl_ms), pv_consumed = False\<rparr>"

definition preview_input_ok :: "int \<Rightarrow> issue_preview_input \<Rightarrow> bool" where
  "preview_input_ok now i \<longleftrightarrow>
     session_id_pattern (ip_session i)
     \<and> is_safe_integer (ip_expires i)
     \<and> now < int_value (ip_expires i)
     \<and> int_value (ip_expires i) \<le> now + max_session_ttl_ms
     \<and> is_local_admin_actor (ip_actor i)
     \<and> is_bounded_string (JStr (ip_action i)) max_action_length
     \<and> is_bounded_string (JStr (ip_kind i)) max_preview_kind_length
     \<and> is_bounded_string (JStr (ip_resource_id i)) max_preview_id_length
     \<and> is_bounded_string (JStr (ip_state i)) max_expected_state_length
     \<and> is_safe_integer (ip_revision i)
     \<and> 1 \<le> int_value (ip_revision i)
     \<and> session_id_pattern (ip_digest i)
     \<and> (case ip_expected_at i of None \<Rightarrow> True | Some at \<Rightarrow> is_safe_integer at \<and> 0 \<le> int_value at)"

definition store_preview ::
  "(nat \<Rightarrow> nat list) \<Rightarrow> int \<Rightarrow> issue_preview_input \<Rightarrow> gov_scope \<Rightarrow> preview_registry
    \<Rightarrow> (preview_registry \<times> (handle_error + (jstr \<times> int))) option" where
  "store_preview rnd now i s reg1 =
     (let mine = filter (\<lambda>r. pv_session r = ip_session i) (preview_records reg1);
          active = filter (\<lambda>r. \<not> pv_consumed r) (preview_records reg1);
          active_mine = filter (\<lambda>r. \<not> pv_consumed r) mine
      in if list_ex (\<lambda>r. pv_session_expires r \<noteq> int_value (ip_expires i)) mine
         then Some (reg1, Inl InvalidHandleInput)
         else if (active_mine = [] \<and> max_active_sessions \<le> length (remdups (map pv_session active)))
                 \<or> max_previews_per_session \<le> length active_mine
         then Some (reg1, Inl HandleCapacity)
         else map_option
           (\<lambda>(h, n). let r = preview_record now i s h
                      in (\<lparr>previews = AList.update h r (previews reg1), pv_draws = n\<rparr>, Inr (h, pv_expires r)))
           (fresh_handle rnd (previews reg1) (pv_draws reg1)))"

definition issue_preview ::
  "(nat \<Rightarrow> nat list) \<Rightarrow> js_number \<Rightarrow> issue_preview_input \<Rightarrow> preview_registry
    \<Rightarrow> (preview_registry \<times> (handle_error + (jstr \<times> int))) option" where
  "issue_preview rnd clock i reg =
     (case preview_read_now clock of
        None \<Rightarrow> Some (reg, Inl InvalidHandleClock)
      | Some now \<Rightarrow>
          (case normalize_scope (ip_scope i) of
             None \<Rightarrow> Some (reg, Inl InvalidHandleInput)
           | Some s \<Rightarrow>
               if \<not> preview_input_ok now i then Some (reg, Inl InvalidHandleInput)
               else store_preview rnd now i s (purge_previews now reg)))"

text \<open>The record a request has to meet exactly.\<close>

definition preview_matches :: "consume_preview_input \<Rightarrow> gov_scope \<Rightarrow> preview_rec \<Rightarrow> bool" where
  "preview_matches c s r \<longleftrightarrow>
     pv_session r = cp_session c
     \<and> JStr (pv_actor_kind r) = get_field (cp_actor c) (lit ''kind'')
     \<and> pv_action r = cp_action c
     \<and> pv_kind r = cp_kind c
     \<and> pb_resource_id (pv_binding r) = cp_resource_id c
     \<and> pv_scope_key r = json_scope s"

definition consume_with_outcome ::
  "js_number \<Rightarrow> consume_preview_input \<Rightarrow> preview_registry
    \<Rightarrow> preview_registry \<times> (handle_error + consume_result)" where
  "consume_with_outcome clock c reg =
     (case normalize_scope (cp_scope c) of
        None \<Rightarrow> (reg, Inr NotFoundOrDenied)
      | Some s \<Rightarrow>
          if \<not> session_id_pattern (cp_session c)
             \<or> \<not> opaque_handle_pattern (cp_handle c)
             \<or> \<not> is_local_admin_actor (cp_actor c)
             \<or> \<not> is_bounded_string (JStr (cp_action c)) max_action_length
             \<or> \<not> is_bounded_string (JStr (cp_kind c)) max_preview_kind_length
             \<or> \<not> is_bounded_string (JStr (cp_resource_id c)) max_preview_id_length
          then (reg, Inr NotFoundOrDenied)
          else case preview_read_now clock of
            None \<Rightarrow> (reg, Inl InvalidHandleClock)
          | Some now \<Rightarrow>
              let reg1 = purge_previews now reg
              in case map_of (previews reg1) (cp_handle c) of
                   None \<Rightarrow> (reg1, Inr NotFoundOrDenied)
                 | Some r \<Rightarrow>
                     if \<not> preview_matches c s r then (reg1, Inr NotFoundOrDenied)
                     else if pv_consumed r then (reg1, Inr AlreadyConsumed)
                     else (trim_consumed (cp_session c)
                             (reg1\<lparr>previews := AList.update (cp_handle c) (r\<lparr>pv_consumed := True\<rparr>)
                                                  (previews reg1)\<rparr>),
                           Inr (Consumed (pv_binding r))))"

definition consume_preview ::
  "js_number \<Rightarrow> consume_preview_input \<Rightarrow> preview_registry
    \<Rightarrow> preview_registry \<times> (handle_error + preview_binding option)" where
  "consume_preview clock c reg =
     (case consume_with_outcome clock c reg of
        (reg1, Inl e) \<Rightarrow> (reg1, Inl e)
      | (reg1, Inr (Consumed b)) \<Rightarrow> (reg1, Inr (Some b))
      | (reg1, Inr _) \<Rightarrow> (reg1, Inr None))"

section \<open>Calls and their record\<close>

datatype preview_call =
    PIssue js_number issue_preview_input
  | PConsume js_number consume_preview_input
  | PRevoke jstr
  | PClear

datatype preview_answer =
    PIssued "handle_error + (jstr \<times> int)"
  | POutcome "handle_error + consume_result"
  | PDone

fun preview_exec ::
  "(nat \<Rightarrow> nat list) \<Rightarrow> preview_call \<Rightarrow> preview_registry \<Rightarrow> (preview_registry \<times> preview_answer) option" where
  "preview_exec rnd (PIssue t i) reg = map_option (map_prod id PIssued) (issue_preview rnd t i reg)"
| "preview_exec rnd (PConsume t c) reg = Some (map_prod id POutcome (consume_with_outcome t c reg))"
| "preview_exec rnd (PRevoke sid) reg = Some (revoke_previews sid reg, PDone)"
| "preview_exec rnd PClear reg = Some (clear_previews reg, PDone)"

text \<open>The calls served so far and their answers, as a relation on the registry.\<close>

inductive preview_history ::
  "(nat \<Rightarrow> nat list) \<Rightarrow> (preview_call \<times> preview_answer) list \<Rightarrow> preview_registry \<Rightarrow> bool"
  for rnd :: "nat \<Rightarrow> nat list" where
  start: "preview_history rnd [] empty_previews"
| serve: "preview_history rnd log reg \<Longrightarrow> preview_exec rnd c reg = Some (reg', a) \<Longrightarrow>
    preview_history rnd (log @ [(c, a)]) reg'"

section \<open>The invariant of the registry\<close>

definition active_of :: "jstr \<Rightarrow> preview_rec list \<Rightarrow> preview_rec list" where
  "active_of sid rs = filter (\<lambda>r. pv_session r = sid \<and> \<not> pv_consumed r) rs"

definition consumed_of :: "jstr \<Rightarrow> preview_rec list \<Rightarrow> preview_rec list" where
  "consumed_of sid rs = filter (\<lambda>r. pv_session r = sid \<and> pv_consumed r) rs"

definition active_sessions :: "preview_rec list \<Rightarrow> jstr set" where
  "active_sessions rs = pv_session ` {r \<in> set rs. \<not> pv_consumed r}"

definition preview_sync :: "preview_registry \<Rightarrow> bool" where
  "preview_sync reg \<longleftrightarrow> distinct (map fst (previews reg))
     \<and> (\<forall>(h, r) \<in> set (previews reg). pv_handle r = h \<and> opaque_handle_pattern h)"

definition preview_bounded :: "preview_registry \<Rightarrow> bool" where
  "preview_bounded reg \<longleftrightarrow> card (active_sessions (preview_records reg)) \<le> max_active_sessions
     \<and> (\<forall>sid. length (active_of sid (preview_records reg)) \<le> max_previews_per_session
           \<and> length (consumed_of sid (preview_records reg)) \<le> max_consumed_previews_per_session)"

definition preview_inv :: "preview_registry \<Rightarrow> bool" where
  "preview_inv reg \<longleftrightarrow> preview_sync reg \<and> preview_bounded reg"

lemma finite_active_sessions [simp]: "finite (active_sessions rs)"
  by (simp add: active_sessions_def)

lemma fold_delete: "fold AList.delete ks m = filter (\<lambda>p. fst p \<notin> set ks) m"
  by (induction ks arbitrary: m) (auto simp: AList.delete_eq case_prod_unfold intro: filter_cong)

lemma filter_not_taken: "distinct xs \<Longrightarrow> filter (\<lambda>x. x \<notin> set (take k xs)) xs = drop k xs"
proof -
  assume d: "distinct xs"
  have "distinct (take k xs @ drop k xs)" using d by simp
  then have "filter (\<lambda>x. x \<notin> set (take k xs)) (take k xs @ drop k xs) = drop k xs"
    unfolding filter_append distinct_append by (auto simp: filter_empty_conv filter_id_conv)
  then show ?thesis by simp
qed

lemma preview_lookup:
  "preview_sync reg \<Longrightarrow> map_of (previews reg) h = Some r \<longleftrightarrow> r \<in> set (preview_records reg) \<and> pv_handle r = h"
  by (force simp: preview_sync_def preview_records_def image_iff)

lemma preview_handles_distinct:
  assumes "preview_sync reg"
  shows "distinct (map pv_handle (preview_records reg))"
proof -
  have "map pv_handle (preview_records reg) = map fst (previews reg)"
    using assms by (auto simp: preview_records_def preview_sync_def)
  with assms show ?thesis by (simp add: preview_sync_def)
qed

lemma preview_records_filter:
  "previews reg' = filter (\<lambda>(h, r). Q r) (previews reg) \<Longrightarrow>
    preview_records reg' = filter Q (preview_records reg)"
  by (simp add: preview_records_def filter_map comp_def case_prod_unfold)

lemma length_filter_twice: "length (filter P (filter Q xs)) \<le> length (filter P xs)"
  by (induction xs) auto

lemma preview_inv_filter:
  assumes "preview_inv reg" and "previews reg' = filter (\<lambda>(h, r). Q r) (previews reg)"
  shows "preview_inv reg'"
proof -
  have rs: "preview_records reg' = filter Q (preview_records reg)"
    by (rule preview_records_filter [OF assms(2)])
  have "card (active_sessions (preview_records reg')) \<le> card (active_sessions (preview_records reg))"
    by (rule card_mono) (auto simp: rs active_sessions_def)
  moreover have "length (active_of sid (preview_records reg')) \<le> length (active_of sid (preview_records reg))"
    "length (consumed_of sid (preview_records reg')) \<le> length (consumed_of sid (preview_records reg))" for sid
    unfolding active_of_def consumed_of_def rs by (rule length_filter_twice)+
  ultimately have "preview_bounded reg'"
    using assms(1) unfolding preview_inv_def preview_bounded_def by (meson le_trans)
  with assms show ?thesis by (auto simp: preview_inv_def preview_sync_def distinct_map_filter)
qed

lemma preview_inv_empty: "preview_inv empty_previews"
  by (simp add: preview_inv_def preview_sync_def preview_bounded_def empty_previews_def preview_records_def
      active_of_def consumed_of_def active_sessions_def)

lemma previews_without_filter: "previews (previews_without P reg) = filter (\<lambda>(h, r). \<not> P r) (previews reg)"
  by (simp add: previews_without_def)

lemma preview_inv_without: "preview_inv reg \<Longrightarrow> preview_inv (previews_without P reg)"
  by (rule preview_inv_filter [OF _ previews_without_filter])

lemma preview_inv_purge: "preview_inv reg \<Longrightarrow> preview_inv (purge_previews now reg)"
  by (simp add: purge_previews_def preview_inv_without)

lemma preview_inv_revoke: "preview_inv reg \<Longrightarrow> preview_inv (revoke_previews sid reg)"
  by (simp add: revoke_previews_def preview_inv_without)

lemma preview_inv_clear: "preview_inv (clear_previews reg)"
  using preview_inv_empty
  by (simp add: preview_inv_def preview_sync_def preview_bounded_def preview_records_def empty_previews_def clear_previews_def)

subsection \<open>Issuing\<close>

lemma store_preview_cases:
  assumes "store_preview rnd now i s reg = Some (reg', res)" and "random_source rnd"
  obtains (refused) e where "res = Inl e" and "reg' = reg"
  | (stored) h where "res = Inr (h, pv_expires (preview_record now i s h))" and "h \<notin> fst ` set (previews reg)"
      and "opaque_handle_pattern h"
      and "previews reg' = previews reg @ [(h, preview_record now i s h)]"
      and "ip_session i \<in> active_sessions (preview_records reg)
           \<or> card (active_sessions (preview_records reg)) < max_active_sessions"
      and "length (active_of (ip_session i) (preview_records reg)) < max_previews_per_session"
proof -
  let ?mine = "filter (\<lambda>r. pv_session r = ip_session i) (preview_records reg)"
  let ?active = "filter (\<lambda>r. \<not> pv_consumed r) (preview_records reg)"
  let ?am = "filter (\<lambda>r. \<not> pv_consumed r) ?mine"
  have am: "?am = active_of (ip_session i) (preview_records reg)"
    by (simp add: active_of_def conj_commute)
  have cnt: "length (remdups (map pv_session ?active)) = card (active_sessions (preview_records reg))"
    by (simp add: length_remdups_card_conv active_sessions_def)
  show ?thesis
  proof (cases "list_ex (\<lambda>r. pv_session_expires r \<noteq> int_value (ip_expires i)) ?mine")
    case True
    with assms(1) show ?thesis by (intro refused) (auto simp: store_preview_def Let_def)
  next
    case False
    show ?thesis
    proof (cases "(?am = [] \<and> max_active_sessions \<le> length (remdups (map pv_session ?active)))
        \<or> max_previews_per_session \<le> length ?am")
      case True
      then have "store_preview rnd now i s reg = Some (reg, Inl HandleCapacity)"
        unfolding store_preview_def Let_def using False by (simp only: if_False if_True)
      with assms(1) show ?thesis by (intro refused [of HandleCapacity]) simp_all
    next
      case cap: False
      then have "store_preview rnd now i s reg = map_option
           (\<lambda>(h, n). let r = preview_record now i s h
                      in (\<lparr>previews = AList.update h r (previews reg), pv_draws = n\<rparr>, Inr (h, pv_expires r)))
           (fresh_handle rnd (previews reg) (pv_draws reg))"
        unfolding store_preview_def Let_def using False by (simp only: if_False)
      with assms(1) obtain h n where f: "fresh_handle rnd (previews reg) (pv_draws reg) = Some (h, n)"
        and reg': "reg' = \<lparr>previews = AList.update h (preview_record now i s h) (previews reg), pv_draws = n\<rparr>"
        and res: "res = Inr (h, pv_expires (preview_record now i s h))"
        by (auto simp: Let_def)
      from fresh_handle_SomeD [OF f] have new: "h \<notin> fst ` set (previews reg)" "opaque_handle_pattern h"
        using random_opaque_value_pattern [OF assms(2)] by auto
      have "ip_session i \<in> active_sessions (preview_records reg)" if "?am \<noteq> []"
        using that unfolding am by (force simp: active_of_def active_sessions_def filter_empty_conv)
      with cap have "ip_session i \<in> active_sessions (preview_records reg)
           \<or> card (active_sessions (preview_records reg)) < max_active_sessions"
        unfolding cnt by (meson not_le)
      moreover have "length (active_of (ip_session i) (preview_records reg)) < max_previews_per_session"
        using cap unfolding am by (simp add: not_le)
      ultimately show ?thesis using new reg' res by (intro stored [of h]) (simp_all add: update_fresh)
    qed
  qed
qed

lemma preview_inv_stored:
  assumes "preview_inv reg" and "h \<notin> fst ` set (previews reg)" and "opaque_handle_pattern h"
    and "previews reg' = previews reg @ [(h, r)]" and "pv_handle r = h" and "\<not> pv_consumed r"
    and "pv_session r \<in> active_sessions (preview_records reg)
         \<or> card (active_sessions (preview_records reg)) < max_active_sessions"
    and "length (active_of (pv_session r) (preview_records reg)) < max_previews_per_session"
  shows "preview_inv reg'"
proof -
  have rs: "preview_records reg' = preview_records reg @ [r]" by (simp add: preview_records_def assms(4))
  have "active_sessions (preview_records reg') = insert (pv_session r) (active_sessions (preview_records reg))"
    using assms(6) by (auto simp: rs active_sessions_def)
  then have "card (active_sessions (preview_records reg')) \<le> max_active_sessions"
    using assms(1,7) by (auto simp: card_insert_if preview_inv_def preview_bounded_def)
  moreover have "length (active_of sid (preview_records reg')) \<le> max_previews_per_session"
    "length (consumed_of sid (preview_records reg')) \<le> max_consumed_previews_per_session" for sid
    using assms(1,6,8) by (auto simp: rs active_of_def consumed_of_def preview_inv_def preview_bounded_def)
  ultimately show ?thesis
    using assms by (auto simp: preview_inv_def preview_bounded_def preview_sync_def)
qed

subsection \<open>Consuming\<close>

definition mark_consumed :: "jstr \<Rightarrow> preview_registry \<Rightarrow> preview_registry" where
  "mark_consumed h reg = reg\<lparr>previews :=
     map (\<lambda>(k, r). (k, if k = h then r\<lparr>pv_consumed := True\<rparr> else r)) (previews reg)\<rparr>"

lemma update_marks:
  assumes "preview_sync reg" and "map_of (previews reg) h = Some r"
  shows "reg\<lparr>previews := AList.update h (r\<lparr>pv_consumed := True\<rparr>) (previews reg)\<rparr> = mark_consumed h reg"
proof -
  have "AList.update h (f r) m = map (\<lambda>(k, r). (k, if k = h then f r else r)) m"
    if "distinct (map fst m)" "map_of m h = Some r" for m and f :: "preview_rec \<Rightarrow> preview_rec"
    using that
  proof (induction m)
    case (Cons p m)
    obtain k q where p: "p = (k, q)" by fastforce
    show ?case
    proof (cases "k = h")
      case True
      with Cons.prems p have "map (\<lambda>(k, r). (k, if k = h then f r else r)) m = m"
        by (intro map_idI) (auto simp: image_iff)
      with True Cons.prems p show ?thesis by simp
    next
      case False
      with Cons p show ?thesis by simp
    qed
  qed simp
  with assms show ?thesis by (simp add: mark_consumed_def preview_sync_def)
qed

lemma preview_records_mark:
  assumes "preview_sync reg"
  shows "preview_records (mark_consumed h reg)
    = map (\<lambda>r. if pv_handle r = h then r\<lparr>pv_consumed := True\<rparr> else r) (preview_records reg)"
  using assms by (auto simp: preview_records_def mark_consumed_def preview_sync_def)

lemma preview_sync_mark: "preview_sync reg \<Longrightarrow> preview_sync (mark_consumed h reg)"
  by (auto simp: preview_sync_def mark_consumed_def comp_def case_prod_unfold)

lemma trim_consumed_filter:
  assumes "preview_sync reg"
  obtains old where "previews (trim_consumed sid reg) = filter (\<lambda>(h, r). pv_handle r \<notin> set old) (previews reg)"
    and "old = take (length (consumed_of sid (preview_records reg)) - max_consumed_previews_per_session)
                 (map pv_handle (consumed_of sid (preview_records reg)))"
proof -
  let ?old = "take (length (consumed_of sid (preview_records reg)) - max_consumed_previews_per_session)
      (map pv_handle (consumed_of sid (preview_records reg)))"
  have "previews (trim_consumed sid reg) = filter (\<lambda>p. fst p \<notin> set ?old) (previews reg)"
    by (simp add: trim_consumed_def Let_def fold_delete consumed_of_def)
  also have "\<dots> = filter (\<lambda>(h, r). pv_handle r \<notin> set ?old) (previews reg)"
    using assms by (intro filter_cong) (auto simp: preview_sync_def)
  finally show ?thesis using that by blast
qed

lemma consumed_trimmed:
  assumes "preview_sync reg"
  shows "length (consumed_of sid (preview_records (trim_consumed sid reg))) \<le> max_consumed_previews_per_session"
proof -
  let ?cs = "consumed_of sid (preview_records reg)"
  from assms obtain old where
    "previews (trim_consumed sid reg) = filter (\<lambda>(h, r). pv_handle r \<notin> set old) (previews reg)"
    and old: "old = take (length ?cs - max_consumed_previews_per_session) (map pv_handle ?cs)"
    by (rule trim_consumed_filter)
  then have "consumed_of sid (preview_records (trim_consumed sid reg)) = filter (\<lambda>r. pv_handle r \<notin> set old) ?cs"
    by (simp add: preview_records_filter consumed_of_def conj_commute)
  then have "map pv_handle (consumed_of sid (preview_records (trim_consumed sid reg)))
      = filter (\<lambda>h. h \<notin> set old) (map pv_handle ?cs)"
    by (simp add: filter_map comp_def)
  also have "\<dots> = drop (length ?cs - max_consumed_previews_per_session) (map pv_handle ?cs)"
    unfolding old using preview_handles_distinct [OF assms]
    by (intro filter_not_taken) (simp add: consumed_of_def distinct_map_filter)
  finally have "length (map pv_handle (consumed_of sid (preview_records (trim_consumed sid reg))))
      \<le> max_consumed_previews_per_session" by simp
  then show ?thesis by simp
qed

lemma preview_inv_consume:
  assumes "preview_inv reg" and "r \<in> set (preview_records reg)" and "pv_handle r = h" and "pv_session r = sid"
  shows "preview_inv (trim_consumed sid (mark_consumed h reg))"
proof -
  let ?m = "mark_consumed h reg"
  let ?f = "\<lambda>r. if pv_handle r = h then r\<lparr>pv_consumed := True\<rparr> else r"
  have sync: "preview_sync reg" using assms(1) by (simp add: preview_inv_def)
  have rs: "preview_records ?m = map ?f (preview_records reg)" by (rule preview_records_mark [OF sync])
  have dist: "distinct (map pv_handle (preview_records reg))" by (rule preview_handles_distinct [OF sync])
  have msync: "preview_sync ?m" by (rule preview_sync_mark [OF sync])
  have act: "length (active_of s (preview_records ?m)) \<le> length (active_of s (preview_records reg))" for s
  proof -
    have "length (active_of s (map ?f rs)) \<le> length (active_of s rs)" for rs
      by (induction rs) (auto simp: active_of_def)
    then show ?thesis by (simp add: rs)
  qed
  have sessions: "card (active_sessions (preview_records ?m)) \<le> card (active_sessions (preview_records reg))"
    by (rule card_mono) (auto simp: rs active_sessions_def split: if_split_asm)
  have other: "length (consumed_of s (preview_records ?m)) = length (consumed_of s (preview_records reg))"
    if "s \<noteq> sid" for s
  proof -
    have "length (consumed_of s (map ?f qs)) = length (consumed_of s qs)" if "set qs \<subseteq> set (preview_records reg)" for qs
      using that
    proof (induction qs)
      case (Cons q qs)
      have "pv_handle q = h \<Longrightarrow> q = r"
        using Cons.prems assms(2,3) dist by (auto simp: distinct_map dest: inj_onD)
      with Cons \<open>s \<noteq> sid\<close> assms(4) show ?case by (auto simp: consumed_of_def)
    qed (simp add: consumed_of_def)
    then show ?thesis by (simp add: rs)
  qed
  from msync obtain old where tr: "previews (trim_consumed sid ?m) = filter (\<lambda>(h, r). pv_handle r \<notin> set old) (previews ?m)"
    by (rule trim_consumed_filter)
  have trs: "preview_records (trim_consumed sid ?m) = filter (\<lambda>r. pv_handle r \<notin> set old) (preview_records ?m)"
    by (rule preview_records_filter [OF tr])
  have fewer: "length (consumed_of s (preview_records (trim_consumed sid ?m))) \<le> length (consumed_of s (preview_records ?m))"
    "length (active_of s (preview_records (trim_consumed sid ?m))) \<le> length (active_of s (preview_records ?m))" for s
    unfolding active_of_def consumed_of_def trs by (rule length_filter_twice)+
  have "preview_bounded (trim_consumed sid ?m)"
    unfolding preview_bounded_def
  proof (intro conjI allI)
    have "card (active_sessions (preview_records (trim_consumed sid ?m))) \<le> card (active_sessions (preview_records ?m))"
      by (rule card_mono) (auto simp: trs active_sessions_def)
    with sessions assms(1) show "card (active_sessions (preview_records (trim_consumed sid ?m))) \<le> max_active_sessions"
      by (simp add: preview_inv_def preview_bounded_def)
  next
    fix s
    from fewer(2) [of s] act [of s] assms(1)
    show "length (active_of s (preview_records (trim_consumed sid ?m))) \<le> max_previews_per_session"
      unfolding preview_inv_def preview_bounded_def by (meson le_trans)
    show "length (consumed_of s (preview_records (trim_consumed sid ?m))) \<le> max_consumed_previews_per_session"
      using consumed_trimmed [OF msync] other [of s] assms(1) fewer(1) [of s]
      unfolding preview_inv_def preview_bounded_def by (metis le_trans)
  qed
  moreover have "preview_sync (trim_consumed sid ?m)"
    using msync tr by (auto simp: preview_sync_def distinct_map_filter)
  ultimately show ?thesis by (simp add: preview_inv_def)
qed

lemma consume_cases:
  assumes "consume_with_outcome t c reg = (reg', res)" and "preview_sync reg"
  obtains (kept) "reg' = reg" and "\<And>b. res \<noteq> Inr (Consumed b)"
  | (purged) now where "preview_read_now t = Some now" and "reg' = purge_previews now reg"
      and "\<And>b. res \<noteq> Inr (Consumed b)"
  | (consumed) now s r where "preview_read_now t = Some now" and "normalize_scope (cp_scope c) = Some s"
      and "session_id_pattern (cp_session c)"
      and "res = Inr (Consumed (pv_binding r))" and "r \<in> set (preview_records (purge_previews now reg))"
      and "pv_handle r = cp_handle c" and "\<not> pv_consumed r" and "preview_matches c s r"
      and "reg' = trim_consumed (cp_session c) (mark_consumed (cp_handle c) (purge_previews now reg))"
proof -
  have psync: "preview_sync (purge_previews now reg)" for now
    using assms(2) by (auto simp: preview_sync_def purge_previews_def previews_without_def distinct_map_filter)
  show ?thesis
  proof (cases "normalize_scope (cp_scope c)")
    case None
    with assms(1) show ?thesis by (intro kept) (auto simp: consume_with_outcome_def)
  next
    case (Some s)
    let ?bad = "\<not> session_id_pattern (cp_session c)
             \<or> \<not> opaque_handle_pattern (cp_handle c)
             \<or> \<not> is_local_admin_actor (cp_actor c)
             \<or> \<not> is_bounded_string (JStr (cp_action c)) max_action_length
             \<or> \<not> is_bounded_string (JStr (cp_kind c)) max_preview_kind_length
             \<or> \<not> is_bounded_string (JStr (cp_resource_id c)) max_preview_id_length"
    show ?thesis
    proof (cases ?bad)
      case True
      then have "consume_with_outcome t c reg = (reg, Inr NotFoundOrDenied)"
        unfolding consume_with_outcome_def Some option.case by (simp only: if_True)
      with assms(1) show ?thesis by (intro kept) auto
    next
      case False
      note body = consume_with_outcome_def [of t c reg, unfolded Some option.case if_not_P [OF False]]
      show ?thesis
      proof (cases "preview_read_now t")
        case None
        with assms(1) body show ?thesis by (intro kept) auto
      next
        case now: (Some now)
        let ?p = "purge_previews now reg"
        show ?thesis
        proof (cases "map_of (previews ?p) (cp_handle c)")
          case None
          with assms(1) body now show ?thesis by (intro purged [OF now]) auto
        next
          case r: (Some r)
          show ?thesis
          proof (cases "preview_matches c s r \<and> \<not> pv_consumed r")
            case True
            with assms(1) body now r have "res = Inr (Consumed (pv_binding r))"
              "reg' = trim_consumed (cp_session c)
                 (?p\<lparr>previews := AList.update (cp_handle c) (r\<lparr>pv_consumed := True\<rparr>) (previews ?p)\<rparr>)"
              by (auto simp: Let_def)
            moreover note update_marks [OF psync r]
            moreover have "r \<in> set (preview_records ?p)" "pv_handle r = cp_handle c"
              using r psync by (simp_all add: preview_lookup)
            ultimately show ?thesis using True now Some False by (intro consumed) auto
          next
            case False
            with assms(1) body now r show ?thesis
              by (intro purged [OF now]) (auto simp: Let_def split: if_split_asm)
          qed
        qed
      qed
    qed
  qed
qed

section \<open>What a history guarantees\<close>

declare preview_read_now.simps [simp del]

definition issues_handle :: "jstr \<Rightarrow> preview_call \<times> preview_answer \<Rightarrow> bool" where
  "issues_handle h = (\<lambda>(c, a). case a of PIssued (Inr (h', e)) \<Rightarrow> h' = h | _ \<Rightarrow> False)"

definition consumes_handle :: "jstr \<Rightarrow> preview_call \<times> preview_answer \<Rightarrow> bool" where
  "consumes_handle h = (\<lambda>(c, a). case c of
     PConsume t ci \<Rightarrow> (case a of POutcome (Inr (Consumed b)) \<Rightarrow> cp_handle ci = h | _ \<Rightarrow> False)
   | _ \<Rightarrow> False)"

definition preview_granted :: "(preview_call \<times> preview_answer) list \<Rightarrow> preview_rec \<Rightarrow> bool" where
  "preview_granted log r \<longleftrightarrow> (\<exists>l1 t i l2 now s.
     log = l1 @ (PIssue t i, PIssued (Inr (pv_handle r, pv_expires r))) # l2
     \<and> preview_read_now t = Some now \<and> normalize_scope (ip_scope i) = Some s \<and> preview_input_ok now i
     \<and> r\<lparr>pv_consumed := False\<rparr> = preview_record now i s (pv_handle r)
     \<and> (pv_consumed r \<or> \<not> list_ex (consumes_handle (pv_handle r)) l2)
     \<and> PRevoke (pv_session r) \<notin> fst ` set l2 \<and> PClear \<notin> fst ` set l2)"

definition live_count :: "jstr \<Rightarrow> preview_registry \<Rightarrow> nat" where
  "live_count h reg = (if \<exists>r \<in> set (preview_records reg). pv_handle r = h \<and> \<not> pv_consumed r then 1 else 0)"

definition preview_served :: "(preview_call \<times> preview_answer) list \<Rightarrow> preview_registry \<Rightarrow> bool" where
  "preview_served log reg \<longleftrightarrow> preview_inv reg
     \<and> (\<forall>r \<in> set (preview_records reg). preview_granted log r)
     \<and> (\<forall>h. length (filter (consumes_handle h) log) + live_count h reg \<le> length (filter (issues_handle h) log))"

lemma preview_granted_snoc:
  "preview_granted log r \<Longrightarrow> c \<noteq> PRevoke (pv_session r) \<Longrightarrow> c \<noteq> PClear \<Longrightarrow>
    pv_consumed r \<or> \<not> consumes_handle (pv_handle r) (c, a) \<Longrightarrow> preview_granted (log @ [(c, a)]) r"
  unfolding preview_granted_def
  by (elim exE conjE) (rule exI, rule exI, rule exI, rule exI, rule exI, rule exI, auto)

lemma preview_granted_mark:
  "preview_granted log r \<Longrightarrow> preview_granted log (r\<lparr>pv_consumed := True\<rparr>)"
  unfolding preview_granted_def by (simp, blast)

text \<open>A step that only drops records.\<close>

lemma preview_served_shrink:
  assumes "preview_served log reg" and "preview_inv reg'"
    and "set (preview_records reg') \<subseteq> set (preview_records reg)"
    and "c \<noteq> PClear" and "\<And>r. r \<in> set (preview_records reg') \<Longrightarrow> c \<noteq> PRevoke (pv_session r)"
    and "\<And>h. \<not> consumes_handle h (c, a)"
  shows "preview_served (log @ [(c, a)]) reg'"
proof -
  have "length (filter (consumes_handle h) (log @ [(c, a)])) + live_count h reg'
      \<le> length (filter (issues_handle h) (log @ [(c, a)]))" for h
  proof -
    have "live_count h reg' \<le> live_count h reg" using assms(3) by (auto simp: live_count_def)
    moreover have "length (filter (consumes_handle h) log) + live_count h reg \<le> length (filter (issues_handle h) log)"
      using assms(1) by (simp add: preview_served_def)
    ultimately show ?thesis using assms(6) [of h] by simp
  qed
  then show ?thesis
    using assms preview_granted_snoc unfolding preview_served_def by (meson subsetD)
qed

lemma purge_records: "set (preview_records (purge_previews now reg)) \<subseteq> set (preview_records reg)"
  by (auto simp: preview_records_def purge_previews_def previews_without_def)

lemma purge_alive: "r \<in> set (preview_records (purge_previews now reg)) \<Longrightarrow> now < pv_expires r"
  by (auto simp: preview_records_def purge_previews_def previews_without_def)

lemma issue_preview_served:
  assumes "issue_preview rnd t i reg = Some (reg', res)" and "preview_served log reg" and "random_source rnd"
  shows "preview_served (log @ [(PIssue t i, PIssued res)]) reg'"
proof -
  have inv: "preview_inv reg" using assms(2) by (simp add: preview_served_def)
  have quiet: "\<not> consumes_handle h (PIssue t i, PIssued res)" for h by (simp add: consumes_handle_def)
  consider (same) "reg' = reg"
    | (store) now s where "preview_read_now t = Some now" "normalize_scope (ip_scope i) = Some s"
      "preview_input_ok now i" "store_preview rnd now i s (purge_previews now reg) = Some (reg', res)"
    using assms(1) by (auto simp: issue_preview_def split: option.splits if_split_asm)
  then show ?thesis
  proof cases
    case same
    with assms(2) inv quiet show ?thesis by (intro preview_served_shrink [OF assms(2)]) auto
  next
    case store
    let ?p = "purge_previews now reg"
    have pinv: "preview_inv ?p" using inv by (rule preview_inv_purge)
    have pserved: "preview_served (log @ [(PIssue t i, PIssued res)]) ?p"
      using pinv quiet purge_records by (intro preview_served_shrink [OF assms(2)]) auto
    from store(4) assms(3) show ?thesis
    proof (cases rule: store_preview_cases)
      case refused
      with pserved show ?thesis by simp
    next
      case (stored h)
      let ?r = "preview_record now i s h"
      have r: "pv_handle ?r = h" "pv_session ?r = ip_session i" "\<not> pv_consumed ?r"
        by (simp_all add: preview_record_def)
      have inv': "preview_inv reg'"
        using stored pinv r by (intro preview_inv_stored [of ?p h reg' ?r]) auto
      have rs: "preview_records reg' = preview_records ?p @ [?r]" by (simp add: preview_records_def stored(4))
      have "preview_granted (log @ [(PIssue t i, PIssued res)]) ?r"
        unfolding preview_granted_def using store(1-3) stored(1) r
        by (intro exI [of _ log] exI [of _ t] exI [of _ i] exI [of _ "[]"] exI [of _ now] exI [of _ s])
          (simp add: preview_record_def)
      moreover have "length (filter (consumes_handle k) (log @ [(PIssue t i, PIssued res)])) + live_count k reg'
          \<le> length (filter (issues_handle k) (log @ [(PIssue t i, PIssued res)]))" for k
      proof -
        have b: "length (filter (consumes_handle k) log) + live_count k ?p \<le> length (filter (issues_handle k) log)"
        proof -
          have "live_count k ?p \<le> live_count k reg" using purge_records by (auto simp: live_count_def)
          moreover have "length (filter (consumes_handle k) log) + live_count k reg \<le> length (filter (issues_handle k) log)"
            using assms(2) by (simp add: preview_served_def)
          ultimately show ?thesis by linarith
        qed
        have "live_count k reg' \<le> (if k = h then 1 else live_count k ?p)"
          using r by (auto simp: live_count_def rs)
        with b quiet [of k] stored(1) show ?thesis by (auto simp: issues_handle_def)
      qed
      ultimately show ?thesis using inv' pserved by (auto simp: preview_served_def rs)
    qed
  qed
qed

lemma consume_served:
  assumes "consume_with_outcome t c reg = (reg', res)" and "preview_served log reg"
  shows "preview_served (log @ [(PConsume t c, POutcome res)]) reg'"
proof -
  have inv: "preview_inv reg" and sync: "preview_sync reg"
    using assms(2) by (simp_all add: preview_served_def preview_inv_def)
  have quiet: "\<not> consumes_handle h (PConsume t c, POutcome res)" if "\<And>b. res \<noteq> Inr (Consumed b)" for h
    using that by (auto simp: consumes_handle_def split: sum.splits consume_result.splits)
  from assms(1) sync show ?thesis
  proof (cases rule: consume_cases)
    case kept
    with inv quiet show ?thesis by (intro preview_served_shrink [OF assms(2)]) auto
  next
    case (purged now)
    with inv quiet purge_records show ?thesis
      by (intro preview_served_shrink [OF assms(2)]) (auto simp: preview_inv_purge)
  next
    case (consumed now s r)
    let ?p = "purge_previews now reg" and ?h = "cp_handle c"
    let ?entry = "(PConsume t c, POutcome res)"
    have pinv: "preview_inv ?p" using inv by (rule preview_inv_purge)
    then have psync: "preview_sync ?p" by (simp add: preview_inv_def)
    have sid: "pv_session r = cp_session c" using consumed(8) by (simp add: preview_matches_def)
    have inv': "preview_inv reg'"
      unfolding consumed(9) using consumed(5,6) sid pinv by (intro preview_inv_consume) auto
    have hit: "consumes_handle k ?entry \<longleftrightarrow> k = ?h" for k using consumed(4) by (auto simp: consumes_handle_def)
    have calls: "\<not> issues_handle k ?entry" for k by (simp add: issues_handle_def)
    from preview_sync_mark [OF psync] obtain old
      where "previews reg' = filter (\<lambda>(h, r). pv_handle r \<notin> set old) (previews (mark_consumed ?h ?p))"
      unfolding consumed(9) by (rule trim_consumed_filter)
    then have rs: "preview_records reg' = filter (\<lambda>r. pv_handle r \<notin> set old)
        (map (\<lambda>r. if pv_handle r = ?h then r\<lparr>pv_consumed := True\<rparr> else r) (preview_records ?p))"
      by (simp add: preview_records_filter preview_records_mark [OF psync])
    have granted: "preview_granted (log @ [?entry]) q" if "q \<in> set (preview_records reg')" for q
    proof -
      from that obtain q0 where q0: "q0 \<in> set (preview_records reg)"
        and q: "q = (if pv_handle q0 = ?h then q0\<lparr>pv_consumed := True\<rparr> else q0)"
        unfolding rs set_filter set_map by (smt (verit) imageE mem_Collect_eq purge_records subsetD)
      have g: "preview_granted log q0" using assms(2) q0 by (simp add: preview_served_def)
      show ?thesis
      proof (cases "pv_handle q0 = ?h")
        case True
        with q preview_granted_mark [OF g] show ?thesis by (intro preview_granted_snoc) simp_all
      next
        case False
        with q g hit show ?thesis by (intro preview_granted_snoc) auto
      qed
    qed
    have "length (filter (consumes_handle k) (log @ [?entry])) + live_count k reg'
        \<le> length (filter (issues_handle k) (log @ [?entry]))" for k
    proof -
      have old: "length (filter (consumes_handle k) log) + live_count k reg \<le> length (filter (issues_handle k) log)"
        using assms(2) by (simp add: preview_served_def)
      show ?thesis
      proof (cases "k = ?h")
        case True
        have "live_count ?h reg' = 0" by (auto simp: live_count_def rs)
        moreover have "live_count ?h reg = 1"
          using consumed(5-7) purge_records by (auto simp: live_count_def)
        ultimately show ?thesis using True old hit calls by simp
      next
        case False
        have "live_count k reg' \<le> live_count k reg"
          using False purge_records by (fastforce simp: live_count_def rs)
        with False old hit calls show ?thesis by simp
      qed
    qed
    with inv' granted show ?thesis by (simp add: preview_served_def)
  qed
qed

lemma preview_exec_served:
  assumes "preview_exec rnd c reg = Some (reg', a)" and "preview_served log reg" and "random_source rnd"
  shows "preview_served (log @ [(c, a)]) reg'"
proof (cases c)
  case (PIssue t i)
  with assms issue_preview_served show ?thesis by auto
next
  case (PConsume t ci)
  with assms consume_served show ?thesis by (cases "consume_with_outcome t ci reg") auto
next
  case (PRevoke sid)
  then have r: "reg' = revoke_previews sid reg" "a = PDone" using assms(1) by auto
  have inv: "preview_inv reg" using assms(2) by (simp add: preview_served_def)
  have pat: "session_id_pattern (pv_session r)" if "r \<in> set (preview_records reg)" for r
  proof -
    from that assms(2) have "preview_granted log r" by (simp add: preview_served_def)
    then obtain i now s where "preview_input_ok now i" "r\<lparr>pv_consumed := False\<rparr> = preview_record now i s (pv_handle r)"
      unfolding preview_granted_def by blast
    then have "session_id_pattern (ip_session i)" "pv_session (r\<lparr>pv_consumed := False\<rparr>) = ip_session i"
      by (simp_all add: preview_input_ok_def preview_record_def)
    then show ?thesis by simp
  qed
  have "set (preview_records reg') \<subseteq> set (preview_records reg)"
    "\<And>q. q \<in> set (preview_records reg') \<Longrightarrow> pv_session q \<noteq> sid"
    using pat by (auto simp: r revoke_previews_def preview_records_def previews_without_def split: if_splits)
  with inv r PRevoke show ?thesis
    by (intro preview_served_shrink [OF assms(2)]) (auto simp: preview_inv_revoke consumes_handle_def)
next
  case PClear
  with assms(1) have r: "reg' = clear_previews reg" "a = PDone" by auto
  then have "preview_records reg' = []" by (simp add: preview_records_def clear_previews_def)
  moreover have "length (filter (consumes_handle h) log) \<le> length (filter (issues_handle h) log)" for h
    using assms(2) unfolding preview_served_def by (meson add_leD1)
  ultimately show ?thesis
    using r PClear preview_inv_clear
    by (simp add: preview_served_def live_count_def consumes_handle_def issues_handle_def)
qed

lemma preview_history_served:
  "preview_history rnd log reg \<Longrightarrow> random_source rnd \<Longrightarrow> preview_served log reg"
proof (induction rule: preview_history.induct)
  case start
  then show ?case using preview_inv_empty by (simp add: preview_served_def empty_previews_def preview_records_def live_count_def)
next
  case serve
  then show ?case using preview_exec_served by blast
qed

section \<open>The store contract\<close>

definition preview_owner :: "preview_registry \<Rightarrow> jstr \<Rightarrow> jstr option" where
  "preview_owner reg h = map_option pv_session (map_of (previews reg) h)"

definition preview_deadline :: "preview_registry \<Rightarrow> jstr \<Rightarrow> int option" where
  "preview_deadline reg h = map_option pv_expires (map_of (previews reg) h)"

lemma lookup_without:
  assumes "preview_sync reg"
  shows "map_of (previews (previews_without P reg)) h
    = (case map_of (previews reg) h of Some r \<Rightarrow> if P r then None else Some r | None \<Rightarrow> None)"
proof -
  have "map_of (filter (\<lambda>(h, r). \<not> P r) xs) h
      = (case map_of xs h of Some r \<Rightarrow> if P r then None else Some r | None \<Rightarrow> None)"
    if "distinct (map fst xs)" for xs :: "(jstr \<times> preview_rec) list"
    using that by (induction xs) (auto simp: map_of_eq_None_iff split: option.splits dest: map_of_SomeD)
  with assms show ?thesis by (simp add: previews_without_def preview_sync_def)
qed

lemma preview_sync_without: "preview_sync reg \<Longrightarrow> preview_sync (previews_without P reg)"
  by (auto simp: preview_sync_def previews_without_def distinct_map_filter)

interpretation ps: session_store preview_sync preview_owner preview_deadline purge_previews revoke_previews
  by unfold_locales
    (auto simp: preview_owner_def preview_deadline_def revoke_previews_def purge_previews_def
      preview_sync_without lookup_without split: option.splits)

section \<open>Properties\<close>

text \<open>
  C7. A preview is applied at most once: in any history of the registry, a handle was
  consumed no more often than it was issued.
\<close>

theorem preview_consumed_once:
  assumes "preview_history rnd log reg" and "random_source rnd"
  shows "length (filter (consumes_handle h) log) \<le> length (filter (issues_handle h) log)"
  using preview_history_served [OF assms] unfolding preview_served_def by (meson add_leD1)

text \<open>
  What \<open>consumeWithOutcome\<close> hands out is exactly what was previewed: the binding is the one
  of an earlier accepted issue that returned this handle to this session, for this action,
  resource and scope, less than five minutes ago; since then neither the session was revoked
  nor the registry cleared nor this handle consumed.
\<close>

theorem preview_consume_sound:
  assumes "preview_history rnd log reg" and "random_source rnd"
    and "consume_with_outcome t c reg = (reg', Inr (Consumed b))"
  shows "\<exists>now ex l1 t0 i l2 now0 s s0. preview_read_now t = Some now \<and> preview_read_now t0 = Some now0
    \<and> now < ex \<and> ex \<le> now0 + 300000 \<and> ex \<le> int_value (ip_expires i)
    \<and> log = l1 @ (PIssue t0 i, PIssued (Inr (cp_handle c, ex))) # l2
    \<and> ip_session i = cp_session c \<and> ip_action i = cp_action c \<and> ip_kind i = cp_kind c
    \<and> ip_resource_id i = cp_resource_id c
    \<and> normalize_scope (ip_scope i) = Some s0 \<and> normalize_scope (cp_scope c) = Some s
    \<and> json_scope s0 = json_scope s
    \<and> b = \<lparr>pb_resource_id = ip_resource_id i, pb_expected_state = ip_state i,
        pb_expected_revision = int_value (ip_revision i), pb_digest = ip_digest i,
        pb_expected_at = map_option int_value (ip_expected_at i)\<rparr>
    \<and> \<not> list_ex (consumes_handle (cp_handle c)) l2
    \<and> PRevoke (cp_session c) \<notin> fst ` set l2 \<and> PClear \<notin> fst ` set l2"
proof -
  have ok: "preview_served log reg" by (rule preview_history_served [OF assms(1,2)])
  then have sync: "preview_sync reg" by (simp add: preview_served_def preview_inv_def)
  from assms(3) sync obtain now s r where n: "preview_read_now t = Some now" "normalize_scope (cp_scope c) = Some s"
    and r: "b = pv_binding r" "r \<in> set (preview_records (purge_previews now reg))"
      "pv_handle r = cp_handle c" "\<not> pv_consumed r" "preview_matches c s r"
    by (rule consume_cases) auto
  have "preview_granted log r" using ok r(2) purge_records unfolding preview_served_def by blast
  then obtain l1 t0 i l2 now0 s0 where
    g: "log = l1 @ (PIssue t0 i, PIssued (Inr (pv_handle r, pv_expires r))) # l2"
    "preview_read_now t0 = Some now0" "normalize_scope (ip_scope i) = Some s0"
    "r\<lparr>pv_consumed := False\<rparr> = preview_record now0 i s0 (pv_handle r)"
    "\<not> list_ex (consumes_handle (pv_handle r)) l2"
    "PRevoke (pv_session r) \<notin> fst ` set l2" "PClear \<notin> fst ` set l2"
    using r(4) unfolding preview_granted_def by blast
  have "r\<lparr>pv_consumed := False\<rparr> = r" using r(4) by simp
  with g(4) have rr: "r = preview_record now0 i s0 (cp_handle c)" using r(3) by simp
  then have f: "pv_session r = ip_session i" "pv_action r = ip_action i" "pv_kind r = ip_kind i"
    "pv_scope_key r = json_scope s0" "pv_expires r = min (int_value (ip_expires i)) (now0 + max_preview_ttl_ms)"
    "pv_binding r = \<lparr>pb_resource_id = ip_resource_id i, pb_expected_state = ip_state i,
        pb_expected_revision = int_value (ip_revision i), pb_digest = ip_digest i,
        pb_expected_at = map_option int_value (ip_expected_at i)\<rparr>"
    by (simp_all add: preview_record_def)
  have "now < pv_expires r" by (rule purge_alive [OF r(2)])
  moreover have "pv_expires r \<le> now0 + 300000" "pv_expires r \<le> int_value (ip_expires i)"
    using f(5) by (simp_all add: max_preview_ttl_ms_def)
  moreover have "log = l1 @ (PIssue t0 i, PIssued (Inr (cp_handle c, pv_expires r))) # l2"
    using g(1) r(3) by simp
  moreover have "ip_session i = cp_session c" "ip_action i = cp_action c" "ip_kind i = cp_kind c"
    "ip_resource_id i = cp_resource_id c" "json_scope s0 = json_scope s"
    using r(5) f unfolding preview_matches_def by simp_all
  moreover have "\<not> list_ex (consumes_handle (cp_handle c)) l2" "PRevoke (cp_session c) \<notin> fst ` set l2"
    using g(5,6) r(3,5) unfolding preview_matches_def by simp_all
  moreover note n g(2,3,7) f(6) [folded r(1)]
  ultimately show ?thesis by (intro exI conjI) assumption+
qed

text \<open>
  Whatever calls it has served, the registry has at most eight sessions with unconsumed
  previews, and at most 64 unconsumed and 64 consumed previews of any one session.
\<close>

theorem preview_bounds:
  assumes "preview_history rnd log reg" and "random_source rnd"
  shows "card (active_sessions (preview_records reg)) \<le> 8
    \<and> length (active_of sid (preview_records reg)) \<le> 64
    \<and> length (consumed_of sid (preview_records reg)) \<le> 64"
  using preview_history_served [OF assms]
  by (simp add: preview_served_def preview_inv_def preview_bounded_def max_active_sessions_def
      max_previews_per_session_def max_consumed_previews_per_session_def)

lemma no_live_no_consume:
  assumes "live_count (cp_handle c) reg = 0" and "preview_sync reg"
  shows "snd (consume_with_outcome t c reg) \<noteq> Inr (Consumed b)"
proof
  assume "snd (consume_with_outcome t c reg) = Inr (Consumed b)"
  then obtain reg' where "consume_with_outcome t c reg = (reg', Inr (Consumed b))" by (metis prod.collapse)
  from this assms(2) show False
  proof (cases rule: consume_cases)
    case (consumed now s r)
    then have "r \<in> set (preview_records reg)" using purge_records by blast
    with consumed assms(1) show False by (auto simp: live_count_def split: if_splits)
  qed auto
qed

lemma consumed_not_live:
  assumes "consume_with_outcome t c reg = (reg', Inr (Consumed b))" and "preview_sync reg"
  shows "live_count (cp_handle c) reg' = 0 \<and> preview_sync reg'"
  using assms
proof (cases rule: consume_cases)
  case (consumed now s r)
  let ?p = "purge_previews now reg"
  have psync: "preview_sync ?p" using assms(2) by (simp add: purge_previews_def preview_sync_without)
  from preview_sync_mark [OF psync] obtain old
    where tr: "previews reg' = filter (\<lambda>(h, r). pv_handle r \<notin> set old) (previews (mark_consumed (cp_handle c) ?p))"
    unfolding consumed(9) by (rule trim_consumed_filter)
  have "preview_records reg' = filter (\<lambda>r. pv_handle r \<notin> set old)
      (preview_records (mark_consumed (cp_handle c) ?p))"
    by (rule preview_records_filter [OF tr])
  then have "live_count (cp_handle c) reg' = 0"
    by (auto simp: live_count_def preview_records_mark [OF psync])
  moreover have "preview_sync reg'"
    using preview_sync_mark [OF psync] tr by (auto simp: preview_sync_def distinct_map_filter)
  ultimately show ?thesis by simp
qed auto

text \<open>
  A preview that was just issued can be confirmed exactly once: consuming it with the same
  session, actor, action, resource and scope before the returned expiry gives back its
  binding, and consuming it again, whenever, never does.
\<close>

theorem preview_issue_consume:
  assumes "preview_history rnd log reg" and "random_source rnd"
    and "issue_preview rnd t i reg = Some (reg1, Inr (h, ex))"
    and "preview_read_now t' = Some now'" and "now' < ex"
    and "c = \<lparr>cp_session = ip_session i, cp_handle = h, cp_actor = ip_actor i, cp_action = ip_action i,
      cp_kind = ip_kind i, cp_resource_id = ip_resource_id i, cp_scope = ip_scope i\<rparr>"
  shows "\<exists>reg2. consume_with_outcome t' c reg1 = (reg2, Inr (Consumed
      \<lparr>pb_resource_id = ip_resource_id i, pb_expected_state = ip_state i,
       pb_expected_revision = int_value (ip_revision i), pb_digest = ip_digest i,
       pb_expected_at = map_option int_value (ip_expected_at i)\<rparr>))
    \<and> (\<forall>t'' b. snd (consume_with_outcome t'' c reg2) \<noteq> Inr (Consumed b))"
proof -
  have ok: "preview_served log reg" by (rule preview_history_served [OF assms(1,2)])
  then have ok1: "preview_served (log @ [(PIssue t i, PIssued (Inr (h, ex)))]) reg1"
    using issue_preview_served [OF assms(3) _ assms(2)] by blast
  then have sync1: "preview_sync reg1" by (simp add: preview_served_def preview_inv_def)
  from assms(3) obtain now s where n: "preview_read_now t = Some now" "normalize_scope (ip_scope i) = Some s"
    "preview_input_ok now i" and st: "store_preview rnd now i s (purge_previews now reg) = Some (reg1, Inr (h, ex))"
    by (auto simp: issue_preview_def split: option.splits if_split_asm)
  let ?r = "preview_record now i s h"
  from st assms(2) have r: "?r \<in> set (preview_records reg1)" "pv_expires ?r = ex" "opaque_handle_pattern h"
    by (cases rule: store_preview_cases; simp add: preview_records_def)+
  have look: "map_of (previews (purge_previews now' reg1)) h = Some ?r"
  proof -
    have "map_of (previews reg1) h = Some ?r"
      using r sync1 by (simp add: preview_lookup) (simp add: preview_record_def)
    with r assms(5) show ?thesis
      by (simp add: purge_previews_def lookup_without [OF sync1] del: of_int_le_iff)
  qed
  have actor: "get_field (ip_actor i) (lit ''kind'') = JStr local_admin" "is_local_admin_actor (ip_actor i)"
    using n(3) by (auto simp: preview_input_ok_def is_local_admin_actor_def)
  have "preview_matches c s ?r" "\<not> pv_consumed ?r"
    by (simp_all add: preview_matches_def assms(6) preview_record_def actor)
  moreover have "pv_binding ?r = \<lparr>pb_resource_id = ip_resource_id i, pb_expected_state = ip_state i,
       pb_expected_revision = int_value (ip_revision i), pb_digest = ip_digest i,
       pb_expected_at = map_option int_value (ip_expected_at i)\<rparr>" by (simp add: preview_record_def)
  ultimately obtain reg2 where c: "consume_with_outcome t' c reg1 = (reg2, Inr (Consumed
      \<lparr>pb_resource_id = ip_resource_id i, pb_expected_state = ip_state i,
       pb_expected_revision = int_value (ip_revision i), pb_digest = ip_digest i,
       pb_expected_at = map_option int_value (ip_expected_at i)\<rparr>))"
    using n look r(3) actor assms(4)
    by (simp add: consume_with_outcome_def assms(6) Let_def preview_input_ok_def del: is_bounded_string.simps)
  have "snd (consume_with_outcome t'' c reg2) \<noteq> Inr (Consumed b)" for t'' b
    using consumed_not_live [OF c sync1] no_live_no_consume by blast
  with c show ?thesis by blast
qed

section \<open>Concrete instances\<close>

definition pre_rnd :: "nat \<Rightarrow> nat list" where
  "pre_rnd n = [n mod 256, 0, 0, 0, 0, 0, 0, 0, 0, 0, 0, 0, 0, 0, 0, 0, 0, 0, 0, 0, 0, 0, 0, 0, 0, 0, 0, 0, 0, 0, 0, 0]"

definition pre_issue :: issue_preview_input where
  "pre_issue = \<lparr>ip_session = replicate 64 97, ip_expires = JInt 1000,
     ip_actor = JObj [(lit ''kind'', JStr local_admin)], ip_action = [100], ip_kind = [109],
     ip_resource_id = [49], ip_scope = JObj [(lit ''kind'', JStr (lit ''system''))], ip_state = [97],
     ip_revision = JInt 3, ip_digest = replicate 64 48, ip_expected_at = None\<rparr>"

definition pre_handle :: jstr where
  "pre_handle = random_opaque_value pre_rnd 0"

definition pre_registry :: preview_registry where
  "pre_registry = \<lparr>previews = [(pre_handle, preview_record 10 pre_issue ScopeSystem pre_handle)], pv_draws = 1\<rparr>"

definition pre_query :: consume_preview_input where
  "pre_query = \<lparr>cp_session = ip_session pre_issue, cp_handle = pre_handle, cp_actor = ip_actor pre_issue,
     cp_action = ip_action pre_issue, cp_kind = ip_kind pre_issue,
     cp_resource_id = ip_resource_id pre_issue, cp_scope = ip_scope pre_issue\<rparr>"

lemma pre_rnd_source: "random_source pre_rnd"
  by (simp add: random_source_def pre_rnd_def)

lemma pre_scope: "normalize_scope (ip_scope pre_issue) = Some ScopeSystem"
  by (simp add: pre_issue_def normalize_scope_def has_exact_keys_def Let_def)

lemma pre_input_ok: "preview_input_ok 10 pre_issue"
  by (simp add: preview_input_ok_def pre_issue_def session_id_pattern_def list_all_iff hex_digit_def
      is_local_admin_actor_def has_exact_keys_def Let_def max_action_length_def max_preview_kind_length_def
      max_preview_id_length_def max_expected_state_length_def js_trim_def js_space_def max_safe_def
      max_session_ttl_ms_def)

lemma pre_expiry: "pv_expires (preview_record 10 pre_issue ScopeSystem h) = 1000"
  by (simp add: preview_record_def pre_issue_def max_preview_ttl_ms_def)

lemma pre_clock: "preview_read_now (JInt 10) = Some 10" "preview_read_now (JInt 20) = Some 20"
  by (simp_all add: preview_read_now.simps max_safe_def max_session_ttl_ms_def)

lemma pre_issue_eq:
  "issue_preview pre_rnd (JInt 10) pre_issue empty_previews = Some (pre_registry, Inr (pre_handle, 1000))"
  using pre_scope pre_input_ok pre_expiry pre_clock
  by (simp add: issue_preview_def store_preview_def Let_def purge_previews_def previews_without_def
      empty_previews_def preview_records_def max_active_sessions_def max_previews_per_session_def
      fresh_handle.simps pre_registry_def pre_handle_def)

lemma pre_history_nil: "preview_history pre_rnd [] empty_previews"
  by (rule preview_history.start)

lemma pre_history:
  "preview_history pre_rnd [(PIssue (JInt 10) pre_issue, PIssued (Inr (pre_handle, 1000)))] pre_registry"
proof -
  have "preview_exec pre_rnd (PIssue (JInt 10) pre_issue) empty_previews
      = Some (pre_registry, PIssued (Inr (pre_handle, 1000)))"
    by (simp add: pre_issue_eq)
  from preview_history.serve [OF preview_history.start this] show ?thesis by simp
qed

lemma pre_consume: "\<exists>reg'. consume_with_outcome (JInt 20) pre_query pre_registry
    = (reg', Inr (Consumed (pv_binding (preview_record 10 pre_issue ScopeSystem pre_handle))))"
proof -
  have "purge_previews 20 pre_registry = pre_registry"
    by (simp add: purge_previews_def previews_without_def pre_registry_def pre_expiry)
  moreover have "opaque_handle_pattern pre_handle"
    unfolding pre_handle_def by (rule random_opaque_value_pattern [OF pre_rnd_source])
  moreover have "preview_matches pre_query ScopeSystem (preview_record 10 pre_issue ScopeSystem pre_handle)"
    by (simp add: preview_matches_def pre_query_def preview_record_def pre_issue_def)
  moreover have "is_local_admin_actor (ip_actor pre_issue)" "session_id_pattern (ip_session pre_issue)"
    "is_bounded_string (JStr (ip_action pre_issue)) max_action_length"
    "is_bounded_string (JStr (ip_kind pre_issue)) max_preview_kind_length"
    "is_bounded_string (JStr (ip_resource_id pre_issue)) max_preview_id_length"
    using pre_input_ok by (simp_all only: preview_input_ok_def)
  ultimately show ?thesis
    using pre_scope pre_clock
    by (simp add: consume_with_outcome_def pre_query_def Let_def pre_registry_def del: is_bounded_string.simps)
      (simp add: preview_record_def)
qed

theorem preview_consumed_once_witness:
  "length (filter (consumes_handle pre_handle) [(PIssue (JInt 10) pre_issue, PIssued (Inr (pre_handle, 1000)))])
    \<le> length (filter (issues_handle pre_handle) [(PIssue (JInt 10) pre_issue, PIssued (Inr (pre_handle, 1000)))])"
  by (rule preview_consumed_once [OF pre_history pre_rnd_source])

theorem preview_consume_sound_witness:
  "\<exists>now ex. preview_read_now (JInt 20) = Some now \<and> now < ex"
proof -
  from pre_consume obtain reg' b where "consume_with_outcome (JInt 20) pre_query pre_registry
    = (reg', Inr (Consumed b))" by blast
  from preview_consume_sound [OF pre_history pre_rnd_source this] show ?thesis by blast
qed

theorem preview_bounds_witness: "card (active_sessions (preview_records pre_registry)) \<le> 8"
  using preview_bounds [OF pre_history pre_rnd_source] by blast

theorem preview_issue_consume_witness:
  "\<exists>reg2 b. consume_with_outcome (JInt 20) pre_query pre_registry = (reg2, Inr (Consumed b))"
  using preview_issue_consume [OF pre_history_nil pre_rnd_source pre_issue_eq pre_clock(2) _ pre_query_def]
  by auto

end
