(* ===== verification/Attention_Engine.thy ===== *)
theory Attention_Engine
  imports Lethe_Prelude
begin

text \<open>
  The attention engine of \<open>src/attention/engine.ts\<close>: which messages trigger the bot, which are
  kept silent, and the execution path a message takes.  Weights are in tenths; the source adds
  them as floating-point numbers, whose rounding error (below one part in a trillion) never
  meets a threshold, because every sum that is compared is at least a tenth away from it or a
  single weight.  The last section proves the engine equal to a decision table.
\<close>

datatype conversation_type = ConvPrivate | ConvGroup

datatype classification = Silent | Defer | NeedsResponse | NeedsEvaluation

datatype attention_path = SilentFastPath | DelayedRecheck | ReplyFastPath | RiskPath

record trigger_signal =
  tr_type :: jstr
  tr_weight :: nat

record suppressor_signal =
  su_type :: jstr

record attention_event =
  ev_conversation :: conversation_type
  ev_mentions :: bool
  ev_text :: jstr
  ev_role :: "jstr option"
  ev_reply :: bool

record attention_signals =
  sig_class :: classification
  sig_score :: nat
  sig_triggers :: "jstr list"
  sig_suppressors :: "jstr list"
  sig_path :: attention_path

definition question_mark :: nat where
  "question_mark = 63"

definition fullwidth_question_mark :: nat where
  "fullwidth_question_mark = 65311"

definition question_particle :: nat where
  "question_particle = 21527"

definition has_question_signal :: "jstr \<Rightarrow> bool" where
  "has_question_signal text \<longleftrightarrow> js_includes text [fullwidth_question_mark]
     \<or> js_includes text [question_mark] \<or> js_includes text [question_particle]"

text \<open>\<open>/^\/(?:memory|why)(?=$|\s)/\<close>\<close>

definition command_word :: "jstr \<Rightarrow> jstr \<Rightarrow> bool" where
  "command_word w text \<longleftrightarrow> take (length w) text = w
     \<and> (case drop (length w) text of [] \<Rightarrow> True | c # _ \<Rightarrow> js_space c)"

definition governance_command :: "jstr \<Rightarrow> bool" where
  "governance_command text \<longleftrightarrow> command_word (lit ''/memory'') text \<or> command_word (lit ''/why'') text"

definition command_authority :: "attention_event \<Rightarrow> bool" where
  "command_authority ev \<longleftrightarrow> ev_conversation ev = ConvPrivate
     \<or> ev_role ev = Some (lit ''owner'') \<or> ev_role ev = Some (lit ''admin'')"

definition when_signal :: "bool \<Rightarrow> 'a \<Rightarrow> 'a list" where
  "when_signal b x = (if b then [x] else [])"

definition engine_triggers :: "attention_event \<Rightarrow> trigger_signal list" where
  "engine_triggers ev =
     when_signal (ev_mentions ev) \<lparr>tr_type = lit ''@bot'', tr_weight = 8\<rparr>
     @ when_signal (ev_reply ev) \<lparr>tr_type = lit ''reply_to_bot'', tr_weight = 7\<rparr>
     @ when_signal (command_authority ev \<and> governance_command (ev_text ev))
         \<lparr>tr_type = lit ''command'', tr_weight = 9\<rparr>
     @ when_signal (ev_conversation ev = ConvPrivate) \<lparr>tr_type = lit ''private_message'', tr_weight = 6\<rparr>
     @ when_signal (has_question_signal (ev_text ev)) \<lparr>tr_type = lit ''question'', tr_weight = 3\<rparr>"

definition engine_suppressors :: "attention_event \<Rightarrow> suppressor_signal list" where
  "engine_suppressors ev =
     when_signal (ev_conversation ev = ConvGroup \<and> length (ev_text ev) < 10 \<and> \<not> ev_mentions ev
         \<and> \<not> has_question_signal (ev_text ev))
       \<lparr>su_type = lit ''high_speed_chat''\<rparr>"

definition classify :: "attention_event \<Rightarrow> trigger_signal list \<Rightarrow> suppressor_signal list
    \<Rightarrow> classification \<times> attention_path" where
  "classify ev triggers suppressors =
     (let score = sum_list (map tr_weight triggers)
      in if suppressors \<noteq> [] \<and> score < 7 then (Silent, SilentFastPath)
         else if list_ex (\<lambda>t. tr_type t = lit ''command'') triggers then (NeedsEvaluation, RiskPath)
         else if 5 \<le> score then (NeedsResponse, ReplyFastPath)
         else if ev_conversation ev = ConvGroup \<and> has_question_signal (ev_text ev)
         then (Defer, DelayedRecheck)
         else (Silent, SilentFastPath))"

definition analyze :: "attention_event \<Rightarrow> attention_signals" where
  "analyze ev =
     (let triggers = engine_triggers ev; suppressors = engine_suppressors ev;
          cp = classify ev triggers suppressors
      in \<lparr>sig_class = fst cp, sig_score = min (sum_list (map tr_weight triggers)) 10,
          sig_triggers = map tr_type triggers, sig_suppressors = map su_type suppressors,
          sig_path = snd cp\<rparr>)"

section \<open>The engine as a decision table\<close>

text \<open>
  What the weights and thresholds come to: an authorised command goes to evaluation, a private
  message, a mention or a reply to the bot is answered, an unaddressed group question is
  rechecked later, and anything else is silent.
\<close>

definition attention_table :: "attention_event \<Rightarrow> classification \<times> attention_path" where
  "attention_table ev =
     (if command_authority ev \<and> governance_command (ev_text ev) then (NeedsEvaluation, RiskPath)
      else if ev_conversation ev = ConvPrivate \<or> ev_mentions ev \<or> ev_reply ev then (NeedsResponse, ReplyFastPath)
      else if has_question_signal (ev_text ev) then (Defer, DelayedRecheck)
      else (Silent, SilentFastPath))"

text \<open>
  C11. The engine's weights and thresholds are exactly a decision table: for every message the
  class and the path are those of \<open>attention_table\<close>, the score is between 0 and 1, and a
  suppressor is reported only for a short unaddressed group message with no question.
\<close>

theorem analyze_is_decision_table:
  "(sig_class (analyze ev), sig_path (analyze ev)) = attention_table ev
    \<and> sig_score (analyze ev) \<le> 10
    \<and> (sig_suppressors (analyze ev) = []) = (\<not> (ev_conversation ev = ConvGroup \<and> length (ev_text ev) < 10
         \<and> \<not> ev_mentions ev \<and> \<not> has_question_signal (ev_text ev)))"
proof -
  have conv: "ev_conversation ev = ConvPrivate \<or> ev_conversation ev = ConvGroup"
    by (cases "ev_conversation ev") simp_all
  have "classify ev (engine_triggers ev) (engine_suppressors ev) = attention_table ev"
    using conv
    by (cases "ev_mentions ev"; cases "ev_reply ev"; cases "command_authority ev \<and> governance_command (ev_text ev)";
        cases "has_question_signal (ev_text ev)"; cases "length (ev_text ev) < 10")
      (auto simp: classify_def attention_table_def engine_triggers_def engine_suppressors_def when_signal_def Let_def)
  then show ?thesis
    by (simp add: analyze_def Let_def engine_suppressors_def when_signal_def)
qed

end
