(* ===== verification/Job_Queue.thy ===== *)
theory Job_Queue
  imports Json_Text
begin

text \<open>
  The durable job queue of \<open>src/storage/job-repository.ts\<close>: the tables \<open>jobs\<close>,
  \<open>job_attempts\<close> and \<open>worker_heartbeats\<close> as lists of rows in insertion order, and every
  operation of \<open>JobRepository\<close> as a function of the tables.  A transaction that throws leaves
  the tables as they were.  The payload column holds the JSON value its text encodes.  Clock
  readings, new identifiers (\<open>ulid\<close>) and the texts of redacted results and redacted errors are
  arguments; numbers of milliseconds are integers.  Rows that tie in \<open>ORDER BY\<close> keep their table order.
\<close>

section \<open>Tables\<close>

datatype job_status = JPending | JRunning | JCompleted | JFailed

datatype attempt_status = AttRunning | AttCompleted | AttFailed

datatype heartbeat_status = HbIdle | HbRunning | HbStopping | HbError

record job_row =
  j_id :: jstr
  j_type :: jstr
  j_payload :: jval
  j_key :: "jstr option"
  j_status :: job_status
  j_attempts :: int
  j_max :: int
  j_owner :: "jstr option"
  j_lease :: "int option"
  j_heartbeat :: "int option"
  j_created :: int
  j_updated :: int
  j_scheduled :: int
  j_started :: "int option"
  j_completed :: "int option"
  j_error :: "jstr option"
  j_result :: "jstr option"

record attempt_row =
  a_id :: jstr
  a_job :: jstr
  a_number :: int
  a_worker :: jstr
  a_status :: attempt_status
  a_started :: int
  a_completed :: "int option"
  a_heartbeat :: "int option"
  a_error :: "jstr option"
  a_result :: "jstr option"

record heartbeat_row =
  hb_worker :: jstr
  hb_type :: jstr
  hb_status :: heartbeat_status
  hb_job :: "jstr option"
  hb_at :: int
  hb_details :: "jstr option"

record job_db =
  jobs :: "job_row list"
  attempts :: "attempt_row list"
  heartbeats :: "heartbeat_row list"

definition empty_jobs :: job_db where
  "empty_jobs = \<lparr>jobs = [], attempts = [], heartbeats = []\<rparr>"

datatype job_error =
    UniqueViolation | NotNullViolation | TypesAndExcludedTypes | ClaimedJobDisappeared
  | AttemptUpdateFailed | JobUpdateFailed | AttemptDisappeared

section \<open>SQL\<close>

definition update_where :: "('r \<Rightarrow> bool) \<Rightarrow> ('r \<Rightarrow> 'r) \<Rightarrow> 'r list \<Rightarrow> 'r list" where
  "update_where P f rows = map (\<lambda>r. if P r then f r else r) rows"

definition changes :: "('r \<Rightarrow> bool) \<Rightarrow> 'r list \<Rightarrow> nat" where
  "changes P rows = length (filter P rows)"

definition coalesce :: "'a option \<Rightarrow> 'a \<Rightarrow> 'a option" where
  "coalesce x d = (case x of None \<Rightarrow> Some d | Some _ \<Rightarrow> x)"

definition due_before :: "job_row \<Rightarrow> job_row \<Rightarrow> bool" where
  "due_before a b \<longleftrightarrow> j_scheduled a < j_scheduled b
     \<or> (j_scheduled a = j_scheduled b \<and> j_created a \<le> j_created b)"

text \<open>\<open>ORDER BY scheduled_at ASC, created_at ASC LIMIT 1\<close>\<close>

fun first_due :: "job_row list \<Rightarrow> job_row option" where
  "first_due [] = None"
| "first_due (r # rs) = (case first_due rs of
     None \<Rightarrow> Some r
   | Some q \<Rightarrow> if due_before r q then Some r else Some q)"

fun insert_due :: "job_row \<Rightarrow> job_row list \<Rightarrow> job_row list" where
  "insert_due r [] = [r]"
| "insert_due r (q # qs) = (if due_before r q then r # q # qs else q # insert_due r qs)"

definition order_due :: "job_row list \<Rightarrow> job_row list" where
  "order_due rows = foldr insert_due rows []"

section \<open>Operations\<close>

record enqueue_input =
  eq_id :: "jstr option"
  eq_type :: jstr
  eq_payload :: "jval option"
  eq_key :: "jstr option"
  eq_scheduled :: "int option"
  eq_max :: "int option"
  eq_now :: "int option"

definition value_or :: "'a option \<Rightarrow> 'a \<Rightarrow> 'a" where
  "value_or x d = (case x of None \<Rightarrow> d | Some v \<Rightarrow> v)"

definition new_job :: "enqueue_input \<Rightarrow> jstr \<Rightarrow> jval \<Rightarrow> int \<Rightarrow> job_row" where
  "new_job inp i payload now =
     \<lparr>j_id = i, j_type = eq_type inp, j_payload = payload, j_key = eq_key inp, j_status = JPending,
      j_attempts = 0, j_max = value_or (eq_max inp) 3, j_owner = None, j_lease = None,
      j_heartbeat = None, j_created = now, j_updated = now,
      j_scheduled = value_or (eq_scheduled inp) now, j_started = None, j_completed = None,
      j_error = None, j_result = None\<rparr>"

definition find_by_key :: "jstr option \<Rightarrow> job_db \<Rightarrow> job_row option" where
  "find_by_key key db = (case key of
     None \<Rightarrow> None
   | Some k \<Rightarrow> if k = [] then None else find (\<lambda>j. j_key j = Some k) (jobs db))"

text \<open>\<open>fresh\<close> is the new ULID and \<open>clock\<close> the reading of \<open>Date.now\<close>, used when the input has none.\<close>

definition enqueue :: "enqueue_input \<Rightarrow> jstr \<Rightarrow> int \<Rightarrow> job_db \<Rightarrow> job_db \<times> (job_error + jstr)" where
  "enqueue inp fresh clock db =
     (case find_by_key (eq_key inp) db of
        Some j \<Rightarrow> (db, Inr (j_id j))
      | None \<Rightarrow>
          let i = value_or (eq_id inp) fresh; now = value_or (eq_now inp) clock
          in case eq_payload inp of
               None \<Rightarrow> (db, Inl NotNullViolation)
             | Some payload \<Rightarrow>
                 if i \<in> j_id ` set (jobs db)
                    \<or> (eq_key inp \<noteq> None \<and> eq_key inp \<in> j_key ` set (jobs db))
                 then (db, Inl UniqueViolation)
                 else (db\<lparr>jobs := jobs db @ [new_job inp i payload now]\<rparr>, Inr i))"

definition find_job :: "jstr \<Rightarrow> job_db \<Rightarrow> job_row option" where
  "find_job i db = find (\<lambda>j. j_id j = i) (jobs db)"

definition list_jobs :: "job_status option \<Rightarrow> jstr option \<Rightarrow> nat option \<Rightarrow> job_db \<Rightarrow> job_row list" where
  "list_jobs status type limit db =
     take (value_or limit 100)
       (order_due (filter (\<lambda>j. (status = None \<or> status = Some (j_status j))
                          \<and> (type = None \<or> type = Some [] \<or> type = Some (j_type j))) (jobs db)))"

definition worker_heartbeat_status :: "jstr \<Rightarrow> job_db \<Rightarrow> heartbeat_status option" where
  "worker_heartbeat_status w db = map_option hb_status (find (\<lambda>h. hb_worker h = w) (heartbeats db))"

subsection \<open>Authority of an attempt\<close>

definition authority_join :: "job_db \<Rightarrow> jstr \<Rightarrow> jstr \<Rightarrow> int \<Rightarrow> jstr list" where
  "authority_join db jid aid now =
     map (a_worker \<circ> snd)
       (filter (\<lambda>(j, a). j_id j = jid \<and> a_id a = aid \<and> a_job a = j_id j
            \<and> j_status j = JRunning \<and> a_status a = AttRunning
            \<and> j_attempts j = a_number a \<and> j_owner j = Some (a_worker a)
            \<and> (case j_lease j of None \<Rightarrow> False | Some t \<Rightarrow> now < t))
         (List.product (jobs db) (attempts db)))"

definition has_authority :: "job_db \<Rightarrow> jstr \<Rightarrow> jstr \<Rightarrow> int \<Rightarrow> jstr option \<Rightarrow> bool" where
  "has_authority db jid aid now worker =
     (case authority_join db jid aid now of
        [] \<Rightarrow> False
      | w # _ \<Rightarrow> worker = None \<or> worker = Some w)"

subsection \<open>Claiming\<close>

datatype type_filter = AnyType | TypeIn "jstr list" | TypeNotIn "jstr list"

fun type_matches :: "type_filter \<Rightarrow> jstr \<Rightarrow> bool" where
  "type_matches AnyType t = True"
| "type_matches (TypeIn ts) t = (t \<in> set ts)"
| "type_matches (TypeNotIn ts) t = (t \<notin> set ts)"

definition build_type_filter :: "jstr list option \<Rightarrow> jstr list option \<Rightarrow> job_error + type_filter" where
  "build_type_filter types excluded =
     (let ts = value_or types []; xs = value_or excluded []
      in if ts \<noteq> [] \<and> xs \<noteq> [] then Inl TypesAndExcludedTypes
         else if ts \<noteq> [] then Inr (TypeIn ts)
         else if xs \<noteq> [] then Inr (TypeNotIn xs)
         else Inr AnyType)"

definition lease_over :: "int \<Rightarrow> job_row \<Rightarrow> bool" where
  "lease_over now j \<longleftrightarrow> j_status j = JRunning
     \<and> (case j_lease j of None \<Rightarrow> False | Some t \<Rightarrow> t \<le> now)"

definition exhausted :: "type_filter \<Rightarrow> int \<Rightarrow> job_row \<Rightarrow> bool" where
  "exhausted flt now j \<longleftrightarrow> lease_over now j \<and> j_max j \<le> j_attempts j \<and> type_matches flt (j_type j)"

definition fail_attempt :: "int \<Rightarrow> jstr \<Rightarrow> attempt_row \<Rightarrow> attempt_row" where
  "fail_attempt now err a = a\<lparr>a_status := AttFailed, a_completed := coalesce (a_completed a) now,
     a_heartbeat := Some now, a_error := coalesce (a_error a) err\<rparr>"

definition max_attempts_error :: jstr where
  "max_attempts_error = lit ''Lease expired after max attempts''"

definition fail_expired :: "type_filter \<Rightarrow> int \<Rightarrow> job_db \<Rightarrow> job_db" where
  "fail_expired flt now db =
     db\<lparr>attempts := update_where
          (\<lambda>a. a_status a = AttRunning \<and> a_job a \<in> j_id ` set (filter (exhausted flt now) (jobs db)))
          (fail_attempt now max_attempts_error) (attempts db),
        jobs := update_where (exhausted flt now)
          (\<lambda>j. j\<lparr>j_status := JFailed, j_completed := coalesce (j_completed j) now, j_updated := now,
                 j_error := Some max_attempts_error, j_owner := None, j_lease := None,
                 j_heartbeat := Some now\<rparr>) (jobs db)\<rparr>"

definition claimable :: "type_filter \<Rightarrow> int \<Rightarrow> job_row \<Rightarrow> bool" where
  "claimable flt now j \<longleftrightarrow> j_attempts j < j_max j \<and> type_matches flt (j_type j)
     \<and> ((j_status j = JPending \<and> j_scheduled j \<le> now) \<or> lease_over now j)"

record claim_options =
  co_worker :: jstr
  co_lease_ms :: "int option"
  co_types :: "jstr list option"
  co_excluded :: "jstr list option"

definition take_lease :: "int \<Rightarrow> int \<Rightarrow> jstr \<Rightarrow> int \<Rightarrow> job_row \<Rightarrow> job_row" where
  "take_lease now lease worker n j = j\<lparr>j_status := JRunning, j_attempts := n,
     j_started := coalesce (j_started j) now, j_updated := now, j_owner := Some worker,
     j_lease := Some (now + lease), j_heartbeat := Some now\<rparr>"

definition new_attempt :: "jstr \<Rightarrow> job_row \<Rightarrow> int \<Rightarrow> jstr \<Rightarrow> int \<Rightarrow> attempt_row" where
  "new_attempt aid j n worker now = \<lparr>a_id = aid, a_job = j_id j, a_number = n, a_worker = worker,
     a_status = AttRunning, a_started = now, a_completed = None, a_heartbeat = Some now,
     a_error = None, a_result = None\<rparr>"

text \<open>The claim of one selected row, after the exhausted leases were failed.\<close>

definition claim_row :: "claim_options \<Rightarrow> jstr \<Rightarrow> jstr \<Rightarrow> int \<Rightarrow> job_row \<Rightarrow> job_db \<Rightarrow> job_db" where
  "claim_row opts aid stale now j db =
     (let n = j_attempts j + 1;
          rows = (if j_status j = JRunning
                  then update_where (\<lambda>a. a_job a = j_id j \<and> a_status a = AttRunning)
                         (fail_attempt now stale) (attempts db)
                  else attempts db)
      in db\<lparr>attempts := rows @ [new_attempt aid j n (co_worker opts) now],
            jobs := update_where (\<lambda>q. j_id q = j_id j)
              (take_lease now (value_or (co_lease_ms opts) 60000) (co_worker opts) n) (jobs db)\<rparr>)"

definition claim_next ::
  "claim_options \<Rightarrow> jstr \<Rightarrow> jstr \<Rightarrow> int \<Rightarrow> job_db
    \<Rightarrow> job_db \<times> (job_error + (job_row \<times> jstr \<times> int) option)" where
  "claim_next opts aid stale now db =
     (case build_type_filter (co_types opts) (co_excluded opts) of
        Inl e \<Rightarrow> (db, Inl e)
      | Inr flt \<Rightarrow>
          let db1 = fail_expired flt now db
          in case first_due (filter (claimable flt now) (jobs db1)) of
               None \<Rightarrow> (db1, Inr None)
             | Some j \<Rightarrow>
                 if aid \<in> a_id ` set (attempts db1) then (db, Inl UniqueViolation)
                 else let db2 = claim_row opts aid stale now j db1
                      in case find_job (j_id j) db2 of
                           None \<Rightarrow> (db, Inl ClaimedJobDisappeared)
                         | Some q \<Rightarrow> (db2, Inr (Some (q, aid, j_attempts j + 1))))"

subsection \<open>Settling and extending\<close>

text \<open>The two updates of a transaction, each of which has to change exactly one row.\<close>

definition update_pair ::
  "(attempt_row \<Rightarrow> bool) \<Rightarrow> (attempt_row \<Rightarrow> attempt_row) \<Rightarrow> (job_row \<Rightarrow> bool) \<Rightarrow> (job_row \<Rightarrow> job_row)
    \<Rightarrow> job_db \<Rightarrow> job_db \<times> (job_error + bool)" where
  "update_pair P f Q g db =
     (if changes P (attempts db) \<noteq> 1 then (db, Inl AttemptUpdateFailed)
      else if changes Q (jobs db) \<noteq> 1 then (db, Inl JobUpdateFailed)
      else (db\<lparr>attempts := update_where P f (attempts db), jobs := update_where Q g (jobs db)\<rparr>, Inr True))"

definition running_attempt :: "jstr \<Rightarrow> jstr \<Rightarrow> attempt_row \<Rightarrow> bool" where
  "running_attempt aid jid a \<longleftrightarrow> a_id a = aid \<and> a_job a = jid \<and> a_status a = AttRunning"

definition complete_job :: "jstr \<Rightarrow> jstr \<Rightarrow> jstr option \<Rightarrow> int \<Rightarrow> job_db \<Rightarrow> job_db \<times> (job_error + bool)" where
  "complete_job jid aid result now db =
     (if \<not> has_authority db jid aid now None then (db, Inr False)
      else update_pair (running_attempt aid jid)
        (\<lambda>a. a\<lparr>a_status := AttCompleted, a_completed := Some now, a_heartbeat := Some now, a_result := result\<rparr>)
        (\<lambda>j. j_id j = jid \<and> j_status j = JRunning)
        (\<lambda>j. j\<lparr>j_status := JCompleted, j_completed := Some now, j_updated := now, j_result := result,
               j_owner := None, j_lease := None, j_heartbeat := Some now\<rparr>)
        db)"

definition fail_job ::
  "jstr \<Rightarrow> jstr \<Rightarrow> jstr \<Rightarrow> bool \<Rightarrow> int option \<Rightarrow> int \<Rightarrow> job_db \<Rightarrow> job_db \<times> (job_error + bool)" where
  "fail_job jid aid err terminal delay now db =
     (if \<not> has_authority db jid aid now None then (db, Inr False)
      else case find_job jid db of
        None \<Rightarrow> (db, Inl AttemptDisappeared)
      | Some row \<Rightarrow>
          let retry = (\<not> terminal \<and> j_attempts row < j_max row)
          in update_pair (running_attempt aid jid)
               (\<lambda>a. a\<lparr>a_status := AttFailed, a_completed := Some now, a_heartbeat := Some now, a_error := Some err\<rparr>)
               (\<lambda>j. j_id j = jid \<and> j_status j = JRunning)
               (\<lambda>j. j\<lparr>j_status := (if retry then JPending else JFailed),
                      j_scheduled := (if retry then now + value_or delay 0 else now),
                      j_completed := (if retry then None else Some now), j_updated := now,
                      j_error := Some err, j_owner := None, j_lease := None, j_heartbeat := Some now\<rparr>)
               db)"

definition extend_lease :: "jstr \<Rightarrow> jstr \<Rightarrow> jstr \<Rightarrow> int \<Rightarrow> int \<Rightarrow> job_db \<Rightarrow> job_db \<times> (job_error + bool)" where
  "extend_lease jid aid worker lease now db =
     (if \<not> has_authority db jid aid now (Some worker) then (db, Inr False)
      else update_pair (\<lambda>a. running_attempt aid jid a \<and> a_worker a = worker)
        (\<lambda>a. a\<lparr>a_heartbeat := Some now\<rparr>)
        (\<lambda>j. j_id j = jid \<and> j_status j = JRunning \<and> j_owner j = Some worker)
        (\<lambda>j. j\<lparr>j_owner := Some worker, j_lease := Some (now + lease), j_heartbeat := Some now, j_updated := now\<rparr>)
        db)"

definition heartbeat :: "heartbeat_row \<Rightarrow> job_db \<Rightarrow> job_db" where
  "heartbeat h db =
     db\<lparr>heartbeats := if hb_worker h \<in> hb_worker ` set (heartbeats db)
          then update_where (\<lambda>q. hb_worker q = hb_worker h) (\<lambda>q. h) (heartbeats db)
          else heartbeats db @ [h]\<rparr>"

section \<open>Histories\<close>

inductive job_step :: "job_db \<Rightarrow> job_db \<Rightarrow> bool" where
  step_enqueue: "enqueue inp fresh clock db = (db', r) \<Longrightarrow> job_step db db'"
| step_claim: "claim_next opts aid stale now db = (db', r) \<Longrightarrow> job_step db db'"
| step_complete: "complete_job jid aid result now db = (db', r) \<Longrightarrow> job_step db db'"
| step_fail: "fail_job jid aid err terminal delay now db = (db', r) \<Longrightarrow> job_step db db'"
| step_extend: "extend_lease jid aid worker lease now db = (db', r) \<Longrightarrow> job_step db db'"
| step_heartbeat: "heartbeat h db = db' \<Longrightarrow> job_step db db'"

inductive_cases job_stepE: "job_step db db'"

definition job_reachable :: "job_db \<Rightarrow> bool" where
  "job_reachable db \<longleftrightarrow> job_step\<^sup>*\<^sup>* empty_jobs db"

end
