(* ===== verification/Job_Queue_Facts.thy ===== *)
theory Job_Queue_Facts
  imports Job_Queue
begin

text \<open>
  What every reachable job table satisfies.  \<open>job_ok\<close> is the invariant of one job and its
  attempts: they are numbered 1, 2, \<dots>, there are as many as the counter says and no more than
  the maximum, and the job is running exactly when its last attempt is, under the worker that
  holds the lease.  Authority, the settling operations and the claim are then characterised
  on that invariant.
\<close>

section \<open>Updates\<close>

lemma map_update_where:
  "(\<And>r. P r \<Longrightarrow> key (f r) = key r) \<Longrightarrow> map key (update_where P f rows) = map key rows"
  by (simp add: update_where_def)

lemma filter_update_where:
  "(\<And>r. P r \<Longrightarrow> Q (f r) = Q r) \<Longrightarrow> filter Q (update_where P f rows) = update_where P f (filter Q rows)"
  by (induction rows) (auto simp: update_where_def)

lemma set_update_where: "set (update_where P f rows) = (\<lambda>r. if P r then f r else r) ` set rows"
  by (simp add: update_where_def)

lemma update_where_same: "(\<And>r. r \<in> set rows \<Longrightarrow> \<not> P r) \<Longrightarrow> update_where P f rows = rows"
  by (induction rows) (auto simp: update_where_def)

lemma find_distinct:
  "distinct (map key rows) \<Longrightarrow> r \<in> set rows \<Longrightarrow> key r = k \<Longrightarrow> find (\<lambda>r. key r = k) rows = Some r"
  by (induction rows) auto

lemma find_memberD: "find P rows = Some r \<Longrightarrow> r \<in> set rows \<and> P r"
  by (induction rows) (auto split: if_splits)

lemma changes_one:
  "distinct (map key rows) \<Longrightarrow> r \<in> set rows \<Longrightarrow> P r \<Longrightarrow> (\<And>q. P q \<Longrightarrow> key q = key r) \<Longrightarrow> changes P rows = 1"
proof (induction rows)
  case (Cons q rows)
  have fresh: "key q \<notin> key ` set rows" and d: "distinct (map key rows)" using Cons.prems(1) by simp_all
  show ?case
  proof (cases "q = r")
    case True
    have "\<not> P x" if "x \<in> set rows" for x
      using that fresh True Cons.prems(4) [of x] by (metis image_eqI)
    with True Cons.prems(3) show ?thesis by (simp add: changes_def filter_empty_conv)
  next
    case False
    with Cons.prems(2) have r: "r \<in> set rows" by simp
    have "\<not> P q" using fresh r Cons.prems(4) [of q] by (metis image_eqI)
    with Cons.IH [OF d r Cons.prems(3)] Cons.prems(4) show ?thesis by (simp add: changes_def)
  qed
qed (simp add: changes_def)

section \<open>The invariant\<close>

definition attempts_of :: "job_db \<Rightarrow> jstr \<Rightarrow> attempt_row list" where
  "attempts_of db jid = filter (\<lambda>a. a_job a = jid) (attempts db)"

definition job_ok :: "attempt_row list \<Rightarrow> job_row \<Rightarrow> bool" where
  "job_ok as j \<longleftrightarrow>
     map a_number as = map (\<lambda>n. int (Suc n)) [0..<length as]
     \<and> j_attempts j = int (length as) \<and> j_attempts j \<le> max 0 (j_max j)
     \<and> (if j_status j = JRunning
        then as \<noteq> [] \<and> a_status (last as) = AttRunning \<and> j_owner j = Some (a_worker (last as))
             \<and> j_lease j \<noteq> None \<and> list_all (\<lambda>a. a_status a \<noteq> AttRunning) (butlast as)
        else list_all (\<lambda>a. a_status a \<noteq> AttRunning) as \<and> j_owner j = None \<and> j_lease j = None)"

definition job_keys :: "job_db \<Rightarrow> jstr option list" where
  "job_keys db = filter (\<lambda>k. k \<noteq> None) (map j_key (jobs db))"

definition job_inv :: "job_db \<Rightarrow> bool" where
  "job_inv db \<longleftrightarrow> distinct (map j_id (jobs db)) \<and> distinct (map a_id (attempts db))
     \<and> a_job ` set (attempts db) \<subseteq> j_id ` set (jobs db) \<and> distinct (job_keys db)
     \<and> (\<forall>j \<in> set (jobs db). job_ok (attempts_of db (j_id j)) j)"

lemma job_invD:
  assumes "job_inv db"
  shows "distinct (map j_id (jobs db))" and "distinct (map a_id (attempts db))"
    and "\<And>j. j \<in> set (jobs db) \<Longrightarrow> job_ok (attempts_of db (j_id j)) j"
  using assms by (simp_all add: job_inv_def)

lemma job_inv_empty: "job_inv empty_jobs"
  by (simp add: job_inv_def empty_jobs_def job_keys_def)

text \<open>Rewriting rows in place keeps the invariant when it keeps \<open>job_ok\<close> of each job.\<close>

lemma job_inv_update:
  assumes "job_inv db"
    and "map j_id (jobs db') = map j_id (jobs db)" and "map j_key (jobs db') = map j_key (jobs db)"
    and "distinct (map a_id (attempts db'))" and "a_job ` set (attempts db') \<subseteq> j_id ` set (jobs db)"
    and "\<And>j. j \<in> set (jobs db') \<Longrightarrow> job_ok (attempts_of db' (j_id j)) j"
  shows "job_inv db'"
proof -
  have "j_id ` set (jobs db') = j_id ` set (jobs db)" using assms(2) by (metis list.set_map)
  with assms show ?thesis by (simp add: job_inv_def job_keys_def)
qed

lemma same_idD:
  "distinct (map j_id js) \<Longrightarrow> j \<in> set js \<Longrightarrow> q \<in> set js \<Longrightarrow> j_id j = j_id q \<Longrightarrow> j = q"
  by (auto simp: distinct_map dest: inj_onD)

lemma same_attemptD:
  "distinct (map a_id as) \<Longrightarrow> a \<in> set as \<Longrightarrow> b \<in> set as \<Longrightarrow> a_id a = a_id b \<Longrightarrow> a = b"
  by (auto simp: distinct_map dest: inj_onD)

section \<open>Enqueue\<close>

lemma enqueue_cases:
  assumes "enqueue inp fresh clock db = (db', r)"
  obtains (existing) j k where "eq_key inp = Some k" and "k \<noteq> []" and "j \<in> set (jobs db)" and "j_key j = Some k"
      and "db' = db" and "r = Inr (j_id j)"
  | (error) e where "db' = db" and "r = Inl e"
  | (new) i payload where "i = value_or (eq_id inp) fresh" and "i \<notin> j_id ` set (jobs db)"
      and "eq_key inp = None \<or> eq_key inp \<notin> j_key ` set (jobs db)" and "r = Inr i"
      and "db' = db\<lparr>jobs := jobs db @ [new_job inp i payload (value_or (eq_now inp) clock)]\<rparr>"
proof (cases "find_by_key (eq_key inp) db")
  case (Some j)
  then obtain k where "eq_key inp = Some k" "k \<noteq> []" "find (\<lambda>j. j_key j = Some k) (jobs db) = Some j"
    by (auto simp: find_by_key_def split: option.splits if_splits)
  with Some assms find_memberD show ?thesis by (intro existing) (auto simp: enqueue_def dest: find_memberD)
next
  case None
  show ?thesis
  proof (cases "eq_payload inp")
    case None
    with assms \<open>find_by_key _ _ = None\<close> show ?thesis by (intro error) (auto simp: enqueue_def Let_def)
  next
    case (Some payload)
    let ?i = "value_or (eq_id inp) fresh"
    show ?thesis
    proof (cases "?i \<in> j_id ` set (jobs db) \<or> (eq_key inp \<noteq> None \<and> eq_key inp \<in> j_key ` set (jobs db))")
      case True
      with assms Some None have "db' = db" "r = Inl UniqueViolation"
        unfolding enqueue_def Let_def by (simp_all del: not_None_eq)
      then show ?thesis by (rule error)
    next
      case False
      with assms Some None have "db' = db\<lparr>jobs := jobs db @ [new_job inp ?i payload (value_or (eq_now inp) clock)]\<rparr>"
        "r = Inr ?i"
        unfolding enqueue_def Let_def by (simp_all del: not_None_eq)
      with False show ?thesis by (intro new [of ?i payload]) auto
    qed
  qed
qed

lemma job_inv_enqueue: "enqueue inp fresh clock db = (db', r) \<Longrightarrow> job_inv db \<Longrightarrow> job_inv db'"
proof (erule enqueue_cases)
  fix i payload
  assume inv: "job_inv db" and i: "i \<notin> j_id ` set (jobs db)"
    and k: "eq_key inp = None \<or> eq_key inp \<notin> j_key ` set (jobs db)"
    and db': "db' = db\<lparr>jobs := jobs db @ [new_job inp i payload (value_or (eq_now inp) clock)]\<rparr>"
  let ?n = "new_job inp i payload (value_or (eq_now inp) clock)"
  have n: "j_id ?n = i" "j_key ?n = eq_key inp" by (simp_all add: new_job_def)
  have "i \<notin> a_job ` set (attempts db)" using inv i by (auto simp: job_inv_def)
  then have "attempts_of db i = []" by (auto simp: attempts_of_def filter_empty_conv)
  then have "job_ok (attempts_of db i) ?n" by (simp add: job_ok_def new_job_def)
  moreover have "distinct (job_keys db')"
    using inv k n by (auto simp: job_inv_def job_keys_def db')
  ultimately show ?thesis
    using inv i n by (auto simp: job_inv_def db' attempts_of_def)
qed simp_all

section \<open>Authority\<close>

definition holds :: "job_row \<Rightarrow> attempt_row \<Rightarrow> int \<Rightarrow> bool" where
  "holds j a now \<longleftrightarrow> a_job a = j_id j \<and> j_status j = JRunning \<and> a_status a = AttRunning
     \<and> j_attempts j = a_number a \<and> j_owner j = Some (a_worker a)
     \<and> (case j_lease j of None \<Rightarrow> False | Some t \<Rightarrow> now < t)"

lemma authority_join_set:
  "w \<in> set (authority_join db jid aid now) \<longleftrightarrow>
    (\<exists>j \<in> set (jobs db). \<exists>a \<in> set (attempts db). j_id j = jid \<and> a_id a = aid \<and> holds j a now \<and> a_worker a = w)"
  by (auto simp: authority_join_def holds_def image_iff)

lemma has_authority_iff:
  assumes "job_inv db"
  shows "has_authority db jid aid now worker \<longleftrightarrow>
    (\<exists>j \<in> set (jobs db). \<exists>a \<in> set (attempts db). j_id j = jid \<and> a_id a = aid \<and> holds j a now
       \<and> (worker = None \<or> worker = Some (a_worker a)))"
proof (cases "authority_join db jid aid now")
  case Nil
  then have "w \<notin> set (authority_join db jid aid now)" for w by simp
  with Nil show ?thesis unfolding has_authority_def authority_join_set by auto
next
  case (Cons w ws)
  then have "w \<in> set (authority_join db jid aid now)" by simp
  then obtain j a where ja: "j \<in> set (jobs db)" "a \<in> set (attempts db)" "j_id j = jid" "a_id a = aid"
    "holds j a now" "a_worker a = w" unfolding authority_join_set by blast
  have "a' = a" if "a' \<in> set (attempts db)" "a_id a' = aid" for a'
    using same_attemptD [OF job_invD(2) [OF assms]] that ja by blast
  then have unique: "a_worker a' = w" if "a' \<in> set (attempts db)" "a_id a' = aid" for a'
    using that ja(6) by blast
  have "has_authority db jid aid now worker \<longleftrightarrow> worker = None \<or> worker = Some w"
    by (simp add: has_authority_def Cons)
  with ja unique show ?thesis by blast
qed

lemma attempts_of_mem: "a \<in> set (attempts_of db jid) \<longleftrightarrow> a \<in> set (attempts db) \<and> a_job a = jid"
  by (auto simp: attempts_of_def)

lemma running_is_last:
  assumes "job_ok as j" and "a \<in> set as" and "a_status a = AttRunning"
  shows "j_status j = JRunning \<and> a = last as \<and> j_owner j = Some (a_worker a)"
proof -
  have run: "j_status j = JRunning"
    using assms by (auto simp: job_ok_def list_all_iff split: if_splits)
  with assms(1) have "as \<noteq> []" "list_all (\<lambda>a. a_status a \<noteq> AttRunning) (butlast as)" by (simp_all add: job_ok_def)
  moreover from this(1) have "as = butlast as @ [last as]" by simp
  then have "set as = set (butlast as) \<union> {last as}" by (metis list.simps(15) list.set(1) set_append)
  ultimately have "a = last as" using assms(2,3) by (auto simp: list_all_iff)
  with run assms(1) show ?thesis by (simp add: job_ok_def)
qed

lemma last_number:
  assumes "job_ok as j" and "as \<noteq> []"
  shows "a_number (last as) = j_attempts j"
proof -
  let ?k = "length as - 1"
  have k: "?k < length as" using assms(2) by (cases as) simp_all
  have e: "map a_number as = map (\<lambda>n. int (Suc n)) [0..<length as]" and n: "j_attempts j = int (length as)"
    using assms(1) by (simp_all only: job_ok_def)
  have "a_number (last as) = map a_number as ! ?k" using k assms(2) by (simp add: last_conv_nth)
  also have "\<dots> = int (Suc ?k)" unfolding e using k by (subst nth_map) simp_all
  finally show ?thesis using k n by simp
qed

text \<open>On the invariant authority is: the job runs, its lease is not over, and this is its last attempt.\<close>

lemma authority_cases:
  assumes "job_inv db" and "has_authority db jid aid now worker"
  obtains j where "j \<in> set (jobs db)" and "j_id j = jid" and "j_status j = JRunning"
    and "attempts_of db jid \<noteq> []" and "a_id (last (attempts_of db jid)) = aid"
    and "a_status (last (attempts_of db jid)) = AttRunning"
    and "j_owner j = Some (a_worker (last (attempts_of db jid)))"
    and "worker = None \<or> worker = j_owner j"
    and "\<exists>t. j_lease j = Some t \<and> now < t"
proof -
  from assms obtain j a where ja: "j \<in> set (jobs db)" "a \<in> set (attempts db)" "j_id j = jid" "a_id a = aid"
    "holds j a now" "worker = None \<or> worker = Some (a_worker a)"
    by (auto simp: has_authority_iff)
  have ok: "job_ok (attempts_of db jid) j" using job_invD(3) [OF assms(1)] ja by blast
  have mem: "a \<in> set (attempts_of db jid)" using ja by (simp add: attempts_of_mem holds_def)
  then have "j_status j = JRunning \<and> a = last (attempts_of db jid) \<and> j_owner j = Some (a_worker a)"
    using ok ja(5) by (intro running_is_last) (simp_all add: holds_def)
  moreover have "attempts_of db jid \<noteq> []" using mem by auto
  ultimately show ?thesis using ja that [of j] by (auto simp: holds_def split: option.splits)
qed

lemma authority_intro:
  assumes "job_inv db" and "j \<in> set (jobs db)" and "j_status j = JRunning" and "j_lease j = Some t" and "now < t"
  shows "has_authority db (j_id j) (a_id (last (attempts_of db (j_id j)))) now None"
proof -
  let ?as = "attempts_of db (j_id j)"
  have ok: "job_ok ?as j" using job_invD(3) assms by blast
  with assms have ne: "?as \<noteq> []" by (simp add: job_ok_def)
  then have "last ?as \<in> set (attempts db)" "a_job (last ?as) = j_id j"
    using last_in_set [OF ne] by (simp_all add: attempts_of_mem)
  moreover have "holds j (last ?as) now"
    using ok ne assms calculation last_number [OF ok ne] by (simp add: holds_def job_ok_def)
  ultimately show ?thesis using assms by (auto simp: has_authority_iff)
qed

section \<open>Settling\<close>

lemma attempts_of_update:
  "(\<And>a. a_job (f a) = a_job a) \<Longrightarrow>
    filter (\<lambda>a. a_job a = jid) (update_where P f as) = update_where P f (filter (\<lambda>a. a_job a = jid) as)"
  by (rule filter_update_where) simp

lemma update_last:
  assumes "as \<noteq> []" and "distinct (map a_id as)" and "P (last as)" and "\<And>q. P q \<Longrightarrow> a_id q = a_id (last as)"
  shows "update_where P f as = butlast as @ [f (last as)]"
proof -
  have split: "as = butlast as @ [last as]" using assms(1) by simp
  have "a_id (last as) \<notin> a_id ` set (butlast as)"
    using assms(2) by (subst (asm) split) simp
  then have "\<not> P q" if "q \<in> set (butlast as)" for q using that assms(4) by (metis image_eqI)
  then have "update_where P f (butlast as) = butlast as" by (rule update_where_same)
  moreover have "update_where P f as = update_where P f (butlast as) @ update_where P f [last as]"
    by (subst split) (simp add: update_where_def)
  ultimately show ?thesis using assms(3) by (simp add: update_where_def)
qed

text \<open>Both updates of a settling transaction find exactly their row, and keep the invariant.\<close>

lemma update_pair_done:
  assumes "job_inv db" and "j \<in> set (jobs db)" and "attempts_of db (j_id j) \<noteq> []"
    and "P (last (attempts_of db (j_id j)))" and "\<And>q. P q \<Longrightarrow> a_id q = a_id (last (attempts_of db (j_id j)))"
    and "Q j" and "\<And>q. Q q \<Longrightarrow> j_id q = j_id j"
  shows "update_pair P f Q g db
    = (db\<lparr>attempts := update_where P f (attempts db), jobs := update_where Q g (jobs db)\<rparr>, Inr True)"
proof -
  have "last (attempts_of db (j_id j)) \<in> set (attempts db)"
    using last_in_set [OF assms(3)] by (simp add: attempts_of_mem)
  then have "changes P (attempts db) = 1"
    using job_invD(2) [OF assms(1)] assms(4,5) by (intro changes_one [where key = a_id])
  moreover have "changes Q (jobs db) = 1"
    using job_invD(1) [OF assms(1)] assms(2,6,7) by (intro changes_one [where key = j_id])
  ultimately show ?thesis by (simp add: update_pair_def)
qed

lemma job_inv_pair:
  assumes "job_inv db" and "j \<in> set (jobs db)" and "attempts_of db (j_id j) \<noteq> []"
    and "P (last (attempts_of db (j_id j)))" and "\<And>q. P q \<Longrightarrow> a_id q = a_id (last (attempts_of db (j_id j)))"
    and "Q j" and "\<And>q. Q q \<Longrightarrow> j_id q = j_id j"
    and "\<And>a. a_id (f a) = a_id a \<and> a_job (f a) = a_job a"
    and "\<And>q. j_id (g q) = j_id q \<and> j_key (g q) = j_key q"
    and "job_ok (butlast (attempts_of db (j_id j)) @ [f (last (attempts_of db (j_id j)))]) (g j)"
  shows "job_inv (db\<lparr>attempts := update_where P f (attempts db), jobs := update_where Q g (jobs db)\<rparr>)"
    (is "job_inv ?db'")
proof (rule job_inv_update [OF assms(1)])
  show "map j_id (jobs ?db') = map j_id (jobs db)" "map j_key (jobs ?db') = map j_key (jobs db)"
    using assms(9) by (auto intro: map_update_where)
  show "distinct (map a_id (attempts ?db'))"
    using job_invD(2) [OF assms(1)] assms(8) by (simp add: map_update_where)
  show "a_job ` set (attempts ?db') \<subseteq> j_id ` set (jobs db)"
    using assms(1,8) by (auto simp: job_inv_def set_update_where image_subset_iff)
next
  fix q
  assume "q \<in> set (jobs ?db')"
  then obtain q0 where q0: "q0 \<in> set (jobs db)" and q: "q = (if Q q0 then g q0 else q0)"
    by (auto simp: set_update_where)
  have id: "j_id q = j_id q0" using q assms(9) by simp
  have of: "attempts_of ?db' (j_id q) = update_where P f (attempts_of db (j_id q0))"
    using assms(8) by (simp add: attempts_of_def attempts_of_update id)
  show "job_ok (attempts_of ?db' (j_id q)) q"
  proof (cases "j_id q0 = j_id j")
    case True
    then have "q0 = j" using same_idD [OF job_invD(1) [OF assms(1)]] q0 assms(2) by blast
    have "distinct (map a_id (attempts_of db (j_id j)))"
      using job_invD(2) [OF assms(1)] by (simp add: attempts_of_def distinct_map_filter)
    then have "update_where P f (attempts_of db (j_id j))
        = butlast (attempts_of db (j_id j)) @ [f (last (attempts_of db (j_id j)))]"
      using assms(3-5) by (intro update_last)
    with \<open>q0 = j\<close> assms(6,10) q of show ?thesis by simp
  next
    case False
    have "\<not> P a" if "a \<in> set (attempts_of db (j_id q0))" for a
    proof
      assume "P a"
      moreover have "last (attempts_of db (j_id j)) \<in> set (attempts_of db (j_id j))" using assms(3) by simp
      ultimately have "a = last (attempts_of db (j_id j))"
        using assms(5) [of a] that same_attemptD [OF job_invD(2) [OF assms(1)]] by (simp add: attempts_of_mem)
      with that False \<open>last _ \<in> set _\<close> show False by (simp add: attempts_of_mem)
    qed
    then have "update_where P f (attempts_of db (j_id q0)) = attempts_of db (j_id q0)" by (rule update_where_same)
    moreover have "\<not> Q q0" using False assms(7) by blast
    ultimately show ?thesis using of q q0 job_invD(3) [OF assms(1)] id by simp
  qed
qed

lemma job_ok_stopped:
  assumes "job_ok as j" and "map a_number as' = map a_number as" and "list_all (\<lambda>a. a_status a \<noteq> AttRunning) as'"
    and "j_attempts j' = j_attempts j" and "j_max j' = j_max j" and "j_status j' \<noteq> JRunning"
    and "j_owner j' = None" and "j_lease j' = None"
  shows "job_ok as' j'"
proof -
  have "length as' = length as" using assms(2) by (metis length_map)
  with assms show ?thesis by (simp add: job_ok_def)
qed

lemma numbers_butlast:
  "as \<noteq> [] \<Longrightarrow> a_number (f (last as)) = a_number (last as) \<Longrightarrow>
    map a_number (butlast as @ [f (last as)]) = map a_number as"
  by (cases as rule: rev_cases) simp_all

lemma job_ok_last:
  assumes "job_ok as j" and "j_status j = JRunning" and "a_number (f (last as)) = a_number (last as)"
    and "a_status (f (last as)) \<noteq> AttRunning"
    and "j_attempts j' = j_attempts j" and "j_max j' = j_max j" and "j_status j' \<noteq> JRunning"
    and "j_owner j' = None" and "j_lease j' = None"
  shows "job_ok (butlast as @ [f (last as)]) j'"
proof (rule job_ok_stopped [OF assms(1) numbers_butlast [of as f]])
  show "as \<noteq> []" using assms(1,2) unfolding job_ok_def by simp
  show "list_all (\<lambda>a. a_status a \<noteq> AttRunning) (butlast as @ [f (last as)])"
  proof -
    have "list_all (\<lambda>a. a_status a \<noteq> AttRunning) (butlast as)" using assms(1,2) unfolding job_ok_def by simp
    with assms(4) show ?thesis by simp
  qed
qed (rule assms)+

text \<open>A settling transaction under authority: both updates, and the invariant afterwards.\<close>

lemma settle_pair:
  assumes "job_inv db" and "has_authority db jid aid now worker"
    and "\<And>q. P q \<Longrightarrow> a_id q = aid" and "\<And>q. Q q \<Longrightarrow> j_id q = jid"
    and "\<And>a. running_attempt aid jid a \<Longrightarrow> worker = None \<or> worker = Some (a_worker a) \<Longrightarrow> P a"
    and "\<And>j. j_id j = jid \<Longrightarrow> j_status j = JRunning \<Longrightarrow> worker = None \<or> worker = j_owner j \<Longrightarrow> Q j"
    and "\<And>a. a_id (f a) = a_id a \<and> a_job (f a) = a_job a"
    and "\<And>q. j_id (g q) = j_id q \<and> j_key (g q) = j_key q"
    and "\<And>as j. job_ok as j \<Longrightarrow> j_status j = JRunning \<Longrightarrow> worker = None \<or> worker = j_owner j \<Longrightarrow>
      job_ok (butlast as @ [f (last as)]) (g j)"
  shows "update_pair P f Q g db
      = (db\<lparr>attempts := update_where P f (attempts db), jobs := update_where Q g (jobs db)\<rparr>, Inr True)"
    and "job_inv (db\<lparr>attempts := update_where P f (attempts db), jobs := update_where Q g (jobs db)\<rparr>)"
proof -
  from assms(1,2) obtain j where j: "j \<in> set (jobs db)" "j_id j = jid" "j_status j = JRunning"
    "attempts_of db jid \<noteq> []" "a_id (last (attempts_of db jid)) = aid"
    "a_status (last (attempts_of db jid)) = AttRunning"
    "j_owner j = Some (a_worker (last (attempts_of db jid)))" "worker = None \<or> worker = j_owner j"
    by (rule authority_cases)
  have "a_job (last (attempts_of db jid)) = jid"
    using last_in_set [OF j(4)] by (simp add: attempts_of_mem)
  with j have P: "P (last (attempts_of db (j_id j)))"
    by (intro assms(5)) (simp_all add: running_attempt_def)
  have Q: "Q j" using j by (intro assms(6))
  have ok: "job_ok (attempts_of db (j_id j)) j" using job_invD(3) [OF assms(1)] j(1) by blast
  have fit: "worker = None \<or> worker = j_owner j" by (rule j(8))
  have ne: "attempts_of db (j_id j) \<noteq> []" and aid: "a_id (last (attempts_of db (j_id j))) = aid"
    using j(2,4,5) by simp_all
  have Pid: "\<And>q. P q \<Longrightarrow> a_id q = a_id (last (attempts_of db (j_id j)))" using assms(3) aid by simp
  have Qid: "\<And>q. Q q \<Longrightarrow> j_id q = j_id j" using assms(4) j(2) by simp
  show "update_pair P f Q g db
      = (db\<lparr>attempts := update_where P f (attempts db), jobs := update_where Q g (jobs db)\<rparr>, Inr True)"
    by (rule update_pair_done [where P = P and Q = Q, OF assms(1) j(1) ne P Pid Q Qid])
  show "job_inv (db\<lparr>attempts := update_where P f (attempts db), jobs := update_where Q g (jobs db)\<rparr>)"
    by (rule job_inv_pair [where P = P and Q = Q and f = f and g = g,
          OF assms(1) j(1) ne P Pid Q Qid assms(7,8) assms(9) [OF ok j(3) fit]])
qed

lemma complete_spec:
  assumes "complete_job jid aid result now db = (db', r)" and "job_inv db"
  obtains (refused) "\<not> has_authority db jid aid now None" and "db' = db" and "r = Inr False"
  | (settled) "has_authority db jid aid now None" and "r = Inr True" and "job_inv db'"
      and "db' = db\<lparr>attempts := update_where (running_attempt aid jid)
            (\<lambda>a. a\<lparr>a_status := AttCompleted, a_completed := Some now, a_heartbeat := Some now, a_result := result\<rparr>)
            (attempts db),
          jobs := update_where (\<lambda>j. j_id j = jid \<and> j_status j = JRunning)
            (\<lambda>j. j\<lparr>j_status := JCompleted, j_completed := Some now, j_updated := now, j_result := result,
               j_owner := None, j_lease := None, j_heartbeat := Some now\<rparr>) (jobs db)\<rparr>"
proof (cases "has_authority db jid aid now None")
  case False
  with assms show ?thesis by (intro refused) (auto simp: complete_job_def)
next
  case True
  let ?P = "running_attempt aid jid" and ?Q = "\<lambda>j. j_id j = jid \<and> j_status j = JRunning"
  let ?f = "\<lambda>a. a\<lparr>a_status := AttCompleted, a_completed := Some now, a_heartbeat := Some now, a_result := result\<rparr>"
  let ?g = "\<lambda>j. j\<lparr>j_status := JCompleted, j_completed := Some now, j_updated := now, j_result := result,
               j_owner := None, j_lease := None, j_heartbeat := Some now\<rparr>"
  let ?db = "db\<lparr>attempts := update_where ?P ?f (attempts db), jobs := update_where ?Q ?g (jobs db)\<rparr>"
  have ok: "job_ok as j \<Longrightarrow> j_status j = JRunning \<Longrightarrow> job_ok (butlast as @ [?f (last as)]) (?g j)" for as j
    by (rule job_ok_last [where f = ?f]) simp_all
  have "update_pair ?P ?f ?Q ?g db = (?db, Inr True)" and inv: "job_inv ?db"
    by (rule settle_pair [where f = ?f and g = ?g and P = ?P and Q = ?Q, OF assms(2) True _ _ _ _ _ _ ok];
        simp add: running_attempt_def)+
  with assms(1) True have "db' = ?db" "r = Inr True" by (simp_all add: complete_job_def)
  with True inv show ?thesis by (intro settled) simp_all
qed

lemma find_job_some: "job_inv db \<Longrightarrow> j \<in> set (jobs db) \<Longrightarrow> find_job (j_id j) db = Some j"
  unfolding find_job_def by (rule find_distinct [OF job_invD(1)]) simp_all

lemma fail_spec:
  assumes "fail_job jid aid err terminal delay now db = (db', r)" and "job_inv db"
  obtains (refused) "\<not> has_authority db jid aid now None" and "db' = db" and "r = Inr False"
  | (settled) row retry where "has_authority db jid aid now None" and "r = Inr True" and "job_inv db'"
      and "find_job jid db = Some row" and "retry = (\<not> terminal \<and> j_attempts row < j_max row)"
      and "db' = db\<lparr>attempts := update_where (running_attempt aid jid)
            (\<lambda>a. a\<lparr>a_status := AttFailed, a_completed := Some now, a_heartbeat := Some now, a_error := Some err\<rparr>)
            (attempts db),
          jobs := update_where (\<lambda>j. j_id j = jid \<and> j_status j = JRunning)
            (\<lambda>j. j\<lparr>j_status := (if retry then JPending else JFailed),
                   j_scheduled := (if retry then now + value_or delay 0 else now),
                   j_completed := (if retry then None else Some now), j_updated := now,
                   j_error := Some err, j_owner := None, j_lease := None, j_heartbeat := Some now\<rparr>) (jobs db)\<rparr>"
proof (cases "has_authority db jid aid now None")
  case False
  with assms show ?thesis by (intro refused) (auto simp: fail_job_def)
next
  case True
  from assms(2) True obtain row where row: "row \<in> set (jobs db)" "j_id row = jid" by (rule authority_cases)
  then have found: "find_job jid db = Some row" using find_job_some [OF assms(2)] by blast
  let ?retry = "\<not> terminal \<and> j_attempts row < j_max row"
  let ?P = "running_attempt aid jid" and ?Q = "\<lambda>j. j_id j = jid \<and> j_status j = JRunning"
  let ?f = "\<lambda>a. a\<lparr>a_status := AttFailed, a_completed := Some now, a_heartbeat := Some now, a_error := Some err\<rparr>"
  let ?g = "\<lambda>j. j\<lparr>j_status := (if ?retry then JPending else JFailed),
                   j_scheduled := (if ?retry then now + value_or delay 0 else now),
                   j_completed := (if ?retry then None else Some now), j_updated := now,
                   j_error := Some err, j_owner := None, j_lease := None, j_heartbeat := Some now\<rparr>"
  let ?db = "db\<lparr>attempts := update_where ?P ?f (attempts db), jobs := update_where ?Q ?g (jobs db)\<rparr>"
  have ok: "job_ok as j \<Longrightarrow> j_status j = JRunning \<Longrightarrow> job_ok (butlast as @ [?f (last as)]) (?g j)" for as j
    by (rule job_ok_last [where f = ?f]) simp_all
  have "update_pair ?P ?f ?Q ?g db = (?db, Inr True)" and inv: "job_inv ?db"
    by (rule settle_pair [where f = ?f and g = ?g and P = ?P and Q = ?Q, OF assms(2) True _ _ _ _ _ _ ok];
        simp add: running_attempt_def)+
  with assms(1) True found have "db' = ?db" "r = Inr True"
    unfolding fail_job_def Let_def by simp_all
  with True inv found show ?thesis by (intro settled [of row ?retry]) simp_all
qed

lemma extend_spec:
  assumes "extend_lease jid aid worker lease now db = (db', r)" and "job_inv db"
  obtains (refused) "\<not> has_authority db jid aid now (Some worker)" and "db' = db" and "r = Inr False"
  | (settled) "has_authority db jid aid now (Some worker)" and "r = Inr True" and "job_inv db'"
      and "db' = db\<lparr>attempts := update_where (\<lambda>a. running_attempt aid jid a \<and> a_worker a = worker)
            (\<lambda>a. a\<lparr>a_heartbeat := Some now\<rparr>) (attempts db),
          jobs := update_where (\<lambda>j. j_id j = jid \<and> j_status j = JRunning \<and> j_owner j = Some worker)
            (\<lambda>j. j\<lparr>j_owner := Some worker, j_lease := Some (now + lease), j_heartbeat := Some now, j_updated := now\<rparr>)
            (jobs db)\<rparr>"
proof (cases "has_authority db jid aid now (Some worker)")
  case False
  with assms show ?thesis by (intro refused) (auto simp: extend_lease_def)
next
  case True
  let ?P = "\<lambda>a. running_attempt aid jid a \<and> a_worker a = worker"
  let ?Q = "\<lambda>j. j_id j = jid \<and> j_status j = JRunning \<and> j_owner j = Some worker"
  let ?f = "\<lambda>a. a\<lparr>a_heartbeat := Some now\<rparr>"
  let ?g = "\<lambda>j. j\<lparr>j_owner := Some worker, j_lease := Some (now + lease), j_heartbeat := Some now, j_updated := now\<rparr>"
  let ?db = "db\<lparr>attempts := update_where ?P ?f (attempts db), jobs := update_where ?Q ?g (jobs db)\<rparr>"
  have ok: "job_ok (butlast as @ [?f (last as)]) (?g j)"
    if "job_ok as j" "j_status j = JRunning" "Some worker = None \<or> Some worker = j_owner j" for as j
    using that by (cases as rule: rev_cases) (auto simp: job_ok_def)
  have "update_pair ?P ?f ?Q ?g db = (?db, Inr True)" and inv: "job_inv ?db"
    by (rule settle_pair [where f = ?f and g = ?g and P = ?P and Q = ?Q, OF assms(2) True _ _ _ _ _ _ ok];
        simp add: running_attempt_def)+
  with assms(1) True have "db' = ?db" "r = Inr True" unfolding extend_lease_def by simp_all
  with True inv show ?thesis by (intro settled) simp_all
qed

section \<open>Claiming\<close>

lemma lease_over_running: "lease_over now j \<Longrightarrow> j_status j = JRunning"
  by (simp add: lease_over_def)

definition expire_job :: "int \<Rightarrow> job_row \<Rightarrow> job_row" where
  "expire_job now j = j\<lparr>j_status := JFailed, j_completed := coalesce (j_completed j) now, j_updated := now,
     j_error := Some max_attempts_error, j_owner := None, j_lease := None, j_heartbeat := Some now\<rparr>"

lemma fail_expired_jobs: "jobs (fail_expired flt now db) = update_where (exhausted flt now) (expire_job now) (jobs db)"
  by (simp add: fail_expired_def expire_job_def [abs_def])

lemma fail_attempt_keeps [simp]:
  "a_id (fail_attempt now e a) = a_id a" "a_job (fail_attempt now e a) = a_job a"
  "a_number (fail_attempt now e a) = a_number a" "a_worker (fail_attempt now e a) = a_worker a"
  "a_status (fail_attempt now e a) = AttFailed"
  by (simp_all add: fail_attempt_def)

lemma expire_job_keeps [simp]:
  "j_id (expire_job now j) = j_id j" "j_key (expire_job now j) = j_key j" "j_type (expire_job now j) = j_type j"
  "j_attempts (expire_job now j) = j_attempts j" "j_max (expire_job now j) = j_max j"
  "j_status (expire_job now j) = JFailed" "j_owner (expire_job now j) = None" "j_lease (expire_job now j) = None"
  by (simp_all add: expire_job_def)

lemma attempts_of_fail_expired:
  assumes "job_inv db" and "j \<in> set (jobs db)"
  shows "attempts_of (fail_expired flt now db) (j_id j) =
    (if exhausted flt now j then update_where (\<lambda>a. a_status a = AttRunning) (fail_attempt now max_attempts_error)
       (attempts_of db (j_id j)) else attempts_of db (j_id j))"
proof -
  have one: "j_id j \<in> j_id ` set (filter (exhausted flt now) (jobs db)) \<longleftrightarrow> exhausted flt now j"
    using assms same_idD [OF job_invD(1) [OF assms(1)]] by (auto simp: image_iff)
  have "attempts_of (fail_expired flt now db) (j_id j) = update_where
      (\<lambda>a. a_status a = AttRunning \<and> a_job a \<in> j_id ` set (filter (exhausted flt now) (jobs db)))
      (fail_attempt now max_attempts_error) (attempts_of db (j_id j))"
    by (simp add: attempts_of_def fail_expired_def filter_update_where)
  also have "\<dots> = (if exhausted flt now j then update_where (\<lambda>a. a_status a = AttRunning)
      (fail_attempt now max_attempts_error) (attempts_of db (j_id j)) else attempts_of db (j_id j))"
    using one by (auto simp: update_where_def attempts_of_mem intro: map_cong map_idI)
  finally show ?thesis .
qed

lemma stop_running:
  "list_all (\<lambda>a. a_status a \<noteq> AttRunning) (update_where (\<lambda>a. a_status a = AttRunning) (fail_attempt now e) as)"
  "map a_number (update_where (\<lambda>a. a_status a = AttRunning) (fail_attempt now e) as) = map a_number as"
  by (auto simp: list_all_iff set_update_where map_update_where)

lemma job_inv_fail_expired:
  assumes "job_inv db"
  shows "job_inv (fail_expired flt now db)"
proof (rule job_inv_update [OF assms])
  show "map j_id (jobs (fail_expired flt now db)) = map j_id (jobs db)"
    "map j_key (jobs (fail_expired flt now db)) = map j_key (jobs db)"
    by (simp_all add: fail_expired_jobs map_update_where)
  show "distinct (map a_id (attempts (fail_expired flt now db)))"
    using job_invD(2) [OF assms] by (simp add: fail_expired_def map_update_where)
  show "a_job ` set (attempts (fail_expired flt now db)) \<subseteq> j_id ` set (jobs db)"
    using assms by (auto simp: job_inv_def fail_expired_def set_update_where image_subset_iff)
next
  fix q
  assume "q \<in> set (jobs (fail_expired flt now db))"
  then obtain j where j: "j \<in> set (jobs db)" and q: "q = (if exhausted flt now j then expire_job now j else j)"
    by (auto simp: fail_expired_jobs set_update_where)
  have ok: "job_ok (attempts_of db (j_id j)) j" using job_invD(3) [OF assms j] .
  have id: "j_id q = j_id j" using q by simp
  show "job_ok (attempts_of (fail_expired flt now db) (j_id q)) q"
  proof (cases "exhausted flt now j")
    case True
    then show ?thesis
      using job_ok_stopped [OF ok stop_running(2) stop_running(1), where j' = q] q
      by (simp add: id attempts_of_fail_expired [OF assms j])
  next
    case False
    with ok q show ?thesis by (simp add: attempts_of_fail_expired [OF assms j])
  qed
qed

lemma due_before_linear: "due_before a b \<or> due_before b a"
  by (auto simp: due_before_def)

lemma due_before_trans: "due_before a b \<Longrightarrow> due_before b c \<Longrightarrow> due_before a c"
  by (auto simp: due_before_def)

lemma due_before_refl: "due_before a a"
  by (simp add: due_before_def)

lemma first_due_None [simp]: "first_due rows = None \<longleftrightarrow> rows = []"
  by (cases rows) (auto split: option.splits)

lemma first_due_SomeD:
  "first_due rows = Some r \<Longrightarrow> r \<in> set rows \<and> (\<forall>q \<in> set rows. due_before r q)"
proof (induction rows arbitrary: r)
  case (Cons x rows)
  show ?case
  proof (cases "first_due rows")
    case None
    with Cons.prems show ?thesis by (simp add: due_before_refl)
  next
    case (Some y)
    have y: "y \<in> set rows" "\<forall>q \<in> set rows. due_before y q" using Cons.IH [OF Some] by simp_all
    show ?thesis
    proof (cases "due_before x y")
      case True
      with Cons.prems Some have "r = x" by simp
      with y True show ?thesis by (auto intro: due_before_trans due_before_refl)
    next
      case False
      with Cons.prems Some have "r = y" by simp
      moreover have "due_before y x" using False due_before_linear by blast
      ultimately show ?thesis using y by auto
    qed
  qed
qed simp

lemma take_lease_keeps [simp]:
  "j_id (take_lease now l w n j) = j_id j" "j_key (take_lease now l w n j) = j_key j"
  "j_type (take_lease now l w n j) = j_type j" "j_max (take_lease now l w n j) = j_max j"
  "j_status (take_lease now l w n j) = JRunning" "j_attempts (take_lease now l w n j) = n"
  "j_owner (take_lease now l w n j) = Some w" "j_lease (take_lease now l w n j) = Some (now + l)"
  by (simp_all add: take_lease_def)

lemma new_attempt_keeps [simp]:
  "a_id (new_attempt aid j n w now) = aid" "a_job (new_attempt aid j n w now) = j_id j"
  "a_number (new_attempt aid j n w now) = n" "a_worker (new_attempt aid j n w now) = w"
  "a_status (new_attempt aid j n w now) = AttRunning"
  by (simp_all add: new_attempt_def)

lemma claimable_status: "claimable flt now j \<Longrightarrow> j_status j \<in> {JPending, JRunning} \<and> j_attempts j < j_max j"
  by (auto simp: claimable_def lease_over_def)

text \<open>The earlier attempts of a claimed job are over, and the new one is its last.\<close>

lemma attempts_of_claim:
  assumes "job_inv db" and "j \<in> set (jobs db)" and "claimable flt now j"
  obtains old where
    "attempts_of (claim_row opts aid stale now j db) (j_id j)
      = old @ [new_attempt aid j (j_attempts j + 1) (co_worker opts) now]"
    and "list_all (\<lambda>a. a_status a \<noteq> AttRunning) old" and "map a_number old = map a_number (attempts_of db (j_id j))"
    and "map a_id old = map a_id (attempts_of db (j_id j))"
proof (cases "j_status j = JRunning")
  case True
  let ?old = "update_where (\<lambda>a. a_status a = AttRunning) (fail_attempt now stale) (attempts_of db (j_id j))"
  have "filter (\<lambda>a. a_job a = j_id j)
      (update_where (\<lambda>a. a_job a = j_id j \<and> a_status a = AttRunning) (fail_attempt now stale) (attempts db))
    = update_where (\<lambda>a. a_job a = j_id j \<and> a_status a = AttRunning) (fail_attempt now stale) (attempts_of db (j_id j))"
    unfolding attempts_of_def by (rule filter_update_where) simp
  also have "\<dots> = ?old" by (auto simp: update_where_def attempts_of_mem)
  finally have "attempts_of (claim_row opts aid stale now j db) (j_id j)
      = ?old @ [new_attempt aid j (j_attempts j + 1) (co_worker opts) now]"
    using True by (simp add: claim_row_def Let_def attempts_of_def)
  moreover have "map a_id ?old = map a_id (attempts_of db (j_id j))" by (simp add: map_update_where)
  ultimately show ?thesis using stop_running that by blast
next
  case False
  have "job_ok (attempts_of db (j_id j)) j" using job_invD(3) assms(1,2) by blast
  with False have "list_all (\<lambda>a. a_status a \<noteq> AttRunning) (attempts_of db (j_id j))" by (simp add: job_ok_def)
  moreover have "attempts_of (claim_row opts aid stale now j db) (j_id j)
      = attempts_of db (j_id j) @ [new_attempt aid j (j_attempts j + 1) (co_worker opts) now]"
    using False by (simp add: claim_row_def Let_def attempts_of_def)
  ultimately show ?thesis using that by blast
qed

lemma attempts_of_claim_other:
  assumes "i \<noteq> j_id j"
  shows "attempts_of (claim_row opts aid stale now j db) i = attempts_of db i"
proof -
  have "filter (\<lambda>a. a_job a = i)
      (update_where (\<lambda>a. a_job a = j_id j \<and> a_status a = AttRunning) (fail_attempt now stale) (attempts db))
    = update_where (\<lambda>a. a_job a = j_id j \<and> a_status a = AttRunning) (fail_attempt now stale) (attempts_of db i)"
    unfolding attempts_of_def by (rule filter_update_where) simp
  also have "\<dots> = attempts_of db i" using assms by (intro update_where_same) (auto simp: attempts_of_mem)
  finally show ?thesis using assms by (auto simp: claim_row_def Let_def attempts_of_def)
qed

lemma claim_row_jobs:
  "jobs (claim_row opts aid stale now j db) = update_where (\<lambda>q. j_id q = j_id j)
     (take_lease now (value_or (co_lease_ms opts) 60000) (co_worker opts) (j_attempts j + 1)) (jobs db)"
  by (simp add: claim_row_def Let_def)

lemma claim_row_attempt_ids:
  "map a_id (attempts (claim_row opts aid stale now j db)) = map a_id (attempts db) @ [aid]"
  "a_job ` set (attempts (claim_row opts aid stale now j db)) = insert (j_id j) (a_job ` set (attempts db))"
proof -
  have "map a_job (attempts (claim_row opts aid stale now j db)) = map a_job (attempts db) @ [j_id j]"
    by (simp add: claim_row_def Let_def map_update_where)
  then have "set (map a_job (attempts (claim_row opts aid stale now j db))) = set (map a_job (attempts db) @ [j_id j])"
    by (rule arg_cong)
  then show "a_job ` set (attempts (claim_row opts aid stale now j db)) = insert (j_id j) (a_job ` set (attempts db))"
    by simp
qed (simp add: claim_row_def Let_def map_update_where)

lemma job_inv_claim_row:
  assumes "job_inv db" and "j \<in> set (jobs db)" and "claimable flt now j" and "aid \<notin> a_id ` set (attempts db)"
  shows "job_inv (claim_row opts aid stale now j db)" (is "job_inv ?db'")
proof (rule job_inv_update [OF assms(1)])
  show "map j_id (jobs ?db') = map j_id (jobs db)" "map j_key (jobs ?db') = map j_key (jobs db)"
    by (simp_all add: claim_row_jobs map_update_where)
  show "distinct (map a_id (attempts ?db'))"
    using job_invD(2) [OF assms(1)] assms(4) by (simp add: claim_row_attempt_ids)
  show "a_job ` set (attempts ?db') \<subseteq> j_id ` set (jobs db)"
    using assms(1,2) by (auto simp: job_inv_def claim_row_attempt_ids)
next
  fix q
  assume "q \<in> set (jobs ?db')"
  then obtain q0 where q0: "q0 \<in> set (jobs db)" and q: "q = (if j_id q0 = j_id j
      then take_lease now (value_or (co_lease_ms opts) 60000) (co_worker opts) (j_attempts j + 1) q0 else q0)"
    by (auto simp: claim_row_jobs set_update_where)
  show "job_ok (attempts_of ?db' (j_id q)) q"
  proof (cases "j_id q0 = j_id j")
    case True
    then have "q0 = j" using same_idD [OF job_invD(1) [OF assms(1)]] q0 assms(2) by blast
    have ok: "job_ok (attempts_of db (j_id j)) j" using job_invD(3) assms(1,2) by blast
    obtain old where old: "attempts_of ?db' (j_id j) = old @ [new_attempt aid j (j_attempts j + 1) (co_worker opts) now]"
      "list_all (\<lambda>a. a_status a \<noteq> AttRunning) old" "map a_number old = map a_number (attempts_of db (j_id j))"
      by (rule attempts_of_claim [OF assms(1-3)])
    have len: "length old = length (attempts_of db (j_id j))" using old(3) by (metis length_map)
    have qj: "q = take_lease now (value_or (co_lease_ms opts) 60000) (co_worker opts) (j_attempts j + 1) j"
      using q \<open>q0 = j\<close> by simp
    have "j_attempts j < j_max j" using claimable_status [OF assms(3)] by simp
    with ok old len show ?thesis unfolding qj take_lease_keeps old(1) by (simp add: job_ok_def)
  next
    case False
    with q q0 job_invD(3) [OF assms(1)] show ?thesis by (simp add: attempts_of_claim_other)
  qed
qed

lemma claim_next_cases:
  assumes "claim_next opts aid stale now db = (db', r)" and "job_inv db"
  obtains (error) e where "db' = db" and "r = Inl e"
  | (idle) flt where "build_type_filter (co_types opts) (co_excluded opts) = Inr flt"
      and "db' = fail_expired flt now db" and "r = Inr None"
      and "filter (claimable flt now) (jobs db') = []"
  | (claimed) flt j q where "build_type_filter (co_types opts) (co_excluded opts) = Inr flt"
      and "first_due (filter (claimable flt now) (jobs (fail_expired flt now db))) = Some j"
      and "j \<in> set (jobs (fail_expired flt now db))" and "claimable flt now j"
      and "aid \<notin> a_id ` set (attempts (fail_expired flt now db))"
      and "db' = claim_row opts aid stale now j (fail_expired flt now db)"
      and "q = take_lease now (value_or (co_lease_ms opts) 60000) (co_worker opts) (j_attempts j + 1) j"
      and "q \<in> set (jobs db')" and "r = Inr (Some (q, aid, j_attempts j + 1))" and "job_inv db'"
proof (cases "build_type_filter (co_types opts) (co_excluded opts)")
  case (Inl e)
  with assms show ?thesis by (intro error) (auto simp: claim_next_def)
next
  case (Inr flt)
  let ?db1 = "fail_expired flt now db"
  have inv1: "job_inv ?db1" by (rule job_inv_fail_expired [OF assms(2)])
  show ?thesis
  proof (cases "first_due (filter (claimable flt now) (jobs ?db1))")
    case None
    then have "claim_next opts aid stale now db = (?db1, Inr None)" by (simp add: claim_next_def Inr Let_def)
    with assms(1) have r: "db' = ?db1" "r = Inr None" by simp_all
    have "filter (claimable flt now) (jobs db') = []" using None unfolding r(1) first_due_None .
    with Inr r show ?thesis by (rule idle)
  next
    case (Some j)
    from first_due_SomeD [OF Some] have j: "j \<in> set (jobs ?db1)" "claimable flt now j" by simp_all
    show ?thesis
    proof (cases "aid \<in> a_id ` set (attempts ?db1)")
      case True
      then have "claim_next opts aid stale now db = (db, Inl UniqueViolation)"
        by (simp add: claim_next_def Inr Let_def Some)
      with assms(1) show ?thesis by (intro error) auto
    next
      case False
      let ?q = "take_lease now (value_or (co_lease_ms opts) 60000) (co_worker opts) (j_attempts j + 1) j"
      let ?db2 = "claim_row opts aid stale now j ?db1"
      have inv2: "job_inv ?db2" by (rule job_inv_claim_row [OF inv1 j False])
      have q: "?q \<in> set (jobs ?db2)"
        using j(1) unfolding claim_row_jobs set_update_where by (intro image_eqI [of _ _ j]) simp_all
      have "find_job (j_id j) ?db2 = Some ?q" using find_job_some [OF inv2 q] by simp
      then have "claim_next opts aid stale now db = (?db2, Inr (Some (?q, aid, j_attempts j + 1)))"
        using False by (simp add: claim_next_def Inr Let_def Some)
      with assms(1) j q False inv2 show ?thesis by (intro claimed [OF Inr Some]) auto
    qed
  qed
qed

section \<open>Every reachable table satisfies the invariant\<close>

lemma job_inv_step: "job_step db db' \<Longrightarrow> job_inv db \<Longrightarrow> job_inv db'"
proof (erule job_stepE, goal_cases)
  case (2 opts aid stale now r)
  from 2(2,1) show ?case
    by (cases rule: claim_next_cases) (use 2(1) in \<open>simp_all add: job_inv_fail_expired\<close>)
next
  case (3 jid aid result now r)
  from 3(2,1) show ?case by (cases rule: complete_spec) (use 3(1) in simp_all)
next
  case (4 jid aid err terminal delay now r)
  from 4(2,1) show ?case by (cases rule: fail_spec) (use 4(1) in simp_all)
next
  case (5 jid aid worker lease now r)
  from 5(2,1) show ?case by (cases rule: extend_spec) (use 5(1) in simp_all)
next
  case (6 h)
  then have "jobs db' = jobs db" "attempts db' = attempts db" by (auto simp: heartbeat_def)
  with 6(1) show ?case by (simp add: job_inv_def job_keys_def attempts_of_def)
qed (simp add: job_inv_enqueue)

lemma job_inv_steps: "job_step\<^sup>*\<^sup>* db db' \<Longrightarrow> job_inv db \<Longrightarrow> job_inv db'"
  by (induction rule: rtranclp_induct) (simp_all add: job_inv_step)

lemma job_inv_reachable: "job_reachable db \<Longrightarrow> job_inv db"
  unfolding job_reachable_def by (erule job_inv_steps) (rule job_inv_empty)

section \<open>The contract a job handler relies on\<close>

text \<open>
  A lease store: authority of an attempt over a job at a time.  A handler that checks authority
  before it writes relies on exclusiveness and on every operation keeping the store sound.
\<close>

locale lease_authority =
  fixes store_ok :: "'s \<Rightarrow> bool"
    and authority :: "'s \<Rightarrow> jstr \<Rightarrow> jstr \<Rightarrow> int \<Rightarrow> bool"
    and advance :: "'s \<Rightarrow> 's \<Rightarrow> bool"
  assumes exclusive: "store_ok s \<Longrightarrow> authority s j a t \<Longrightarrow> authority s j a' t' \<Longrightarrow> a = a'"
    and earlier: "store_ok s \<Longrightarrow> authority s j a t \<Longrightarrow> t' \<le> t \<Longrightarrow> authority s j a t'"
    and advance_ok: "store_ok s \<Longrightarrow> advance s s' \<Longrightarrow> store_ok s'"
begin

lemma advance_many: "advance\<^sup>*\<^sup>* s s' \<Longrightarrow> store_ok s \<Longrightarrow> store_ok s'"
  by (induction rule: rtranclp_induct) (simp_all add: advance_ok)

lemma sole_holder:
  assumes "store_ok s" and "advance\<^sup>*\<^sup>* s s'" and "authority s' j a t"
  shows "authority s' j b t' \<Longrightarrow> b = a"
  using exclusive [OF advance_many [OF assms(2,1)]] assms(3) by blast

end

lemma authority_last:
  "job_inv db \<Longrightarrow> has_authority db jid aid now w \<Longrightarrow> aid = a_id (last (attempts_of db jid))"
  by (erule authority_cases) auto

interpretation jq: lease_authority job_inv "\<lambda>db j a t. has_authority db j a t None" job_step
proof
  fix db j a t a' t'
  assume "job_inv db" "has_authority db j a t None" "has_authority db j a' t' None"
  then show "a = a'" using authority_last by metis
next
  fix db j a t t'
  assume "job_inv db" "has_authority db j a t None" "(t' :: int) \<le> t"
  then show "has_authority db j a t' None"
    by (force simp: has_authority_iff holds_def split: option.splits)
qed (rule job_inv_step)

end
