(* ===== verification/Job_Queue_Theorems.thy ===== *)
theory Job_Queue_Theorems
  imports Job_Queue_Facts
begin

text \<open>
  The theorems of the job queue: leases are exclusive, settling needs authority and never
  throws, a claim takes the first due job and fences every older attempt, settled jobs stay,
  enqueuing is idempotent, and the tables refine an abstract life cycle of a job.
\<close>

section \<open>The life cycle of one job\<close>

text \<open>Attempts used so far and, for a leased job, its worker; \<open>m\<close> is the maximum.\<close>

datatype job_phase = Waiting int | Leased int jstr | Succeeded int | Dead int

inductive phase_step :: "int \<Rightarrow> job_phase \<Rightarrow> job_phase \<Rightarrow> bool" for m :: int where
  phase_claim: "n < m \<Longrightarrow> phase_step m (Waiting n) (Leased (n + 1) w)"
| phase_reclaim: "n < m \<Longrightarrow> phase_step m (Leased n v) (Leased (n + 1) w)"
| phase_succeed: "phase_step m (Leased n w) (Succeeded n)"
| phase_retry: "n < m \<Longrightarrow> phase_step m (Leased n w) (Waiting n)"
| phase_die: "phase_step m (Leased n w) (Dead n)"

fun phase_of :: "job_row \<Rightarrow> job_phase" where
  "phase_of j = (case j_status j of
     JPending \<Rightarrow> Waiting (j_attempts j)
   | JRunning \<Rightarrow> Leased (j_attempts j) (value_or (j_owner j) [])
   | JCompleted \<Rightarrow> Succeeded (j_attempts j)
   | JFailed \<Rightarrow> Dead (j_attempts j))"

declare phase_of.simps [simp del]

inductive_simps phase_step_simps:
  "phase_step m (Waiting n) p" "phase_step m (Leased n w) p" "phase_step m (Succeeded n) p" "phase_step m (Dead n) p"

section \<open>How each operation changes a job\<close>

lemma find_job_iff: "job_inv db \<Longrightarrow> find_job i db = Some j \<longleftrightarrow> j \<in> set (jobs db) \<and> j_id j = i"
  using find_job_some [of db j] find_memberD [of "\<lambda>j. j_id j = i" "jobs db" j]
  by (auto simp: find_job_def)

text \<open>Row by row: what is left of a job after an operation.\<close>

definition row_kept :: "job_db \<Rightarrow> job_db \<Rightarrow> bool" where
  "row_kept db db' \<longleftrightarrow> (\<forall>j \<in> set (jobs db). \<exists>j' \<in> set (jobs db').
     j_id j' = j_id j \<and> j_key j' = j_key j \<and> j_max j' = j_max j \<and> (phase_of j' = phase_of j \<or> phase_step (j_max j) (phase_of j) (phase_of j'))
     \<and> (j_status j \<in> {JCompleted, JFailed} \<longrightarrow> j' = j))"

lemma row_kept_refl: "row_kept db db"
  by (auto simp: row_kept_def)

lemma row_kept_update:
  assumes "jobs db' = update_where Q g (jobs db)"
    and "\<And>j. j \<in> set (jobs db) \<Longrightarrow> Q j \<Longrightarrow> j_status j \<notin> {JCompleted, JFailed} \<and> j_id (g j) = j_id j
      \<and> j_key (g j) = j_key j \<and> j_max (g j) = j_max j
      \<and> (phase_of (g j) = phase_of j \<or> phase_step (j_max j) (phase_of j) (phase_of (g j)))"
  shows "row_kept db db'"
  unfolding row_kept_def
proof
  fix j
  assume j: "j \<in> set (jobs db)"
  then have mem: "(if Q j then g j else j) \<in> set (jobs db')" by (auto simp: assms(1) set_update_where)
  show "\<exists>j' \<in> set (jobs db').
     j_id j' = j_id j \<and> j_key j' = j_key j \<and> j_max j' = j_max j \<and> (phase_of j' = phase_of j \<or> phase_step (j_max j) (phase_of j) (phase_of j'))
     \<and> (j_status j \<in> {JCompleted, JFailed} \<longrightarrow> j' = j)"
  proof (cases "Q j")
    case True
    with assms(2) [OF j True] mem show ?thesis by (intro bexI [of _ "g j"]) simp_all
  next
    case False
    with mem show ?thesis by (intro bexI [of _ j]) simp_all
  qed
qed

lemma row_kept_fail_expired: "row_kept db (fail_expired flt now db)"
  by (rule row_kept_update [OF fail_expired_jobs])
    (auto simp: exhausted_def phase_of.simps dest!: lease_over_running intro: phase_step.intros)

lemma claimable_fail_expired:
  assumes "j \<in> set (jobs (fail_expired flt now db))" and "claimable flt' now j"
  shows "j \<in> set (jobs db) \<and> \<not> exhausted flt now j"
proof -
  from assms(1) obtain j0 where j0: "j0 \<in> set (jobs db)" "j = (if exhausted flt now j0 then expire_job now j0 else j0)"
    by (auto simp: fail_expired_jobs set_update_where)
  moreover have "\<not> exhausted flt now j0"
    using assms(2) j0(2) claimable_status [OF assms(2)] by (auto split: if_splits)
  ultimately show ?thesis by simp
qed

lemma row_kept_claim:
  assumes inv: "job_inv db" and j: "j \<in> set (jobs (fail_expired flt now db))" and c: "claimable flt now j"
  shows "row_kept db (claim_row opts aid stale now j (fail_expired flt now db))"
proof -
  let ?lease = "take_lease now (value_or (co_lease_ms opts) 60000) (co_worker opts) (j_attempts j + 1)"
  let ?g = "\<lambda>q. if exhausted flt now q then expire_job now q else ?lease q"
  have keep: "j \<in> set (jobs db)" "\<not> exhausted flt now j" using claimable_fail_expired [OF j c] by simp_all
  have "jobs (claim_row opts aid stale now j (fail_expired flt now db))
      = update_where (\<lambda>q. exhausted flt now q \<or> j_id q = j_id j) ?g (jobs db)"
    unfolding claim_row_jobs fail_expired_jobs update_where_def map_map
  proof (rule map_cong [OF refl])
    fix q
    assume q: "q \<in> set (jobs db)"
    have "q = j" if "j_id q = j_id j" using same_idD [OF job_invD(1) [OF inv] q keep(1) that] .
    then show "((\<lambda>r. if j_id r = j_id j then ?lease r else r) \<circ> (\<lambda>r. if exhausted flt now r then expire_job now r else r)) q
        = (if exhausted flt now q \<or> j_id q = j_id j then ?g q else q)"
      using keep(2) by auto
  qed
  then show ?thesis
  proof (rule row_kept_update)
    fix q
    assume q: "q \<in> set (jobs db)" and "exhausted flt now q \<or> j_id q = j_id j"
    then consider "exhausted flt now q" | "\<not> exhausted flt now q" "q = j"
      using same_idD [OF job_invD(1) [OF inv] q keep(1)] by blast
    then show "j_status q \<notin> {JCompleted, JFailed} \<and> j_id (?g q) = j_id q \<and> j_key (?g q) = j_key q \<and> j_max (?g q) = j_max q
      \<and> (phase_of (?g q) = phase_of q \<or> phase_step (j_max q) (phase_of q) (phase_of (?g q)))"
    proof cases
      case 1
      then show ?thesis by (auto simp: exhausted_def phase_of.simps dest!: lease_over_running intro: phase_step.intros)
    next
      case 2
      with claimable_status [OF c] show ?thesis by (auto simp: value_or_def phase_of.simps intro: phase_step.intros)
    qed
  qed
qed

lemma row_kept_step:
  assumes "job_step db db'" and inv: "job_inv db"
  shows "row_kept db db'"
  using assms(1)
proof (cases rule: job_step.cases)
  case (step_enqueue inp fresh clock r)
  from step_enqueue show ?thesis
    by (cases rule: enqueue_cases) (auto simp: row_kept_refl, auto simp: row_kept_def)
next
  case (step_claim opts aid stale now r)
  from step_claim inv show ?thesis
  proof (cases rule: claim_next_cases)
    case (claimed flt j q)
    with row_kept_claim [OF inv] show ?thesis by blast
  qed (auto simp: row_kept_refl row_kept_fail_expired)
next
  case (step_complete jid aid result now r)
  from step_complete inv show ?thesis
  proof (cases rule: complete_spec)
    case settled
    show ?thesis
      by (rule row_kept_update [where Q = "\<lambda>j. j_id j = jid \<and> j_status j = JRunning"])
        (auto simp: settled(4) phase_of.simps intro: phase_step.intros)
  qed (simp add: row_kept_refl)
next
  case (step_fail jid aid err terminal delay now r)
  from step_fail inv show ?thesis
  proof (cases rule: fail_spec)
    case (settled row retry)
    have room: "j_attempts j < j_max j" if "retry" "j \<in> set (jobs db)" "j_id j = jid" for j
      using that settled(4,5) find_job_some [OF inv that(2)] by simp
    from settled(6) have "jobs db' = update_where (\<lambda>j. j_id j = jid \<and> j_status j = JRunning)
        (\<lambda>j. j\<lparr>j_status := (if retry then JPending else JFailed),
                   j_scheduled := (if retry then now + value_or delay 0 else now),
                   j_completed := (if retry then None else Some now), j_updated := now,
                   j_error := Some err, j_owner := None, j_lease := None, j_heartbeat := Some now\<rparr>) (jobs db)"
      by simp
    then show ?thesis
      by (rule row_kept_update) (cases retry; auto simp: phase_of.simps dest: room intro: phase_step.intros)
  qed (simp add: row_kept_refl)
next
  case (step_extend jid aid worker lease now r)
  from step_extend inv show ?thesis
  proof (cases rule: extend_spec)
    case settled
    show ?thesis
      by (rule row_kept_update [where Q = "\<lambda>j. j_id j = jid \<and> j_status j = JRunning \<and> j_owner j = Some worker"])
        (auto simp: settled(4) value_or_def phase_of.simps)
  qed (simp add: row_kept_refl)
next
  case (step_heartbeat h)
  then have "jobs db' = jobs db" by (auto simp: heartbeat_def)
  then show ?thesis by (auto simp: row_kept_def)
qed

lemma row_kept_trans:
  assumes "row_kept db db1" and "row_kept db1 db2" and "j \<in> set (jobs db)" and "j_status j \<in> {JCompleted, JFailed}"
  shows "j \<in> set (jobs db2)"
  using assms unfolding row_kept_def by blast

lemma settled_kept:
  "job_step\<^sup>*\<^sup>* db db' \<Longrightarrow> job_inv db \<Longrightarrow> j \<in> set (jobs db) \<Longrightarrow> j_status j \<in> {JCompleted, JFailed} \<Longrightarrow>
    j \<in> set (jobs db')"
proof (induction rule: rtranclp_induct)
  case (step db1 db2)
  then have "row_kept db1 db2" by (intro row_kept_step job_inv_steps [of db db1])
  with step show ?case unfolding row_kept_def by blast
qed

lemma key_kept:
  "job_step\<^sup>*\<^sup>* db db' \<Longrightarrow> job_inv db \<Longrightarrow> j \<in> set (jobs db) \<Longrightarrow>
    \<exists>j' \<in> set (jobs db'). j_id j' = j_id j \<and> j_key j' = j_key j"
proof (induction rule: rtranclp_induct)
  case (step db1 db2)
  then have "row_kept db1 db2" by (intro row_kept_step job_inv_steps [of db db1])
  moreover from step obtain j1 where "j1 \<in> set (jobs db1)" "j_id j1 = j_id j" "j_key j1 = j_key j" by blast
  ultimately show ?case unfolding row_kept_def by metis
qed blast

lemma find_by_key_unique:
  assumes "job_inv db" and "j \<in> set (jobs db)" and "j_key j = Some k" and "k \<noteq> []"
  shows "find_by_key (Some k) db = Some j"
proof -
  have "find (\<lambda>j. j_key j = Some k) js = Some j"
    if "distinct (filter (\<lambda>k. k \<noteq> None) (map j_key js))" "j \<in> set js" for js
    using that
  proof (induction js)
    case (Cons x js)
    show ?case
    proof (cases "j_key x = Some k")
      case True
      have "x = j"
      proof (rule ccontr)
        assume "x \<noteq> j"
        with Cons.prems have "j \<in> set js" by simp
        with assms(3) have "Some k \<in> set (filter (\<lambda>k. k \<noteq> None) (map j_key js))" by force
        with Cons.prems(1) True show False by simp
      qed
      with True show ?thesis by simp
    next
      case False
      with assms(3) have "x \<noteq> j" by auto
      with Cons False show ?thesis by (auto split: if_splits)
    qed
  qed simp
  with assms show ?thesis by (simp add: find_by_key_def job_inv_def job_keys_def)
qed

section \<open>Properties\<close>

text \<open>
  C8. In every reachable table a job has as many attempt rows as its counter says, numbered
  1, 2, \<dots> in order and never more than its maximum; it is running exactly when its last
  attempt is, the lease then belongs to that attempt's worker, and no other attempt of the job
  is running.
\<close>

theorem job_table_consistent:
  assumes "job_reachable db" and "j \<in> set (jobs db)" and "as = filter (\<lambda>a. a_job a = j_id j) (attempts db)"
  shows "j_attempts j = int (length as) \<and> j_attempts j \<le> max 0 (j_max j)
    \<and> map a_number as = map (\<lambda>n. int (Suc n)) [0..<length as]
    \<and> (j_status j = JRunning \<longleftrightarrow> as \<noteq> [] \<and> a_status (last as) = AttRunning)
    \<and> (j_status j = JRunning \<longrightarrow> j_owner j = Some (a_worker (last as)))
    \<and> length (filter (\<lambda>a. a_status a = AttRunning) as) \<le> 1"
proof -
  have ok: "job_ok as j"
    using job_invD(3) [OF job_inv_reachable [OF assms(1)] assms(2)] by (simp add: assms(3) attempts_of_def)
  show ?thesis
  proof (cases "j_status j = JRunning")
    case True
    with ok have "list_all (\<lambda>a. a_status a \<noteq> AttRunning) (butlast as)" "as \<noteq> []" by (simp_all add: job_ok_def)
    then have "length (filter (\<lambda>a. a_status a = AttRunning) as) \<le> 1"
      by (cases as rule: rev_cases) (simp_all add: list_all_iff filter_empty_conv)
    with True ok show ?thesis unfolding job_ok_def by simp
  next
    case False
    then have none: "list_all (\<lambda>a. a_status a \<noteq> AttRunning) as" using ok by (simp add: job_ok_def)
    then have "filter (\<lambda>a. a_status a = AttRunning) as = []" by (simp add: list_all_iff filter_empty_conv)
    moreover have "as \<noteq> [] \<Longrightarrow> a_status (last as) \<noteq> AttRunning" using none by (simp add: list_all_iff)
    ultimately show ?thesis using False ok unfolding job_ok_def by auto
  qed
qed

text \<open>
  Leases are exclusive: two attempts that both have authority over a job, at whatever
  times they ask, are the same attempt, and a worker that has authority is the lease owner.
\<close>

theorem job_lease_exclusive:
  assumes "job_reachable db" and "has_authority db jid aid now w" and "has_authority db jid aid' now' w'"
  shows "aid = aid' \<and> (w = None \<or> w' = None \<or> w = w')"
proof -
  have inv: "job_inv db" by (rule job_inv_reachable [OF assms(1)])
  from inv assms(2) obtain j where j: "j \<in> set (jobs db)" "j_id j = jid" "a_id (last (attempts_of db jid)) = aid"
    "w = None \<or> w = j_owner j" by (rule authority_cases)
  from inv assms(3) obtain j' where j': "j' \<in> set (jobs db)" "j_id j' = jid" "a_id (last (attempts_of db jid)) = aid'"
    "w' = None \<or> w' = j_owner j'" by (rule authority_cases)
  have "j = j'" using same_idD [OF job_invD(1) [OF inv]] j j' by simp
  with j j' show ?thesis by auto
qed

text \<open>
  Completing, failing and extending succeed exactly under authority; without it they
  return false and change nothing, and in a reachable table they never throw.
\<close>

theorem job_settle_needs_authority:
  assumes "job_reachable db"
  shows "snd (complete_job jid aid result now db) = Inr (has_authority db jid aid now None)
    \<and> snd (fail_job jid aid err terminal delay now db) = Inr (has_authority db jid aid now None)
    \<and> snd (extend_lease jid aid worker lease now db) = Inr (has_authority db jid aid now (Some worker))
    \<and> (\<not> has_authority db jid aid now None \<longrightarrow> fst (complete_job jid aid result now db) = db
         \<and> fst (fail_job jid aid err terminal delay now db) = db)
    \<and> (\<not> has_authority db jid aid now (Some worker) \<longrightarrow> fst (extend_lease jid aid worker lease now db) = db)"
proof -
  have inv: "job_inv db" by (rule job_inv_reachable [OF assms])
  obtain db1 r1 where c: "complete_job jid aid result now db = (db1, r1)" by fastforce
  obtain db2 r2 where f: "fail_job jid aid err terminal delay now db = (db2, r2)" by fastforce
  obtain db3 r3 where x: "extend_lease jid aid worker lease now db = (db3, r3)" by fastforce
  from c inv have "r1 = Inr (has_authority db jid aid now None)"
    "\<not> has_authority db jid aid now None \<longrightarrow> db1 = db" by (cases rule: complete_spec; simp)+
  moreover from f inv have "r2 = Inr (has_authority db jid aid now None)"
    "\<not> has_authority db jid aid now None \<longrightarrow> db2 = db" by (cases rule: fail_spec; simp)+
  moreover from x inv have "r3 = Inr (has_authority db jid aid now (Some worker))"
    "\<not> has_authority db jid aid now (Some worker) \<longrightarrow> db3 = db" by (cases rule: extend_spec; simp)+
  ultimately show ?thesis by (simp add: c f x)
qed

text \<open>
  A claim takes the first due job: the job it returns was claimable (pending and due, or
  running with its lease over, with attempts left), no claimable job of the filter comes
  before it in (scheduled, created) order, its attempt counter goes up by one, and the new
  attempt has authority until the lease ends.
\<close>

theorem job_claim_first_due:
  assumes "job_reachable db" and "claim_next opts aid stale now db = (db', Inr (Some (q, aid', n)))"
  shows "\<exists>flt j. build_type_filter (co_types opts) (co_excluded opts) = Inr flt \<and> j \<in> set (jobs db)
    \<and> claimable flt now j \<and> (\<forall>p \<in> set (jobs db). claimable flt now p \<longrightarrow> due_before j p)
    \<and> j_id q = j_id j \<and> n = j_attempts j + 1 \<and> n \<le> j_max j \<and> j_attempts q = n \<and> aid' = aid
    \<and> q \<in> set (jobs db') \<and> j_lease q = Some (now + value_or (co_lease_ms opts) 60000)
    \<and> (\<forall>t. t < now + value_or (co_lease_ms opts) 60000 \<longrightarrow> has_authority db' (j_id q) aid t (Some (co_worker opts)))"
proof -
  have inv: "job_inv db" by (rule job_inv_reachable [OF assms(1)])
  from assms(2) inv show ?thesis
  proof (cases rule: claim_next_cases)
    case (claimed flt j q')
    have q: "q' = q" "aid' = aid" "n = j_attempts j + 1" using claimed(9) by simp_all
    let ?db1 = "fail_expired flt now db"
    have inv1: "job_inv ?db1" by (rule job_inv_fail_expired [OF inv])
    have j: "j \<in> set (jobs db)" using claimable_fail_expired [OF claimed(3,4)] by simp
    have first: "due_before j p" if p: "p \<in> set (jobs db)" "claimable flt now p" for p
    proof -
      have "\<not> exhausted flt now p" using claimable_status [OF p(2)] by (simp add: exhausted_def)
      with p(1) have "p \<in> set (jobs ?db1)" unfolding fail_expired_jobs set_update_where by (intro image_eqI [of _ _ p]) simp_all
      with first_due_SomeD [OF claimed(2)] p(2) show ?thesis by simp
    qed
    obtain old where old: "attempts_of db' (j_id j) = old @ [new_attempt aid j (j_attempts j + 1) (co_worker opts) now]"
      unfolding claimed(6) by (rule attempts_of_claim [OF inv1 claimed(3,4)])
    have qf: "j_id q = j_id j" "j_attempts q = n" "j_status q = JRunning"
      "j_owner q = Some (co_worker opts)" "j_lease q = Some (now + value_or (co_lease_ms opts) 60000)"
      using claimed(7) q by simp_all
    have "has_authority db' (j_id q) aid t (Some (co_worker opts))" if "t < now + value_or (co_lease_ms opts) 60000" for t
    proof -
      have "new_attempt aid j (j_attempts j + 1) (co_worker opts) now \<in> set (attempts_of db' (j_id j))"
        using old by simp
      then have "new_attempt aid j (j_attempts j + 1) (co_worker opts) now \<in> set (attempts db')"
        unfolding attempts_of_mem ..
      moreover have "holds q (new_attempt aid j (j_attempts j + 1) (co_worker opts) now) t"
        using qf q that by (simp add: holds_def)
      ultimately show ?thesis
        unfolding has_authority_iff [OF claimed(10)] using claimed(8) q(1) by force
    qed
    moreover have "n \<le> j_max j" using claimable_status [OF claimed(4)] q by simp
    ultimately show ?thesis using claimed(1,4,8) j first qf q by blast
  qed auto
qed

text \<open>
  A claim that returns nothing leaves no work behind: no job of the filter was claimable.
\<close>

theorem job_claim_none:
  assumes "job_reachable db" and "claim_next opts aid stale now db = (db', Inr None)"
  shows "\<exists>flt. build_type_filter (co_types opts) (co_excluded opts) = Inr flt
    \<and> (\<forall>p \<in> set (jobs db). \<not> claimable flt now p)"
proof -
  have inv: "job_inv db" by (rule job_inv_reachable [OF assms(1)])
  from assms(2) inv show ?thesis
  proof (cases rule: claim_next_cases)
    case (idle flt)
    have "\<not> claimable flt now p" if p: "p \<in> set (jobs db)" for p
    proof
      assume c: "claimable flt now p"
      then have "\<not> exhausted flt now p" using claimable_status [OF c] by (simp add: exhausted_def)
      with p have "p \<in> set (jobs db')"
        unfolding idle(2) fail_expired_jobs set_update_where by (intro image_eqI [of _ _ p]) simp_all
      with idle(4) c show False by (simp add: filter_empty_conv)
    qed
    with idle(1) show ?thesis by blast
  qed auto
qed

text \<open>
  C9. A claim fences off every older attempt of the job: whatever an earlier worker later asks
  for in that state, its completion, failure or extension returns false and changes nothing.
\<close>

theorem job_claim_fences:
  assumes "job_reachable db" and "claim_next opts aid stale now db = (db', Inr (Some (q, aid', n)))" and "old \<noteq> aid"
  shows "complete_job (j_id q) old result t db' = (db', Inr False)
    \<and> fail_job (j_id q) old err terminal delay t db' = (db', Inr False)
    \<and> extend_lease (j_id q) old worker lease t db' = (db', Inr False)"
proof -
  have inv: "job_inv db" by (rule job_inv_reachable [OF assms(1)])
  have "\<not> has_authority db' (j_id q) old t w" for w
    using assms(2) inv
  proof (cases rule: claim_next_cases)
    case (claimed flt j q')
    have qj: "j_id q = j_id j" using claimed(7,9) by simp
    obtain past where "attempts_of db' (j_id j) = past @ [new_attempt aid j (j_attempts j + 1) (co_worker opts) now]"
      unfolding claimed(6) by (rule attempts_of_claim [OF job_inv_fail_expired [OF inv] claimed(3,4)])
    then have last: "a_id (last (attempts_of db' (j_id q))) = aid" by (simp add: qj)
    show ?thesis
    proof
      assume "has_authority db' (j_id q) old t w"
      with claimed(10) have "a_id (last (attempts_of db' (j_id q))) = old" by (rule authority_cases)
      with last assms(3) show False by simp
    qed
  qed auto
  then show ?thesis by (simp add: complete_job_def fail_job_def extend_lease_def)
qed

text \<open>
  Settled jobs stay: once a job is completed or failed for good, no later operation changes
  any column of its row.
\<close>

theorem job_terminal_absorbing:
  assumes "job_reachable db" and "j \<in> set (jobs db)" and "j_status j \<in> {JCompleted, JFailed}"
    and "job_step\<^sup>*\<^sup>* db db'"
  shows "find_job (j_id j) db' = Some j"
proof -
  have inv: "job_inv db" by (rule job_inv_reachable [OF assms(1)])
  from settled_kept [OF assms(4) inv assms(2,3)] find_job_some [OF job_inv_steps [OF assms(4) inv]]
  show ?thesis by blast
qed

text \<open>
  Enqueuing is idempotent: once a job was enqueued under a non-empty key, any enqueue under
  the same key, however much later and whatever else it asks for, returns that job's id and
  changes nothing.
\<close>

theorem job_enqueue_idempotent:
  assumes "job_reachable db" and "enqueue inp fresh clock db = (db1, Inr i)"
    and "eq_key inp = Some k" and "k \<noteq> []" and "job_step\<^sup>*\<^sup>* db1 db2" and "eq_key inp' = Some k"
  shows "enqueue inp' fresh' clock' db2 = (db2, Inr i)"
proof -
  have inv: "job_inv db" by (rule job_inv_reachable [OF assms(1)])
  have inv1: "job_inv db1" by (rule job_inv_enqueue [OF assms(2) inv])
  from assms(2) obtain j where "j \<in> set (jobs db1)" "j_key j = Some k" "j_id j = i"
  proof (cases rule: enqueue_cases)
    case (existing j k')
    with that [of j] assms(3) show ?thesis by auto
  next
    case (new i' payload)
    with that [of "new_job inp i payload (value_or (eq_now inp) clock)"] assms(3)
    show ?thesis by (auto simp: new_job_def)
  qed simp
  with key_kept [OF assms(5) inv1] obtain j2 where "j2 \<in> set (jobs db2)" "j_key j2 = Some k" "j_id j2 = i" by metis
  then have "find_by_key (Some k) db2 = Some j2 \<and> j_id j2 = i"
    using find_by_key_unique [OF job_inv_steps [OF assms(5) inv1]] assms(4) by blast
  with assms(6) show ?thesis by (simp add: enqueue_def)
qed

text \<open>
  C10. The tables refine the life cycle of a job: seen through its phase, every operation leaves
  each job where it is or moves it by one step of \<open>phase_step\<close>, which claims at most the
  maximum number of times and has no way out of success or death.
\<close>

theorem job_refines_lifecycle:
  assumes "job_reachable db" and "job_step db db'" and "j \<in> set (jobs db)"
  shows "\<exists>j'. find_job (j_id j) db' = Some j' \<and> j_max j' = j_max j
    \<and> (phase_of j' = phase_of j \<or> phase_step (j_max j) (phase_of j) (phase_of j'))"
proof -
  have inv: "job_inv db" by (rule job_inv_reachable [OF assms(1)])
  from row_kept_step [OF assms(2) inv] assms(3) obtain j' where j': "j' \<in> set (jobs db')" "j_id j' = j_id j"
    "j_max j' = j_max j" "phase_of j' = phase_of j \<or> phase_step (j_max j) (phase_of j) (phase_of j')"
    unfolding row_kept_def by blast
  have "find_job (j_id j') db' = Some j'" by (rule find_job_some [OF job_inv_step [OF assms(2) inv] j'(1)])
  with j' show ?thesis by auto
qed

text \<open>
  An empty key is no key to the lookup but one to the unique index: the second enqueue under it
  throws instead of returning the first job.
\<close>

theorem enqueue_empty_key_throws:
  assumes "job_reachable db" and "enqueue inp fresh clock db = (db1, Inr i)" and "eq_key inp = Some []"
    and "eq_key inp' = Some []" and "eq_payload inp' = Some p"
  shows "enqueue inp' fresh' clock' db1 = (db1, Inl UniqueViolation)"
proof -
  from assms(2) have "Some [] \<in> j_key ` set (jobs db1)"
    by (cases rule: enqueue_cases) (use assms(3) in \<open>auto simp: new_job_def\<close>)
  with assms(4,5) show ?thesis by (auto simp: enqueue_def find_by_key_def Let_def)
qed

section \<open>Concrete instances\<close>

definition jq_input :: enqueue_input where
  "jq_input = \<lparr>eq_id = Some [106], eq_type = [116], eq_payload = Some (JObj []), eq_key = Some [107],
     eq_scheduled = None, eq_max = None, eq_now = Some 10\<rparr>"

definition jq_row :: job_row where
  "jq_row = new_job jq_input [106] (JObj []) 10"

definition jq_pending :: job_db where
  "jq_pending = \<lparr>jobs = [jq_row], attempts = [], heartbeats = []\<rparr>"

definition jq_options :: claim_options where
  "jq_options = \<lparr>co_worker = [119], co_lease_ms = None, co_types = None, co_excluded = None\<rparr>"

definition jq_claimed_row :: job_row where
  "jq_claimed_row = take_lease 20 60000 [119] 1 jq_row"

definition jq_running :: job_db where
  "jq_running = \<lparr>jobs = [jq_claimed_row], attempts = [new_attempt [97] jq_row 1 [119] 20], heartbeats = []\<rparr>"

lemma jq_enqueue: "enqueue jq_input [] 0 empty_jobs = (jq_pending, Inr [106])"
  by (simp add: enqueue_def find_by_key_def jq_input_def empty_jobs_def value_or_def jq_pending_def jq_row_def Let_def)

lemma jq_row_fields: "j_id jq_row = [106]" "j_status jq_row = JPending" "j_attempts jq_row = 0" "j_max jq_row = 3"
  "j_scheduled jq_row = 10" "j_type jq_row = [116]" "j_key jq_row = Some [107]"
  by (simp_all add: jq_row_def new_job_def jq_input_def value_or_def)

lemma jq_claim: "claim_next jq_options [97] [] 20 jq_pending = (jq_running, Inr (Some (jq_claimed_row, [97], 1)))"
  by (simp add: claim_next_def build_type_filter_def jq_options_def value_or_def fail_expired_def update_where_def
      jq_pending_def exhausted_def lease_over_def claimable_def jq_row_fields claim_row_def find_job_def
      jq_claimed_row_def jq_running_def)

lemma jq_reach0: "job_reachable empty_jobs"
  by (simp add: job_reachable_def)

lemma jq_reach1: "job_reachable jq_pending"
  using step_enqueue [OF jq_enqueue] by (simp add: job_reachable_def)

lemma jq_reach2: "job_reachable jq_running"
  using step_claim [OF jq_claim] jq_reach1 by (simp add: job_reachable_def)

lemma jq_claim_none: "\<exists>db'. claim_next jq_options [98] [] 5 jq_pending = (db', Inr None)"
  by (simp add: claim_next_def build_type_filter_def jq_options_def value_or_def fail_expired_def update_where_def
      jq_pending_def exhausted_def lease_over_def claimable_def jq_row_fields)

lemma jq_authority: "has_authority jq_running [106] [97] 30 None"
  by (simp add: has_authority_def authority_join_def jq_running_def jq_claimed_row_def jq_row_fields)

theorem job_table_consistent_witness: "j_attempts jq_claimed_row \<le> 3"
  using job_table_consistent [OF jq_reach2, of jq_claimed_row, OF _ refl]
  by (simp add: jq_running_def jq_claimed_row_def jq_row_fields)

theorem job_lease_exclusive_witness: "\<not> has_authority jq_running [106] [98] 30 None"
  using job_lease_exclusive [OF jq_reach2 jq_authority, of "[98]" 30 None] by auto

theorem job_settle_needs_authority_witness: "snd (complete_job [106] [97] None 30 jq_running) = Inr True"
  using job_settle_needs_authority [OF jq_reach2, of "[106]" "[97]" None 30] jq_authority by simp

theorem job_claim_first_due_witness: "\<exists>j. j \<in> set (jobs jq_pending) \<and> j_id jq_claimed_row = j_id j"
  using job_claim_first_due [OF jq_reach1 jq_claim] by blast

theorem job_claim_none_witness: "\<not> claimable AnyType 5 jq_row"
proof -
  from jq_claim_none obtain db' where "claim_next jq_options [98] [] 5 jq_pending = (db', Inr None)" by blast
  from job_claim_none [OF jq_reach1 this] show ?thesis
    by (simp add: build_type_filter_def jq_options_def value_or_def jq_pending_def)
qed

theorem job_claim_fences_witness: "complete_job (j_id jq_claimed_row) [120] None 30 jq_running = (jq_running, Inr False)"
  using job_claim_fences [OF jq_reach1 jq_claim, of "[120]" None 30 "[]" True None "[]" 0] by simp

theorem job_terminal_absorbing_witness:
  "\<exists>db j. j_status j = JCompleted \<and> find_job (j_id j) db = Some j"
proof -
  obtain db r where c: "complete_job [106] [97] None 30 jq_running = (db, r)" by fastforce
  have inv: "job_inv jq_running" by (rule job_inv_reachable [OF jq_reach2])
  from c inv have "jobs db = [jq_claimed_row\<lparr>j_status := JCompleted, j_completed := Some 30, j_updated := 30,
      j_result := None, j_owner := None, j_lease := None, j_heartbeat := Some 30\<rparr>]"
    by (cases rule: complete_spec)
      (use jq_authority in \<open>simp_all add: update_where_def jq_running_def jq_claimed_row_def jq_row_fields\<close>)
  moreover have "job_reachable db"
    using jq_reach2 step_complete [OF c] unfolding job_reachable_def by (rule rtranclp.rtrancl_into_rtrancl)
  ultimately show ?thesis
    using job_terminal_absorbing [OF \<open>job_reachable db\<close>, of "hd (jobs db)" db]
    by (intro exI [of _ db] exI [of _ "hd (jobs db)"]) simp
qed

theorem job_enqueue_idempotent_witness: "enqueue jq_input [99] 50 jq_running = (jq_running, Inr [106])"
proof (rule job_enqueue_idempotent [OF jq_reach0 jq_enqueue])
  show "job_step\<^sup>*\<^sup>* jq_pending jq_running" using step_claim [OF jq_claim] by blast
qed (simp_all add: jq_input_def)

theorem job_refines_lifecycle_witness: "\<exists>j'. find_job [106] jq_running = Some j' \<and> j_max j' = 3"
  using job_refines_lifecycle [OF jq_reach1 step_claim [OF jq_claim], of jq_row]
  by (auto simp: jq_pending_def jq_row_fields)

theorem enqueue_empty_key_throws_witness:
  "enqueue (jq_input\<lparr>eq_key := Some []\<rparr>) [99] 50 (jq_pending\<lparr>jobs := [jq_row\<lparr>j_key := Some []\<rparr>]\<rparr>)
    = (jq_pending\<lparr>jobs := [jq_row\<lparr>j_key := Some []\<rparr>]\<rparr>, Inl UniqueViolation)"
proof -
  have "enqueue (jq_input\<lparr>eq_key := Some []\<rparr>) [] 0 empty_jobs
      = (jq_pending\<lparr>jobs := [jq_row\<lparr>j_key := Some []\<rparr>]\<rparr>, Inr [106])"
    by (simp add: enqueue_def find_by_key_def jq_input_def empty_jobs_def value_or_def jq_pending_def jq_row_def new_job_def Let_def)
  from enqueue_empty_key_throws [OF jq_reach0 this, of "jq_input\<lparr>eq_key := Some []\<rparr>" "JObj []"]
  show ?thesis by (simp add: jq_input_def)
qed

end
