(* ===== verification/Delayed_Attention.thy ===== *)
theory Delayed_Attention
  imports Attention_Engine Job_Queue_Theorems
begin

text \<open>
  \<open>DelayedAttentionService\<close> of \<open>src/attention/delayed-attention-service.ts\<close>: an unmentioned
  question in a group becomes a candidate bound to a job of the queue, and the job's attempt
  decides, under lease authority and once, whether the bot answers or which suppressor applies.
  The tables the service only reads (events, messages, admissions, receipts) are part of the
  state.  New identifiers and the clock are arguments; an exception rolls the tables back.
\<close>

section \<open>Constants and payload\<close>

definition delayed_job_type :: jstr where
  "delayed_job_type = lit ''attention_recheck''"

definition delayed_recheck_ms :: int where
  "delayed_recheck_ms = 15000"

definition delayed_thread_ms :: int where
  "delayed_thread_ms = 120000"

definition delayed_traffic_window_ms :: int where
  "delayed_traffic_window_ms = 10000"

definition delayed_traffic_limit :: nat where
  "delayed_traffic_limit = 5"

definition delayed_budget_window_ms :: int where
  "delayed_budget_window_ms = 600000"

definition delayed_budget_limit :: nat where
  "delayed_budget_limit = 2"

definition max_candidate_id_length :: nat where
  "max_candidate_id_length = 128"

definition parse_delayed_payload :: "jval \<Rightarrow> jstr option" where
  "parse_delayed_payload v = (case v of
     JObj [(k, JStr cid)] \<Rightarrow>
       if k = lit ''candidateId'' \<and> cid \<noteq> [] \<and> length cid \<le> max_candidate_id_length then Some cid else None
   | _ \<Rightarrow> None)"

section \<open>Tables\<close>

record raw_row =
  rw_id :: jstr
  rw_type :: jstr
  rw_source :: jstr
  rw_platform :: "jstr option"
  rw_conversation :: "jstr option"
  rw_created :: int

record message_row =
  ms_id :: jstr
  ms_raw :: jstr
  ms_message :: jstr
  ms_conversation :: jstr
  ms_type :: jstr
  ms_group :: "jstr option"
  ms_sender :: jstr
  ms_text :: "jstr option"
  ms_mentions :: int
  ms_reply :: "jstr option"

record admission_row =
  ad_raw :: jstr
  ad_state :: jstr
  ad_accepted :: int

record receipt_row =
  rc_id :: jstr
  rc_raw :: jstr
  rc_disposition :: jstr
  rc_received :: int

record candidate_row =
  cd_id :: jstr
  cd_raw :: jstr
  cd_chat :: jstr
  cd_job :: jstr
  cd_conversation :: jstr
  cd_group :: jstr
  cd_observed :: int
  cd_created :: int
  cd_not_before :: int
  cd_expires :: int

datatype suppressor_code = ThreadExpired | HumanAnswer | HighTraffic | GroupBudgetExhausted

record suppressor_row =
  sp_code :: suppressor_code
  sp_evidence :: "jstr option"
  sp_count :: "nat option"
  sp_window :: "int option"

datatype decision_outcome = Respond | Suppress

record decision_row =
  dc_id :: jstr
  dc_candidate :: jstr
  dc_job :: jstr
  dc_attempt :: jstr
  dc_outcome :: decision_outcome
  dc_at :: int
  dc_suppressor :: "suppressor_row option"

record attention_db =
  queue :: job_db
  raws :: "raw_row list"
  messages :: "message_row list"
  admissions :: "admission_row list"
  receipts :: "receipt_row list"
  candidates :: "candidate_row list"
  decisions :: "decision_row list"

datatype attention_error =
    SourceNotUnique | SourceNotEligible | CreationTimeInvalid | JobStateInconsistent
  | JobFailure job_error | CandidateConstraint | ContractInvalid | DecisionTimeInvalid
  | BindingInvalid | NotDue | NoLeaseAuthority | DecisionConstraint

section \<open>Reading\<close>

definition find_candidate :: "jstr \<Rightarrow> attention_db \<Rightarrow> candidate_row option" where
  "find_candidate i db = find (\<lambda>c. cd_id c = i) (candidates db)"

definition find_candidate_by_source :: "jstr \<Rightarrow> attention_db \<Rightarrow> candidate_row option" where
  "find_candidate_by_source raw db = find (\<lambda>c. cd_raw c = raw) (candidates db)"

definition find_decision :: "jstr \<Rightarrow> attention_db \<Rightarrow> decision_row option" where
  "find_decision cid db = find (\<lambda>d. dc_candidate d = cid) (decisions db)"

record candidate_source =
  sc_raw :: raw_row
  sc_message :: message_row
  sc_admission :: admission_row
  sc_receipt_count :: nat
  sc_received :: "int option"

definition accepted_receipts :: "jstr \<Rightarrow> attention_db \<Rightarrow> receipt_row list" where
  "accepted_receipts raw db =
     filter (\<lambda>r. rc_raw r = raw \<and> rc_disposition r = lit ''accepted'') (receipts db)"

fun earliest :: "int list \<Rightarrow> int option" where
  "earliest [] = None"
| "earliest (t # ts) = Some (foldl min t ts)"

definition candidate_sources :: "jstr \<Rightarrow> attention_db \<Rightarrow> candidate_source list" where
  "candidate_sources raw db =
     [\<lparr>sc_raw = r, sc_message = m, sc_admission = a,
       sc_receipt_count = length (accepted_receipts raw db),
       sc_received = earliest (map rc_received (accepted_receipts raw db))\<rparr>.
      r \<leftarrow> raws db, rw_id r = raw, m \<leftarrow> messages db, ms_raw m = rw_id r,
      a \<leftarrow> admissions db, ad_raw a = rw_id r]"

definition read_candidate_source :: "jstr \<Rightarrow> attention_db \<Rightarrow> candidate_source option" where
  "read_candidate_source raw db = (case candidate_sources raw db of [s] \<Rightarrow> Some s | _ \<Rightarrow> None)"

definition bot_self :: jstr where
  "bot_self = lit ''bot-self''"

definition group_type :: jstr where
  "group_type = lit ''group''"

definition reply_targets_bot :: "attention_db \<Rightarrow> message_row \<Rightarrow> bool" where
  "reply_targets_bot db m = (case ms_reply m of
     None \<Rightarrow> False
   | Some i \<Rightarrow> list_ex (\<lambda>q. ms_message q = i \<and> ms_conversation q = ms_conversation m
                         \<and> ms_type q = group_type \<and> ms_sender q = bot_self) (messages db))"

definition gateway_message :: "raw_row \<Rightarrow> bool" where
  "gateway_message r \<longleftrightarrow> rw_type r = lit ''chat.message.received'' \<and> rw_source r = lit ''gateway''
     \<and> rw_platform r = Some (lit ''qq'')"

definition eligible_source :: "attention_db \<Rightarrow> candidate_source \<Rightarrow> bool" where
  "eligible_source db s \<longleftrightarrow>
     gateway_message (sc_raw s)
     \<and> rw_conversation (sc_raw s) = Some (ms_conversation (sc_message s))
     \<and> ms_type (sc_message s) = group_type
     \<and> (ms_group (sc_message s) \<noteq> None \<and> ms_group (sc_message s) \<noteq> Some [])
     \<and> ms_sender (sc_message s) \<noteq> bot_self
     \<and> ms_mentions (sc_message s) = 0
     \<and> \<not> reply_targets_bot db (sc_message s)
     \<and> has_question_signal (value_or (ms_text (sc_message s)) [])
     \<and> ad_state (sc_admission s) = lit ''processing''
     \<and> ad_accepted (sc_admission s) = rw_created (sc_raw s)
     \<and> sc_receipt_count s = 1
     \<and> sc_received s = Some (rw_created (sc_raw s))"

definition job_idempotency_key :: "jstr \<Rightarrow> jstr" where
  "job_idempotency_key raw = lit ''attention:deferred:v1:'' @ raw"

definition job_bound :: "attention_db \<Rightarrow> candidate_row \<Rightarrow> bool" where
  "job_bound db c = (case find_job (cd_job c) (queue db) of
     None \<Rightarrow> False
   | Some j \<Rightarrow> j_type j = delayed_job_type
       \<and> parse_delayed_payload (j_payload j) = Some (cd_id c)
       \<and> j_key j = Some (job_idempotency_key (cd_raw c))
       \<and> j_scheduled j = cd_not_before c
       \<and> j_created j = cd_created c
       \<and> j_max j = 3)"

section \<open>Enqueueing a candidate\<close>

definition new_candidate :: "candidate_source \<Rightarrow> jstr \<Rightarrow> jstr \<Rightarrow> int \<Rightarrow> candidate_row" where
  "new_candidate s cid jid created =
     \<lparr>cd_id = cid, cd_raw = rw_id (sc_raw s), cd_chat = ms_id (sc_message s), cd_job = jid,
      cd_conversation = ms_conversation (sc_message s), cd_group = value_or (ms_group (sc_message s)) [],
      cd_observed = rw_created (sc_raw s), cd_created = created,
      cd_not_before = rw_created (sc_raw s) + delayed_recheck_ms,
      cd_expires = rw_created (sc_raw s) + delayed_thread_ms\<rparr>"

definition candidate_job :: "candidate_source \<Rightarrow> jstr \<Rightarrow> jstr \<Rightarrow> int \<Rightarrow> enqueue_input" where
  "candidate_job s cid jid created =
     \<lparr>eq_id = Some jid, eq_type = delayed_job_type,
      eq_payload = Some (JObj [(lit ''candidateId'', JStr cid)]),
      eq_key = Some (job_idempotency_key (rw_id (sc_raw s))),
      eq_scheduled = Some (rw_created (sc_raw s) + delayed_recheck_ms), eq_max = Some 3,
      eq_now = Some created\<rparr>"

text \<open>The checks and unique indexes of the candidate table.\<close>

definition candidate_fits :: "attention_db \<Rightarrow> candidate_row \<Rightarrow> bool" where
  "candidate_fits db c \<longleftrightarrow> 0 \<le> cd_observed c \<and> cd_observed c \<le> cd_created c
     \<and> cd_id c \<notin> cd_id ` set (candidates db) \<and> cd_raw c \<notin> cd_raw ` set (candidates db)
     \<and> cd_chat c \<notin> cd_chat ` set (candidates db) \<and> cd_job c \<notin> cd_job ` set (candidates db)"

definition enqueue_candidate ::
  "jstr \<Rightarrow> js_number \<Rightarrow> jstr \<Rightarrow> jstr \<Rightarrow> attention_db \<Rightarrow> attention_db \<times> (attention_error + candidate_row)" where
  "enqueue_candidate raw created cid jid db =
     (case find_candidate_by_source raw db of
        Some c \<Rightarrow> (db, if job_bound db c then Inr c else Inl ContractInvalid)
      | None \<Rightarrow>
          (case read_candidate_source raw db of
             None \<Rightarrow> (db, Inl SourceNotUnique)
           | Some s \<Rightarrow>
               if \<not> eligible_source db s then (db, Inl SourceNotEligible)
               else if \<not> is_safe_integer created \<or> int_value created < rw_created (sc_raw s)
               then (db, Inl CreationTimeInvalid)
               else (case enqueue (candidate_job s cid jid (int_value created)) jid 0 (queue db) of
                   (_, Inl e) \<Rightarrow> (db, Inl (JobFailure e))
                 | (q, Inr i) \<Rightarrow>
                     let c = new_candidate s cid jid (int_value created)
                     in if i \<noteq> jid then (db, Inl JobStateInconsistent)
                        else if \<not> candidate_fits db c then (db, Inl CandidateConstraint)
                        else (db\<lparr>queue := q, candidates := candidates db @ [c]\<rparr>, Inr c))))"

section \<open>Deciding\<close>

definition in_window :: "int \<Rightarrow> int \<Rightarrow> int \<Rightarrow> bool" where
  "in_window lo hi t \<longleftrightarrow> lo < t \<and> t \<le> hi"

definition human_answers :: "attention_db \<Rightarrow> candidate_row \<Rightarrow> int \<Rightarrow> (raw_row \<times> message_row) list" where
  "human_answers db c now =
     [(r, a). s \<leftarrow> messages db, ms_id s = cd_chat c, a \<leftarrow> messages db,
        ms_conversation a = ms_conversation s \<and> ms_type a = group_type
        \<and> ms_group a = ms_group s \<and> ms_group s \<noteq> None \<and> ms_reply a = Some (ms_message s)
        \<and> ms_sender a \<noteq> bot_self,
        r \<leftarrow> raws db, rw_id r = ms_raw a \<and> gateway_message r
        \<and> in_window (cd_observed c) now (rw_created r)]"

fun first_answer :: "(raw_row \<times> message_row) list \<Rightarrow> jstr option" where
  "first_answer [] = None"
| "first_answer ((r, a) # rest) = (case first_answer rest of
     None \<Rightarrow> Some (ms_id a)
   | Some i \<Rightarrow>
       if list_all (\<lambda>(q, b). rw_created r < rw_created q \<or> (rw_created r = rw_created q \<and> ms_id a \<le> ms_id b)) rest
       then Some (ms_id a) else Some i)"

definition traffic_count :: "attention_db \<Rightarrow> candidate_row \<Rightarrow> int \<Rightarrow> nat" where
  "traffic_count db c now = length
     [m. m \<leftarrow> messages db, ms_conversation m = cd_conversation c \<and> ms_type m = group_type
        \<and> ms_group m = Some (cd_group c) \<and> ms_sender m \<noteq> bot_self,
        r \<leftarrow> raws db, rw_id r = ms_raw m \<and> gateway_message r
        \<and> in_window (now - delayed_traffic_window_ms) now (rw_created r)]"

definition budget_count :: "attention_db \<Rightarrow> jstr \<Rightarrow> int \<Rightarrow> nat" where
  "budget_count db g now = length
     [d. d \<leftarrow> decisions db, dc_outcome d = Respond \<and> in_window (now - delayed_budget_window_ms) now (dc_at d),
        c \<leftarrow> candidates db, cd_id c = dc_candidate d \<and> cd_group c = g]"

definition select_suppressor :: "attention_db \<Rightarrow> candidate_row \<Rightarrow> int \<Rightarrow> suppressor_row option" where
  "select_suppressor db c now =
     (if cd_expires c \<le> now
      then Some \<lparr>sp_code = ThreadExpired, sp_evidence = None, sp_count = None, sp_window = None\<rparr>
      else case first_answer (human_answers db c now) of
        Some i \<Rightarrow> Some \<lparr>sp_code = HumanAnswer, sp_evidence = Some i, sp_count = None, sp_window = None\<rparr>
      | None \<Rightarrow>
          if delayed_traffic_limit < traffic_count db c now
          then Some \<lparr>sp_code = HighTraffic, sp_evidence = None, sp_count = Some (traffic_count db c now),
                     sp_window = Some delayed_traffic_window_ms\<rparr>
          else if delayed_budget_limit \<le> budget_count db (cd_group c) now
          then Some \<lparr>sp_code = GroupBudgetExhausted, sp_evidence = None,
                     sp_count = Some (budget_count db (cd_group c) now),
                     sp_window = Some delayed_budget_window_ms\<rparr>
          else None)"

definition new_decision :: "jstr \<Rightarrow> candidate_row \<Rightarrow> jstr \<Rightarrow> int \<Rightarrow> suppressor_row option \<Rightarrow> decision_row" where
  "new_decision did c aid now why =
     \<lparr>dc_id = did, dc_candidate = cd_id c, dc_job = cd_job c, dc_attempt = aid,
      dc_outcome = (if why = None then Respond else Suppress), dc_at = now, dc_suppressor = why\<rparr>"

definition decide ::
  "jstr \<Rightarrow> jstr \<Rightarrow> jstr \<Rightarrow> js_number \<Rightarrow> jstr \<Rightarrow> attention_db \<Rightarrow> attention_db \<times> (attention_error + decision_row)" where
  "decide cid jid aid clock did db =
     (if \<not> is_safe_integer clock \<or> int_value clock < 0 then (db, Inl DecisionTimeInvalid)
      else let now = int_value clock in
        case find_candidate cid db of
          None \<Rightarrow> (db, Inl BindingInvalid)
        | Some c \<Rightarrow>
            if cd_job c \<noteq> jid then (db, Inl BindingInvalid)
            else if \<not> job_bound db c then (db, Inl ContractInvalid)
            else case find_decision (cd_id c) db of
              Some d \<Rightarrow> (db, Inr d)
            | None \<Rightarrow>
                if now < cd_not_before c then (db, Inl NotDue)
                else if \<not> has_authority (queue db) jid aid now None then (db, Inl NoLeaseAuthority)
                else let d = new_decision did c aid now (select_suppressor db c now)
                     in if did \<in> dc_id ` set (decisions db) then (db, Inl DecisionConstraint)
                        else (db\<lparr>decisions := decisions db @ [d]\<rparr>, Inr d))"

end
