(* ===== verification/Delayed_Attention_Facts.thy ===== *)
theory Delayed_Attention_Facts
  imports Delayed_Attention
begin

text \<open>
  The theorems of delayed attention.  A history is any interleaving of the service's two
  operations with the operations of the job queue and with arbitrary changes of the tables the
  service only reads; its invariant is that candidates and decisions are unique, that a decision
  belongs to a candidate and was made when due, and that an answer was given in time.
\<close>

section \<open>Cases of the two operations\<close>

lemma enqueue_candidate_cases:
  assumes "enqueue_candidate raw created cid jid db = (db', r)"
  obtains (existing) c where "find_candidate_by_source raw db = Some c" and "job_bound db c" and "db' = db" and "r = Inr c"
  | (error) e where "db' = db" and "r = Inl e"
  | (new) s q where "find_candidate_by_source raw db = None" and "read_candidate_source raw db = Some s"
      and "eligible_source db s" and "rw_created (sc_raw s) \<le> int_value created"
      and "enqueue (candidate_job s cid jid (int_value created)) jid 0 (queue db) = (q, Inr jid)"
      and "candidate_fits db (new_candidate s cid jid (int_value created))"
      and "r = Inr (new_candidate s cid jid (int_value created))"
      and "db' = db\<lparr>queue := q, candidates := candidates db @ [new_candidate s cid jid (int_value created)]\<rparr>"
proof (cases "find_candidate_by_source raw db")
  case (Some c)
  show ?thesis
  proof (cases "job_bound db c")
    case True
    with assms Some show ?thesis by (intro existing [OF Some]) (auto simp: enqueue_candidate_def)
  next
    case False
    with assms Some show ?thesis by (intro error) (auto simp: enqueue_candidate_def)
  qed
next
  case fresh: None
  show ?thesis
  proof (cases "read_candidate_source raw db")
    case None
    with assms fresh show ?thesis by (intro error) (auto simp: enqueue_candidate_def)
  next
    case (Some s)
    show ?thesis
    proof (cases "eligible_source db s \<and> is_safe_integer created \<and> rw_created (sc_raw s) \<le> int_value created")
      case False
      then have "r = Inl SourceNotEligible \<or> r = Inl CreationTimeInvalid" "db' = db"
        using assms fresh Some unfolding enqueue_candidate_def by (auto split: if_splits)
      then show ?thesis using error by blast
    next
      case True
      obtain q res where e: "enqueue (candidate_job s cid jid (int_value created)) jid 0 (queue db) = (q, res)"
        by fastforce
      have body: "enqueue_candidate raw created cid jid db = (case (q, res) of
           (_, Inl e) \<Rightarrow> (db, Inl (JobFailure e))
         | (q, Inr i) \<Rightarrow>
             let c = new_candidate s cid jid (int_value created)
             in if i \<noteq> jid then (db, Inl JobStateInconsistent)
                else if \<not> candidate_fits db c then (db, Inl CandidateConstraint)
                else (db\<lparr>queue := q, candidates := candidates db @ [c]\<rparr>, Inr c))"
        using True unfolding enqueue_candidate_def fresh Some option.case e [symmetric] by simp
      show ?thesis
      proof (cases res)
        case (Inl x)
        with body assms show ?thesis by (intro error) auto
      next
        case (Inr i)
        show ?thesis
        proof (cases "i = jid \<and> candidate_fits db (new_candidate s cid jid (int_value created))")
          case False
          with body assms Inr have "db' = db" "\<exists>e. r = Inl e" by (auto simp: Let_def split: if_splits)
          then show ?thesis using error by blast
        next
          case fits: True
          with body assms Inr e fresh Some True show ?thesis
            by (intro new [OF fresh Some]) (auto simp: Let_def)
        qed
      qed
    qed
  qed
qed

lemma decide_cases:
  assumes "decide cid jid aid clock did db = (db', r)"
  obtains (error) e where "db' = db" and "r = Inl e"
  | (existing) c d where "find_candidate cid db = Some c" and "find_decision cid db = Some d" and "db' = db" and "r = Inr d"
  | (new) c where "0 \<le> int_value clock" and "find_candidate cid db = Some c" and "cd_job c = jid" and "cd_id c = cid"
      and "job_bound db c" and "find_decision cid db = None" and "cd_not_before c \<le> int_value clock"
      and "has_authority (queue db) jid aid (int_value clock) None" and "did \<notin> dc_id ` set (decisions db)"
      and "r = Inr (new_decision did c aid (int_value clock) (select_suppressor db c (int_value clock)))"
      and "db' = db\<lparr>decisions := decisions db
             @ [new_decision did c aid (int_value clock) (select_suppressor db c (int_value clock))]\<rparr>"
proof (cases "is_safe_integer clock \<and> 0 \<le> int_value clock")
  case False
  with assms show ?thesis by (intro error [of DecisionTimeInvalid]) (auto simp: decide_def split: if_splits)
next
  case time: True
  show ?thesis
  proof (cases "find_candidate cid db")
    case None
    with assms time show ?thesis by (intro error [of BindingInvalid]) (auto simp: decide_def Let_def)
  next
    case (Some c)
    then have cid: "cd_id c = cid" unfolding find_candidate_def by (auto dest: find_memberD)
    let ?now = "int_value clock"
    have body: "decide cid jid aid clock did db =
      (if cd_job c \<noteq> jid then (db, Inl BindingInvalid)
            else if \<not> job_bound db c then (db, Inl ContractInvalid)
            else case find_decision (cd_id c) db of
              Some d \<Rightarrow> (db, Inr d)
            | None \<Rightarrow>
                if ?now < cd_not_before c then (db, Inl NotDue)
                else if \<not> has_authority (queue db) jid aid ?now None then (db, Inl NoLeaseAuthority)
                else let d = new_decision did c aid ?now (select_suppressor db c ?now)
                     in if did \<in> dc_id ` set (decisions db) then (db, Inl DecisionConstraint)
                        else (db\<lparr>decisions := decisions db @ [d]\<rparr>, Inr d))"
      using time by (simp add: decide_def Let_def Some)
    show ?thesis
    proof (cases "cd_job c = jid \<and> job_bound db c")
      case False
      with assms body have "db' = db" "\<exists>e. r = Inl e" by (auto split: if_splits)
      then show ?thesis using error by blast
    next
      case bound: True
      show ?thesis
      proof (cases "find_decision cid db")
        case (Some d)
        with assms body bound cid have "db' = db" "r = Inr d" by auto
        with \<open>find_candidate cid db = Some c\<close> Some show ?thesis by (rule existing)
      next
        case None
        show ?thesis
        proof (cases "cd_not_before c \<le> ?now \<and> has_authority (queue db) jid aid ?now None \<and> did \<notin> dc_id ` set (decisions db)")
          case False
          with assms body bound cid None have "db' = db" "\<exists>e. r = Inl e" by (auto simp: Let_def split: if_splits)
          then show ?thesis using error by blast
        next
          case True
          with assms body bound cid None time
          have "r = Inr (new_decision did c aid ?now (select_suppressor db c ?now))"
            "db' = db\<lparr>decisions := decisions db @ [new_decision did c aid ?now (select_suppressor db c ?now)]\<rparr>"
            by (auto simp: Let_def)
          with True time bound cid None Some show ?thesis by (intro new) auto
        qed
      qed
    qed
  qed
qed

section \<open>Histories\<close>

inductive attention_step :: "attention_db \<Rightarrow> attention_db \<Rightarrow> bool" where
  att_enqueue: "enqueue_candidate raw created cid jid db = (db', r) \<Longrightarrow> attention_step db db'"
| att_decide: "decide cid jid aid clock did db = (db', r) \<Longrightarrow> attention_step db db'"
| att_queue: "job_step (queue db) q \<Longrightarrow> attention_step db (db\<lparr>queue := q\<rparr>)"
| att_environment: "queue db' = queue db \<Longrightarrow> candidates db' = candidates db \<Longrightarrow> decisions db' = decisions db \<Longrightarrow>
    attention_step db db'"

inductive_cases attention_stepE: "attention_step db db'"

definition empty_attention :: attention_db where
  "empty_attention = \<lparr>queue = empty_jobs, raws = [], messages = [], admissions = [], receipts = [],
     candidates = [], decisions = []\<rparr>"

definition attention_reachable :: "attention_db \<Rightarrow> bool" where
  "attention_reachable db \<longleftrightarrow> attention_step\<^sup>*\<^sup>* empty_attention db"

definition decision_ok :: "candidate_row list \<Rightarrow> decision_row \<Rightarrow> bool" where
  "decision_ok cs d \<longleftrightarrow> (\<exists>c \<in> set cs. dc_candidate d = cd_id c \<and> dc_job d = cd_job c
     \<and> cd_not_before c \<le> dc_at d \<and> (dc_outcome d = Respond \<longrightarrow> dc_at d < cd_expires c))"

lemma decision_ok_mono: "decision_ok cs d \<Longrightarrow> decision_ok (cs @ cs') d"
  by (auto simp: decision_ok_def)

definition attention_inv :: "attention_db \<Rightarrow> bool" where
  "attention_inv db \<longleftrightarrow> job_inv (queue db)
     \<and> distinct (map cd_id (candidates db)) \<and> distinct (map cd_raw (candidates db)) \<and> distinct (map cd_job (candidates db))
     \<and> distinct (map dc_candidate (decisions db)) \<and> distinct (map dc_id (decisions db))
     \<and> (\<forall>c \<in> set (candidates db). cd_not_before c = cd_observed c + 15000 \<and> cd_expires c = cd_observed c + 120000)
     \<and> (\<forall>d \<in> set (decisions db). decision_ok (candidates db) d)"

lemma select_none_in_time: "select_suppressor db c now = None \<Longrightarrow> now < cd_expires c"
  by (simp add: select_suppressor_def split: if_splits)

lemma find_decision_None: "find_decision cid db = None \<Longrightarrow> cid \<notin> dc_candidate ` set (decisions db)"
  by (auto simp: find_decision_def find_None_iff)

lemma new_candidate_fields [simp]:
  "cd_id (new_candidate s cid jid t) = cid" "cd_job (new_candidate s cid jid t) = jid"
  "cd_raw (new_candidate s cid jid t) = rw_id (sc_raw s)" "cd_created (new_candidate s cid jid t) = t"
  "cd_observed (new_candidate s cid jid t) = rw_created (sc_raw s)"
  "cd_not_before (new_candidate s cid jid t) = rw_created (sc_raw s) + 15000"
  "cd_expires (new_candidate s cid jid t) = rw_created (sc_raw s) + 120000"
  by (simp_all add: new_candidate_def delayed_recheck_ms_def delayed_thread_ms_def)

lemma new_decision_fields [simp]:
  "dc_id (new_decision did c aid now w) = did" "dc_candidate (new_decision did c aid now w) = cd_id c"
  "dc_job (new_decision did c aid now w) = cd_job c" "dc_attempt (new_decision did c aid now w) = aid"
  "dc_at (new_decision did c aid now w) = now" "dc_suppressor (new_decision did c aid now w) = w"
  "dc_outcome (new_decision did c aid now w) = Respond \<longleftrightarrow> w = None"
  by (simp_all add: new_decision_def)

lemma attention_inv_empty: "attention_inv empty_attention"
  by (simp add: attention_inv_def empty_attention_def job_inv_empty)

lemma attention_inv_enqueue:
  assumes "enqueue_candidate raw created cid jid db = (db', r)" and "attention_inv db"
  shows "attention_inv db'"
  using assms(1)
proof (cases rule: enqueue_candidate_cases)
  case (new s q)
  have "job_inv q" using new(5) assms(2) job_inv_enqueue by (auto simp: attention_inv_def)
  then show ?thesis using assms(2) new(6) by (auto simp: attention_inv_def new(8) candidate_fits_def intro: decision_ok_mono)
qed (use assms(2) in simp_all)

lemma attention_inv_decide:
  assumes "decide cid jid aid clock did db = (db', r)" and "attention_inv db"
  shows "attention_inv db'"
  using assms(1)
proof (cases rule: decide_cases)
  case (new c)
  have "c \<in> set (candidates db)" using new(2) by (auto simp: find_candidate_def dest: find_memberD)
  then have "decision_ok (candidates db) (new_decision did c aid (int_value clock) (select_suppressor db c (int_value clock)))"
    unfolding decision_ok_def using new(7) select_none_in_time by (intro bexI [of _ c]) auto
  moreover have "cd_id c \<notin> dc_candidate ` set (decisions db)"
    using find_decision_None [OF new(6)] new(4) by simp
  ultimately show ?thesis
    using assms(2) new(9) by (simp add: attention_inv_def new(11))
qed (use assms(2) in simp_all)

lemma attention_inv_step: "attention_step db db' \<Longrightarrow> attention_inv db \<Longrightarrow> attention_inv db'"
proof (erule attention_stepE, goal_cases)
  case (3 q)
  then show ?case using job_inv_step by (auto simp: attention_inv_def)
next
  case 4
  then show ?case by (simp add: attention_inv_def)
qed (auto intro: attention_inv_enqueue attention_inv_decide)

lemma attention_inv_steps: "attention_step\<^sup>*\<^sup>* db db' \<Longrightarrow> attention_inv db \<Longrightarrow> attention_inv db'"
  by (induction rule: rtranclp_induct) (simp_all add: attention_inv_step)

lemma attention_inv_reachable: "attention_reachable db \<Longrightarrow> attention_inv db"
  unfolding attention_reachable_def by (erule attention_inv_steps) (rule attention_inv_empty)

section \<open>Candidates and their jobs\<close>

text \<open>What \<open>job_bound\<close> reads of a job; a claim keeps it.\<close>

definition contract_of :: "job_row \<Rightarrow> jstr \<times> jval \<times> jstr option \<times> int \<times> int \<times> int" where
  "contract_of j = (j_type j, j_payload j, j_key j, j_scheduled j, j_created j, j_max j)"

lemma job_bound_iff:
  "job_bound db c \<longleftrightarrow> (\<exists>j p. find_job (cd_job c) (queue db) = Some j \<and> parse_delayed_payload p = Some (cd_id c)
     \<and> contract_of j = (delayed_job_type, p, Some (job_idempotency_key (cd_raw c)), cd_not_before c, cd_created c, 3))"
  by (auto simp: job_bound_def contract_of_def split: option.splits)

lemma contract_keeps [simp]:
  "contract_of (expire_job now j) = contract_of j" "contract_of (take_lease now l w n j) = contract_of j"
  by (simp_all add: contract_of_def expire_job_def take_lease_def)

lemma claim_keeps_contract:
  assumes "claim_next opts aid stale now q = (q', r)" and "job_inv q" and "find_job i q = Some j"
  shows "\<exists>j'. find_job i q' = Some j' \<and> contract_of j' = contract_of j"
proof -
  have j: "j \<in> set (jobs q)" "j_id j = i" using assms(2,3) by (simp_all add: find_job_iff)
  let ?e = "\<lambda>flt. if exhausted flt now j then expire_job now j else j"
  have e: "?e flt \<in> set (jobs (fail_expired flt now q))" for flt
    using j(1) unfolding fail_expired_jobs set_update_where by (rule imageI)
  have inv1: "job_inv (fail_expired flt now q)" for flt by (rule job_inv_fail_expired [OF assms(2)])
  from assms(1,2) show ?thesis
  proof (cases rule: claim_next_cases)
    case error
    with assms(3) show ?thesis by simp
  next
    case (idle flt)
    have "j_id (?e flt) = i" using j(2) by simp
    with find_job_some [OF inv1 e, of flt] have "find_job i q' = Some (?e flt)" unfolding idle(2) by simp
    then show ?thesis by (intro exI [of _ "?e flt"]) simp
  next
    case (claimed flt k p)
    let ?n = "if j_id (?e flt) = j_id k
      then take_lease now (value_or (co_lease_ms opts) 60000) (co_worker opts) (j_attempts k + 1) (?e flt) else ?e flt"
    have n: "?n \<in> set (jobs q')"
      using e [of flt] unfolding claimed(6) claim_row_jobs set_update_where by (rule imageI)
    have "j_id ?n = i" using j(2) by simp
    with find_job_some [OF claimed(10) n] have "find_job i q' = Some ?n" by simp
    then show ?thesis by (intro exI [of _ ?n]) simp
  qed
qed

lemma claim_keeps_bound:
  assumes "claim_next opts aid stale now (queue db) = (q', r)" and "job_inv (queue db)"
  shows "job_bound (db\<lparr>queue := q'\<rparr>) c \<longleftrightarrow> job_bound db c"
proof -
  have missing: "find_job (cd_job c) q' = None" if "find_job (cd_job c) (queue db) = None"
  proof -
    have "j_id ` set (jobs q') = j_id ` set (jobs (queue db))"
      using assms
    proof (cases rule: claim_next_cases)
      case (claimed flt j q)
      have "map j_id (jobs q') = map j_id (jobs (queue db))"
        unfolding claimed(6) by (simp add: claim_row_jobs fail_expired_jobs map_update_where)
      then show ?thesis by (metis list.set_map)
    next
      case (idle flt)
      have "map j_id (jobs q') = map j_id (jobs (queue db))"
        unfolding idle(2) by (simp add: fail_expired_jobs map_update_where)
      then show ?thesis by (metis list.set_map)
    qed simp
    with that show ?thesis unfolding find_job_def find_None_iff by (metis imageE imageI)
  qed
  show ?thesis
  proof (cases "find_job (cd_job c) (queue db)")
    case None
    with missing show ?thesis by (simp add: job_bound_def)
  next
    case (Some j)
    with claim_keeps_contract [OF assms(1,2)] obtain j' where "find_job (cd_job c) q' = Some j'" "contract_of j' = contract_of j"
      by blast
    with Some show ?thesis by (simp add: job_bound_iff)
  qed
qed

lemma first_answer_None [simp]: "first_answer rs = None \<longleftrightarrow> rs = []"
  by (cases rs rule: first_answer.cases) (auto split: option.splits)

lemma length_matches: "length (concat (map (\<lambda>x. if P x then [d] else []) xs)) = length (filter P xs)"
  by (induction xs) auto

lemma budget_count_append:
  assumes "distinct (map cd_id (candidates db))" and "c \<in> set (candidates db)" and "dc_candidate d = cd_id c"
  shows "budget_count (db\<lparr>decisions := decisions db @ [d]\<rparr>) (cd_group c) now \<le> Suc (budget_count db (cd_group c) now)"
proof -
  let ?row = "\<lambda>x. if dc_outcome x = Respond \<and> in_window (now - delayed_budget_window_ms) now (dc_at x)
     then concat (map (\<lambda>q. if cd_id q = dc_candidate x \<and> cd_group q = cd_group c then [x] else []) (candidates db))
     else []"
  have unchanged: "candidates (db\<lparr>decisions := ds\<rparr>) = candidates db" "decisions (db\<lparr>decisions := ds\<rparr>) = ds" for ds
    by simp_all
  have one: "length (filter (\<lambda>q. cd_id q = cd_id c \<and> P q) cs) \<le> 1" if "distinct (map cd_id cs)" for cs P
    using that
  proof (induction cs)
    case (Cons q cs)
    have "filter (\<lambda>q. cd_id q = cd_id c \<and> P q) cs = []" if "cd_id q = cd_id c"
      using Cons.prems that by (force simp: filter_empty_conv)
    with Cons show ?case by auto
  qed simp
  have "length (?row d) \<le> 1"
    using one [OF assms(1), of "\<lambda>q. cd_group q = cd_group c"] by (simp add: assms(3) length_matches)
  moreover have "budget_count (db\<lparr>decisions := decisions db @ [d]\<rparr>) (cd_group c) now
      = budget_count db (cd_group c) now + length (?row d)"
    unfolding budget_count_def unchanged(1) by (simp only: unchanged(2) map_append concat_append length_append list.map concat.simps append_Nil2)
  ultimately show ?thesis by simp
qed

end
