(* ===== verification/Delayed_Attention_Theorems.thy ===== *)
theory Delayed_Attention_Theorems
  imports Delayed_Attention_Facts
begin

text \<open>
  The theorems of delayed attention: an answer is given only in its window and under every
  limit, a decision is taken once, a new candidate is bound to its job, a claimed due job gets
  its decision, and a job that was failed with a delay can no longer be decided.
\<close>

section \<open>Lookups along a history\<close>

lemma find_decision_step:
  assumes "attention_step db db'" and "find_decision cid db = Some d"
  shows "find_decision cid db' = Some d"
  using assms
proof (induction rule: attention_step.induct)
  case att_enqueue
  then show ?case by (cases rule: enqueue_candidate_cases) (simp_all add: find_decision_def)
next
  case att_decide
  then show ?case by (cases rule: decide_cases) (simp_all add: find_decision_def find_append_left)
qed (simp_all add: find_decision_def)

lemma find_decision_steps:
  "attention_step\<^sup>*\<^sup>* db db' \<Longrightarrow> find_decision cid db = Some d \<Longrightarrow> find_decision cid db' = Some d"
  by (induction rule: rtranclp_induct) (simp_all add: find_decision_step)

text \<open>What a decision without suppressor has checked.\<close>

lemma select_none:
  assumes "select_suppressor db c now = None"
  shows "now < cd_expires c" "human_answers db c now = []" "traffic_count db c now \<le> 5"
    "budget_count db (cd_group c) now < 2"
  using assms unfolding select_suppressor_def delayed_traffic_limit_def delayed_budget_limit_def
  by (auto split: if_splits option.splits)

lemma parse_delayed_payload_own:
  "cid \<noteq> [] \<Longrightarrow> length cid \<le> 128 \<Longrightarrow> parse_delayed_payload (JObj [(lit ''candidateId'', JStr cid)]) = Some cid"
  by (simp add: parse_delayed_payload_def max_candidate_id_length_def)

section \<open>Answering\<close>

text \<open>
  C12.  A decision to answer that the service takes afresh is justified: it was taken under the
  authority of the attempt, at least 15 seconds and less than 120 seconds after the message was
  observed, with no human answer so far, at most 5 messages of the group in the last 10 seconds,
  and, the new answer included, at most 2 answers in the group in the last 10 minutes.
\<close>

theorem delayed_respond_sound:
  assumes "attention_reachable db" and "find_decision cid db = None"
    and "decide cid jid aid clock did db = (db', Inr d)" and "dc_outcome d = Respond"
  shows "\<exists>c. find_candidate cid db = Some c \<and> has_authority (queue db) jid aid (dc_at d) None
    \<and> cd_observed c + 15000 \<le> dc_at d \<and> dc_at d < cd_observed c + 120000
    \<and> human_answers db c (dc_at d) = [] \<and> traffic_count db c (dc_at d) \<le> 5
    \<and> budget_count db' (cd_group c) (dc_at d) \<le> 2"
proof -
  have inv: "attention_inv db" by (rule attention_inv_reachable [OF assms(1)])
  from assms(3) show ?thesis
  proof (cases rule: decide_cases)
    case (new c)
    have d: "d = new_decision did c aid (int_value clock) (select_suppressor db c (int_value clock))"
      using new(10) by simp
    then have none: "select_suppressor db c (int_value clock) = None" and at: "dc_at d = int_value clock"
      using assms(4) by simp_all
    have mem: "c \<in> set (candidates db)" using new(2) by (auto simp: find_candidate_def dest: find_memberD)
    with inv have times: "cd_not_before c = cd_observed c + 15000" "cd_expires c = cd_observed c + 120000"
      and dist: "distinct (map cd_id (candidates db))" by (auto simp: attention_inv_def)
    have "budget_count db' (cd_group c) (dc_at d) \<le> Suc (budget_count db (cd_group c) (dc_at d))"
      unfolding new(11) d [symmetric] by (rule budget_count_append [OF dist mem]) (simp add: d)
    with select_none [OF none] new(2,7,8) times at show ?thesis
      by (intro exI [of _ c]) auto
  qed (use assms(2) in auto)
qed

section \<open>Deciding once\<close>

text \<open>
  A candidate is decided at most once: a decision that exists is the decision in every
  later state, whatever the service, the queue and the rest of the program do, and deciding the
  candidate again changes nothing and returns that decision or an error.
\<close>

theorem delayed_decided_once:
  assumes "find_decision cid db = Some d" and "attention_step\<^sup>*\<^sup>* db db'"
    and "decide cid jid aid clock did db' = (db'', r)"
  shows "find_decision cid db' = Some d \<and> db'' = db' \<and> (r = Inr d \<or> (\<exists>e. r = Inl e))"
proof -
  have d: "find_decision cid db' = Some d" using find_decision_steps [OF assms(2,1)] .
  from assms(3) show ?thesis
    by (cases rule: decide_cases) (use d in auto)
qed

section \<open>Enqueuing\<close>

text \<open>
  A candidate that was just enqueued, under a fresh job and a candidate id of 1 to 128
  code units, is found by its source, is bound to a job that runs not before its window opens
  and at most three times, and enqueuing its source again returns it and changes nothing.
\<close>

theorem delayed_enqueue_binds:
  assumes "find_candidate_by_source raw db = None" and "find_job jid (queue db) = None"
    and "cid \<noteq> []" and "length cid \<le> 128" and "enqueue_candidate raw created cid jid db = (db', Inr c)"
  shows "job_bound db' c \<and> find_candidate_by_source raw db' = Some c \<and> cd_id c = cid \<and> cd_job c = jid
    \<and> enqueue_candidate raw created' cid' jid' db' = (db', Inr c)"
  using assms(5)
proof (cases rule: enqueue_candidate_cases)
  case (new s q)
  let ?inp = "candidate_job s cid jid (int_value created)"
  have raw: "rw_id (sc_raw s) = raw"
  proof -
    have "s \<in> set (candidate_sources raw db)"
      using new(2) by (auto simp: read_candidate_source_def split: list.splits)
    then show ?thesis by (auto simp: candidate_sources_def)
  qed
  have c: "c = new_candidate s cid jid (int_value created)" using new(7) by simp
  let ?row = "new_job ?inp jid (JObj [(lit ''candidateId'', JStr cid)]) (int_value created)"
  have id: "value_or (eq_id ?inp) jid = jid" "value_or (eq_now ?inp) 0 = int_value created"
    by (simp_all add: candidate_job_def value_or_def)
  have "find_by_key (eq_key ?inp) (queue db) = None"
  proof (cases "find_by_key (eq_key ?inp) (queue db)")
    case (Some j)
    then have "j_id j = jid" "j \<in> set (jobs (queue db))"
      using new(5) by (auto simp: enqueue_def find_by_key_def split: option.splits if_splits dest: find_memberD)
    with assms(2) show ?thesis by (auto simp: find_job_def find_None_iff)
  qed simp
  then have q: "q = queue db\<lparr>jobs := jobs (queue db) @ [?row]\<rparr>"
    using new(5) id by (simp add: enqueue_def candidate_job_def Let_def split: if_splits)
  have "find_job jid q = Some ?row"
    using find_append_right [of "\<lambda>j. j_id j = jid" "jobs (queue db)" ?row] assms(2)
    by (simp add: find_job_def q new_job_def)
  then have bound: "job_bound db' c"
    using parse_delayed_payload_own [OF assms(3,4)]
    by (simp add: job_bound_def new(8) c) (simp add: new_job_def candidate_job_def value_or_def delayed_recheck_ms_def)
  have found: "find_candidate_by_source raw db' = Some c"
    using find_append_right [of "\<lambda>c. cd_raw c = raw" "candidates db" c] assms(1) raw
    by (simp add: find_candidate_by_source_def new(8) c)
  with bound show ?thesis by (simp add: c enqueue_candidate_def)
qed (use assms(1) in auto)

section \<open>A claimed candidate is decided\<close>

lemma claim_authority:
  assumes "claim_next opts aid stale t q = (q', Inr (Some (j, aid', n)))" and "job_inv q"
    and "now < t + value_or (co_lease_ms opts) 60000"
  shows "has_authority q' (j_id j) aid now None \<and> job_inv q'"
  using assms(1,2)
proof (cases rule: claim_next_cases)
  case (claimed flt k p)
  have p: "p = j" using claimed(9) by simp
  have inv: "job_inv (fail_expired flt t q)" by (rule job_inv_fail_expired [OF assms(2)])
  obtain past where "attempts_of q' (j_id k) = past @ [new_attempt aid k (j_attempts k + 1) (co_worker opts) t]"
    unfolding claimed(6) by (rule attempts_of_claim [OF inv claimed(3,4)])
  moreover have "j_id j = j_id k" unfolding p [symmetric] claimed(7) by simp
  ultimately have last: "a_id (last (attempts_of q' (j_id j))) = aid" by simp
  have "has_authority q' (j_id j) (a_id (last (attempts_of q' (j_id j)))) now None"
    using claimed(8,10) assms(3) unfolding p
    by (rule_tac authority_intro [where t = "t + value_or (co_lease_ms opts) 60000"])
      (simp_all add: claimed(7) [unfolded p] take_lease_def)
  with last claimed(10) show ?thesis by simp
qed auto

text \<open>
  A bound, undecided candidate whose job was claimed is decided: at every time in its window
  before the lease runs out the claiming attempt obtains a decision of its own, never an error.
\<close>

theorem delayed_decision_available:
  assumes "attention_reachable db" and "find_candidate cid db = Some c" and "job_bound db c"
    and "find_decision cid db = None"
    and "claim_next opts aid stale t (queue db) = (q, Inr (Some (j, aid', n)))" and "j_id j = cd_job c"
    and "cd_not_before c \<le> now" and "now < t + value_or (co_lease_ms opts) 60000"
    and "0 \<le> now" and "now \<le> max_safe" and "did \<notin> dc_id ` set (decisions db)"
  shows "\<exists>d db'. decide cid (j_id j) aid (JInt now) did (db\<lparr>queue := q\<rparr>) = (db', Inr d)
    \<and> dc_attempt d = aid \<and> dc_at d = now \<and> find_decision cid db' = Some d"
proof -
  have inv: "job_inv (queue db)" using attention_inv_reachable [OF assms(1)] by (simp add: attention_inv_def)
  let ?db = "db\<lparr>queue := q\<rparr>"
  have bound: "job_bound ?db c" using claim_keeps_bound [OF assms(5) inv] assms(3) by simp
  have auth: "has_authority (queue ?db) (j_id j) aid now None"
    using claim_authority [OF assms(5) inv assms(8)] by simp
  have cid: "cd_id c = cid" using assms(2) by (auto simp: find_candidate_def dest: find_memberD)
  let ?d = "new_decision did c aid now (select_suppressor ?db c now)"
  have found: "find_candidate cid ?db = Some c" "find_decision (cd_id c) ?db = None"
    using assms(2,4) cid by (simp_all add: find_candidate_def find_decision_def)
  have "decide cid (j_id j) aid (JInt now) did ?db = (?db\<lparr>decisions := decisions db @ [?d]\<rparr>, Inr ?d)"
    unfolding decide_def using found bound auth assms(6,7,9,10,11) by (simp add: Let_def)
  moreover have "find_decision cid (?db\<lparr>decisions := decisions db @ [?d]\<rparr>) = Some ?d"
    using find_append_right [of "\<lambda>d. dc_candidate d = cid" "decisions db" ?d] assms(4) cid
    by (simp add: find_decision_def)
  ultimately show ?thesis by (intro exI [of _ ?d] exI) simp
qed

section \<open>A failed attempt\<close>

lemma rescheduled_not_bound:
  assumes "find_job (cd_job c) q = Some j" and "j_scheduled j \<noteq> cd_not_before c"
  shows "\<not> job_bound (db\<lparr>queue := q\<rparr>) c"
  using assms by (simp add: job_bound_def)

lemma decide_unbound:
  assumes "find_candidate cid db = Some c" and "\<not> job_bound db c"
  shows "\<exists>e. decide cid jid aid clock did db = (db, Inl e)"
  using assms by (auto simp: decide_def Let_def)

text \<open>
  A non-terminal failure of a candidate's job loses the candidate.  The queue reschedules
  the job at the time of the failure plus the delay; unless that is exactly the time the
  candidate was first due, the candidate is no longer bound to its job, so that in that state and
  after any later claim every attempt to decide it is an error, although attempts are left.
\<close>

theorem delayed_retry_blocked:
  assumes "attention_reachable db" and "find_candidate cid db = Some c"
    and "fail_job (cd_job c) aid err False delay now (queue db) = (q, Inr True)"
    and "find_job (cd_job c) (queue db) = Some j" and "j_attempts j < j_max j"
    and "now + value_or delay 0 \<noteq> cd_not_before c"
    and "claim_next opts aid' stale t q = (q', r)"
  shows "(\<exists>e. decide cid jid aid2 clock did (db\<lparr>queue := q\<rparr>) = (db\<lparr>queue := q\<rparr>, Inl e))
    \<and> (\<exists>e. decide cid jid aid2 clock did (db\<lparr>queue := q'\<rparr>) = (db\<lparr>queue := q'\<rparr>, Inl e))"
proof -
  have inv: "job_inv (queue db)" using attention_inv_reachable [OF assms(1)] by (simp add: attention_inv_def)
  from assms(3) inv obtain k where k: "find_job (cd_job c) q = Some k" "j_scheduled k = now + value_or delay 0" "job_inv q"
  proof (cases rule: fail_spec)
    case (settled row retry)
    have row: "row = j" using settled(4) assms(4) by simp
    then have retry: "retry" using settled(5) assms(5) by simp
    have j: "j \<in> set (jobs (queue db))" "j_id j = cd_job c" using assms(4) inv by (simp_all add: find_job_iff)
    have "j_status j = JRunning"
      using inv settled(1)
    proof (cases rule: authority_cases)
      case (1 i)
      with j same_idD [OF job_invD(1) [OF inv]] show ?thesis by metis
    qed
    let ?k = "j\<lparr>j_status := (if retry then JPending else JFailed),
                   j_scheduled := (if retry then now + value_or delay 0 else now),
                   j_completed := (if retry then None else Some now), j_updated := now,
                   j_error := Some err, j_owner := None, j_lease := None, j_heartbeat := Some now\<rparr>"
    have "?k \<in> set (jobs q)"
      unfolding settled(6) by (simp add: set_update_where) (use j \<open>j_status j = JRunning\<close> in force)
    from find_job_some [OF settled(3) this] j(2) have "find_job (cd_job c) q = Some ?k" by simp
    with that [of ?k] retry settled(3) show ?thesis by simp
  qed simp
  from claim_keeps_contract [OF assms(7) k(3,1)] obtain k' where
    k': "find_job (cd_job c) q' = Some k'" "j_scheduled k' = j_scheduled k" by (auto simp: contract_of_def)
  have found: "find_candidate cid (db\<lparr>queue := x\<rparr>) = Some c" for x using assms(2) by (simp add: find_candidate_def)
  have "\<not> job_bound (db\<lparr>queue := q\<rparr>) c" "\<not> job_bound (db\<lparr>queue := q'\<rparr>) c"
    using rescheduled_not_bound [OF k(1)] rescheduled_not_bound [OF k'(1)] k(2) k'(2) assms(6) by simp_all
  with decide_unbound [OF found] show ?thesis by blast
qed

section \<open>Concrete instances\<close>

definition att_text_db :: attention_db where
  "att_text_db = empty_attention\<lparr>
     raws := [\<lparr>rw_id = [114], rw_type = lit ''chat.message.received'', rw_source = lit ''gateway'',
       rw_platform = Some (lit ''qq''), rw_conversation = Some [118], rw_created = 100\<rparr>],
     messages := [\<lparr>ms_id = [109], ms_raw = [114], ms_message = [110], ms_conversation = [118], ms_type = group_type,
       ms_group = Some [103], ms_sender = [117], ms_text = Some [63], ms_mentions = 0, ms_reply = None\<rparr>],
     admissions := [\<lparr>ad_raw = [114], ad_state = lit ''processing'', ad_accepted = 100\<rparr>],
     receipts := [\<lparr>rc_id = [101], rc_raw = [114], rc_disposition = lit ''accepted'', rc_received = 100\<rparr>]\<rparr>"

definition att_candidate :: candidate_row where
  "att_candidate = \<lparr>cd_id = [99], cd_raw = [114], cd_chat = [109], cd_job = [106], cd_conversation = [118],
     cd_group = [103], cd_observed = 100, cd_created = 150, cd_not_before = 15100, cd_expires = 120100\<rparr>"

definition att_row :: job_row where
  "att_row = new_job \<lparr>eq_id = Some [106], eq_type = delayed_job_type,
      eq_payload = Some (JObj [(lit ''candidateId'', JStr [99])]),
      eq_key = Some (job_idempotency_key [114]), eq_scheduled = Some 15100, eq_max = Some 3,
      eq_now = Some 150\<rparr> [106] (JObj [(lit ''candidateId'', JStr [99])]) 150"

definition att_pending :: attention_db where
  "att_pending = att_text_db\<lparr>queue := \<lparr>jobs = [att_row], attempts = [], heartbeats = []\<rparr>, candidates := [att_candidate]\<rparr>"

definition att_claimed :: job_row where
  "att_claimed = take_lease 15100 60000 [119] 1 att_row"

definition att_queue :: job_db where
  "att_queue = \<lparr>jobs = [att_claimed], attempts = [new_attempt [97] att_row 1 [119] 15100], heartbeats = []\<rparr>"

definition att_source :: candidate_source where
  "att_source = \<lparr>sc_raw = hd (raws att_text_db), sc_message = hd (messages att_text_db),
     sc_admission = hd (admissions att_text_db), sc_receipt_count = 1, sc_received = Some 100\<rparr>"

lemma att_source_read: "read_candidate_source [114] att_text_db = Some att_source"
  by (simp add: read_candidate_source_def candidate_sources_def accepted_receipts_def att_text_db_def att_source_def)

lemma att_source_eligible: "eligible_source att_text_db att_source"
  by (simp add: eligible_source_def att_source_def att_text_db_def gateway_message_def bot_self_def lit_def
      reply_targets_bot_def has_question_signal_def question_mark_def js_includes_def value_or_def)

lemma att_enqueued: "enqueue_candidate [114] (JInt 150) [99] [106] att_text_db = (att_pending, Inr att_candidate)"
proof -
  have "find_candidate_by_source [114] att_text_db = None"
    by (simp add: find_candidate_by_source_def att_text_db_def empty_attention_def)
  moreover have "enqueue (candidate_job att_source [99] [106] 150) [106] 0 (queue att_text_db)
      = (queue att_pending, Inr [106])"
    by (simp add: enqueue_def candidate_job_def find_by_key_def job_idempotency_key_def lit_def Let_def value_or_def
        att_text_db_def att_pending_def empty_attention_def empty_jobs_def att_row_def att_source_def delayed_recheck_ms_def
        new_job_def)
  moreover have "new_candidate att_source [99] [106] 150 = att_candidate"
    by (simp add: new_candidate_def att_source_def att_text_db_def att_candidate_def value_or_def
        delayed_recheck_ms_def delayed_thread_ms_def)
  moreover have "candidate_fits att_text_db att_candidate"
    by (simp add: candidate_fits_def att_candidate_def att_text_db_def empty_attention_def)
  moreover have "rw_created (sc_raw att_source) = 100"
    by (simp add: att_source_def att_text_db_def)
  ultimately show ?thesis
    by (simp add: enqueue_candidate_def att_source_read att_source_eligible Let_def max_safe_def)
      (simp add: att_pending_def att_text_db_def empty_attention_def)
qed

lemma att_claim_run: "claim_next jq_options [97] [] 15100 (queue att_pending) = (att_queue, Inr (Some (att_claimed, [97], 1)))"
  by code_simp

definition att_answer :: decision_row where
  "att_answer = new_decision [100] att_candidate [97] 15100 None"

definition att_running :: attention_db where
  "att_running = att_pending\<lparr>queue := att_queue\<rparr>"

lemma att_decided: "decide [99] [106] [97] (JInt 15100) [100] att_running
    = (att_running\<lparr>decisions := [att_answer]\<rparr>, Inr att_answer)"
  by code_simp

lemma att_reach_pending: "attention_reachable att_pending"
proof -
  have "attention_step empty_attention att_text_db"
    by (rule att_environment) (simp_all add: att_text_db_def)
  moreover have "attention_step att_text_db att_pending" by (rule att_enqueue [OF att_enqueued])
  ultimately show ?thesis
    unfolding attention_reachable_def by (meson rtranclp.rtrancl_into_rtrancl rtranclp.rtrancl_refl)
qed

lemma att_reach_running: "attention_reachable att_running"
  using att_queue [OF step_claim [OF att_claim_run]] att_reach_pending
  unfolding attention_reachable_def att_running_def by (rule rtranclp.rtrancl_into_rtrancl [rotated])

lemma att_found: "find_candidate [99] att_pending = Some att_candidate" "find_candidate [99] att_running = Some att_candidate"
  "find_decision [99] att_pending = None" "find_decision [99] att_running = None"
  by code_simp+

lemma att_bound: "job_bound att_pending att_candidate"
  by code_simp

theorem delayed_respond_sound_witness:
  "\<exists>c. find_candidate [99] att_running = Some c \<and> human_answers att_running c 15100 = []
    \<and> has_authority (queue att_running) [106] [97] 15100 None"
proof -
  have "dc_outcome att_answer = Respond" "dc_at att_answer = 15100" by (simp_all add: att_answer_def)
  with delayed_respond_sound [OF att_reach_running att_found(4) att_decided] show ?thesis by auto
qed

theorem delayed_decided_once_witness:
  "find_decision [99] (att_running\<lparr>decisions := [att_answer]\<rparr>) = Some att_answer"
proof -
  have "find_decision [99] (att_running\<lparr>decisions := [att_answer]\<rparr>) = Some att_answer" by code_simp
  from delayed_decided_once [OF this rtranclp.rtrancl_refl surjective_pairing [of "decide [99] [106] [97] (JInt 20000) [101] _"]]
  show ?thesis by blast
qed

theorem delayed_enqueue_binds_witness:
  "enqueue_candidate [114] (JInt 999) [120] [121] att_pending = (att_pending, Inr att_candidate)"
proof -
  have "find_candidate_by_source [114] att_text_db = None" "find_job [106] (queue att_text_db) = None"
    by (simp_all add: find_candidate_by_source_def find_job_def att_text_db_def empty_attention_def empty_jobs_def)
  from delayed_enqueue_binds [OF this _ _ att_enqueued, of "JInt 999" "[120]" "[121]"] show ?thesis by simp
qed

theorem delayed_decision_available_witness:
  "\<exists>d db'. decide [99] [106] [97] (JInt 30000) [100] att_running = (db', Inr d) \<and> dc_attempt d = [97] \<and> dc_at d = 30000"
proof -
  have f: "j_id att_claimed = cd_job att_candidate" "j_id att_claimed = [106]"
    "cd_not_before att_candidate \<le> 30000" "decisions att_pending = []" "co_lease_ms jq_options = None"
    by code_simp+
  from delayed_decision_available [OF att_reach_pending att_found(1) att_bound att_found(3) att_claim_run f(1,3), of "[100]"]
  show ?thesis unfolding f(2) by (auto simp: f(4,5) value_or_def max_safe_def att_running_def)
qed

definition att_failed :: job_db where
  "att_failed = fst (fail_job [106] [97] [101] False (Some 1000) 15200 att_queue)"

lemma att_fail: "fail_job [106] [97] [101] False (Some 1000) 15200 att_queue = (att_failed, Inr True)"
  by code_simp

theorem delayed_retry_blocked_witness:
  "\<exists>e. decide [99] [106] [97] (JInt 16200) [100] (att_running\<lparr>queue := att_failed\<rparr>) = (att_running\<lparr>queue := att_failed\<rparr>, Inl e)"
proof -
  have f: "find_job [106] (queue att_running) = Some att_claimed" "j_attempts att_claimed < j_max att_claimed"
    "15200 + value_or (Some 1000) 0 \<noteq> cd_not_before att_candidate" "cd_job att_candidate = [106]" "queue att_running = att_queue"
    by code_simp+
  from delayed_retry_blocked [OF att_reach_running att_found(2), unfolded f(4,5), OF att_fail f(1) [unfolded f(5)] f(2,3)
      surjective_pairing [of "claim_next jq_options [98] [] 16200 att_failed"]]
  show ?thesis by blast
qed

end
