(* ===== verification/Js_Regex.thy ===== *)
theory Js_Regex
  imports Lethe_Prelude
begin

text \<open>
  ECMAScript regular expressions, as far as the program's patterns use them: character classes,
  sequences, alternatives, greedy repetition, one-character lookaround and word boundaries.
  A matcher gives the cursors it can stop at in the order in which backtracking meets them, so
  the first is the match.  A cursor is the reversed text before it and the text after it.
\<close>

section \<open>Matching\<close>

type_synonym cursor = "jstr \<times> jstr"

datatype rx =
    One "nat \<Rightarrow> bool"
  | Seq rx rx
  | Alt rx rx
  | Rep nat "nat option" rx
  | NotBehind "nat \<Rightarrow> bool"
  | NotAhead "nat \<Rightarrow> bool"
  | Boundary
  | AtEnd

definition word_char :: "nat \<Rightarrow> bool" where
  "word_char c \<longleftrightarrow> (48 \<le> c \<and> c \<le> 57) \<or> (65 \<le> c \<and> c \<le> 90) \<or> c = 95 \<or> (97 \<le> c \<and> c \<le> 122)"

fun head_is :: "(nat \<Rightarrow> bool) \<Rightarrow> jstr \<Rightarrow> bool" where
  "head_is P [] = False"
| "head_is P (c # cs) = P c"

text \<open>
  Greedy repetition.  The fuel bounds the number of rounds; an optional round that consumes
  nothing is not taken, so the text after the cursor and the rounds that are due bound it.
\<close>

fun repeat :: "nat \<Rightarrow> (cursor \<Rightarrow> cursor list) \<Rightarrow> nat \<Rightarrow> nat option \<Rightarrow> cursor \<Rightarrow> cursor list" where
  "repeat 0 m lo hi c = (if lo = 0 then [c] else [])"
| "repeat (Suc n) m lo hi c =
     (if hi = Some 0 then [c]
      else concat (map (\<lambda>d. if lo = 0 \<and> d = c then [] else repeat n m (lo - 1) (map_option (\<lambda>h. h - 1) hi) d) (m c))
           @ (if lo = 0 then [c] else []))"

primrec run :: "rx \<Rightarrow> cursor \<Rightarrow> cursor list" where
  "run (One P) c = (case snd c of x # xs \<Rightarrow> if P x then [(x # fst c, xs)] else [] | [] \<Rightarrow> [])"
| "run (Seq r s) c = concat (map (run s) (run r c))"
| "run (Alt r s) c = run r c @ run s c"
| "run (Rep lo hi r) c = repeat (Suc (lo + length (snd c))) (run r) lo hi c"
| "run (NotBehind P) c = (if head_is P (fst c) then [] else [c])"
| "run (NotAhead P) c = (if head_is P (snd c) then [] else [c])"
| "run Boundary c = (if head_is word_char (fst c) = head_is word_char (snd c) then [] else [c])"
| "run AtEnd c = (if snd c = [] then [c] else [])"

text \<open>\<open>RegExp.prototype.test\<close> and a global \<open>String.prototype.replace\<close>.\<close>

fun matches_from :: "rx \<Rightarrow> jstr \<Rightarrow> jstr \<Rightarrow> bool" where
  "matches_from r b a = (run r (b, a) \<noteq> [] \<or> (case a of [] \<Rightarrow> False | x # xs \<Rightarrow> matches_from r (x # b) xs))"

declare matches_from.simps [simp del]

definition rx_test :: "rx \<Rightarrow> jstr \<Rightarrow> bool" where
  "rx_test r s = matches_from r [] s"

function replace_from :: "rx \<Rightarrow> jstr \<Rightarrow> jstr \<Rightarrow> jstr \<Rightarrow> jstr" where
  "replace_from r t b a =
     (case run r (b, a) of
        (b', a') # _ \<Rightarrow>
          if length a' < length a then t @ replace_from r t b' a'
          else t @ (case a of [] \<Rightarrow> [] | x # xs \<Rightarrow> x # replace_from r t (x # b) xs)
      | [] \<Rightarrow> (case a of [] \<Rightarrow> [] | x # xs \<Rightarrow> x # replace_from r t (x # b) xs))"
  by pat_completeness auto
termination
  by (relation "measure (\<lambda>(r, t, b, a). length a)") auto

declare replace_from.simps [simp del]

text \<open>The texts of a global \<open>String.prototype.matchAll\<close>.\<close>

function matched_from :: "rx \<Rightarrow> jstr \<Rightarrow> jstr \<Rightarrow> jstr list" where
  "matched_from r b a =
     (case run r (b, a) of
        (b', a') # _ \<Rightarrow>
          if length a' < length a then take (length a - length a') a # matched_from r b' a'
          else [] # (case a of [] \<Rightarrow> [] | x # xs \<Rightarrow> matched_from r (x # b) xs)
      | [] \<Rightarrow> (case a of [] \<Rightarrow> [] | x # xs \<Rightarrow> matched_from r (x # b) xs))"
  by pat_completeness auto
termination
  by (relation "measure (\<lambda>(r, b, a). length a)") auto

declare matched_from.simps [simp del]

definition rx_replace :: "rx \<Rightarrow> jstr \<Rightarrow> jstr \<Rightarrow> jstr" where
  "rx_replace r t s = replace_from r t [] s"

section \<open>Building patterns\<close>

fun rx_seq :: "rx list \<Rightarrow> rx" where
  "rx_seq [] = NotAhead (\<lambda>c. False)"
| "rx_seq [r] = r"
| "rx_seq (r # rs) = Seq r (rx_seq rs)"

fun rx_alt :: "rx list \<Rightarrow> rx" where
  "rx_alt [] = One (\<lambda>c. False)"
| "rx_alt [r] = r"
| "rx_alt (r # rs) = Alt r (rx_alt rs)"

definition rx_lit :: "jstr \<Rightarrow> rx" where
  "rx_lit s = rx_seq (map (\<lambda>x. One (\<lambda>c. c = x)) s)"

text \<open>Case folding of the \<open>i\<close> flag on the ASCII letters of a pattern.\<close>

definition fold_case :: "nat \<Rightarrow> nat" where
  "fold_case c = (if 65 \<le> c \<and> c \<le> 90 then c + 32 else c)"

definition rx_ilit :: "jstr \<Rightarrow> rx" where
  "rx_ilit s = rx_seq (map (\<lambda>x. One (\<lambda>c. fold_case c = fold_case x)) s)"

definition rx_opt :: "rx \<Rightarrow> rx" where
  "rx_opt r = Rep 0 (Some 1) r"

definition digit :: "nat \<Rightarrow> bool" where
  "digit c \<longleftrightarrow> 48 \<le> c \<and> c \<le> 57"

definition upper :: "nat \<Rightarrow> bool" where
  "upper c \<longleftrightarrow> 65 \<le> c \<and> c \<le> 90"

definition alnum :: "nat \<Rightarrow> bool" where
  "alnum c \<longleftrightarrow> digit c \<or> upper c \<or> (97 \<le> c \<and> c \<le> 122)"

section \<open>A match is a part of the text\<close>

text \<open>\<open>moved c d\<close>: the cursor \<open>d\<close> is \<open>c\<close> after consuming some text.\<close>

definition moved :: "cursor \<Rightarrow> cursor \<Rightarrow> bool" where
  "moved c d \<longleftrightarrow> (\<exists>w. snd c = w @ snd d \<and> fst d = rev w @ fst c)"

lemma moved_refl [simp]: "moved c c"
  by (simp add: moved_def)

lemma moved_trans: "moved c d \<Longrightarrow> moved d e \<Longrightarrow> moved c e"
  unfolding moved_def by (metis append.assoc rev_append)

lemma moved_repeat:
  "(\<And>c d. d \<in> set (m c) \<Longrightarrow> moved c d) \<Longrightarrow> d \<in> set (repeat n m lo hi c) \<Longrightarrow> moved c d"
proof (induction n arbitrary: lo hi c)
  case (Suc n)
  from Suc.prems(2) have "d = c \<or> (\<exists>e \<in> set (m c). \<exists>lo' hi'. d \<in> set (repeat n m lo' hi' e))"
    by (auto split: if_splits)
  then show ?case
  proof
    assume "\<exists>e \<in> set (m c). \<exists>lo' hi'. d \<in> set (repeat n m lo' hi' e)"
    then obtain e lo' hi' where e: "e \<in> set (m c)" "d \<in> set (repeat n m lo' hi' e)" by blast
    from Suc.prems(1) [OF e(1)] Suc.IH [OF Suc.prems(1) e(2)] show ?thesis by (rule moved_trans)
  qed simp
qed (simp split: if_splits)

lemma moved_run: "d \<in> set (run r c) \<Longrightarrow> moved c d"
proof (induction r arbitrary: c d)
  case (One P)
  then show ?case by (auto simp: moved_def split: list.splits if_splits)
next
  case (Seq r s)
  from Seq.prems obtain e where e: "e \<in> set (run r c)" "d \<in> set (run s e)" by (auto simp del: split_paired_Ex)
  from Seq.IH(1) [OF e(1)] Seq.IH(2) [OF e(2)] show ?case by (rule moved_trans)
next
  case (Rep lo hi r)
  from Rep.prems have "d \<in> set (repeat (Suc (lo + length (snd c))) (run r) lo hi c)" by (simp del: repeat.simps)
  with Rep.IH show ?case by (rule moved_repeat)
qed (auto split: if_splits)

text \<open>A pattern is found exactly when it matches behind some prefix.\<close>

lemma matches_from_iff: "matches_from r b a \<longleftrightarrow> (\<exists>u v. a = u @ v \<and> run r (rev u @ b, v) \<noteq> [])"
proof (induction a arbitrary: b)
  case Nil
  then show ?case by (simp add: matches_from.simps)
next
  case (Cons x xs)
  have "matches_from r b (x # xs) \<longleftrightarrow> run r (b, x # xs) \<noteq> [] \<or> (\<exists>u v. xs = u @ v \<and> run r (rev u @ x # b, v) \<noteq> [])"
    by (simp add: matches_from.simps [of r b "x # xs"] Cons.IH)
  also have "\<dots> \<longleftrightarrow> (\<exists>u v. x # xs = u @ v \<and> run r (rev u @ b, v) \<noteq> [])"
  proof
    assume "run r (b, x # xs) \<noteq> [] \<or> (\<exists>u v. xs = u @ v \<and> run r (rev u @ x # b, v) \<noteq> [])"
    then show "\<exists>u v. x # xs = u @ v \<and> run r (rev u @ b, v) \<noteq> []"
    proof
      assume "run r (b, x # xs) \<noteq> []"
      then show ?thesis by (intro exI [of _ "[]"] exI [of _ "x # xs"]) simp
    next
      assume "\<exists>u v. xs = u @ v \<and> run r (rev u @ x # b, v) \<noteq> []"
      then obtain u v where "xs = u @ v" "run r (rev u @ x # b, v) \<noteq> []" by blast
      then show ?thesis by (intro exI [of _ "x # u"] exI [of _ v]) simp
    qed
  next
    assume "\<exists>u v. x # xs = u @ v \<and> run r (rev u @ b, v) \<noteq> []"
    then obtain u v where uv: "x # xs = u @ v" "run r (rev u @ b, v) \<noteq> []" by blast
    show "run r (b, x # xs) \<noteq> [] \<or> (\<exists>u v. xs = u @ v \<and> run r (rev u @ x # b, v) \<noteq> [])"
    proof (cases u)
      case (Cons y ys)
      with uv show ?thesis by (intro disjI2 exI [of _ ys] exI [of _ v]) simp
    qed (use uv in simp)
  qed
  finally show ?case .
qed

lemma rx_test_iff: "rx_test r s \<longleftrightarrow> (\<exists>u v. s = u @ v \<and> run r (rev u, v) \<noteq> [])"
  by (simp add: rx_test_def matches_from_iff)

text \<open>Without a match, replacing changes nothing.\<close>

lemma replace_from_none: "\<not> matches_from r b a \<Longrightarrow> replace_from r t b a = a"
proof (induction a arbitrary: b)
  case (Cons x xs)
  then show ?case by (simp add: matches_from.simps [of r b "x # xs"] replace_from.simps [of r t b "x # xs"])
qed (simp add: matches_from.simps replace_from.simps)

lemma rx_replace_none: "\<not> rx_test r s \<Longrightarrow> rx_replace r t s = s"
  by (simp add: rx_test_def rx_replace_def replace_from_none)

end
