(* ===== verification/Secret_Scan.thy ===== *)
theory Secret_Scan
  imports Js_Regex Json_Text
begin

text \<open>
  \<open>src/memory/secret-scan.ts\<close>: the patterns of credentials, the scan of a memory's text and the
  redaction of a text.  Names and lines follow \<open>SECRET_PATTERNS\<close>.
\<close>

section \<open>Patterns\<close>

definition ws :: rx where
  "ws = Rep 0 None (One js_space)"

definition non_space :: "nat \<Rightarrow> bool" where
  "non_space c \<longleftrightarrow> \<not> js_space c"

definition among :: "string \<Rightarrow> rx" where
  "among cs = One (\<lambda>c. c \<in> set (lit cs))"

definition token_char :: "nat \<Rightarrow> bool" where
  "token_char c \<longleftrightarrow> alnum c \<or> c = 95 \<or> c = 45"

definition least :: "nat \<Rightarrow> (nat \<Rightarrow> bool) \<Rightarrow> rx" where
  "least n P = Rep n None (One P)"

text \<open>\<open>\s*[:=]\s*['"]?\S{n,}\<close> after a keyword that no letter or digit precedes\<close>

definition assignment :: "rx \<Rightarrow> nat \<Rightarrow> rx" where
  "assignment key n = rx_seq [NotBehind alnum, key, ws, among '':='', ws,
     rx_opt (One (\<lambda>c. c = 39 \<or> c = 34)), least n non_space]"

definition rx_openai_key :: rx where
  "rx_openai_key = rx_seq [NotBehind alnum, rx_lit (lit ''sk-''), least 20 token_char, NotAhead alnum]"

definition rx_github_token :: rx where
  "rx_github_token = rx_seq [Boundary, rx_lit (lit ''ghp_''), least 20 word_char, Boundary]"

definition rx_jwt :: rx where
  "rx_jwt = rx_seq [Boundary, rx_lit (lit ''eyJ''), least 10 token_char, rx_lit (lit ''.''),
     least 10 token_char, rx_lit (lit ''.''), least 10 token_char, Boundary]"

definition rx_aws_key :: rx where
  "rx_aws_key = rx_seq [Boundary, rx_lit (lit ''AKIA''), Rep 16 (Some 16) (One (\<lambda>c. digit c \<or> upper c)), Boundary]"

definition rx_private_key :: rx where
  "rx_private_key = rx_seq [rx_lit (lit ''-----BEGIN ''), Rep 0 None (One (\<lambda>c. digit c \<or> upper c \<or> c = 32)),
     rx_lit (lit ''PRIVATE KEY-----'')]"

definition opt_dash :: rx where
  "opt_dash = rx_opt (among ''_-'')"

definition rx_password :: rx where
  "rx_password = assignment (rx_alt [rx_ilit (lit ''password''), rx_ilit (lit ''passwd''), rx_ilit (lit ''pwd'')]) 4"

definition rx_api_key :: rx where
  "rx_api_key = assignment (rx_seq [rx_ilit (lit ''api''), opt_dash, rx_ilit (lit ''key'')]) 4"

definition rx_token :: rx where
  "rx_token = assignment (rx_alt [rx_seq [rx_ilit (lit ''access''), opt_dash, rx_ilit (lit ''token'')],
     rx_seq [rx_ilit (lit ''refresh''), opt_dash, rx_ilit (lit ''token'')], rx_ilit (lit ''token'')]) 8"

definition rx_cookie :: rx where
  "rx_cookie = assignment (rx_ilit (lit ''cookie'')) 8"

definition rx_recovery_codes :: rx where
  "rx_recovery_codes = rx_seq [NotBehind alnum, rx_ilit (lit ''recovery''), ws, rx_ilit (lit ''code''),
     rx_opt (rx_ilit (lit ''s'')), ws, among '':='', ws,
     Rep 2 None (Seq (least 4 (\<lambda>c. alnum c \<or> c = 45))
       (Rep 0 None (One (\<lambda>c. js_space c \<or> c = 44 \<or> c = 59))))]"

definition secret_patterns :: "(jstr \<times> rx) list" where
  "secret_patterns =
    [(lit ''openai_like_api_key'', rx_openai_key), (lit ''github_token'', rx_github_token), (lit ''jwt'', rx_jwt),
     (lit ''aws_access_key_id'', rx_aws_key), (lit ''private_key_block'', rx_private_key),
     (lit ''password_assignment'', rx_password), (lit ''api_key_assignment'', rx_api_key),
     (lit ''token_assignment'', rx_token), (lit ''cookie_assignment'', rx_cookie),
     (lit ''recovery_codes'', rx_recovery_codes)]"

section \<open>Scanning and redacting\<close>

datatype secret_finding = SecretFound jstr | ProhibitedFound jstr

definition scan_memory :: "jstr \<Rightarrow> secret_finding list" where
  "scan_memory text = map (SecretFound \<circ> fst) (filter (\<lambda>(name, r). rx_test r text) secret_patterns)"

definition redacted_mark :: "jstr \<Rightarrow> jstr" where
  "redacted_mark name = lit ''[REDACTED:'' @ name @ lit '']''"

text \<open>Each pattern is tested on the original text and replaced in the text redacted so far.\<close>

definition redact_secrets :: "jstr \<Rightarrow> jstr" where
  "redact_secrets text =
     foldl (\<lambda>acc (name, r). if rx_test r text then rx_replace r (redacted_mark name) acc else acc) text secret_patterns"

section \<open>Facts\<close>

lemma redact_fold_none:
  "\<forall>p \<in> set ps. \<not> rx_test (snd p) text \<Longrightarrow>
    foldl (\<lambda>acc (name, r). if rx_test r text then rx_replace r (redacted_mark name) acc else acc) acc ps = acc"
  by (induction ps) auto

lemma scan_memory_empty: "scan_memory text = [] \<longleftrightarrow> (\<forall>p \<in> set secret_patterns. \<not> rx_test (snd p) text)"
  by (auto simp: scan_memory_def filter_empty_conv)

lemma redact_clean: "scan_memory text = [] \<Longrightarrow> redact_secrets text = text"
  unfolding scan_memory_empty redact_secrets_def by (rule redact_fold_none)

end
