(* ===== verification/Memory_Sources.thy ===== *)
theory Memory_Sources
  imports Secret_Scan Job_Queue
begin

text \<open>
  The data of \<open>src/storage/memory-repository.ts\<close> and how it checks where a memory comes from:
  the rows of a memory, its sources and revisions, the tables that hold evidence, the actor
  of a change, and the resolution of every source against the evidence.  A score between 0
  and 1 is an integer number of units, \<open>score_one\<close> of them for 1, so that every double is exact.
  A JSON column holds the value its text encodes, and nothing when its text does not parse.
\<close>

section \<open>Vocabulary\<close>

datatype mem_scope = MGlobal | MUser | MGroup | MConversation | MTool | MSystem

datatype mem_visibility = PrivateOnly | SameUserAnyContext | SameGroupOnly | OwnerAdminOnly | PublicMemory

datatype mem_sensitivity = NormalSensitivity | Personal | Sensitive | SecretSensitivity | ProhibitedSensitivity

datatype mem_authority = UserStated | Inferred | ToolDerived | SystemAuthority

datatype mem_kind = Preference | Fact | ConstraintKind | SummaryKind | Reflection | Procedure

datatype mem_state = Proposed | Active | Rejected | Superseded | Disabled | Deleted

datatype source_type = RawEvent | ChatMessage | ToolOutput | WorkerExtraction | UserCommand

datatype extractor = ByUser | ByEvaluator | ByTool | ByWorker

datatype change_type = CreateChange | UpdateChange | ApproveChange | RejectChange | SupersedeChange
  | DisableChange | DeleteChange | RestoreChange

datatype actor_class = OwnerActor | AdminActor | TrustedUser | UserActor | GroupAdmin | SystemWorker
  | EvaluatorActor | ToolActor

datatype invocation_context = PrivateChat | GroupChat | AdminCli | BackgroundContext | InternalContext

datatype chat_type = PrivateType | GroupType

text \<open>A time given by a caller: \<open>NaN\<close> and the infinities are not finite.\<close>

datatype js_time = Finite int | NotFinite

definition score_one :: int where
  "score_one = 2 ^ 1074"

section \<open>Inputs\<close>

record source_input =
  si_type :: source_type
  si_id :: jstr
  si_time :: "js_time option"
  si_extracted :: "extractor option"
  si_external :: "bool option"

record actor_input =
  ai_user :: "jstr option"
  ai_class :: "actor_class option"
  ai_context :: "invocation_context option"

record actor =
  ac_user :: "jstr option"
  ac_class :: actor_class
  ac_context :: invocation_context

record memory_input =
  mi_id :: "jstr option"
  mi_scope :: mem_scope
  mi_user :: "jstr option"
  mi_group :: "jstr option"
  mi_conversation :: "jstr option"
  mi_subject :: "jstr option"
  mi_visibility :: mem_visibility
  mi_sensitivity :: mem_sensitivity
  mi_authority :: mem_authority
  mi_kind :: mem_kind
  mi_title :: jstr
  mi_content :: jstr
  mi_state :: mem_state
  mi_confidence :: int
  mi_importance :: int
  mi_context :: "jstr option"
  mi_decision :: "jstr option"
  mi_expires :: "js_time option"
  mi_sources :: "source_input list option"
  mi_actor :: "actor_input option"
  mi_reason :: "jstr option"
  mi_summary :: "jstr option"

section \<open>Tables\<close>

record memory_row =
  mr_id :: jstr
  mr_scope :: mem_scope
  mr_user :: "jstr option"
  mr_group :: "jstr option"
  mr_conversation :: "jstr option"
  mr_subject :: "jstr option"
  mr_visibility :: mem_visibility
  mr_sensitivity :: mem_sensitivity
  mr_authority :: mem_authority
  mr_kind :: mem_kind
  mr_title :: jstr
  mr_content :: jstr
  mr_state :: mem_state
  mr_confidence :: int
  mr_importance :: int
  mr_context :: "jstr option"
  mr_decision :: "jstr option"
  mr_created :: int
  mr_updated :: int
  mr_expires :: "int option"

datatype source_link = LinkExternal | LinkRaw jstr | LinkChat jstr | LinkTool jstr | LinkJob jstr | LinkAttempt jstr

record source_row =
  sr_memory :: jstr
  sr_type :: source_type
  sr_id :: jstr
  sr_time :: int
  sr_extracted :: extractor
  sr_link :: source_link

text \<open>A record as the repository returns it and as a revision keeps it: the row and its source ids.\<close>

record memory_record =
  md_row :: memory_row
  md_sources :: "jstr list"

record revision_row =
  rv_id :: jstr
  rv_memory :: jstr
  rv_number :: nat
  rv_change :: change_type
  rv_previous :: "memory_record option"
  rv_new :: memory_record
  rv_reason :: jstr
  rv_actor :: jstr
  rv_decision :: "jstr option"
  rv_created :: int

datatype risk_level = LowRisk | MediumRisk

record audit_row =
  au_id :: jstr
  au_time :: int
  au_change :: change_type
  au_memory :: jstr
  au_summary :: jstr
  au_actor :: actor
  au_adjustments :: "jstr list"
  au_risk :: risk_level
  au_decision :: jstr

record chat_row =
  ch_id :: jstr
  ch_raw :: jstr
  ch_conversation :: jstr
  ch_type :: chat_type
  ch_group :: "jstr option"
  ch_sender :: jstr

record tool_call_row =
  tc_id :: jstr
  tc_turn :: "jstr option"
  tc_success :: bool
  tc_actor :: "jstr option"
  tc_context :: "invocation_context option"

record turn_row =
  tu_id :: jstr
  tu_conversation :: jstr
  tu_trigger :: jstr
  tu_context_pack :: "jstr option"

record trace_row =
  ct_id :: jstr
  ct_turn :: jstr
  ct_conversation :: "jstr option"
  ct_type :: "chat_type option"
  ct_group :: "jstr option"

record account_row =
  pa_account :: jstr
  pa_user :: jstr
  pa_qq_active :: bool

record worker_job =
  wj_id :: jstr
  wj_done :: bool
  wj_payload :: "jval option"
  wj_result :: "jval option"

record worker_attempt =
  wa_id :: jstr
  wa_job :: jstr
  wa_done :: bool
  wa_result :: "jval option"

text \<open>The tables of evidence; \<open>wj_done\<close> is a completed job of type \<open>extraction\<close>.\<close>

record evidence_db =
  ev_raws :: "jstr list"
  ev_chats :: "chat_row list"
  ev_tools :: "tool_call_row list"
  ev_turns :: "turn_row list"
  ev_traces :: "trace_row list"
  ev_accounts :: "account_row list"
  ev_jobs :: "worker_job list"
  ev_attempts :: "worker_attempt list"

datatype memory_error =
    ProcedureWritesDisabled | OwnerFieldBlank | ScopeRequiresOwner | SameGroupRequiresGroup
  | ScopeForbidsOwner | SecretOrProhibited "secret_finding list" | SourcesRequired | SourceIdBlank
  | SourceTimeInvalid | SourceDuplicate | ExpiresInvalid | CommandNotExternal | CommandContext
  | InternalMarkedExternal | RawUnresolved | ChatUnresolved | ToolUnresolved | WorkerNeedsCanonical
  | WorkerUnresolved | WorkerReferenceLost | BoundaryIncompatible | RowConstraint
  | TransitionToProposed | TransitionInvalid | NotProposed | GroupIdInvalid

section \<open>Actors\<close>

definition starts :: "jstr option \<Rightarrow> string \<Rightarrow> bool" where
  "starts s p = (case s of None \<Rightarrow> False | Some t \<Rightarrow> prefix (lit p) t)"

fun admin_change :: "change_type \<Rightarrow> bool" where
  "admin_change ApproveChange = True"
| "admin_change RejectChange = True"
| "admin_change DisableChange = True"
| "admin_change DeleteChange = True"
| "admin_change RestoreChange = True"
| "admin_change _ = False"

definition infer_context :: "jstr option \<Rightarrow> change_type \<Rightarrow> invocation_context" where
  "infer_context src ch =
     (if starts src ''group_chat'' then GroupChat
      else if starts src ''private_chat'' \<or> starts src ''chat:'' then PrivateChat
      else if starts src ''admin_cli'' then AdminCli
      else if starts src ''background_worker'' then BackgroundContext
      else if admin_change ch then AdminCli
      else InternalContext)"

definition infer_class :: "mem_authority \<Rightarrow> change_type \<Rightarrow> actor_class" where
  "infer_class authority ch =
     (if admin_change ch then AdminActor
      else if authority = UserStated then UserActor
      else if authority = ToolDerived then ToolActor
      else SystemWorker)"

definition resolve_actor ::
  "actor_input option \<Rightarrow> jstr option \<Rightarrow> mem_authority \<Rightarrow> jstr option \<Rightarrow> change_type \<Rightarrow> actor" where
  "resolve_actor inp user authority src ch =
     \<lparr>ac_user = (case Option.bind inp ai_user of Some u \<Rightarrow> Some u | None \<Rightarrow> user),
      ac_class = value_or (Option.bind inp ai_class) (infer_class authority ch),
      ac_context = value_or (Option.bind inp ai_context) (infer_context src ch)\<rparr>"

fun actor_class_name :: "actor_class \<Rightarrow> jstr" where
  "actor_class_name OwnerActor = lit ''owner''"
| "actor_class_name AdminActor = lit ''admin''"
| "actor_class_name TrustedUser = lit ''trusted_user''"
| "actor_class_name UserActor = lit ''user''"
| "actor_class_name GroupAdmin = lit ''group_admin''"
| "actor_class_name SystemWorker = lit ''system_worker''"
| "actor_class_name EvaluatorActor = lit ''evaluator''"
| "actor_class_name ToolActor = lit ''tool''"

definition revision_actor :: "actor \<Rightarrow> jstr" where
  "revision_actor a = value_or (ac_user a) (actor_class_name (ac_class a))"

fun extracted_by :: "actor_class \<Rightarrow> extractor" where
  "extracted_by EvaluatorActor = ByEvaluator"
| "extracted_by ToolActor = ByTool"
| "extracted_by UserActor = ByUser"
| "extracted_by TrustedUser = ByUser"
| "extracted_by AdminActor = ByUser"
| "extracted_by OwnerActor = ByUser"
| "extracted_by _ = ByWorker"

section \<open>Preparing sources\<close>

record prepared_source =
  ps_type :: source_type
  ps_id :: jstr
  ps_time :: int
  ps_extracted :: extractor
  ps_external :: bool

definition blank :: "jstr \<Rightarrow> bool" where
  "blank s \<longleftrightarrow> js_trim s = []"

definition prepare_source :: "int \<Rightarrow> actor \<Rightarrow> source_input \<Rightarrow> memory_error + prepared_source" where
  "prepare_source now a s =
     (if blank (si_id s) then Inl SourceIdBlank
      else case value_or (si_time s) (Finite now) of
        NotFinite \<Rightarrow> Inl SourceTimeInvalid
      | Finite t \<Rightarrow> Inr \<lparr>ps_type = si_type s, ps_id = si_id s, ps_time = t,
          ps_extracted = value_or (si_extracted s) (extracted_by (ac_class a)),
          ps_external = value_or (si_external s) False\<rparr>)"

fun map_result :: "('a \<Rightarrow> 'e + 'b) \<Rightarrow> 'a list \<Rightarrow> 'e + 'b list" where
  "map_result f [] = Inr []"
| "map_result f (x # xs) = (case f x of
     Inl e \<Rightarrow> Inl e
   | Inr y \<Rightarrow> (case map_result f xs of Inl e \<Rightarrow> Inl e | Inr ys \<Rightarrow> Inr (y # ys)))"

definition resolve_sources :: "memory_input \<Rightarrow> int \<Rightarrow> actor \<Rightarrow> memory_error + prepared_source list" where
  "resolve_sources inp now a =
     (case value_or (mi_sources inp) [] of
        [] \<Rightarrow> Inl SourcesRequired
      | ss \<Rightarrow> (case map_result (prepare_source now a) ss of
          Inl e \<Rightarrow> Inl e
        | Inr ps \<Rightarrow> if distinct (map ps_id ps) then Inr ps else Inl SourceDuplicate))"

end
