(* ===== verification/Memory_Evidence.thy ===== *)
theory Memory_Evidence
  imports Memory_Sources
begin

text \<open>
  Resolution of the sources of a memory: each source must exist as what it claims to be, a worker
  extraction must carry the raw event or chat message it extracted from, and the evidence behind
  a source must be compatible with the owner and the visibility of the memory.
\<close>

section \<open>Evidence\<close>

record boundary_evidence =
  be_conversation :: "jstr option"
  be_type :: "chat_type option"
  be_group :: "jstr option"
  be_sender :: "jstr option"
  be_actor :: "jstr option"
  be_context :: "invocation_context option"

definition first_some :: "'a option \<Rightarrow> 'a option \<Rightarrow> 'a option" where
  "first_some x y = (case x of None \<Rightarrow> y | Some _ \<Rightarrow> x)"

definition account_matches :: "jstr \<Rightarrow> account_row \<Rightarrow> bool" where
  "account_matches sender a \<longleftrightarrow> pa_qq_active a
     \<and> (pa_account a = sender \<or> (prefix (lit ''qq-'') sender \<and> pa_account a = drop 3 sender))"

definition sender_user :: "evidence_db \<Rightarrow> jstr \<Rightarrow> jstr option" where
  "sender_user ev sender = map_option pa_user (find (account_matches sender) (ev_accounts ev))"

definition chat_evidence :: "evidence_db \<Rightarrow> chat_row \<Rightarrow> boundary_evidence" where
  "chat_evidence ev c = \<lparr>be_conversation = Some (ch_conversation c), be_type = Some (ch_type c),
     be_group = ch_group c, be_sender = sender_user ev (ch_sender c), be_actor = None, be_context = None\<rparr>"

definition read_chat_evidence :: "evidence_db \<Rightarrow> source_type \<Rightarrow> jstr \<Rightarrow> boundary_evidence list" where
  "read_chat_evidence ev ty i =
     map (chat_evidence ev) (filter (\<lambda>c. ch_raw c \<in> set (ev_raws ev)
         \<and> (if ty = RawEvent then ch_raw c = i else ch_id c = i)) (ev_chats ev))"

definition left_join :: "('a \<Rightarrow> bool) \<Rightarrow> 'a list \<Rightarrow> 'a option list" where
  "left_join P rows = (case filter P rows of [] \<Rightarrow> [None] | rs \<Rightarrow> map Some rs)"

definition tool_evidence ::
  "evidence_db \<Rightarrow> tool_call_row \<Rightarrow> turn_row option \<Rightarrow> trace_row option \<Rightarrow> chat_row option \<Rightarrow> boundary_evidence" where
  "tool_evidence ev tc tu ct ch =
     \<lparr>be_conversation = first_some (Option.bind ct ct_conversation)
        (first_some (map_option tu_conversation tu) (map_option ch_conversation ch)),
      be_type = first_some (Option.bind ct ct_type) (map_option ch_type ch),
      be_group = first_some (Option.bind ct ct_group) (Option.bind ch ch_group),
      be_sender = Option.bind ch (\<lambda>c. sender_user ev (ch_sender c)),
      be_actor = tc_actor tc, be_context = tc_context tc\<rparr>"

definition read_tool_evidence :: "evidence_db \<Rightarrow> jstr \<Rightarrow> boundary_evidence list" where
  "read_tool_evidence ev i =
     [tool_evidence ev tc tu ct ch.
        tc \<leftarrow> ev_tools ev, tc_id tc = i \<and> tc_success tc,
        tu \<leftarrow> left_join (\<lambda>t. tc_turn tc = Some (tu_id t)) (ev_turns ev),
        ct \<leftarrow> left_join (\<lambda>x. case tu of None \<Rightarrow> False
                | Some t \<Rightarrow> tu_context_pack t = Some (ct_id x) \<and> ct_turn x = tu_id t) (ev_traces ev),
        raw \<leftarrow> left_join (\<lambda>r. case tu of None \<Rightarrow> False | Some t \<Rightarrow> tu_trigger t = r) (ev_raws ev),
        ch \<leftarrow> left_join (\<lambda>c. raw = Some (ch_raw c)) (ev_chats ev)]"

section \<open>Boundaries\<close>

fun present :: "jstr option \<Rightarrow> bool" where
  "present None = False"
| "present (Some s) = (s \<noteq> [])"

definition same_some :: "'a option \<Rightarrow> 'a option \<Rightarrow> bool" where
  "same_some x y \<longleftrightarrow> x \<noteq> None \<and> x = y"

definition user_evidence_fits :: "memory_input \<Rightarrow> boundary_evidence \<Rightarrow> bool" where
  "user_evidence_fits inp ev =
     (if present (be_actor ev) \<and> present (be_sender ev) \<and> be_actor ev \<noteq> be_sender ev then False
      else if \<not> same_some (first_some (be_actor ev) (be_sender ev)) (mi_user inp) then False
      else if be_type ev = Some GroupType \<or> be_context ev = Some GroupChat then
        (if mi_visibility inp = OwnerAdminOnly then True
         else if mi_visibility inp \<noteq> SameGroupOnly then False
         else same_some (mi_group inp) (be_group ev) \<or> same_some (mi_conversation inp) (be_conversation ev))
      else if mi_visibility inp = PrivateOnly then
        be_type ev = Some PrivateType \<or> (be_type ev = None \<and> be_context ev = Some PrivateChat)
      else mi_visibility inp \<noteq> SameGroupOnly)"

definition evidence_fits :: "memory_input \<Rightarrow> boundary_evidence \<Rightarrow> bool" where
  "evidence_fits inp ev =
     (if mi_scope inp = MUser then user_evidence_fits inp ev
      else if mi_scope inp = MGroup then be_type ev = Some GroupType \<and> same_some (be_group ev) (mi_group inp)
      else same_some (be_conversation ev) (mi_conversation inp))"

definition source_evidence :: "evidence_db \<Rightarrow> prepared_source \<Rightarrow> boundary_evidence list" where
  "source_evidence ev s =
     (if ps_type s = ToolOutput then read_tool_evidence ev (ps_id s)
      else read_chat_evidence ev (ps_type s) (ps_id s))"

definition owned_scope :: "mem_scope \<Rightarrow> bool" where
  "owned_scope sc \<longleftrightarrow> sc = MUser \<or> sc = MGroup \<or> sc = MConversation"

definition boundaries_ok :: "evidence_db \<Rightarrow> memory_input \<Rightarrow> prepared_source list \<Rightarrow> bool" where
  "boundaries_ok ev inp ss \<longleftrightarrow> \<not> owned_scope (mi_scope inp)
     \<or> list_all (\<lambda>s. ps_type s = UserCommand \<or> ps_type s = WorkerExtraction
          \<or> (source_evidence ev s \<noteq> [] \<and> list_all (evidence_fits inp) (source_evidence ev s))) ss"

section \<open>References of a worker extraction\<close>

definition letter :: "nat \<Rightarrow> bool" where
  "letter c \<longleftrightarrow> upper c \<or> (97 \<le> c \<and> c \<le> 122)"

definition normalized_key :: "jstr \<Rightarrow> jstr" where
  "normalized_key k = map fold_case (filter letter k)"

fun added_references :: "jval \<Rightarrow> jstr list" where
  "added_references (JArr vs) = concat (map added_references vs)"
| "added_references (JStr s) = (if blank s then [] else [js_trim s])"
| "added_references _ = []"

definition key_references :: "jstr \<Rightarrow> jval \<Rightarrow> (source_type \<times> jstr) list" where
  "key_references k v =
     (if normalized_key k = lit ''raweventid'' \<or> normalized_key k = lit ''sourceraweventid''
      then map (Pair RawEvent) (added_references v) else [])
     @ (if normalized_key k = lit ''chatmessageid'' \<or> normalized_key k = lit ''sourcechatmessageid''
        then map (Pair ChatMessage) (added_references v) else [])"

fun collect_references :: "jval \<Rightarrow> (source_type \<times> jstr) list" where
  "collect_references (JArr vs) = concat (map collect_references vs)"
| "collect_references (JObj fs) = concat (map (\<lambda>(k, v). key_references k v @ collect_references v) fs)"
| "collect_references _ = []"

definition column_references :: "jval option \<Rightarrow> (source_type \<times> jstr) list" where
  "column_references v = (case v of None \<Rightarrow> [] | Some j \<Rightarrow> collect_references j)"

definition references_canonical :: "(source_type \<times> jstr) list \<Rightarrow> prepared_source list \<Rightarrow> bool" where
  "references_canonical refs ss \<longleftrightarrow>
     list_ex (\<lambda>(ty, i). list_ex (\<lambda>s. ps_type s = ty \<and> ps_id s = i) ss) refs"

section \<open>Resolving\<close>

definition find_worker_job :: "evidence_db \<Rightarrow> jstr \<Rightarrow> worker_job option" where
  "find_worker_job ev i = find (\<lambda>j. wj_id j = i \<and> wj_done j) (ev_jobs ev)"

definition find_worker_attempt :: "evidence_db \<Rightarrow> jstr \<Rightarrow> (worker_attempt \<times> worker_job) option" where
  "find_worker_attempt ev i =
     find (\<lambda>(a, j). wa_id a = i \<and> wa_done a \<and> wj_id j = wa_job a \<and> wj_done j)
       (List.product (ev_attempts ev) (ev_jobs ev))"

record resolved_source =
  rs_source :: prepared_source
  rs_link :: source_link

definition resolve_worker ::
  "evidence_db \<Rightarrow> prepared_source list \<Rightarrow> prepared_source \<Rightarrow> memory_error + resolved_source" where
  "resolve_worker ev ss s =
     (if \<not> list_ex (\<lambda>q. ps_type q = RawEvent \<or> ps_type q = ChatMessage) ss then Inl WorkerNeedsCanonical
      else case (find_worker_job ev (ps_id s), find_worker_attempt ev (ps_id s)) of
        (Some j, None) \<Rightarrow>
          if references_canonical (column_references (wj_payload j) @ column_references (wj_result j)) ss
          then Inr \<lparr>rs_source = s, rs_link = LinkJob (wj_id j)\<rparr> else Inl WorkerReferenceLost
      | (None, Some (a, j)) \<Rightarrow>
          if references_canonical (column_references (wj_payload j) @ column_references (wj_result j)
               @ column_references (wa_result a)) ss
          then Inr \<lparr>rs_source = s, rs_link = LinkAttempt (wa_id a)\<rparr> else Inl WorkerReferenceLost
      | _ \<Rightarrow> Inl WorkerUnresolved)"

definition resolve_reference ::
  "evidence_db \<Rightarrow> memory_input \<Rightarrow> actor \<Rightarrow> prepared_source list \<Rightarrow> prepared_source \<Rightarrow> memory_error + resolved_source" where
  "resolve_reference ev inp a ss s =
     (if ps_type s = UserCommand then
        (if \<not> ps_external s then Inl CommandNotExternal
         else if ac_context a \<noteq> AdminCli \<or> \<not> starts (mi_context inp) ''admin_cli'' then Inl CommandContext
         else Inr \<lparr>rs_source = s, rs_link = LinkExternal\<rparr>)
      else if ps_external s then Inl InternalMarkedExternal
      else if ps_type s = RawEvent then
        (if ps_id s \<in> set (ev_raws ev) then Inr \<lparr>rs_source = s, rs_link = LinkRaw (ps_id s)\<rparr> else Inl RawUnresolved)
      else if ps_type s = ChatMessage then
        (if ps_id s \<in> ch_id ` set (ev_chats ev) then Inr \<lparr>rs_source = s, rs_link = LinkChat (ps_id s)\<rparr>
         else Inl ChatUnresolved)
      else if ps_type s = ToolOutput then
        (case find (\<lambda>t. tc_id t = ps_id s) (ev_tools ev) of
           None \<Rightarrow> Inl ToolUnresolved
         | Some t \<Rightarrow> if tc_success t then Inr \<lparr>rs_source = s, rs_link = LinkTool (ps_id s)\<rparr> else Inl ToolUnresolved)
      else resolve_worker ev ss s)"

definition resolve_references ::
  "evidence_db \<Rightarrow> memory_input \<Rightarrow> prepared_source list \<Rightarrow> actor \<Rightarrow> memory_error + resolved_source list" where
  "resolve_references ev inp ss a =
     (case map_result (resolve_reference ev inp a ss) ss of
        Inl e \<Rightarrow> Inl e
      | Inr rs \<Rightarrow> if boundaries_ok ev inp ss then Inr rs else Inl BoundaryIncompatible)"

section \<open>Facts\<close>

lemma map_result_Inr:
  "map_result f xs = Inr ys \<Longrightarrow> list_all2 (\<lambda>x y. f x = Inr y) xs ys"
  by (induction xs arbitrary: ys) (auto split: sum.splits)

lemma resolve_references_Inr:
  assumes "resolve_references ev inp ss a = Inr rs"
  shows "list_all2 (\<lambda>s r. resolve_reference ev inp a ss s = Inr r) ss rs \<and> boundaries_ok ev inp ss"
  using assms map_result_Inr [of "resolve_reference ev inp a ss" ss]
  by (auto simp: resolve_references_def split: sum.splits if_splits)

lemma resolve_reference_same: "resolve_reference ev inp a ss s = Inr r \<Longrightarrow> rs_source r = s"
  by (auto simp: resolve_reference_def resolve_worker_def split: if_splits option.splits prod.splits)

end
