(* ===== verification/Memory_Repository.thy ===== *)
theory Memory_Repository
  imports Memory_Evidence "HOL-Library.Product_Lexorder"
begin

text \<open>
  \<open>MemoryRepository\<close> of \<open>src/storage/memory-repository.ts\<close>: the governed creation of a
  memory, the changes of its state with a revision and an audit entry each, and the retrieval
  of memories for a context.  New identifiers and clock readings are arguments; a transaction that
  throws leaves the tables as they were.  The full-text index is the function \<open>fts\<close> that ranks a
  row of the table for a query.  The structured details of an audit entry are not kept, apart from the policy adjustments; a limit is not negative.
\<close>

section \<open>State\<close>

record memory_db =
  memories :: "memory_row list"
  msources :: "source_row list"
  revisions :: "revision_row list"
  audits :: "audit_row list"
  evidence :: evidence_db
  users :: "jstr list"
  policies :: "(jstr \<times> bool) list option"

record memory_options =
  procedure_writes :: bool
  procedure_retrieval :: bool

fun state_name :: "mem_state \<Rightarrow> jstr" where
  "state_name Proposed = lit ''proposed''"
| "state_name Active = lit ''active''"
| "state_name Rejected = lit ''rejected''"
| "state_name Superseded = lit ''superseded''"
| "state_name Disabled = lit ''disabled''"
| "state_name Deleted = lit ''deleted''"

definition find_memory :: "jstr \<Rightarrow> memory_db \<Rightarrow> memory_row option" where
  "find_memory i db = find (\<lambda>r. mr_id r = i) (memories db)"

definition list_source_ids :: "jstr \<Rightarrow> memory_db \<Rightarrow> jstr list" where
  "list_source_ids i db =
     map sr_id (sort_key (\<lambda>s. (sr_time s, sr_id s)) (filter (\<lambda>s. sr_memory s = i) (msources db)))"

text \<open>A stored expiry of 0 reads as no expiry.\<close>

definition row_to_record :: "memory_db \<Rightarrow> memory_row \<Rightarrow> memory_record" where
  "row_to_record db r =
     \<lparr>md_row = (if mr_expires r = Some 0 then r\<lparr>mr_expires := None\<rparr> else r),
      md_sources = list_source_ids (mr_id r) db\<rparr>"

definition find_by_id :: "jstr \<Rightarrow> memory_db \<Rightarrow> memory_record option" where
  "find_by_id i db = map_option (row_to_record db) (find_memory i db)"

section \<open>Texts of the audit trail\<close>

definition platform_mark :: jstr where
  "platform_mark = lit ''[REDACTED:platform_id]''"

definition nonzero_digit :: "nat \<Rightarrow> bool" where
  "nonzero_digit c \<longleftrightarrow> 49 \<le> c \<and> c \<le> 57"

definition rx_platform_id :: rx where
  "rx_platform_id = rx_seq [NotBehind alnum, rx_ilit (lit ''qq-''), rx_opt (rx_ilit (lit ''group-'')),
     One nonzero_digit, Rep 4 (Some 11) (One digit), NotAhead alnum]"

definition rx_bare_id :: rx where
  "rx_bare_id = rx_seq [NotBehind alnum, One nonzero_digit, Rep 4 (Some 11) (One digit), NotAhead alnum]"

definition redact_platform_ids :: "jstr \<Rightarrow> jstr" where
  "redact_platform_ids text = rx_replace rx_bare_id platform_mark (rx_replace rx_platform_id platform_mark text)"

definition redact_audit_text :: "jstr \<Rightarrow> jstr" where
  "redact_audit_text text =
     (let platform = redact_platform_ids text;
          redacted = redact_platform_ids (redact_secrets platform)
      in if js_includes platform platform_mark \<and> \<not> js_includes redacted platform_mark
         then redacted @ lit '' '' @ platform_mark else redacted)"

section \<open>Policy of a creation\<close>

definition default_create_reason :: "memory_input \<Rightarrow> jstr" where
  "default_create_reason inp =
     lit ''Governed memory create via repository ('' @ state_name (mi_state inp) @ lit '')''"

definition group_derived_user :: "memory_input \<Rightarrow> bool" where
  "group_derived_user inp \<longleftrightarrow> mi_scope inp = MUser \<and> starts (mi_context inp) ''group_chat''"

definition unsafe_group_visibility :: "mem_visibility \<Rightarrow> bool" where
  "unsafe_group_visibility v \<longleftrightarrow> v \<noteq> SameGroupOnly \<and> v \<noteq> OwnerAdminOnly"

definition visibility_adjustment :: jstr where
  "visibility_adjustment = lit ''group-chat-derived user memory visibility forced to same_group_only''"

definition apply_create_policy ::
  "memory_options \<Rightarrow> memory_input \<Rightarrow> memory_error + memory_input \<times> jstr list" where
  "apply_create_policy opts inp =
     (if mi_kind inp = Procedure \<and> \<not> procedure_writes opts then Inl ProcedureWritesDisabled
      else if group_derived_user inp \<and> unsafe_group_visibility (mi_visibility inp)
      then Inr (inp\<lparr>mi_visibility := SameGroupOnly,
                   mi_reason := Some (value_or (mi_reason inp) (default_create_reason inp)
                     @ lit ''; L0 policy: '' @ visibility_adjustment)\<rparr>, [visibility_adjustment])
      else Inr (inp, []))"

definition blank_owner :: "jstr option \<Rightarrow> bool" where
  "blank_owner f = (case f of None \<Rightarrow> False | Some s \<Rightarrow> blank s)"

definition assert_scope_owner :: "memory_input \<Rightarrow> memory_error option" where
  "assert_scope_owner inp =
     (if blank_owner (mi_user inp) \<or> blank_owner (mi_group inp) \<or> blank_owner (mi_conversation inp)
      then Some OwnerFieldBlank
      else if mi_scope inp = MUser then
        (if mi_user inp = None then Some ScopeRequiresOwner
         else if mi_visibility inp = SameGroupOnly \<and> mi_group inp = None \<and> mi_conversation inp = None
         then Some SameGroupRequiresGroup else None)
      else if mi_scope inp = MGroup then
        (if mi_group inp = None then Some ScopeRequiresOwner
         else if mi_user inp \<noteq> None then Some ScopeForbidsOwner else None)
      else if mi_scope inp = MConversation then
        (if mi_conversation inp = None then Some ScopeRequiresOwner
         else if mi_user inp \<noteq> None then Some ScopeForbidsOwner else None)
      else if mi_user inp \<noteq> None \<or> mi_group inp \<noteq> None \<or> mi_conversation inp \<noteq> None
      then Some ScopeForbidsOwner else None)"

definition scan_blocked :: "memory_input \<Rightarrow> secret_finding list" where
  "scan_blocked inp =
     (if mi_sensitivity inp = SecretSensitivity then [SecretFound (lit ''declared_sensitivity'')]
      else if mi_sensitivity inp = ProhibitedSensitivity then [ProhibitedFound (lit ''declared_sensitivity'')]
      else scan_memory (mi_title inp @ [10] @ mi_content inp))"

text \<open>The three checks a creation and \<open>assertCreatePolicyAllowed\<close> share.\<close>

definition govern_create :: "memory_options \<Rightarrow> memory_input \<Rightarrow> memory_error + memory_input \<times> jstr list" where
  "govern_create opts inp =
     (case apply_create_policy opts inp of
        Inl e \<Rightarrow> Inl e
      | Inr (g, adj) \<Rightarrow>
          (case assert_scope_owner g of
             Some e \<Rightarrow> Inl e
           | None \<Rightarrow> if scan_blocked g = [] then Inr (g, adj) else Inl (SecretOrProhibited (scan_blocked g))))"

definition resolve_expires :: "js_time option \<Rightarrow> memory_error + int option" where
  "resolve_expires t = (case t of
     None \<Rightarrow> Inr None | Some (Finite n) \<Rightarrow> Inr (Some n) | Some NotFinite \<Rightarrow> Inl ExpiresInvalid)"

definition default_decision :: "jstr \<Rightarrow> mem_state \<Rightarrow> jstr" where
  "default_decision i st = lit ''policy:l0:'' @ state_name st @ lit '':'' @ i"

definition memory_risk :: "memory_input \<Rightarrow> risk_level" where
  "memory_risk inp = (if mi_sensitivity inp = Sensitive then MediumRisk
     else if mi_visibility inp = OwnerAdminOnly then MediumRisk else LowRisk)"

section \<open>Creating\<close>

definition new_memory :: "memory_input \<Rightarrow> jstr \<Rightarrow> jstr \<Rightarrow> int option \<Rightarrow> int \<Rightarrow> memory_row" where
  "new_memory inp i decision expires now =
     \<lparr>mr_id = i, mr_scope = mi_scope inp, mr_user = mi_user inp, mr_group = mi_group inp,
      mr_conversation = mi_conversation inp, mr_subject = mi_subject inp, mr_visibility = mi_visibility inp,
      mr_sensitivity = mi_sensitivity inp, mr_authority = mi_authority inp, mr_kind = mi_kind inp,
      mr_title = mi_title inp, mr_content = mi_content inp, mr_state = mi_state inp,
      mr_confidence = mi_confidence inp, mr_importance = mi_importance inp, mr_context = mi_context inp,
      mr_decision = Some decision, mr_created = now, mr_updated = now, mr_expires = expires\<rparr>"

definition in_score :: "int \<Rightarrow> bool" where
  "in_score x \<longleftrightarrow> 0 \<le> x \<and> x \<le> score_one"

text \<open>The primary key, the check constraints and the foreign key of \<open>memory_records\<close>.\<close>

definition memory_fits :: "memory_db \<Rightarrow> memory_row \<Rightarrow> bool" where
  "memory_fits db r \<longleftrightarrow> mr_id r \<notin> mr_id ` set (memories db)
     \<and> in_score (mr_confidence r) \<and> in_score (mr_importance r)
     \<and> (case mr_user r of None \<Rightarrow> True | Some u \<Rightarrow> u \<in> set (users db))"

definition source_rows :: "jstr \<Rightarrow> resolved_source list \<Rightarrow> source_row list" where
  "source_rows i rs = map (\<lambda>r. let s = rs_source r in
     \<lparr>sr_memory = i, sr_type = ps_type s, sr_id = ps_id s, sr_time = ps_time s,
      sr_extracted = ps_extracted s, sr_link = rs_link r\<rparr>) rs"

definition next_revision :: "jstr \<Rightarrow> memory_db \<Rightarrow> nat" where
  "next_revision i db = foldl max 0 (map rv_number (filter (\<lambda>v. rv_memory v = i) (revisions db))) + 1"

fun scope_name :: "mem_scope \<Rightarrow> jstr" where
  "scope_name MGlobal = lit ''global''"
| "scope_name MUser = lit ''user''"
| "scope_name MGroup = lit ''group''"
| "scope_name MConversation = lit ''conversation''"
| "scope_name MTool = lit ''tool''"
| "scope_name MSystem = lit ''system''"

definition create_summary :: "memory_input \<Rightarrow> jstr" where
  "create_summary inp = value_or (mi_summary inp)
     (lit ''Created '' @ state_name (mi_state inp) @ lit '' '' @ scope_name (mi_scope inp) @ lit '' memory'')"

text \<open>The revision and the audit entry of one change, after its row was written.\<close>

definition record_change ::
  "jstr \<Rightarrow> nat \<Rightarrow> change_type \<Rightarrow> memory_record option \<Rightarrow> jstr \<Rightarrow> jstr \<Rightarrow> actor \<Rightarrow> jstr list \<Rightarrow> risk_level \<Rightarrow> jstr
    \<Rightarrow> int \<Rightarrow> jstr \<Rightarrow> jstr \<Rightarrow> memory_row \<Rightarrow> memory_db \<Rightarrow> memory_db" where
  "record_change i n ch previous reason summary a adj risk decision now rid uid row db =
     db\<lparr>revisions := revisions db @
          [\<lparr>rv_id = rid, rv_memory = i, rv_number = n, rv_change = ch, rv_previous = previous,
            rv_new = row_to_record db row, rv_reason = redact_audit_text reason,
            rv_actor = revision_actor a, rv_decision = Some decision, rv_created = now\<rparr>],
        audits := audits db @
          [\<lparr>au_id = uid, au_time = now, au_change = ch, au_memory = i, au_summary = redact_audit_text summary, au_actor = a,
            au_adjustments = adj, au_risk = risk, au_decision = decision\<rparr>]\<rparr>"

text \<open>\<open>fresh\<close>, \<open>rid\<close> and \<open>uid\<close> are the new ULIDs of the memory, its revision and its audit entry.\<close>

definition create_memory ::
  "memory_options \<Rightarrow> memory_input \<Rightarrow> jstr \<Rightarrow> jstr \<Rightarrow> jstr \<Rightarrow> int \<Rightarrow> memory_db \<Rightarrow> memory_db \<times> (memory_error + jstr)" where
  "create_memory opts inp fresh rid uid now db =
     (case govern_create opts inp of
        Inl e \<Rightarrow> (db, Inl e)
      | Inr (g, adj) \<Rightarrow>
          let i = value_or (mi_id g) fresh;
              decision = value_or (mi_decision g) (default_decision i (mi_state g));
              a = resolve_actor (mi_actor g) (mi_user g) (mi_authority g) (mi_context g) CreateChange
          in case resolve_sources g now a of
               Inl e \<Rightarrow> (db, Inl e)
             | Inr ss \<Rightarrow>
                 (case resolve_expires (mi_expires g) of
                    Inl e \<Rightarrow> (db, Inl e)
                  | Inr expires \<Rightarrow>
                      (case resolve_references (evidence db) g ss a of
                         Inl e \<Rightarrow> (db, Inl e)
                       | Inr rs \<Rightarrow>
                           let row = new_memory g i decision expires now;
                               db1 = db\<lparr>memories := memories db @ [row], msources := msources db @ source_rows i rs\<rparr>
                           in if \<not> memory_fits db row \<or> rid \<in> rv_id ` set (revisions db)
                                 \<or> uid \<in> au_id ` set (audits db)
                              then (db, Inl RowConstraint)
                              else (record_change i 1 CreateChange None
                                      (value_or (mi_reason g) (default_create_reason g))
                                      (create_summary g) a adj (memory_risk g) decision now rid uid row db1, Inr i))))"

section \<open>Changing the state\<close>

record change_options =
  cg_actor :: "actor_input option"
  cg_reason :: "jstr option"
  cg_summary :: "jstr option"
  cg_decision :: "jstr option"

fun change_for :: "mem_state \<Rightarrow> mem_state \<Rightarrow> change_type" where
  "change_for Proposed Active = ApproveChange"
| "change_for _ Rejected = RejectChange"
| "change_for _ Superseded = SupersedeChange"
| "change_for _ Disabled = DisableChange"
| "change_for _ Deleted = DeleteChange"
| "change_for _ Active = RestoreChange"
| "change_for _ Proposed = UpdateChange"

fun allowed_next :: "mem_state \<Rightarrow> mem_state set" where
  "allowed_next Proposed = {Active, Rejected, Deleted}"
| "allowed_next Active = {Disabled, Deleted, Superseded}"
| "allowed_next Rejected = {Active, Deleted}"
| "allowed_next Disabled = {Active, Deleted}"
| "allowed_next Superseded = {Deleted}"
| "allowed_next Deleted = {Active}"

definition default_change_reason :: "mem_state \<Rightarrow> mem_state \<Rightarrow> jstr" where
  "default_change_reason st st' = lit ''State changed from '' @ state_name st @ lit '' to '' @ state_name st'"

definition change_summary :: "change_options \<Rightarrow> mem_state \<Rightarrow> jstr" where
  "change_summary opts st = value_or (cg_summary opts) (lit ''Changed memory state to '' @ state_name st)"

definition set_state :: "mem_state \<Rightarrow> int \<Rightarrow> jstr \<Rightarrow> memory_row \<Rightarrow> memory_row" where
  "set_state st now decision r = r\<lparr>mr_state := st, mr_updated := now, mr_decision := Some decision\<rparr>"

definition update_state ::
  "jstr \<Rightarrow> mem_state \<Rightarrow> change_options \<Rightarrow> jstr \<Rightarrow> jstr \<Rightarrow> int \<Rightarrow> memory_db \<Rightarrow> memory_db \<times> (memory_error + unit)" where
  "update_state i st opts rid uid now db =
     (case find_memory i db of
        None \<Rightarrow> (db, Inr ())
      | Some r \<Rightarrow>
          if mr_state r = st then (db, Inr ())
          else if st = Proposed then (db, Inl TransitionToProposed)
          else if st \<notin> allowed_next (mr_state r) then (db, Inl TransitionInvalid)
          else let ch = change_for (mr_state r) st;
                   decision = value_or (cg_decision opts) (default_decision i st);
                   a = resolve_actor (cg_actor opts) (mr_user r) (mr_authority r) (mr_context r) ch;
                   db1 = db\<lparr>memories := update_where (\<lambda>q. mr_id q = i) (set_state st now decision) (memories db)\<rparr>
               in if rid \<in> rv_id ` set (revisions db) \<or> uid \<in> au_id ` set (audits db)
                  then (db, Inl RowConstraint)
                  else (record_change i (next_revision i db) ch (Some (row_to_record db r))
                          (value_or (cg_reason opts) (default_change_reason (mr_state r) st))
                          (change_summary opts st) a [] LowRisk decision now rid uid (set_state st now decision r) db1, Inr ()))"

definition delete_memory where "delete_memory i = update_state i Deleted"

definition disable_memory where "disable_memory i = update_state i Disabled"

definition supersede_memory where "supersede_memory i = update_state i Superseded"

definition restore_memory where "restore_memory i = update_state i Active"

definition not_proposed :: "jstr \<Rightarrow> memory_db \<Rightarrow> bool" where
  "not_proposed i db = (case find_memory i db of None \<Rightarrow> False | Some r \<Rightarrow> mr_state r \<noteq> Proposed)"

definition decide_memory where
  "decide_memory i st opts rid uid now db =
     (if not_proposed i db then (db, Inl NotProposed) else update_state i st opts rid uid now db)"

definition approve_memory where "approve_memory i = decide_memory i Active"

definition reject_memory where "reject_memory i = decide_memory i Rejected"

section \<open>Retrieving\<close>

record memory_filters =
  mf_user :: "jstr option"
  mf_group :: "jstr option"
  mf_conversation :: "jstr option"
  mf_scope :: "mem_scope option"
  mf_context :: "chat_type option"
  mf_state :: "mem_state option"
  mf_limit :: "nat option"

text \<open>A filter on a column is there when its value is a non-empty string.\<close>

definition column_filter :: "jstr option \<Rightarrow> jstr option \<Rightarrow> bool" where
  "column_filter f col \<longleftrightarrow> present f \<longrightarrow> col = f"

definition context_clause :: "memory_filters \<Rightarrow> memory_row \<Rightarrow> bool" where
  "context_clause f r = (case mf_context f of
     None \<Rightarrow> True
   | Some PrivateType \<Rightarrow> mr_visibility r \<in> {PrivateOnly, SameUserAnyContext, PublicMemory}
   | Some GroupType \<Rightarrow> mr_visibility r \<in> {SameUserAnyContext, PublicMemory}
       \<or> (mr_visibility r = SameGroupOnly
          \<and> ((present (mf_group f) \<and> mr_group r = mf_group f)
             \<or> (present (mf_conversation f) \<and> mr_conversation r = mf_conversation f))))"

definition group_policy_enabled :: "memory_db \<Rightarrow> jstr \<Rightarrow> bool" where
  "group_policy_enabled db g = (case policies db of None \<Rightarrow> False | Some ps \<Rightarrow> (g, True) \<in> set ps)"

definition group_summary :: "memory_row \<Rightarrow> bool" where
  "group_summary r \<longleftrightarrow> mr_scope r = MGroup \<and> mr_kind r = SummaryKind"

definition summary_clause :: "memory_db \<Rightarrow> memory_filters \<Rightarrow> memory_row \<Rightarrow> bool" where
  "summary_clause db f r \<longleftrightarrow>
     (if mf_context f \<noteq> Some GroupType then True
      else case mf_group f of
        None \<Rightarrow> \<not> group_summary r
      | Some g \<Rightarrow> if g = [] \<or> js_trim g \<noteq> g \<or> policies db = None then \<not> group_summary r
          else group_summary r \<longrightarrow> (case mr_group r of None \<Rightarrow> False | Some q \<Rightarrow> group_policy_enabled db q))"

definition not_expired :: "int \<Rightarrow> memory_row \<Rightarrow> bool" where
  "not_expired now r = (case mr_expires r of None \<Rightarrow> True | Some t \<Rightarrow> now < t)"

definition select_clause :: "memory_options \<Rightarrow> memory_filters \<Rightarrow> int \<Rightarrow> memory_db \<Rightarrow> memory_row \<Rightarrow> bool" where
  "select_clause opts f now db r \<longleftrightarrow>
     (procedure_retrieval opts \<or> mr_kind r \<noteq> Procedure)
     \<and> mr_state r = value_or (mf_state f) Active
     \<and> (value_or (mf_state f) Active = Active \<longrightarrow> not_expired now r)
     \<and> mr_sensitivity r \<notin> {SecretSensitivity, ProhibitedSensitivity}
     \<and> column_filter (mf_user f) (mr_user r) \<and> column_filter (mf_group f) (mr_group r)
     \<and> column_filter (mf_conversation f) (mr_conversation r)
     \<and> (mf_scope f = None \<or> mf_scope f = Some (mr_scope r))
     \<and> context_clause f r \<and> summary_clause db f r"

definition allowed_for_retrieval :: "memory_filters \<Rightarrow> memory_row \<Rightarrow> bool" where
  "allowed_for_retrieval f r =
     (if mr_sensitivity r = SecretSensitivity \<or> mr_sensitivity r = ProhibitedSensitivity then False
      else case mf_context f of
        None \<Rightarrow> True
      | Some ctx \<Rightarrow> (case mr_visibility r of
            OwnerAdminOnly \<Rightarrow> False
          | PrivateOnly \<Rightarrow> ctx = PrivateType
          | SameGroupOnly \<Rightarrow> ctx = GroupType
              \<and> ((present (mf_group f) \<and> mr_group r = mf_group f)
                 \<or> (present (mf_conversation f) \<and> mr_conversation r = mf_conversation f))
          | SameUserAnyContext \<Rightarrow> True
          | PublicMemory \<Rightarrow> True))"

definition rank_key :: "memory_row \<Rightarrow> int \<times> int" where
  "rank_key r = (- mr_importance r, - mr_created r)"

definition retrieve :: "memory_options \<Rightarrow> memory_filters \<Rightarrow> int \<Rightarrow> memory_db \<Rightarrow> memory_record list" where
  "retrieve opts f now db =
     map (row_to_record db)
       (filter (allowed_for_retrieval f)
         (take (value_or (mf_limit f) 50)
           (sort_key rank_key (filter (select_clause opts f now db) (memories db)))))"

definition search ::
  "(memory_row list \<Rightarrow> jstr \<Rightarrow> memory_row \<Rightarrow> int option) \<Rightarrow> memory_options \<Rightarrow> jstr \<Rightarrow> memory_filters
    \<Rightarrow> int \<Rightarrow> memory_db \<Rightarrow> memory_record list" where
  "search fts opts query f now db =
     map (row_to_record db)
       (filter (allowed_for_retrieval f)
         (take (value_or (mf_limit f) 50)
           (sort_key (\<lambda>r. (value_or (fts (memories db) query r) 0, mr_id r))
             (filter (\<lambda>r. fts (memories db) query r \<noteq> None \<and> select_clause opts f now db r) (memories db)))))"

subsection \<open>Summaries a policy keeps back\<close>

text \<open>A limit that is not finite is the default; a finite one is cut to 1 up to 50.\<close>

definition bounded_trace_limit :: "js_time option \<Rightarrow> nat" where
  "bounded_trace_limit l = (case l of Some (Finite n) \<Rightarrow> nat (min (max n 1) 50) | _ \<Rightarrow> 50)"

definition blocked_summary_ids ::
  "jstr \<Rightarrow> js_time option \<Rightarrow> int \<Rightarrow> memory_db \<Rightarrow> memory_error + jstr list" where
  "blocked_summary_ids g limit now db =
     (if g = [] \<or> js_trim g \<noteq> g then Inl GroupIdInvalid
      else if group_policy_enabled db g then Inr []
      else Inr (map mr_id (take (bounded_trace_limit limit) (sort_key rank_key
        (filter (\<lambda>r. mr_state r = Active \<and> not_expired now r
            \<and> mr_sensitivity r \<notin> {SecretSensitivity, ProhibitedSensitivity}
            \<and> mr_group r = Some g \<and> group_summary r
            \<and> context_clause \<lparr>mf_user = None, mf_group = Some g, mf_conversation = None, mf_scope = None,
                 mf_context = Some GroupType, mf_state = None, mf_limit = None\<rparr> r) (memories db))))))"

end
