(* ===== verification/Memory_Facts.thy ===== *)
theory Memory_Facts
  imports Memory_Repository Job_Queue_Facts
begin

text \<open>
  The facts of the memory repository: the branches of its two writing operations, the history
  of a memory as its chain of revisions, and the invariant of every reachable state: rows are
  governed, revisions are numbered without gaps and end in the current row.
\<close>

section \<open>Branches\<close>

lemma apply_create_policy_Inr:
  assumes "apply_create_policy opts inp = Inr (g, adj)"
  shows "mi_scope g = mi_scope inp" "mi_context g = mi_context inp" "mi_user g = mi_user inp" "mi_group g = mi_group inp"
    "mi_conversation g = mi_conversation inp" "mi_title g = mi_title inp" "mi_content g = mi_content inp"
    "group_derived_user g \<longrightarrow> \<not> unsafe_group_visibility (mi_visibility g)"
    "mi_visibility g = mi_visibility inp \<or> mi_visibility g = SameGroupOnly"
    "mi_kind inp = Procedure \<longrightarrow> procedure_writes opts" "mi_kind g = mi_kind inp" "mi_id g = mi_id inp"
  using assms unfolding apply_create_policy_def
  by (auto simp: group_derived_user_def unsafe_group_visibility_def split: if_splits)

definition owner_ok :: "memory_row \<Rightarrow> bool" where
  "owner_ok r \<longleftrightarrow> \<not> blank_owner (mr_user r) \<and> \<not> blank_owner (mr_group r) \<and> \<not> blank_owner (mr_conversation r)
     \<and> (mr_user r \<noteq> None \<longleftrightarrow> mr_scope r = MUser)
     \<and> (mr_scope r = MGroup \<longrightarrow> mr_group r \<noteq> None) \<and> (mr_scope r = MConversation \<longrightarrow> mr_conversation r \<noteq> None)
     \<and> (mr_scope r \<in> {MGlobal, MTool, MSystem} \<longrightarrow> mr_group r = None \<and> mr_conversation r = None)
     \<and> (mr_scope r = MUser \<and> mr_visibility r = SameGroupOnly \<longrightarrow> mr_group r \<noteq> None \<or> mr_conversation r \<noteq> None)"

definition governed :: "memory_row \<Rightarrow> bool" where
  "governed r \<longleftrightarrow> owner_ok r \<and> mr_sensitivity r \<notin> {SecretSensitivity, ProhibitedSensitivity}
     \<and> scan_memory (mr_title r @ [10] @ mr_content r) = []
     \<and> in_score (mr_confidence r) \<and> in_score (mr_importance r)
     \<and> (mr_scope r = MUser \<and> starts (mr_context r) ''group_chat'' \<longrightarrow> mr_visibility r \<in> {SameGroupOnly, OwnerAdminOnly})"

lemma assert_scope_owner_None:
  assumes "assert_scope_owner g = None"
  shows "owner_ok (new_memory g i decision expires now)"
  using assms unfolding assert_scope_owner_def owner_ok_def
  by (cases "mi_scope g") (auto simp: new_memory_def split: if_splits)

lemma scan_blocked_empty: "scan_blocked g = [] \<longleftrightarrow>
    mi_sensitivity g \<notin> {SecretSensitivity, ProhibitedSensitivity} \<and> scan_memory (mi_title g @ [10] @ mi_content g) = []"
  by (auto simp: scan_blocked_def)

lemma govern_create_Inr:
  assumes "govern_create opts inp = Inr (g, adj)"
  shows "apply_create_policy opts inp = Inr (g, adj)" "assert_scope_owner g = None" "scan_blocked g = []"
  using assms by (auto simp: govern_create_def split: sum.splits option.splits if_splits)

lemma create_memory_cases:
  assumes "create_memory opts inp fresh rid uid now db = (db', r)"
  obtains (error) e where "db' = db" and "r = Inl e"
  | (made) g adj i decision a ss expires rs row where
      "govern_create opts inp = Inr (g, adj)" and "i = value_or (mi_id g) fresh"
      and "a = resolve_actor (mi_actor g) (mi_user g) (mi_authority g) (mi_context g) CreateChange"
      and "resolve_sources g now a = Inr ss" and "resolve_references (evidence db) g ss a = Inr rs"
      and "row = new_memory g i decision expires now" and "memory_fits db row"
      and "rid \<notin> rv_id ` set (revisions db)" and "uid \<notin> au_id ` set (audits db)" and "r = Inr i"
      and "db' = record_change i 1 CreateChange None (value_or (mi_reason g) (default_create_reason g))
             (create_summary g) a adj (memory_risk g) decision now rid uid row
             (db\<lparr>memories := memories db @ [row], msources := msources db @ source_rows i rs\<rparr>)"
      and "resolve_expires (mi_expires g) = Inr expires" and "decision = value_or (mi_decision g) (default_decision i (mi_state g))"
proof (cases "govern_create opts inp")
  case (Inl e)
  with assms show ?thesis by (intro error [of e]) (auto simp: create_memory_def)
next
  case (Inr ga)
  obtain g adj where ga: "ga = (g, adj)" by fastforce
  define i where "i = value_or (mi_id g) fresh"
  define decision where "decision = value_or (mi_decision g) (default_decision i (mi_state g))"
  define a where "a = resolve_actor (mi_actor g) (mi_user g) (mi_authority g) (mi_context g) CreateChange"
  show ?thesis
  proof (cases "resolve_sources g now a")
    case (Inl e)
    with assms Inr ga show ?thesis by (intro error [of e]) (auto simp: create_memory_def a_def Let_def)
  next
    case ss: (Inr ss)
    show ?thesis
    proof (cases "resolve_expires (mi_expires g)")
      case (Inl e)
      with assms Inr ga ss show ?thesis by (intro error [of e]) (auto simp: create_memory_def a_def Let_def)
    next
      case ex: (Inr expires)
      show ?thesis
      proof (cases "resolve_references (evidence db) g ss a")
        case (Inl e)
        with assms Inr ga ss ex show ?thesis by (intro error [of e]) (auto simp: create_memory_def a_def Let_def)
      next
        case rs: (Inr rs)
        let ?row = "new_memory g i decision expires now"
        have body: "(db', r) = (if \<not> memory_fits db ?row \<or> rid \<in> rv_id ` set (revisions db) \<or> uid \<in> au_id ` set (audits db)
            then (db, Inl RowConstraint)
            else (record_change i 1 CreateChange None (value_or (mi_reason g) (default_create_reason g))
               (create_summary g) a adj (memory_risk g) decision now rid uid ?row
               (db\<lparr>memories := memories db @ [?row], msources := msources db @ source_rows i rs\<rparr>), Inr i))"
          unfolding assms [symmetric] create_memory_def Inr ga sum.case prod.case Let_def
            i_def [symmetric] a_def [symmetric] decision_def [symmetric] ss ex rs ..
        show ?thesis
        proof (cases "memory_fits db ?row \<and> rid \<notin> rv_id ` set (revisions db) \<and> uid \<notin> au_id ` set (audits db)")
          case False
          with body show ?thesis by (intro error [of RowConstraint]) auto
        next
          case True
          with body Inr ga ss rs ex show ?thesis
            by (intro made [of g adj i a ss rs ?row decision expires]) (simp_all add: i_def a_def decision_def)
        qed
      qed
    qed
  qed
qed

lemma update_state_cases:
  assumes "update_state i st opts rid uid now db = (db', r)"
  obtains (same) "db' = db" and "r = Inr ()" and "\<And>q. find_memory i db = Some q \<Longrightarrow> mr_state q = st"
  | (error) e q where "db' = db" and "r = Inl e" and "find_memory i db = Some q"
  | (changed) q decision a where "find_memory i db = Some q" and "st \<in> allowed_next (mr_state q)" and "r = Inr ()"
      and "rid \<notin> rv_id ` set (revisions db)" and "uid \<notin> au_id ` set (audits db)" and "mr_state q \<noteq> st"
      and "db' = record_change i (next_revision i db) (change_for (mr_state q) st) (Some (row_to_record db q))
             (value_or (cg_reason opts) (default_change_reason (mr_state q) st))
             (change_summary opts st) a [] LowRisk decision now rid uid (set_state st now decision q)
             (db\<lparr>memories := update_where (\<lambda>p. mr_id p = i) (set_state st now decision) (memories db)\<rparr>)"
proof (cases "find_memory i db")
  case None
  with assms show ?thesis by (intro same) (auto simp: update_state_def)
next
  case (Some q)
  show ?thesis
  proof (cases "mr_state q = st")
    case True
    with assms Some show ?thesis by (intro same) (auto simp: update_state_def)
  next
    case ne: False
    show ?thesis
    proof (cases "st \<in> allowed_next (mr_state q) \<and> rid \<notin> rv_id ` set (revisions db) \<and> uid \<notin> au_id ` set (audits db)")
      case False
      then have "db' = db" "\<exists>e. r = Inl e"
        using assms Some ne by (auto simp: update_state_def Let_def split: if_splits)
      with Some show ?thesis using error by blast
    next
      case True
      then have "st \<noteq> Proposed" by (cases "mr_state q") auto
      with True assms Some ne show ?thesis
        by (intro changed [OF Some]) (auto simp: update_state_def Let_def)
    qed
  qed
qed

section \<open>Histories\<close>

text \<open>What no change of a memory touches.\<close>

definition stable_part :: "memory_row \<Rightarrow> memory_row" where
  "stable_part r = r\<lparr>mr_state := Active, mr_updated := 0, mr_decision := None\<rparr>"

lemma stable_set_state [simp]: "stable_part (set_state st now d r) = stable_part r"
  by (simp add: stable_part_def set_state_def)

text \<open>A revision follows the record \<open>p\<close> the one before it left, if there was one.\<close>

fun follows :: "memory_record option \<Rightarrow> revision_row \<Rightarrow> bool" where
  "follows None v \<longleftrightarrow> rv_previous v = None \<and> rv_change v = CreateChange"
| "follows (Some p) v \<longleftrightarrow> rv_previous v = Some p
     \<and> mr_state (md_row (rv_new v)) \<in> allowed_next (mr_state (md_row p))
     \<and> rv_change v = change_for (mr_state (md_row p)) (mr_state (md_row (rv_new v)))
     \<and> stable_part (md_row (rv_new v)) = stable_part (md_row p) \<and> md_sources (rv_new v) = md_sources p"

fun chained :: "memory_record option \<Rightarrow> revision_row list \<Rightarrow> bool" where
  "chained p [] \<longleftrightarrow> True"
| "chained p (v # vs) \<longleftrightarrow> follows p v \<and> chained (Some (rv_new v)) vs"

definition revisions_of :: "memory_db \<Rightarrow> jstr \<Rightarrow> revision_row list" where
  "revisions_of db i = filter (\<lambda>v. rv_memory v = i) (revisions db)"

definition history_ok :: "memory_db \<Rightarrow> memory_row \<Rightarrow> bool" where
  "history_ok db r \<longleftrightarrow> (let vs = revisions_of db (mr_id r) in vs \<noteq> []
     \<and> map rv_number vs = [1..<Suc (length vs)] \<and> chained None vs \<and> rv_new (last vs) = row_to_record db r)"

definition memory_inv :: "memory_db \<Rightarrow> bool" where
  "memory_inv db \<longleftrightarrow> distinct (map mr_id (memories db))
     \<and> sr_memory ` set (msources db) \<subseteq> mr_id ` set (memories db)
     \<and> rv_memory ` set (revisions db) \<subseteq> mr_id ` set (memories db)
     \<and> (\<forall>r \<in> set (memories db). governed r \<and> history_ok db r)"

lemma chained_snoc: "chained p (vs @ [v]) \<longleftrightarrow> chained p vs \<and> follows (if vs = [] then p else Some (rv_new (last vs))) v"
  by (induction vs arbitrary: p) auto

lemma revisions_of_record_change:
  "revisions_of (record_change i n ch previous reason summary a adj risk decision now rid uid row db) k
    = revisions_of db k @ (if k = i then [\<lparr>rv_id = rid, rv_memory = i, rv_number = n, rv_change = ch,
        rv_previous = previous, rv_new = row_to_record db row, rv_reason = redact_audit_text reason,
        rv_actor = revision_actor a, rv_decision = Some decision, rv_created = now\<rparr>] else [])"
  by (auto simp: revisions_of_def record_change_def)

lemma record_change_keeps [simp]:
  "memories (record_change i n ch previous reason summary a adj risk decision now rid uid row db) = memories db"
  "msources (record_change i n ch previous reason summary a adj risk decision now rid uid row db) = msources db"
  "evidence (record_change i n ch previous reason summary a adj risk decision now rid uid row db) = evidence db"
  by (simp_all add: record_change_def)

lemma row_to_record_cong: "filter (\<lambda>s. sr_memory s = mr_id r) (msources db) = filter (\<lambda>s. sr_memory s = mr_id r) (msources db')
    \<Longrightarrow> row_to_record db r = row_to_record db' r"
  by (simp add: row_to_record_def list_source_ids_def)

lemma row_to_record_msources: "msources db' = msources db \<Longrightarrow> row_to_record db' r = row_to_record db r"
  by (rule row_to_record_cong) simp

lemma find_memory_iff:
  "distinct (map mr_id (memories db)) \<Longrightarrow> find_memory i db = Some r \<longleftrightarrow> r \<in> set (memories db) \<and> mr_id r = i"
  unfolding find_memory_def
proof (induction "memories db" arbitrary: db)
  case (Cons q rows)
  have "find (\<lambda>r. mr_id r = i) rows = Some r \<longleftrightarrow> r \<in> set rows \<and> mr_id r = i"
    using Cons.hyps(1) [of "db\<lparr>memories := rows\<rparr>"] Cons.prems Cons.hyps(2) [symmetric] by simp
  then show ?case unfolding Cons.hyps(2) [symmetric] using Cons.prems Cons.hyps(2) [symmetric] by auto
qed simp

lemma next_revision_last:
  assumes "map rv_number (revisions_of db i) = [1..<Suc (length (revisions_of db i))]"
  shows "next_revision i db = Suc (length (revisions_of db i))"
proof -
  have "foldl max m [1..<Suc n] = max m n" for m n :: nat
    by (induction n) auto
  then show ?thesis using assms by (simp add: next_revision_def revisions_of_def)
qed

lemma record_state [simp]: "mr_state (md_row (row_to_record db r)) = mr_state r"
  "md_row (row_to_record db (set_state st now d r)) = set_state st now d (md_row (row_to_record db r))"
  "mr_id (md_row (row_to_record db r)) = mr_id r"
  by (simp_all add: row_to_record_def set_state_def)

lemma set_state_fields [simp]:
  "mr_id (set_state st now d r) = mr_id r" "mr_state (set_state st now d r) = st" "governed (set_state st now d r) = governed r"
  by (simp_all add: set_state_def governed_def owner_ok_def)

lemma history_ok_other:
  assumes "history_ok db r" and "revisions_of db' (mr_id r) = revisions_of db (mr_id r)"
    and "row_to_record db' r = row_to_record db r"
  shows "history_ok db' r"
  using assms by (simp add: history_ok_def)

lemma memory_inv_create:
  assumes "create_memory opts inp fresh rid uid now db = (db', r)" and "memory_inv db"
  shows "memory_inv db'"
  using assms(1)
proof (cases rule: create_memory_cases)
  case (made g adj i decision a ss expires rs row)
  have i: "i \<notin> mr_id ` set (memories db)" "mr_id row = i"
    using made(6,7) by (simp_all add: memory_fits_def new_memory_def)
  have gov: "governed row"
    using govern_create_Inr [OF made(1)] apply_create_policy_Inr(8) [OF govern_create_Inr(1) [OF made(1)]]
      assert_scope_owner_None [OF govern_create_Inr(2) [OF made(1)]] made(7)
    unfolding made(6) governed_def scan_blocked_empty
    by (auto simp: new_memory_def memory_fits_def group_derived_user_def unsafe_group_visibility_def)
  have none: "revisions_of db i = []" "filter (\<lambda>s. sr_memory s = i) (msources db) = []"
    using assms(2) i(1) unfolding memory_inv_def revisions_of_def by (auto simp: filter_empty_conv)
  have new: "history_ok db' row"
    unfolding history_ok_def made(11) i(2) revisions_of_record_change
    using none by (simp add: revisions_of_def) (rule row_to_record_msources [symmetric], simp)
  have old: "history_ok db' q" if "q \<in> set (memories db)" for q
  proof (rule history_ok_other)
    from that have ne: "mr_id q \<noteq> i" using i(1) by auto
    show "history_ok db q" using assms(2) that by (simp add: memory_inv_def)
    show "revisions_of db' (mr_id q) = revisions_of db (mr_id q)"
      unfolding made(11) revisions_of_record_change using ne by (simp add: revisions_of_def)
    show "row_to_record db' q = row_to_record db q"
      by (rule row_to_record_cong) (use ne in \<open>simp add: made(11) source_rows_def Let_def filter_empty_conv\<close>)
  qed
  have "sr_memory ` set (msources db') \<subseteq> mr_id ` set (memories db')" "rv_memory ` set (revisions db') \<subseteq> mr_id ` set (memories db')"
    using assms(2) i(2) by (auto simp: memory_inv_def made(11) source_rows_def Let_def record_change_def)
  moreover have "distinct (map mr_id (memories db'))" "set (memories db') = insert row (set (memories db))"
    using assms(2) i by (auto simp: memory_inv_def made(11))
  moreover have "governed r' \<and> history_ok db' r'" if "r' \<in> set (memories db')" for r'
    using that calculation(4) new old gov assms(2) by (auto simp: memory_inv_def)
  ultimately show ?thesis unfolding memory_inv_def by blast
qed (use assms(2) in simp)

lemma memory_inv_update:
  assumes "update_state i st opts rid uid now db = (db', r)" and "memory_inv db"
  shows "memory_inv db'"
  using assms(1)
proof (cases rule: update_state_cases)
  case (changed q decision a)
  have dist: "distinct (map mr_id (memories db))" using assms(2) by (simp add: memory_inv_def)
  have q: "q \<in> set (memories db)" "mr_id q = i" using changed(1) find_memory_iff [OF dist] by simp_all
  let ?f = "set_state st now decision" and ?db1 = "db\<lparr>memories := update_where (\<lambda>p. mr_id p = i) (set_state st now decision) (memories db)\<rparr>"
  have ids: "map mr_id (memories db') = map mr_id (memories db)"
    unfolding changed(7) by (simp add: map_update_where)
  have hist: "history_ok db q" using assms(2) q by (simp add: memory_inv_def)
  have recs: "row_to_record db' p = row_to_record db p" "row_to_record ?db1 p = row_to_record db p" for p
    by (rule row_to_record_msources; simp add: changed(7))+
  let ?vs = "revisions_of db i"
  have h: "?vs \<noteq> []" "map rv_number ?vs = [1..<Suc (length ?vs)]" "chained None ?vs" "rv_new (last ?vs) = row_to_record db q"
    using hist q(2) by (simp_all add: history_ok_def Let_def)
  have n: "next_revision i db = Suc (length ?vs)" by (rule next_revision_last [OF h(2)])
  have one: "history_ok db' (?f q)"
  proof -
    have rev1: "revisions_of ?db1 i = ?vs" by (simp add: revisions_of_def)
    show ?thesis
      unfolding history_ok_def changed(7) set_state_fields q(2) revisions_of_record_change rev1
      using h n changed(2,7) by (simp add: Let_def chained_snoc recs) (simp add: row_to_record_def list_source_ids_def)
  qed
  have other: "history_ok db' p" if "p \<in> set (memories db)" "mr_id p \<noteq> i" for p
  proof (rule history_ok_other)
    show "history_ok db p" using assms(2) that by (simp add: memory_inv_def)
    show "revisions_of db' (mr_id p) = revisions_of db (mr_id p)"
      unfolding changed(7) revisions_of_record_change using that by (simp add: revisions_of_def)
  qed (rule recs)
  have mem: "set (memories db') = (\<lambda>p. if mr_id p = i then ?f p else p) ` set (memories db)"
    unfolding changed(7) by (simp add: set_update_where)
  have same: "p = q" if "p \<in> set (memories db)" "mr_id p = i" for p
    using find_memory_iff [OF dist] that changed(1) by (metis option.inject)
  have rows: "governed p \<and> history_ok db' p" if p: "p \<in> set (memories db')" for p
  proof -
    from p obtain p0 where p0: "p0 \<in> set (memories db)" "p = (if mr_id p0 = i then ?f p0 else p0)" unfolding mem by blast
    have "governed p0" using assms(2) p0(1) by (simp add: memory_inv_def)
    then show ?thesis using p0 one other same [OF p0(1)] by (cases "mr_id p0 = i") auto
  qed
  have "mr_id ` set (memories db') = mr_id ` set (memories db)" using ids by (metis list.set_map)
  moreover have "sr_memory ` set (msources db') = sr_memory ` set (msources db)"
    "rv_memory ` set (revisions db') = insert i (rv_memory ` set (revisions db))"
    by (simp_all add: changed(7)) (simp add: record_change_def)
  ultimately show ?thesis
    using assms(2) rows ids dist q unfolding memory_inv_def by auto
qed (use assms(2) in simp_all)

end
