(* ===== verification/Memory_Theorems.thy ===== *)
theory Memory_Theorems
  imports Memory_Facts
begin

text \<open>
  The theorems of the memory repository: what a created memory satisfies, the audit trail of
  every memory of a reachable state, the life cycle of a state change, and what a retrieval
  may return in a context.
\<close>

section \<open>Histories of the repository\<close>

inductive memory_step :: "memory_db \<Rightarrow> memory_db \<Rightarrow> bool" where
  mem_create: "create_memory opts inp fresh rid uid now db = (db', r) \<Longrightarrow> memory_step db db'"
| mem_update: "update_state i st chg rid uid now db = (db', r) \<Longrightarrow> memory_step db db'"
| mem_decide: "decide_memory i st chg rid uid now db = (db', r) \<Longrightarrow> memory_step db db'"
| mem_environment: "memories db' = memories db \<Longrightarrow> msources db' = msources db \<Longrightarrow> revisions db' = revisions db \<Longrightarrow>
    memory_step db db'"

definition empty_memory :: memory_db where
  "empty_memory = \<lparr>memories = [], msources = [], revisions = [], audits = [],
     evidence = \<lparr>ev_raws = [], ev_chats = [], ev_tools = [], ev_turns = [], ev_traces = [], ev_accounts = [],
       ev_jobs = [], ev_attempts = []\<rparr>, users = [], policies = None\<rparr>"

definition memory_reachable :: "memory_db \<Rightarrow> bool" where
  "memory_reachable db \<longleftrightarrow> memory_step\<^sup>*\<^sup>* empty_memory db"

lemma memory_inv_environment:
  assumes "memory_inv db" and "memories db' = memories db" "msources db' = msources db" "revisions db' = revisions db"
  shows "memory_inv db'"
proof -
  have "history_ok db' r = history_ok db r" for r
    using assms(2-4) row_to_record_msources [OF assms(3)] by (simp add: history_ok_def revisions_of_def)
  with assms show ?thesis by (simp add: memory_inv_def)
qed

lemma decide_memory_update:
  "decide_memory i st chg rid uid now db = (db', r) \<Longrightarrow> db' = db \<or> update_state i st chg rid uid now db = (db', r)"
  by (auto simp: decide_memory_def split: if_splits)

lemma memory_inv_step: "memory_step db db' \<Longrightarrow> memory_inv db \<Longrightarrow> memory_inv db'"
proof (induction rule: memory_step.induct)
  case mem_decide
  then show ?case using decide_memory_update memory_inv_update by metis
qed (auto intro: memory_inv_create memory_inv_update memory_inv_environment)

lemma memory_inv_steps: "memory_step\<^sup>*\<^sup>* db db' \<Longrightarrow> memory_inv db \<Longrightarrow> memory_inv db'"
  by (induction rule: rtranclp_induct) (simp_all add: memory_inv_step)

lemma memory_inv_reachable: "memory_reachable db \<Longrightarrow> memory_inv db"
  unfolding memory_reachable_def
  by (erule memory_inv_steps) (simp add: memory_inv_def empty_memory_def)

lemma update_row:
  assumes "update_state i st chg rid uid now db = (db', r)" and "memory_inv db" and "find_memory k db = Some q"
  shows "\<exists>q'. find_memory k db' = Some q' \<and> stable_part q' = stable_part q \<and> (mr_state q' = mr_state q \<or> k = i \<and> mr_state q' = st)"
  using assms(1)
proof (cases rule: update_state_cases)
  case (changed p decision a)
  let ?f = "set_state st now decision"
  have dist: "distinct (map mr_id (memories db))" using assms(2) by (simp add: memory_inv_def)
  have dist': "distinct (map mr_id (memories db'))"
    using memory_inv_update [OF assms(1,2)] by (simp add: memory_inv_def)
  have q: "q \<in> set (memories db)" "mr_id q = k" using assms(3) find_memory_iff [OF dist] by simp_all
  have "(if mr_id q = i then ?f q else q) \<in> set (memories db')"
    unfolding changed(7) by (simp add: set_update_where) (use q(1) in force)
  then have "find_memory k db' = Some (if mr_id q = i then ?f q else q)"
    using find_memory_iff [OF dist'] q(2) by simp
  then show ?thesis using q(2) by (auto intro!: exI [of _ "if mr_id q = i then ?f q else q"])
qed (use assms(3) in simp_all)

lemma memory_row_step:
  assumes "memory_step db db'" and "memory_inv db" and "find_memory k db = Some q"
  shows "\<exists>q'. find_memory k db' = Some q' \<and> stable_part q' = stable_part q"
  using assms
proof (induction rule: memory_step.induct)
  case (mem_create opts inp fresh rid uid now db db' r)
  then show ?case by (cases rule: create_memory_cases) (auto simp: find_memory_def find_append_left)
next
  case mem_update
  then show ?case using update_row by blast
next
  case mem_decide
  then show ?case using decide_memory_update update_row by metis
qed (simp add: find_memory_def)

lemma memory_row_steps:
  "memory_step\<^sup>*\<^sup>* db db' \<Longrightarrow> memory_inv db \<Longrightarrow> find_memory k db = Some q \<Longrightarrow>
    \<exists>q'. find_memory k db' = Some q' \<and> stable_part q' = stable_part q"
proof (induction rule: rtranclp_induct)
  case (step y z)
  then obtain q' where "find_memory k y = Some q'" "stable_part q' = stable_part q" by blast
  with memory_row_step [OF step.hyps(2) memory_inv_steps [OF step.hyps(1) step.prems(1)]] show ?case by metis
qed blast

section \<open>Provenance\<close>

text \<open>The link of a source names a row of the evidence that is what the source claims.\<close>

fun link_backed :: "evidence_db \<Rightarrow> source_row \<Rightarrow> source_link \<Rightarrow> bool" where
  "link_backed ev s LinkExternal \<longleftrightarrow> sr_type s = UserCommand"
| "link_backed ev s (LinkRaw x) \<longleftrightarrow> sr_type s = RawEvent \<and> x = sr_id s \<and> x \<in> set (ev_raws ev)"
| "link_backed ev s (LinkChat x) \<longleftrightarrow> sr_type s = ChatMessage \<and> x = sr_id s \<and> x \<in> ch_id ` set (ev_chats ev)"
| "link_backed ev s (LinkTool x) \<longleftrightarrow> sr_type s = ToolOutput \<and> x = sr_id s \<and> (\<exists>t \<in> set (ev_tools ev). tc_id t = x \<and> tc_success t)"
| "link_backed ev s (LinkJob x) \<longleftrightarrow> sr_type s = WorkerExtraction \<and> x = sr_id s \<and> (\<exists>j \<in> set (ev_jobs ev). wj_id j = x \<and> wj_done j)"
| "link_backed ev s (LinkAttempt x) \<longleftrightarrow> sr_type s = WorkerExtraction \<and> x = sr_id s
     \<and> (\<exists>a \<in> set (ev_attempts ev). wa_id a = x \<and> wa_done a)"

lemma resolve_worker_backed:
  assumes "resolve_worker ev ss s = Inr r" and "ps_type s = WorkerExtraction"
  shows "link_backed ev \<lparr>sr_memory = i, sr_type = ps_type s, sr_id = ps_id s, sr_time = t, sr_extracted = x, sr_link = l\<rparr> (rs_link r)"
proof -
  from assms(1) consider (job) j where "find_worker_job ev (ps_id s) = Some j" "rs_link r = LinkJob (wj_id j)"
    | (att) a j where "find_worker_attempt ev (ps_id s) = Some (a, j)" "rs_link r = LinkAttempt (wa_id a)"
    unfolding resolve_worker_def by (auto split: if_splits option.splits)
  then show ?thesis
  proof cases
    case job
    then have "j \<in> set (ev_jobs ev)" "wj_id j = ps_id s" "wj_done j"
      by (auto simp: find_worker_job_def dest: find_memberD)
    with job(2) assms(2) show ?thesis by auto
  next
    case att
    then have "a \<in> set (ev_attempts ev)" "wa_id a = ps_id s" "wa_done a"
      by (auto simp: find_worker_attempt_def dest!: find_memberD)
    with att(2) assms(2) show ?thesis by (simp del: split_paired_Ex) metis
  qed
qed

lemma resolve_reference_backed:
  assumes "resolve_reference ev inp a ss s = Inr r"
  shows "link_backed ev \<lparr>sr_memory = i, sr_type = ps_type s, sr_id = ps_id s, sr_time = t, sr_extracted = x, sr_link = l\<rparr> (rs_link r)"
proof (cases "ps_type s = WorkerExtraction")
  case True
  with assms have "resolve_worker ev ss s = Inr r" by (auto simp: resolve_reference_def split: if_splits)
  then show ?thesis using True by (rule resolve_worker_backed)
next
  case False
  then show ?thesis
    using assms by (cases "ps_type s") (auto simp: resolve_reference_def split: if_splits option.splits dest!: find_memberD)
qed

lemma source_rows_backed:
  assumes "resolve_references ev g ss a = Inr rs" and "s \<in> set (source_rows i rs)"
  shows "link_backed ev s (sr_link s)"
proof -
  from assms(2) obtain r where r: "r \<in> set rs"
    "s = \<lparr>sr_memory = i, sr_type = ps_type (rs_source r), sr_id = ps_id (rs_source r), sr_time = ps_time (rs_source r),
      sr_extracted = ps_extracted (rs_source r), sr_link = rs_link r\<rparr>"
    by (auto simp: source_rows_def Let_def)
  from resolve_references_Inr [OF assms(1)] r(1) obtain p where p: "resolve_reference ev g a ss p = Inr r"
    by (auto simp: list_all2_conv_all_nth in_set_conv_nth)
  show ?thesis
    using resolve_reference_backed [OF p] unfolding resolve_reference_same [OF p, symmetric] r(2)
    by (simp add: resolve_reference_same [OF p])
qed

lemma resolve_sources_ne: "resolve_sources g now a = Inr ss \<Longrightarrow> ss \<noteq> []"
  by (auto simp: resolve_sources_def split: list.splits sum.splits if_splits)

section \<open>Creating\<close>

text \<open>
  C13.  A memory that was created is new and governed: its owner fields fit its scope, it is not
  secret or prohibited and no credential pattern matches its text, its scores are in range, and a
  user memory derived from a group chat is visible to that group or to administrators only.  It
  has at least one source, every source is backed by the evidence it names, and its history is the
  one revision that creates it.
\<close>

theorem memory_create_governed:
  assumes "memory_reachable db" and "create_memory opts inp fresh rid uid now db = (db', Inr i)"
  shows "\<exists>r. find_memory i db = None \<and> find_memory i db' = Some r \<and> governed r \<and> mr_title r = mi_title inp
    \<and> mr_content r = mi_content inp \<and> md_sources (row_to_record db' r) \<noteq> []
    \<and> (\<forall>s \<in> set (msources db'). sr_memory s = i \<longrightarrow> link_backed (evidence db) s (sr_link s))
    \<and> map (\<lambda>v. (rv_number v, rv_change v, rv_new v)) (revisions_of db' i) = [(1, CreateChange, row_to_record db' r)]"
  using assms(2)
proof (cases rule: create_memory_cases)
  case (made g adj j decision a ss expires rs row)
  have inv: "memory_inv db" by (rule memory_inv_reachable [OF assms(1)])
  have inv': "memory_inv db'" by (rule memory_inv_create [OF assms(2) inv])
  have j: "j = i" using made(10) by simp
  have fresh: "i \<notin> mr_id ` set (memories db)" and id: "mr_id row = i"
    using made(6,7) j by (simp_all add: memory_fits_def new_memory_def)
  have none: "find_memory i db = None" using fresh by (auto simp: find_memory_def find_None_iff)
  have found: "find_memory i db' = Some row"
    using find_append_right [of "\<lambda>r. mr_id r = i" "memories db" row] none id by (simp add: find_memory_def made(11))
  have gov: "governed row" using inv' by (simp add: memory_inv_def made(11))
  have empty: "filter (\<lambda>s. sr_memory s = i) (msources db) = []" "revisions_of db i = []"
    using inv fresh by (auto simp: memory_inv_def revisions_of_def filter_empty_conv)
  have own: "\<forall>s \<in> set (source_rows i rs). sr_memory s = i" by (simp add: source_rows_def Let_def)
  then have srcs: "filter (\<lambda>s. sr_memory s = i) (msources db') = source_rows i rs"
    using empty by (simp add: made(11) j)
  have "length rs = length ss" using resolve_references_Inr [OF made(5)] by (metis list_all2_lengthD)
  then have "rs \<noteq> []" using resolve_sources_ne [OF made(4)] by auto
  then have "md_sources (row_to_record db' row) \<noteq> []"
  proof -
    have "length (md_sources (row_to_record db' row)) = length (source_rows i rs)"
      by (simp add: row_to_record_def list_source_ids_def id srcs)
    also have "\<dots> = length rs" by (simp add: source_rows_def)
    finally show ?thesis using \<open>rs \<noteq> []\<close> by (metis length_0_conv)
  qed
  moreover have "link_backed (evidence db) s (sr_link s)" if "s \<in> set (msources db')" "sr_memory s = i" for s
  proof -
    have "s \<in> set (filter (\<lambda>s. sr_memory s = i) (msources db'))" using that by simp
    then have "s \<in> set (source_rows i rs)" unfolding srcs .
    with made(5) show ?thesis by (rule source_rows_backed)
  qed
  moreover have "map (\<lambda>v. (rv_number v, rv_change v, rv_new v)) (revisions_of db' i) = [(1, CreateChange, row_to_record db' row)]"
    using empty(2) unfolding made(11) j revisions_of_record_change
    by (simp add: revisions_of_def) (rule row_to_record_msources, simp)
  moreover have "mr_title row = mi_title inp" "mr_content row = mi_content inp"
    using apply_create_policy_Inr(6,7) [OF govern_create_Inr(1) [OF made(1)]] by (simp_all add: made(6) new_memory_def)
  ultimately show ?thesis using none found gov by (intro exI [of _ row]) simp
qed simp

section \<open>The audit trail\<close>


section \<open>The life cycle\<close>

text \<open>
  Changing the state of a known memory, under fresh ids for its revision and audit entry,
  succeeds exactly when it has the state already or the state may follow its own; then it has
  the state and is otherwise the same memory, and on an error the tables are unchanged.
\<close>

theorem memory_state_change:
  assumes "memory_reachable db" and "find_memory i db = Some q"
    and "rid \<notin> rv_id ` set (revisions db)" and "uid \<notin> au_id ` set (audits db)"
    and "update_state i st chg rid uid now db = (db', r)"
  shows "(r = Inr () \<longleftrightarrow> mr_state q = st \<or> st \<in> allowed_next (mr_state q))
    \<and> (\<forall>e. r = Inl e \<longrightarrow> db' = db)
    \<and> (r = Inr () \<longrightarrow> (\<exists>q'. find_memory i db' = Some q' \<and> mr_state q' = st \<and> stable_part q' = stable_part q))"
proof -
  have inv: "memory_inv db" by (rule memory_inv_reachable [OF assms(1)])
  have ok: "r = Inr () \<longleftrightarrow> mr_state q = st \<or> st \<in> allowed_next (mr_state q)"
    using assms(2-5) by (cases "mr_state q") (auto simp: update_state_def Let_def split: if_splits)
  have "\<exists>q'. find_memory i db' = Some q' \<and> mr_state q' = st \<and> stable_part q' = stable_part q" if "r = Inr ()"
    using assms(5)
  proof (cases rule: update_state_cases)
    case same
    with assms(2) show ?thesis by auto
  next
    case (changed p decision a)
    with update_row [OF assms(5) inv assms(2)] assms(2) inv memory_inv_update [OF assms(5) inv]
    show ?thesis
    proof -
      let ?f = "set_state st now decision"
      have "p \<in> set (memories db)" "mr_id p = i"
        using changed(1) inv find_memory_iff [of db i p] by (simp_all add: memory_inv_def)
      then have "?f p \<in> set (memories db')"
        unfolding changed(7) by (simp add: set_update_where)
      moreover have "distinct (map mr_id (memories db'))"
        using memory_inv_update [OF assms(5) inv] by (simp add: memory_inv_def)
      ultimately have "find_memory i db' = Some (?f p)"
        using find_memory_iff [of db' i "?f p"] \<open>mr_id p = i\<close> by simp
      with changed(1) assms(2) show ?thesis by auto
    qed
  qed (use that in simp)
  moreover have "db' = db" if "r = Inl e" for e
    using assms(5) that by (cases rule: update_state_cases) auto
  ultimately show ?thesis using ok by blast
qed

section \<open>Retrieving\<close>

lemma context_clause_allowed:
  "context_clause f r \<Longrightarrow> mr_sensitivity r \<notin> {SecretSensitivity, ProhibitedSensitivity} \<Longrightarrow> allowed_for_retrieval f r"
  by (cases "mr_visibility r") (auto simp: context_clause_def allowed_for_retrieval_def split: option.splits chat_type.splits)

lemma retrieve_selected:
  "retrieve opts f now db = map (row_to_record db)
     (take (value_or (mf_limit f) 50) (sort_key rank_key (filter (select_clause opts f now db) (memories db))))"
proof -
  have "filter (allowed_for_retrieval f) (take n (sort_key rank_key (filter (select_clause opts f now db) rows)))
      = take n (sort_key rank_key (filter (select_clause opts f now db) rows))" for n rows
    by (rule filter_True) (auto simp: select_clause_def dest!: in_set_takeD intro: context_clause_allowed)
  then show ?thesis by (simp add: retrieve_def)
qed

text \<open>
  The check in memory after the query never drops a row: the query's own clauses already
  imply it, so a retrieval returns the best ranked selected rows up to its limit, and as many
  of them as there are.
\<close>

theorem memory_filters_agree:
  "retrieve opts f now db = map (row_to_record db)
     (take (value_or (mf_limit f) 50) (sort_key rank_key (filter (select_clause opts f now db) (memories db))))
   \<and> length (retrieve opts f now db)
     = min (value_or (mf_limit f) 50) (length (filter (select_clause opts f now db) (memories db)))"
  unfolding retrieve_selected by simp

lemma retrieve_row:
  assumes "q \<in> set (retrieve opts f now db)"
  obtains r where "r \<in> set (memories db)" and "q = row_to_record db r" and "select_clause opts f now db r"
  using assms unfolding retrieve_selected by (auto dest!: in_set_takeD)

text \<open>
  C15.  What a retrieval for a context returns respects every boundary: nothing secret or
  prohibited, nothing for administrators only, private memories only in a private context,
  memories of one group only in a group context that names this group or its conversation,
  summaries of a group in a group context only while the policy of that group is enabled, and by
  default only active memories that have not expired.
\<close>

theorem memory_retrieve_boundaries:
  assumes "q \<in> set (retrieve opts f now db)" and "mf_context f = Some ctx"
  shows "mr_sensitivity (md_row q) \<notin> {SecretSensitivity, ProhibitedSensitivity} \<and> mr_visibility (md_row q) \<noteq> OwnerAdminOnly
    \<and> (mr_visibility (md_row q) = PrivateOnly \<longrightarrow> ctx = PrivateType)
    \<and> (mr_visibility (md_row q) = SameGroupOnly \<longrightarrow> ctx = GroupType \<and>
         ((present (mf_group f) \<and> mr_group (md_row q) = mf_group f)
          \<or> (present (mf_conversation f) \<and> mr_conversation (md_row q) = mf_conversation f)))
    \<and> (ctx = GroupType \<and> group_summary (md_row q) \<longrightarrow> (\<exists>g. mr_group (md_row q) = Some g \<and> group_policy_enabled db g))
    \<and> (mf_state f = None \<longrightarrow> mr_state (md_row q) = Active \<and> not_expired now (md_row q))"
proof -
  obtain r where r: "q = row_to_record db r" "select_clause opts f now db r" using assms(1) by (rule retrieve_row)
  have same: "mr_sensitivity (md_row q) = mr_sensitivity r" "mr_visibility (md_row q) = mr_visibility r"
    "mr_group (md_row q) = mr_group r" "mr_conversation (md_row q) = mr_conversation r" "mr_state (md_row q) = mr_state r"
    "group_summary (md_row q) = group_summary r" "not_expired now r \<Longrightarrow> not_expired now (md_row q)"
    by (simp_all add: r(1) row_to_record_def group_summary_def not_expired_def)
  have "ctx = GroupType \<and> group_summary r \<longrightarrow> (\<exists>g. mr_group r = Some g \<and> group_policy_enabled db g)"
    using r(2) assms(2) by (auto simp: select_clause_def summary_clause_def split: option.splits if_splits)
  moreover have "context_clause f r" "mr_sensitivity r \<notin> {SecretSensitivity, ProhibitedSensitivity}"
    "mf_state f = None \<longrightarrow> mr_state r = Active \<and> not_expired now r"
    using r(2) by (simp_all add: select_clause_def value_or_def)
  ultimately show ?thesis
    using assms(2) same by (cases ctx) (auto simp: context_clause_def)
qed

section \<open>A group message stays in its group\<close>

lemma resolved_chat_fits:
  assumes "resolve_references ev g ss a = Inr rs" and "mi_scope g = MUser" and "s \<in> set ss" and "ps_type s = ChatMessage"
    and "c \<in> set (ev_chats ev)" and "ch_id c = ps_id s" and "ch_raw c \<in> set (ev_raws ev)"
  shows "user_evidence_fits g (chat_evidence ev c)"
proof -
  have "boundaries_ok ev g ss" using resolve_references_Inr [OF assms(1)] by simp
  with assms(2-4) have "list_all (evidence_fits g) (source_evidence ev s)"
    by (auto simp: boundaries_ok_def owned_scope_def list_all_iff)
  moreover have "chat_evidence ev c \<in> set (source_evidence ev s)"
    using assms(4-7) by (simp add: source_evidence_def read_chat_evidence_def)
  ultimately show ?thesis using assms(2) by (auto simp: list_all_iff evidence_fits_def)
qed

lemma group_chat_fits:
  assumes "user_evidence_fits g (chat_evidence ev c)" and "ch_type c = GroupType" and "mi_conversation g = None"
  shows "mi_visibility g = OwnerAdminOnly \<or> (mi_visibility g = SameGroupOnly \<and> mi_group g = ch_group c \<and> ch_group c \<noteq> None)"
  using assms unfolding user_evidence_fits_def chat_evidence_def same_some_def
  by (cases "ch_group c"; cases "mi_group g") (simp_all split: if_splits)


section \<open>Credentials\<close>

lemma repeat_due: "repeat (Suc n) m (Suc l) (Some (Suc l)) c = concat (map (repeat n m l (Some l)) (m c))"
  by simp

lemma repeat_exact:
  "list_all P k \<Longrightarrow> length k \<le> n \<Longrightarrow> (rev k @ b, v) \<in> set (repeat n (run (One P)) (length k) (Some (length k)) (b, k @ v))"
proof (induction k arbitrary: n b)
  case (Cons x k)
  then obtain m where m: "n = Suc m" "length k \<le> m" by (cases n) auto
  have "(rev k @ (x # b), v) \<in> set (repeat m (run (One P)) (length k) (Some (length k)) (x # b, k @ v))"
    using Cons.IH [of m "x # b"] Cons.prems m by (simp del: run.simps)
  moreover have "(x # b, k @ v) \<in> set (run (One P) (b, (x # k) @ v))" using Cons.prems by simp
  ultimately show ?case unfolding m(1) list.size(4) add_0_right add_Suc_right One_nat_def repeat_due
    by (simp del: run.simps) blast
next
  case Nil
  show ?case by (cases n) simp_all
qed

lemma run_rep_exact:
  assumes "list_all P k" and "length k = n"
  shows "(rev k @ b, v) \<in> set (run (Rep n (Some n) (One P)) (b, k @ v))"
proof -
  have "length k \<le> Suc (length k + length (k @ v))" by simp
  from repeat_exact [OF assms(1) this, of b v] show ?thesis unfolding run.simps assms(2) snd_conv .
qed

lemma run_seq_intro: "d \<in> set (run r c) \<Longrightarrow> e \<in> set (run s d) \<Longrightarrow> e \<in> set (run (Seq r s) c)"
  by auto

lemma aws_key_found:
  assumes "length k = 16" and "list_all (\<lambda>c. digit c \<or> upper c) k"
    and "u = [] \<or> \<not> word_char (last u)" and "v = [] \<or> \<not> word_char (hd v)"
  shows "scan_memory (u @ lit ''AKIA'' @ k @ v) \<noteq> []"
proof -
  have akia: "lit ''AKIA'' = [65, 75, 73, 65]" by (simp add: lit_def)
  have before: "\<not> head_is word_char (rev u)"
    using assms(3) by (cases u rule: rev_cases) auto
  have after: "\<not> head_is word_char v" using assms(4) by (cases v) auto
  from assms(1) obtain x xs where k: "k = xs @ [x]" by (cases k rule: rev_cases) auto
  have "word_char x" using assms(2) k by (auto simp: word_char_def digit_def upper_def)
  then have inside: "head_is word_char (rev k @ w)" for w by (simp add: k)
  let ?b = "65 # 73 # 75 # 65 # rev u"
  have 1: "(rev u, lit ''AKIA'' @ k @ v) \<in> set (run Boundary (rev u, lit ''AKIA'' @ k @ v))"
    using before by (simp add: akia word_char_def)
  have 2: "(?b, k @ v) \<in> set (run (rx_lit (lit ''AKIA'')) (rev u, lit ''AKIA'' @ k @ v))"
    by (simp add: akia rx_lit_def)
  have 3: "(rev k @ ?b, v) \<in> set (run (Rep 16 (Some 16) (One (\<lambda>c. digit c \<or> upper c))) (?b, k @ v))"
    by (rule run_rep_exact [OF assms(2,1)])
  have 4: "(rev k @ ?b, v) \<in> set (run Boundary (rev k @ ?b, v))" using after inside by simp
  have "(rev k @ ?b, v) \<in> set (run rx_aws_key (rev u, lit ''AKIA'' @ k @ v))"
    unfolding rx_aws_key_def rx_seq.simps by (rule run_seq_intro [OF 1 run_seq_intro [OF 2 run_seq_intro [OF 3 4]]])
  then have "run rx_aws_key (rev u, lit ''AKIA'' @ k @ v) \<noteq> []" by (metis empty_iff list.set(1))
  then have "rx_test rx_aws_key (u @ lit ''AKIA'' @ k @ v)" unfolding rx_test_iff by blast
  then show ?thesis unfolding scan_memory_empty secret_patterns_def by simp
qed

text \<open>
  A text with an AWS access key id in it never becomes a memory: whatever the input, the
  surrounding text and the state of the tables, the creation fails and changes nothing.
\<close>

theorem memory_rejects_aws_key:
  assumes "length k = 16" and "list_all (\<lambda>c. digit c \<or> upper c) k"
    and "u \<noteq> [] \<Longrightarrow> \<not> word_char (last u)" and "v \<noteq> [] \<Longrightarrow> \<not> word_char (hd v)"
    and "mi_content inp = u @ lit ''AKIA'' @ k @ v"
  shows "\<exists>e. create_memory opts inp fresh rid uid now db = (db, Inl e)"
proof -
  obtain db' r where c: "create_memory opts inp fresh rid uid now db = (db', r)" by fastforce
  then show ?thesis
  proof (cases rule: create_memory_cases)
    case (made g adj i decision a ss expires rs row)
    let ?u = "mi_title inp @ [10] @ u"
    have whole: "mi_title g @ [10] @ mi_content g = ?u @ lit ''AKIA'' @ k @ v"
      using apply_create_policy_Inr(6,7) [OF govern_create_Inr(1) [OF made(1)]] assms(5) by simp
    have "last ?u = (if u = [] then 10 else last u)" by simp
    then have "\<not> word_char (last ?u)" using assms(3) by (auto simp: word_char_def)
    with aws_key_found [OF assms(1,2), of ?u v] assms(4) have "scan_memory (mi_title g @ [10] @ mi_content g) \<noteq> []"
      unfolding whole by blast
    with govern_create_Inr(3) [OF made(1)] show ?thesis unfolding scan_blocked_empty by blast
  qed (simp add: c)
qed

section \<open>Concrete instances\<close>

text \<open>User \<open>u\<close> says something in group \<open>g\<close>; the memory of it cites the message.\<close>

definition wm_chat :: chat_row where
  "wm_chat = \<lparr>ch_id = [109], ch_raw = [114], ch_conversation = [118], ch_type = GroupType, ch_group = Some [103],
     ch_sender = [112]\<rparr>"

definition wm_empty :: memory_db where
  "wm_empty = empty_memory\<lparr>users := [[117]], evidence := (evidence empty_memory)\<lparr>ev_raws := [[114]],
     ev_chats := [wm_chat], ev_accounts := [\<lparr>pa_account = [112], pa_user = [117], pa_qq_active = True\<rparr>]\<rparr>\<rparr>"

definition wm_source :: source_input where
  "wm_source = \<lparr>si_type = ChatMessage, si_id = [109], si_time = None, si_extracted = None, si_external = None\<rparr>"

definition wm_input :: memory_input where
  "wm_input = \<lparr>mi_id = None, mi_scope = MUser, mi_user = Some [117], mi_group = Some [103], mi_conversation = None,
     mi_subject = None, mi_visibility = SameGroupOnly, mi_sensitivity = NormalSensitivity, mi_authority = UserStated,
     mi_kind = Fact, mi_title = [116], mi_content = [120], mi_state = Active, mi_confidence = 0, mi_importance = 0,
     mi_context = None, mi_decision = None, mi_expires = None, mi_sources = Some [wm_source], mi_actor = None,
     mi_reason = Some [], mi_summary = Some []\<rparr>"

definition wm_options :: memory_options where
  "wm_options = \<lparr>procedure_writes = True, procedure_retrieval = True\<rparr>"

definition wm_row :: memory_row where
  "wm_row = new_memory wm_input [105] (default_decision [105] Active) None 5"

definition wm_db :: memory_db where
  "wm_db = fst (create_memory wm_options wm_input [105] [7] [2] 5 wm_empty)"

lemma wm_scan: "scan_memory ([116] @ [10] @ [120]) = []"
  by code_simp

lemma wm_create: "create_memory wm_options wm_input [105] [7] [2] 5 wm_empty = (wm_db, Inr [105])"
proof -
  have "snd (create_memory wm_options wm_input [105] [7] [2] 5 wm_empty) = Inr [105]"
    using wm_scan
    by (simp add: create_memory_def govern_create_def apply_create_policy_def wm_input_def group_derived_user_def starts_def
        assert_scope_owner_def blank_owner_def blank_def js_trim_def js_space_def scan_blocked_def resolve_sources_def
        wm_source_def value_or_def prepare_source_def resolve_expires_def Let_def wm_empty_def empty_memory_def
        resolve_references_def resolve_reference_def boundaries_ok_def source_evidence_def read_chat_evidence_def
        chat_evidence_def wm_chat_def sender_user_def account_matches_def evidence_fits_def user_evidence_fits_def
        same_some_def first_some_def memory_fits_def new_memory_def in_score_def score_one_def owned_scope_def)
  then show ?thesis unfolding wm_db_def by (metis prod.collapse)
qed

lemma wm_reach_empty: "memory_reachable wm_empty"
  unfolding memory_reachable_def
  by (rule r_into_rtranclp, rule mem_environment) (simp_all add: wm_empty_def)

lemma wm_reach: "memory_reachable wm_db"
  using wm_reach_empty mem_create [OF wm_create] unfolding memory_reachable_def by (rule rtranclp.rtrancl_into_rtrancl)

lemma wm_rows: "memories wm_db = [wm_row]" "rv_id ` set (revisions wm_db) = {[7]}" "au_id ` set (audits wm_db) = {[2]}"
  "find_memory [105] wm_db = Some wm_row"
proof -
  have g: "govern_create wm_options wm_input = Inr (wm_input, [])"
    using wm_scan by (simp add: govern_create_def apply_create_policy_def wm_input_def group_derived_user_def starts_def
        assert_scope_owner_def blank_owner_def blank_def js_trim_def js_space_def scan_blocked_def)
  from wm_create have "memories wm_db = [wm_row] \<and> rv_id ` set (revisions wm_db) = {[7]} \<and> au_id ` set (audits wm_db) = {[2]}"
  proof (cases rule: create_memory_cases)
    case (made g' adj i decision a ss expires rs row)
    have "g' = wm_input" using made(1) g by simp
    moreover from this have "expires = None" "decision = default_decision [105] Active" "i = [105]"
      using made(2,12,13) by (simp_all add: wm_input_def resolve_expires_def value_or_def)
    ultimately have "row = wm_row" using made(6) by (simp add: wm_row_def)
    then show ?thesis unfolding made(11) by (simp add: wm_empty_def empty_memory_def) (simp add: record_change_def)
  qed simp
  then show "memories wm_db = [wm_row]" "rv_id ` set (revisions wm_db) = {[7]}" "au_id ` set (audits wm_db) = {[2]}"
    by simp_all
  then show "find_memory [105] wm_db = Some wm_row" by (simp add: find_memory_def wm_row_def new_memory_def)
qed

definition wm_filters :: memory_filters where
  "wm_filters = \<lparr>mf_user = None, mf_group = Some [103], mf_conversation = None, mf_scope = None,
     mf_context = Some GroupType, mf_state = None, mf_limit = None\<rparr>"

lemma wm_retrieve: "retrieve wm_options wm_filters 9 wm_db = [row_to_record wm_db wm_row]"
proof -
  have "select_clause wm_options wm_filters 9 wm_db wm_row"
    by (simp add: select_clause_def wm_options_def wm_filters_def wm_row_def new_memory_def wm_input_def value_or_def
        not_expired_def column_filter_def context_clause_def summary_clause_def group_summary_def js_trim_def js_space_def)
  then show ?thesis by (simp add: retrieve_selected wm_rows value_or_def wm_filters_def)
qed

theorem memory_create_governed_witness:
  "\<exists>r. find_memory [105] wm_db = Some r \<and> governed r \<and> md_sources (row_to_record wm_db r) \<noteq> []"
  using memory_create_governed [OF wm_reach_empty wm_create] by blast


definition wm_change :: change_options where
  "wm_change = \<lparr>cg_actor = None, cg_reason = None, cg_summary = None, cg_decision = None\<rparr>"

theorem memory_state_change_witness:
  "snd (update_state [105] Disabled wm_change [3] [4] 9 wm_db) = Inr ()
    \<and> (\<exists>e. snd (update_state [105] Rejected wm_change [3] [4] 9 wm_db) = Inl e)"
proof -
  have active: "mr_state wm_row = Active" by (simp add: wm_row_def new_memory_def wm_input_def)
  have fresh: "[3] \<notin> rv_id ` set (revisions wm_db)" "[4] \<notin> au_id ` set (audits wm_db)"
    unfolding wm_rows by simp_all
  show ?thesis
    using memory_state_change [OF wm_reach wm_rows(4) fresh surjective_pairing [of "update_state [105] Disabled wm_change [3] [4] 9 wm_db"]]
      memory_state_change [OF wm_reach wm_rows(4) fresh surjective_pairing [of "update_state [105] Rejected wm_change [3] [4] 9 wm_db"]]
    unfolding active by (cases "snd (update_state [105] Rejected wm_change [3] [4] 9 wm_db)") auto
qed

theorem memory_retrieve_boundaries_witness:
  "mr_visibility (md_row (row_to_record wm_db wm_row)) \<noteq> OwnerAdminOnly"
proof -
  have "row_to_record wm_db wm_row \<in> set (retrieve wm_options wm_filters 9 wm_db)" by (simp add: wm_retrieve)
  moreover have "mf_context wm_filters = Some GroupType" by (simp add: wm_filters_def)
  ultimately show ?thesis by (rule memory_retrieve_boundaries [THEN conjunct2, THEN conjunct1])
qed


theorem memory_rejects_aws_key_witness:
  "\<exists>e. create_memory wm_options (wm_input\<lparr>mi_content := lit ''AKIA'' @ replicate 16 48\<rparr>) [105] [7] [2] 5 wm_empty = (wm_empty, Inl e)"
  by (rule memory_rejects_aws_key [of "replicate 16 48" "[]" "[]"]) (simp_all add: digit_def list_all_iff)

section \<open>A mixed owner\<close>

text \<open>
  The two fields of a group memory are alternatives, both when the source is checked and when
  the memory is retrieved.  A memory that cites a message of conversation \<open>v\<close> in group \<open>g\<close>
  but names another group \<open>h\<close> is accepted for its conversation and returned to the other group.
\<close>

lemma mixed_owner_fits:
  "user_evidence_fits (wm_input\<lparr>mi_group := Some [104], mi_conversation := Some [118]\<rparr>)
     (chat_evidence (evidence wm_empty) wm_chat)"
  by (simp add: user_evidence_fits_def wm_input_def chat_evidence_def wm_chat_def wm_empty_def sender_user_def
      account_matches_def same_some_def first_some_def)

lemma mixed_owner_retrieved:
  "select_clause wm_options (wm_filters\<lparr>mf_group := Some [104]\<rparr>) 9 wm_db
     (wm_row\<lparr>mr_group := Some [104], mr_conversation := Some [118]\<rparr>)"
  by (simp add: select_clause_def wm_options_def wm_filters_def wm_row_def new_memory_def wm_input_def value_or_def
      not_expired_def column_filter_def context_clause_def summary_clause_def group_summary_def js_trim_def js_space_def)

end
