(* ===== verification/Summary_Policy.thy ===== *)
theory Summary_Policy
  imports Memory_Repository Delayed_Attention
begin

text \<open>
  \<open>GroupSummaryPolicyRepository\<close> of \<open>src/storage/group-summary-policy-repository.ts\<close>: whether a
  group may be summarised.  Every change of a policy opens a new generation; a summary job is bound
  to the generation that authorised it and may run only under it.  The jobs are those of the
  queue.  A policy and a cancelled binding keep no prose; the hash of the group id in an audit
  entry is not kept.  New identifiers and clock readings are arguments.
\<close>

section \<open>Tables\<close>

record policy_row =
  pl_group :: jstr
  pl_enabled :: bool
  pl_generation :: int
  pl_eligible :: "int option"
  pl_created :: int
  pl_updated :: int

record binding_row =
  bd_job :: jstr
  bd_group :: jstr
  bd_conversation :: jstr
  bd_generation :: int
  bd_eligible :: int
  bd_created :: int
  bd_canceled :: "int option"

datatype authority_kind = BotOwner | GroupOwner | GroupAdministrator | LocalAdministrator

record authority_proof =
  ap_kind :: authority_kind
  ap_actor :: jstr
  ap_context :: invocation_context
  ap_group :: "jstr option"
  ap_source :: "jstr option"

record policy_audit =
  pa_id :: jstr
  pa_at :: int
  pa_actor :: jstr
  pa_class :: actor_class
  pa_context :: invocation_context
  pa_group :: jstr
  pa_old :: bool
  pa_new :: bool
  pa_generation :: int
  pa_eligible :: "int option"
  pa_kind :: authority_kind
  pa_source :: "jstr option"
  pa_reason :: "jstr option"
  pa_canceled :: nat

text \<open>A stored event with the JSON value of its payload.\<close>

record ingress_row = raw_row +
  rw_payload :: "jval option"

record summary_db =
  squeue :: job_db
  ingress :: "ingress_row list"
  chats :: "message_row list"
  gpolicies :: "policy_row list"
  bindings :: "binding_row list"
  paudits :: "policy_audit list"

datatype summary_error =
    InvalidInput | Unauthorized | PolicyDisabled | JobNotBound | BindingMismatch | JobNotSummary
  | JobNotPending | StaleGeneration | AttemptNotAuthorized | SqlConstraint | CancellationNotAtomic

section \<open>Reading and validating\<close>

definition valid_name :: "jstr \<Rightarrow> bool" where
  "valid_name s \<longleftrightarrow> s \<noteq> [] \<and> js_trim s = s"

definition read_policy :: "jstr \<Rightarrow> summary_db \<Rightarrow> policy_row option" where
  "read_policy g db = find (\<lambda>p. pl_group p = g) (gpolicies db)"

definition get_policy :: "jstr \<Rightarrow> summary_db \<Rightarrow> summary_error + policy_row option" where
  "get_policy g db = (if valid_name g then Inr (read_policy g db) else Inl InvalidInput)"

definition is_enabled :: "jstr \<Rightarrow> summary_db \<Rightarrow> summary_error + bool" where
  "is_enabled g db = (case get_policy g db of
     Inl e \<Rightarrow> Inl e
   | Inr p \<Rightarrow> Inr (case p of None \<Rightarrow> False | Some r \<Rightarrow> pl_enabled r))"

definition require_enabled :: "jstr \<Rightarrow> summary_db \<Rightarrow> summary_error + policy_row \<times> int" where
  "require_enabled g db = (case get_policy g db of
     Inl e \<Rightarrow> Inl e
   | Inr None \<Rightarrow> Inl PolicyDisabled
   | Inr (Some p) \<Rightarrow> (case pl_eligible p of
        Some t \<Rightarrow> if pl_enabled p then Inr (p, t) else Inl PolicyDisabled
      | None \<Rightarrow> Inl PolicyDisabled))"

definition read_binding :: "jstr \<Rightarrow> summary_db \<Rightarrow> binding_row option" where
  "read_binding jid db = find (\<lambda>b. bd_job b = jid) (bindings db)"

definition resolve_now :: "js_number \<Rightarrow> summary_error + int" where
  "resolve_now n = (if is_safe_integer n \<and> 0 \<le> int_value n then Inr (int_value n) else Inl InvalidInput)"

definition admin_actor :: jstr where
  "admin_actor = lit ''local_admin''"

definition assert_authority :: "jstr \<Rightarrow> authority_proof \<Rightarrow> summary_error option" where
  "assert_authority g a =
     (if \<not> valid_name (ap_actor a) then Some InvalidInput
      else if (case ap_source a of None \<Rightarrow> False | Some s \<Rightarrow> \<not> valid_name s) then Some InvalidInput
      else if ap_kind a = LocalAdministrator then
        (if ap_actor a \<noteq> admin_actor \<or> ap_context a \<noteq> AdminCli \<or> ap_group a \<noteq> None \<or> ap_source a \<noteq> None
         then Some Unauthorized else None)
      else if ap_kind a = BotOwner then None
      else if ap_context a \<noteq> GroupChat \<or> ap_group a \<noteq> Some g then Some Unauthorized
      else None)"

definition max_date_ms :: int where
  "max_date_ms = 8640000000000000"

definition valid_timestamp :: "js_number \<Rightarrow> bool" where
  "valid_timestamp n \<longleftrightarrow> is_safe_integer n \<and> 0 \<le> int_value n \<and> int_value n \<le> max_date_ms"

definition at_start :: rx where
  "at_start = NotBehind (\<lambda>c. True)"

definition rx_group_id :: rx where
  "rx_group_id = rx_seq [at_start, rx_lit (lit ''qq-group-''), One nonzero_digit, Rep 4 (Some 11) (One digit), AtEnd]"

definition rx_reason_code :: rx where
  "rx_reason_code = rx_seq [at_start, One (\<lambda>c. 97 \<le> c \<and> c \<le> 122),
     Rep 0 (Some 127) (One (\<lambda>c. (97 \<le> c \<and> c \<le> 122) \<or> digit c \<or> c = 95 \<or> c = 58 \<or> c = 45)), AtEnd]"

definition valid_policy_row :: "policy_row \<Rightarrow> bool" where
  "valid_policy_row p \<longleftrightarrow> \<bar>pl_generation p\<bar> \<le> max_safe \<and> 1 \<le> pl_generation p
     \<and> valid_timestamp (JInt (pl_created p)) \<and> valid_timestamp (JInt (pl_updated p)) \<and> pl_created p \<le> pl_updated p
     \<and> (if pl_enabled p then (case pl_eligible p of None \<Rightarrow> False | Some t \<Rightarrow> valid_timestamp (JInt t))
        else pl_eligible p = None)"

section \<open>Ceilings\<close>

fun max_of :: "int list \<Rightarrow> int option" where
  "max_of [] = None"
| "max_of (x # xs) = Some (foldl max x xs)"

definition checked_max :: "int list \<Rightarrow> summary_error + int option" where
  "checked_max ts = (case max_of ts of
     None \<Rightarrow> Inr None
   | Some t \<Rightarrow> if \<bar>t\<bar> \<le> max_safe \<and> 0 \<le> t then Inr (Some t) else Inl InvalidInput)"

definition payload_message :: "ingress_row \<Rightarrow> jval" where
  "payload_message r = (case rw_payload r of None \<Rightarrow> JUndefined | Some v \<Rightarrow> get_field v (lit ''message''))"

definition group_ingress :: "summary_db \<Rightarrow> jstr \<Rightarrow> ingress_row \<Rightarrow> bool" where
  "group_ingress db g r \<longleftrightarrow>
     list_ex (\<lambda>m. ms_raw m = rw_id r \<and> ms_type m = group_type \<and> ms_group m = Some g) (chats db)
     \<or> (rw_type r = lit ''chat.message.received'' \<and> rw_source r = lit ''gateway'' \<and> rw_platform r = Some (lit ''qq'')
        \<and> get_field (payload_message r) (lit ''conversationType'') = JStr group_type
        \<and> get_field (payload_message r) (lit ''groupId'') = JStr g)"

definition ingress_ceiling :: "jstr \<Rightarrow> summary_db \<Rightarrow> summary_error + int option" where
  "ingress_ceiling g db = checked_max (map rw_created (filter (group_ingress db g) (ingress db)))"

definition summary_type :: jstr where
  "summary_type = lit ''summary''"

definition cancellable :: "summary_db \<Rightarrow> jstr \<Rightarrow> binding_row \<Rightarrow> job_row option" where
  "cancellable db g b =
     (if bd_group b = g \<and> bd_canceled b = None
      then (case find_job (bd_job b) (squeue db) of
          None \<Rightarrow> None
        | Some j \<Rightarrow> if j_type j = summary_type \<and> j_status j = JPending then Some j else None)
      else None)"

definition pending_ceiling :: "jstr \<Rightarrow> summary_db \<Rightarrow> summary_error + int option" where
  "pending_ceiling g db = checked_max (concat (map (\<lambda>b. case cancellable db g b of
       None \<Rightarrow> [] | Some j \<Rightarrow> [max (bd_created b) (max (j_created j) (j_updated j))]) (bindings db)))"

section \<open>Changing a policy\<close>

definition policy_code :: jstr where
  "policy_code = lit ''group_summary_policy_disabled''"

definition cancel_job :: "int \<Rightarrow> job_row \<Rightarrow> job_row" where
  "cancel_job now j = j\<lparr>j_status := JFailed, j_completed := Some now, j_updated := now, j_error := Some policy_code,
     j_result := Some (json_object [(lit ''code'', json_string policy_code)]), j_owner := None, j_lease := None,
     j_heartbeat := Some now\<rparr>"

text \<open>The rows a cancellation selects; both updates have to change as many.\<close>

definition cancel_pending :: "jstr \<Rightarrow> int \<Rightarrow> summary_db \<Rightarrow> summary_error + summary_db \<times> nat" where
  "cancel_pending g now db =
     (let ids = map bd_job (filter (\<lambda>b. cancellable db g b \<noteq> None) (bindings db));
          Q = (\<lambda>j. j_id j \<in> set ids \<and> j_status j = JPending);
          R = (\<lambda>b. bd_job b \<in> set ids \<and> bd_canceled b = None)
      in if ids = [] then Inr (db, 0)
         else if list_ex (\<lambda>b. R b \<and> now < bd_created b) (bindings db) then Inl SqlConstraint
         else if changes Q (jobs (squeue db)) \<noteq> length ids \<or> changes R (bindings db) \<noteq> length ids
         then Inl CancellationNotAtomic
         else Inr (db\<lparr>squeue := (squeue db)\<lparr>jobs := update_where Q (cancel_job now) (jobs (squeue db))\<rparr>,
                     bindings := update_where R (\<lambda>b. b\<lparr>bd_canceled := Some now\<rparr>) (bindings db)\<rparr>, length ids))"

definition upsert_policy :: "policy_row \<Rightarrow> summary_db \<Rightarrow> summary_db" where
  "upsert_policy p db = db\<lparr>gpolicies :=
     if pl_group p \<in> pl_group ` set (gpolicies db)
     then update_where (\<lambda>q. pl_group q = pl_group p)
       (\<lambda>q. q\<lparr>pl_enabled := pl_enabled p, pl_generation := pl_generation p, pl_eligible := pl_eligible p,
              pl_updated := pl_updated p\<rparr>) (gpolicies db)
     else gpolicies db @ [p]\<rparr>"

fun audit_class :: "authority_kind \<Rightarrow> actor_class" where
  "audit_class GroupAdministrator = GroupAdmin"
| "audit_class LocalAdministrator = AdminActor"
| "audit_class _ = OwnerActor"

definition redact_policy_text :: "jstr \<Rightarrow> jstr" where
  "redact_policy_text s = redact_platform_ids (redact_secrets (redact_platform_ids s))"

definition old_state :: "policy_row option \<Rightarrow> bool" where
  "old_state p = (case p of None \<Rightarrow> False | Some r \<Rightarrow> pl_enabled r)"

definition old_generation :: "policy_row option \<Rightarrow> int" where
  "old_generation p = (case p of None \<Rightarrow> 0 | Some r \<Rightarrow> pl_generation r)"

definition next_policy :: "jstr \<Rightarrow> bool \<Rightarrow> int \<Rightarrow> policy_row option \<Rightarrow> policy_row" where
  "next_policy g on t p =
     \<lparr>pl_group = g, pl_enabled = on, pl_generation = old_generation p + 1,
      pl_eligible = (if on then Some t else None),
      pl_created = (case p of None \<Rightarrow> t | Some r \<Rightarrow> pl_created r), pl_updated = t\<rparr>"

text \<open>The writes both entry points share, at the transition time \<open>t\<close>.\<close>

definition write_transition ::
  "jstr \<Rightarrow> bool \<Rightarrow> int \<Rightarrow> authority_proof \<Rightarrow> jstr option \<Rightarrow> jstr \<Rightarrow> summary_db \<Rightarrow> summary_error + summary_db \<times> nat" where
  "write_transition g on t a reason uid db =
     (let old = read_policy g db; p = next_policy g on t old; db1 = upsert_policy p db
      in case (if on then Inr (db1, 0) else cancel_pending g t db1) of
           Inl e \<Rightarrow> Inl e
         | Inr (db2, n) \<Rightarrow> Inr (db2\<lparr>paudits := paudits db2 @
             [\<lparr>pa_id = uid, pa_at = t, pa_actor = ap_actor a, pa_class = audit_class (ap_kind a), pa_context = ap_context a,
               pa_group = redact_policy_text g, pa_old = old_state old, pa_new = on, pa_generation = pl_generation p,
               pa_eligible = pl_eligible p, pa_kind = ap_kind a, pa_source = map_option redact_policy_text (ap_source a),
               pa_reason = reason, pa_canceled = n\<rparr>]\<rparr>, n))"

definition transition_floor :: "int \<Rightarrow> policy_row option \<Rightarrow> int option \<Rightarrow> int" where
  "transition_floor now p ceiling =
     (let f = (case p of None \<Rightarrow> now | Some r \<Rightarrow> max now (pl_updated r))
      in case ceiling of None \<Rightarrow> f | Some c \<Rightarrow> max f c)"

definition durable_ceiling :: "bool \<Rightarrow> jstr \<Rightarrow> summary_db \<Rightarrow> summary_error + int option" where
  "durable_ceiling on g db = (if on then ingress_ceiling g db else pending_ceiling g db)"

datatype set_result = Unchanged "policy_row option" | Changed "policy_row option" nat jstr

definition set_enabled_legacy ::
  "jstr \<Rightarrow> bool \<Rightarrow> authority_proof \<Rightarrow> js_number \<Rightarrow> jstr \<Rightarrow> summary_db \<Rightarrow> summary_db \<times> (summary_error + set_result)" where
  "set_enabled_legacy g on a clock uid db =
     (if \<not> valid_name g then (db, Inl InvalidInput)
      else case resolve_now clock of
        Inl e \<Rightarrow> (db, Inl e)
      | Inr now \<Rightarrow> (case assert_authority g a of
          Some e \<Rightarrow> (db, Inl e)
        | None \<Rightarrow>
            let old = read_policy g db
            in if old_state old = on then (db, Inr (Unchanged old))
               else case durable_ceiling on g db of
                 Inl e \<Rightarrow> (db, Inl e)
               | Inr ceiling \<Rightarrow>
                   let fl = transition_floor now old ceiling
                   in if on \<and> max_safe \<le> fl then (db, Inl InvalidInput)
                      else (case write_transition g on (if max_safe \<le> fl then fl else fl + 1) a None uid db of
                          Inl e \<Rightarrow> (db, Inl e)
                        | Inr (db', n) \<Rightarrow> (db', Inr (Changed (read_policy g db') n uid)))))"

datatype expected_version = ImplicitDefault | StoredVersion js_number js_number

definition valid_expected_version :: "expected_version \<Rightarrow> bool" where
  "valid_expected_version v = (case v of
     ImplicitDefault \<Rightarrow> True
   | StoredVersion n t \<Rightarrow> is_safe_integer n \<and> 1 \<le> int_value n \<and> valid_timestamp t)"

definition valid_expected_input ::
  "jstr \<Rightarrow> bool \<Rightarrow> bool \<Rightarrow> expected_version \<Rightarrow> jstr \<Rightarrow> authority_proof \<Rightarrow> js_number \<Rightarrow> bool" where
  "valid_expected_input g on expected v reason a now \<longleftrightarrow>
     rx_test rx_group_id g \<and> on \<noteq> expected \<and> valid_expected_version v \<and> rx_test rx_reason_code reason
     \<and> valid_timestamp now \<and> assert_authority g a = None"

definition snapshot_current :: "bool \<Rightarrow> expected_version \<Rightarrow> policy_row option \<Rightarrow> bool" where
  "snapshot_current expected v old = (case v of
     ImplicitDefault \<Rightarrow> old = None \<and> \<not> expected
   | StoredVersion n t \<Rightarrow> (case old of
        None \<Rightarrow> False
      | Some r \<Rightarrow> valid_policy_row r \<and> pl_enabled r = expected \<and> n = JInt (pl_generation r) \<and> t = JInt (pl_updated r)))"

datatype expected_result = Updated policy_row nat jstr | StaleSnapshot

definition set_enabled_expected ::
  "jstr \<Rightarrow> bool \<Rightarrow> bool \<Rightarrow> expected_version \<Rightarrow> jstr \<Rightarrow> authority_proof \<Rightarrow> js_number \<Rightarrow> jstr \<Rightarrow> summary_db
    \<Rightarrow> summary_db \<times> (summary_error + expected_result)" where
  "set_enabled_expected g on expected v reason a now uid db =
     (if \<not> valid_expected_input g on expected v reason a now then (db, Inr StaleSnapshot)
      else let old = read_policy g db
        in if \<not> snapshot_current expected v old \<or> max_safe \<le> old_generation old then (db, Inr StaleSnapshot)
           else case durable_ceiling on g db of
             Inl e \<Rightarrow> (db, Inr StaleSnapshot)
           | Inr ceiling \<Rightarrow>
               let fl = transition_floor (int_value now) old ceiling
               in if max_date_ms \<le> fl then (db, Inr StaleSnapshot)
                  else (case write_transition g on (fl + 1) a (Some reason) uid db of
                      Inl e \<Rightarrow> (db, Inl e)
                    | Inr (db', n) \<Rightarrow> (db', Inr (Updated (next_policy g on (fl + 1) old) n uid))))"

section \<open>Binding and executing summary jobs\<close>

definition bind_summary_job ::
  "jstr \<Rightarrow> jstr \<Rightarrow> jstr \<Rightarrow> js_number \<Rightarrow> summary_db \<Rightarrow> summary_db \<times> (summary_error + binding_row)" where
  "bind_summary_job jid g cv clock db =
     (if \<not> valid_name jid \<or> \<not> valid_name g \<or> \<not> valid_name cv then (db, Inl InvalidInput)
      else case resolve_now clock of
        Inl e \<Rightarrow> (db, Inl e)
      | Inr now \<Rightarrow> (case require_enabled g db of
          Inl e \<Rightarrow> (db, Inl e)
        | Inr (p, eligible) \<Rightarrow> (case find_job jid (squeue db) of
            None \<Rightarrow> (db, Inl JobNotSummary)
          | Some j \<Rightarrow>
              if j_type j \<noteq> summary_type then (db, Inl JobNotSummary)
              else if j_status j \<noteq> JPending then (db, Inl JobNotPending)
              else (case read_binding jid db of
                Some b \<Rightarrow>
                  if bd_group b \<noteq> g \<or> bd_conversation b \<noteq> cv \<or> bd_generation b \<noteq> pl_generation p
                     \<or> bd_eligible b \<noteq> eligible \<or> bd_canceled b \<noteq> None
                  then (db, Inl BindingMismatch) else (db, Inr b)
              | None \<Rightarrow>
                  if now < eligible then (db, Inl SqlConstraint)
                  else let b = \<lparr>bd_job = jid, bd_group = g, bd_conversation = cv, bd_generation = pl_generation p,
                                bd_eligible = eligible, bd_created = now, bd_canceled = None\<rparr>
                       in (db\<lparr>bindings := bindings db @ [b]\<rparr>, Inr b)))))"

definition execution_allowed ::
  "jstr \<Rightarrow> jstr \<Rightarrow> jstr \<Rightarrow> jstr \<Rightarrow> js_number \<Rightarrow> summary_db \<Rightarrow> summary_error + binding_row" where
  "execution_allowed jid aid g cv clock db =
     (if \<not> valid_name jid \<or> \<not> valid_name aid \<or> \<not> valid_name g \<or> \<not> valid_name cv then Inl InvalidInput
      else case resolve_now clock of
        Inl e \<Rightarrow> Inl e
      | Inr now \<Rightarrow> (case read_binding jid db of
          None \<Rightarrow> Inl JobNotBound
        | Some b \<Rightarrow>
            if bd_group b \<noteq> g \<or> bd_conversation b \<noteq> cv then Inl BindingMismatch
            else if bd_canceled b \<noteq> None then Inl PolicyDisabled
            else (case require_enabled (bd_group b) db of
              Inl e \<Rightarrow> Inl e
            | Inr (p, eligible) \<Rightarrow>
                if bd_generation b \<noteq> pl_generation p \<or> bd_eligible b \<noteq> eligible then Inl StaleGeneration
                else (case find_job jid (squeue db) of
                  None \<Rightarrow> Inl JobNotSummary
                | Some j \<Rightarrow>
                    if j_type j \<noteq> summary_type then Inl JobNotSummary
                    else if \<not> has_authority (squeue db) jid aid now None then Inl AttemptNotAuthorized
                    else Inr b))))"

end
