(* ===== verification/Summary_Policy_Facts.thy ===== *)
theory Summary_Policy_Facts
  imports Summary_Policy Job_Queue_Theorems
begin

text \<open>
  The facts of the group summary policy: what a transition writes, the invariant of every reachable
  state (policies and bindings are unique, a binding never is ahead of its policy), and that
  generations only grow while bindings keep what they were bound to.
\<close>

section \<open>Histories\<close>

inductive summary_step :: "summary_db \<Rightarrow> summary_db \<Rightarrow> bool" where
  sum_legacy: "set_enabled_legacy g on a clock uid db = (db', r) \<Longrightarrow> summary_step db db'"
| sum_expected: "set_enabled_expected g on ex v reason a now uid db = (db', r') \<Longrightarrow> summary_step db db'"
| sum_bind: "bind_summary_job jid g cv clock db = (db', r'') \<Longrightarrow> summary_step db db'"
| sum_queue: "job_step (squeue db) q \<Longrightarrow> summary_step db (db\<lparr>squeue := q\<rparr>)"
| sum_environment: "squeue db' = squeue db \<Longrightarrow> gpolicies db' = gpolicies db \<Longrightarrow> bindings db' = bindings db \<Longrightarrow>
    summary_step db db'"

definition empty_summary :: summary_db where
  "empty_summary = \<lparr>squeue = empty_jobs, ingress = [], chats = [], gpolicies = [], bindings = [], paudits = []\<rparr>"

definition summary_reachable :: "summary_db \<Rightarrow> bool" where
  "summary_reachable db \<longleftrightarrow> summary_step\<^sup>*\<^sup>* empty_summary db"

definition policy_ok :: "policy_row \<Rightarrow> bool" where
  "policy_ok p \<longleftrightarrow> 1 \<le> pl_generation p \<and> pl_created p \<le> pl_updated p
     \<and> pl_eligible p = (if pl_enabled p then Some (pl_updated p) else None)"

definition binding_ok :: "policy_row list \<Rightarrow> binding_row \<Rightarrow> bool" where
  "binding_ok ps b \<longleftrightarrow> (\<exists>p \<in> set ps. pl_group p = bd_group b \<and> bd_generation b \<le> pl_generation p)"

definition summary_inv :: "summary_db \<Rightarrow> bool" where
  "summary_inv db \<longleftrightarrow> job_inv (squeue db) \<and> distinct (map pl_group (gpolicies db)) \<and> distinct (map bd_job (bindings db))
     \<and> (\<forall>p \<in> set (gpolicies db). policy_ok p) \<and> (\<forall>b \<in> set (bindings db). binding_ok (gpolicies db) b)"

section \<open>What a transition writes\<close>

lemma update_where_never [simp]: "update_where (\<lambda>r. False) f rows = rows"
  by (simp add: update_where_def)

lemma read_policy_iff:
  "distinct (map pl_group (gpolicies db)) \<Longrightarrow> read_policy g db = Some p \<longleftrightarrow> p \<in> set (gpolicies db) \<and> pl_group p = g"
  using find_distinct [of pl_group "gpolicies db" p] find_memberD [of "\<lambda>p. pl_group p = g" "gpolicies db" p]
  by (auto simp: read_policy_def)

lemma read_policy_None: "read_policy g db = None \<longleftrightarrow> g \<notin> pl_group ` set (gpolicies db)"
  by (auto simp: read_policy_def find_None_iff)

lemma upsert_next:
  assumes "distinct (map pl_group (gpolicies db))" and "p = next_policy g on t (read_policy g db)"
  shows "set (gpolicies (upsert_policy p db)) = insert p {q \<in> set (gpolicies db). pl_group q \<noteq> g}"
    and "distinct (map pl_group (gpolicies (upsert_policy p db)))"
    and "pl_group ` set (gpolicies (upsert_policy p db)) = insert g (pl_group ` set (gpolicies db))"
proof -
  have g: "pl_group p = g" using assms(2) by (simp add: next_policy_def)
  let ?f = "\<lambda>q. q\<lparr>pl_enabled := pl_enabled p, pl_generation := pl_generation p, pl_eligible := pl_eligible p, pl_updated := pl_updated p\<rparr>"
  have keys: "map pl_group (update_where (\<lambda>q. pl_group q = g) ?f rows) = map pl_group rows" for rows
    by (rule map_update_where) simp
  show dist: "distinct (map pl_group (gpolicies (upsert_policy p db)))"
    using assms(1) g by (simp add: upsert_policy_def keys)
  show "pl_group ` set (gpolicies (upsert_policy p db)) = insert g (pl_group ` set (gpolicies db))"
  proof (cases "g \<in> pl_group ` set (gpolicies db)")
    case True
    have "pl_group ` set (update_where (\<lambda>q. pl_group q = g) ?f (gpolicies db)) = pl_group ` set (gpolicies db)"
      using keys by (metis list.set_map)
    with True g show ?thesis by (simp add: upsert_policy_def insert_absorb)
  qed (simp add: upsert_policy_def g)
  show "set (gpolicies (upsert_policy p db)) = insert p {q \<in> set (gpolicies db). pl_group q \<noteq> g}"
  proof (cases "read_policy g db")
    case None
    then have "\<forall>q \<in> set (gpolicies db). pl_group q \<noteq> g" by (simp add: read_policy_def find_None_iff)
    with None show ?thesis using g by (auto simp: read_policy_None upsert_policy_def)
  next
    case (Some r)
    then have r: "r \<in> set (gpolicies db)" "pl_group r = g" using read_policy_iff [OF assms(1)] by simp_all
    have p: "?f r = p" using assms(2) Some r(2) by (cases r) (simp add: next_policy_def old_generation_def policy_row.defs)
    have only: "q = r" if "q \<in> set (gpolicies db)" "pl_group q = g" for q
      using that Some read_policy_iff [OF assms(1)] by (metis option.inject)
    have "set (gpolicies (upsert_policy p db)) = (\<lambda>q. if pl_group q = g then ?f q else q) ` set (gpolicies db)"
      using r g by (auto simp: upsert_policy_def set_update_where)
    moreover have "(\<lambda>q. if pl_group q = g then ?f q else q) ` set (gpolicies db) = insert p {q \<in> set (gpolicies db). pl_group q \<noteq> g}"
    proof (rule set_eqI, rule iffI)
      fix x
      assume "x \<in> (\<lambda>q. if pl_group q = g then ?f q else q) ` set (gpolicies db)"
      then obtain q where q: "q \<in> set (gpolicies db)" "x = (if pl_group q = g then ?f q else q)" by blast
      show "x \<in> insert p {q \<in> set (gpolicies db). pl_group q \<noteq> g}"
      proof (cases "pl_group q = g")
        case True
        with q only [OF q(1)] have "x = ?f r" by simp
        then have "x = p" unfolding p .
        then show ?thesis by simp
      qed (use q in simp)
    next
      fix x
      assume "x \<in> insert p {q \<in> set (gpolicies db). pl_group q \<noteq> g}"
      then consider "x = p" | "x \<in> set (gpolicies db)" "pl_group x \<noteq> g" by blast
      then show "x \<in> (\<lambda>q. if pl_group q = g then ?f q else q) ` set (gpolicies db)"
      proof cases
        case 1
        then have "x = (if pl_group r = g then ?f r else r)" unfolding p using r(2) by simp
        with r(1) show ?thesis by blast
      qed force
    qed
    ultimately show ?thesis by (rule trans)
  qed
qed

text \<open>The rest of a state: a transition only cancels bindings and fails their pending jobs.\<close>

lemma cancel_pending_Inr:
  assumes "cancel_pending g t db = Inr (db', n)"
  obtains Q R where "squeue db' = (squeue db)\<lparr>jobs := update_where Q (cancel_job t) (jobs (squeue db))\<rparr>"
    and "\<And>j. Q j \<Longrightarrow> j_status j = JPending" and "bindings db' = update_where R (\<lambda>b. b\<lparr>bd_canceled := Some t\<rparr>) (bindings db)"
    and "gpolicies db' = gpolicies db" and "paudits db' = paudits db"
proof (cases "filter (\<lambda>b. cancellable db g b \<noteq> None) (bindings db) = []")
  case True
  then have "db' = db" using assms by (simp add: cancel_pending_def Let_def)
  then show ?thesis by (intro that [of "\<lambda>j. False" "\<lambda>b. False"]) simp_all
next
  case False
  let ?ids = "map bd_job (filter (\<lambda>b. cancellable db g b \<noteq> None) (bindings db))"
  from assms False show ?thesis
    by (intro that [of "\<lambda>j. j_id j \<in> set ?ids \<and> j_status j = JPending" "\<lambda>b. bd_job b \<in> set ?ids \<and> bd_canceled b = None"])
      (auto simp: cancel_pending_def Let_def split: if_splits)
qed

lemma write_transition_Inr:
  assumes "write_transition g on t a reason uid db = Inr (db', n)"
  obtains Q R where "squeue db' = (squeue db)\<lparr>jobs := update_where Q (cancel_job t) (jobs (squeue db))\<rparr>"
    and "\<And>j. Q j \<Longrightarrow> j_status j = JPending" and "bindings db' = update_where R (\<lambda>b. b\<lparr>bd_canceled := Some t\<rparr>) (bindings db)"
    and "gpolicies db' = gpolicies (upsert_policy (next_policy g on t (read_policy g db)) db)"
proof -
  let ?db1 = "upsert_policy (next_policy g on t (read_policy g db)) db"
  have same: "squeue ?db1 = squeue db" "bindings ?db1 = bindings db" by (simp_all add: upsert_policy_def)
  show ?thesis
  proof (cases "on")
    case True
    with assms have "squeue db' = squeue ?db1" "bindings db' = bindings ?db1" "gpolicies db' = gpolicies ?db1"
      by (auto simp: write_transition_def Let_def)
    then show ?thesis using same by (intro that [of "\<lambda>j. False" "\<lambda>b. False"]) simp_all
  next
    case False
    with assms obtain db2 where c: "cancel_pending g t ?db1 = Inr (db2, n)"
      and "squeue db' = squeue db2" "bindings db' = bindings db2" "gpolicies db' = gpolicies db2"
      by (auto simp: write_transition_def Let_def split: sum.splits prod.splits)
    from c show ?thesis
    proof (rule cancel_pending_Inr)
      fix Q R
      assume "squeue db2 = (squeue ?db1)\<lparr>jobs := update_where Q (cancel_job t) (jobs (squeue ?db1))\<rparr>"
        "\<And>j. Q j \<Longrightarrow> j_status j = JPending" "bindings db2 = update_where R (\<lambda>b. b\<lparr>bd_canceled := Some t\<rparr>) (bindings ?db1)"
        "gpolicies db2 = gpolicies ?db1"
      then show thesis
        using \<open>squeue db' = squeue db2\<close> \<open>bindings db' = bindings db2\<close> \<open>gpolicies db' = gpolicies db2\<close> same
        by (intro that [of Q R]) simp_all
    qed
  qed
qed

lemma set_enabled_legacy_cases:
  assumes "set_enabled_legacy g on a clock uid db = (db', r)"
  obtains (same) "db' = db" and "\<And>p n i. r \<noteq> Inr (Changed p n i)"
  | (changed) t c n where "valid_name g" and "assert_authority g a = None" and "old_state (read_policy g db) \<noteq> on"
      and "durable_ceiling on g db = Inr c" and "transition_floor (int_value clock) (read_policy g db) c \<le> t"
      and "on \<Longrightarrow> transition_floor (int_value clock) (read_policy g db) c < t"
      and "write_transition g on t a None uid db = Inr (db', n)" and "r = Inr (Changed (read_policy g db') n uid)"
proof (cases "\<not> valid_name g \<or> (\<exists>e. resolve_now clock = Inl e) \<or> assert_authority g a \<noteq> None
    \<or> old_state (read_policy g db) = on \<or> (\<exists>e. durable_ceiling on g db = Inl e)")
  case True
  with assms show ?thesis by (intro same) (auto simp: set_enabled_legacy_def Let_def split: if_splits option.splits sum.splits)
next
  case False
  then obtain now c where ok: "valid_name g" "resolve_now clock = Inr now" "assert_authority g a = None"
    "old_state (read_policy g db) \<noteq> on" "durable_ceiling on g db = Inr c"
    by (cases "resolve_now clock"; cases "durable_ceiling on g db") auto
  have now: "now = int_value clock" using ok(2) by (simp add: resolve_now_def split: if_splits)
  let ?fl = "transition_floor now (read_policy g db) c"
  let ?t = "if max_safe \<le> ?fl then ?fl else ?fl + 1"
  show ?thesis
  proof (cases "on \<and> max_safe \<le> ?fl")
    case True
    with assms ok show ?thesis by (intro same) (auto simp: set_enabled_legacy_def Let_def)
  next
    case safe: False
    show ?thesis
    proof (cases "write_transition g on ?t a None uid db")
      case (Inl e)
      with assms ok safe show ?thesis by (intro same) (auto simp: set_enabled_legacy_def Let_def)
    next
      case (Inr p)
      obtain db2 n where p: "p = (db2, n)" by fastforce
      with assms ok safe Inr have "db' = db2" "r = Inr (Changed (read_policy g db2) n uid)"
        by (auto simp: set_enabled_legacy_def Let_def)
      with ok safe Inr p now show ?thesis by (intro changed [of c ?t n]) auto
    qed
  qed
qed

lemma set_enabled_expected_cases:
  assumes "set_enabled_expected g on ex v reason a now uid db = (db', r)"
  obtains (same) "db' = db" and "\<And>p n i. r \<noteq> Inr (Updated p n i)"
  | (changed) t c n where "valid_expected_input g on ex v reason a now" and "snapshot_current ex v (read_policy g db)"
      and "old_state (read_policy g db) \<noteq> on"
      and "durable_ceiling on g db = Inr c" and "transition_floor (int_value now) (read_policy g db) c < t"
      and "write_transition g on t a (Some reason) uid db = Inr (db', n)"
      and "r = Inr (Updated (next_policy g on t (read_policy g db)) n uid)"
proof (cases "valid_expected_input g on ex v reason a now \<and> snapshot_current ex v (read_policy g db)
    \<and> old_generation (read_policy g db) < max_safe")
  case False
  with assms show ?thesis by (intro same) (auto simp: set_enabled_expected_def Let_def split: if_splits)
next
  case ok: True
  have old: "old_state (read_policy g db) \<noteq> on"
    using ok by (auto simp: snapshot_current_def valid_expected_input_def old_state_def split: expected_version.splits option.splits)
  show ?thesis
  proof (cases "durable_ceiling on g db")
    case (Inl e)
    with assms ok show ?thesis by (intro same) (auto simp: set_enabled_expected_def Let_def)
  next
    case (Inr c)
    let ?fl = "transition_floor (int_value now) (read_policy g db) c"
    show ?thesis
    proof (cases "write_transition g on (?fl + 1) a (Some reason) uid db")
      case (Inl e)
      with assms ok Inr show ?thesis
        by (intro same) (auto simp: set_enabled_expected_def Let_def split: if_splits)
    next
      case w: (Inr p)
      obtain db2 n where p: "p = (db2, n)" by fastforce
      show ?thesis
      proof (cases "max_date_ms \<le> ?fl")
        case True
        with assms ok Inr show ?thesis by (intro same) (auto simp: set_enabled_expected_def Let_def)
      next
        case False
        with assms ok Inr w p have "db' = db2" "r = Inr (Updated (next_policy g on (?fl + 1) (read_policy g db)) n uid)"
          by (auto simp: set_enabled_expected_def Let_def)
        with ok old Inr w p show ?thesis by (intro changed [of c "?fl + 1" n]) auto
      qed
    qed
  qed
qed

section \<open>The invariant\<close>

lemma cancel_job_keeps [simp]:
  "j_id (cancel_job t j) = j_id j" "j_key (cancel_job t j) = j_key j" "j_type (cancel_job t j) = j_type j"
  "j_status (cancel_job t j) = JFailed"
  by (simp_all add: cancel_job_def)

lemma job_ok_cancel: "job_ok as j \<Longrightarrow> j_status j = JPending \<Longrightarrow> job_ok as (cancel_job t j)"
  by (simp add: job_ok_def cancel_job_def)

lemma job_inv_cancel:
  assumes "job_inv q" and "\<And>j. Q j \<Longrightarrow> j_status j = JPending"
  shows "job_inv (q\<lparr>jobs := update_where Q (cancel_job t) (jobs q)\<rparr>)"
proof -
  have keys: "map j_id (update_where Q (cancel_job t) (jobs q)) = map j_id (jobs q)"
    "map j_key (update_where Q (cancel_job t) (jobs q)) = map j_key (jobs q)"
    by (rule map_update_where; simp)+
  then have "j_id ` set (update_where Q (cancel_job t) (jobs q)) = j_id ` set (jobs q)" by (metis list.set_map)
  moreover have "job_ok (attempts_of q (j_id j)) j" if "j \<in> set (update_where Q (cancel_job t) (jobs q))" for j
    using that job_invD(3) [OF assms(1)] assms(2) by (auto simp: set_update_where intro: job_ok_cancel split: if_splits)
  ultimately show ?thesis
    using assms(1) by (simp add: job_inv_def keys job_keys_def attempts_of_def)
qed

lemma next_policy_ok:
  assumes "\<forall>p \<in> set (gpolicies db). policy_ok p" and "distinct (map pl_group (gpolicies db))"
    and "transition_floor now (read_policy g db) c \<le> t"
  shows "policy_ok (next_policy g on t (read_policy g db))"
    and "old_generation (read_policy g db) < pl_generation (next_policy g on t (read_policy g db))"
proof -
  show "policy_ok (next_policy g on t (read_policy g db))"
  proof (cases "read_policy g db")
    case (Some r)
    then have "policy_ok r" using assms(1) read_policy_iff [OF assms(2)] by blast
    with Some assms(3) show ?thesis
      by (auto simp: policy_ok_def next_policy_def old_generation_def transition_floor_def Let_def split: option.splits)
  qed (simp add: policy_ok_def next_policy_def old_generation_def)
qed (simp add: next_policy_def)

lemma binding_ok_mono:
  assumes "binding_ok ps b" and "\<And>p. p \<in> set ps \<Longrightarrow> \<exists>q \<in> set ps'. pl_group q = pl_group p \<and> pl_generation p \<le> pl_generation q"
  shows "binding_ok ps' b"
  using assms unfolding binding_ok_def by (metis order_trans)

text \<open>A write of a policy keeps the others and raises the generation of its own.\<close>

lemma upsert_raises:
  assumes "summary_inv db" and "p = next_policy g on t (read_policy g db)" and "q \<in> set (gpolicies db)"
  shows "\<exists>q' \<in> set (gpolicies (upsert_policy p db)). pl_group q' = pl_group q \<and> pl_generation q \<le> pl_generation q'"
proof (cases "pl_group q = g")
  case True
  have dist: "distinct (map pl_group (gpolicies db))" using assms(1) by (simp add: summary_inv_def)
  with True assms(3) have "read_policy g db = Some q" using read_policy_iff by blast
  then have "pl_generation q \<le> pl_generation p" "pl_group p = g"
    using assms(2) by (simp_all add: next_policy_def old_generation_def)
  with True show ?thesis using upsert_next(1) [OF dist assms(2)] by blast
next
  case False
  have dist: "distinct (map pl_group (gpolicies db))" using assms(1) by (simp add: summary_inv_def)
  from False assms(3) show ?thesis using upsert_next(1) [OF dist assms(2)] by blast
qed

lemma summary_inv_transition:
  assumes "write_transition g on t a reason uid db = Inr (db', n)" and "summary_inv db"
    and "transition_floor now (read_policy g db) c \<le> t"
  shows "summary_inv db'"
  using assms(1)
proof (rule write_transition_Inr)
  fix Q R
  assume q: "squeue db' = (squeue db)\<lparr>jobs := update_where Q (cancel_job t) (jobs (squeue db))\<rparr>"
    and Q: "\<And>j. Q j \<Longrightarrow> j_status j = JPending"
    and b: "bindings db' = update_where R (\<lambda>b. b\<lparr>bd_canceled := Some t\<rparr>) (bindings db)"
    and p: "gpolicies db' = gpolicies (upsert_policy (next_policy g on t (read_policy g db)) db)"
  have dist: "distinct (map pl_group (gpolicies db))" using assms(2) by (simp add: summary_inv_def)
  note up = upsert_next [OF dist refl [of "next_policy g on t (read_policy g db)"]]
  have "job_inv (squeue db')" unfolding q by (rule job_inv_cancel) (use assms(2) Q in \<open>simp_all add: summary_inv_def\<close>)
  moreover have "map bd_job (bindings db') = map bd_job (bindings db)" unfolding b by (rule map_update_where) simp
  moreover have "\<forall>p \<in> set (gpolicies db'). policy_ok p"
    using next_policy_ok(1) [OF _ dist assms(3), where on = "on"] assms(2) unfolding p up(1) by (auto simp: summary_inv_def)
  moreover have "binding_ok (gpolicies db') x" if "x \<in> set (bindings db')" for x
  proof -
    from that obtain y where y: "y \<in> set (bindings db)" "bd_group x = bd_group y" "bd_generation x = bd_generation y"
      unfolding b set_update_where by (auto split: if_splits)
    then have "binding_ok (gpolicies db) y" using assms(2) by (simp add: summary_inv_def)
    then have "binding_ok (gpolicies db') y"
      unfolding p by (rule binding_ok_mono) (rule upsert_raises [OF assms(2) refl])
    with y show ?thesis by (simp add: binding_ok_def)
  qed
  moreover have "distinct (map pl_group (gpolicies db'))" unfolding p by (rule up(2))
  ultimately show ?thesis using assms(2) by (simp add: summary_inv_def)
qed

lemma bind_summary_cases:
  assumes "bind_summary_job jid g cv clock db = (db', r)"
  obtains (same) "db' = db"
  | (bound) p b t where "valid_name g" and "read_policy g db = Some p" and "pl_enabled p" and "pl_eligible p = Some t"
      and "read_binding jid db = None" and "b = \<lparr>bd_job = jid, bd_group = g, bd_conversation = cv,
        bd_generation = pl_generation p, bd_eligible = t, bd_created = int_value clock, bd_canceled = None\<rparr>"
      and "t \<le> int_value clock" and "db' = db\<lparr>bindings := bindings db @ [b]\<rparr>" and "r = Inr b"
proof (cases "db' = db")
  case False
  then have v: "valid_name jid" "valid_name g" "valid_name cv" using assms by (auto simp: bind_summary_job_def split: if_splits)
  obtain now where now: "resolve_now clock = Inr now" using assms False v by (auto simp: bind_summary_job_def split: sum.splits)
  then have "now = int_value clock" by (simp add: resolve_now_def split: if_splits)
  obtain p t where p: "require_enabled g db = Inr (p, t)"
    using assms False v now by (auto simp: bind_summary_job_def split: sum.splits)
  then have pol: "read_policy g db = Some p" "pl_enabled p" "pl_eligible p = Some t"
    using v(2) by (auto simp: require_enabled_def get_policy_def split: option.splits if_splits)
  have none: "read_binding jid db = None"
    using assms False v now p by (auto simp: bind_summary_job_def split: option.splits if_splits)
  let ?b = "\<lparr>bd_job = jid, bd_group = g, bd_conversation = cv,
        bd_generation = pl_generation p, bd_eligible = t, bd_created = now, bd_canceled = None\<rparr>"
  have "db' = db\<lparr>bindings := bindings db @ [?b]\<rparr>" "r = Inr ?b" "t \<le> now"
    using assms False v now p none by (auto simp: bind_summary_job_def Let_def split: option.splits if_splits)
  with v pol none \<open>now = int_value clock\<close> show ?thesis by (intro bound) simp_all
qed (rule same)

lemma summary_inv_step: "summary_step db db' \<Longrightarrow> summary_inv db \<Longrightarrow> summary_inv db'"
proof (induction rule: summary_step.induct)
  case (sum_legacy g "on" a clock uid db db' r)
  then show ?case by (cases rule: set_enabled_legacy_cases) (use summary_inv_transition in auto)
next
  case (sum_expected g "on" ex v reason a now uid db db' r)
  then show ?case by (cases rule: set_enabled_expected_cases) (use summary_inv_transition in \<open>auto dest: order_less_imp_le\<close>)
next
  case (sum_bind jid g cv clock db db' r)
  then show ?case
  proof (cases rule: bind_summary_cases)
    case (bound p b t)
    have dist: "distinct (map pl_group (gpolicies db))" using sum_bind by (simp add: summary_inv_def)
    have "p \<in> set (gpolicies db)" "pl_group p = g" using bound(2) read_policy_iff [OF dist] by simp_all
    then have "binding_ok (gpolicies db) b" unfolding binding_ok_def bound(6) by auto
    moreover have "jid \<notin> bd_job ` set (bindings db)" using bound(5) by (auto simp: read_binding_def find_None_iff)
    ultimately show ?thesis using sum_bind(2) bound(6,8) by (simp add: summary_inv_def)
  qed simp
next
  case (sum_queue db q)
  then show ?case using job_inv_step by (simp add: summary_inv_def)
qed (simp add: summary_inv_def)

lemma summary_inv_steps: "summary_step\<^sup>*\<^sup>* db db' \<Longrightarrow> summary_inv db \<Longrightarrow> summary_inv db'"
  by (induction rule: rtranclp_induct) (simp_all add: summary_inv_step)

lemma summary_inv_reachable: "summary_reachable db \<Longrightarrow> summary_inv db"
  unfolding summary_reachable_def
  by (erule summary_inv_steps) (simp add: summary_inv_def empty_summary_def job_inv_empty)

section \<open>Generations only grow\<close>

lemma read_policy_upsert:
  assumes "summary_inv db" and "gpolicies db' = gpolicies (upsert_policy (next_policy g on t (read_policy g db)) db)"
  shows "read_policy g db' = Some (next_policy g on t (read_policy g db))" and "h \<noteq> g \<Longrightarrow> read_policy h db' = read_policy h db"
proof -
  have dist: "distinct (map pl_group (gpolicies db))" using assms(1) by (simp add: summary_inv_def)
  note up = upsert_next [OF dist refl [of "next_policy g on t (read_policy g db)"], folded assms(2)]
  show "read_policy g db' = Some (next_policy g on t (read_policy g db))"
    unfolding read_policy_iff [OF up(2)] up(1) by (simp add: next_policy_def)
  show "read_policy h db' = read_policy h db" if "h \<noteq> g"
  proof (cases "read_policy h db")
    case None
    then have "read_policy h db' = None" unfolding read_policy_None up(3) using that by simp
    with None show ?thesis by simp
  next
    case (Some p)
    then have "p \<in> set (gpolicies db)" "pl_group p = h" using read_policy_iff [OF dist] by simp_all
    then have "read_policy h db' = Some p" unfolding read_policy_iff [OF up(2)] up(1) using that by simp
    with Some show ?thesis by simp
  qed
qed

text \<open>One step leaves the policy of a group alone or moves it to a later generation.\<close>

definition policy_moves :: "policy_row option \<Rightarrow> policy_row option \<Rightarrow> bool" where
  "policy_moves p q \<longleftrightarrow> q = p \<or> (q \<noteq> None \<and> old_generation p < old_generation q)"

lemma policy_moves_trans: "policy_moves p q \<Longrightarrow> policy_moves q r \<Longrightarrow> policy_moves p r"
  by (auto simp: policy_moves_def)

lemma transition_moves:
  assumes "write_transition g on t a reason uid db = Inr (db', n)" and "summary_inv db"
  shows "read_policy g db' = Some (next_policy g on t (read_policy g db))" and "policy_moves (read_policy h db) (read_policy h db')"
proof -
  have p: "gpolicies db' = gpolicies (upsert_policy (next_policy g on t (read_policy g db)) db)"
    using assms(1) by (rule write_transition_Inr)
  note read = read_policy_upsert [OF assms(2) p]
  show "read_policy g db' = Some (next_policy g on t (read_policy g db))" by (rule read(1))
  have "old_generation (read_policy g db) < old_generation (Some (next_policy g on t (read_policy g db)))"
    by (simp add: old_generation_def [of "Some x" for x] next_policy_def)
  then show "policy_moves (read_policy h db) (read_policy h db')"
    using read by (cases "h = g") (simp_all add: policy_moves_def)
qed

lemma policy_moves_step: "summary_step db db' \<Longrightarrow> summary_inv db \<Longrightarrow> policy_moves (read_policy h db) (read_policy h db')"
proof (induction rule: summary_step.induct)
  case (sum_legacy g "on" a clock uid db db' r)
  then show ?case
    by (cases rule: set_enabled_legacy_cases) (use transition_moves(2) in \<open>auto simp: policy_moves_def [of x x for x]\<close>)
next
  case (sum_expected g "on" ex v reason a now uid db db' r)
  then show ?case
    by (cases rule: set_enabled_expected_cases) (use transition_moves(2) in \<open>auto simp: policy_moves_def [of x x for x]\<close>)
next
  case (sum_bind jid g cv clock db db' r)
  then show ?case by (cases rule: bind_summary_cases) (simp_all add: policy_moves_def read_policy_def)
qed (simp_all add: policy_moves_def read_policy_def)

lemma policy_moves_steps:
  "summary_step\<^sup>*\<^sup>* db db' \<Longrightarrow> summary_inv db \<Longrightarrow> policy_moves (read_policy h db) (read_policy h db')"
proof (induction rule: rtranclp_induct)
  case (step y z)
  then show ?case using policy_moves_step summary_inv_steps policy_moves_trans by metis
qed (simp add: policy_moves_def)

text \<open>A binding stays bound to its group and generation.\<close>

definition binding_kept :: "binding_row \<Rightarrow> binding_row \<Rightarrow> bool" where
  "binding_kept b b' \<longleftrightarrow> bd_group b' = bd_group b \<and> bd_generation b' = bd_generation b"

lemma find_update_where:
  "find P rows = Some r \<Longrightarrow> (\<And>x. P (f x) = P x) \<Longrightarrow> find P (update_where R f rows) = Some (if R r then f r else r)"
  unfolding update_where_def by (induction rows) (auto split: if_splits)

lemma binding_kept_transition:
  assumes "write_transition g on t a reason uid db = Inr (db', n)" and "read_binding jid db = Some b"
  shows "\<exists>b'. read_binding jid db' = Some b' \<and> binding_kept b b'"
  using assms(1)
proof (rule write_transition_Inr)
  fix R
  assume "bindings db' = update_where R (\<lambda>b. b\<lparr>bd_canceled := Some t\<rparr>) (bindings db)"
  with find_update_where [of "\<lambda>b. bd_job b = jid" "bindings db" b "\<lambda>b. b\<lparr>bd_canceled := Some t\<rparr>" R] assms(2)
  have "read_binding jid db' = Some (if R b then b\<lparr>bd_canceled := Some t\<rparr> else b)" by (simp add: read_binding_def)
  then show ?thesis by (auto simp: binding_kept_def)
qed

lemma binding_kept_step: "summary_step db db' \<Longrightarrow> read_binding jid db = Some b \<Longrightarrow>
    \<exists>b'. read_binding jid db' = Some b' \<and> binding_kept b b'"
proof (induction rule: summary_step.induct)
  case (sum_legacy g "on" a clock uid db db' r)
  then show ?case
    by (cases rule: set_enabled_legacy_cases) (use binding_kept_transition in \<open>auto simp: binding_kept_def [of x x for x]\<close>)
next
  case (sum_expected g "on" ex v reason a now uid db db' r)
  then show ?case
    by (cases rule: set_enabled_expected_cases) (use binding_kept_transition in \<open>auto simp: binding_kept_def [of x x for x]\<close>)
next
  case (sum_bind k g cv clock db db' r)
  then show ?case
    by (cases rule: bind_summary_cases) (simp_all add: binding_kept_def read_binding_def find_append_left)
qed (simp_all add: binding_kept_def read_binding_def)

lemma binding_kept_steps:
  "summary_step\<^sup>*\<^sup>* db db' \<Longrightarrow> read_binding jid db = Some b \<Longrightarrow> \<exists>b'. read_binding jid db' = Some b' \<and> binding_kept b b'"
proof (induction rule: rtranclp_induct)
  case (step y z)
  then obtain b' where b': "read_binding jid y = Some b'" "binding_kept b b'" by blast
  with binding_kept_step [OF step.hyps(2) b'(1)] show ?case by (auto simp: binding_kept_def)
qed (simp add: binding_kept_def)

end
