(* ===== verification/Summary_Policy_Theorems.thy ===== *)
theory Summary_Policy_Theorems
  imports Summary_Policy_Facts
begin

text \<open>
  The theorems of the group summary policy: a job bound under an earlier generation never runs
  again, enabling makes no earlier message eligible, disabling succeeds and cancels every pending
  job of the group, and a change against an expected snapshot succeeds at most once.
\<close>

section \<open>Generations fence jobs\<close>

lemma execution_current:
  assumes "execution_allowed jid aid g cv clock db = Inr b"
  shows "read_binding jid db = Some b \<and> bd_canceled b = None
    \<and> (\<exists>p. read_policy (bd_group b) db = Some p \<and> pl_enabled p \<and> pl_generation p = bd_generation b)"
  using assms
  by (auto simp: execution_allowed_def require_enabled_def get_policy_def split: if_splits sum.splits option.splits)

text \<open>
  C17.  A change of a policy fences the jobs bound before it.  Once the generation of a group has
  moved on, a job that was bound to the group earlier is never allowed to execute again, also
  when the policy has been enabled anew.
\<close>

theorem summary_generation_fence:
  assumes "summary_reachable db" and "read_binding jid db = Some b" and "bd_group b = g"
    and "summary_step\<^sup>*\<^sup>* db db'" and "old_generation (read_policy g db') \<noteq> old_generation (read_policy g db)"
  shows "\<exists>e. execution_allowed jid aid g' cv clock db' = Inl e"
proof (rule ccontr)
  assume "\<not> ?thesis"
  then obtain b' where "execution_allowed jid aid g' cv clock db' = Inr b'"
    by (cases "execution_allowed jid aid g' cv clock db'") auto
  then have b': "read_binding jid db' = Some b'"
    and p': "\<exists>p. read_policy (bd_group b') db' = Some p \<and> pl_generation p = bd_generation b'"
    using execution_current by blast+
  have inv: "summary_inv db" by (rule summary_inv_reachable [OF assms(1)])
  have kept: "bd_group b' = g" "bd_generation b' = bd_generation b"
    using binding_kept_steps [OF assms(4,2)] b' assms(3) by (auto simp: binding_kept_def)
  have "b \<in> set (bindings db)" using assms(2) by (auto simp: read_binding_def dest: find_memberD)
  with inv have "binding_ok (gpolicies db) b" by (simp add: summary_inv_def)
  then obtain p where "p \<in> set (gpolicies db)" "pl_group p = g" "bd_generation b \<le> pl_generation p"
    using assms(3) by (auto simp: binding_ok_def)
  then have "read_policy g db = Some p" using inv read_policy_iff [of db g p] by (simp add: summary_inv_def)
  with \<open>bd_generation b \<le> pl_generation p\<close> have "bd_generation b \<le> old_generation (read_policy g db)"
    by (simp add: old_generation_def)
  moreover have "old_generation (read_policy g db) < old_generation (read_policy g db')"
    using policy_moves_steps [OF assms(4) inv, of g] assms(5) by (auto simp: policy_moves_def)
  moreover have "old_generation (read_policy g db') = bd_generation b"
    using p' kept by (auto simp: old_generation_def)
  ultimately show False by simp
qed

section \<open>Enabling\<close>

lemma max_of_le: "max_of xs = Some m \<Longrightarrow> x \<in> set xs \<Longrightarrow> x \<le> m"
proof -
  have fold: "a \<le> foldl max a ys \<and> (\<forall>y \<in> set ys. y \<le> foldl max a ys)" for a :: int and ys
  proof (induction ys arbitrary: a)
    case (Cons y ys)
    from Cons.IH [of "max a y"] show ?case by auto
  qed simp
  assume "max_of xs = Some m" "x \<in> set xs"
  then show ?thesis using fold by (cases xs) auto
qed

lemma checked_max_le: "checked_max xs = Inr c \<Longrightarrow> x \<in> set xs \<Longrightarrow> \<exists>m. c = Some m \<and> x \<le> m"
  using max_of_le [of xs] by (cases xs) (auto simp: checked_max_def split: if_splits)

lemma floor_ge:
  "transition_floor now p c \<le> t \<Longrightarrow> now \<le> t" "transition_floor now p (Some m) \<le> t \<Longrightarrow> m \<le> t"
  "transition_floor now (Some r) c \<le> t \<Longrightarrow> pl_updated r \<le> t"
  by (auto simp: transition_floor_def Let_def split: option.splits)

text \<open>
  Enabling a policy opens a new generation and makes no earlier message eligible: the
  time from which messages are eligible is later than every stored message of the group, by
  either entry point.
\<close>

theorem summary_enable_excludes_past:
  assumes "summary_reachable db"
    and "set_enabled_legacy g True a clock uid db = (db', Inr (Changed p n i))
       \<or> set_enabled_expected g True ex v reason a clock uid db = (db', Inr (Updated p' n i))"
  shows "\<exists>q t. read_policy g db' = Some q \<and> pl_enabled q \<and> pl_eligible q = Some t
    \<and> pl_generation q = old_generation (read_policy g db) + 1
    \<and> (\<forall>r \<in> set (ingress db). group_ingress db g r \<longrightarrow> rw_created r < t)"
proof -
  have inv: "summary_inv db" by (rule summary_inv_reachable [OF assms(1)])
  obtain t c n reason where w: "write_transition g True t a reason uid db = Inr (db', n)"
    and c: "ingress_ceiling g db = Inr c" "transition_floor (int_value clock) (read_policy g db) c < t"
    using assms(2)
  proof (elim disjE)
    assume "set_enabled_legacy g True a clock uid db = (db', Inr (Changed p n i))"
    then show thesis
      by (cases rule: set_enabled_legacy_cases) (auto simp: durable_ceiling_def intro: that)
  next
    assume "set_enabled_expected g True ex v reason a clock uid db = (db', Inr (Updated p' n i))"
    then show thesis
      by (cases rule: set_enabled_expected_cases) (auto simp: durable_ceiling_def intro: that)
  qed
  have "rw_created r < t" if "r \<in> set (ingress db)" "group_ingress db g r" for r
  proof -
    from that have "rw_created r \<in> set (map rw_created (filter (group_ingress db g) (ingress db)))" by simp
    with checked_max_le c(1) obtain m where "c = Some m" "rw_created r \<le> m"
      unfolding ingress_ceiling_def by blast
    with c(2) show ?thesis by (auto simp: transition_floor_def Let_def split: option.splits)
  qed
  moreover have "read_policy g db' = Some (next_policy g True t (read_policy g db))"
    by (rule transition_moves(1) [OF w inv])
  ultimately show ?thesis by (simp add: next_policy_def)
qed

section \<open>Disabling\<close>

lemma distinct_filter_ids: "distinct (map f xs) \<Longrightarrow> distinct (map f (filter P xs))"
  by (induction xs) auto

lemma changes_ids:
  assumes "distinct (map f rows)" and "distinct ids" and "set ids \<subseteq> f ` {r \<in> set rows. P r}"
  shows "changes (\<lambda>r. f r \<in> set ids \<and> P r) rows = length ids"
proof -
  let ?rs = "filter (\<lambda>r. f r \<in> set ids \<and> P r) rows"
  have "set (map f ?rs) = set ids" using assms(3) by auto
  moreover have "distinct (map f ?rs)" by (rule distinct_filter_ids [OF assms(1)])
  ultimately have "length (map f ?rs) = length ids" using assms(2) by (metis distinct_card)
  then show ?thesis by (simp add: changes_def)
qed

lemma cancellable_Some:
  "cancellable db g b = Some j \<longleftrightarrow> bd_group b = g \<and> bd_canceled b = None \<and> find_job (bd_job b) (squeue db) = Some j
    \<and> j_type j = summary_type \<and> j_status j = JPending"
  by (auto simp: cancellable_def split: option.splits)

lemma cancel_pending_total:
  assumes "summary_inv db" and "\<And>b j. b \<in> set (bindings db) \<Longrightarrow> cancellable db g b = Some j \<Longrightarrow> bd_created b \<le> t"
  shows "\<exists>db'. cancel_pending g t db = Inr (db', length (filter (\<lambda>b. cancellable db g b \<noteq> None) (bindings db)))
    \<and> (\<forall>b \<in> set (bindings db'). cancellable db' g b = None)"
proof -
  let ?bs = "filter (\<lambda>b. cancellable db g b \<noteq> None) (bindings db)"
  let ?ids = "map bd_job ?bs"
  let ?Q = "\<lambda>j. j_id j \<in> set ?ids \<and> j_status j = JPending"
  let ?R = "\<lambda>b. bd_job b \<in> set ?ids \<and> bd_canceled b = None"
  have db: "distinct (map bd_job (bindings db))" and dj: "distinct (map j_id (jobs (squeue db)))" "job_inv (squeue db)"
    using assms(1) by (simp_all add: summary_inv_def job_inv_def)
  have ids: "distinct ?ids" by (rule distinct_filter_ids [OF db])
  have same: "b' = b" if "b \<in> set (bindings db)" "b' \<in> set (bindings db)" "bd_job b' = bd_job b" for b b'
    using that db by (metis distinct_map inj_onD)
  have only: "cancellable db g b \<noteq> None" if "b \<in> set (bindings db)" "bd_job b \<in> set ?ids" for b
  proof -
    from that(2) obtain b' where "b' \<in> set (bindings db)" "cancellable db g b' \<noteq> None" "bd_job b' = bd_job b" by auto
    with same [OF that(1)] show ?thesis by metis
  qed
  have "set ?ids \<subseteq> j_id ` {j \<in> set (jobs (squeue db)). j_status j = JPending}"
  proof
    fix i
    assume "i \<in> set ?ids"
    then obtain b j where "bd_job b = i" "cancellable db g b = Some j" by auto
    then have "find_job i (squeue db) = Some j" "j_status j = JPending" by (simp_all add: cancellable_Some)
    then show "i \<in> j_id ` {j \<in> set (jobs (squeue db)). j_status j = JPending}"
      using find_job_iff [OF dj(2), of i j] by auto
  qed
  then have Q: "changes ?Q (jobs (squeue db)) = length ?ids" by (rule changes_ids [OF dj(1) ids])
  have "set ?ids \<subseteq> bd_job ` {b \<in> set (bindings db). bd_canceled b = None}" by (auto simp: cancellable_Some)
  then have R: "changes ?R (bindings db) = length ?ids" by (rule changes_ids [OF db ids])
  have late: "\<not> list_ex (\<lambda>b. ?R b \<and> t < bd_created b) (bindings db)"
  proof -
    have "bd_created b \<le> t" if "b \<in> set (bindings db)" "bd_job b \<in> set ?ids" for b
      using only [OF that] assms(2) [OF that(1)] by blast
    then show ?thesis by (auto simp: list_ex_iff not_less)
  qed
  let ?db = "db\<lparr>squeue := (squeue db)\<lparr>jobs := update_where ?Q (cancel_job t) (jobs (squeue db))\<rparr>,
                     bindings := update_where ?R (\<lambda>b. b\<lparr>bd_canceled := Some t\<rparr>) (bindings db)\<rparr>"
  show ?thesis
  proof (cases "?ids = []")
    case True
    then have "cancel_pending g t db = Inr (db, 0)" "?bs = []" by (simp_all add: cancel_pending_def Let_def)
    moreover from this(2) have "\<forall>b \<in> set (bindings db). cancellable db g b = None" by (simp add: filter_empty_conv)
    ultimately show ?thesis by simp
  next
    case False
    with Q R late have "cancel_pending g t db = Inr (?db, length ?bs)" unfolding cancel_pending_def Let_def by simp
    moreover have "cancellable ?db g b = None" if "b \<in> set (bindings ?db)" for b
    proof (rule ccontr)
      assume "cancellable ?db g b \<noteq> None"
      then obtain j where c: "bd_group b = g" "bd_canceled b = None" "find_job (bd_job b) (squeue ?db) = Some j"
        "j_type j = summary_type" "j_status j = JPending" by (auto simp: cancellable_Some)
      from that c(2) have b: "b \<in> set (bindings db)" "\<not> ?R b"
        by (auto simp: set_update_where split: if_splits)
      with c(2) have new: "bd_job b \<notin> set ?ids" by simp
      from c(3) have "j \<in> set (update_where ?Q (cancel_job t) (jobs (squeue db)))" "j_id j = bd_job b"
        by (auto simp: find_job_def dest: find_memberD)
      with c(5) have "j \<in> set (jobs (squeue db))" by (auto simp: set_update_where split: if_splits)
      with \<open>j_id j = bd_job b\<close> have "find_job (bd_job b) (squeue db) = Some j" using find_job_iff [OF dj(2)] by blast
      with c b(1) have "cancellable db g b \<noteq> None" by (simp add: cancellable_def)
      with b(1) new show False by auto
    qed
    ultimately show ?thesis by blast
  qed
qed

text \<open>
  Disabling an enabled policy under valid authority succeeds: it cannot fail half way, it
  reports how many pending summary jobs were bound to the group, and afterwards no binding of
  the group has a pending job left.
\<close>

theorem summary_disable_cancels:
  assumes "summary_reachable db" and "valid_name g" and "assert_authority g a = None"
    and "resolve_now clock = Inr now" and "old_state (read_policy g db)" and "pending_ceiling g db = Inr c"
  shows "\<exists>db' p. set_enabled_legacy g False a clock uid db
      = (db', Inr (Changed (Some p) (length (filter (\<lambda>b. cancellable db g b \<noteq> None) (bindings db))) uid))
    \<and> \<not> pl_enabled p \<and> read_policy g db' = Some p \<and> (\<forall>b \<in> set (bindings db'). cancellable db' g b = None)"
proof -
  have inv: "summary_inv db" by (rule summary_inv_reachable [OF assms(1)])
  let ?fl = "transition_floor now (read_policy g db) c"
  define t where "t = (if max_safe \<le> ?fl then ?fl else ?fl + 1)"
  have t: "?fl \<le> t" by (simp add: t_def)
  let ?p = "next_policy g False t (read_policy g db)"
  let ?db1 = "upsert_policy ?p db"
  have same: "bindings ?db1 = bindings db" "cancellable ?db1 g = cancellable db g"
    by (simp_all add: upsert_policy_def cancellable_def fun_eq_iff)
  have inv1: "summary_inv ?db1"
  proof -
    have dist: "distinct (map pl_group (gpolicies db))" using inv by (simp add: summary_inv_def)
    note up = upsert_next [OF dist refl [of ?p]]
    have "binding_ok (gpolicies ?db1) b" if "b \<in> set (bindings db)" for b
    proof -
      have "binding_ok (gpolicies db) b" using inv that by (simp add: summary_inv_def)
      then show ?thesis by (rule binding_ok_mono) (rule upsert_raises [OF inv refl])
    qed
    moreover have "\<forall>p \<in> set (gpolicies ?db1). policy_ok p"
      using next_policy_ok(1) [OF _ dist t] inv unfolding up(1) by (auto simp: summary_inv_def)
    moreover have "squeue ?db1 = squeue db" by (simp add: upsert_policy_def)
    ultimately show ?thesis using inv up(2) same by (simp add: summary_inv_def)
  qed
  have late: "bd_created b \<le> t" if b: "b \<in> set (bindings db)" "cancellable db g b = Some j" for b j
  proof -
    let ?ts = "concat (map (\<lambda>b. case cancellable db g b of
       None \<Rightarrow> [] | Some j \<Rightarrow> [max (bd_created b) (max (j_created j) (j_updated j))]) (bindings db))"
    have "max (bd_created b) (max (j_created j) (j_updated j)) \<in> set ?ts" using b by force
    then obtain m where "c = Some m" "max (bd_created b) (max (j_created j) (j_updated j)) \<le> m"
      using checked_max_le assms(6) unfolding pending_ceiling_def by blast
    with t show ?thesis by (auto simp: transition_floor_def Let_def split: option.splits)
  qed
  obtain db2 where c2: "cancel_pending g t ?db1 = Inr (db2, length (filter (\<lambda>b. cancellable db g b \<noteq> None) (bindings db)))"
    and gone: "\<forall>b \<in> set (bindings db2). cancellable db2 g b = None"
    using cancel_pending_total [OF inv1, of g t] late same by auto
  have "\<exists>db'. write_transition g False t a None uid db
        = Inr (db', length (filter (\<lambda>b. cancellable db g b \<noteq> None) (bindings db)))
      \<and> squeue db' = squeue db2 \<and> bindings db' = bindings db2"
    using c2 by (simp add: write_transition_def Let_def)
  then obtain db' where w: "write_transition g False t a None uid db
        = Inr (db', length (filter (\<lambda>b. cancellable db g b \<noteq> None) (bindings db)))"
    and rest: "squeue db' = squeue db2" "bindings db' = bindings db2" by blast
  have read: "read_policy g db' = Some ?p" by (rule transition_moves(1) [OF w inv])
  have "set_enabled_legacy g False a clock uid db
      = (db', Inr (Changed (Some ?p) (length (filter (\<lambda>b. cancellable db g b \<noteq> None) (bindings db))) uid))"
    using assms(2-6) w read unfolding set_enabled_legacy_def t_def durable_ceiling_def by (simp add: Let_def)
  moreover have "cancellable db' g = cancellable db2 g" using rest by (simp add: cancellable_def fun_eq_iff)
  then have "\<forall>b \<in> set (bindings db'). cancellable db' g b = None" using gone rest by simp
  moreover have "\<not> pl_enabled ?p" by (simp add: next_policy_def)
  ultimately show ?thesis using read by blast
qed

section \<open>Expected snapshots\<close>

text \<open>
  A change against an expected snapshot is a compare and set: when one has been applied,
  every later request that expects the same snapshot of the group is stale and changes nothing.
\<close>

theorem summary_expected_once:
  assumes "summary_reachable db" and "set_enabled_expected g on ex v reason a now uid db = (db1, Inr (Updated p n i))"
    and "summary_step\<^sup>*\<^sup>* db1 db2"
  shows "set_enabled_expected g on' ex' v reason' a' now' uid' db2 = (db2, Inr StaleSnapshot)"
  using assms(2)
proof (cases rule: set_enabled_expected_cases)
  case (changed t c m)
  have inv: "summary_inv db" by (rule summary_inv_reachable [OF assms(1)])
  have inv1: "summary_inv db1" by (rule summary_inv_step [OF sum_expected [OF assms(2)] inv])
  have moved: "old_generation (read_policy g db) < old_generation (read_policy g db1)" "read_policy g db1 \<noteq> None"
    using transition_moves(1) [OF changed(6) inv] by (simp_all add: old_generation_def [of "Some x" for x] next_policy_def)
  have later: "old_generation (read_policy g db) < old_generation (read_policy g db2)" "read_policy g db2 \<noteq> None"
    using policy_moves_steps [OF assms(3) inv1, of g] moved by (auto simp: policy_moves_def)
  have "\<not> snapshot_current ex' v (read_policy g db2)"
    using changed(2) later by (auto simp: snapshot_current_def old_generation_def split: expected_version.splits option.splits)
  then show ?thesis by (simp add: set_enabled_expected_def Let_def)
qed blast

section \<open>Concrete instances\<close>

definition ws_group :: jstr where
  "ws_group = [113, 113, 45, 103, 114, 111, 117, 112, 45, 49, 50, 51, 52, 53]"

definition ws_owner :: authority_proof where
  "ws_owner = \<lparr>ap_kind = BotOwner, ap_actor = [117], ap_context = PrivateChat, ap_group = None, ap_source = None\<rparr>"

definition ws_policy :: "bool \<Rightarrow> int \<Rightarrow> int \<Rightarrow> policy_row" where
  "ws_policy on n t = \<lparr>pl_group = ws_group, pl_enabled = on, pl_generation = n,
     pl_eligible = (if on then Some t else None), pl_created = 41, pl_updated = t\<rparr>"

lemma ws_names: "valid_name ws_group" "assert_authority g ws_owner = None" "resolve_now (JInt 10) = Inr 10"
  "resolve_now (JInt 20) = Inr 20"
  by (simp_all add: valid_name_def ws_group_def js_trim_def js_space_def assert_authority_def ws_owner_def
      resolve_now_def max_safe_def)

lemma ws_reason: "rx_test rx_reason_code [120]"
  by code_simp

lemma ws_group_id: "rx_test rx_group_id ws_group"
  by code_simp

definition ws_job :: enqueue_input where
  "ws_job = \<lparr>eq_id = Some [106], eq_type = summary_type, eq_payload = Some (JObj []), eq_key = None,
     eq_scheduled = None, eq_max = None, eq_now = Some 5\<rparr>"

definition ws_row :: job_row where
  "ws_row = new_job ws_job [106] (JObj []) 5"

definition ws_raw :: ingress_row where
  "ws_raw = \<lparr>rw_id = [114], rw_type = [], rw_source = [], rw_platform = None, rw_conversation = None, rw_created = 40,
     rw_payload = None\<rparr>"

definition ws_chat :: message_row where
  "ws_chat = \<lparr>ms_id = [109], ms_raw = [114], ms_message = [110], ms_conversation = [118], ms_type = group_type,
       ms_group = Some ws_group, ms_sender = [117], ms_text = None, ms_mentions = 0, ms_reply = None\<rparr>"

definition ws_start :: summary_db where
  "ws_start = empty_summary\<lparr>squeue := \<lparr>jobs = [ws_row], attempts = [], heartbeats = []\<rparr>, ingress := [ws_raw], chats := [ws_chat]\<rparr>"

lemma ws_reach_start: "summary_reachable ws_start"
proof -
  let ?q = "\<lparr>jobs = [ws_row], attempts = [], heartbeats = []\<rparr>"
  have "enqueue ws_job [] 0 empty_jobs = (?q, Inr [106])"
    by (simp add: enqueue_def find_by_key_def ws_job_def value_or_def empty_jobs_def ws_row_def Let_def)
  then have "job_step (squeue empty_summary) ?q"
    unfolding empty_summary_def summary_db.simps by (rule step_enqueue)
  then have "summary_step empty_summary (empty_summary\<lparr>squeue := ?q\<rparr>)" by (rule sum_queue)
  moreover have "summary_step (empty_summary\<lparr>squeue := ?q\<rparr>) ws_start"
    by (rule sum_environment) (simp_all add: ws_start_def)
  ultimately show ?thesis
    unfolding summary_reachable_def by (meson rtranclp.rtrancl_into_rtrancl rtranclp.rtrancl_refl)
qed

definition ws_on :: summary_db where
  "ws_on = fst (set_enabled_legacy ws_group True ws_owner (JInt 10) [7] ws_start)"

lemmas ws_simps = read_policy_def ws_start_def empty_summary_def old_state_def durable_ceiling_def ingress_ceiling_def
  checked_max_def transition_floor_def Let_def max_safe_def write_transition_def upsert_policy_def next_policy_def
  old_generation_def ws_policy_def group_ingress_def ws_raw_def ws_chat_def

lemma ws_enable: "set_enabled_legacy ws_group True ws_owner (JInt 10) [7] ws_start
    = (ws_on, Inr (Changed (Some (ws_policy True 1 41)) 0 [7]))"
proof -
  have "snd (set_enabled_legacy ws_group True ws_owner (JInt 10) [7] ws_start) = Inr (Changed (Some (ws_policy True 1 41)) 0 [7])"
    unfolding set_enabled_legacy_def by (simp add: ws_names ws_simps)
  then show ?thesis unfolding ws_on_def by (metis prod.collapse)
qed

lemma ws_on_rows: "gpolicies ws_on = [ws_policy True 1 41]" "bindings ws_on = []" "jobs (squeue ws_on) = [ws_row]"
  unfolding ws_on_def set_enabled_legacy_def by (simp_all add: ws_names ws_simps)

lemma ws_reach_on: "summary_reachable ws_on"
  using ws_reach_start sum_legacy [OF ws_enable] unfolding summary_reachable_def by (rule rtranclp.rtrancl_into_rtrancl)

definition ws_binding :: binding_row where
  "ws_binding = \<lparr>bd_job = [106], bd_group = ws_group, bd_conversation = [118], bd_generation = 1, bd_eligible = 41,
     bd_created = 50, bd_canceled = None\<rparr>"

definition ws_bound :: summary_db where
  "ws_bound = ws_on\<lparr>bindings := [ws_binding]\<rparr>"

lemma ws_row_fields: "j_id ws_row = [106]" "j_type ws_row = summary_type" "j_status ws_row = JPending"
  "j_created ws_row = 5" "j_updated ws_row = 5"
  by (simp_all add: ws_row_def new_job_def ws_job_def)

lemma ws_find: "find_job [106] (squeue ws_on) = Some ws_row"
  by (simp add: find_job_def ws_on_rows ws_row_fields)

lemma ws_bind: "bind_summary_job [106] ws_group [118] (JInt 50) ws_on = (ws_bound, Inr ws_binding)"
proof -
  have v: "valid_name [106]" "valid_name [118]" "resolve_now (JInt 50) = Inr 50"
    by (simp_all add: valid_name_def js_trim_def js_space_def resolve_now_def max_safe_def)
  have "require_enabled ws_group ws_on = Inr (ws_policy True 1 41, 41)"
    by (simp add: require_enabled_def get_policy_def ws_names read_policy_def ws_on_rows ws_policy_def)
  then show ?thesis
    by (simp add: bind_summary_job_def v ws_names ws_find ws_row_fields read_binding_def ws_on_rows Let_def ws_binding_def
        ws_bound_def) (simp add: ws_policy_def)
qed

lemma ws_reach_bound: "summary_reachable ws_bound"
  using ws_reach_on sum_bind [OF ws_bind] unfolding summary_reachable_def by (rule rtranclp.rtrancl_into_rtrancl)

lemma ws_bound_rows: "read_policy ws_group ws_bound = Some (ws_policy True 1 41)" "read_binding [106] ws_bound = Some ws_binding"
  "cancellable ws_bound ws_group ws_binding = Some ws_row"
  by (simp_all add: read_policy_def read_binding_def ws_bound_def ws_on_rows ws_policy_def ws_binding_def cancellable_def)
    (simp add: find_job_def ws_on_rows ws_row_fields)

lemma ws_ceiling: "pending_ceiling ws_group ws_bound = Inr (Some 50)"
proof -
  have "bindings ws_bound = [ws_binding]" by (simp add: ws_bound_def)
  then show ?thesis
    by (simp add: pending_ceiling_def ws_bound_rows ws_row_fields checked_max_def max_safe_def) (simp add: ws_binding_def)
qed

theorem summary_enable_excludes_past_witness:
  "\<exists>q t. read_policy ws_group ws_on = Some q \<and> pl_eligible q = Some t \<and> rw_created ws_raw < t"
proof -
  have "ws_raw \<in> set (ingress ws_start)" "group_ingress ws_start ws_group ws_raw"
    by (simp_all add: ws_start_def group_ingress_def ws_raw_def ws_chat_def)
  then show ?thesis using summary_enable_excludes_past [OF ws_reach_start disjI1 [OF ws_enable]] by blast
qed

theorem summary_disable_cancels_witness:
  "\<exists>db' p. set_enabled_legacy ws_group False ws_owner (JInt 20) [8] ws_bound = (db', Inr (Changed (Some p) 1 [8]))
    \<and> \<not> pl_enabled p"
proof -
  have old: "old_state (read_policy ws_group ws_bound)" by (simp add: ws_bound_rows old_state_def ws_policy_def)
  have one: "length (filter (\<lambda>b. cancellable ws_bound ws_group b \<noteq> None) (bindings ws_bound)) = 1"
  proof -
    have "bindings ws_bound = [ws_binding]" by (simp add: ws_bound_def)
    then show ?thesis by (simp add: ws_bound_rows)
  qed
  show ?thesis
    using summary_disable_cancels [OF ws_reach_bound ws_names(1) ws_names(2) ws_names(4) old ws_ceiling, of "[8]"]
    unfolding one by blast
qed

definition ws_off :: summary_db where
  "ws_off = fst (set_enabled_legacy ws_group False ws_owner (JInt 20) [8] ws_bound)"

lemma ws_off_step: "summary_step ws_bound ws_off"
  unfolding ws_off_def by (rule sum_legacy) (rule surjective_pairing)

lemma ws_off_generation: "old_generation (read_policy ws_group ws_off) = 2"
proof -
  have inv: "summary_inv ws_bound" by (rule summary_inv_reachable [OF ws_reach_bound])
  have "\<exists>db2. cancel_pending ws_group 51 (upsert_policy (next_policy ws_group False 51 (read_policy ws_group ws_bound)) ws_bound) = Inr (db2, 1)"
    by (simp add: cancel_pending_def Let_def upsert_policy_def ws_bound_def ws_on_rows cancellable_def ws_binding_def find_job_def
        ws_row_fields changes_def)
  moreover have "old_state (read_policy ws_group ws_bound)" "max 20 (pl_updated (ws_policy True 1 41)) = 41"
    by (simp_all add: ws_bound_rows old_state_def ws_policy_def)
  ultimately have "\<exists>p. set_enabled_legacy ws_group False ws_owner (JInt 20) [8] ws_bound = (ws_off, Inr (Changed p 1 [8]))"
    unfolding ws_off_def set_enabled_legacy_def
    by (auto simp: ws_names ws_bound_rows durable_ceiling_def ws_ceiling transition_floor_def Let_def
        max_safe_def write_transition_def)
  then obtain p where "set_enabled_legacy ws_group False ws_owner (JInt 20) [8] ws_bound = (ws_off, Inr (Changed p 1 [8]))" ..
  then show ?thesis
  proof (cases rule: set_enabled_legacy_cases)
    case (changed t c n)
    from transition_moves(1) [OF changed(7) inv] show ?thesis
      by (simp add: old_generation_def next_policy_def ws_bound_rows) (simp add: ws_policy_def)
  qed blast
qed

theorem summary_generation_fence_witness: "\<exists>e. execution_allowed [106] [97] ws_group [118] (JInt 60) ws_off = Inl e"
proof (rule summary_generation_fence [OF ws_reach_bound ws_bound_rows(2) _ r_into_rtranclp [of summary_step, OF ws_off_step]])
  show "bd_group ws_binding = ws_group" by (simp add: ws_binding_def)
  show "old_generation (read_policy ws_group ws_off) \<noteq> old_generation (read_policy ws_group ws_bound)"
    unfolding ws_off_generation ws_bound_rows by (simp add: old_generation_def ws_policy_def)
qed

theorem summary_expected_once_witness:
  "\<exists>db. set_enabled_expected ws_group True False ImplicitDefault [120] ws_owner (JInt 10) [9] db = (db, Inr StaleSnapshot)"
proof -
  have v: "valid_expected_input ws_group True False ImplicitDefault [120] ws_owner (JInt 10)"
    by (simp add: valid_expected_input_def ws_reason ws_group_id valid_expected_version_def valid_timestamp_def max_date_ms_def
        max_safe_def ws_names)
  have "\<exists>db1 p n. set_enabled_expected ws_group True False ImplicitDefault [120] ws_owner (JInt 10) [7] ws_start
      = (db1, Inr (Updated p n [7]))"
    using v by (simp add: set_enabled_expected_def snapshot_current_def max_date_ms_def ws_simps)
  then obtain db1 p n where "set_enabled_expected ws_group True False ImplicitDefault [120] ws_owner (JInt 10) [7] ws_start
      = (db1, Inr (Updated p n [7]))" by blast
  from summary_expected_once [OF ws_reach_start this rtranclp.rtrancl_refl] show ?thesis by blast
qed

end
