(* ===== verification/Diagnostic_Redaction.thy ===== *)
theory Diagnostic_Redaction
  imports Secret_Scan
begin

text \<open>
  The redaction of worker diagnostics, which \<open>src/storage/job-repository.ts\<close> and
  \<open>src/workers/background.ts\<close> each define in the same way: platform identifiers and credentials in
  texts and keys, and numbers of 5 to 12 digits under a key that names an identifier.
\<close>

definition redaction_mark :: jstr where
  "redaction_mark = lit ''[REDACTED:platform_id]''"

definition rx_qq_number :: rx where
  "rx_qq_number = rx_seq [NotBehind alnum, rx_ilit (lit ''qq-''), rx_opt (rx_ilit (lit ''group-'')),
     Rep 5 (Some 12) (One digit), NotAhead alnum]"

definition rx_number :: rx where
  "rx_number = rx_seq [NotBehind alnum, Rep 5 (Some 12) (One digit), NotAhead alnum]"

definition redact_identifiers :: "jstr \<Rightarrow> jstr" where
  "redact_identifiers text = rx_replace rx_number redaction_mark (rx_replace rx_qq_number redaction_mark text)"

definition redact_text :: "jstr \<Rightarrow> jstr" where
  "redact_text text =
     (let platform = redact_identifiers text;
          redacted = redact_identifiers (redact_secrets platform)
      in if js_includes platform redaction_mark \<and> \<not> js_includes redacted redaction_mark
         then redacted @ lit '' '' @ redaction_mark else redacted)"

section \<open>Keys that name an identifier\<close>

definition rx_start :: rx where
  "rx_start = NotBehind (\<lambda>c. True)"

definition rx_words :: "string list \<Rightarrow> rx" where
  "rx_words names = rx_alt (map (\<lambda>w. rx_ilit (lit w)) names)"

definition rx_role :: rx where
  "rx_role = rx_opt (rx_words [''target'', ''subject'', ''recipient'', ''actor'', ''owner''])"

definition rx_noun :: rx where
  "rx_noun = rx_words [''user'', ''sender'', ''group'', ''message'', ''conversation'', ''platform'', ''qq'']"

definition rx_ids :: rx where
  "rx_ids = rx_seq [rx_ilit (lit ''id''), rx_opt (rx_ilit (lit ''s'')), AtEnd]"

definition rx_separator :: rx where
  "rx_separator = rx_opt (One (\<lambda>c. c = 95 \<or> c = 45))"

definition rx_snake_key :: rx where
  "rx_snake_key = rx_seq [rx_alt [rx_start, One (\<lambda>c. c = 95)], rx_role, rx_separator, rx_noun, rx_separator, rx_ids]"

definition rx_camel_key :: rx where
  "rx_camel_key = rx_seq [rx_start, rx_role, rx_noun, rx_ids]"

definition rx_plain_key :: rx where
  "rx_plain_key = rx_seq [rx_start, rx_words [''userId'', ''senderId'', ''groupId'', ''messageId'', ''conversationId'',
     ''platformUserId'', ''platformMessageId''], AtEnd]"

definition identifier_key :: "jstr option \<Rightarrow> bool" where
  "identifier_key k = (case k of
     None \<Rightarrow> False
   | Some s \<Rightarrow> s \<noteq> [] \<and> (rx_test rx_snake_key s \<or> rx_test rx_camel_key s \<or> rx_test rx_plain_key s))"

definition numeric_identifier :: "jstr option \<Rightarrow> js_number \<Rightarrow> bool" where
  "numeric_identifier k n \<longleftrightarrow> is_integer n \<and> identifier_key k \<and> 10 ^ 4 \<le> \<bar>int_value n\<bar> \<and> \<bar>int_value n\<bar> < 10 ^ 12"

text \<open>\<open>Object.fromEntries\<close>: a later entry of a key replaces the value at the key's first place.\<close>

definition from_entries :: "(jstr \<times> 'v) list \<Rightarrow> (jstr \<times> 'v) list" where
  "from_entries es = foldl (\<lambda>fs (k, v). AList.update k v fs) [] es"

text \<open>The redaction of a value below the key \<open>k\<close>, if there is one; arrays keep the key.\<close>

fun redact_value :: "jstr option \<Rightarrow> jval \<Rightarrow> jval" where
  "redact_value k (JStr s) = JStr (redact_text s)"
| "redact_value k (JNum n) = (if numeric_identifier k n then JStr redaction_mark else JNum n)"
| "redact_value k (JArr vs) = JArr (map (redact_value k) vs)"
| "redact_value k (JObj fs) = JObj (from_entries (map (\<lambda>(f, v). (redact_text f, redact_value (Some f) v)) fs))"
| "redact_value k v = v"

end
