(* ===== verification/Background_Worker.thy ===== *)
theory Background_Worker
  imports Diagnostic_Redaction Job_Queue_Theorems
begin

text \<open>
  \<open>BackgroundWorker\<close> of \<open>src/workers/background.ts\<close>: the durable mode, which claims a job, runs
  its handler and settles the attempt, and the in-memory mode.  A handler is a function of the
  task and the queue; the queue it gives back is the queue with everything that happened while
  it ran.  \<open>stringify\<close> is \<open>JSON.stringify\<close>.  Clock readings and new identifiers are arguments.
\<close>

section \<open>Tasks\<close>

definition known_task_types :: "jstr list" where
  "known_task_types = map lit [''summary'', ''extraction'', ''embedding'', ''importance'', ''attention_recheck'',
     ''consolidation'', ''decay'', ''conflict'', ''admin_digest'', ''retention'']"

definition known_task_type :: "jstr \<Rightarrow> bool" where
  "known_task_type t \<longleftrightarrow> t \<in> set known_task_types"

datatype task_status = TaskPending | TaskProcessing | TaskCompleted | TaskFailed

record background_task =
  bt_id :: jstr
  bt_type :: jstr
  bt_payload :: jval
  bt_key :: "jstr option"
  bt_status :: task_status
  bt_created :: int
  bt_completed :: "int option"

record task_input =
  ti_type :: jstr
  ti_payload :: jval
  ti_key :: "jstr option"
  ti_scheduled :: "int option"
  ti_max :: "int option"

datatype task_outcome = Output jval | Thrown jstr bool

datatype task_result = TaskDone jstr jval | TaskError jstr jstr

fun job_task_status :: "job_status \<Rightarrow> task_status" where
  "job_task_status JRunning = TaskProcessing"
| "job_task_status JPending = TaskPending"
| "job_task_status JCompleted = TaskCompleted"
| "job_task_status JFailed = TaskFailed"

fun task_payload :: "jval \<Rightarrow> jval" where
  "task_payload (JObj fs) = JObj fs"
| "task_payload (JArr vs) = JArr vs"
| "task_payload v = JObj [(lit ''originalPayload'', v)]"

definition job_to_task :: "job_row \<Rightarrow> background_task" where
  "job_to_task j = \<lparr>bt_id = j_id j, bt_type = j_type j, bt_payload = task_payload (j_payload j), bt_key = j_key j,
     bt_status = job_task_status (j_status j), bt_created = j_created j, bt_completed = j_completed j\<rparr>"

definition redact_task :: "background_task \<Rightarrow> background_task" where
  "redact_task t = t\<lparr>bt_type := redact_text (bt_type t),
     bt_payload := task_payload (redact_value None (bt_payload t)),
     bt_key := (case bt_key t of None \<Rightarrow> None | Some k \<Rightarrow> if k = [] then None else Some (redact_text k))\<rparr>"

section \<open>Configuration\<close>

record worker_config =
  wk_id :: jstr
  wk_lease :: int
  wk_types :: "jstr list option"
  wk_excluded :: "jstr list option"

definition valid_config :: "worker_config \<Rightarrow> bool" where
  "valid_config c \<longleftrightarrow> value_or (wk_types c) [] = [] \<or> value_or (wk_excluded c) [] = []"

type_synonym handler = "background_task \<Rightarrow> jstr \<Rightarrow> int \<Rightarrow> job_db \<Rightarrow> job_db \<times> task_outcome"

section \<open>Durable mode\<close>

definition worker_enqueue :: "task_input \<Rightarrow> jstr \<Rightarrow> int \<Rightarrow> job_db \<Rightarrow> job_db \<times> (job_error + jstr)" where
  "worker_enqueue t fresh clock =
     enqueue \<lparr>eq_id = None, eq_type = ti_type t, eq_payload = Some (ti_payload t), eq_key = ti_key t,
              eq_scheduled = ti_scheduled t, eq_max = ti_max t, eq_now = None\<rparr> fresh clock"

definition get_status :: "jstr \<Rightarrow> job_db \<Rightarrow> task_status option" where
  "get_status i db = map_option (job_task_status \<circ> j_status) (find_job i db)"

definition list_tasks :: "job_db \<Rightarrow> background_task list" where
  "list_tasks db = map (redact_task \<circ> job_to_task) (list_jobs None None None db)"

definition background_type :: jstr where
  "background_type = lit ''background''"

definition beat ::
  "(jval \<Rightarrow> jstr) \<Rightarrow> worker_config \<Rightarrow> heartbeat_status \<Rightarrow> jstr option \<Rightarrow> jval option \<Rightarrow> int \<Rightarrow> job_db \<Rightarrow> job_db" where
  "beat stringify cfg st job details now =
     heartbeat \<lparr>hb_worker = wk_id cfg, hb_type = background_type, hb_status = st, hb_job = job, hb_at = now,
       hb_details = map_option (\<lambda>v. stringify (redact_value None v)) details\<rparr>"

definition running_details :: "jstr \<Rightarrow> int \<Rightarrow> jstr \<Rightarrow> jval" where
  "running_details aid n type =
     JObj [(lit ''attemptId'', JStr aid), (lit ''attemptNumber'', JNum (JInt n)), (lit ''type'', JStr type)]"

definition unsupported_message :: "jstr \<Rightarrow> jstr" where
  "unsupported_message type = redact_text (lit ''Unsupported background job type: '' @ type)"

definition lost_authority_message :: jstr where
  "lost_authority_message = lit ''Background job attempt lost lease authority before completion''"

text \<open>The repository redacts the text of an error again before it stores it.\<close>

definition settle_failure ::
  "(jval \<Rightarrow> jstr) \<Rightarrow> worker_config \<Rightarrow> jstr \<Rightarrow> jstr \<Rightarrow> jstr \<Rightarrow> bool \<Rightarrow> (jstr \<times> jval) list \<Rightarrow> int \<Rightarrow> job_db
    \<Rightarrow> job_db \<times> (job_error + task_result)" where
  "settle_failure stringify cfg jid aid message terminal extra now db =
     (case fail_job jid aid (redact_text message) terminal None now db of
        (db', Inl e) \<Rightarrow> (db', Inl e)
      | (db', Inr _) \<Rightarrow>
          (beat stringify cfg HbError (Some jid)
             (Some (JObj ([(lit ''jobId'', JStr jid), (lit ''error'', JStr message)] @ extra))) now db',
           Inr (TaskError jid message)))"

datatype claim_outcome = Idle | Settled task_result | Started background_task jstr int

text \<open>Claiming, up to the call of the handler; \<open>later\<close> is the clock when an unknown type is failed.\<close>

definition worker_begin ::
  "(jval \<Rightarrow> jstr) \<Rightarrow> worker_config \<Rightarrow> jstr list option \<Rightarrow> jstr list option \<Rightarrow> jstr \<Rightarrow> jstr \<Rightarrow> int \<Rightarrow> int \<Rightarrow> job_db
    \<Rightarrow> job_db \<times> (job_error + claim_outcome)" where
  "worker_begin stringify cfg types excluded aid stale now later db =
     (let db0 = (if worker_heartbeat_status (wk_id cfg) db = Some HbError then db
                 else beat stringify cfg HbIdle None None now db)
      in case claim_next \<lparr>co_worker = wk_id cfg, co_lease_ms = Some (wk_lease cfg), co_types = types,
                co_excluded = excluded\<rparr> aid stale now db0 of
           (db1, Inl e) \<Rightarrow> (db1, Inl e)
         | (db1, Inr None) \<Rightarrow> (db1, Inr Idle)
         | (db1, Inr (Some (j, a, n))) \<Rightarrow>
             if \<not> known_task_type (j_type j)
             then (case settle_failure stringify cfg (j_id j) a (unsupported_message (j_type j)) True
                      [(lit ''type'', JStr (j_type j))] later db1 of
                     (db2, Inl e) \<Rightarrow> (db2, Inl e)
                   | (db2, Inr r) \<Rightarrow> (db2, Inr (Settled r)))
             else (beat stringify cfg HbRunning (Some (j_id j)) (Some (running_details a n (j_type j))) now db1,
                   Inr (Started ((job_to_task j)\<lparr>bt_status := TaskProcessing\<rparr>) a n)))"

definition needs_handler :: "jstr \<Rightarrow> bool" where
  "needs_handler t \<longleftrightarrow> t = lit ''attention_recheck'' \<or> t = lit ''embedding'' \<or> t = lit ''importance''"

text \<open>Without a handler a stub answers after a pause, in which \<open>pause\<close> may happen to the queue.\<close>

definition process_task ::
  "(jstr \<Rightarrow> handler option) \<Rightarrow> (job_db \<Rightarrow> job_db) \<Rightarrow> handler" where
  "process_task handlers pause t aid n db =
     (case (if known_task_type (bt_type t) then handlers (bt_type t) else None) of
        Some h \<Rightarrow> h t aid n db
      | None \<Rightarrow>
          if needs_handler (bt_type t)
          then (db, Thrown (lit ''Background task '' @ bt_type t @ lit '' requires a registered handler'') True)
          else (pause db, Output
            (if bt_type t = lit ''summary'' then JObj [(lit ''summary'', JStr (lit ''Stub summary''))]
             else if bt_type t = lit ''extraction'' then JObj [(lit ''extracted'', JNum (JInt 0))]
             else JObj [(lit ''processed'', JBool True), (lit ''type'', JStr (bt_type t))])))"

definition error_text :: "job_error \<Rightarrow> jstr" where
  "error_text e = (case e of
     AttemptUpdateFailed \<Rightarrow> lit ''Active job attempt completion update failed''
   | JobUpdateFailed \<Rightarrow> lit ''Active job completion update failed''
   | _ \<Rightarrow> lit ''Unknown error'')"

text \<open>Settling at the clock reading \<open>now\<close>; \<open>later\<close> is the reading a failure takes.\<close>

definition worker_end ::
  "(jval \<Rightarrow> jstr) \<Rightarrow> worker_config \<Rightarrow> jstr \<Rightarrow> jstr \<Rightarrow> task_outcome \<Rightarrow> int \<Rightarrow> int \<Rightarrow> job_db
    \<Rightarrow> job_db \<times> (job_error + task_result)" where
  "worker_end stringify cfg jid aid outcome now later db =
     (case outcome of
        Output v \<Rightarrow>
          let out = redact_value None v
          in (case complete_job jid aid
                (if out = JUndefined then None else Some (stringify (redact_value None out))) now db of
                (db', Inr True) \<Rightarrow> (beat stringify cfg HbIdle None None now db', Inr (TaskDone jid out))
              | (db', Inr False) \<Rightarrow>
                  settle_failure stringify cfg jid aid (redact_text lost_authority_message) False [] later db'
              | (db', Inl e) \<Rightarrow> settle_failure stringify cfg jid aid (redact_text (error_text e)) False [] later db')
      | Thrown message terminal \<Rightarrow>
          settle_failure stringify cfg jid aid (redact_text message) terminal [] later db)"

text \<open>The lease of a running job is renewed by a timer until it is refused.\<close>

definition lease_tick ::
  "(jval \<Rightarrow> jstr) \<Rightarrow> worker_config \<Rightarrow> jstr \<Rightarrow> jstr \<Rightarrow> int \<Rightarrow> jstr \<Rightarrow> int \<Rightarrow> job_db \<Rightarrow> job_db \<times> bool" where
  "lease_tick stringify cfg jid aid n type now db =
     (case extend_lease jid aid (wk_id cfg) (wk_lease cfg) now db of
        (db', Inr True) \<Rightarrow>
          (beat stringify cfg HbRunning (Some jid) (Some (running_details aid n type)) now db', True)
      | (db', _) \<Rightarrow> (db', False))"

definition lease_interval :: "int \<Rightarrow> int" where
  "lease_interval lease = max 1 (lease div 2)"

definition process_next_durable ::
  "(jval \<Rightarrow> jstr) \<Rightarrow> worker_config \<Rightarrow> (jstr \<Rightarrow> handler option) \<Rightarrow> (job_db \<Rightarrow> job_db) \<Rightarrow> jstr list option \<Rightarrow> jstr list option
    \<Rightarrow> jstr \<Rightarrow> jstr \<Rightarrow> int \<Rightarrow> int \<Rightarrow> int \<Rightarrow> job_db \<Rightarrow> job_db \<times> (job_error + task_result option)" where
  "process_next_durable stringify cfg handlers pause types excluded aid stale now settled later db =
     (case worker_begin stringify cfg types excluded aid stale now later db of
        (db1, Inl e) \<Rightarrow> (db1, Inl e)
      | (db1, Inr Idle) \<Rightarrow> (db1, Inr None)
      | (db1, Inr (Settled r)) \<Rightarrow> (db1, Inr (Some r))
      | (db1, Inr (Started t a n)) \<Rightarrow>
          (case process_task handlers pause t a n db1 of
             (db2, outcome) \<Rightarrow>
               (case worker_end stringify cfg (bt_id t) a outcome settled later db2 of
                  (db3, Inl e) \<Rightarrow> (db3, Inl e)
                | (db3, Inr r) \<Rightarrow> (db3, Inr (Some r)))))"

text \<open>The types a call asks for replace the configured ones, and then nothing is excluded.\<close>

definition process_next where
  "process_next stringify cfg handlers pause types =
     process_next_durable stringify cfg handlers pause
       (case types of None \<Rightarrow> wk_types cfg | Some ts \<Rightarrow> Some ts)
       (case types of None \<Rightarrow> wk_excluded cfg | Some ts \<Rightarrow> None)"

section \<open>In-memory mode\<close>

record memory_worker =
  mw_tasks :: "background_task list"
  mw_counter :: nat

definition pad_start :: "nat \<Rightarrow> jstr \<Rightarrow> jstr" where
  "pad_start k s = replicate (k - length s) 48 @ s"

definition task_id :: "nat \<Rightarrow> jstr" where
  "task_id n = lit ''task-'' @ pad_start 6 (decimal n)"

definition memory_enqueue :: "task_input \<Rightarrow> int \<Rightarrow> memory_worker \<Rightarrow> memory_worker \<times> jstr" where
  "memory_enqueue t now w =
     (let i = task_id (Suc (mw_counter w))
      in (w\<lparr>mw_counter := Suc (mw_counter w),
            mw_tasks := mw_tasks w @ [\<lparr>bt_id = i, bt_type = ti_type t, bt_payload = ti_payload t, bt_key = ti_key t,
              bt_status = TaskPending, bt_created = now, bt_completed = None\<rparr>]\<rparr>, i))"

definition memory_status :: "jstr \<Rightarrow> memory_worker \<Rightarrow> task_status option" where
  "memory_status i w = map_option bt_status (find (\<lambda>t. bt_id t = i) (mw_tasks w))"

definition memory_list :: "memory_worker \<Rightarrow> background_task list" where
  "memory_list w = map redact_task (mw_tasks w)"

definition set_task :: "jstr \<Rightarrow> task_status \<Rightarrow> int option \<Rightarrow> memory_worker \<Rightarrow> memory_worker" where
  "set_task i st completed w = w\<lparr>mw_tasks := update_where (\<lambda>t. bt_id t = i)
     (\<lambda>t. t\<lparr>bt_status := st, bt_completed := completed\<rparr>) (mw_tasks w)\<rparr>"

text \<open>\<open>run_task\<close> is the run of the task; other calls may act on the worker meanwhile.\<close>

definition memory_process_next ::
  "(background_task \<Rightarrow> memory_worker \<Rightarrow> memory_worker \<times> task_outcome) \<Rightarrow> int \<Rightarrow> memory_worker
    \<Rightarrow> memory_worker \<times> task_result option" where
  "memory_process_next run_task now w =
     (case find (\<lambda>t. bt_status t = TaskPending) (mw_tasks w) of
        None \<Rightarrow> (w, None)
      | Some t \<Rightarrow>
          (case run_task (t\<lparr>bt_status := TaskProcessing\<rparr>) (set_task (bt_id t) TaskProcessing (bt_completed t) w) of
             (w', Output v) \<Rightarrow>
               (set_task (bt_id t) TaskCompleted (Some now) w', Some (TaskDone (bt_id t) (redact_value None v)))
           | (w', Thrown message _) \<Rightarrow>
               (set_task (bt_id t) TaskFailed (Some now) w', Some (TaskError (bt_id t) (redact_text message)))))"

end
