(* ===== verification/Background_Worker_Theorems.thy ===== *)
theory Background_Worker_Theorems
  imports Background_Worker
begin

text \<open>
  The theorems of the background worker: everything it does to the queue is a history of the
  queue, it settles a job exactly when its attempt still has authority, and a job of an unknown
  type dies instead of being retried.
\<close>

section \<open>Heartbeats\<close>

lemma beat_keeps [simp]:
  "jobs (beat stringify cfg st j d now db) = jobs db" "attempts (beat stringify cfg st j d now db) = attempts db"
  by (simp_all add: beat_def heartbeat_def)

lemma beat_step: "job_step db (beat stringify cfg st j d now db)"
  unfolding beat_def by (rule step_heartbeat) simp

lemma beat_inv [simp]: "job_inv (beat stringify cfg st j d now db) = job_inv db"
  by (simp add: job_inv_def job_keys_def attempts_of_def)

lemma beat_authority [simp]:
  "has_authority (beat stringify cfg st j d now db) jid aid t w = has_authority db jid aid t w"
  by (simp add: has_authority_def authority_join_def)

lemma beat_find [simp]: "find_job i (beat stringify cfg st j d now db) = find_job i db"
  by (simp add: find_job_def)

section \<open>The worker follows the queue\<close>

lemma settle_failure_steps:
  "settle_failure stringify cfg jid aid message terminal extra now db = (db', r) \<Longrightarrow> job_step\<^sup>*\<^sup>* db db'"
proof -
  assume s: "settle_failure stringify cfg jid aid message terminal extra now db = (db', r)"
  obtain q x where f: "fail_job jid aid (redact_text message) terminal None now db = (q, x)" by fastforce
  have "job_step db q" by (rule step_fail [OF f])
  moreover have "db' = q \<or> job_step q db'"
    using s f beat_step unfolding settle_failure_def by (cases x) (auto simp del: split_paired_All)
  ultimately show ?thesis by (meson converse_rtranclp_into_rtranclp r_into_rtranclp rtranclp.rtrancl_refl)
qed

lemma worker_begin_steps:
  assumes "worker_begin stringify cfg types excluded aid stale now later db = (db', r)"
  shows "job_step\<^sup>*\<^sup>* db db'"
proof -
  define db0 where "db0 = (if worker_heartbeat_status (wk_id cfg) db = Some HbError then db
                 else beat stringify cfg HbIdle None None now db)"
  have s0: "job_step\<^sup>*\<^sup>* db db0" using beat_step by (simp add: db0_def r_into_rtranclp)
  obtain q x where c: "claim_next \<lparr>co_worker = wk_id cfg, co_lease_ms = Some (wk_lease cfg), co_types = types,
                co_excluded = excluded\<rparr> aid stale now db0 = (q, x)" by fastforce
  have s1: "job_step\<^sup>*\<^sup>* db q" using s0 step_claim [OF c] by (rule rtranclp.rtrancl_into_rtrancl)
  have "job_step\<^sup>*\<^sup>* q db'"
  proof (cases x)
    case (Inl e)
    with assms c show ?thesis by (simp add: worker_begin_def db0_def [symmetric] Let_def)
  next
    case (Inr y)
    show ?thesis
    proof (cases y)
      case None
      with assms c Inr show ?thesis by (simp add: worker_begin_def db0_def [symmetric] Let_def)
    next
      case (Some z)
      obtain j a n where z: "z = (j, a, n)" by (cases z) auto
      show ?thesis
      proof (cases "known_task_type (j_type j)")
        case True
        with assms c Inr Some z have "db' = beat stringify cfg HbRunning (Some (j_id j)) (Some (running_details a n (j_type j))) now q"
          by (simp add: worker_begin_def db0_def [symmetric] Let_def)
        then show ?thesis using beat_step by (simp add: r_into_rtranclp)
      next
        case False
        with assms c Inr Some z obtain r' where
          "settle_failure stringify cfg (j_id j) a (unsupported_message (j_type j)) True [(lit ''type'', JStr (j_type j))] later q = (db', r')"
          by (auto simp: worker_begin_def db0_def [symmetric] Let_def split: prod.splits sum.splits)
        then show ?thesis by (rule settle_failure_steps)
      qed
    qed
  qed
  with s1 show ?thesis by (rule rtranclp_trans)
qed

lemma worker_end_steps:
  assumes "worker_end stringify cfg jid aid outcome now later db = (db', r)"
  shows "job_step\<^sup>*\<^sup>* db db'"
proof (cases outcome)
  case (Thrown m t)
  with assms show ?thesis by (auto simp: worker_end_def intro: settle_failure_steps)
next
  case (Output v)
  let ?out = "redact_value None v"
  obtain q x where c: "complete_job jid aid (if ?out = JUndefined then None else Some (stringify (redact_value None ?out))) now db = (q, x)"
    by fastforce
  have s1: "job_step db q" by (rule step_complete [OF c])
  have body: "(db', r) = (case (q, x) of
                (db', Inr True) \<Rightarrow> (beat stringify cfg HbIdle None None now db', Inr (TaskDone jid ?out))
              | (db', Inr False) \<Rightarrow> settle_failure stringify cfg jid aid (redact_text lost_authority_message) False [] later db'
              | (db', Inl e) \<Rightarrow> settle_failure stringify cfg jid aid (redact_text (error_text e)) False [] later db')"
    using assms c unfolding worker_end_def Output task_outcome.case Let_def by simp
  have "job_step\<^sup>*\<^sup>* q db'"
  proof (cases x)
    case (Inl e)
    with body settle_failure_steps show ?thesis by (metis (no_types, lifting) case_prod_conv sum.case(1))
  next
    case (Inr b)
    with body settle_failure_steps beat_step show ?thesis by (cases b) (auto dest!: sym [of _ "settle_failure _ _ _ _ _ _ _ _ _"])
  qed
  with s1 show ?thesis by (rule converse_rtranclp_into_rtranclp)
qed

text \<open>
  A durable run of the worker is a history of the queue: when the handlers only act on the
  queue through its operations, so does the whole run, and every theorem about the queue
  holds for it.
\<close>

theorem worker_follows_queue:
  assumes "\<And>t h task a n q q' out. handlers t = Some h \<Longrightarrow> h task a n q = (q', out) \<Longrightarrow> job_step\<^sup>*\<^sup>* q q'"
    and "\<And>q. job_step\<^sup>*\<^sup>* q (pause q)"
    and "process_next_durable stringify cfg handlers pause types excluded aid stale now settled later db = (db', r)"
  shows "job_step\<^sup>*\<^sup>* db db' \<and> (job_reachable db \<longrightarrow> job_reachable db')"
proof -
  obtain q x where b: "worker_begin stringify cfg types excluded aid stale now later db = (q, x)" by fastforce
  have s1: "job_step\<^sup>*\<^sup>* db q" by (rule worker_begin_steps [OF b])
  have s2: "job_step\<^sup>*\<^sup>* q db'"
  proof (cases "\<exists>t a n. x = Inr (Started t a n)")
    case False
    with assms(3) b have "db' = q"
      unfolding process_next_durable_def by (auto split: sum.splits claim_outcome.splits)
    then show ?thesis by simp
  next
    case True
    then obtain t a n where x: "x = Inr (Started t a n)" by blast
    obtain q2 out where p: "process_task handlers pause t a n q = (q2, out)" by fastforce
    have "job_step\<^sup>*\<^sup>* q q2"
      using p assms(1,2) unfolding process_task_def
      by (auto split: option.splits if_splits simp del: split_paired_All)
    moreover obtain y where "worker_end stringify cfg (bt_id t) a out settled later q2 = (db', y)"
      using assms(3) b x p unfolding process_next_durable_def
      by (auto split: prod.splits sum.splits)
    then have "job_step\<^sup>*\<^sup>* q2 db'" by (rule worker_end_steps)
    ultimately show ?thesis by (rule rtranclp_trans)
  qed
  from s1 s2 have "job_step\<^sup>*\<^sup>* db db'" by (rule rtranclp_trans)
  then show ?thesis unfolding job_reachable_def by (meson rtranclp_trans)
qed

section \<open>Settling\<close>

lemma settle_failure_spec:
  assumes "settle_failure stringify cfg jid aid message terminal extra now db = (db', r)" and "job_inv db"
  shows "r = Inr (TaskError jid message)
    \<and> (\<not> has_authority db jid aid now None \<longrightarrow> jobs db' = jobs db \<and> attempts db' = attempts db)"
proof -
  obtain q x where f: "fail_job jid aid (redact_text message) terminal None now db = (q, x)" by fastforce
  from f assms(2) show ?thesis
    by (cases rule: fail_spec) (use assms(1) f in \<open>auto simp: settle_failure_def\<close>)
qed


text \<open>
  A job whose type is not a known one dies at its first claim: the run reports a failure and
  leaves the job failed, with attempts left or not.
\<close>

theorem worker_unknown_type_dies:
  assumes "job_reachable db" and "now \<le> later" and "later < now + wk_lease cfg"
    and "worker_begin stringify cfg types excluded aid stale now later db = (db', Inr (Settled res))"
  shows "\<exists>j. j \<in> set (jobs db') \<and> j_status j = JFailed \<and> \<not> known_task_type (j_type j)
    \<and> res = TaskError (j_id j) (unsupported_message (j_type j))"
proof -
  define db0 where "db0 = (if worker_heartbeat_status (wk_id cfg) db = Some HbError then db
                 else beat stringify cfg HbIdle None None now db)"
  let ?opts = "\<lparr>co_worker = wk_id cfg, co_lease_ms = Some (wk_lease cfg), co_types = types, co_excluded = excluded\<rparr>"
  have inv0: "job_inv db0" using job_inv_reachable [OF assms(1)] by (simp add: db0_def)
  obtain q x where c: "claim_next ?opts aid stale now db0 = (q, x)" by fastforce
  obtain j a n where x: "x = Inr (Some (j, a, n))" "\<not> known_task_type (j_type j)"
    and s: "settle_failure stringify cfg (j_id j) a (unsupported_message (j_type j)) True [(lit ''type'', JStr (j_type j))] later q = (db', Inr res)"
    using assms(4) c unfolding worker_begin_def db0_def [symmetric] Let_def
    by (auto split: sum.splits option.splits if_splits prod.splits)
  from c inv0 show ?thesis
  proof (cases rule: claim_next_cases)
    case (claimed flt k p)
    have p: "p = j" "aid = a" using claimed(9) x by simp_all
    have inv: "job_inv (fail_expired flt now db0)" by (rule job_inv_fail_expired [OF inv0])
    obtain past where "attempts_of q (j_id k) = past @ [new_attempt aid k (j_attempts k + 1) (co_worker ?opts) now]"
      unfolding claimed(6) by (rule attempts_of_claim [OF inv claimed(3,4)])
    moreover have jk: "j_id j = j_id k" unfolding p(1) [symmetric] claimed(7) by simp
    ultimately have last: "a_id (last (attempts_of q (j_id j))) = a" by (simp add: p)
    have run: "j_status j = JRunning" "j_lease j = Some (now + wk_lease cfg)"
      unfolding p(1) [symmetric] claimed(7) by (simp_all add: take_lease_def value_or_def)
    have mem: "j \<in> set (jobs q)" using claimed(8) p(1) by simp
    have auth: "has_authority q (j_id j) a later None"
      using authority_intro [OF claimed(10) mem run assms(3)] last by simp
    obtain q2 y where f: "fail_job (j_id j) a (redact_text (unsupported_message (j_type j))) True None later q = (q2, y)" by fastforce
    from f claimed(10) show ?thesis
    proof (cases rule: fail_spec)
      case refused
      with auth show ?thesis by simp
    next
      case (settled row retry)
      let ?g = "\<lambda>j. j\<lparr>j_status := (if retry then JPending else JFailed),
                   j_scheduled := (if retry then later + value_or None 0 else later),
                   j_completed := (if retry then None else Some later), j_updated := later,
                   j_error := Some (redact_text (unsupported_message (j_type j))), j_owner := None, j_lease := None, j_heartbeat := Some later\<rparr>"
      have "jobs db' = jobs q2" and res: "res = TaskError (j_id j) (unsupported_message (j_type j))"
        using s f settled(2) by (auto simp: settle_failure_def)
      moreover have "\<not> retry" using settled(5) by simp
      moreover have "?g j \<in> set (jobs q2)"
        unfolding settled(6) by (simp add: set_update_where) (use mem run(1) in force)
      ultimately show ?thesis using x(2) by (intro exI [of _ "?g j"]) simp
    qed
  qed (use x in auto)
qed

section \<open>Witnesses\<close>

definition wk_demo :: worker_config where
  "wk_demo = \<lparr>wk_id = [119], wk_lease = 60000, wk_types = None, wk_excluded = None\<rparr>"

lemma wk_demo_fields: "wk_id wk_demo = [119]" "wk_lease wk_demo = 60000"
  by (simp_all add: wk_demo_def)

theorem worker_follows_queue_witness:
  "job_reachable (fst (process_next_durable (\<lambda>_. []) wk_demo (\<lambda>_. None) id None None [97] [] 20 30 30 jq_pending))"
  using worker_follows_queue [of "\<lambda>_. None" id "\<lambda>_. []" wk_demo None None "[97]" "[]" 20 30 30 jq_pending, OF _ _ surjective_pairing]
    jq_reach1 by simp


lemma wk_demo_begin:
  "\<exists>db' res. worker_begin (\<lambda>_. []) wk_demo None None [97] [] 20 30 jq_pending = (db', Inr (Settled res))"
proof -
  define db0 where "db0 = beat (\<lambda>_. []) wk_demo HbIdle None None 20 jq_pending"
  have c: "claim_next \<lparr>co_worker = wk_id wk_demo, co_lease_ms = Some (wk_lease wk_demo), co_types = None, co_excluded = None\<rparr>
      [97] [] 20 db0 = (db0\<lparr>jobs := [jq_claimed_row], attempts := [new_attempt [97] jq_row 1 [119] 20]\<rparr>,
        Inr (Some (jq_claimed_row, [97], 1)))"
    by (simp add: claim_next_def build_type_filter_def wk_demo_fields value_or_def fail_expired_def update_where_def db0_def
      jq_pending_def exhausted_def lease_over_def claimable_def jq_row_fields claim_row_def find_job_def
      jq_claimed_row_def)
  have t: "\<not> known_task_type (j_type jq_claimed_row)"
    by (simp add: jq_claimed_row_def take_lease_def jq_row_fields known_task_type_def known_task_types_def lit_def)
  obtain q x where f: "settle_failure (\<lambda>_. []) wk_demo (j_id jq_claimed_row) [97] (unsupported_message (j_type jq_claimed_row)) True
        [(lit ''type'', JStr (j_type jq_claimed_row))] 30
        (db0\<lparr>jobs := [jq_claimed_row], attempts := [new_attempt [97] jq_row 1 [119] 20]\<rparr>) = (q, x)" by fastforce
  have e: "worker_heartbeat_status (wk_id wk_demo) jq_pending = None"
    by (simp add: worker_heartbeat_status_def jq_pending_def)
  have "db0\<lparr>jobs := [jq_claimed_row], attempts := [new_attempt [97] jq_row 1 [119] 20]\<rparr> = jq_running\<lparr>heartbeats := heartbeats db0\<rparr>"
    by (simp add: jq_running_def)
  then have "job_inv (db0\<lparr>jobs := [jq_claimed_row], attempts := [new_attempt [97] jq_row 1 [119] 20]\<rparr>)"
    using job_inv_reachable [OF jq_reach2] by (simp add: job_inv_def job_keys_def attempts_of_def)
  from settle_failure_spec [OF f this] have "\<exists>res. x = Inr res" by blast
  then show ?thesis using c t f e unfolding worker_begin_def db0_def [symmetric]
    by (auto simp: Let_def db0_def [symmetric])
qed

theorem worker_unknown_type_dies_witness: "\<exists>(db :: job_db) j. j \<in> set (jobs db) \<and> j_status j = JFailed \<and> \<not> known_task_type (j_type j)"
proof -
  from wk_demo_begin obtain db' res
    where b: "worker_begin (\<lambda>_. []) wk_demo None None [97] [] 20 30 jq_pending = (db', Inr (Settled res))" by blast
  from worker_unknown_type_dies [OF jq_reach1 _ _ b] wk_demo_fields(2)
  obtain j where "j \<in> set (jobs db')" "j_status j = JFailed" "\<not> known_task_type (j_type j)" by auto
  then show ?thesis by blast
qed

end
