(* ===== verification/Redaction_Theorems.thy ===== *)
theory Redaction_Theorems
  imports Diagnostic_Redaction
begin

text \<open>
  What the redaction of diagnostics achieves: no text or key of a redacted value holds a number of
  5 to 12 digits that stands alone.
\<close>

section \<open>Numbers that stand alone\<close>

definition all_digits :: "jstr \<Rightarrow> bool" where
  "all_digits w \<longleftrightarrow> (\<forall>c \<in> set w. digit c)"

text \<open>A number stands alone between \<open>u\<close> and \<open>v\<close> when neither touches it with a letter or digit.\<close>

definition shows_number :: "jstr \<Rightarrow> bool" where
  "shows_number t \<longleftrightarrow> (\<exists>u w v. t = u @ w @ v \<and> all_digits w \<and> 5 \<le> length w \<and> length w \<le> 12
     \<and> \<not> head_is alnum (rev u) \<and> \<not> head_is alnum v)"

fun texts_of :: "jval \<Rightarrow> jstr set" where
  "texts_of (JStr s) = {s}"
| "texts_of (JArr vs) = (\<Union>v \<in> set vs. texts_of v)"
| "texts_of (JObj fs) = (\<Union>p \<in> set fs. case p of (f, v) \<Rightarrow> insert f (texts_of v))"
| "texts_of _ = {}"

section \<open>The pattern of a number\<close>

lemma repeat_class:
  "lo \<le> hi \<Longrightarrow> length a < n \<Longrightarrow> d \<in> set (repeat n (run (One P)) lo (Some hi) (b, a)) \<longleftrightarrow>
    (\<exists>w v. a = w @ v \<and> d = (rev w @ b, v) \<and> (\<forall>c \<in> set w. P c) \<and> lo \<le> length w \<and> length w \<le> hi)"
proof (induction n arbitrary: lo hi a b)
  case (Suc n)
  show ?case
  proof (cases "hi = 0")
    case False
    have here: "(\<exists>w v. a = w @ v \<and> d = (rev w @ b, v) \<and> (\<forall>c \<in> set w. P c) \<and> lo \<le> length w \<and> length w \<le> hi)
      \<longleftrightarrow> lo = 0 \<and> d = (b, a) \<or> (\<exists>x xs w v. a = x # xs \<and> P x \<and> xs = w @ v \<and> d = (rev w @ x # b, v)
            \<and> (\<forall>c \<in> set w. P c) \<and> lo - 1 \<le> length w \<and> length w \<le> hi - 1)" (is "?l = ?r")
    proof
      assume ?l
      then obtain w v where w: "a = w @ v" "d = (rev w @ b, v)" "\<forall>c \<in> set w. P c" "lo \<le> length w" "length w \<le> hi" by blast
      show ?r
      proof (cases w)
        case (Cons x w')
        with w show ?thesis by (intro disjI2 exI [of _ x] exI [of _ "w' @ v"] exI [of _ w'] exI [of _ v]) auto
      qed (use w in simp)
    next
      assume ?r
      then show ?l
      proof
        assume "\<exists>x xs w v. a = x # xs \<and> P x \<and> xs = w @ v \<and> d = (rev w @ x # b, v)
            \<and> (\<forall>c \<in> set w. P c) \<and> lo - 1 \<le> length w \<and> length w \<le> hi - 1"
        then obtain x w v where "a = x # w @ v" "P x" "d = (rev w @ x # b, v)" "\<forall>c \<in> set w. P c"
          "lo - 1 \<le> length w" "length w \<le> hi - 1" by blast
        with False show ?thesis by (intro exI [of _ "x # w"] exI [of _ v]) auto
      qed (use False in \<open>auto intro!: exI [of _ "[]"]\<close>)
    qed
    have "lo - 1 \<le> hi - 1" using Suc.prems(1) by simp
    with Suc.IH Suc.prems(2) False show ?thesis
      unfolding here by (cases a) auto
  qed (use Suc.prems in auto)
qed simp

lemma run_number:
  "d \<in> set (run rx_number (b, a)) \<longleftrightarrow>
    (\<exists>w v. a = w @ v \<and> d = (rev w @ b, v) \<and> all_digits w \<and> 5 \<le> length w \<and> length w \<le> 12
       \<and> \<not> head_is alnum b \<and> \<not> head_is alnum v)"
proof -
  have "e \<in> set (run (Rep 5 (Some 12) (One digit)) (b, a)) \<longleftrightarrow>
      (\<exists>w v. a = w @ v \<and> e = (rev w @ b, v) \<and> (\<forall>c \<in> set w. digit c) \<and> 5 \<le> length w \<and> length w \<le> 12)" for e
    unfolding run.simps(4) by (rule repeat_class) simp_all
  then show ?thesis
    unfolding rx_number_def rx_seq.simps all_digits_def by (auto simp del: repeat.simps run.simps(4) split: if_splits)
qed

lemma rx_number_iff: "rx_test rx_number t \<longleftrightarrow> shows_number t"
proof
  assume "rx_test rx_number t"
  then obtain u v d where "t = u @ v" "d \<in> set (run rx_number (rev u, v))"
    unfolding rx_test_iff by (metis list.set_intros(1) neq_Nil_conv)
  then show "shows_number t" unfolding run_number shows_number_def by blast
next
  assume "shows_number t"
  then obtain u w v where "t = u @ w @ v" "(rev w @ rev u, v) \<in> set (run rx_number (rev u, w @ v))"
    unfolding run_number shows_number_def by blast
  then show "rx_test rx_number t" unfolding rx_test_iff by (metis empty_iff empty_set)
qed

section \<open>Replacing the numbers\<close>

lemma digit_alnum: "digit c \<Longrightarrow> alnum c"
  by (simp add: alnum_def)

lemma number_needs_digit: "\<not> head_is digit a \<Longrightarrow> run rx_number (b, a) = []"
proof (rule ccontr)
  assume d: "\<not> head_is digit a" and "run rx_number (b, a) \<noteq> []"
  then obtain e where "e \<in> set (run rx_number (b, a))" by (metis list.set_intros(1) neq_Nil_conv)
  then obtain w v where w: "a = w @ v" "all_digits w" "5 \<le> length w" unfolding run_number by blast
  then show False using d by (cases w) (simp_all add: all_digits_def)
qed

lemma number_needs_break: "head_is alnum b \<Longrightarrow> run rx_number (b, a) = []"
proof (rule ccontr)
  assume d: "head_is alnum b" and "run rx_number (b, a) \<noteq> []"
  then obtain e where "e \<in> set (run rx_number (b, a))" by (metis list.set_intros(1) neq_Nil_conv)
  with d show False unfolding run_number by blast
qed

lemma replace_skip: "run r (b, x # xs) = [] \<Longrightarrow> replace_from r t b (x # xs) = x # replace_from r t (x # b) xs"
  by (simp add: replace_from.simps [of r t b "x # xs"])

lemma replace_nil: "run r (b, []) = [] \<Longrightarrow> replace_from r t b [] = []"
  by (simp add: replace_from.simps [of r t b "[]"])

lemma replace_digits:
  "head_is alnum b \<Longrightarrow> all_digits w \<Longrightarrow>
    replace_from rx_number t b (w @ v) = w @ replace_from rx_number t (rev w @ b) v"
proof (induction w arbitrary: b)
  case (Cons x w)
  then have "head_is alnum (x # b)" "all_digits w" by (simp_all add: all_digits_def digit_alnum)
  from Cons.IH [OF this] number_needs_break [OF Cons.prems(1)] show ?case by (simp add: replace_skip)
qed simp

lemma replace_head: "head_is alnum b \<Longrightarrow> head_is P (replace_from rx_number t b v) = head_is P v"
  by (cases v) (simp_all add: replace_skip replace_nil number_needs_break)

lemma matches_skip: "run r (b, x # xs) = [] \<Longrightarrow> matches_from r b (x # xs) = matches_from r (x # b) xs"
  by (simp add: matches_from.simps [of r b "x # xs"])

lemma matches_no_digits:
  "\<forall>c \<in> set m. \<not> digit c \<Longrightarrow> matches_from rx_number b (m @ s) = matches_from rx_number (rev m @ b) s"
  by (induction m arbitrary: b) (simp_all add: matches_skip number_needs_digit)

lemma leading_digits: "all_digits w \<Longrightarrow> \<not> head_is digit v \<Longrightarrow> takeWhile digit (w @ v) = w"
  by (cases v) (auto simp: all_digits_def takeWhile_append)

lemma head_dropWhile: "\<not> head_is P (dropWhile P xs)"
  by (induction xs) simp_all

lemma no_new_number:
  assumes "run rx_number (b, x # xs) = []" and "digit x \<Longrightarrow> head_is alnum b = head_is alnum b'"
  shows "run rx_number (b', x # replace_from rx_number t (x # b) xs) = []"
proof (cases "digit x")
  case True
  define w v where "w = takeWhile digit xs" and "v = dropWhile digit xs"
  have xs: "xs = w @ v" by (simp add: w_def v_def)
  have w: "all_digits w" by (auto simp: w_def all_digits_def dest: set_takeWhileD)
  have v: "\<not> head_is digit v" unfolding v_def by (rule head_dropWhile)
  define out where "out = replace_from rx_number t (rev w @ x # b) v"
  have "head_is alnum (rev w @ x # b)"
    using w True by (cases w rule: rev_cases) (simp_all add: all_digits_def digit_alnum)
  then have heads: "head_is P out = head_is P v" for P unfolding out_def by (rule replace_head)
  have out: "replace_from rx_number t (x # b) xs = w @ out"
    unfolding xs out_def by (rule replace_digits [OF _ w]) (simp add: digit_alnum True)
  show ?thesis
  proof (rule ccontr)
    assume "run rx_number (b', x # replace_from rx_number t (x # b) xs) \<noteq> []"
    then obtain e where "e \<in> set (run rx_number (b', x # w @ out))"
      unfolding out by (metis list.set_intros(1) neq_Nil_conv)
    then obtain u z where u: "x # w @ out = u @ z" "all_digits u" "5 \<le> length u" "length u \<le> 12"
      "\<not> head_is alnum b'" "\<not> head_is alnum z" unfolding run_number by blast
    have "\<not> head_is digit z" using u(6) by (cases z) (auto simp: digit_alnum)
    then have "u = takeWhile digit (x # w @ out)" unfolding u(1) using leading_digits u(2) by simp
    moreover have "takeWhile digit ((x # w) @ out) = x # w"
      by (rule leading_digits) (use w True v heads in \<open>simp_all add: all_digits_def\<close>)
    ultimately have uw: "u = x # w" by simp
    with u(1) have "z = out" by simp
    then have "\<not> head_is alnum v" using u(6) heads by simp
    moreover have "x # xs = u @ v" by (simp add: uw xs)
    ultimately have "(rev u @ b, v) \<in> set (run rx_number (b, x # xs))"
      using u assms(2) [OF True] unfolding run_number by blast
    with assms(1) show False by simp
  qed
qed (rule number_needs_digit, simp)

lemma mark_no_digits: "\<forall>c \<in> set redaction_mark. \<not> digit c"
  by (simp add: redaction_mark_def lit_def digit_def)

lemma replaced_hides_numbers:
  "head_is alnum b = head_is alnum b' \<or> \<not> head_is alnum a \<Longrightarrow>
    \<not> matches_from rx_number b' (replace_from rx_number redaction_mark b a)"
proof (induction "length a" arbitrary: a b b' rule: less_induct)
  case less
  show ?case
  proof (cases "run rx_number (b, a)")
    case Nil
    show ?thesis
    proof (cases a)
      case Nil': Nil
      with Nil show ?thesis by (simp add: replace_nil matches_from.simps number_needs_digit)
    next
      case (Cons x xs)
      have "digit x \<Longrightarrow> head_is alnum b = head_is alnum b'" using less.prems Cons digit_alnum by auto
      from no_new_number [OF Nil [unfolded Cons] this]
      have "run rx_number (b', x # replace_from rx_number redaction_mark (x # b) xs) = []" .
      moreover have "\<not> matches_from rx_number (x # b') (replace_from rx_number redaction_mark (x # b) xs)"
        by (rule less.hyps) (simp_all add: Cons)
      ultimately show ?thesis using Nil by (simp add: Cons replace_skip matches_skip)
    qed
  next
    case (Cons d ds)
    then have "d \<in> set (run rx_number (b, a))" by simp
    then obtain w v where w: "a = w @ v" "d = (rev w @ b, v)" "5 \<le> length w" "\<not> head_is alnum v"
      unfolding run_number by blast
    have "replace_from rx_number redaction_mark b a = redaction_mark @ replace_from rx_number redaction_mark (rev w @ b) v"
      using Cons w(1,2,3) by (subst replace_from.simps) auto
    moreover have "\<not> matches_from rx_number (rev redaction_mark @ b') (replace_from rx_number redaction_mark (rev w @ b) v)"
      by (rule less.hyps) (use w in auto)
    ultimately show ?thesis by (simp add: matches_no_digits [OF mark_no_digits])
  qed
qed

lemma identifiers_hidden: "\<not> shows_number (redact_identifiers s)"
  unfolding rx_number_iff [symmetric] redact_identifiers_def rx_test_def rx_replace_def
  by (rule replaced_hides_numbers) simp

lemma appended_hides_numbers:
  assumes "\<not> shows_number s" and "\<not> alnum x" and "\<forall>c \<in> set m. \<not> digit c"
  shows "\<not> shows_number (s @ x # m)"
proof
  assume "shows_number (s @ x # m)"
  then obtain u w v where w: "s @ x # m = (u @ w) @ v" "all_digits w" "5 \<le> length w" "length w \<le> 12"
    "\<not> head_is alnum (rev u)" "\<not> head_is alnum v" unfolding shows_number_def by auto
  define q where "q = u @ w"
  from w(1) [folded q_def] have "\<exists>z. s = q @ z \<and> z @ x # m = v \<or> s @ z = q \<and> x # m = z @ v"
    unfolding append_eq_append_conv2 .
  then consider (inside) z where "s = (u @ w) @ z" "v = z @ x # m" | (across) z where "u @ w = s @ z" "x # m = z @ v"
    unfolding q_def by metis
  then show False
  proof cases
    case inside
    then have "\<not> head_is alnum z" using w(6) by (cases z) auto
    then have "shows_number s" using w inside(1) unfolding shows_number_def by auto
    with assms(1) show False by simp
  next
    case across
    show False
    proof (cases z rule: rev_cases)
      case Nil
      then have "s = u @ w @ []" using across(1) by simp
      then have "shows_number s" using w unfolding shows_number_def by (intro exI [of _ u] exI [of _ w] exI [of _ "[]"]) simp
      with assms(1) show False by simp
    next
      case (snoc z' c)
      then have "c \<in> set (x # m)" using across(2) by simp
      then have "\<not> digit c" using assms(2,3) digit_alnum by auto
      moreover have "c = last w" using across(1) snoc w(3) by (metis append_is_Nil_conv last_appendR last_snoc list.size(3) not_numeral_le_zero)
      moreover have "w \<noteq> []" using w(3) by auto
      ultimately show False using w(2) by (simp add: all_digits_def)
    qed
  qed
qed

lemma text_hidden: "\<not> shows_number (redact_text s)"
proof -
  have "\<not> shows_number (redact_identifiers t @ 32 # redaction_mark)" for t
    by (rule appended_hides_numbers [OF identifiers_hidden _ mark_no_digits]) (simp add: alnum_def digit_def upper_def)
  then show ?thesis by (simp add: redact_text_def Let_def identifiers_hidden lit_def)
qed

lemma mark_hidden: "\<not> shows_number redaction_mark"
proof
  assume "shows_number redaction_mark"
  then obtain u w v where w: "redaction_mark = u @ w @ v" "all_digits w" "5 \<le> length w" unfolding shows_number_def by blast
  then obtain c where c: "c \<in> set w" by (cases w) auto
  then have "c \<in> set redaction_mark" using w(1) by (metis UnI1 UnI2 set_append)
  with c w(2) mark_no_digits show False unfolding all_digits_def by blast
qed

lemma set_from_entries: "set (from_entries es) \<subseteq> set es"
proof -
  have put: "set (AList.update k v fs) \<subseteq> insert (k, v) (set fs)" for k and v :: 'a and fs
    by (induction fs) auto
  have "set (foldl (\<lambda>fs (k, v). AList.update k v fs) acc es) \<subseteq> set acc \<union> set es" for acc :: "(jstr \<times> 'a) list"
  proof (induction es arbitrary: acc)
    case (Cons e es)
    from Cons.IH [of "AList.update (fst e) (snd e) acc"] put [of "fst e" "snd e" acc] show ?case
      by (cases e) auto
  qed simp
  from this [of "[]"] show ?thesis by (simp add: from_entries_def)
qed

text \<open>
  C19.  Diagnostics hide platform numbers: whatever the value and the key it stands under, no text
  and no key of its redacted form shows a number of 5 to 12 digits standing alone.
\<close>

theorem diagnostics_hide_numbers: "texts_of (redact_value k v) \<inter> {t. shows_number t} = {}"
proof (induction k v rule: redact_value.induct)
  case (4 k fs)
  show ?case
  proof (rule ccontr)
    assume "texts_of (redact_value k (JObj fs)) \<inter> {t. shows_number t} \<noteq> {}"
    then obtain t g u where e: "(g, u) \<in> set (from_entries (map (\<lambda>(f, v). (redact_text f, redact_value (Some f) v)) fs))"
      "t \<in> insert g (texts_of u)" "shows_number t" by auto
    from subsetD [OF set_from_entries e(1)] obtain f v where f: "(f, v) \<in> set fs" "g = redact_text f" "u = redact_value (Some f) v"
      by auto
    from 4 [OF f(1) refl] e(2,3) f(2,3) text_hidden show False by auto
  qed
qed (auto simp: text_hidden mark_hidden)

end
