(* ===== verification/Action_Plans.thy ===== *)
theory Action_Plans
  imports Json_Text
begin

text \<open>
  Action plans, the cooldowns of \<open>src/actions/cooldown.ts\<close> and the application of a passing
  evaluation, \<open>src/actions/social-evaluation.ts\<close>.  A plan is the object the code passes around,
  with its properties in order; a property that is absent reads as \<open>JUndefined\<close>.
\<close>

section \<open>Objects\<close>

text \<open>\<open>{...v}\<close>, \<open>{...v, k: w}\<close> and the optional chain \<open>v?.k1?.k2\<close>.\<close>

fun spread :: "jval \<Rightarrow> (jstr \<times> jval) list" where
  "spread (JObj fs) = fs"
| "spread v = []"

definition put_field :: "string \<Rightarrow> jval \<Rightarrow> jval \<Rightarrow> jval" where
  "put_field k w v = JObj (AList.update (lit k) w (spread v))"

fun path :: "jval \<Rightarrow> string list \<Rightarrow> jval" where
  "path v [] = v"
| "path v (k # ks) = path (get_field v (lit k)) ks"

definition obj :: "(string \<times> jval) list \<Rightarrow> jval" where
  "obj fs = JObj (map (\<lambda>(k, v). (lit k, v)) fs)"

definition text_val :: "string \<Rightarrow> jval" where
  "text_val s = JStr (lit s)"

definition truthy :: "jval \<Rightarrow> bool" where
  "truthy v \<longleftrightarrow> v \<notin> {JUndefined, JNull, JBool False, JStr [], JNum (JInt 0), JNum JNan}"

definition nullish :: "jval \<Rightarrow> bool" where
  "nullish v \<longleftrightarrow> v = JUndefined \<or> v = JNull"

fun number_of :: "jval \<Rightarrow> js_number" where
  "number_of (JNum n) = n"
| "number_of v = JNan"

text \<open>\<open>isDeepStrictEqual\<close>: the same properties in any order, a property being there or not.\<close>

function (sequential) deep_equal :: "jval \<Rightarrow> jval \<Rightarrow> bool" where
  "deep_equal (JObj fs) (JObj gs) \<longleftrightarrow> length fs = length gs
     \<and> (\<forall>p \<in> set fs. case map_of gs (fst p) of Some w \<Rightarrow> deep_equal (snd p) w | None \<Rightarrow> False)"
| "deep_equal (JArr vs) (JArr ws) \<longleftrightarrow> length vs = length ws \<and> (\<forall>(v, w) \<in> set (zip vs ws). deep_equal v w)"
| "deep_equal v w \<longleftrightarrow> v = w"
  by pat_completeness auto
termination
proof (relation "measure (\<lambda>p. size (fst p))")
  fix vs ws :: "jval list" and p v w
  assume "p \<in> set (zip vs ws)" and "(v, w) = p"
  then have "v \<in> set vs" by (auto dest: set_zip_leftD)
  then have "size v < Suc (size_list size vs)" by (simp add: less_Suc_eq_le size_list_estimation')
  then show "((v, w), JArr vs, JArr ws) \<in> measure (\<lambda>p. size (fst p))" by simp
next
  fix fs gs :: "(jstr \<times> jval) list" and p w
  assume "p \<in> set fs"
  then have "size (snd p) \<le> size_list (size_prod (\<lambda>x. 0) size) fs"
    by (rule size_list_estimation') (cases p, simp)
  then show "((snd p, w), JObj fs, JObj gs) \<in> measure (\<lambda>p. size (fst p))" by simp
qed simp

text \<open>The keys of an object are distinct, at every depth.\<close>

fun proper :: "jval \<Rightarrow> bool" where
  "proper (JObj fs) \<longleftrightarrow> distinct (map fst fs) \<and> (\<forall>p \<in> set fs. proper (snd p))"
| "proper (JArr vs) \<longleftrightarrow> (\<forall>v \<in> set vs. proper v)"
| "proper v \<longleftrightarrow> True"

section \<open>Plans\<close>

definition plan_type :: "jval \<Rightarrow> jval" where
  "plan_type a = path a [''type'']"

definition constraint :: "string \<Rightarrow> jval \<Rightarrow> jval" where
  "constraint k a = path a [''constraints'', k]"

definition cooldown_types :: "jstr list" where
  "cooldown_types = map lit [''reply_short'', ''reply_full'', ''reply_with_tool'', ''dm_user'', ''react_only'',
     ''send_folded_forward'']"

definition cooldown_eligible :: "jval \<Rightarrow> bool" where
  "cooldown_eligible a \<longleftrightarrow> plan_type a \<in> JStr ` set cooldown_types"

definition silent :: "jval \<Rightarrow> bool" where
  "silent a \<longleftrightarrow> plan_type a = text_val ''silent_store''"

section \<open>Cooldowns\<close>

record cooldown_entry =
  ce_expires :: js_number
  ce_type :: jval

type_synonym cooldowns = "(jstr \<times> cooldown_entry) list"

text \<open>\<open>now + seconds * 1000\<close>, without rounding.\<close>

fun expiry :: "int \<Rightarrow> js_number \<Rightarrow> js_number" where
  "expiry now (JInt s) = JInt (now + s * 1000)"
| "expiry now (JFrac n d) =
     (let m = now * int d + n * 1000
      in if int d dvd m then JInt (m div int d)
         else JFrac (m div gcd m (int d)) (nat (int d div gcd m (int d))))"
| "expiry now s = s"

definition to_silent_store :: "jval \<Rightarrow> cooldown_entry \<Rightarrow> jval" where
  "to_silent_store a e = obj [(''type'', text_val ''silent_store''), (''priority'', path a [''priority'']),
     (''target'', path a [''target'']),
     (''constraints'', put_field ''cooldownKey'' (constraint ''cooldownKey'' a) (path a [''constraints''])),
     (''reason'', JStr (lit ''Downgraded from '' @ string_of (plan_type a) @ lit ''; cooldown active for ''
        @ string_of (ce_type e)))]"

definition js_not_positive :: "js_number \<Rightarrow> bool" where
  "js_not_positive s \<longleftrightarrow> s \<noteq> JNan \<and> \<not> js_less (JInt 0) s"

definition cool_one :: "int \<Rightarrow> jval \<Rightarrow> cooldowns \<Rightarrow> cooldowns \<times> jval \<times> jstr list" where
  "cool_one now a entries =
     (if \<not> cooldown_eligible a then (entries, a, [])
      else
        let key = constraint ''cooldownKey'' a;
            seconds = (if nullish (constraint ''cooldownSeconds'' a) then JInt 0
                       else number_of (constraint ''cooldownSeconds'' a))
        in if \<not> truthy key \<or> js_not_positive seconds then (entries, a, [])
           else let k = string_of key;
                    fresh = (AList.update k \<lparr>ce_expires = expiry now seconds, ce_type = plan_type a\<rparr> entries, a, [])
                in case map_of entries k of
                     Some e \<Rightarrow> if js_less (JInt now) (ce_expires e)
                                then (entries, to_silent_store a e, [lit ''cooldown:'' @ k]) else fresh
                   | None \<Rightarrow> fresh)"

fun apply_cooldowns :: "int \<Rightarrow> jval list \<Rightarrow> cooldowns \<Rightarrow> cooldowns \<times> jval list \<times> jstr list" where
  "apply_cooldowns now [] entries = (entries, [], [])"
| "apply_cooldowns now (a # as) entries =
     (case cool_one now a entries of
        (entries1, b, s) \<Rightarrow>
          (case apply_cooldowns now as entries1 of (entries2, bs, ss) \<Rightarrow> (entries2, b # bs, s @ ss)))"

section \<open>Applying an evaluation\<close>

record social_result =
  sr_decision_id :: jstr
  sr_request_id :: jstr
  sr_domain :: jstr
  sr_decision :: jstr
  sr_reason :: jstr
  sr_confidence :: js_number
  sr_risk :: jstr
  sr_decided_at :: "int option"
  sr_version :: jstr
  sr_invocation :: "jstr option"
  sr_modified :: jval
  sr_downgrade :: jval
  sr_cooldown :: jval

datatype evaluation_error = DowngradeMissing | DowngradeMismatch

definition passing :: "jstr \<Rightarrow> bool" where
  "passing d \<longleftrightarrow> d = lit ''approve'' \<or> d = lit ''downgrade''"

definition optional_number :: "(js_number \<Rightarrow> js_number \<Rightarrow> js_number) \<Rightarrow> jval \<Rightarrow> jval \<Rightarrow> jval" where
  "optional_number f l r =
     (if l = JUndefined then r else if r = JUndefined then l else JNum (f (number_of l) (number_of r)))"

definition redaction_rank :: "jval \<Rightarrow> nat option" where
  "redaction_rank v = map_of [(text_val ''none'', 0), (text_val ''light'', 1), (text_val ''strict'', 2)] v"

definition strictest_redaction :: "jval \<Rightarrow> jval \<Rightarrow> jval" where
  "strictest_redaction l r =
     (if \<not> truthy l then r else if \<not> truthy r then l
      else case (redaction_rank l, redaction_rank r) of
             (Some m, Some n) \<Rightarrow> if n \<le> m then l else r
           | _ \<Rightarrow> r)"

fun items :: "jval \<Rightarrow> jval list" where
  "items (JArr vs) = vs"
| "items v = []"

definition merge_capabilities :: "jval \<Rightarrow> jval \<Rightarrow> jval" where
  "merge_capabilities l r =
     (let all = items l @ items r in if all = [] then JUndefined else JArr (rev (remdups (rev all))))"

definition either_true :: "jval \<Rightarrow> jval \<Rightarrow> jval" where
  "either_true l r = JBool (l = JBool True \<or> r = JBool True)"

definition anchor_constraints :: "jval \<Rightarrow> jval \<Rightarrow> jval" where
  "anchor_constraints b m =
     put_field ''capabilities'' (merge_capabilities (path b [''capabilities'']) (path m [''capabilities'']))
     (put_field ''redactionLevel'' (strictest_redaction (path b [''redactionLevel'']) (path m [''redactionLevel'']))
     (put_field ''maxResponseTokens'' (optional_number js_min (path b [''maxResponseTokens'']) (path m [''maxResponseTokens'']))
     (put_field ''cooldownSeconds'' (optional_number js_max (path b [''cooldownSeconds'']) (path m [''cooldownSeconds'']))
     (put_field ''cooldownKey'' (if nullish (path b [''cooldownKey'']) then path m [''cooldownKey''] else path b [''cooldownKey''])
     (put_field ''proactive'' (either_true (path b [''proactive'']) (path m [''proactive'']))
     (put_field ''evaluatorRequired'' (either_true (path b [''evaluatorRequired'']) (path m [''evaluatorRequired''])) m))))))"

definition anchor_modified :: "jval option \<Rightarrow> jval \<Rightarrow> jval" where
  "anchor_modified base m =
     (case base of
        None \<Rightarrow> m
      | Some b \<Rightarrow> put_field ''constraints'' (anchor_constraints (path b [''constraints'']) (path m [''constraints'']))
                   (put_field ''target'' (path b [''target'']) m))"

definition downgrade_one :: "social_result \<Rightarrow> jval \<Rightarrow> jval" where
  "downgrade_one r a =
     (if plan_type a \<noteq> path (sr_downgrade r) [''from''] then a
      else put_field ''constraints''
             (put_field ''cooldownSeconds'' (optional_number js_max (constraint ''cooldownSeconds'' a) (sr_cooldown r))
               (path a [''constraints'']))
           (put_field ''reason'' (path (sr_downgrade r) [''reason''])
           (put_field ''type'' (path (sr_downgrade r) [''to'']) a)))"

definition apply_passing :: "jval list \<Rightarrow> social_result \<Rightarrow> evaluation_error + jval list \<times> jstr list" where
  "apply_passing actions r =
     (if sr_decision r = lit ''downgrade'' then
        (if \<not> truthy (sr_downgrade r) then Inl DowngradeMissing
         else if \<not> (\<exists>a \<in> set actions. plan_type a = path (sr_downgrade r) [''from'']) then Inl DowngradeMismatch
         else Inr (map (downgrade_one r) actions,
                [lit ''evaluator_downgrade:'' @ string_of (path (sr_downgrade r) [''from'']) @ lit ''->''
                   @ string_of (path (sr_downgrade r) [''to''])]))
      else Inr (if truthy (sr_modified r)
                then [anchor_modified (case actions of [] \<Rightarrow> None | a # _ \<Rightarrow> Some a) (sr_modified r)]
                else actions, []))"

section \<open>Facts\<close>

lemma get_obj [simp]: "get_field (obj fs) (lit k) = (case map_of fs k of None \<Rightarrow> JUndefined | Some v \<Rightarrow> v)"
proof -
  have "map_of (map (\<lambda>(k, v). (lit k, v)) fs) (lit k) = map_of fs k"
    by (induction fs) auto
  then show ?thesis by (simp add: obj_def)
qed

lemma get_put [simp]: "get_field (put_field k w v) (lit k') = (if k = k' then w else get_field v (lit k'))"
  by (cases v) (simp_all add: put_field_def)

lemma text_val_inject [simp]: "text_val s = text_val t \<longleftrightarrow> s = t"
  by (simp add: text_val_def)

lemma text_val_member: "text_val s \<in> JStr ` set (map lit ss) \<longleftrightarrow> s \<in> set ss"
  by (auto simp: text_val_def)

lemma path_append: "path v (ks @ ls) = path (path v ks) ls"
  by (induction ks arbitrary: v) simp_all

lemma proper_spread: "proper v \<Longrightarrow> distinct (map fst (spread v)) \<and> (\<forall>p \<in> set (spread v). proper (snd p))"
  by (cases v) auto

lemma proper_put: "proper v \<Longrightarrow> proper w \<Longrightarrow> proper (put_field k w v)"
proof -
  assume v: "proper v" and w: "proper w"
  have "set (AList.update (lit k) w fs) \<subseteq> insert (lit k, w) (set fs)" for fs by (induction fs) auto
  from this [of "spread v"] proper_spread [OF v] w have "\<forall>p \<in> set (AList.update (lit k) w (spread v)). proper (snd p)"
    by fastforce
  with proper_spread [OF v] show ?thesis by (simp add: put_field_def distinct_update)
qed

lemma proper_path: "proper v \<Longrightarrow> proper (path v ks)"
proof (induction ks arbitrary: v)
  case (Cons k ks)
  have "proper (get_field v (lit k))"
    using Cons.prems by (cases v) (auto split: option.splits dest: map_of_SomeD)
  then show ?case by (simp add: Cons.IH)
qed simp

lemma deep_equal_refl: "proper v \<Longrightarrow> deep_equal v v"
proof (induction v rule: proper.induct)
  case (1 fs)
  have "\<forall>p \<in> set fs. map_of fs (fst p) = Some (snd p)" using 1(2) by auto
  with 1 show ?case by auto
next
  case (2 vs)
  then show ?case by (auto simp: set_zip)
qed simp_all

lemma apply_cooldowns_single:
  "apply_cooldowns now [a] entries = (case cool_one now a entries of (entries', b, s) \<Rightarrow> (entries', [b], s))"
  by (auto split: prod.splits)

end
