(* ===== verification/Action_Repository.thy ===== *)
theory Action_Repository
  imports Action_Plans Diagnostic_Redaction
begin

text \<open>
  \<open>ActionRepository\<close> of \<open>src/actions/action-repository.ts\<close>: action decisions with the evidence of
  their evaluation, the binding that ties a stored decision to the value an executor is given, and
  the execution rows.  The tables are the state.  \<open>JSON.stringify\<close>, the text of a number and
  the keyed hash are parameters, as are the text part of the memory claim guard and the check of
  a model invocation.
\<close>

section \<open>Tables\<close>

record linked_turn =
  tn_id :: jstr
  tn_conversation :: jstr
  tn_trigger :: jstr
  tn_decision :: "jstr option"

record event_row =
  rv_id :: jstr
  rv_conversation :: "jstr option"

record trigger_chat =
  ch_id :: jstr
  ch_event :: jstr
  ch_conversation :: jstr
  ch_type :: jstr
  ch_group :: "jstr option"

record evaluator_row =
  er_id :: jstr
  er_request :: jstr
  er_domain :: jstr
  er_turn :: "jstr option"
  er_decision :: jstr
  er_reason :: jstr
  er_confidence :: js_number
  er_risk :: jstr
  er_version :: jstr
  er_invocation :: "jstr option"
  er_actor_user :: "jstr option"
  er_actor_class :: jstr
  er_context :: jstr
  er_sources :: jstr
  er_requested :: "int option"
  er_decided :: "int option"

record action_row =
  dr_id :: jstr
  dr_turn :: jstr
  dr_decided_by :: jstr
  dr_risk :: jstr
  dr_confidence :: js_number
  dr_required :: bool
  dr_passed :: "bool option"
  dr_evaluator :: "jstr option"
  dr_binding :: jstr
  dr_actions :: jstr
  dr_reasons :: jstr
  dr_suppressors :: jstr
  dr_created :: int

record execution_input =
  xi_decision :: jstr
  xi_type :: jstr
  xi_status :: jstr
  xi_message :: "jstr option"
  xi_memory :: "jstr option"
  xi_job :: "jstr option"
  xi_from :: "jstr option"
  xi_from_reason :: "jstr option"
  xi_error :: "(jstr \<times> jstr \<times> bool) option"
  xi_audit :: "jstr option"

record execution_row = execution_input +
  xr_id :: jstr
  xr_at :: int

record action_db =
  db_turns :: "linked_turn list"
  db_events :: "event_row list"
  db_chats :: "trigger_chat list"
  db_evaluators :: "evaluator_row list"
  db_decisions :: "action_row list"
  db_executions :: "execution_row list"

section \<open>Values\<close>

record action_decision =
  ad_id :: jstr
  ad_turn :: jstr
  ad_created :: "int option"
  ad_decided_by :: jstr
  ad_actions :: "jval list"
  ad_risk :: jstr
  ad_confidence :: js_number
  ad_reasons :: "jstr list"
  ad_suppressors :: "jstr list"
  ad_required :: bool
  ad_passed :: "bool option"
  ad_evaluator :: "jstr option"
  ad_prompt :: "jstr option"

record social_request =
  sq_id :: jstr
  sq_domain :: jstr
  sq_turn :: jstr
  sq_actor_user :: "jstr option"
  sq_actor_class :: jstr
  sq_context :: jstr
  sq_sources :: jval
  sq_summary :: jstr
  sq_created :: "int option"
  sq_proposed :: jval
  sq_signals :: jval
  sq_proactive :: bool

record decision_input =
  di_id :: "jstr option"
  di_turn :: jstr
  di_decided_by :: jstr
  di_actions :: "jval list"
  di_risk :: jstr
  di_confidence :: js_number
  di_reasons :: "jstr list"
  di_suppressors :: "jstr list"
  di_required :: bool
  di_passed :: "bool option"
  di_evidence :: "(social_request \<times> social_result) option"
  di_created :: "int option option"

record turn_source =
  ts_turn :: jstr
  ts_conversation :: jstr
  ts_trigger :: jstr
  ts_type :: "jstr option"
  ts_group :: "jstr option"

record turn_authority =
  ta_conversation :: jstr
  ta_trigger :: jstr
  ta_raw :: "jstr option"
  ta_count :: nat
  ta_chat :: "jstr option"
  ta_type :: "jstr option"
  ta_group :: "jstr option"

record repo_env =
  re_stringify :: "jval \<Rightarrow> jstr"
  re_number :: "js_number \<Rightarrow> jstr"
  re_hmac :: "jstr \<Rightarrow> jstr"
  re_invocation :: "social_request \<Rightarrow> social_result \<Rightarrow> bool"
  re_claim :: "jstr \<Rightarrow> bool"
  re_guard :: "jval \<Rightarrow> jstr \<Rightarrow> jstr"

datatype action_error =
    TurnMissing | EvidenceRequired | RequestTurnMismatch | ResultRequestMismatch | DomainNotSocial
  | DecidedByMismatch | RequiredMismatch | PassedMismatch | RiskMismatch | ConfidenceMismatch
  | ProhibitedPass | SourcesInvalid | TriggerNotSource | SourceMissing | NonPassingOutward
  | PlanNotAuthorized | EvaluationRefused evaluation_error | InvocationUnbound | BindingInvalid | RowRefused

section \<open>Redaction of stored plans\<close>

definition target_identifier :: "jstr list \<Rightarrow> bool" where
  "target_identifier p = (case p of
     key # parent # _ \<Rightarrow> parent = lit ''target''
       \<and> key \<in> lit ` {''conversationId'', ''userId'', ''canonicalUserId'', ''groupId''}
   | _ \<Rightarrow> False)"

definition rx_cooldown_key :: rx where
  "rx_cooldown_key = rx_seq [rx_start,
     rx_alt [Seq (rx_lit (lit ''group:qq-group-'')) (Rep 5 (Some 12) (One digit)),
             rx_seq [rx_lit (lit ''private:''), rx_opt (rx_lit (lit ''private:'')), rx_lit (lit ''qq-''),
               Rep 5 (Some 12) (One digit)]],
     rx_lit (lit '':''), rx_alt (map rx_lit cooldown_types), AtEnd]"

definition cooldown_key :: "jstr \<Rightarrow> bool" where
  "cooldown_key s \<longleftrightarrow> rx_test rx_cooldown_key s"

text \<open>Paths are kept with the last key first.\<close>

definition control_key :: "jstr list \<Rightarrow> jstr \<Rightarrow> bool" where
  "control_key p s = (case p of
     [] \<Rightarrow> False
   | key # rest \<Rightarrow>
       if key = lit ''cooldownKey'' \<and> rest \<noteq> [] \<and> hd rest = lit ''constraints'' then cooldown_key s
       else if key = lit ''suppressors'' \<and> prefix (lit ''cooldown:'') s then cooldown_key (drop 9 s)
       else False)"

fun last_key :: "jstr list \<Rightarrow> jstr option" where
  "last_key [] = None"
| "last_key (k # ks) = Some k"

fun redact_action :: "jstr list \<Rightarrow> jval \<Rightarrow> jval" where
  "redact_action p (JStr s) = JStr (if target_identifier p \<or> control_key p s then s else redact_text s)"
| "redact_action p (JNum n) = (if numeric_identifier (last_key p) n then JStr redaction_mark else JNum n)"
| "redact_action p (JArr vs) = JArr (map (redact_action p) vs)"
| "redact_action p (JObj fs) = JObj (from_entries (map (\<lambda>(k, v). (redact_text k, redact_action (k # p) v)) fs))"
| "redact_action p v = v"

definition max_reason :: nat where
  "max_reason = 2048"

definition sanitize_narrative :: "jstr \<Rightarrow> jstr" where
  "sanitize_narrative t =
     (let redacted = redact_text t; marker = lit '' [TRUNCATED]''
      in if length redacted \<le> max_reason then redacted
         else take (max_reason - length marker) redacted @ marker)"

section \<open>The canonical text\<close>

fun commas :: "jstr list \<Rightarrow> jstr" where
  "commas [] = []"
| "commas [t] = t"
| "commas (t # u # ts) = t @ 44 # commas (u # ts)"

definition bracket :: "jstr list \<Rightarrow> jstr" where
  "bracket ts = 91 # commas ts @ [93]"

definition tagged :: "string \<Rightarrow> jstr list \<Rightarrow> jstr" where
  "tagged tag ts = bracket (json_string (lit tag) # ts)"

text \<open>\<open>JSON.stringify(toCanonicalNode(v))\<close>; \<open>None\<close> when a value is refused.\<close>

fun canonical :: "(js_number \<Rightarrow> jstr) \<Rightarrow> jval \<Rightarrow> jstr option" where
  "canonical number JUndefined = Some (tagged ''undefined'' [])"
| "canonical number JNull = Some (tagged ''null'' [])"
| "canonical number (JStr s) = Some (tagged ''string'' [json_string s])"
| "canonical number (JBool b) = Some (tagged ''boolean'' [lit (if b then ''true'' else ''false'')])"
| "canonical number (JNum n) = (if is_finite n then Some (tagged ''number'' [json_string (number n)]) else None)"
| "canonical number (JDate d) = map_option (\<lambda>t. tagged ''date'' [json_string (number (JInt t))]) d"
| "canonical number (JArr vs) =
     map_option (\<lambda>ts. tagged ''array'' [bracket ts]) (those (map (canonical number) vs))"
| "canonical number (JObj fs) =
     map_option (\<lambda>ps. tagged ''object'' [bracket (map (\<lambda>(k, t). bracket [json_string k, t]) (sort_key fst ps))])
       (those (map (\<lambda>(k, v). map_option (Pair k) (canonical number v)) fs))"

fun optional :: "jstr option \<Rightarrow> jval" where
  "optional None = JUndefined"
| "optional (Some s) = JStr s"

fun nullable :: "jstr option \<Rightarrow> jval" where
  "nullable None = JNull"
| "nullable (Some s) = JStr s"

fun millis :: "int option \<Rightarrow> jval" where
  "millis None = JNum JNan"
| "millis (Some t) = JNum (JInt t)"

definition decision_value :: "action_decision \<Rightarrow> jval" where
  "decision_value d = obj [(''id'', JStr (ad_id d)), (''turnId'', JStr (ad_turn d)), (''createdAt'', JDate (ad_created d)),
     (''decidedBy'', JStr (ad_decided_by d)), (''actions'', JArr (ad_actions d)), (''riskLevel'', JStr (ad_risk d)),
     (''confidence'', JNum (ad_confidence d)), (''reasons'', JArr (map JStr (ad_reasons d))),
     (''suppressors'', JArr (map JStr (ad_suppressors d))), (''evaluatorRequired'', JBool (ad_required d)),
     (''evaluatorPassed'', (case ad_passed d of None \<Rightarrow> JUndefined | Some b \<Rightarrow> JBool b)),
     (''evaluatorDecisionId'', optional (ad_evaluator d)), (''evaluatorPromptId'', optional (ad_prompt d))]"

definition turn_value :: "turn_authority \<Rightarrow> jval" where
  "turn_value a = obj [(''conversationId'', JStr (ta_conversation a)), (''triggerEventId'', JStr (ta_trigger a)),
     (''rawConversationId'', nullable (ta_raw a)), (''chatCount'', JNum (JInt (int (ta_count a)))),
     (''chatConversationId'', nullable (ta_chat a)), (''chatConversationType'', nullable (ta_type a)),
     (''chatGroupId'', nullable (ta_group a))]"

definition evaluator_value :: "evaluator_row option \<Rightarrow> jval" where
  "evaluator_value e = (case e of
     None \<Rightarrow> JUndefined
   | Some r \<Rightarrow> obj [(''decisionId'', JStr (er_id r)), (''requestId'', JStr (er_request r)), (''domain'', JStr (er_domain r)),
       (''turnId'', optional (er_turn r)), (''outcome'', JStr (er_decision r)), (''reason'', JStr (er_reason r)),
       (''confidence'', JNum (er_confidence r)), (''riskLevel'', JStr (er_risk r)), (''evaluatorVersion'', JStr (er_version r)),
       (''modelInvocationId'', nullable (er_invocation r)), (''actorUserId'', nullable (er_actor_user r)),
       (''actorClass'', JStr (er_actor_class r)), (''invocationContext'', JStr (er_context r)),
       (''sourceEventIdsJson'', JStr (er_sources r)), (''requestCreatedAt'', millis (er_requested r)),
       (''decidedAt'', millis (er_decided r))])"

definition canonical_decision ::
  "repo_env \<Rightarrow> action_decision \<Rightarrow> evaluator_row option \<Rightarrow> turn_authority \<Rightarrow> jstr option" where
  "canonical_decision env d e a =
     (if ad_created d = None then None
      else canonical (re_number env)
        (obj [(''decision'', decision_value d), (''evaluatorAuthority'', evaluator_value e), (''turnAuthority'', turn_value a)]))"

definition execution_binding ::
  "repo_env \<Rightarrow> action_decision \<Rightarrow> evaluator_row option \<Rightarrow> turn_authority \<Rightarrow> jstr option" where
  "execution_binding env d e a = map_option (\<lambda>t. lit ''v1:'' @ re_hmac env t) (canonical_decision env d e a)"

definition hex64 :: "jstr \<Rightarrow> bool" where
  "hex64 s \<longleftrightarrow> length s = 64 \<and> list_all (\<lambda>c. digit c \<or> 97 \<le> c \<and> c \<le> 102) s"

text \<open>Digests of 64 lower-case hexadecimal digits denote the same bytes when they are the same text.\<close>

definition binding_equal :: "jstr \<Rightarrow> jstr \<Rightarrow> bool" where
  "binding_equal l r \<longleftrightarrow> prefix (lit ''v1:'') l \<and> prefix (lit ''v1:'') r \<and> hex64 (drop 3 l) \<and> hex64 (drop 3 r) \<and> drop 3 l = drop 3 r"

section \<open>The authority of a turn\<close>

definition find_turn :: "jstr \<Rightarrow> action_db \<Rightarrow> linked_turn option" where
  "find_turn i db = find (\<lambda>t. tn_id t = i) (db_turns db)"

definition find_event :: "jstr \<Rightarrow> action_db \<Rightarrow> event_row option" where
  "find_event i db = find (\<lambda>e. rv_id e = i) (db_events db)"

definition trigger_chats :: "jstr \<Rightarrow> action_db \<Rightarrow> trigger_chat list" where
  "trigger_chats e db = sort_key ch_id (filter (\<lambda>c. ch_event c = e) (db_chats db))"

definition first_chat :: "(trigger_chat \<Rightarrow> 'a option) \<Rightarrow> trigger_chat list \<Rightarrow> 'a option" where
  "first_chat f cs = (case cs of [] \<Rightarrow> None | c # _ \<Rightarrow> f c)"

definition read_authority :: "jstr \<Rightarrow> action_db \<Rightarrow> turn_authority option" where
  "read_authority i db =
     (case find_turn i db of
        None \<Rightarrow> None
      | Some t \<Rightarrow>
          (case find_event (tn_trigger t) db of
             None \<Rightarrow> None
           | Some e \<Rightarrow>
               (let cs = trigger_chats (tn_trigger t) db
                in Some \<lparr>ta_conversation = tn_conversation t, ta_trigger = tn_trigger t, ta_raw = rv_conversation e,
                     ta_count = length cs, ta_chat = first_chat (Some \<circ> ch_conversation) cs,
                     ta_type = first_chat (Some \<circ> ch_type) cs, ta_group = first_chat ch_group cs\<rparr>)))"

definition to_turn_source :: "jstr \<Rightarrow> turn_authority \<Rightarrow> turn_source" where
  "to_turn_source i a =
     (let plain = \<lparr>ts_turn = i, ts_conversation = ta_conversation a, ts_trigger = ta_trigger a, ts_type = None, ts_group = None\<rparr>
      in if ta_count a \<noteq> 1 \<or> ta_raw a \<noteq> Some (ta_conversation a) \<or> ta_chat a \<noteq> Some (ta_conversation a) then plain
         else if ta_type a = Some (lit ''private'') \<and> ta_group a = None then plain\<lparr>ts_type := Some (lit ''private'')\<rparr>
         else case ta_group a of
                Some g \<Rightarrow> if ta_type a = Some (lit ''group'') \<and> g \<noteq> [] \<and> js_trim g = g
                          then plain\<lparr>ts_type := Some (lit ''group''), ts_group := Some g\<rparr> else plain
              | None \<Rightarrow> plain)"

section \<open>Validating the evidence\<close>

definition canonical_suppression :: "jval list \<Rightarrow> jval list \<Rightarrow> jstr list \<Rightarrow> bool" where
  "canonical_suppression authorized final suppressors \<longleftrightarrow>
     length authorized = length final \<and> (\<forall>a \<in> set final. silent a)
     \<and> (\<forall>(a, b) \<in> set (zip final authorized).
          deep_equal a b
          \<or> (let key = constraint ''cooldownKey'' b;
                 seconds = constraint ''cooldownSeconds'' b;
                 before = lit ''Downgraded from '' @ string_of (plan_type b) @ lit ''; cooldown active for '';
                 reason = string_of (path a [''reason''])
             in cooldown_eligible b
                \<and> prefix before reason \<and> drop (length before) reason \<in> set cooldown_types
                \<and> key \<noteq> JStr [] \<and> key = JStr (string_of key)
                \<and> (\<exists>n. seconds = JNum n \<and> is_finite n \<and> js_less (JInt 0) n)
                \<and> lit ''cooldown:'' @ string_of key \<in> set suppressors
                \<and> deep_equal a (obj [(''type'', text_val ''silent_store''), (''priority'', path b [''priority'']),
                     (''target'', path b [''target'']),
                     (''constraints'', put_field ''cooldownKey'' key (path b [''constraints''])),
                     (''reason'', path a [''reason''])])))"

fun nonempty_text :: "jval \<Rightarrow> bool" where
  "nonempty_text (JStr s) = (s \<noteq> [])"
| "nonempty_text v = False"

definition validate_evidence ::
  "action_db \<Rightarrow> decision_input \<Rightarrow> social_request \<Rightarrow> social_result \<Rightarrow> turn_authority \<Rightarrow> action_error option" where
  "validate_evidence db i q r a =
     (let passed = passing (sr_decision r)
      in if sq_turn q \<noteq> di_turn i then Some RequestTurnMismatch
         else if sr_request_id r \<noteq> sq_id q then Some ResultRequestMismatch
         else if sq_domain q \<noteq> lit ''social'' \<or> sr_domain r \<noteq> lit ''social'' then Some DomainNotSocial
         else if di_decided_by i \<noteq> lit ''evaluator'' then Some DecidedByMismatch
         else if \<not> di_required i then Some RequiredMismatch
         else if di_passed i \<noteq> Some passed then Some PassedMismatch
         else if di_risk i \<noteq> sr_risk r then Some RiskMismatch
         else if di_confidence i \<noteq> sr_confidence r then Some ConfidenceMismatch
         else if passed \<and> sr_risk r = lit ''prohibited'' then Some ProhibitedPass
         else if \<not> (\<exists>vs. sq_sources q = JArr vs \<and> list_all nonempty_text vs) then Some SourcesInvalid
         else if JStr (ta_trigger a) \<notin> set (items (sq_sources q)) then Some TriggerNotSource
         else if \<not> list_all (\<lambda>v. find_event (string_of v) db \<noteq> None) (items (sq_sources q)) then Some SourceMissing
         else if \<not> passed \<and> \<not> list_all silent (di_actions i) then Some NonPassingOutward
         else if passed then
           (case apply_passing [sq_proposed q] r of
              Inl e \<Rightarrow> Some (EvaluationRefused e)
            | Inr (authorized, _) \<Rightarrow>
                if \<not> deep_equal (JArr (di_actions i)) (JArr authorized)
                   \<and> \<not> canonical_suppression authorized (di_actions i) (di_suppressors i)
                then Some PlanNotAuthorized else None)
         else None)"

definition validate_authority :: "action_db \<Rightarrow> decision_input \<Rightarrow> turn_authority \<Rightarrow> action_error option" where
  "validate_authority db i a =
     (case di_evidence i of
        Some (q, r) \<Rightarrow> validate_evidence db i q r a
      | None \<Rightarrow>
          if di_decided_by i = lit ''evaluator'' \<or> di_passed i = Some True \<or> (di_passed i = Some False \<and> \<not> di_required i)
          then Some EvidenceRequired else None)"

section \<open>The memory claim guard\<close>

definition outward_text_types :: "jstr list" where
  "outward_text_types = map lit [''reply_short'', ''reply_full'', ''reply_with_tool'', ''dm_user'', ''send_folded_forward'',
     ''ask_clarification'', ''react_only'']"

definition guarded_field :: "jval \<Rightarrow> (string \<times> jstr) option" where
  "guarded_field a =
     (if plan_type a \<notin> JStr ` set outward_text_types then None
      else let f = (if plan_type a = text_val ''react_only'' then ''reaction'' else ''text'')
           in case path a [''payload'', f] of JStr s \<Rightarrow> Some (f, s) | _ \<Rightarrow> None)"

definition guard_one :: "repo_env \<Rightarrow> jval \<Rightarrow> jval \<times> bool" where
  "guard_one env a =
     (case guarded_field a of
        None \<Rightarrow> (a, False)
      | Some (f, s) \<Rightarrow>
          if re_guard env a s = s then (a, False)
          else (put_field ''payload'' (put_field f (JStr (re_guard env a s)) (path a [''payload''])) a, True))"

definition guard_claims :: "repo_env \<Rightarrow> jval list \<Rightarrow> jval list \<times> bool" where
  "guard_claims env actions =
     (if list_ex (\<lambda>a. case guarded_field a of Some (f, s) \<Rightarrow> re_claim env s | None \<Rightarrow> False) actions
      then (map (fst \<circ> guard_one env) actions, list_ex (snd \<circ> guard_one env) actions)
      else (actions, False))"

definition claim_suppressor :: jstr where
  "claim_suppressor = lit ''memory_claim_truthfulness_guard''"

section \<open>Creating a decision\<close>

definition evidence_row :: "repo_env \<Rightarrow> social_request \<Rightarrow> social_result \<Rightarrow> evaluator_row" where
  "evidence_row env q r = \<lparr>er_id = sr_decision_id r, er_request = sr_request_id r, er_domain = sq_domain q,
     er_turn = Some (sq_turn q), er_decision = sr_decision r, er_reason = sanitize_narrative (sr_reason r),
     er_confidence = sr_confidence r, er_risk = sr_risk r, er_version = sr_version r, er_invocation = sr_invocation r,
     er_actor_user = sq_actor_user q, er_actor_class = sq_actor_class q, er_context = sq_context q,
     er_sources = re_stringify env (sq_sources q), er_requested = sq_created q, er_decided = sr_decided_at r\<rparr>"

definition risk_levels :: "jstr list" where
  "risk_levels = map lit [''low'', ''medium'', ''high'', ''prohibited'']"

definition unit_number :: "js_number \<Rightarrow> bool" where
  "unit_number n \<longleftrightarrow> is_finite n \<and> \<not> js_less n (JInt 0) \<and> \<not> js_less (JInt 1) n"

text \<open>The constraints of the two tables.\<close>

definition evaluator_row_ok :: "evaluator_row \<Rightarrow> action_db \<Rightarrow> bool" where
  "evaluator_row_ok r db \<longleftrightarrow>
     (\<forall>e \<in> set (db_evaluators db). er_id e \<noteq> er_id r \<and> er_request e \<noteq> er_request r
        \<and> (er_invocation r \<noteq> None \<longrightarrow> er_invocation e \<noteq> er_invocation r))
     \<and> er_decision r \<in> set (map lit [''approve'', ''reject'', ''downgrade'', ''propose''])
     \<and> unit_number (er_confidence r) \<and> er_risk r \<in> set risk_levels
     \<and> er_actor_class r \<in> set (map lit [''owner'', ''admin'', ''trusted_user'', ''user'', ''group_admin'',
          ''system_worker'', ''evaluator'', ''tool''])
     \<and> er_context r \<in> set (map lit [''private_chat'', ''group_chat'', ''admin_cli'', ''background_worker'', ''internal''])
     \<and> er_requested r \<noteq> None \<and> er_decided r \<noteq> None"

definition decision_row_ok :: "action_row \<Rightarrow> action_db \<Rightarrow> bool" where
  "decision_row_ok r db \<longleftrightarrow> (\<forall>e \<in> set (db_decisions db). dr_id e \<noteq> dr_id r)
     \<and> dr_decided_by r \<in> set (map lit [''attention'', ''pi'', ''evaluator''])
     \<and> dr_risk r \<in> set risk_levels \<and> unit_number (dr_confidence r)"

definition stored_texts :: "repo_env \<Rightarrow> action_decision \<Rightarrow> jstr \<times> jstr \<times> jstr" where
  "stored_texts env d =
     (re_stringify env (redact_action [lit ''actions''] (JArr (ad_actions d))),
      re_stringify env (redact_action [lit ''reasons''] (JArr (map JStr (ad_reasons d)))),
      re_stringify env (redact_action [lit ''suppressors''] (JArr (map JStr (ad_suppressors d)))))"

definition to_decision_row :: "repo_env \<Rightarrow> action_decision \<Rightarrow> jstr \<Rightarrow> int \<Rightarrow> action_row" where
  "to_decision_row env d binding created =
     (case stored_texts env d of
        (actions, reasons, suppressors) \<Rightarrow>
          \<lparr>dr_id = ad_id d, dr_turn = ad_turn d, dr_decided_by = ad_decided_by d, dr_risk = ad_risk d,
           dr_confidence = ad_confidence d, dr_required = ad_required d, dr_passed = ad_passed d,
           dr_evaluator = ad_evaluator d, dr_binding = binding, dr_actions = actions, dr_reasons = reasons,
           dr_suppressors = suppressors, dr_created = created\<rparr>)"

definition build_decision :: "repo_env \<Rightarrow> decision_input \<Rightarrow> jstr \<Rightarrow> int \<Rightarrow> action_decision" where
  "build_decision env i fresh now =
     (case guard_claims env (di_actions i) of
        (actions, corrected) \<Rightarrow>
          \<lparr>ad_id = (case di_id i of Some k \<Rightarrow> k | None \<Rightarrow> fresh), ad_turn = di_turn i,
           ad_created = (case di_created i of Some c \<Rightarrow> c | None \<Rightarrow> Some now),
           ad_decided_by = (if di_evidence i = None then di_decided_by i else lit ''evaluator''),
           ad_actions = actions,
           ad_risk = (case di_evidence i of Some (q, r) \<Rightarrow> sr_risk r | None \<Rightarrow> di_risk i),
           ad_confidence = (case di_evidence i of Some (q, r) \<Rightarrow> sr_confidence r | None \<Rightarrow> di_confidence i),
           ad_reasons = di_reasons i,
           ad_suppressors = (if corrected then rev (remdups (rev (di_suppressors i @ [claim_suppressor]))) else di_suppressors i),
           ad_required = (di_evidence i \<noteq> None \<or> di_required i),
           ad_passed = (case di_evidence i of Some (q, r) \<Rightarrow> Some (passing (sr_decision r)) | None \<Rightarrow> di_passed i),
           ad_evaluator = (case di_evidence i of Some (q, r) \<Rightarrow> Some (sr_decision_id r) | None \<Rightarrow> None),
           ad_prompt = None\<rparr>)"

definition link_turn :: "jstr \<Rightarrow> jstr \<Rightarrow> action_db \<Rightarrow> action_db" where
  "link_turn turn d db = db\<lparr>db_turns := map (\<lambda>t. if tn_id t = turn then t\<lparr>tn_decision := Some d\<rparr> else t) (db_turns db)\<rparr>"

definition create_decision ::
  "repo_env \<Rightarrow> decision_input \<Rightarrow> jstr \<Rightarrow> int \<Rightarrow> action_db \<Rightarrow> action_db \<times> (action_error + action_decision)" where
  "create_decision env i fresh now db =
     (case read_authority (di_turn i) db of
        None \<Rightarrow> (db, Inl TurnMissing)
      | Some a \<Rightarrow>
          (case validate_authority db i a of
             Some e \<Rightarrow> (db, Inl e)
           | None \<Rightarrow>
               let d = build_decision env i fresh now;
                   row = map_option (\<lambda>(q, r). evidence_row env q r) (di_evidence i)
               in (case (execution_binding env d row a, ad_created d) of
                     (Some binding, Some created) \<Rightarrow>
                       let dr = to_decision_row env d binding created;
                           db1 = (case row of None \<Rightarrow> db | Some r \<Rightarrow> db\<lparr>db_evaluators := db_evaluators db @ [r]\<rparr>)
                       in if (case di_evidence i of
                                Some (q, r) \<Rightarrow> sr_invocation r \<noteq> None \<and> \<not> re_invocation env q r | None \<Rightarrow> False)
                          then (db, Inl InvocationUnbound)
                          else if (case row of Some r \<Rightarrow> \<not> evaluator_row_ok r db | None \<Rightarrow> False) \<or> \<not> decision_row_ok dr db1
                          then (db, Inl RowRefused)
                          else (link_turn (di_turn i) (ad_id d) (db1\<lparr>db_decisions := db_decisions db1 @ [dr]\<rparr>), Inr d)
                   | _ \<Rightarrow> (db, Inl BindingInvalid))))"

section \<open>Verifying a decision before its execution\<close>

definition joined_evaluator :: "action_row \<Rightarrow> action_db \<Rightarrow> evaluator_row option" where
  "joined_evaluator dr db = (case dr_evaluator dr of
     None \<Rightarrow> None | Some k \<Rightarrow> find (\<lambda>e. er_id e = k) (db_evaluators db))"

definition linked_evaluator_ok :: "evaluator_row option \<Rightarrow> action_decision \<Rightarrow> bool" where
  "linked_evaluator_ok e d \<longleftrightarrow>
     (if \<not> ad_required d then
        ad_decided_by d \<noteq> lit ''evaluator'' \<and> ad_passed d = None \<and> ad_evaluator d = None \<and> e = None
      else case ad_evaluator d of
        None \<Rightarrow> ad_decided_by d \<noteq> lit ''evaluator'' \<and> ad_passed d \<noteq> Some True \<and> e = None
      | Some k \<Rightarrow>
          if k = [] then ad_decided_by d \<noteq> lit ''evaluator'' \<and> ad_passed d \<noteq> Some True \<and> e = None
          else case e of
            None \<Rightarrow> False
          | Some r \<Rightarrow> ad_decided_by d = lit ''evaluator'' \<and> er_id r = k \<and> er_domain r = lit ''social''
              \<and> er_turn r = Some (ad_turn d) \<and> er_risk r = ad_risk d \<and> er_confidence r = ad_confidence d
              \<and> ad_passed d = Some (passing (er_decision r))
              \<and> (passing (er_decision r) \<or> list_all silent (ad_actions d)))"

definition row_matches :: "repo_env \<Rightarrow> action_row \<Rightarrow> action_decision \<Rightarrow> bool" where
  "row_matches env dr d \<longleftrightarrow> dr_id dr = ad_id d \<and> dr_turn dr = ad_turn d \<and> dr_decided_by dr = ad_decided_by d
     \<and> dr_risk dr = ad_risk d \<and> dr_confidence dr = ad_confidence d \<and> dr_required dr = ad_required d
     \<and> dr_passed dr = ad_passed d \<and> dr_evaluator dr = ad_evaluator d
     \<and> (dr_actions dr, dr_reasons dr, dr_suppressors dr) = stored_texts env d
     \<and> Some (dr_created dr) = ad_created d"

text \<open>\<open>assertExecutionBinding\<close>; \<open>None\<close> when it throws.\<close>

definition assert_binding :: "repo_env \<Rightarrow> action_decision \<Rightarrow> action_db \<Rightarrow> turn_source option" where
  "assert_binding env d db =
     (case find (\<lambda>r. dr_id r = ad_id d) (db_decisions db) of
        None \<Rightarrow> None
      | Some dr \<Rightarrow>
          (case (find_turn (dr_turn dr) db, read_authority (dr_turn dr) db) of
             (Some t, Some a) \<Rightarrow>
               let e = joined_evaluator dr db
               in if dr_binding dr = [] \<or> (case e of Some r \<Rightarrow> er_turn r = None \<or> er_requested r = None \<or> er_decided r = None | None \<Rightarrow> False)
                  then None
                  else (case execution_binding env d e a of
                          None \<Rightarrow> None
                        | Some expected \<Rightarrow>
                            if binding_equal (dr_binding dr) expected \<and> row_matches env dr d
                               \<and> tn_decision t = Some (ad_id d) \<and> linked_evaluator_ok e d
                            then Some (to_turn_source (dr_turn dr) a) else None)
           | _ \<Rightarrow> None))"

section \<open>Executions\<close>

definition create_execution :: "execution_input \<Rightarrow> jstr \<Rightarrow> int \<Rightarrow> action_db \<Rightarrow> action_db \<times> execution_row" where
  "create_execution x fresh now db =
     (let row = \<lparr>xi_decision = xi_decision x, xi_type = xi_type x, xi_status = xi_status x, xi_message = xi_message x,
                 xi_memory = xi_memory x, xi_job = xi_job x, xi_from = xi_from x,
                 xi_from_reason = map_option redact_text (xi_from_reason x),
                 xi_error = map_option (\<lambda>(c, m, b). (redact_text c, redact_text m, b)) (xi_error x),
                 xi_audit = map_option redact_text (xi_audit x), xr_id = fresh, xr_at = now\<rparr>
      in (db\<lparr>db_executions := db_executions db @ [row]\<rparr>, row))"

end
