(* ===== verification/Social_Decision.thy ===== *)
theory Social_Decision
  imports Action_Repository Attention_Engine
begin

text \<open>
  \<open>SocialDecisionService\<close> of \<open>src/actions/social-decision-service.ts\<close>: attention signals and the
  text of the model become one plan, the evaluator reviews it where it has to, cooldowns may silence
  it, and the repository stores the decision.  The evaluator is a parameter that gives back the
  request as it leaves it, and its result, or throws.
\<close>

section \<open>Inputs\<close>

record social_message =
  so_conversation :: conversation_type
  so_id :: jstr
  so_sender :: jstr
  so_group :: "jstr option"
  so_mentions :: bool
  so_role :: "jstr option"
  so_text :: "jstr option"

record social_input =
  si_turn :: jstr
  si_event :: jstr
  si_message :: social_message
  si_response :: jstr
  si_signals :: attention_signals
  si_user :: "jstr option"
  si_class :: jstr

record social_env =
  se_repo :: repo_env
  se_evaluate :: "social_request \<Rightarrow> (social_request \<times> social_result) option"
  se_request_id :: jstr
  se_requested :: int
  se_now :: int
  se_fresh :: jstr
  se_created :: int

datatype social_error =
  InvocationFailed | RequestMutated | ForeignResult | Refused evaluation_error | Repository action_error

section \<open>Texts\<close>

fun conversation_text :: "conversation_type \<Rightarrow> string" where
  "conversation_text ConvPrivate = ''private''"
| "conversation_text ConvGroup = ''group''"

fun class_text :: "classification \<Rightarrow> string" where
  "class_text Silent = ''silent''"
| "class_text Defer = ''defer''"
| "class_text NeedsResponse = ''needs_response''"
| "class_text NeedsEvaluation = ''needs_evaluation''"

fun path_text :: "attention_path \<Rightarrow> string" where
  "path_text SilentFastPath = ''silent_fast_path''"
| "path_text DelayedRecheck = ''delayed_recheck''"
| "path_text ReplyFastPath = ''reply_fast_path''"
| "path_text RiskPath = ''risk_path''"

text \<open>A score in tenths as a number in lowest terms.\<close>

definition score_number :: "nat \<Rightarrow> js_number" where
  "score_number n = (let g = gcd n 10 in if 10 dvd n then JInt (int (n div 10)) else JFrac (int (n div g)) (10 div g))"

definition signals_value :: "attention_signals \<Rightarrow> jval" where
  "signals_value s = obj [(''classification'', text_val (class_text (sig_class s))),
     (''triggerScore'', JNum (score_number (sig_score s))),
     (''triggerReasons'', JArr (map JStr (sig_triggers s))), (''suppressors'', JArr (map JStr (sig_suppressors s))),
     (''recommendedPath'', text_val (path_text (sig_path s)))]"

section \<open>The plan\<close>

definition in_private :: "social_input \<Rightarrow> bool" where
  "in_private i \<longleftrightarrow> so_conversation (si_message i) = ConvPrivate"

definition proactive_intervention :: "social_input \<Rightarrow> bool" where
  "proactive_intervention i \<longleftrightarrow> so_conversation (si_message i) = ConvGroup \<and> \<not> so_mentions (si_message i)
     \<and> lit ''reply_to_bot'' \<notin> set (sig_triggers (si_signals i))"

definition is_proactive :: "social_input \<Rightarrow> bool" where
  "is_proactive i \<longleftrightarrow> js_trim (si_response i) \<noteq> [] \<and> proactive_intervention i"

definition strong_triggers :: "jstr list" where
  "strong_triggers = map lit [''@bot'', ''reply_to_bot'', ''command'']"

definition plan_target :: "social_input \<Rightarrow> jval" where
  "plan_target i = (let m = si_message i in obj [(''conversationId'', JStr (so_id m)),
     (''conversationType'', text_val (conversation_text (so_conversation m))),
     (''userId'', if in_private i then JStr (so_sender m) else JUndefined),
     (''canonicalUserId'', if in_private i then optional (si_user i) else JUndefined),
     (''groupId'', optional (so_group m))])"

definition review_needed :: "social_input \<Rightarrow> jval" where
  "review_needed i = JBool (sig_class (si_signals i) = NeedsEvaluation \<or> is_proactive i)"

definition reply_type :: "social_input \<Rightarrow> string" where
  "reply_type i = (if in_private i then ''reply_full'' else ''reply_short'')"

definition reply_cooldown :: "social_input \<Rightarrow> int" where
  "reply_cooldown i = (let m = si_message i
     in if so_conversation m = ConvGroup \<and> \<not> list_ex (\<lambda>r. r \<in> set strong_triggers) (sig_triggers (si_signals i)) then 60 else 0)"

definition base_plan :: "social_input \<Rightarrow> jval" where
  "base_plan i =
     (let text = js_trim (si_response i); m = si_message i
      in if text = [] then
           obj [(''type'', text_val ''silent_store''), (''priority'', JNum (JInt 0)), (''target'', plan_target i),
             (''constraints'', obj [(''evaluatorRequired'', review_needed i), (''proactive'', JBool (is_proactive i))]),
             (''reason'', text_val ''Pi returned no outbound response'')]
         else
           obj [(''type'', text_val (reply_type i)), (''priority'', JNum (JInt 100)), (''target'', plan_target i),
             (''payload'', obj [(''text'', JStr text)]),
             (''constraints'', obj [(''evaluatorRequired'', review_needed i), (''proactive'', JBool (is_proactive i)),
                (''cooldownKey'', JStr (lit (conversation_text (so_conversation m)) @ lit '':'' @ so_id m @ lit '':'' @ lit (reply_type i))),
                (''cooldownSeconds'', JNum (JInt (reply_cooldown i))),
                (''maxResponseTokens'', JNum (JInt (if in_private i then 1024 else 256))),
                (''redactionLevel'', text_val (if in_private i then ''light'' else ''strict''))]),
             (''reason'', text_val ''Pi produced response text'')])"

definition build_plans :: "social_input \<Rightarrow> jval list" where
  "build_plans i = [base_plan i]"

definition suppress_plan :: "jstr \<Rightarrow> jval \<Rightarrow> jval" where
  "suppress_plan reason a = obj [(''type'', text_val ''silent_store''), (''priority'', path a [''priority'']),
     (''target'', path a [''target'']), (''constraints'', path a [''constraints'']), (''reason'', JStr reason)]"

definition requires_evaluator :: "social_input \<Rightarrow> jval list \<Rightarrow> bool" where
  "requires_evaluator i actions \<longleftrightarrow> sig_class (si_signals i) = NeedsEvaluation
     \<or> (\<exists>a \<in> set actions. truthy (constraint ''evaluatorRequired'' a))"

section \<open>The evaluation\<close>

definition text_of :: "bool \<Rightarrow> jstr" where
  "text_of b = lit (if b then ''true'' else ''false'')"

definition context_summary :: "social_input \<Rightarrow> jstr" where
  "context_summary i = (let m = si_message i in
     lit ''conversation_type='' @ lit (conversation_text (so_conversation m)) @ [10]
     @ lit ''mentions_bot='' @ text_of (so_mentions m) @ [10]
     @ lit ''sender_role='' @ (case so_role m of Some r \<Rightarrow> r | None \<Rightarrow> lit ''unknown'') @ [10]
     @ lit ''message='' @ take 500 (case so_text m of Some t \<Rightarrow> t | None \<Rightarrow> []) @ [10]
     @ lit ''proposed_response='' @ take 500 (si_response i))"

definition request_for :: "social_env \<Rightarrow> social_input \<Rightarrow> jval \<Rightarrow> social_request" where
  "request_for env i a = \<lparr>sq_id = se_request_id env, sq_domain = lit ''social'', sq_turn = si_turn i,
     sq_actor_user = si_user i, sq_actor_class = si_class i,
     sq_context = lit (if in_private i then ''private_chat'' else ''group_chat''), sq_sources = JArr [JStr (si_event i)],
     sq_summary = context_summary i, sq_created = Some (se_requested env), sq_proposed = a,
     sq_signals = signals_value (si_signals i), sq_proactive = is_proactive i\<rparr>"

definition same_request :: "social_request \<Rightarrow> social_request \<Rightarrow> bool" where
  "same_request p q \<longleftrightarrow>
     p\<lparr>sq_sources := JNull, sq_proposed := JNull, sq_signals := JNull\<rparr> = q\<lparr>sq_sources := JNull, sq_proposed := JNull, sq_signals := JNull\<rparr>
     \<and> deep_equal (sq_sources p) (sq_sources q) \<and> deep_equal (sq_proposed p) (sq_proposed q)
     \<and> deep_equal (sq_signals p) (sq_signals q)"

definition evaluate_action :: "social_env \<Rightarrow> social_input \<Rightarrow> jval list \<Rightarrow> social_error + (social_request \<times> social_result) option" where
  "evaluate_action env i actions =
     (case actions of
        [] \<Rightarrow> Inr None
      | a # _ \<Rightarrow>
          let q = request_for env i a
          in case se_evaluate env q of
               None \<Rightarrow> Inl InvocationFailed
             | Some (seen, r) \<Rightarrow>
                 if \<not> same_request seen q then Inl RequestMutated
                 else if sr_request_id r \<noteq> sq_id q then Inl ForeignResult
                 else Inr (Some (q, r)))"

definition apply_evaluation :: "jval list \<Rightarrow> social_result option \<Rightarrow> evaluation_error + jval list \<times> jstr list" where
  "apply_evaluation actions e =
     (case e of
        None \<Rightarrow> Inr (actions, [])
      | Some r \<Rightarrow>
          if sr_decision r = lit ''reject'' \<or> sr_decision r = lit ''propose''
          then Inr (map (suppress_plan (sanitize_narrative (lit ''Evaluator '' @ sr_decision r @ lit '': '' @ sr_reason r))) actions,
                    [lit ''evaluator_'' @ sr_decision r])
          else apply_passing actions r)"

section \<open>The decision\<close>

definition base_reasons :: "social_input \<Rightarrow> jstr list" where
  "base_reasons i = sig_triggers (si_signals i)
     @ [lit (if js_trim (si_response i) \<noteq> [] then ''pi_response_text'' else ''pi_empty_response'')]"

definition failure_input :: "social_input \<Rightarrow> jval list \<Rightarrow> decision_input" where
  "failure_input i actions = \<lparr>di_id = None, di_turn = si_turn i, di_decided_by = lit ''pi'',
     di_actions = map (suppress_plan (lit ''Evaluator review failed; governed action suppressed'')) actions,
     di_risk = lit ''medium'', di_confidence = score_number (sig_score (si_signals i)),
     di_reasons = base_reasons i @ [lit ''evaluator_failure''],
     di_suppressors = sig_suppressors (si_signals i) @ [lit ''evaluator_terminal_failure''],
     di_required = True, di_passed = Some False, di_evidence = None, di_created = None\<rparr>"

definition decided_input ::
  "social_input \<Rightarrow> bool \<Rightarrow> (social_request \<times> social_result) option \<Rightarrow> jval list \<Rightarrow> jstr list \<Rightarrow> decision_input" where
  "decided_input i required ev actions suppressors =
     (let r = map_option snd ev
      in \<lparr>di_id = None, di_turn = si_turn i, di_decided_by = lit (if ev = None then ''pi'' else ''evaluator''),
          di_actions = actions,
          di_risk = (case r of Some e \<Rightarrow> sr_risk e | None \<Rightarrow> lit (if required then ''medium'' else ''low'')),
          di_confidence = (case r of Some e \<Rightarrow> sr_confidence e | None \<Rightarrow> score_number (sig_score (si_signals i))),
          di_reasons = (case r of Some e \<Rightarrow> base_reasons i @ [sanitize_narrative (lit ''evaluator:'' @ sr_reason e)]
                        | None \<Rightarrow> base_reasons i),
          di_suppressors = suppressors, di_required = required,
          di_passed = map_option (\<lambda>e. passing (sr_decision e)) r, di_evidence = ev, di_created = None\<rparr>)"

definition store_decision ::
  "social_env \<Rightarrow> decision_input \<Rightarrow> action_db \<Rightarrow> action_db \<times> (social_error + action_decision)" where
  "store_decision env d db =
     (case create_decision (se_repo env) d (se_fresh env) (se_created env) db of
        (db', Inl e) \<Rightarrow> (db', Inl (Repository e))
      | (db', Inr x) \<Rightarrow> (db', Inr x))"

definition clean_evidence :: "social_request \<times> social_result \<Rightarrow> social_request \<times> social_result" where
  "clean_evidence = (\<lambda>(q, r). (q, r\<lparr>sr_reason := sanitize_narrative (sr_reason r)\<rparr>))"

text \<open>The cooldowns change although the repository may then refuse the decision.\<close>

definition social_decision ::
  "social_env \<Rightarrow> social_input \<Rightarrow> cooldowns \<Rightarrow> action_db \<Rightarrow> cooldowns \<times> action_db \<times> (social_error + action_decision)" where
  "social_decision env i cds db =
     (let base = build_plans i; required = requires_evaluator i base
      in case (if required then evaluate_action env i base else Inr None) of
           Inl InvocationFailed \<Rightarrow> (cds, store_decision env (failure_input i base) db)
         | Inl e \<Rightarrow> (cds, db, Inl e)
         | Inr raw \<Rightarrow>
             let ev = map_option clean_evidence raw
             in case apply_evaluation base (map_option snd ev) of
                  Inl e \<Rightarrow> (cds, db, Inl (Refused e))
                | Inr (evaluated, reviewed) \<Rightarrow>
                    (case apply_cooldowns (se_now env) evaluated cds of
                       (cds', cooled, spaced) \<Rightarrow>
                         (cds', store_decision env
                            (decided_input i required ev cooled (sig_suppressors (si_signals i) @ reviewed @ spaced)) db)))"

end
