(* ===== verification/Social_Facts.thy ===== *)
theory Social_Facts
  imports Social_Decision
begin

text \<open>
  Well-formed plans, as \<open>src/types/action.ts\<close> types them, with numbers that are finite because they
  come from JSON, and their preservation by everything the decision service does to a plan.
\<close>

section \<open>Well-formed plans\<close>

definition action_types :: "jstr list" where
  "action_types = map lit [''silent_store'', ''silent_summarize_later'', ''reply_short'', ''reply_full'', ''reply_with_tool'',
     ''propose_memory'', ''admin_digest'', ''schedule_background_task'', ''dm_user'', ''react_only'', ''send_folded_forward'',
     ''ask_clarification'']"

fun is_text :: "jval \<Rightarrow> bool" where
  "is_text (JStr s) = True"
| "is_text v = False"

fun is_number :: "jval \<Rightarrow> bool" where
  "is_number (JNum n) = is_finite n"
| "is_number v = False"

fun is_flag :: "jval \<Rightarrow> bool" where
  "is_flag (JBool b) = True"
| "is_flag v = False"

fun is_texts :: "jval \<Rightarrow> bool" where
  "is_texts (JArr vs) = list_all is_text vs"
| "is_texts v = False"

definition opt :: "(jval \<Rightarrow> bool) \<Rightarrow> jval \<Rightarrow> bool" where
  "opt p v \<longleftrightarrow> v = JUndefined \<or> p v"

definition one_of :: "string list \<Rightarrow> jval \<Rightarrow> bool" where
  "one_of ss v \<longleftrightarrow> v \<in> set (map text_val ss)"

definition target_ok :: "jval \<Rightarrow> bool" where
  "target_ok t \<longleftrightarrow> is_record t \<and> is_text (path t [''conversationId'']) \<and> one_of [''private'', ''group''] (path t [''conversationType''])
     \<and> opt is_text (path t [''userId'']) \<and> opt is_text (path t [''canonicalUserId'']) \<and> opt is_text (path t [''groupId''])"

definition payload_ok :: "jval \<Rightarrow> bool" where
  "payload_ok p \<longleftrightarrow> is_record p \<and> opt is_text (path p [''text'']) \<and> opt is_text (path p [''reaction''])
     \<and> opt is_text (path p [''messageId'']) \<and> opt is_record (path p [''toolCall'']) \<and> opt is_record (path p [''memoryProposal''])
     \<and> opt is_record (path p [''backgroundTask''])"

definition constraints_ok :: "jval \<Rightarrow> bool" where
  "constraints_ok c \<longleftrightarrow> is_record c \<and> opt is_flag (path c [''evaluatorRequired'']) \<and> opt is_text (path c [''cooldownKey''])
     \<and> opt is_number (path c [''cooldownSeconds'']) \<and> opt is_number (path c [''maxResponseTokens''])
     \<and> opt (one_of [''none'', ''light'', ''strict'']) (path c [''redactionLevel'']) \<and> opt is_texts (path c [''capabilities''])
     \<and> opt is_flag (path c [''proactive''])
     \<and> opt (one_of [''user_requested'', ''tool_result'', ''memory_review'', ''safety_or_privacy'', ''reminder''])
         (path c [''proactiveTrigger''])"

definition plan_ok :: "jval \<Rightarrow> bool" where
  "plan_ok a \<longleftrightarrow> is_record a \<and> proper a \<and> plan_type a \<in> JStr ` set action_types \<and> is_number (path a [''priority''])
     \<and> opt target_ok (path a [''target'']) \<and> opt payload_ok (path a [''payload'']) \<and> constraints_ok (path a [''constraints''])
     \<and> is_text (path a [''reason''])"

definition downgrade_ok :: "jval \<Rightarrow> bool" where
  "downgrade_ok v \<longleftrightarrow> is_record v \<and> proper v \<and> path v [''to''] \<in> JStr ` set action_types \<and> is_text (path v [''reason''])"

definition social_outcomes :: "jstr list" where
  "social_outcomes = map lit [''approve'', ''reject'', ''downgrade'', ''propose'']"

definition result_ok :: "social_result \<Rightarrow> bool" where
  "result_ok r \<longleftrightarrow> sr_domain r = lit ''social'' \<and> sr_decision r \<in> set social_outcomes
     \<and> opt plan_ok (sr_modified r) \<and> opt downgrade_ok (sr_downgrade r) \<and> opt is_number (sr_cooldown r)"

named_theorems plan_parts

lemma opt_undefined [simp]: "opt p JUndefined"
  by (simp add: opt_def)

lemma opt_known [simp]: "opt is_text (JStr s)" "opt is_flag (JBool b)"
  by (simp_all add: opt_def)

lemma proper_obj [simp]: "proper (obj fs) \<longleftrightarrow> distinct (map fst fs) \<and> (\<forall>p \<in> set fs. proper (snd p))"
proof -
  have "map fst (map (\<lambda>(k, v). (lit k, v)) fs) = map lit (map fst fs)" by (induction fs) auto
  moreover have "distinct (map lit (map fst fs)) = distinct (map fst fs)"
    by (rule distinct_map [THEN trans]) (simp add: inj_on_def)
  ultimately have "distinct (map fst (map (\<lambda>(k, v). (lit k, v)) fs)) = distinct (map fst fs)" by (simp only:)
  moreover have "(\<forall>p \<in> set (map (\<lambda>(k, v). (lit k, v)) fs). proper (snd p)) = (\<forall>p \<in> set fs. proper (snd p))" by auto
  ultimately show ?thesis unfolding obj_def proper.simps by (simp only:)
qed

lemma record_obj [simp]: "is_record (obj fs)" and record_put [simp]: "is_record (put_field k w v)"
  by (simp_all add: obj_def put_field_def)

lemma proper_leaf [simp]: "proper (text_val s)" "proper (optional t)"
  by (cases t; simp add: text_val_def)+

lemma is_text_val [simp]: "is_text (text_val s)" and opt_optional [simp]: "opt is_text (optional t)"
  by (cases t; simp add: text_val_def)+

lemma one_of_text [simp]: "one_of ss (text_val s) \<longleftrightarrow> s \<in> set ss"
  by (auto simp: one_of_def)

lemma plan_type_text [simp]: "text_val s \<in> JStr ` set action_types \<longleftrightarrow> s \<in> set [''silent_store'', ''silent_summarize_later'',
    ''reply_short'', ''reply_full'', ''reply_with_tool'', ''propose_memory'', ''admin_digest'', ''schedule_background_task'', ''dm_user'',
    ''react_only'', ''send_folded_forward'', ''ask_clarification'']"
  unfolding action_types_def by (rule text_val_member)

section \<open>The base plan and its suppression\<close>

lemma target_well_formed: "target_ok (plan_target i) \<and> proper (plan_target i)"
  by (cases "so_conversation (si_message i)") (simp_all add: target_ok_def plan_target_def Let_def)

lemma base_plan_ok: "plan_ok (base_plan i)"
proof -
  have t: "opt target_ok (plan_target i)" "proper (plan_target i)" using target_well_formed [of i] by (simp_all add: opt_def)
  have "\<exists>b. review_needed i = JBool b" by (simp add: review_needed_def)
  then obtain b where b: "review_needed i = JBool b" by blast
  have n: "opt is_number (JNum (JInt k))" for k by (simp add: opt_def)
  have lv: "opt (one_of [''none'', ''light'', ''strict'']) (text_val (if in_private i then ''light'' else ''strict''))"
    by (simp add: opt_def)
  have ty: "text_val (reply_type i) \<in> JStr ` set action_types" by (simp add: reply_type_def)
  have p: "opt payload_ok (obj [(''text'', JStr x)])" for x by (simp add: opt_def payload_ok_def)
  show ?thesis
    unfolding base_plan_def Let_def
    using t ty b n lv p by (simp add: plan_ok_def plan_type_def constraints_ok_def)
qed

lemma suppressed_ok: "plan_ok a \<Longrightarrow> plan_ok (suppress_plan r a)"
proof -
  assume a: "plan_ok a"
  then have "proper (path a [k])" for k using proper_path unfolding plan_ok_def by blast
  with a show ?thesis by (simp add: plan_ok_def suppress_plan_def plan_type_def)
qed

lemma suppressed_silent: "silent (suppress_plan r a)"
  by (simp add: silent_def plan_type_def suppress_plan_def)

section \<open>Evaluations\<close>

lemma number_of_opt: "opt is_number v \<Longrightarrow> v \<noteq> JUndefined \<Longrightarrow> is_finite (number_of v)"
  by (cases v) (simp_all add: opt_def)

lemma optional_number_ok:
  assumes "opt is_number l" "opt is_number r"
  shows "opt is_number (optional_number js_max l r)" "opt is_number (optional_number js_min l r)"
proof -
  have "is_finite (js_max m n)" "is_finite (js_min m n)" if "is_finite m" "is_finite n" for m n
    using that by (auto simp: js_max_def js_min_def)
  with assms number_of_opt [OF assms(1)] number_of_opt [OF assms(2)]
  show "opt is_number (optional_number js_max l r)" "opt is_number (optional_number js_min l r)"
    by (auto simp: optional_number_def opt_def)
qed

lemma strictest_ok: "opt (one_of L) l \<Longrightarrow> opt (one_of L) r \<Longrightarrow> opt (one_of L) (strictest_redaction l r)"
  by (auto simp: strictest_redaction_def split: option.splits)

lemma capabilities_ok: "opt is_texts l \<Longrightarrow> opt is_texts r \<Longrightarrow> opt is_texts (merge_capabilities l r)"
proof -
  assume l: "opt is_texts l" and r: "opt is_texts r"
  have "list_all is_text (items v)" if "opt is_texts v" for v
    using that by (cases v) (simp_all add: opt_def)
  with l r have "\<forall>v \<in> set (items l @ items r). is_text v" by (fastforce simp: list_all_iff)
  then show ?thesis by (auto simp: merge_capabilities_def Let_def opt_def list_all_iff)
qed

lemma proper_optional_number: "proper l \<Longrightarrow> proper r \<Longrightarrow> proper (optional_number f l r)"
  by (simp add: optional_number_def)

lemma proper_strictest: "proper l \<Longrightarrow> proper r \<Longrightarrow> proper (strictest_redaction l r)"
  by (auto simp: strictest_redaction_def split: option.splits)

lemma proper_capabilities: "proper l \<Longrightarrow> proper r \<Longrightarrow> proper (merge_capabilities l r)"
proof -
  assume "proper l" "proper r"
  moreover have "\<forall>v \<in> set (items v). proper v" if "proper v" for v using that by (cases v) auto
  ultimately show ?thesis by (auto simp: merge_capabilities_def Let_def)
qed

lemma anchored_constraints_ok:
  assumes "constraints_ok b" "constraints_ok m" "proper b" "proper m"
  shows "constraints_ok (anchor_constraints b m) \<and> proper (anchor_constraints b m)"
proof
  have p: "proper (path b [k])" "proper (path m [k])" for k using proper_path assms(3,4) by blast+
  have e: "opt is_flag (either_true l r)" "proper (either_true l r)" for l r by (simp_all add: either_true_def)
  show "constraints_ok (anchor_constraints b m)"
    using assms(1,2) unfolding constraints_ok_def anchor_constraints_def
    by (simp add: e optional_number_ok strictest_ok capabilities_ok)
  show "proper (anchor_constraints b m)"
    unfolding anchor_constraints_def using p assms(4)
    by (intro proper_put proper_optional_number proper_strictest proper_capabilities e) simp_all
qed

lemma anchored_ok: "plan_ok b \<Longrightarrow> plan_ok m \<Longrightarrow> plan_ok (anchor_modified (Some b) m)"
proof -
  assume b: "plan_ok b" and m: "plan_ok m"
  have p: "proper (path b [k])" "proper (path m [k])" for k using b m proper_path unfolding plan_ok_def by blast+
  have "constraints_ok (anchor_constraints (path b [''constraints'']) (path m [''constraints'']))
      \<and> proper (anchor_constraints (path b [''constraints'']) (path m [''constraints'']))"
    using b m p by (intro anchored_constraints_ok) (simp_all add: plan_ok_def)
  with b m p show ?thesis
    by (simp add: plan_ok_def anchor_modified_def plan_type_def proper_put)
qed

lemma downgraded_ok: "plan_ok a \<Longrightarrow> downgrade_ok (sr_downgrade r) \<Longrightarrow> opt is_number (sr_cooldown r) \<Longrightarrow> plan_ok (downgrade_one r a)"
proof -
  assume a: "plan_ok a" and d: "downgrade_ok (sr_downgrade r)" and n: "opt is_number (sr_cooldown r)"
  let ?c = "put_field ''cooldownSeconds'' (optional_number js_max (constraint ''cooldownSeconds'' a) (sr_cooldown r)) (path a [''constraints''])"
  have p: "proper (path a ks)" "proper (path (sr_downgrade r) ks)" for ks
    using a d proper_path unfolding plan_ok_def downgrade_ok_def by blast+
  have s: "opt is_number (constraint ''cooldownSeconds'' a)" using a by (simp add: plan_ok_def constraints_ok_def constraint_def)
  have "proper (sr_cooldown r)" using n by (cases "sr_cooldown r") (simp_all add: opt_def)
  then have c: "constraints_ok ?c" "proper ?c"
    using a p(1) [of "[''constraints'']"] p(1) [of "[''constraints'', ''cooldownSeconds'']"] optional_number_ok(1) [OF s n]
    by (simp_all add: plan_ok_def constraints_ok_def constraint_def proper_put proper_optional_number)
  show ?thesis
  proof (cases "plan_type a = path (sr_downgrade r) [''from'']")
    case True
    have "proper (path (sr_downgrade r) [''reason''])" "proper (path (sr_downgrade r) [''to''])" "proper a"
      using p(1) [of "[]"] p(2) by (simp_all del: path.simps) (simp add: path.simps)
    with c have "proper (downgrade_one r a)" by (simp add: downgrade_one_def proper_put)
    with True show ?thesis using a d c
      by (simp add: downgrade_one_def plan_ok_def plan_type_def downgrade_ok_def)
  qed (simp add: downgrade_one_def a)
qed

lemma truthy_undefined [simp]: "\<not> truthy JUndefined"
  by (simp add: truthy_def)

lemma passed_ok:
  assumes "apply_passing as r = Inr (bs, ss)" and "\<forall>a \<in> set as. plan_ok a" and "result_ok r" and "as \<noteq> []"
  shows "\<forall>b \<in> set bs. plan_ok b"
proof (cases "sr_decision r = lit ''downgrade''")
  case True
  with assms(1) have bs: "bs = map (downgrade_one r) as" and t: "truthy (sr_downgrade r)"
    by (auto simp: apply_passing_def split: if_splits)
  from t assms(3) have "downgrade_ok (sr_downgrade r)" by (auto simp: result_ok_def opt_def)
  with assms(2,3) show ?thesis unfolding bs using downgraded_ok by (auto simp: result_ok_def)
next
  case False
  obtain a as' where as: "as = a # as'" using assms(4) by (cases as) auto
  show ?thesis
  proof (cases "truthy (sr_modified r)")
    case True
    with assms(3) have "plan_ok (sr_modified r)" by (auto simp: result_ok_def opt_def)
    then show ?thesis using assms(1,2) False True as anchored_ok by (auto simp: apply_passing_def)
  qed (use assms(1,2) False in \<open>auto simp: apply_passing_def\<close>)
qed

lemma evaluated_ok:
  assumes "apply_evaluation as e = Inr (bs, ss)" and "\<forall>a \<in> set as. plan_ok a" and "\<And>r. e = Some r \<Longrightarrow> result_ok r" and "as \<noteq> []"
  shows "\<forall>b \<in> set bs. plan_ok b"
  using assms passed_ok suppressed_ok by (fastforce simp: apply_evaluation_def split: option.splits if_splits)

section \<open>Cooldowns and the claim guard\<close>

lemma cooled_ok: "plan_ok a \<Longrightarrow> plan_ok (to_silent_store a e)"
proof -
  assume a: "plan_ok a"
  have p: "proper (path a ks)" for ks using a proper_path unfolding plan_ok_def by blast
  have "constraints_ok (put_field ''cooldownKey'' (constraint ''cooldownKey'' a) (path a [''constraints'']))
      \<and> proper (put_field ''cooldownKey'' (constraint ''cooldownKey'' a) (path a [''constraints'']))"
    using a p [of "[''constraints'']"] p [of "[''constraints'', ''cooldownKey'']"]
    by (simp add: plan_ok_def constraints_ok_def constraint_def proper_put)
  with a p [of "[_]"] show ?thesis by (simp add: to_silent_store_def plan_ok_def plan_type_def)
qed

lemma cool_one_ok: "plan_ok a \<Longrightarrow> cool_one now a e = (e', b, s) \<Longrightarrow> plan_ok b"
  by (auto simp: cool_one_def Let_def cooled_ok split: if_splits option.splits)

lemma cooled_plans_ok: "\<forall>a \<in> set as. plan_ok a \<Longrightarrow> apply_cooldowns now as e = (e', bs, s) \<Longrightarrow> \<forall>b \<in> set bs. plan_ok b"
proof (induction as arbitrary: e e' bs s)
  case (Cons a as)
  then show ?case by (auto split: prod.splits dest: cool_one_ok)
qed simp

lemma guarded_ok: "plan_ok a \<Longrightarrow> plan_ok (fst (guard_one env a))"
proof -
  assume a: "plan_ok a"
  show ?thesis
  proof (cases "guarded_field a")
    case (Some p)
    obtain f s where p: "p = (f, s)" by (cases p)
    have f: "f = ''reaction'' \<or> f = ''text''" and s: "path a [''payload'', f] = JStr s"
      using Some p by (auto simp: guarded_field_def Let_def split: if_splits jval.splits)
    have "path a [''payload''] \<noteq> JUndefined" using s by auto
    with a have ok: "payload_ok (path a [''payload''])" "proper (path a [''payload''])"
      using proper_path [of a "[''payload'']"] by (auto simp: plan_ok_def opt_def)
    then have "opt payload_ok (put_field f (JStr t) (path a [''payload'']))" "proper (put_field f (JStr t) (path a [''payload'']))" for t
      using f by (auto simp: payload_ok_def opt_def proper_put)
    with a show ?thesis using Some p by (simp add: guard_one_def plan_ok_def plan_type_def proper_put)
  qed (simp add: guard_one_def a)
qed

lemma guarded_plans_ok: "\<forall>a \<in> set as. plan_ok a \<Longrightarrow> \<forall>b \<in> set (fst (guard_claims env as)). plan_ok b"
  by (auto simp: guard_claims_def guarded_ok)

end
