(* ===== verification/Action_Executor.thy ===== *)
theory Action_Executor
  imports Action_Repository
begin

text \<open>
  \<open>ActionExecutor\<close> of \<open>src/actions/executor.ts\<close>: a verified decision is turned into effects, one
  execution row per action.  The effects act on a world: the gateway, the job queue, the group
  summary service, the memory repository and the privacy preferences are operations of the
  environment on that world, and an operation that is not configured is absent.  A failed operation
  gives the text of its error.
\<close>

section \<open>The environment\<close>

record job_request =
  jr_type :: jstr
  jr_payload :: jval
  jr_key :: jstr
  jr_scheduled :: "js_number option"
  jr_max :: "int option"

record summary_request =
  sm_conversation :: jval
  sm_group :: jval
  sm_payload :: jval
  sm_key :: jstr
  sm_scheduled :: "js_number option"
  sm_max :: "int option"

record summary_failure =
  sf_code :: "jstr option"
  sf_message :: "jstr option"

record memory_proposal =
  mp_scope :: jstr
  mp_user :: "jstr option"
  mp_group :: jval
  mp_conversation :: jval
  mp_visibility :: jstr
  mp_kind :: jstr
  mp_title :: jstr
  mp_content :: jstr
  mp_confidence :: js_number
  mp_importance :: js_number

record memory_request =
  mq_proposal :: memory_proposal
  mq_evaluator :: "jstr option"
  mq_trigger :: jstr
  mq_extracted_by :: jstr
  mq_actor_class :: jstr
  mq_reason :: jstr

datatype memory_failure = PolicyRejected | CreateFailed jstr

record 'w exec_env =
  xe_repo :: repo_env
  xe_send :: "jval \<Rightarrow> jstr \<Rightarrow> 'w \<Rightarrow> 'w \<times> (jstr + jstr)"
  xe_react :: "(jstr \<Rightarrow> jstr \<Rightarrow> 'w \<Rightarrow> 'w \<times> jstr option) option"
  xe_emoji :: bool
  xe_face :: bool
  xe_opted :: "(jstr \<Rightarrow> jstr \<Rightarrow> 'w \<Rightarrow> bool) option"
  xe_enqueue :: "(job_request \<Rightarrow> 'w \<Rightarrow> 'w \<times> (jstr + jstr)) option"
  xe_summary :: "(summary_request \<Rightarrow> 'w \<Rightarrow> 'w \<times> (summary_failure + jstr)) option"
  xe_memory :: "(memory_request \<Rightarrow> 'w \<Rightarrow> 'w \<times> (memory_failure + jstr)) option"
  xe_now :: int
  xe_id :: "nat \<Rightarrow> jstr"
  xe_clock :: "nat \<Rightarrow> int"

section \<open>Reading a plan\<close>

definition plan_reason :: "jval \<Rightarrow> jstr" where
  "plan_reason a = string_of (path a [''reason''])"

fun trimmed :: "jval \<Rightarrow> jstr" where
  "trimmed (JStr s) = js_trim s"
| "trimmed v = []"

definition non_empty :: "jval \<Rightarrow> jval" where
  "non_empty v = (if trimmed v = [] then JUndefined else JStr (trimmed v))"

definition target :: "string \<Rightarrow> jval \<Rightarrow> jval" where
  "target k a = path a [''target'', k]"

definition unit_value :: "jval \<Rightarrow> js_number option" where
  "unit_value v = (case v of JNum n \<Rightarrow> if unit_number n then Some n else None | _ \<Rightarrow> None)"

section \<open>Results\<close>

definition executed_as :: "action_decision \<Rightarrow> jval \<Rightarrow> string \<Rightarrow> jstr \<Rightarrow> execution_input" where
  "executed_as d a status audit = \<lparr>xi_decision = ad_id d, xi_type = string_of (plan_type a), xi_status = lit status,
     xi_message = None, xi_memory = None, xi_job = None, xi_from = None, xi_from_reason = None, xi_error = None,
     xi_audit = Some audit\<rparr>"

definition refused :: "action_decision \<Rightarrow> jval \<Rightarrow> string \<Rightarrow> jstr \<Rightarrow> bool \<Rightarrow> jstr \<Rightarrow> execution_input" where
  "refused d a code message recoverable audit =
     (executed_as d a ''rejected'' audit)\<lparr>xi_error := Some (lit code, message, recoverable)\<rparr>"

definition failed :: "action_decision \<Rightarrow> jval \<Rightarrow> string \<Rightarrow> jstr \<Rightarrow> jstr \<Rightarrow> execution_input" where
  "failed d a code message audit =
     (executed_as d a ''failed'' audit)\<lparr>xi_error := Some (lit code, redact_text message, True)\<rparr>"

section \<open>Messages\<close>

definition execute_reply :: "'w exec_env \<Rightarrow> action_decision \<Rightarrow> jval \<Rightarrow> 'w \<Rightarrow> 'w \<times> execution_input" where
  "execute_reply env d a w =
     (let t = path a [''target'']; text = trimmed (path a [''payload'', ''text''])
      in if \<not> truthy t \<or> text = []
         then (w, refused d a ''INVALID_REPLY_ACTION'' (lit ''Reply action requires target and non-empty text'') False (plan_reason a))
         else (case xe_send env t text w of
                 (w', Inr m) \<Rightarrow> (w', (executed_as d a ''success'' (plan_reason a))\<lparr>xi_message := Some m\<rparr>)
               | (w', Inl e) \<Rightarrow> (w', failed d a ''SEND_MESSAGE_FAILED'' e (plan_reason a))))"

datatype dm_status = NotChecked | MissingCanonicalUser | CheckedNotOptedOut | OptedOut

fun dm_text :: "dm_status \<Rightarrow> jstr" where
  "dm_text NotChecked = lit ''not_checked''"
| "dm_text MissingCanonicalUser = lit ''missing_canonical_user''"
| "dm_text CheckedNotOptedOut = lit ''checked_not_opted_out''"
| "dm_text OptedOut = lit ''opted_out''"

definition text_or :: "string \<Rightarrow> jval \<Rightarrow> jstr" where
  "text_or s v = (if nullish v then lit s else string_of v)"

definition dm_audit :: "jval \<Rightarrow> dm_status \<Rightarrow> jstr" where
  "dm_audit a st =
     redact_text (plan_reason a)
     @ lit ''; dm_proactive='' @ lit (if constraint ''proactive'' a = JBool True then ''true'' else ''false'')
     @ lit ''; dm_trigger='' @ text_or ''unspecified'' (constraint ''proactiveTrigger'' a)
     @ lit ''; dm_opt_out='' @ dm_text st
     @ lit ''; dm_redaction_level='' @ text_or ''default'' (constraint ''redactionLevel'' a)
     @ lit ''; dm_cooldown_key='' @ (if truthy (constraint ''cooldownKey'' a)
          then redact_text (string_of (constraint ''cooldownKey'' a)) else lit ''none'')"

definition send_dm :: "'w exec_env \<Rightarrow> action_decision \<Rightarrow> jval \<Rightarrow> dm_status \<Rightarrow> 'w \<Rightarrow> 'w \<times> execution_input" where
  "send_dm env d a st w =
     (case xe_send env (obj [(''conversationId'', target ''conversationId'' a), (''conversationType'', text_val ''private''),
                             (''userId'', target ''userId'' a)]) (trimmed (path a [''payload'', ''text''])) w of
        (w', Inr m) \<Rightarrow> (w', (executed_as d a ''success'' (dm_audit a st))\<lparr>xi_message := Some m\<rparr>)
      | (w', Inl e) \<Rightarrow> (w', failed d a ''SEND_DM_FAILED'' e (dm_audit a st)))"

definition execute_dm :: "'w exec_env \<Rightarrow> action_decision \<Rightarrow> jval \<Rightarrow> 'w \<Rightarrow> 'w \<times> execution_input" where
  "execute_dm env d a w =
     (if \<not> truthy (target ''userId'' a) \<or> trimmed (path a [''payload'', ''text'']) = []
      then (w, refused d a ''INVALID_DM_ACTION'' (lit ''dm_user action requires target.userId and non-empty text'') False
             (dm_audit a NotChecked))
      else case (if constraint ''proactive'' a = JBool True then xe_opted env else None) of
             None \<Rightarrow> send_dm env d a NotChecked w
           | Some opted \<Rightarrow>
               if \<not> truthy (target ''canonicalUserId'' a)
               then (w, refused d a ''PROACTIVE_DM_CANONICAL_USER_REQUIRED''
                      (lit ''Proactive DM action requires target.canonicalUserId for opt-out enforcement'') False
                      (dm_audit a MissingCanonicalUser))
               else if opted (string_of (target ''canonicalUserId'' a)) (lit ''proactive_dm'') w
               then (w, refused d a ''PROACTIVE_DM_OPT_OUT'' (lit ''User has opted out of proactive DMs'') False
                      (dm_audit a OptedOut @ lit ''; proactive_dm_opt_out=true''))
               else send_dm env d a CheckedNotOptedOut w)"

definition downgraded :: "action_decision \<Rightarrow> jval \<Rightarrow> string \<Rightarrow> string \<Rightarrow> jstr option \<Rightarrow> jstr \<Rightarrow> execution_input" where
  "downgraded d a from why m audit =
     (executed_as d a ''downgraded'' audit)\<lparr>xi_message := m, xi_from := Some (lit from), xi_from_reason := Some (lit why)\<rparr>"

definition reaction_fallback :: "'w exec_env \<Rightarrow> action_decision \<Rightarrow> jval \<Rightarrow> jstr \<Rightarrow> 'w \<Rightarrow> 'w \<times> execution_input" where
  "reaction_fallback env d a reaction w =
     (if xe_face env \<and> truthy (path a [''target''])
      then (case xe_send env (path a [''target'']) reaction w of
              (w', Inr m) \<Rightarrow> (w', downgraded d a ''react_only''
                 ''Gateway emoji-like reaction unavailable or failed; sent face-message fallback'' (Some m)
                 (plan_reason a @ lit ''; face_message_fallback=true''))
            | (w', Inl e) \<Rightarrow> (w', failed d a ''SEND_REACTION_FALLBACK_FAILED'' e (plan_reason a)))
      else (w, downgraded d a ''react_only''
             ''Gateway reaction and face-message fallback unavailable; stored silently'' None
             (plan_reason a @ lit ''; silent_reaction_fallback=true'')))"

definition execute_reaction :: "'w exec_env \<Rightarrow> action_decision \<Rightarrow> jval \<Rightarrow> 'w \<Rightarrow> 'w \<times> execution_input" where
  "execute_reaction env d a w =
     (let reaction = trimmed (path a [''payload'', ''reaction'']); message = trimmed (path a [''payload'', ''messageId''])
      in if reaction = [] \<or> message = []
         then (w, refused d a ''INVALID_REACTION_ACTION''
                (lit ''react_only action requires payload.reaction and payload.messageId'') False (plan_reason a))
         else case (if xe_emoji env then xe_react env else None) of
                None \<Rightarrow> reaction_fallback env d a reaction w
              | Some react \<Rightarrow>
                  (case react message reaction w of
                     (w', None) \<Rightarrow> (w', executed_as d a ''success'' (plan_reason a @ lit ''; gateway_reaction=true''))
                   | (w', Some e) \<Rightarrow>
                       if \<not> xe_face env \<or> \<not> truthy (path a [''target''])
                       then (w', failed d a ''SEND_REACTION_FAILED'' e (plan_reason a))
                       else reaction_fallback env d a reaction w'))"

definition execute_folded_forward :: "'w exec_env \<Rightarrow> action_decision \<Rightarrow> jval \<Rightarrow> 'w \<Rightarrow> 'w \<times> execution_input" where
  "execute_folded_forward env d a w =
     (let t = path a [''target'']; text = trimmed (path a [''payload'', ''text''])
      in if truthy t \<and> text \<noteq> []
         then (case xe_send env t text w of
                 (w', Inr m) \<Rightarrow> (w', downgraded d a ''send_folded_forward''
                    ''Folded-forward delivery is not wired; sent text fallback'' (Some m)
                    (plan_reason a @ lit ''; folded_forward_text_fallback=true''))
               | (w', Inl e) \<Rightarrow> (w', failed d a ''SEND_FOLDED_FORWARD_FALLBACK_FAILED'' e (plan_reason a)))
         else (w, downgraded d a ''send_folded_forward''
                (if text \<noteq> [] then ''Folded-forward delivery is not wired and no fallback target was provided; stored silently''
                 else ''Folded-forward delivery is not wired and no fallback text was provided; stored silently'')
                None (plan_reason a @ lit ''; silent_folded_forward_fallback=true'')))"

section \<open>Jobs\<close>

definition enqueue_action ::
  "'w exec_env \<Rightarrow> action_decision \<Rightarrow> jval \<Rightarrow> job_request \<Rightarrow> string \<Rightarrow> string \<Rightarrow> string \<Rightarrow> 'w \<Rightarrow> 'w \<times> execution_input" where
  "enqueue_action env d a r kind note code w =
     (case xe_enqueue env of
        None \<Rightarrow> (w, refused d a ''BACKGROUND_JOB_REPOSITORY_NOT_CONFIGURED''
                  (lit kind @ lit '' action requires a durable job repository'') True (plan_reason a))
      | Some enq \<Rightarrow>
          (case enq r w of
             (w', Inr j) \<Rightarrow> (w', (executed_as d a ''success'' (redact_text (plan_reason a) @ lit ''; '' @ lit note @ lit ''=true''))
                                  \<lparr>xi_job := Some j\<rparr>)
           | (w', Inl e) \<Rightarrow> (w', failed d a code e (plan_reason a))))"

definition suffix_text :: "jstr option \<Rightarrow> jstr" where
  "suffix_text s = (case s of None \<Rightarrow> [] | Some t \<Rightarrow> t)"

definition digest_window :: int where
  "digest_window = 24 * 60 * 60 * 1000"

definition digest_key :: "action_decision \<Rightarrow> jstr option \<Rightarrow> jstr" where
  "digest_key d s = lit ''action:admin_digest:'' @ ad_id d @ suffix_text s"

definition execute_admin_digest ::
  "'w exec_env \<Rightarrow> action_decision \<Rightarrow> jval \<Rightarrow> jstr option \<Rightarrow> 'w \<Rightarrow> 'w \<times> execution_input" where
  "execute_admin_digest env d a sx =
     enqueue_action env d a \<lparr>jr_type = lit ''admin_digest'',
       jr_payload = obj [(''source'', text_val ''action_executor''), (''actionDecisionId'', JStr (ad_id d)),
         (''actionType'', plan_type a), (''conversationType'', target ''conversationType'' a),
         (''sinceMs'', JNum (JInt (xe_now env - digest_window))), (''nowMs'', JNum (JInt (xe_now env))),
         (''reasonSummary'', JStr (redact_text (plan_reason a)))],
       jr_key = digest_key d sx, jr_scheduled = None, jr_max = Some 2\<rparr>
     ''admin_digest'' ''admin_digest_job_scheduled'' ''SCHEDULE_ADMIN_DIGEST_FAILED''"

subsection \<open>Group summaries\<close>

definition group_target_error :: "jval \<Rightarrow> jval \<Rightarrow> jstr option" where
  "group_target_error t payload =
     (let c = path t [''conversationId'']; g = path t [''groupId'']
      in if path t [''conversationType''] \<noteq> text_val ''group'' \<or> non_empty c \<noteq> c \<or> g = JUndefined \<or> non_empty g \<noteq> g
         then Some (lit ''Group summaries require an exact non-empty group and conversation target'')
         else if \<not> is_record payload then None
         else map_option (\<lambda>(k, v). lit ''Group summary payload '' @ lit k @ lit '' contradicts the action target'')
                (find (\<lambda>(k, v). path payload [k] \<noteq> JUndefined \<and> path payload [k] \<noteq> v)
                  [(''conversationId'', c), (''conversationType'', text_val ''group''), (''groupId'', g)]))"

definition group_source_error :: "jval \<Rightarrow> turn_source \<Rightarrow> jstr option" where
  "group_source_error t src =
     (case ts_group src of
        Some g \<Rightarrow>
          if ts_type src \<noteq> Some (lit ''group'') \<or> g = []
          then Some (lit ''Group summary actions require an exact triggering group chat'')
          else if path t [''conversationId''] \<noteq> JStr (ts_conversation src) \<or> path t [''groupId''] \<noteq> JStr g
          then Some (lit ''Group summary target must match the triggering group and conversation'')
          else None
      | None \<Rightarrow> Some (lit ''Group summary actions require an exact triggering group chat''))"

definition reject_group_summary :: "action_decision \<Rightarrow> jval \<Rightarrow> jstr \<Rightarrow> string \<Rightarrow> bool \<Rightarrow> execution_input" where
  "reject_group_summary d a message code recoverable = refused d a code message recoverable (redact_text (plan_reason a))"

definition summary_failed :: "action_decision \<Rightarrow> jval \<Rightarrow> summary_failure \<Rightarrow> string \<Rightarrow> string \<Rightarrow> execution_input" where
  "summary_failed d a e code fallback =
     (if sf_code e = Some (lit ''policy_disabled'')
      then reject_group_summary d a (case sf_message e of Some m \<Rightarrow> m | None \<Rightarrow> lit ''Group summary policy is disabled.'')
             ''GROUP_SUMMARY_POLICY_DISABLED'' False
      else if sf_code e = Some (lit ''window_unavailable'')
      then reject_group_summary d a (case sf_message e of Some m \<Rightarrow> m | None \<Rightarrow> lit ''No group summary window is available'')
             ''GROUP_SUMMARY_WINDOW_UNAVAILABLE'' True
      else failed d a code (case sf_message e of Some m \<Rightarrow> m | None \<Rightarrow> lit fallback) (redact_text (plan_reason a)))"

text \<open>The checks and the call shared by the two actions that can ask for a group summary.\<close>

definition group_summary_action ::
  "'w exec_env \<Rightarrow> action_decision \<Rightarrow> jval \<Rightarrow> turn_source \<Rightarrow> jval \<Rightarrow> summary_request \<Rightarrow> string \<Rightarrow> string \<Rightarrow> string
    \<Rightarrow> 'w \<Rightarrow> 'w \<times> execution_input" where
  "group_summary_action env d a src claimed r note code fallback w =
     (case group_target_error (path a [''target'']) claimed of
        Some m \<Rightarrow> (w, reject_group_summary d a m ''INVALID_GROUP_SUMMARY_ACTION'' False)
      | None \<Rightarrow>
          (case group_source_error (path a [''target'']) src of
             Some m \<Rightarrow> (w, reject_group_summary d a m ''INVALID_GROUP_SUMMARY_ACTION'' False)
           | None \<Rightarrow>
               (case xe_summary env of
                  None \<Rightarrow> (w, reject_group_summary d a (lit ''Group summaries require the governed summary job service'')
                            ''GROUP_SUMMARY_SERVICE_NOT_CONFIGURED'' True)
                | Some enq \<Rightarrow>
                    (case enq r w of
                       (w', Inr j) \<Rightarrow> (w', (executed_as d a ''success'' (redact_text (plan_reason a) @ lit ''; '' @ lit note @ lit ''=true''))
                                            \<lparr>xi_job := Some j\<rparr>)
                     | (w', Inl e) \<Rightarrow> (w', summary_failed d a e code fallback)))))"

definition silent_summary_key :: "action_decision \<Rightarrow> jstr option \<Rightarrow> jstr" where
  "silent_summary_key d s = lit ''action:silent_summarize_later:'' @ ad_id d @ lit '':summary'' @ suffix_text s"

definition execute_silent_summary ::
  "'w exec_env \<Rightarrow> action_decision \<Rightarrow> jval \<Rightarrow> turn_source \<Rightarrow> jstr option \<Rightarrow> 'w \<Rightarrow> 'w \<times> execution_input" where
  "execute_silent_summary env d a src sx w =
     (if \<not> truthy (target ''conversationId'' a)
      then (w, refused d a ''INVALID_SILENT_SUMMARY_ACTION''
             (lit ''silent_summarize_later action requires a target conversationId'') False (plan_reason a))
      else
        let payload = obj [(''source'', text_val ''action_executor''), (''actionDecisionId'', JStr (ad_id d)),
              (''actionType'', plan_type a), (''conversationId'', target ''conversationId'' a),
              (''conversationType'', target ''conversationType'' a), (''groupId'', target ''groupId'' a),
              (''reasonSummary'', JStr (redact_text (plan_reason a)))]
        in if target ''conversationType'' a = text_val ''group''
           then group_summary_action env d a src (path a [''payload''])
                  \<lparr>sm_conversation = target ''conversationId'' a, sm_group = target ''groupId'' a, sm_payload = payload,
                   sm_key = silent_summary_key d sx, sm_scheduled = None, sm_max = Some 2\<rparr>
                  ''silent_summary_job_scheduled'' ''SCHEDULE_SILENT_SUMMARY_FAILED''
                  ''Unknown silent summary scheduling failure'' w
           else enqueue_action env d a \<lparr>jr_type = lit ''summary'', jr_payload = payload, jr_key = silent_summary_key d sx,
                  jr_scheduled = None, jr_max = Some 2\<rparr>
                  ''silent_summarize_later'' ''silent_summary_job_scheduled'' ''SCHEDULE_SILENT_SUMMARY_FAILED'' w)"

subsection \<open>Background tasks\<close>

definition background_types :: "jstr list" where
  "background_types = map lit [''summary'', ''extraction'', ''consolidation'', ''decay'', ''conflict'', ''admin_digest'', ''retention'']"

definition rx_marker :: rx where
  "rx_marker = rx_seq [rx_lit (lit ''[REDACTED:''), Rep 1 None (One (\<lambda>c. c \<noteq> 93)), rx_lit (lit '']'')]"

fun join_spaces :: "jstr list \<Rightarrow> jstr" where
  "join_spaces [] = []"
| "join_spaces [t] = t"
| "join_spaces (t # u # ts) = t @ 32 # join_spaces (u # ts)"

definition redact_payload_text :: "jstr \<Rightarrow> jstr" where
  "redact_payload_text t =
     (let redacted = redact_text t; markers = matched_from rx_marker [] redacted
      in if redacted = t then t else if markers \<noteq> [] then join_spaces (rev (remdups (rev markers))) else redacted)"

fun redact_payload :: "jstr option \<Rightarrow> jval \<Rightarrow> jval" where
  "redact_payload k (JStr s) = JStr (redact_payload_text s)"
| "redact_payload k (JNum n) = (if numeric_identifier k n then JStr redaction_mark else JNum n)"
| "redact_payload k (JArr vs) = JArr (map (redact_payload k) vs)"
| "redact_payload k (JObj fs) = JObj (from_entries (map (\<lambda>(f, v). (redact_payload_text f, redact_payload (Some f) v)) fs))"
| "redact_payload k v = v"

definition scheduled_at :: "jval \<Rightarrow> js_number option" where
  "scheduled_at v = (case v of JDate t \<Rightarrow> map_option JInt t | JNum n \<Rightarrow> if is_finite n then Some n else None | _ \<Rightarrow> None)"

definition max_attempts :: "jval \<Rightarrow> int option" where
  "max_attempts v = (case v of JNum (JInt n) \<Rightarrow> if 0 < n then Some n else None | _ \<Rightarrow> None)"

definition claims_group :: "jval \<Rightarrow> bool" where
  "claims_group v \<longleftrightarrow> is_record v \<and> (path v [''conversationType''] = text_val ''group'' \<or> path v [''groupId''] \<noteq> JUndefined)"

definition task_key :: "action_decision \<Rightarrow> jstr \<Rightarrow> jstr option \<Rightarrow> jstr" where
  "task_key d t s = lit ''action:schedule_background_task:'' @ ad_id d @ lit '':'' @ t @ suffix_text s"

definition task_record :: "jval \<Rightarrow> jval" where
  "task_record payload =
     (let v = redact_payload None (if nullish payload then JObj [] else payload) in if is_record v then v else JObj [])"

definition task_job_payload :: "action_decision \<Rightarrow> jval \<Rightarrow> jval \<Rightarrow> jval" where
  "task_job_payload d a record =
     put_field ''taskPayload'' record
     (put_field ''reasonSummary'' (JStr (redact_text (plan_reason a)))
     (put_field ''conversationType'' (if nullish (target ''conversationType'' a) then path record [''conversationType'']
        else target ''conversationType'' a)
     (put_field ''actionType'' (plan_type a)
     (put_field ''actionDecisionId'' (JStr (ad_id d)) (put_field ''source'' (text_val ''action_executor'') record)))))"

definition execute_background_task ::
  "'w exec_env \<Rightarrow> action_decision \<Rightarrow> jval \<Rightarrow> turn_source \<Rightarrow> jstr option \<Rightarrow> 'w \<Rightarrow> 'w \<times> execution_input" where
  "execute_background_task env d a src sx w =
     (let task = path a [''payload'', ''backgroundTask'']; type = path task [''type'']
      in if \<not> truthy task \<or> type \<notin> JStr ` set background_types
         then (w, refused d a ''INVALID_BACKGROUND_TASK_ACTION''
                (lit ''schedule_background_task action requires a known payload.backgroundTask.type'') False (plan_reason a))
         else
           let payload = path task [''payload'']; job = task_job_payload d a (task_record payload);
               key = task_key d (string_of type) sx
           in if type = text_val ''summary'' \<and> target ''conversationType'' a = text_val ''group''
              then group_summary_action env d a src payload
                     \<lparr>sm_conversation = target ''conversationId'' a, sm_group = target ''groupId'' a, sm_payload = job, sm_key = key,
                      sm_scheduled = scheduled_at (path task [''scheduledAt'']), sm_max = max_attempts (path task [''maxAttempts''])\<rparr>
                     ''background_task_scheduled'' ''SCHEDULE_BACKGROUND_TASK_FAILED''
                     ''Unknown background task scheduling failure'' w
              else if type = text_val ''summary'' \<and> claims_group payload
              then (w, reject_group_summary d a (lit ''Group summary scope must come from an exact group action target'')
                     ''INVALID_GROUP_SUMMARY_ACTION'' False)
              else enqueue_action env d a \<lparr>jr_type = string_of type, jr_payload = job, jr_key = key,
                     jr_scheduled = scheduled_at (path task [''scheduledAt'']), jr_max = max_attempts (path task [''maxAttempts''])\<rparr>
                     ''schedule_background_task'' ''background_task_scheduled'' ''SCHEDULE_BACKGROUND_TASK_FAILED'' w)"

section \<open>Memory proposals\<close>

definition proposal_visibility :: "jstr \<Rightarrow> jval \<Rightarrow> jval \<Rightarrow> jstr" where
  "proposal_visibility scope g type =
     lit (if scope = lit ''global'' then ''owner_admin_only''
          else if scope = lit ''group'' then ''same_group_only''
          else if scope = lit ''conversation'' then (if truthy g \<or> type = text_val ''group'' then ''same_group_only'' else ''private_only'')
          else if truthy g then ''same_group_only'' else ''private_only'')"

definition parse_proposal :: "jval \<Rightarrow> jval \<Rightarrow> string + memory_proposal" where
  "parse_proposal a v =
     (let scope = trimmed (path v [''scope'']); kind = trimmed (path v [''kind'']);
          title = trimmed (path v [''title'']); content = trimmed (path v [''content'']);
          explicit = non_empty (path v [''groupId'']);
          g = (if nullish explicit then target ''groupId'' a else explicit);
          c = target ''conversationId'' a;
          user = trimmed (path v [''canonicalUserId''])
      in if \<not> is_record v then Inl ''propose_memory action requires payload.memoryProposal''
         else if scope \<notin> set (map lit [''user'', ''group'', ''conversation'', ''global''])
         then Inl ''memoryProposal.scope must be user, group, conversation, or global''
         else if kind \<notin> set (map lit [''preference'', ''fact'', ''constraint'', ''summary'', ''reflection'', ''procedure''])
         then Inl ''memoryProposal.kind is not supported''
         else if title = [] \<or> content = [] then Inl ''memoryProposal.title and memoryProposal.content are required''
         else case unit_value (path v [''confidence'']) of
           None \<Rightarrow> Inl ''memoryProposal.confidence must be a number between 0 and 1''
         | Some n \<Rightarrow>
             if scope = lit ''user'' \<and> user = [] then Inl ''user memory proposals require memoryProposal.canonicalUserId''
             else if scope = lit ''group'' \<and> \<not> truthy g then Inl ''group memory proposals require memoryProposal.groupId or target.groupId''
             else if scope = lit ''conversation'' \<and> \<not> truthy c then Inl ''conversation memory proposals require target.conversationId''
             else Inr \<lparr>mp_scope = scope, mp_user = (if scope = lit ''user'' then Some user else None),
                    mp_group = (if scope = lit ''global'' then JUndefined else g),
                    mp_conversation = (if scope = lit ''conversation'' then c else JUndefined),
                    mp_visibility = proposal_visibility scope g (target ''conversationType'' a), mp_kind = kind, mp_title = title,
                    mp_content = content, mp_confidence = n, mp_importance = n\<rparr>)"

definition execute_propose_memory ::
  "'w exec_env \<Rightarrow> action_decision \<Rightarrow> jval \<Rightarrow> turn_source \<Rightarrow> 'w \<Rightarrow> 'w \<times> execution_input" where
  "execute_propose_memory env d a src w =
     (case xe_memory env of
        None \<Rightarrow> (w, refused d a ''MEMORY_REPOSITORY_NOT_CONFIGURED''
                  (lit ''propose_memory action requires a governed memory repository'') True (plan_reason a))
      | Some create \<Rightarrow>
          (case parse_proposal a (path a [''payload'', ''memoryProposal'']) of
             Inl m \<Rightarrow> (w, refused d a ''INVALID_MEMORY_PROPOSAL_ACTION'' (lit m) False (plan_reason a))
           | Inr p \<Rightarrow>
               let reason = redact_text (plan_reason a); evaluated = ad_decided_by d = lit ''evaluator''
               in if (case (mp_user p, xe_opted env) of
                        (Some u, Some opted) \<Rightarrow> opted u (lit ''memory_association'') w | _ \<Rightarrow> False)
                  then (w, refused d a ''MEMORY_ASSOCIATION_OPT_OUT'' (lit ''User has opted out of memory association'') False
                         (reason @ lit ''; memory_association_opt_out=true''))
                  else (case create \<lparr>mq_proposal = p, mq_evaluator = ad_evaluator d, mq_trigger = ts_trigger src,
                               mq_extracted_by = lit (if evaluated then ''evaluator'' else ''worker''),
                               mq_actor_class = lit (if evaluated then ''evaluator'' else ''system_worker''),
                               mq_reason = lit ''propose_memory action created proposed memory; '' @ reason\<rparr> w of
                          (w', Inr m) \<Rightarrow> (w', (executed_as d a ''success'' (reason @ lit ''; memory_proposal_created=true''))
                                               \<lparr>xi_memory := Some m\<rparr>)
                        | (w', Inl PolicyRejected) \<Rightarrow>
                            (w', refused d a ''MEMORY_PROPOSAL_POLICY_REJECTED''
                              (lit ''memory proposal rejected by deterministic memory policy'') False
                              (reason @ lit ''; memory_proposal_policy_rejected=true''))
                        | (w', Inl (CreateFailed e)) \<Rightarrow> (w', failed d a ''CREATE_MEMORY_PROPOSAL_FAILED'' e (plan_reason a)))))"

section \<open>Executing a decision\<close>

definition policy_rejection :: "action_decision \<Rightarrow> jval \<Rightarrow> (string \<times> string) option" where
  "policy_rejection d a =
     (if silent a then None
      else if ad_risk d = lit ''prohibited'' then Some (''PROHIBITED_ACTION_DECISION'', ''Action decision risk level is prohibited'')
      else if (ad_required d \<or> constraint ''evaluatorRequired'' a = JBool True) \<and> ad_passed d \<noteq> Some True
      then Some (''EVALUATOR_NOT_PASSED'', ''Action requires evaluator approval but decision was not approved'')
      else None)"

definition reply_types :: "jstr list" where
  "reply_types = map lit [''reply_short'', ''reply_full'', ''reply_with_tool'', ''ask_clarification'']"

definition run_action ::
  "'w exec_env \<Rightarrow> action_decision \<Rightarrow> jval \<Rightarrow> turn_source \<Rightarrow> jstr option \<Rightarrow> 'w \<Rightarrow> 'w \<times> execution_input" where
  "run_action env d a src sx w =
     (case policy_rejection d a of
        Some (code, message) \<Rightarrow> (w, refused d a code (lit message) False (plan_reason a @ lit ''; L0 policy: '' @ lit message))
      | None \<Rightarrow>
          if plan_type a \<in> JStr ` set reply_types then execute_reply env d a w
          else if plan_type a = text_val ''dm_user'' then execute_dm env d a w
          else if plan_type a = text_val ''react_only'' then execute_reaction env d a w
          else if plan_type a = text_val ''send_folded_forward'' then execute_folded_forward env d a w
          else if plan_type a = text_val ''admin_digest'' then execute_admin_digest env d a sx w
          else if plan_type a = text_val ''propose_memory'' then execute_propose_memory env d a src w
          else if plan_type a = text_val ''schedule_background_task'' then execute_background_task env d a src sx w
          else if plan_type a = text_val ''silent_summarize_later'' then execute_silent_summary env d a src sx w
          else if silent a then (w, executed_as d a ''success'' (plan_reason a))
          else (w, refused d a ''ACTION_NOT_IMPLEMENTED'' (string_of (plan_type a) @ lit '' execution is not wired yet'') True
                 (plan_reason a)))"

definition group_key :: "jval \<Rightarrow> jstr option" where
  "group_key a =
     (if plan_type a = text_val ''admin_digest'' then Some (lit ''admin_digest'')
      else if plan_type a = text_val ''silent_summarize_later'' then Some (lit ''silent_summarize_later:summary'')
      else if plan_type a = text_val ''schedule_background_task'' then
        (case path a [''payload'', ''backgroundTask'', ''type''] of
           JStr t \<Rightarrow> Some (lit ''schedule_background_task:'' @ t) | _ \<Rightarrow> None)
      else None)"

text \<open>The suffix of an action that shares its group with another: its place among them.\<close>

fun suffixes_from :: "jstr option list \<Rightarrow> jstr option list \<Rightarrow> jstr option list" where
  "suffixes_from before [] = []"
| "suffixes_from before (k # ks) =
     (if k = None \<or> count_list before k + count_list (k # ks) k \<le> 1 then None
      else Some (lit '':action'' @ decimal (count_list before k + 1)))
     # suffixes_from (before @ [k]) ks"

definition job_suffixes :: "jval list \<Rightarrow> jstr option list" where
  "job_suffixes actions = suffixes_from [] (map group_key actions)"

definition priority :: "jval \<Rightarrow> js_number" where
  "priority a = number_of (path a [''priority''])"

text \<open>The stable sort by descending priority.\<close>

fun place :: "jval \<Rightarrow> jval list \<Rightarrow> jval list" where
  "place a [] = [a]"
| "place a (b # bs) = (if js_less (priority a) (priority b) then b # place a bs else a # b # bs)"

definition by_priority :: "jval list \<Rightarrow> jval list" where
  "by_priority actions = foldr place actions []"

fun run_all ::
  "'w exec_env \<Rightarrow> action_decision \<Rightarrow> turn_source \<Rightarrow> (jval \<times> jstr option) list \<Rightarrow> action_db \<Rightarrow> 'w
    \<Rightarrow> action_db \<times> 'w \<times> execution_row list" where
  "run_all env d src [] db w = (db, w, [])"
| "run_all env d src ((a, s) # as) db w =
     (case run_action env d a src s w of
        (w1, x) \<Rightarrow>
          (let n = length (db_executions db)
           in case create_execution x (xe_id env n) (xe_clock env n) db of
                (db1, row) \<Rightarrow>
                  (case run_all env d src as db1 w1 of (db2, w2, rows) \<Rightarrow> (db2, w2, row # rows))))"

text \<open>\<open>None\<close>: the decision is refused, before anything is done.\<close>

definition execute ::
  "'w exec_env \<Rightarrow> action_decision \<Rightarrow> action_db \<Rightarrow> 'w \<Rightarrow> action_db \<times> 'w \<times> execution_row list option" where
  "execute env d db w =
     (case assert_binding (xe_repo env) d db of
        None \<Rightarrow> (db, w, None)
      | Some src \<Rightarrow>
          (let as = by_priority (ad_actions d)
           in case run_all env d src (zip as (job_suffixes as)) db w of (db', w', rows) \<Rightarrow> (db', w', Some rows)))"

end
