(* ===== verification/Action_Facts.thy ===== *)
theory Action_Facts
  imports Action_Executor
begin

text \<open>
  Facts of the action repository: the canonical text of a value determines the value up to the
  order of keys, and what creating a decision leaves in the tables.
\<close>

section \<open>Values up to the order of keys\<close>

fun norm_value :: "jval \<Rightarrow> jval" where
  "norm_value (JObj fs) = JObj (sort_key fst (map (\<lambda>(k, v). (k, norm_value v)) fs))"
| "norm_value (JArr vs) = JArr (map norm_value vs)"
| "norm_value v = v"

fun utf16_value :: "jval \<Rightarrow> bool" where
  "utf16_value (JStr s) \<longleftrightarrow> utf16 s"
| "utf16_value (JObj fs) \<longleftrightarrow> (\<forall>p \<in> set fs. utf16 (fst p) \<and> utf16_value (snd p))"
| "utf16_value (JArr vs) \<longleftrightarrow> (\<forall>v \<in> set vs. utf16_value v)"
| "utf16_value v \<longleftrightarrow> True"

text \<open>\<open>String(n)\<close>: distinct numbers have distinct texts.\<close>

definition number_texts :: "(js_number \<Rightarrow> jstr) \<Rightarrow> bool" where
  "number_texts number \<longleftrightarrow> (\<forall>m. utf16 (number m)) \<and> (\<forall>m n. is_finite m \<and> is_finite n \<and> number m = number n \<longrightarrow> m = n)"

lemma sort_key_map: "sort_key f (map g xs) = map g (sort_key (\<lambda>x. f (g x)) xs)"
proof (induction xs)
  case (Cons x xs)
  have "insort_key f (g x) (map g ys) = map g (insort_key (\<lambda>x. f (g x)) x ys)" for ys
    by (induction ys) simp_all
  with Cons show ?case by simp
qed simp

lemma those_map_Some: "those (map f xs) = Some ys \<longleftrightarrow> (\<forall>x \<in> set xs. f x \<noteq> None) \<and> ys = map (the \<circ> f) xs"
  by (induction xs arbitrary: ys) (auto split: option.splits)

lemma those_map_None: "those (map f xs) = None \<longleftrightarrow> (\<exists>x \<in> set xs. f x = None)"
  by (induction xs) (auto split: option.splits)

text \<open>The canonical text of an object is that of its sorted entries.\<close>

definition entry_text :: "(jval \<Rightarrow> jstr option) \<Rightarrow> jstr \<times> jval \<Rightarrow> jstr option" where
  "entry_text enc p = map_option (\<lambda>t. bracket [json_string (fst p), t]) (enc (snd p))"

lemma canonical_object:
  "canonical number (JObj fs) = map_option (\<lambda>ts. tagged ''object'' [bracket ts])
     (those (map (entry_text (canonical number)) (sort_key fst fs)))"
proof (cases "\<exists>p \<in> set fs. canonical number (snd p) = None")
  case True
  then have "those (map (\<lambda>(k, v). map_option (Pair k) (canonical number v)) fs) = None"
    unfolding those_map_None by force
  moreover from True have "those (map (entry_text (canonical number)) (sort_key fst fs)) = None"
    unfolding those_map_None by (auto simp: entry_text_def)
  ultimately show ?thesis by simp
next
  case False
  let ?g = "\<lambda>p. (fst p, the (canonical number (snd p)))"
  have "those (map (\<lambda>(k, v). map_option (Pair k) (canonical number v)) fs) = Some (map ?g fs)"
    unfolding those_map_Some using False by fastforce
  moreover have "sort_key fst (map ?g fs) = map ?g (sort_key fst fs)"
    unfolding sort_key_map by simp
  moreover have "those (map (entry_text (canonical number)) (sort_key fst fs))
      = Some (map (\<lambda>(k, t). bracket [json_string k, t]) (map ?g (sort_key fst fs)))"
    unfolding those_map_Some using False by (auto simp: entry_text_def)
  ultimately show ?thesis by simp
qed

lemma norm_object: "norm_value (JObj fs) = JObj (map (\<lambda>p. (fst p, norm_value (snd p))) (sort_key fst fs))"
  by (simp add: sort_key_map case_prod_beta)

section \<open>The canonical text is read in one way\<close>

lemma tagged_append:
  "tagged a [] @ x = 91 # json_string (lit a) @ 93 # x"
  "tagged a [t] @ x = 91 # json_string (lit a) @ 44 # t @ 93 # x"
  by (simp_all add: tagged_def bracket_def)

lemma commas_Cons: "commas (t # ts) = t @ (if ts = [] then [] else 44 # commas ts)"
  by (cases ts) simp_all

lemma canonical_starts: "canonical number v = Some s \<Longrightarrow> \<exists>r. s = 91 # r"
  by (cases v) (auto simp: tagged_def bracket_def split: if_splits)

lemma entry_starts: "entry_text enc p = Some s \<Longrightarrow> \<exists>r. s = 91 # r"
  by (auto simp: entry_text_def bracket_def)

lemma commas_unique:
  assumes "\<And>v w s t x y. v \<in> set vs \<Longrightarrow> w \<in> set zs \<Longrightarrow> enc v = Some s \<Longrightarrow> enc w = Some t \<Longrightarrow> s @ x = t @ y \<Longrightarrow> nm v = nm w \<and> x = y"
    and "\<And>v s. enc v = Some s \<Longrightarrow> \<exists>r. s = 91 # r"
    and "those (map enc vs) = Some ts" and "those (map enc zs) = Some us"
    and "commas ts @ 93 # x = commas us @ 93 # y"
  shows "map nm vs = map nm zs \<and> x = y"
  using assms(1,3,4,5)
proof (induction vs arbitrary: zs ts us)
  case Nil
  then show ?case
  proof (cases zs)
    case (Cons w zs')
    with Nil.prems(3) obtain u us' where u: "us = u # us'" "enc w = Some u" by (auto split: option.splits)
    from assms(2) [OF u(2)] u(1) Nil.prems(2,4) show ?thesis by (auto simp: commas_Cons)
  qed simp
next
  case (Cons v vs)
  from Cons.prems(2) obtain s ts' where s: "ts = s # ts'" "enc v = Some s" "those (map enc vs) = Some ts'"
    by (auto split: option.splits)
  obtain r where r: "s = 91 # r" using assms(2) [OF s(2)] by blast
  show ?case
  proof (cases zs)
    case Nil
    with Cons.prems(3,4) s(1) r show ?thesis by (simp add: commas_Cons)
  next
    case zs: (Cons w zs')
    with Cons.prems(3) obtain u us' where u: "us = u # us'" "enc w = Some u" "those (map enc zs') = Some us'"
      by (auto split: option.splits)
    have "s @ (if ts' = [] then [] else 44 # commas ts') @ 93 # x = u @ (if us' = [] then [] else 44 # commas us') @ 93 # y"
      using Cons.prems(4) by (simp add: s(1) u(1) commas_Cons)
    from Cons.prems(1) [OF _ _ s(2) u(2) this]
    have nm: "nm v = nm w" and rest: "(if ts' = [] then [] else 44 # commas ts') @ 93 # x = (if us' = [] then [] else 44 # commas us') @ 93 # y"
      by (simp_all add: zs)
    show ?thesis
    proof (cases "ts' = [] \<or> us' = []")
      case True
      with rest have e: "ts' = []" "us' = []" "x = y" by (auto split: if_splits)
      have "vs = []" "zs' = []" using s(3) u(3) unfolding e those_map_Some by simp_all
      with e(3) nm zs show ?thesis by simp
    next
      case False
      with rest have "commas ts' @ 93 # x = commas us' @ 93 # y" by simp
      from Cons.IH [OF Cons.prems(1) s(3) u(3) this] have "map nm vs = map nm zs' \<and> x = y" by (simp add: zs)
      with zs nm show ?thesis by simp
    qed
  qed
qed

lemma bracket_append: "bracket ts @ x = 91 # commas ts @ 93 # x"
  by (simp add: bracket_def)

lemma canonical_unique:
  assumes "number_texts number"
  shows "canonical number v = Some s \<Longrightarrow> canonical number w = Some t \<Longrightarrow> utf16_value v \<Longrightarrow> utf16_value w \<Longrightarrow>
    s @ x = t @ y \<Longrightarrow> norm_value v = norm_value w \<and> x = y"
proof (induction v arbitrary: w s t x y)
  case JUndefined
  then show ?case by (cases w) (auto simp: tagged_append json_string_prefix split: if_splits)
next
  case JNull
  then show ?case by (cases w) (auto simp: tagged_append json_string_prefix split: if_splits)
next
  case (JBool b)
  then show ?case
    by (cases w) (auto simp: tagged_append json_string_prefix lit_def split: if_splits)
next
  case (JNum n)
  with assms show ?case
    by (cases w) (auto simp: tagged_append json_string_prefix number_texts_def split: if_splits)
next
  case (JStr u)
  then show ?case
    by (cases w) (auto simp: tagged_append json_string_prefix split: if_splits)
next
  case (JDate d)
  have u: "utf16 (number m)" for m using assms by (simp add: number_texts_def)
  have inj: "number (JInt a) = number (JInt b) \<longleftrightarrow> a = b" for a b
    using assms unfolding number_texts_def by (metis is_finite.simps(1) js_number.inject(1))
  from JDate show ?case by (cases w) (auto simp: tagged_append json_string_prefix u inj split: if_splits)
next
  case (JArr vs)
  from JArr.prems(1) obtain ts where ts: "those (map (canonical number) vs) = Some ts" "s = tagged ''array'' [bracket ts]"
    by auto
  show ?case
  proof (cases w)
    case w: (JArr zs)
    with JArr.prems(2) obtain us where us: "those (map (canonical number) zs) = Some us" "t = tagged ''array'' [bracket us]"
      by auto
    have eq: "commas ts @ 93 # 93 # x = commas us @ 93 # 93 # y"
      using JArr.prems(5) by (simp add: ts(2) us(2) tagged_append bracket_append json_string_prefix)
    have "map norm_value vs = map norm_value zs \<and> 93 # x = 93 # y"
    proof (rule commas_unique [OF _ canonical_starts ts(1) us(1) eq])
      fix v' w' s' t' x' y'
      assume m: "v' \<in> set vs" "w' \<in> set zs" and e: "canonical number v' = Some s'" "canonical number w' = Some t'" "s' @ x' = t' @ y'"
      have "utf16_value v'" "utf16_value w'" using m JArr.prems(3,4) w by auto
      from JArr.IH [OF m(1) e(1,2) this e(3)] show "norm_value v' = norm_value w' \<and> x' = y'" .
    qed
    then show ?thesis by (simp add: w)
  qed (use JArr.prems(2,5) ts(2) in \<open>auto simp: tagged_append json_string_prefix canonical_object simp del: canonical.simps(8) split: if_splits\<close>)
next
  case (JObj fs)
  from JObj.prems(1) obtain ts where ts: "those (map (entry_text (canonical number)) (sort_key fst fs)) = Some ts"
      "s = tagged ''object'' [bracket ts]"
    unfolding canonical_object by auto
  show ?case
  proof (cases w)
    case w: (JObj gs)
    from JObj.prems(2) obtain us where us: "those (map (entry_text (canonical number)) (sort_key fst gs)) = Some us"
        "t = tagged ''object'' [bracket us]"
      unfolding w canonical_object by auto
    have eq: "commas ts @ 93 # 93 # x = commas us @ 93 # 93 # y"
      using JObj.prems(5) by (simp add: ts(2) us(2) tagged_append bracket_append json_string_prefix)
    have "map (\<lambda>p. (fst p, norm_value (snd p))) (sort_key fst fs) = map (\<lambda>p. (fst p, norm_value (snd p))) (sort_key fst gs)
        \<and> 93 # x = 93 # y"
    proof (rule commas_unique [OF _ entry_starts ts(1) us(1) eq])
      fix p q s' t' x' y'
      assume m: "p \<in> set (sort_key fst fs)" "q \<in> set (sort_key fst gs)"
        and e: "entry_text (canonical number) p = Some s'" "entry_text (canonical number) q = Some t'" "s' @ x' = t' @ y'"
      have mem: "p \<in> set fs" "snd p \<in> Basic_BNFs.snds p" using m(1) by (auto simp: snds.simps)
      have u: "utf16 (fst p)" "utf16_value (snd p)" "utf16 (fst q)" "utf16_value (snd q)"
        using m JObj.prems(3,4) w by auto
      from e(1,2) obtain a b where ab: "canonical number (snd p) = Some a" "canonical number (snd q) = Some b"
          "s' = bracket [json_string (fst p), a]" "t' = bracket [json_string (fst q), b]"
        unfolding entry_text_def by blast
      from e(3) u have "fst p = fst q" "a @ 93 # x' = b @ 93 # y'"
        by (simp_all add: ab(3,4) bracket_append json_string_prefix)
      with JObj.IH [OF mem ab(1,2) u(2,4) this(2)]
      show "(fst p, norm_value (snd p)) = (fst q, norm_value (snd q)) \<and> x' = y'" by simp
    qed
    then show ?thesis by (simp add: w norm_object del: norm_value.simps)
  qed (use JObj.prems(2,5) ts(2) in \<open>auto simp: tagged_append json_string_prefix split: if_splits\<close>)
qed

lemma canonical_norm: "canonical number (norm_value v) = canonical number v"
proof (induction v)
  case (JArr vs)
  then have "map (canonical number) (map norm_value vs) = map (canonical number) vs" by simp
  then show ?case by (simp only: norm_value.simps canonical.simps)
next
  case (JObj fs)
  let ?n = "\<lambda>p. (fst p, norm_value (snd p))"
  have "sort_key fst (map ?n (sort_key fst fs)) = map ?n (sort_key fst fs)"
    unfolding sort_key_map by (simp add: sorted_sort_id sort_key_id_if_sorted)
  moreover have "entry_text (canonical number) (?n p) = entry_text (canonical number) p" if "p \<in> set fs" for p
    using JObj.IH [OF that, of "snd p"] by (simp add: entry_text_def snds.simps)
  then have "map (entry_text (canonical number)) (map ?n (sort_key fst fs)) = map (entry_text (canonical number)) (sort_key fst fs)"
    by simp
  ultimately show ?case
    unfolding norm_object canonical_object by (simp only:)
qed simp_all

lemma canonical_same:
  assumes "number_texts number" and "utf16_value v" and "utf16_value w"
    and "canonical number v = Some s" and "canonical number w = Some t"
  shows "s = t \<longleftrightarrow> norm_value v = norm_value w"
proof
  assume "s = t"
  with canonical_unique [OF assms(1,4,5,2,3), of "[]" "[]"] show "norm_value v = norm_value w" by simp
next
  assume "norm_value v = norm_value w"
  then show "s = t" using assms(4,5) canonical_norm [of number v] canonical_norm [of number w] by simp
qed

end
