(* ===== verification/Action_Theorems.thy ===== *)
theory Action_Theorems
  imports Action_Facts
begin

text \<open>
  The theorems of the action repository: a created decision verifies until the turn has a newer
  one, and what verifies is the decision that was created.
\<close>

section \<open>Creating a decision\<close>

definition input_row :: "repo_env \<Rightarrow> decision_input \<Rightarrow> evaluator_row option" where
  "input_row env i = map_option (\<lambda>(q, r). evidence_row env q r) (di_evidence i)"

definition with_evidence :: "evaluator_row option \<Rightarrow> action_db \<Rightarrow> action_db" where
  "with_evidence row db = (case row of None \<Rightarrow> db | Some r \<Rightarrow> db\<lparr>db_evaluators := db_evaluators db @ [r]\<rparr>)"

lemma with_evidence_frame [simp]:
  "db_turns (with_evidence row db) = db_turns db" "db_events (with_evidence row db) = db_events db"
  "db_chats (with_evidence row db) = db_chats db" "db_decisions (with_evidence row db) = db_decisions db"
  by (simp_all add: with_evidence_def split: option.splits)

lemma create_decision_cases:
  assumes "create_decision env i fresh now db = (db', Inr d)"
  obtains a binding created where
    "read_authority (di_turn i) db = Some a" "validate_authority db i a = None" "d = build_decision env i fresh now"
    "execution_binding env d (input_row env i) a = Some binding" "ad_created d = Some created"
    "\<And>r. input_row env i = Some r \<Longrightarrow> evaluator_row_ok r db"
    "decision_row_ok (to_decision_row env d binding created) (with_evidence (input_row env i) db)"
    "db' = link_turn (di_turn i) (ad_id d) (with_evidence (input_row env i) db
        \<lparr>db_decisions := db_decisions db @ [to_decision_row env d binding created]\<rparr>)"
proof -
  obtain a where a: "read_authority (di_turn i) db = Some a"
    using assms by (auto simp: create_decision_def split: option.splits)
  have v: "validate_authority db i a = None"
    using assms a by (auto simp: create_decision_def split: option.splits)
  define e where "e = build_decision env i fresh now"
  obtain binding created where b: "execution_binding env e (input_row env i) a = Some binding" "ad_created e = Some created"
    using assms a v unfolding create_decision_def Let_def e_def [symmetric] input_row_def [symmetric]
    by (auto split: option.splits)
  show thesis
  proof (rule that [OF a v])
    from assms a v b show "d = build_decision env i fresh now"
      unfolding create_decision_def Let_def e_def [symmetric] input_row_def [symmetric] with_evidence_def [symmetric]
      by (simp split: if_splits)
    then have d: "d = e" by (simp add: e_def)
    from b d show "execution_binding env d (input_row env i) a = Some binding" "ad_created d = Some created" by simp_all
    from assms a v b
    show "\<And>r. input_row env i = Some r \<Longrightarrow> evaluator_row_ok r db"
      and "decision_row_ok (to_decision_row env d binding created) (with_evidence (input_row env i) db)"
      and "db' = link_turn (di_turn i) (ad_id d) (with_evidence (input_row env i) db
        \<lparr>db_decisions := db_decisions db @ [to_decision_row env d binding created]\<rparr>)"
      unfolding create_decision_def Let_def e_def [symmetric] input_row_def [symmetric] with_evidence_def [symmetric] d
      by (simp_all split: if_splits)
  qed
qed

lemma find_turn_link: "find_turn t (link_turn k x db)
    = map_option (\<lambda>r. if k = t then r\<lparr>tn_decision := Some x\<rparr> else r) (find_turn t db)"
proof -
  have "find (\<lambda>r. tn_id r = t) (map (\<lambda>r. if tn_id r = k then r\<lparr>tn_decision := Some x\<rparr> else r) rs)
      = map_option (\<lambda>r. if k = t then r\<lparr>tn_decision := Some x\<rparr> else r) (find (\<lambda>r. tn_id r = t) rs)" for rs
    by (induction rs) auto
  then show ?thesis by (simp add: find_turn_def link_turn_def)
qed

lemma link_turn_frame [simp]:
  "db_events (link_turn k x db) = db_events db" "db_chats (link_turn k x db) = db_chats db"
  "db_evaluators (link_turn k x db) = db_evaluators db" "db_decisions (link_turn k x db) = db_decisions db"
  by (simp_all add: link_turn_def)

lemma read_authority_link [simp]: "read_authority t (link_turn k x db) = read_authority t db"
  by (cases "find_turn t db")
    (simp_all add: read_authority_def find_turn_link find_event_def trigger_chats_def split: option.splits)

lemma read_authority_frame:
  "db_turns db' = db_turns db \<Longrightarrow> db_events db' = db_events db \<Longrightarrow> db_chats db' = db_chats db \<Longrightarrow>
    read_authority t db' = read_authority t db"
proof -
  assume "db_turns db' = db_turns db" "db_events db' = db_events db" "db_chats db' = db_chats db"
  then have "find_turn x db' = find_turn x db" "find_event x db' = find_event x db" "trigger_chats x db' = trigger_chats x db" for x
    by (simp_all add: find_turn_def find_event_def trigger_chats_def)
  then show ?thesis by (simp add: read_authority_def cong: option.case_cong)
qed

lemma read_authority_turn: "read_authority t db = Some a \<Longrightarrow> \<exists>r. find_turn t db = Some r"
  by (auto simp: read_authority_def split: option.splits)

lemma guard_one_type: "plan_type (fst (guard_one env a)) = plan_type a"
  by (simp add: guard_one_def plan_type_def split: option.splits)

lemma guard_silent: "list_all silent actions \<Longrightarrow> list_all silent (fst (guard_claims env actions))"
  by (simp add: guard_claims_def silent_def list_all_iff guard_one_type)

lemma build_fields:
  "ad_turn (build_decision env i fresh now) = di_turn i"
  "ad_decided_by (build_decision env i fresh now) = (if di_evidence i = None then di_decided_by i else lit ''evaluator'')"
  "ad_required (build_decision env i fresh now) = (di_evidence i \<noteq> None \<or> di_required i)"
  "ad_actions (build_decision env i fresh now) = fst (guard_claims env (di_actions i))"
  by (simp_all add: build_decision_def split: prod.splits)

lemma build_evidence:
  assumes "di_evidence i = Some (q, r)"
  shows "ad_risk (build_decision env i fresh now) = sr_risk r" "ad_confidence (build_decision env i fresh now) = sr_confidence r"
    "ad_passed (build_decision env i fresh now) = Some (passing (sr_decision r))"
    "ad_evaluator (build_decision env i fresh now) = Some (sr_decision_id r)"
  using assms by (simp_all add: build_decision_def split: prod.splits)

lemma build_no_evidence:
  assumes "di_evidence i = None"
  shows "ad_passed (build_decision env i fresh now) = di_passed i" "ad_evaluator (build_decision env i fresh now) = None"
  using assms by (simp_all add: build_decision_def split: prod.splits)

lemma link_fits:
  assumes "validate_authority db i a = None" and "d = build_decision env i fresh now"
    and "\<And>q r. di_evidence i = Some (q, r) \<Longrightarrow> sr_decision_id r \<noteq> []"
  shows "linked_evaluator_ok (input_row env i) d"
proof (cases "di_evidence i")
  case None
  with assms(1) have "di_decided_by i \<noteq> lit ''evaluator''" "di_passed i \<noteq> Some True" "di_passed i = Some False \<longrightarrow> di_required i"
    by (auto simp: validate_authority_def split: if_splits)
  then show ?thesis
    by (cases "di_passed i") (auto simp: linked_evaluator_ok_def assms(2) input_row_def None build_fields build_no_evidence)
next
  case (Some e)
  obtain q r where e: "di_evidence i = Some (q, r)" using Some by (cases e) auto
  from assms(1) e have v: "validate_evidence db i q r a = None" by (simp add: validate_authority_def)
  have facts: "sq_turn q = di_turn i" "sq_domain q = lit ''social''" "passing (sr_decision r) \<or> list_all silent (di_actions i)"
    using v unfolding validate_evidence_def Let_def by (auto split: if_splits)
  from assms(3) [OF e] facts guard_silent [of "di_actions i" env] show ?thesis
    by (auto simp: linked_evaluator_ok_def assms(2) input_row_def e build_fields build_evidence evidence_row_def)
qed

lemma joined_created:
  assumes "\<And>r. input_row env i = Some r \<Longrightarrow> evaluator_row_ok r db" and "d = build_decision env i fresh now"
  shows "joined_evaluator (to_decision_row env d b c) (link_turn t x (with_evidence (input_row env i) db\<lparr>db_decisions := ds\<rparr>))
    = input_row env i"
proof (cases "di_evidence i")
  case None
  then show ?thesis
    by (simp add: joined_evaluator_def to_decision_row_def assms(2) build_no_evidence input_row_def split: prod.splits)
next
  case (Some e)
  obtain q r where e: "di_evidence i = Some (q, r)" using Some by (cases e) auto
  then have row: "input_row env i = Some (evidence_row env q r)" by (simp add: input_row_def)
  have id: "er_id (evidence_row env q r) = sr_decision_id r" by (simp add: evidence_row_def)
  have "find (\<lambda>k. er_id k = sr_decision_id r) (db_evaluators db) = None"
    using assms(1) [OF row] by (auto simp: evaluator_row_ok_def find_None_iff id)
  then have "find (\<lambda>k. er_id k = sr_decision_id r) (db_evaluators db @ [evidence_row env q r]) = Some (evidence_row env q r)"
    by (rule find_append_right) (rule id)
  then show ?thesis
    by (simp add: joined_evaluator_def to_decision_row_def assms(2) build_evidence [OF e] row with_evidence_def split: prod.splits)
qed

lemma binding_shape: "execution_binding env d e a = Some b \<Longrightarrow> \<exists>t. b = lit ''v1:'' @ re_hmac env t"
  by (auto simp: execution_binding_def)

lemma binding_same: "hex64 h \<Longrightarrow> binding_equal (lit ''v1:'' @ h) (lit ''v1:'' @ h)"
  by (simp add: binding_equal_def lit_def)

lemma row_matches_own: "ad_created d = Some c \<Longrightarrow> row_matches env (to_decision_row env d b c) d"
  by (auto simp: row_matches_def to_decision_row_def split: prod.splits)

text \<open>
  C22.  A decision that was just created verifies, and gives back the conversation and the trigger
  its turn has in the tables.
\<close>

theorem decision_verifies:
  assumes "create_decision env i fresh now db = (db', Inr d)" and "\<And>t. hex64 (re_hmac env t)"
    and "\<And>q r. di_evidence i = Some (q, r) \<Longrightarrow> sr_decision_id r \<noteq> []"
  shows "\<exists>a. read_authority (di_turn i) db = Some a \<and> assert_binding env d db' = Some (to_turn_source (di_turn i) a)"
proof -
  from assms(1) show ?thesis
  proof (cases rule: create_decision_cases)
    case (1 a b c)
    note a = 1(1) and v = 1(2) and d = 1(3) and b = 1(4) and c = 1(5) and e = 1(6) and ok = 1(7) and db' = 1(8)
    let ?dr = "to_decision_row env d b c"
    have ids: "dr_id ?dr = ad_id d" "dr_turn ?dr = di_turn i" "dr_binding ?dr = b"
      by (simp_all add: to_decision_row_def d build_fields split: prod.splits)
    have "find (\<lambda>r. dr_id r = ad_id d) (db_decisions db) = None"
      using ok by (auto simp: decision_row_ok_def find_None_iff ids)
    then have found: "find (\<lambda>r. dr_id r = ad_id d) (db_decisions db') = Some ?dr"
      unfolding db' by (simp add: find_append_right ids)
    obtain t where t: "find_turn (di_turn i) db = Some t" using read_authority_turn [OF a] by blast
    then have turn: "find_turn (di_turn i) db' = Some (t\<lparr>tn_decision := Some (ad_id d)\<rparr>)"
      unfolding db' find_turn_link by (simp add: find_turn_def)
    have auth: "read_authority (di_turn i) db' = Some a"
      unfolding db' read_authority_link using a by (subst read_authority_frame [of _ db]) simp_all
    have join: "joined_evaluator ?dr db' = input_row env i" unfolding db' by (rule joined_created [OF e d])
    have complete: "er_turn r \<noteq> None \<and> er_requested r \<noteq> None \<and> er_decided r \<noteq> None" if "input_row env i = Some r" for r
      using e [OF that] that by (auto simp: evaluator_row_ok_def input_row_def evidence_row_def)
    obtain h where h: "b = lit ''v1:'' @ re_hmac env h" using binding_shape [OF b] by blast
    have same: "binding_equal b b" unfolding h by (rule binding_same) (rule assms(2))
    have nonempty: "b \<noteq> []" by (simp add: h lit_def)
    have "linked_evaluator_ok (input_row env i) d" by (rule link_fits [OF v d assms(3)])
    with found turn auth join complete b same nonempty row_matches_own [OF c, of env b]
    have "assert_binding env d db' = Some (to_turn_source (di_turn i) a)"
      by (auto simp: assert_binding_def ids Let_def split: option.splits)
    with a show ?thesis by blast
  qed
qed

text \<open>
  C23.  Only the newest decision of a turn verifies: once another has been created for its turn,
  a decision is refused.
\<close>

theorem decision_superseded:
  assumes "create_decision env i fresh now db = (db', Inr d)" and "ad_turn old = di_turn i" and "ad_id old \<noteq> ad_id d"
  shows "assert_binding env old db' = None"
proof (rule ccontr)
  assume "assert_binding env old db' \<noteq> None"
  then obtain dr t where dr: "row_matches env dr old" and t: "find_turn (dr_turn dr) db' = Some t" "tn_decision t = Some (ad_id old)"
    by (auto simp: assert_binding_def Let_def split: option.splits if_splits)
  have turn: "dr_turn dr = di_turn i" using dr assms(2) by (simp add: row_matches_def)
  from assms(1) obtain db0 where "db' = link_turn (di_turn i) (ad_id d) db0" by (rule create_decision_cases)
  with t turn have "tn_decision t = Some (ad_id d)" by (auto simp: find_turn_link)
  with t(2) assms(3) show False by simp
qed

section \<open>What verifies is what was created\<close>

definition utf16_option :: "jstr option \<Rightarrow> bool" where
  "utf16_option s \<longleftrightarrow> (case s of None \<Rightarrow> True | Some t \<Rightarrow> utf16 t)"

text \<open>Every text the binding depends on is a list of UTF-16 code units.\<close>

definition utf16_tables :: "action_db \<Rightarrow> bool" where
  "utf16_tables db \<longleftrightarrow>
     (\<forall>t \<in> set (db_turns db). utf16 (tn_conversation t) \<and> utf16 (tn_trigger t))
     \<and> (\<forall>e \<in> set (db_events db). utf16_option (rv_conversation e))
     \<and> (\<forall>c \<in> set (db_chats db). utf16 (ch_conversation c) \<and> utf16 (ch_type c) \<and> utf16_option (ch_group c))
     \<and> (\<forall>e \<in> set (db_evaluators db). utf16_value (evaluator_value (Some e)))"

definition bound_value :: "action_decision \<Rightarrow> evaluator_row option \<Rightarrow> turn_authority \<Rightarrow> jval" where
  "bound_value d e a =
     obj [(''decision'', decision_value d), (''evaluatorAuthority'', evaluator_value e), (''turnAuthority'', turn_value a)]"

lemma find_in: "find P xs = Some x \<Longrightarrow> x \<in> set xs"
  by (auto simp: find_Some_iff)

lemma utf16_optional [simp]: "utf16_option s \<Longrightarrow> utf16_value (nullable s)"
  by (cases s) (simp_all add: utf16_option_def)

lemma utf16_obj: "(\<forall>(k, v) \<in> set fs. utf16_value v) \<Longrightarrow> utf16_value (obj fs)"
  by (auto simp: obj_def)

lemma utf16_authority:
  assumes "utf16_tables db" and "read_authority t db = Some a"
  shows "utf16_value (turn_value a)"
proof -
  from assms(2) obtain r e where r: "find_turn t db = Some r" and e: "find_event (tn_trigger r) db = Some e"
    and a: "a = \<lparr>ta_conversation = tn_conversation r, ta_trigger = tn_trigger r, ta_raw = rv_conversation e,
       ta_count = length (trigger_chats (tn_trigger r) db),
       ta_chat = first_chat (Some \<circ> ch_conversation) (trigger_chats (tn_trigger r) db),
       ta_type = first_chat (Some \<circ> ch_type) (trigger_chats (tn_trigger r) db),
       ta_group = first_chat ch_group (trigger_chats (tn_trigger r) db)\<rparr>"
    by (auto simp: read_authority_def Let_def split: option.splits)
  have "r \<in> set (db_turns db)" "e \<in> set (db_events db)" using r e by (auto simp: find_turn_def find_event_def dest: find_in)
  with assms(1) have "utf16 (tn_conversation r)" "utf16 (tn_trigger r)" "utf16_option (rv_conversation e)"
    by (auto simp: utf16_tables_def)
  moreover have "c \<in> set (db_chats db)" if "trigger_chats (tn_trigger r) db = c # cs" for c cs
  proof -
    have "c \<in> set (trigger_chats (tn_trigger r) db)" by (simp add: that)
    then show ?thesis by (simp add: trigger_chats_def)
  qed
  then have "utf16_option (first_chat (Some \<circ> ch_conversation) (trigger_chats (tn_trigger r) db))"
    "utf16_option (first_chat (Some \<circ> ch_type) (trigger_chats (tn_trigger r) db))"
    "utf16_option (first_chat ch_group (trigger_chats (tn_trigger r) db))"
    using assms(1) by (auto simp: first_chat_def utf16_tables_def utf16_option_def split: list.splits)
  ultimately show ?thesis unfolding turn_value_def a by (intro utf16_obj) simp
qed

text \<open>Equal up to the order of keys: equal at every key.\<close>

lemma map_of_sort: "distinct (map fst fs) \<Longrightarrow> map_of (sort_key fst fs) = map_of fs"
proof -
  assume d: "distinct (map fst fs)"
  have "mset (map fst (sort_key fst fs)) = mset (map fst fs)" by simp
  with d have "distinct (map fst (sort_key fst fs))" by (metis mset_eq_imp_distinct_iff)
  with d show ?thesis by (simp add: map_of_inject_set)
qed

lemma norm_get: "distinct (map fst fs) \<Longrightarrow> get_field (norm_value (JObj fs)) k = norm_value (get_field (JObj fs) k)"
proof -
  assume "distinct (map fst fs)"
  moreover have "map_of (map (\<lambda>(k, v). (k, norm_value v)) fs) k = map_option norm_value (map_of fs k)"
    by (induction fs) auto
  ultimately show ?thesis by (simp add: map_of_sort comp_def case_prod_beta split: option.splits)
qed

lemma norm_obj_get:
  assumes "norm_value (obj fs) = norm_value (obj gs)" and "distinct (map fst fs)" and "distinct (map fst gs)"
  shows "norm_value (get_field (obj fs) (lit k)) = norm_value (get_field (obj gs) (lit k))"
proof -
  have d: "distinct (map fst (map (\<lambda>(k, v). (lit k, v)) hs))" if "distinct (map fst hs)" for hs :: "(string \<times> jval) list"
  proof -
    have "distinct (map lit (map fst hs))" using that by (simp add: distinct_map inj_on_def del: map_map)
    then show ?thesis by (simp add: comp_def case_prod_beta)
  qed
  show ?thesis
    using norm_get [OF d [OF assms(2)], of "lit k"] norm_get [OF d [OF assms(3)], of "lit k"] assms(1)
    unfolding obj_def by simp
qed

lemma nullable_norm [simp]: "norm_value (nullable s) = norm_value (nullable t) \<longleftrightarrow> s = t"
  by (cases s; cases t) simp_all

lemma turn_value_norm: "norm_value (turn_value a) = norm_value (turn_value b) \<Longrightarrow> a = b"
proof -
  assume "norm_value (turn_value a) = norm_value (turn_value b)"
  note get = norm_obj_get [OF this [unfolded turn_value_def], simplified]
  from get [of "''conversationId''"] get [of "''triggerEventId''"] get [of "''rawConversationId''"] get [of "''chatCount''"]
    get [of "''chatConversationId''"] get [of "''chatConversationType''"] get [of "''chatGroupId''"]
  show "a = b" by (intro turn_authority.equality) simp_all
qed

lemma bound_value_norm:
  assumes "norm_value (bound_value d e a) = norm_value (bound_value d' e' a')"
  shows "norm_value (decision_value d) = norm_value (decision_value d') \<and> a = a'"
proof -
  note get = norm_obj_get [OF assms [unfolded bound_value_def], simplified]
  from get [of "''decision''"] get [of "''turnAuthority''"] turn_value_norm [of a a'] show ?thesis by simp
qed

lemma canonical_decision_bound: "canonical_decision env d e a = Some t \<Longrightarrow> canonical (re_number env) (bound_value d e a) = Some t"
  by (simp add: canonical_decision_def bound_value_def split: if_splits)

lemma utf16_bound:
  "utf16_value (decision_value d) \<Longrightarrow> utf16_value (evaluator_value e) \<Longrightarrow> utf16_value (turn_value a) \<Longrightarrow>
    utf16_value (bound_value d e a)"
  unfolding bound_value_def by (intro utf16_obj) simp

lemma utf16_evaluator:
  "utf16_tables db \<Longrightarrow> (\<And>r. e = Some r \<Longrightarrow> r \<in> set (db_evaluators db)) \<Longrightarrow> utf16_value (evaluator_value e)"
  by (cases e) (auto simp: utf16_tables_def evaluator_value_def)

lemma joined_in: "joined_evaluator dr db = Some r \<Longrightarrow> r \<in> set (db_evaluators db)"
  by (auto simp: joined_evaluator_def split: option.splits dest: find_in)

lemma assert_binding_cases:
  assumes "assert_binding env d db = Some s"
  obtains dr a expected t where "find (\<lambda>r. dr_id r = ad_id d) (db_decisions db) = Some dr"
    "read_authority (dr_turn dr) db = Some a" "execution_binding env d (joined_evaluator dr db) a = Some expected"
    "binding_equal (dr_binding dr) expected" "row_matches env dr d" "find_turn (dr_turn dr) db = Some t"
    "linked_evaluator_ok (joined_evaluator dr db) d" "s = to_turn_source (dr_turn dr) a"
  using assms unfolding assert_binding_def Let_def by (auto split: option.splits if_splits)

text \<open>
  C21.  The binding is tamper evident: while its stored row stands, what verifies under the id of a
  created decision is that decision, up to the order of keys, for the very turn, conversation and
  trigger it was made for.
\<close>

theorem decision_tamper_evident:
  assumes "create_decision env i fresh now db = (db1, Inr d)"
    and "find (\<lambda>r. dr_id r = ad_id d) (db_decisions db2) = find (\<lambda>r. dr_id r = ad_id d) (db_decisions db1)"
    and "assert_binding env d' db2 = Some s" and "ad_id d' = ad_id d"
    and "number_texts (re_number env)" and "utf16_tables db1" and "utf16_tables db2"
    and "utf16_value (decision_value d)" and "utf16_value (decision_value d')"
    and no_collision: "\<And>e a e' a' t u. canonical_decision env d e a = Some t \<Longrightarrow> canonical_decision env d' e' a' = Some u \<Longrightarrow>
      re_hmac env t = re_hmac env u \<Longrightarrow> t = u"
  shows "norm_value (decision_value d') = norm_value (decision_value d)
    \<and> (\<exists>a. read_authority (di_turn i) db = Some a \<and> s = to_turn_source (di_turn i) a)"
  using assms(1)
proof (cases rule: create_decision_cases)
  case (1 a b c)
  let ?dr = "to_decision_row env d b c"
  have ids: "dr_id ?dr = ad_id d" "dr_turn ?dr = di_turn i" "dr_binding ?dr = b"
    by (simp_all add: to_decision_row_def 1(3) build_fields split: prod.splits)
  have "find (\<lambda>r. dr_id r = ad_id d) (db_decisions db) = None"
    using 1(7) by (auto simp: decision_row_ok_def find_None_iff ids)
  then have found: "find (\<lambda>r. dr_id r = ad_id d) (db_decisions db1) = Some ?dr"
    unfolding 1(8) by (simp add: find_append_right ids)
  from assms(3) show ?thesis
  proof (cases rule: assert_binding_cases)
    case (1 dr a' b' t)
    with found assms(2,4) have dr: "dr = ?dr" by simp
    from \<open>execution_binding env d (input_row env i) a = Some b\<close> obtain t where
      t: "canonical_decision env d (input_row env i) a = Some t" "b = lit ''v1:'' @ re_hmac env t"
      by (auto simp: execution_binding_def)
    from 1(3) obtain u where u: "canonical_decision env d' (joined_evaluator dr db2) a' = Some u" "b' = lit ''v1:'' @ re_hmac env u"
      by (auto simp: execution_binding_def)
    have "drop 3 b = drop 3 b'" using 1(4) unfolding dr ids(3) binding_equal_def by blast
    then have "re_hmac env t = re_hmac env u" by (simp add: t(2) u(2) lit_def)
    from no_collision [OF t(1) u(1) this] have tu: "t = u" .
    have row: "r \<in> set (db_evaluators db1)" if "input_row env i = Some r" for r
      using that unfolding \<open>db1 = _\<close> by (simp add: with_evidence_def)
    have "read_authority (di_turn i) db1 = Some a"
      unfolding \<open>db1 = _\<close> read_authority_link using \<open>read_authority (di_turn i) db = Some a\<close>
      by (subst read_authority_frame [of _ db]) simp_all
    then have v: "utf16_value (bound_value d (input_row env i) a)"
      using utf16_bound [OF assms(8) utf16_evaluator [OF assms(6) row] utf16_authority [OF assms(6)]] by simp
    have w: "utf16_value (bound_value d' (joined_evaluator dr db2) a')"
      by (rule utf16_bound [OF assms(9) utf16_evaluator [OF assms(7) joined_in] utf16_authority [OF assms(7) 1(2)]])
    from canonical_same [OF assms(5) v w canonical_decision_bound [OF t(1)] canonical_decision_bound [OF u(1)]] tu
    have "norm_value (bound_value d (input_row env i) a) = norm_value (bound_value d' (joined_evaluator dr db2) a')" by simp
    from bound_value_norm [OF this] 1(8) dr ids \<open>read_authority (di_turn i) db = Some a\<close> show ?thesis by simp
  qed
qed

end
