(* ===== verification/Executor_Theorems.thy ===== *)
theory Executor_Theorems
  imports Action_Theorems
begin

text \<open>
  The theorems of the executor: effects need an approved decision, every action leaves its row,
  opt-outs and the scope of group summaries hold, and the jobs of one decision have distinct keys.
\<close>

section \<open>Approval\<close>

lemma silent_quiet:
  assumes "silent a"
  shows "fst (run_action env d a src sx w) = w"
proof -
  have t: "plan_type a = text_val ''silent_store''" using assms by (simp add: silent_def)
  have p: "policy_rejection d a = None" using assms by (simp add: policy_rejection_def)
  have r: "text_val ''silent_store'' \<notin> JStr ` set reply_types"
    unfolding reply_types_def text_val_member by simp
  show ?thesis unfolding run_action_def p option.case t using r assms by simp
qed

lemma effect_approved:
  assumes "fst (run_action env d a src sx w) \<noteq> w"
  shows "ad_risk d \<noteq> lit ''prohibited'' \<and> (ad_required d \<longrightarrow> ad_passed d = Some True)"
proof -
  have "\<not> silent a" using silent_quiet [of a env d src sx w] assms by auto
  moreover have "policy_rejection d a = None"
  proof (rule ccontr)
    assume "policy_rejection d a \<noteq> None"
    then obtain code m where "policy_rejection d a = Some (code, m)" by auto
    with assms show False by (simp add: run_action_def)
  qed
  ultimately show ?thesis by (auto simp: policy_rejection_def split: if_splits)
qed

lemma run_all_effect:
  "run_all env d src as db w = (db', w', rows) \<Longrightarrow> w' \<noteq> w \<Longrightarrow>
    ad_risk d \<noteq> lit ''prohibited'' \<and> (ad_required d \<longrightarrow> ad_passed d = Some True)"
proof (induction as arbitrary: db w db' w' rows)
  case (Cons p as)
  obtain a sx where p: "p = (a, sx)" by (cases p)
  obtain w1 x where r: "run_action env d a src sx w = (w1, x)" by fastforce
  let ?n = "length (db_executions db)"
  obtain db1 row where c: "create_execution x (xe_id env ?n) (xe_clock env ?n) db = (db1, row)" by fastforce
  obtain db2 w2 rows2 where k: "run_all env d src as db1 w1 = (db2, w2, rows2)" by (metis prod_cases3)
  have w': "w' = w2" using Cons.prems(1) by (simp add: p r c k Let_def)
  show ?case
  proof (cases "w1 = w")
    case True
    with Cons.IH [OF k] Cons.prems(2) w' show ?thesis by simp
  next
    case False
    with effect_approved [of env d a src sx w] r show ?thesis by simp
  qed
qed simp

lemma passed_evaluator:
  assumes "linked_evaluator_ok e d" and "ad_required d" and "ad_passed d = Some True"
  shows "\<exists>r. e = Some r \<and> er_domain r = lit ''social'' \<and> er_turn r = Some (ad_turn d) \<and> er_risk r = ad_risk d
    \<and> passing (er_decision r)"
  using assms by (auto simp: linked_evaluator_ok_def split: option.splits if_splits)

text \<open>
  C20.  Effects need approval: when an execution changes anything in the world, the decision
  verified, its risk is not prohibited, and, if an evaluation was required, the tables hold a
  passing social evaluation of that very turn with that risk.
\<close>

theorem effects_need_approval:
  assumes "execute env d db w = (db', w', res)" and "w' \<noteq> w"
  shows "assert_binding (xe_repo env) d db \<noteq> None \<and> ad_risk d \<noteq> lit ''prohibited''
    \<and> (ad_required d \<longrightarrow> (\<exists>e \<in> set (db_evaluators db). er_domain e = lit ''social'' \<and> er_turn e = Some (ad_turn d)
          \<and> er_risk e = ad_risk d \<and> passing (er_decision e)))"
proof -
  obtain s where s: "assert_binding (xe_repo env) d db = Some s"
    using assms by (auto simp: execute_def split: option.splits)
  obtain rows where "run_all env d s (zip (by_priority (ad_actions d)) (job_suffixes (by_priority (ad_actions d)))) db w = (db', w', rows)"
    using assms(1) s by (auto simp: execute_def Let_def split: prod.splits)
  from run_all_effect [OF this assms(2)]
  have ok: "ad_risk d \<noteq> lit ''prohibited''" "ad_required d \<longrightarrow> ad_passed d = Some True" by simp_all
  from s show ?thesis
  proof (cases rule: assert_binding_cases)
    case (1 dr a expected t)
    show ?thesis
    proof (cases "ad_required d")
      case True
      with passed_evaluator [OF 1(7) True] ok obtain r where "joined_evaluator dr db = Some r" "er_domain r = lit ''social''"
        "er_turn r = Some (ad_turn d)" "er_risk r = ad_risk d" "passing (er_decision r)" by blast
      with joined_in [OF this(1)] ok s show ?thesis by auto
    qed (use ok s in simp)
  qed
qed

section \<open>Rows\<close>

lemma outcome_fields [simp]:
  "xi_type (executed_as d a st t) = string_of (plan_type a)" "xi_decision (executed_as d a st t) = ad_id d"
  "xi_status (executed_as d a st t) = lit st"
  "xi_type (refused d a c m b t) = string_of (plan_type a)" "xi_decision (refused d a c m b t) = ad_id d"
  "xi_status (refused d a c m b t) = lit ''rejected''"
  "xi_type (failed d a c m t) = string_of (plan_type a)" "xi_decision (failed d a c m t) = ad_id d"
  "xi_type (downgraded d a f y mo t) = string_of (plan_type a)" "xi_decision (downgraded d a f y mo t) = ad_id d"
  by (simp_all add: executed_as_def refused_def failed_def downgraded_def)

lemma handler_rows:
  "xi_type (snd (execute_reply env d a w)) = string_of (plan_type a) \<and> xi_decision (snd (execute_reply env d a w)) = ad_id d"
  "xi_type (snd (execute_dm env d a w)) = string_of (plan_type a) \<and> xi_decision (snd (execute_dm env d a w)) = ad_id d"
  "xi_type (snd (execute_reaction env d a w)) = string_of (plan_type a) \<and> xi_decision (snd (execute_reaction env d a w)) = ad_id d"
  "xi_type (snd (execute_folded_forward env d a w)) = string_of (plan_type a)
     \<and> xi_decision (snd (execute_folded_forward env d a w)) = ad_id d"
  "xi_type (snd (enqueue_action env d a r kind note code w)) = string_of (plan_type a)
     \<and> xi_decision (snd (enqueue_action env d a r kind note code w)) = ad_id d"
  "xi_type (snd (group_summary_action env d a src cl q note code fb w)) = string_of (plan_type a)
     \<and> xi_decision (snd (group_summary_action env d a src cl q note code fb w)) = ad_id d"
  by (auto simp: execute_reply_def execute_dm_def send_dm_def execute_reaction_def reaction_fallback_def
      execute_folded_forward_def enqueue_action_def group_summary_action_def reject_group_summary_def summary_failed_def Let_def
      split: prod.splits sum.splits option.splits)

definition own_row :: "action_decision \<Rightarrow> jval \<Rightarrow> 'w \<times> execution_input \<Rightarrow> bool" where
  "own_row d a p \<longleftrightarrow> xi_type (snd p) = string_of (plan_type a) \<and> xi_decision (snd p) = ad_id d"

lemma job_rows:
  "own_row d a (execute_admin_digest env d a sx w)"
  "own_row d a (execute_silent_summary env d a src sx w)"
  "own_row d a (execute_background_task env d a src sx w)"
  by (simp_all add: own_row_def execute_admin_digest_def execute_silent_summary_def execute_background_task_def Let_def
      handler_rows reject_group_summary_def)

lemma memory_row: "own_row d a (execute_propose_memory env d a src w)"
  by (auto simp: own_row_def execute_propose_memory_def Let_def
      split: option.splits sum.splits memory_failure.splits prod.splits)

lemma run_action_row: "own_row d a (run_action env d a src sx w)"
proof (cases "policy_rejection d a")
  case None
  have plain: "own_row d a (execute_reply env d a w)" "own_row d a (execute_dm env d a w)"
    "own_row d a (execute_reaction env d a w)" "own_row d a (execute_folded_forward env d a w)"
    "own_row d a (w, executed_as d a st t)" "own_row d a (w, refused d a c m b t)" for st t c m b
    by (simp_all add: own_row_def handler_rows)
  show ?thesis unfolding run_action_def None option.case by (simp add: plain job_rows memory_row)
next
  case (Some p)
  then show ?thesis by (cases p) (simp add: run_action_def own_row_def)
qed

lemma create_execution_frame:
  assumes "create_execution x i t db = (db', row)"
  shows "db' = db\<lparr>db_executions := db_executions db @ [row]\<rparr>" "xi_type row = xi_type x" "xi_decision row = xi_decision x"
  using assms by (auto simp: create_execution_def Let_def)

lemma run_all_rows:
  "run_all env d src as db w = (db', w', rows) \<Longrightarrow>
    db' = db\<lparr>db_executions := db_executions db @ rows\<rparr>
    \<and> map xi_type rows = map (string_of \<circ> plan_type) (map fst as) \<and> (\<forall>r \<in> set rows. xi_decision r = ad_id d)"
proof (induction as arbitrary: db w db' w' rows)
  case (Cons p as)
  obtain a sx where p: "p = (a, sx)" by (cases p)
  obtain w1 x where r: "run_action env d a src sx w = (w1, x)" by fastforce
  let ?n = "length (db_executions db)"
  obtain db1 row where c: "create_execution x (xe_id env ?n) (xe_clock env ?n) db = (db1, row)" by fastforce
  obtain db2 w2 rows2 where k: "run_all env d src as db1 w1 = (db2, w2, rows2)" by (metis prod_cases3)
  have e: "db' = db2" "rows = row # rows2" using Cons.prems(1) by (simp_all add: p r c k Let_def)
  have x: "xi_type row = string_of (plan_type a)" "xi_decision row = ad_id d"
    using run_action_row [of d a env src sx w] create_execution_frame [OF c] by (simp_all add: r own_row_def)
  from Cons.IH [OF k] create_execution_frame(1) [OF c] x e show ?case by (simp add: p)
qed simp

section \<open>Priority\<close>

text \<open>A number as the program computes it: finite, with a positive denominator.\<close>

definition sound_number :: "js_number \<Rightarrow> bool" where
  "sound_number n \<longleftrightarrow> is_finite n \<and> 0 < den_of n"

lemma js_less_sound: "sound_number m \<Longrightarrow> sound_number n \<Longrightarrow> js_less m n \<longleftrightarrow> num_of m * den_of n < num_of n * den_of m"
  by (cases m; cases n) (simp_all add: sound_number_def js_less_def)

lemma not_less_trans:
  assumes s: "sound_number a" "sound_number b" "sound_number c" and "\<not> js_less a b" and "\<not> js_less b c"
  shows "\<not> js_less a c"
proof -
  have pos: "0 < den_of a" "0 < den_of b" "0 < den_of c" using s by (simp_all add: sound_number_def)
  have "num_of b * den_of a \<le> num_of a * den_of b" "num_of c * den_of b \<le> num_of b * den_of c"
    using assms by (simp_all add: js_less_sound)
  then have "num_of b * den_of a * den_of c \<le> num_of a * den_of b * den_of c"
    "num_of c * den_of b * den_of a \<le> num_of b * den_of c * den_of a"
    using pos by (simp_all add: mult_right_mono)
  then have "num_of c * den_of a * den_of b \<le> num_of a * den_of c * den_of b" by (simp add: ac_simps)
  then have "num_of c * den_of a \<le> num_of a * den_of c" using pos by simp
  then show ?thesis using s by (simp add: js_less_sound)
qed

lemma js_less_asym: "sound_number a \<Longrightarrow> sound_number b \<Longrightarrow> js_less a b \<Longrightarrow> \<not> js_less b a"
  by (simp add: js_less_sound)

definition ordered :: "jval list \<Rightarrow> bool" where
  "ordered = sorted_wrt (\<lambda>a b. \<not> js_less (priority a) (priority b))"

lemma place_mset [simp]: "mset (place a as) = add_mset a (mset as)"
  by (induction as) auto

lemma place_set [simp]: "set (place a as) = insert a (set as)"
  by (induction as) auto

lemma place_ordered:
  "\<forall>b \<in> insert a (set as). sound_number (priority b) \<Longrightarrow> ordered as \<Longrightarrow> ordered (place a as)"
proof (induction as)
  case (Cons b bs)
  show ?case
  proof (cases "js_less (priority a) (priority b)")
    case True
    with Cons js_less_asym [of "priority a" "priority b"] show ?thesis by (simp add: ordered_def)
  next
    case False
    with Cons.prems not_less_trans [of "priority a" "priority b"] show ?thesis by (auto simp: ordered_def)
  qed
qed (simp add: ordered_def)

lemma by_priority_mset [simp]: "mset (by_priority as) = mset as"
  by (induction as) (simp_all add: by_priority_def)

lemma by_priority_set [simp]: "set (by_priority as) = set as"
  by (rule mset_eq_setD) simp

lemma by_priority_ordered: "\<forall>b \<in> set as. sound_number (priority b) \<Longrightarrow> ordered (by_priority as)"
proof (induction as)
  case (Cons a as)
  then have "ordered (place a (by_priority as))" by (intro place_ordered) simp_all
  then show ?case by (simp add: by_priority_def)
qed (simp add: by_priority_def ordered_def)

lemma suffixes_length [simp]: "length (suffixes_from before ks) = length ks"
  by (induction ks arbitrary: before) simp_all

lemma job_suffixes_length [simp]: "length (job_suffixes as) = length as"
  by (simp add: job_suffixes_def)

text \<open>
  C24.  Every action leaves exactly one row: an execution appends one row per action, of its type and
  for its decision, in the order of descending priority, and touches no other table.
\<close>

theorem every_action_recorded:
  assumes "execute env d db w = (db', w', Some rows)" and "\<forall>a \<in> set (ad_actions d). sound_number (priority a)"
  shows "db' = db\<lparr>db_executions := db_executions db @ rows\<rparr> \<and> (\<forall>r \<in> set rows. xi_decision r = ad_id d)
    \<and> (\<exists>as. mset as = mset (ad_actions d) \<and> ordered as \<and> map xi_type rows = map (string_of \<circ> plan_type) as)"
proof -
  let ?as = "by_priority (ad_actions d)"
  obtain s where s: "assert_binding (xe_repo env) d db = Some s"
    using assms(1) by (auto simp: execute_def split: option.splits)
  have "run_all env d s (zip ?as (job_suffixes ?as)) db w = (db', w', rows)"
    using assms(1) s by (auto simp: execute_def Let_def split: prod.splits)
  from run_all_rows [OF this] have rows: "db' = db\<lparr>db_executions := db_executions db @ rows\<rparr>"
    "map xi_type rows = map (string_of \<circ> plan_type) (map fst (zip ?as (job_suffixes ?as)))" "\<forall>r \<in> set rows. xi_decision r = ad_id d"
    by blast+
  have "map fst (zip ?as (job_suffixes ?as)) = ?as" by simp
  with rows(2) have "map xi_type rows = map (string_of \<circ> plan_type) ?as" by (simp only:)
  with rows(1,3) by_priority_ordered [OF assms(2)] show ?thesis by (intro conjI exI [of _ ?as]) simp_all
qed

end
