(* ===== verification/Social_Theorems.thy ===== *)
theory Social_Theorems
  imports Social_Facts Executor_Theorems
begin

text \<open>
  The theorems of the decision service and of the cooldowns: plans stay well formed, the repository
  accepts what the service hands it, nothing unapproved leaves the bot, and a cooldown spaces the
  actions that share its key.
\<close>

section \<open>Cooldowns\<close>

definition cooldowns_ok :: "cooldowns \<Rightarrow> bool" where
  "cooldowns_ok cds \<longleftrightarrow> (\<forall>p \<in> set cds. ce_type (snd p) \<in> JStr ` set cooldown_types)"

lemma cooldowns_start: "cooldowns_ok []"
  by (simp add: cooldowns_ok_def)

lemma cool_one_silent: "silent a \<Longrightarrow> cool_one now a e = (e, a, [])"
proof -
  assume "silent a"
  then have "plan_type a \<notin> JStr ` set cooldown_types"
    unfolding silent_def cooldown_types_def text_val_def by auto
  then show ?thesis by (simp add: cool_one_def cooldown_eligible_def)
qed

lemma cool_one_cooldowns: "cooldowns_ok e \<Longrightarrow> cool_one now a e = (e', b, s) \<Longrightarrow> cooldowns_ok e'"
proof -
  have u: "set (AList.update k v xs) \<subseteq> insert (k, v) (set xs)" for k v and xs :: cooldowns by (induction xs) auto
  assume e: "cooldowns_ok e" and c: "cool_one now a e = (e', b, s)"
  have "cooldowns_ok (AList.update k \<lparr>ce_expires = x, ce_type = plan_type a\<rparr> e)" if "cooldown_eligible a" for k x
    using e that u [of k "\<lparr>ce_expires = x, ce_type = plan_type a\<rparr>" e] by (auto simp: cooldowns_ok_def cooldown_eligible_def)
  with e c show ?thesis by (auto simp: cool_one_def Let_def split: if_splits option.splits)
qed

lemma apply_cooldowns_ok: "cooldowns_ok e \<Longrightarrow> apply_cooldowns now as e = (e', bs, s) \<Longrightarrow> cooldowns_ok e'"
proof (induction as arbitrary: e e' bs s)
  case (Cons a as)
  then show ?case by (auto split: prod.splits dest: cool_one_cooldowns)
qed simp

definition cooling :: "jval \<Rightarrow> bool" where
  "cooling a \<longleftrightarrow> cooldown_eligible a \<and> truthy (constraint ''cooldownKey'' a) \<and> \<not> nullish (constraint ''cooldownSeconds'' a)
     \<and> \<not> js_not_positive (number_of (constraint ''cooldownSeconds'' a))"

abbreviation key_of :: "jval \<Rightarrow> jstr" where
  "key_of a \<equiv> string_of (constraint ''cooldownKey'' a)"

lemma cool_one_cooling:
  assumes "cooling a"
  shows "cool_one now a e =
    (case map_of e (key_of a) of
       Some x \<Rightarrow> if js_less (JInt now) (ce_expires x) then (e, to_silent_store a x, [lit ''cooldown:'' @ key_of a])
                else (AList.update (key_of a) \<lparr>ce_expires = expiry now (number_of (constraint ''cooldownSeconds'' a)), ce_type = plan_type a\<rparr> e, a, [])
     | None \<Rightarrow> (AList.update (key_of a) \<lparr>ce_expires = expiry now (number_of (constraint ''cooldownSeconds'' a)), ce_type = plan_type a\<rparr> e, a, []))"
  using assms by (simp add: cool_one_def cooling_def Let_def)

text \<open>An entry stands as long as the clock is before its end.\<close>

lemma cool_one_keeps:
  assumes "map_of e k = Some x" and "js_less (JInt now) (ce_expires x)" and "cool_one now a e = (e', b, s)"
  shows "map_of e' k = Some x"
  using assms by (auto simp: cool_one_def Let_def update_conv' split: if_splits option.splits)

lemma apply_cooldowns_keeps:
  "map_of e k = Some x \<Longrightarrow> js_less (JInt now) (ce_expires x) \<Longrightarrow> apply_cooldowns now as e = (e', bs, s) \<Longrightarrow> map_of e' k = Some x"
proof (induction as arbitrary: e e' bs s)
  case (Cons a as)
  obtain e1 b s1 where c: "cool_one now a e = (e1, b, s1)" by (metis prod_cases3)
  obtain e2 bs2 s2 where r: "apply_cooldowns now as e1 = (e2, bs2, s2)" by (metis prod_cases3)
  from cool_one_keeps [OF Cons.prems(1,2) c] have "map_of e1 k = Some x" .
  from Cons.IH [OF this Cons.prems(2) r] Cons.prems(3) show ?case by (simp add: c r)
qed simp

fun cool_calls :: "(int \<times> jval list) list \<Rightarrow> cooldowns \<Rightarrow> cooldowns" where
  "cool_calls [] e = e"
| "cool_calls ((now, as) # cs) e = cool_calls cs (fst (apply_cooldowns now as e))"

lemma cool_calls_keep:
  "map_of e k = Some x \<Longrightarrow> \<forall>c \<in> set cs. js_less (JInt (fst c)) (ce_expires x) \<Longrightarrow> map_of (cool_calls cs e) k = Some x"
proof (induction cs arbitrary: e)
  case (Cons c cs)
  obtain now as where c: "c = (now, as)" by (cases c)
  obtain e1 bs s where r: "apply_cooldowns now as e = (e1, bs, s)" by (metis prod_cases3)
  have "map_of e1 k = Some x" using apply_cooldowns_keeps [OF Cons.prems(1) _ r] Cons.prems(2) c by simp
  with Cons show ?case by (simp add: c r)
qed simp

text \<open>
  C27.  A cooldown spaces actions: once an action with a cooldown has passed, and whatever other calls
  there are meanwhile, the next action with the same key is silenced at every time before the end
  of the cooldown, and the suppressor says so.
\<close>

theorem cooldown_spacing:
  assumes "cooling a" and "cool_one now a e = (e1, a, [])"
    and "\<forall>c \<in> set calls. js_less (JInt (fst c)) (expiry now (number_of (constraint ''cooldownSeconds'' a)))"
    and "cooling b" and "key_of b = key_of a"
    and "js_less (JInt later) (expiry now (number_of (constraint ''cooldownSeconds'' a)))"
  shows "\<exists>c. apply_cooldowns later [b] (cool_calls calls e1) = (cool_calls calls e1, [c], [lit ''cooldown:'' @ key_of b]) \<and> silent c"
proof -
  let ?x = "\<lparr>ce_expires = expiry now (number_of (constraint ''cooldownSeconds'' a)), ce_type = plan_type a\<rparr>"
  have "map_of e1 (key_of a) = Some ?x"
    using assms(2) unfolding cool_one_cooling [OF assms(1)] by (auto simp: update_conv' split: option.splits if_splits)
  then have "map_of (cool_calls calls e1) (key_of a) = Some ?x" using assms(3) by (intro cool_calls_keep) simp_all
  with assms(5,6) have "cool_one later b (cool_calls calls e1)
      = (cool_calls calls e1, to_silent_store b ?x, [lit ''cooldown:'' @ key_of b])"
    by (simp add: cool_one_cooling [OF assms(4)])
  then show ?thesis by (simp add: silent_def plan_type_def to_silent_store_def)
qed

section \<open>What the service stores\<close>

lemma social_decision_stored:
  assumes "social_decision env i cds db = (cds', db', res)" and "\<And>e. res = Inl e \<Longrightarrow> \<exists>x. e = Repository x"
  obtains (failure) "se_evaluate env (request_for env i (base_plan i)) = None"
      "store_decision env (failure_input i [base_plan i]) db = (db', res)" "cds' = cds"
      "requires_evaluator i [base_plan i]"
  | (decided) ev plans reviewed cooled spaced where
      "apply_evaluation [base_plan i] (map_option snd ev) = Inr (plans, reviewed)"
      "apply_cooldowns (se_now env) plans cds = (cds', cooled, spaced)"
      "store_decision env (decided_input i (requires_evaluator i [base_plan i]) ev cooled
         (sig_suppressors (si_signals i) @ reviewed @ spaced)) db = (db', res)"
      "ev = None \<longleftrightarrow> \<not> requires_evaluator i [base_plan i]"
      "\<And>q r. ev = Some (q, r) \<Longrightarrow> q = request_for env i (base_plan i) \<and> sr_request_id r = se_request_id env
         \<and> (\<exists>seen r0. se_evaluate env q = Some (seen, r0) \<and> r = r0\<lparr>sr_reason := sanitize_narrative (sr_reason r0)\<rparr>)"
proof -
  let ?q = "request_for env i (base_plan i)"
  have e: "evaluate_action env i [base_plan i] = (case se_evaluate env ?q of None \<Rightarrow> Inl InvocationFailed
      | Some (seen, r) \<Rightarrow> if \<not> same_request seen ?q then Inl RequestMutated
          else if sr_request_id r \<noteq> sq_id ?q then Inl ForeignResult else Inr (Some (?q, r)))"
    by (simp add: evaluate_action_def Let_def)
  consider (a) "requires_evaluator i [base_plan i]" "se_evaluate env ?q = None" | (b) "\<not> requires_evaluator i [base_plan i]"
    | (c) seen r where "requires_evaluator i [base_plan i]" "se_evaluate env ?q = Some (seen, r)" "same_request seen ?q" "sr_request_id r = sq_id ?q"
    | (x) seen r where "requires_evaluator i [base_plan i]" "se_evaluate env ?q = Some (seen, r)" "\<not> (same_request seen ?q \<and> sr_request_id r = sq_id ?q)"
    by (cases "requires_evaluator i [base_plan i]"; cases "se_evaluate env ?q") auto
  then show thesis
  proof cases
    case a
    with assms(1) failure show thesis by (simp add: social_decision_def build_plans_def Let_def e)
  next
    case b
    obtain cooled spaced where k: "apply_cooldowns (se_now env) [base_plan i] cds = (cds', cooled, spaced)"
      "store_decision env (decided_input i False None cooled (sig_suppressors (si_signals i) @ spaced)) db = (db', res)"
      using assms(1) b by (auto simp: social_decision_def build_plans_def Let_def apply_evaluation_def simp del: apply_cooldowns.simps split: prod.splits)
    show thesis by (rule decided [of None "[base_plan i]" "[]" cooled spaced]) (use b k in \<open>simp_all add: apply_evaluation_def del: apply_cooldowns.simps\<close>)
  next
    case c
    let ?r = "r\<lparr>sr_reason := sanitize_narrative (sr_reason r)\<rparr>"
    have id: "sq_id ?q = se_request_id env" by (simp add: request_for_def)
    obtain plans reviewed where p: "apply_evaluation [base_plan i] (Some ?r) = Inr (plans, reviewed)"
      using assms c by (cases "apply_evaluation [base_plan i] (Some ?r)")
        (auto simp: social_decision_def build_plans_def Let_def e clean_evidence_def)
    obtain cooled spaced where k: "apply_cooldowns (se_now env) plans cds = (cds', cooled, spaced)"
      "store_decision env (decided_input i True (Some (?q, ?r)) cooled (sig_suppressors (si_signals i) @ reviewed @ spaced)) db = (db', res)"
      using assms(1) c p by (auto simp: social_decision_def build_plans_def Let_def e clean_evidence_def split: prod.splits)
    show thesis
      by (rule decided [of "Some (?q, ?r)" plans reviewed cooled spaced]) (use c p k id in auto)
  next
    case x
    with assms show thesis by (auto simp: social_decision_def build_plans_def Let_def e split: if_splits)
  qed
qed


section \<open>Nothing unapproved leaves\<close>

lemma valid_evidence_facts:
  assumes "validate_evidence db i q r a = None"
  shows "passing (sr_decision r) \<or> list_all silent (di_actions i)"
  using assms unfolding validate_evidence_def Let_def by (auto split: if_splits)

lemma run_all_quiet:
  "\<forall>p \<in> set as. silent (fst p) \<Longrightarrow> run_all env d src as db w = (db', w', rows) \<Longrightarrow> w' = w"
proof (induction as arbitrary: db w db' rows)
  case (Cons p as)
  obtain a sx where p: "p = (a, sx)" by (cases p)
  obtain w1 x where r: "run_action env d a src sx w = (w1, x)" by fastforce
  let ?n = "length (db_executions db)"
  obtain db1 row where c: "create_execution x (xe_id env ?n) (xe_clock env ?n) db = (db1, row)" by fastforce
  obtain db2 w2 rows2 where k: "run_all env d src as db1 w1 = (db2, w2, rows2)" by (metis prod_cases3)
  have "w1 = w" using silent_quiet [of a env d src sx w] Cons.prems(1) r by (simp add: p)
  with Cons.IH [of db1 w1 db2 rows2] Cons.prems k show ?case by (simp add: p r c Let_def)
qed simp

lemma quiet_execution:
  assumes "list_all silent (ad_actions d)" and "execute env d db w = (db', w', res)"
  shows "w' = w"
proof (cases "assert_binding (xe_repo env) d db")
  case None
  with assms(2) show ?thesis by (simp add: execute_def)
next
  case (Some src)
  let ?as = "by_priority (ad_actions d)"
  obtain rows where r: "run_all env d src (zip ?as (job_suffixes ?as)) db w = (db', w', rows)"
    using assms(2) Some by (auto simp: execute_def Let_def split: prod.splits)
  have "silent (fst p)" if "p \<in> set (zip ?as (job_suffixes ?as))" for p
  proof -
    obtain a sx where p: "p = (a, sx)" by fastforce
    with that have "a \<in> set ?as" by (auto dest: set_zip_leftD)
    with assms(1) p show ?thesis by (simp add: list_all_iff)
  qed
  with run_all_quiet [OF _ r] show ?thesis by blast
qed

lemma review_required:
  "sig_class (si_signals i) = NeedsEvaluation \<or> is_proactive i \<Longrightarrow> requires_evaluator i [base_plan i]"
  by (auto simp: requires_evaluator_def constraint_def base_plan_def review_needed_def truthy_def Let_def)

text \<open>
  C25.  Nothing unapproved leaves the bot: when the attention engine asked for a review or the bot speaks
  on its own account, and the evaluator throws or does not pass the action, then executing the stored
  decision, at any later time, sends nothing and changes nothing in the world.
\<close>

theorem unapproved_stays_silent:
  assumes "social_decision env i cds db = (cds', db', Inr d)"
    and "sig_class (si_signals i) = NeedsEvaluation \<or> is_proactive i"
    and "\<And>q seen r. se_evaluate env q = Some (seen, r) \<Longrightarrow> \<not> passing (sr_decision r)"
    and "execute xenv d db1 w = (db2, w', res)"
  shows "w' = w"
proof (rule quiet_execution [OF _ assms(4)])
  have built: "list_all silent (ad_actions d)"
    if "store_decision env x db = (db', Inr d)" and "\<And>a. validate_authority db x a = None \<Longrightarrow> list_all silent (di_actions x)" for x
  proof -
    from that(1) have "create_decision (se_repo env) x (se_fresh env) (se_created env) db = (db', Inr d)"
      by (auto simp: store_decision_def split: prod.splits sum.splits)
    then obtain a where "d = build_decision (se_repo env) x (se_fresh env) (se_created env)" "validate_authority db x a = None"
      by (rule create_decision_cases)
    with that(2) show ?thesis using guard_silent by (simp add: build_fields)
  qed
  from assms(1) show "list_all silent (ad_actions d)"
  proof (rule social_decision_stored)
    assume "store_decision env (failure_input i [base_plan i]) db = (db', Inr d)"
    then show ?thesis by (rule built) (simp add: failure_input_def suppressed_silent)
  next
    fix ev plans reviewed cooled spaced
    assume s: "store_decision env (decided_input i (requires_evaluator i [base_plan i]) ev cooled
         (sig_suppressors (si_signals i) @ reviewed @ spaced)) db = (db', Inr d)"
      and none: "ev = None \<longleftrightarrow> \<not> requires_evaluator i [base_plan i]"
      and from_evaluator: "\<And>q r. ev = Some (q, r) \<Longrightarrow> q = request_for env i (base_plan i) \<and> sr_request_id r = se_request_id env
         \<and> (\<exists>seen r0. se_evaluate env q = Some (seen, r0) \<and> r = r0\<lparr>sr_reason := sanitize_narrative (sr_reason r0)\<rparr>)"
    obtain q r where ev: "ev = Some (q, r)" using none review_required [OF assms(2)] by (cases ev) auto
    have "\<not> passing (sr_decision r)" using from_evaluator [OF ev] assms(3) by auto
    with s show ?thesis
      by (intro built [OF s]) (auto simp: validate_authority_def decided_input_def Let_def ev dest: valid_evidence_facts)
  qed simp
qed

section \<open>The repository accepts what the service hands it\<close>

lemma cooled_canonical:
  assumes "plan_ok b" and "cool_one now b e = (e', c, s)" and "cooldowns_ok e" and "s \<noteq> []" and "set s \<subseteq> set sups"
  shows "canonical_suppression [b] [c] sups"
proof -
  obtain x where el: "cooldown_eligible b" and key: "truthy (constraint ''cooldownKey'' b)"
    and pos: "\<not> js_not_positive (if nullish (constraint ''cooldownSeconds'' b) then JInt 0 else number_of (constraint ''cooldownSeconds'' b))"
    and x: "map_of e (string_of (constraint ''cooldownKey'' b)) = Some x"
    and c: "c = to_silent_store b x" and s: "s = [lit ''cooldown:'' @ string_of (constraint ''cooldownKey'' b)]"
    using assms(2,4) by (auto simp: cool_one_def Let_def split: if_splits option.splits)
  have ok: "constraints_ok (path b [''constraints''])" using assms(1) by (simp add: plan_ok_def)
  then have "opt is_text (constraint ''cooldownKey'' b)" "opt is_number (constraint ''cooldownSeconds'' b)"
    by (simp_all add: constraints_ok_def constraint_def)
  with key pos obtain k n where k: "constraint ''cooldownKey'' b = JStr k" and n: "constraint ''cooldownSeconds'' b = JNum n" "is_finite n"
    by (cases "constraint ''cooldownKey'' b"; cases "constraint ''cooldownSeconds'' b")
      (auto simp: opt_def js_not_positive_def js_less_def nullish_def)
  have "js_less (JInt 0) n" using pos n by (cases n) (simp_all add: js_not_positive_def nullish_def)
  moreover have "k \<noteq> []" using key k by (auto simp: truthy_def)
  moreover have "ce_type x \<in> JStr ` set cooldown_types" using assms(3) x k map_of_SomeD by (fastforce simp: cooldowns_ok_def)
  then obtain t where t: "ce_type x = JStr t" "t \<in> set cooldown_types" by blast
  moreover have "deep_equal c c" unfolding c using cooled_ok [OF assms(1)] deep_equal_refl by (simp add: plan_ok_def)
  moreover have "silent c" by (simp add: c silent_def plan_type_def to_silent_store_def)
  moreover have "path c [''reason''] = JStr (lit ''Downgraded from '' @ string_of (plan_type b) @ lit ''; cooldown active for '' @ t)"
    by (simp add: c to_silent_store_def t)
  moreover have "c = obj [(''type'', text_val ''silent_store''), (''priority'', path b [''priority'']), (''target'', path b [''target'']),
      (''constraints'', put_field ''cooldownKey'' (JStr k) (path b [''constraints''])), (''reason'', path c [''reason''])]"
    by (simp add: c to_silent_store_def k)
  ultimately show ?thesis using el n k s assms(5)
    by (simp add: canonical_suppression_def Let_def prefix_def del: path.simps)
qed

text \<open>The errors that the decision service can only meet through its surroundings.\<close>

definition outside_errors :: "action_error set" where
  "outside_errors = {ProhibitedPass, InvocationUnbound, BindingInvalid, RowRefused}"

lemma create_refusal:
  assumes "create_decision env x fresh now db = (db', Inl e)" and "read_authority (di_turn x) db = Some a"
  shows "e \<in> outside_errors \<or> validate_authority db x a = Some e"
  using assms by (auto simp: create_decision_def outside_errors_def Let_def split: option.splits if_splits)

lemma trigger_exists: "read_authority t db = Some a \<Longrightarrow> find_event (ta_trigger a) db \<noteq> None"
  by (auto simp: read_authority_def Let_def split: option.splits)

lemma evaluated_single:
  assumes "apply_evaluation [b] (Some r) = Inr (plans, ss)" and "result_ok r"
  shows "\<exists>c. plans = [c] \<and> (passing (sr_decision r) \<longrightarrow> apply_passing [b] r = Inr ([c], ss)) \<and> (\<not> passing (sr_decision r) \<longrightarrow> silent c)"
proof (cases "sr_decision r = lit ''reject'' \<or> sr_decision r = lit ''propose''")
  case True
  then have "\<not> passing (sr_decision r)" by (auto simp: passing_def)
  with True assms(1) show ?thesis by (auto simp: apply_evaluation_def suppressed_silent)
next
  case False
  with assms(2) have "passing (sr_decision r)" by (auto simp: result_ok_def social_outcomes_def passing_def)
  moreover have p: "apply_passing [b] r = Inr (plans, ss)" using False assms(1) by (simp add: apply_evaluation_def)
  moreover have "\<exists>c. plans = [c]" using p by (auto simp: apply_passing_def split: if_splits)
  ultimately show ?thesis by auto
qed

lemma evidence_accepted:
  assumes "q = request_for env i (base_plan i)" and "sr_request_id r = se_request_id env" and "result_ok r"
    and "apply_evaluation [base_plan i] (Some r) = Inr (plans, reviewed)"
    and "apply_cooldowns (se_now env) plans cds = (cds', cooled, spaced)" and "cooldowns_ok cds"
    and "ta_trigger a = si_event i" and "si_event i \<noteq> []" and "find_event (si_event i) db \<noteq> None"
    and "validate_evidence db (decided_input i True (Some (q, r)) cooled (sups @ reviewed @ spaced)) q r a = Some e"
  shows "e = ProhibitedPass"
proof -
  let ?x = "decided_input i True (Some (q, r)) cooled (sups @ reviewed @ spaced)"
  obtain c where c: "plans = [c]" "passing (sr_decision r) \<longrightarrow> apply_passing [base_plan i] r = Inr ([c], reviewed)"
    "\<not> passing (sr_decision r) \<longrightarrow> silent c"
    using evaluated_single [OF assms(4,3)] by blast
  obtain k s where k: "cool_one (se_now env) c cds = (cds', k, s)" "cooled = [k]" "spaced = s"
    using assms(5) unfolding c(1) by (auto split: prod.splits)
  have x: "di_turn ?x = si_turn i" "di_decided_by ?x = lit ''evaluator''" "di_required ?x" "di_passed ?x = Some (passing (sr_decision r))"
    "di_risk ?x = sr_risk r" "di_confidence ?x = sr_confidence r" "di_actions ?x = cooled" "di_suppressors ?x = sups @ reviewed @ spaced"
    by (simp_all add: decided_input_def)
  have q: "sq_turn q = si_turn i" "sq_id q = se_request_id env" "sq_domain q = lit ''social''" "sq_sources q = JArr [JStr (si_event i)]"
    "sq_proposed q = base_plan i"
    by (simp_all add: assms(1) request_for_def)
  have r: "sr_domain r = lit ''social''" using assms(3) by (simp add: result_ok_def)
  have quiet: "\<not> passing (sr_decision r) \<Longrightarrow> list_all silent cooled"
    using c(3) k cool_one_silent [of c "se_now env" cds] by simp
  have same: "deep_equal (JArr cooled) (JArr [c]) \<or> canonical_suppression [c] cooled (sups @ reviewed @ spaced)" if "passing (sr_decision r)"
  proof -
    have "plan_ok c" using evaluated_ok [OF assms(4)] base_plan_ok assms(3) c(1) by simp
    then have "s = [] \<Longrightarrow> k = c" "s \<noteq> [] \<Longrightarrow> canonical_suppression [c] [k] (sups @ reviewed @ spaced)" "deep_equal c c"
      using k cooled_canonical [OF _ k(1) assms(6)] deep_equal_refl
      by (auto simp: cool_one_def plan_ok_def Let_def split: if_splits option.splits)
    with k show ?thesis by (cases "s = []") auto
  qed
  show ?thesis
    using assms(10) quiet same c(2) unfolding validate_evidence_def x q r Let_def
    by (auto simp: x(3) assms(2,7,8,9) split: if_splits sum.splits prod.splits)
qed

text \<open>
  The repository accepts what the decision service hands it.  When the turn and its trigger are in
  the tables and the evaluator gives well-formed results, a refusal never blames the evidence, the
  evaluated plans or the suppressors of a cooldown; what remains is a passing result of prohibited risk,
  an unbound model invocation, or a constraint of the tables.  The cooldowns keep their form.
\<close>

theorem social_decision_accepted:
  assumes "social_decision env i cds db = (cds', db', Inl (Repository e))" and "cooldowns_ok cds"
    and "\<And>q seen r. se_evaluate env q = Some (seen, r) \<Longrightarrow> result_ok r"
    and "read_authority (si_turn i) db = Some a" and "ta_trigger a = si_event i" and "si_event i \<noteq> []"
  shows "e \<in> outside_errors \<and> cooldowns_ok cds'"
proof -
  have event: "find_event (si_event i) db \<noteq> None" using trigger_exists [OF assms(4)] assms(5) by simp
  have refused: "e \<in> outside_errors \<or> validate_authority db x a = Some e"
    if "store_decision env x db = (db', Inl (Repository e))" and "di_turn x = si_turn i" for x
  proof -
    from that(1) have "create_decision (se_repo env) x (se_fresh env) (se_created env) db = (db', Inl e)"
      by (auto simp: store_decision_def split: prod.splits sum.splits)
    from create_refusal [OF this] assms(4) that(2) show ?thesis by simp
  qed
  from assms(1) show ?thesis
  proof (rule social_decision_stored)
    assume "store_decision env (failure_input i [base_plan i]) db = (db', Inl (Repository e))" and "cds' = cds"
    with refused [of "failure_input i [base_plan i]"] assms(2) show ?thesis
      by (auto simp: failure_input_def validate_authority_def lit_def)
  next
    fix ev plans reviewed cooled spaced
    let ?x = "decided_input i (requires_evaluator i [base_plan i]) ev cooled (sig_suppressors (si_signals i) @ reviewed @ spaced)"
    assume e: "apply_evaluation [base_plan i] (map_option snd ev) = Inr (plans, reviewed)"
      and c: "apply_cooldowns (se_now env) plans cds = (cds', cooled, spaced)"
      and s: "store_decision env ?x db = (db', Inl (Repository e))"
      and none: "ev = None \<longleftrightarrow> \<not> requires_evaluator i [base_plan i]"
      and from_evaluator: "\<And>q r. ev = Some (q, r) \<Longrightarrow> q = request_for env i (base_plan i) \<and> sr_request_id r = se_request_id env
         \<and> (\<exists>seen r0. se_evaluate env q = Some (seen, r0) \<and> r = r0\<lparr>sr_reason := sanitize_narrative (sr_reason r0)\<rparr>)"
    have turn: "di_turn ?x = si_turn i" by (simp add: decided_input_def Let_def)
    have "e \<in> outside_errors"
    proof (cases ev)
      case None
      with refused [OF s turn] show ?thesis by (auto simp: validate_authority_def decided_input_def Let_def lit_def)
    next
      case (Some p)
      obtain q r where ev: "ev = Some (q, r)" using Some by (cases p) auto
      from from_evaluator [OF ev] assms(3) have q: "q = request_for env i (base_plan i)" "sr_request_id r = se_request_id env"
        and "\<exists>r0. result_ok r0 \<and> r = r0\<lparr>sr_reason := sanitize_narrative (sr_reason r0)\<rparr>" by blast+
      then have ok: "result_ok r" by (auto simp: result_ok_def)
      have req: "requires_evaluator i [base_plan i] = True" using none ev by simp
      have "validate_authority db ?x a = validate_evidence db ?x q r a" by (simp add: validate_authority_def decided_input_def ev)
      with refused [OF s turn] evidence_accepted [OF q ok _ c assms(2,5,6) event] e ev req
      show ?thesis by (auto simp: outside_errors_def)
    qed
    with apply_cooldowns_ok [OF assms(2) c] show ?thesis by simp
  qed simp
qed

end
