(* ===== verification/Executor_Scope.thy ===== *)
theory Executor_Scope
  imports Executor_Theorems
begin

text \<open>
  Opt-outs, the scope of group summaries and the keys of the jobs of one decision.
\<close>

section \<open>Dispatch\<close>

lemma reply_types_not [simp]:
  "text_val ''dm_user'' \<notin> JStr ` set reply_types" "text_val ''propose_memory'' \<notin> JStr ` set reply_types"
  "text_val ''schedule_background_task'' \<notin> JStr ` set reply_types" "text_val ''silent_summarize_later'' \<notin> JStr ` set reply_types"
  "text_val ''admin_digest'' \<notin> JStr ` set reply_types"
  unfolding reply_types_def text_val_member by simp_all

lemma run_refused:
  "policy_rejection d a = Some p \<Longrightarrow> fst (run_action env d a src sx w) = w \<and> xi_status (snd (run_action env d a src sx w)) = lit ''rejected''"
  by (cases p) (simp add: run_action_def)

lemma run_dispatch:
  assumes "policy_rejection d a = None"
  shows "plan_type a = text_val ''dm_user'' \<Longrightarrow> run_action env d a src sx w = execute_dm env d a w"
    "plan_type a = text_val ''propose_memory'' \<Longrightarrow> run_action env d a src sx w = execute_propose_memory env d a src w"
    "plan_type a = text_val ''schedule_background_task'' \<Longrightarrow> run_action env d a src sx w = execute_background_task env d a src sx w"
    "plan_type a = text_val ''silent_summarize_later'' \<Longrightarrow> run_action env d a src sx w = execute_silent_summary env d a src sx w"
    "plan_type a = text_val ''admin_digest'' \<Longrightarrow> run_action env d a src sx w = execute_admin_digest env d a sx w"
  by (simp_all add: run_action_def assms)

section \<open>Opt-outs\<close>

text \<open>
  Opt-outs hold: a proactive direct message to a user who opted out of them, and a memory
  proposal about a user who opted out of memory association, are rejected without any effect.
\<close>

theorem opt_outs_respected:
  assumes "xe_opted env = Some opted"
    and "plan_type a = text_val ''dm_user'' \<and> constraint ''proactive'' a = JBool True
        \<and> opted (string_of (target ''canonicalUserId'' a)) (lit ''proactive_dm'') w
      \<or> plan_type a = text_val ''propose_memory''
        \<and> (\<exists>p u. parse_proposal a (path a [''payload'', ''memoryProposal'']) = Inr p \<and> mp_user p = Some u
             \<and> opted u (lit ''memory_association'') w)"
  shows "fst (run_action env d a src sx w) = w \<and> xi_status (snd (run_action env d a src sx w)) = lit ''rejected''"
proof (cases "policy_rejection d a")
  case None
  from assms(2) show ?thesis
  proof (elim disjE conjE exE)
    assume "plan_type a = text_val ''dm_user''" "constraint ''proactive'' a = JBool True"
      "opted (string_of (target ''canonicalUserId'' a)) (lit ''proactive_dm'') w"
    with run_dispatch(1) [OF None, of env src sx w] show ?thesis by (simp add: execute_dm_def assms(1))
  next
    fix p u
    assume "plan_type a = text_val ''propose_memory''" "parse_proposal a (path a [''payload'', ''memoryProposal'']) = Inr p"
      "mp_user p = Some u" "opted u (lit ''memory_association'') w"
    with run_dispatch(2) [OF None, of env src sx w] show ?thesis
      by (simp add: execute_propose_memory_def Let_def assms(1) del: path.simps split: option.splits)
  qed
qed (rule run_refused)

section \<open>Group summaries\<close>

lemma group_summary_effect:
  assumes "fst (group_summary_action env d a src cl r note code fb w) \<noteq> w"
  shows "group_source_error (path a [''target'']) src = None"
  using assms by (auto simp: group_summary_action_def split: option.splits)

lemma group_source_fits:
  assumes "group_source_error t src = None"
  shows "\<exists>g. ts_type src = Some (lit ''group'') \<and> ts_group src = Some g \<and> path t [''groupId''] = JStr g
    \<and> path t [''conversationId''] = JStr (ts_conversation src)"
  using assms by (auto simp: group_source_error_def split: option.splits if_splits)

text \<open>
  A group summary is only ever asked for the group chat that triggered the turn: the target's
  group and conversation are those of the verified source.
\<close>

theorem group_summary_from_trigger:
  assumes "fst (run_action env d a src sx w) \<noteq> w" and "target ''conversationType'' a = text_val ''group''"
    and "plan_type a = text_val ''silent_summarize_later''
      \<or> plan_type a = text_val ''schedule_background_task'' \<and> path a [''payload'', ''backgroundTask'', ''type''] = text_val ''summary''"
  shows "\<exists>g. ts_type src = Some (lit ''group'') \<and> ts_group src = Some g \<and> target ''groupId'' a = JStr g
    \<and> target ''conversationId'' a = JStr (ts_conversation src)"
proof -
  have None: "policy_rejection d a = None"
  proof (rule ccontr)
    assume "policy_rejection d a \<noteq> None"
    then obtain p where "policy_rejection d a = Some p" by auto
    with run_refused [OF this, of env src sx w] assms(1) show False by simp
  qed
  have "group_source_error (path a [''target'']) src = None"
    using assms(3)
  proof (elim disjE conjE)
    assume "plan_type a = text_val ''silent_summarize_later''"
    with run_dispatch(4) [OF None, of env src sx w] assms(1,2) show ?thesis
      by (auto simp: execute_silent_summary_def Let_def split: if_splits dest: group_summary_effect)
  next
    assume t: "plan_type a = text_val ''schedule_background_task''"
      "path a [''payload'', ''backgroundTask'', ''type''] = text_val ''summary''"
    with run_dispatch(3) [OF None, of env src sx w] assms(1,2) show ?thesis
      by (auto simp: execute_background_task_def Let_def split: if_splits dest: group_summary_effect)
  qed
  from group_source_fits [OF this] show ?thesis by (simp add: target_def)
qed

section \<open>Job keys\<close>

text \<open>A world that records the keys of the jobs asked for, and nothing else.\<close>

definition logs_keys :: "jstr list exec_env \<Rightarrow> bool" where
  "logs_keys env \<longleftrightarrow>
     (\<forall>t m w. fst (xe_send env t m w) = w) \<and> (\<forall>f t m w. xe_react env = Some f \<longrightarrow> fst (f t m w) = w)
     \<and> (\<forall>f r w. xe_enqueue env = Some f \<longrightarrow> fst (f r w) = w @ [jr_key r])
     \<and> (\<forall>f r w. xe_summary env = Some f \<longrightarrow> fst (f r w) = w @ [sm_key r])
     \<and> (\<forall>f r w. xe_memory env = Some f \<longrightarrow> fst (f r w) = w)"

definition job_key :: "action_decision \<Rightarrow> jval \<Rightarrow> jstr option \<Rightarrow> jstr" where
  "job_key d a sx =
     (if plan_type a = text_val ''admin_digest'' then digest_key d sx
      else if plan_type a = text_val ''silent_summarize_later'' then silent_summary_key d sx
      else task_key d (string_of (path a [''payload'', ''backgroundTask'', ''type''])) sx)"

definition job_action :: "jval \<Rightarrow> bool" where
  "job_action a \<longleftrightarrow> plan_type a = text_val ''admin_digest'' \<or> plan_type a = text_val ''silent_summarize_later''
     \<or> plan_type a = text_val ''schedule_background_task''
       \<and> path a [''payload'', ''backgroundTask'', ''type''] \<in> JStr ` set background_types"

lemma enqueue_logs:
  "logs_keys env \<Longrightarrow> fst (enqueue_action env d a r kind note code w) = w \<or> fst (enqueue_action env d a r kind note code w) = w @ [jr_key r]"
proof (cases "xe_enqueue env")
  case (Some f)
  assume "logs_keys env"
  with Some have "fst (f r w) = w @ [jr_key r]" by (simp add: logs_keys_def)
  with Some show ?thesis by (cases "f r w") (simp add: enqueue_action_def split: sum.splits)
qed (simp add: enqueue_action_def)

lemma summary_logs:
  "logs_keys env \<Longrightarrow> fst (group_summary_action env d a src cl r note code fb w) = w
    \<or> fst (group_summary_action env d a src cl r note code fb w) = w @ [sm_key r]"
proof (cases "xe_summary env")
  case (Some f)
  assume "logs_keys env"
  with Some have "fst (f r w) = w @ [sm_key r]" by (simp add: logs_keys_def)
  with Some show ?thesis by (cases "f r w") (simp add: group_summary_action_def split: option.splits sum.splits)
qed (simp add: group_summary_action_def split: option.splits)

lemma quiet_sends:
  assumes "logs_keys env"
  shows "fst (execute_reply env d a w) = w" "fst (execute_dm env d a w) = w" "fst (execute_folded_forward env d a w) = w"
    "fst (reaction_fallback env d a r w) = w"
proof -
  have s: "fst (xe_send env t m v) = v" for t m v using assms by (simp add: logs_keys_def)
  have p: "fst (case xe_send env t m v of (v', Inl e) \<Rightarrow> (v', f e) | (v', Inr i) \<Rightarrow> (v', g i)) = v" for t m v f g
    using s [of t m v] by (cases "xe_send env t m v") (simp split: sum.splits)
  show "fst (execute_reply env d a w) = w" by (simp add: execute_reply_def Let_def p)
  show "fst (execute_dm env d a w) = w" by (simp add: execute_dm_def send_dm_def p split: option.splits)
  show "fst (execute_folded_forward env d a w) = w" by (simp add: execute_folded_forward_def Let_def p)
  show "fst (reaction_fallback env d a r w) = w" by (simp add: reaction_fallback_def p)
qed

lemma quiet_reaction: "logs_keys env \<Longrightarrow> fst (execute_reaction env d a w) = w"
proof -
  assume l: "logs_keys env"
  have "fst (f t m v) = v" if "xe_react env = Some f" for f t m v using l that by (simp add: logs_keys_def)
  then have r: "v' = v" if "xe_react env = Some f" "f t m v = (v', x)" for f t m v v' x using that by (metis fst_conv)
  show ?thesis
    using quiet_sends(4) [OF l] r
    by (auto simp: execute_reaction_def Let_def split: option.splits prod.splits if_splits)
qed

lemma quiet_memory: "logs_keys env \<Longrightarrow> fst (execute_propose_memory env d a src w) = w"
proof -
  assume l: "logs_keys env"
  have "fst (f r v) = v" if "xe_memory env = Some f" for f r v using l that by (simp add: logs_keys_def)
  then have r: "v' = v" if "xe_memory env = Some f" "f r v = (v', x)" for f r v v' x using that by (metis fst_conv)
  then show ?thesis
    by (auto simp: execute_propose_memory_def Let_def split: option.splits prod.splits sum.splits memory_failure.splits)
qed

lemma run_action_logs:
  assumes "logs_keys env"
  shows "fst (run_action env d a src sx w) = w \<or> job_action a \<and> fst (run_action env d a src sx w) = w @ [job_key d a sx]"
proof (cases "policy_rejection d a")
  case None
  note l = assms
  consider "plan_type a = text_val ''admin_digest''" | "plan_type a = text_val ''silent_summarize_later''"
    | "plan_type a = text_val ''schedule_background_task''"
    | "plan_type a \<notin> {text_val ''admin_digest'', text_val ''silent_summarize_later'', text_val ''schedule_background_task''}" by blast
  then show ?thesis
  proof cases
    case 1
    with enqueue_logs [OF l] show ?thesis
      by (simp add: run_dispatch(5) [OF None] execute_admin_digest_def job_key_def job_action_def) force
  next
    case 2
    have k: "fst (execute_silent_summary env d a src sx w) = w \<or> fst (execute_silent_summary env d a src sx w) = w @ [silent_summary_key d sx]"
      using enqueue_logs [OF l] summary_logs [OF l]
      by (simp add: execute_silent_summary_def Let_def) (metis job_request.select_convs(3) summary_request.select_convs(4))
    with 2 show ?thesis by (simp add: run_dispatch(4) [OF None 2] job_key_def job_action_def)
  next
    case 3
    let ?t = "path a [''payload'', ''backgroundTask'', ''type'']"
    have k: "fst (execute_background_task env d a src sx w) = w
        \<or> ?t \<in> JStr ` set background_types \<and> fst (execute_background_task env d a src sx w) = w @ [task_key d (string_of ?t) sx]"
      using enqueue_logs [OF l] summary_logs [OF l]
      by (simp add: execute_background_task_def Let_def) (metis job_request.select_convs(3) summary_request.select_convs(4))
    with 3 show ?thesis by (simp add: run_dispatch(3) [OF None 3] job_key_def job_action_def del: path.simps)
  next
    case 4
    then show ?thesis
      by (simp add: run_action_def None quiet_sends [OF l] quiet_reaction [OF l] quiet_memory [OF l])
  qed
next
  case (Some p)
  from run_refused [OF Some, of env src sx w] show ?thesis by simp
qed

text \<open>The suffixes tell the actions of one group apart.\<close>

lemma later_suffix:
  "(g, s) \<in> set (zip ks (suffixes_from before ks)) \<Longrightarrow> g \<noteq> None \<Longrightarrow>
    if count_list before g + count_list ks g \<le> 1 then s = None
    else \<exists>n. count_list before g < n \<and> s = Some (lit '':action'' @ decimal n)"
proof (induction ks arbitrary: before)
  case (Cons k ks)
  show ?case
  proof (cases "(g, s) \<in> set (zip ks (suffixes_from (before @ [k]) ks))")
    case True
    have g: "g \<in> set ks" using True by (auto dest: set_zip_leftD)
    from Cons.IH [OF True Cons.prems(2)] show ?thesis by (auto split: if_splits)
  next
    case False
    with Cons.prems show ?thesis by (auto split: if_splits)
  qed
qed simp

lemma distinct_suffixes:
  "distinct (filter (\<lambda>p. fst p \<noteq> None) (zip ks (suffixes_from before ks)))"
proof (induction ks arbitrary: before)
  case (Cons k ks)
  let ?s = "hd (suffixes_from before (k # ks))"
  have "(k, ?s) \<notin> set (zip ks (suffixes_from (before @ [k]) ks))" if k: "k \<noteq> None"
  proof
    assume m: "(k, ?s) \<in> set (zip ks (suffixes_from (before @ [k]) ks))"
    then have "k \<in> set ks" by (auto dest: set_zip_leftD)
    then have "1 \<le> count_list ks k" using count_list_0_iff [of ks k] by linarith
    with later_suffix [OF m k] k show False by (auto split: if_splits)
  qed
  with Cons.IH [of "before @ [k]"] show ?case by (cases k) simp_all
qed simp

lemma suffix_values:
  "(g, s) \<in> set (zip ks (suffixes_from before ks)) \<Longrightarrow> s = None \<or> (\<exists>n. s = Some (lit '':action'' @ decimal n))"
  by (induction ks arbitrary: before) (auto split: if_splits)

definition ordinal :: "jstr option \<Rightarrow> bool" where
  "ordinal s \<longleftrightarrow> s = None \<or> (\<exists>n. s = Some (lit '':action'' @ decimal n))"

lemma suffix_text_inject: "ordinal s \<Longrightarrow> ordinal t \<Longrightarrow> suffix_text s = suffix_text t \<longleftrightarrow> s = t"
  by (auto simp: ordinal_def suffix_text_def lit_def)

lemma suffix_starts: "ordinal s \<Longrightarrow> suffix_text s = [] \<or> (\<exists>r. suffix_text s = 58 # r)"
  by (auto simp: ordinal_def suffix_text_def lit_def)

lemma type_suffix_inject:
  assumes "t \<in> set background_types" and "u \<in> set background_types" and "ordinal s" and "ordinal r"
    and "t @ suffix_text s = u @ suffix_text r"
  shows "t = u \<and> s = r"
proof -
  have c: "\<forall>c \<in> set v. c \<noteq> 58" if "v \<in> set background_types" for v
    using that by (auto simp: background_types_def lit_def)
  have "takeWhile (\<lambda>c. c \<noteq> 58) (v @ suffix_text z) = v" if "v \<in> set background_types" "ordinal z" for v z
    using c [OF that(1)] suffix_starts [OF that(2)] by (auto simp: takeWhile_append2)
  then have "t = u" using assms by metis
  with assms suffix_text_inject show ?thesis by simp
qed

lemma group_key_cases:
  assumes "job_action a"
  obtains "plan_type a = text_val ''admin_digest''" "group_key a = Some (lit ''admin_digest'')"
  | "plan_type a = text_val ''silent_summarize_later''" "group_key a = Some (lit ''silent_summarize_later:summary'')"
  | t where "plan_type a = text_val ''schedule_background_task''" "t \<in> set background_types"
    "path a [''payload'', ''backgroundTask'', ''type''] = JStr t" "group_key a = Some (lit ''schedule_background_task:'' @ t)"
  using assms unfolding job_action_def by (auto simp: group_key_def)

lemma job_key_inject:
  assumes "job_action a" and "job_action b" and "ordinal s" and "ordinal r" and "job_key d a s = job_key d b r"
  shows "group_key a = group_key b \<and> s = r"
  using assms(1)
proof (cases rule: group_key_cases)
  case 1
  from assms(2) show ?thesis
    by (cases rule: group_key_cases)
      (use 1 assms in \<open>simp_all add: job_key_def digest_key_def silent_summary_key_def task_key_def suffix_text_inject\<close>,
       simp_all add: lit_def)
next
  case 2
  from assms(2) show ?thesis
    by (cases rule: group_key_cases)
      (use 2 assms in \<open>simp_all add: job_key_def digest_key_def silent_summary_key_def task_key_def suffix_text_inject\<close>,
       simp_all add: lit_def)
next
  case a: (3 t)
  from assms(2) show ?thesis
  proof (cases rule: group_key_cases)
    case b: (3 u)
    from assms(5) have "t @ suffix_text s = u @ suffix_text r"
      by (simp add: job_key_def a b task_key_def del: path.simps)
    with type_suffix_inject [OF a(2) b(2) assms(3,4)] a b show ?thesis by simp
  qed (use a assms in \<open>simp_all add: job_key_def digest_key_def silent_summary_key_def task_key_def lit_def\<close>)
qed

lemma run_all_logs:
  assumes "logs_keys env" and "\<forall>p \<in> set as. ordinal (snd p)"
    and "distinct (filter (\<lambda>p. fst p \<noteq> None) (map (\<lambda>(a, s). (group_key a, s)) as))"
    and "run_all env d src as db w = (db', w', rows)"
  shows "\<exists>ks. w' = w @ ks \<and> distinct ks \<and> (\<forall>k \<in> set ks. \<exists>(a, s) \<in> set as. job_action a \<and> k = job_key d a s)"
  using assms(2-)
proof (induction as arbitrary: db w db' w' rows)
  case (Cons p as)
  obtain a sx where p: "p = (a, sx)" by (cases p)
  obtain w1 x where r: "run_action env d a src sx w = (w1, x)" by fastforce
  let ?n = "length (db_executions db)"
  obtain db1 row where c: "create_execution x (xe_id env ?n) (xe_clock env ?n) db = (db1, row)" by fastforce
  obtain db2 w2 rows2 where k: "run_all env d src as db1 w1 = (db2, w2, rows2)" by (metis prod_cases3)
  have w': "w' = w2" using Cons.prems(3) by (simp add: p r c k Let_def)
  have "distinct (filter (\<lambda>p. fst p \<noteq> None) (map (\<lambda>(a, s). (group_key a, s)) as))"
    using Cons.prems(2) by (simp split: if_splits)
  from Cons.IH [OF _ this k] Cons.prems(1) obtain ks where ks: "w2 = w1 @ ks" "distinct ks"
    "\<forall>k \<in> set ks. \<exists>(a, s) \<in> set as. job_action a \<and> k = job_key d a s" by auto
  show ?case
  proof (cases "w1 = w")
    case True
    with ks w' show ?thesis by (intro exI [of _ ks]) auto
  next
    case False
    with run_action_logs [OF assms(1), of d a src sx w] r have j: "job_action a" "w1 = w @ [job_key d a sx]" by simp_all
    have "job_key d a sx \<notin> set ks"
    proof
      assume "job_key d a sx \<in> set ks"
      with ks(3) obtain b t where b: "(b, t) \<in> set as" "job_action b" "job_key d a sx = job_key d b t" by blast
      from Cons.prems(1) b(1) have "ordinal sx" "ordinal t" by (auto simp: p)
      from job_key_inject [OF j(1) b(2) this b(3)] have same: "group_key a = group_key b" "sx = t" by simp_all
      have "group_key a \<noteq> None" using j(1) by (cases rule: group_key_cases) simp_all
      then have "(group_key a, sx) \<notin> set (map (\<lambda>(a, s). (group_key a, s)) as)"
        using Cons.prems(2) by (auto simp: p)
      moreover have "(group_key b, t) \<in> set (map (\<lambda>(a, s). (group_key a, s)) as)" using b(1) by force
      ultimately show False unfolding same by (rule notE)
    qed
    with ks w' j show ?thesis by (intro exI [of _ "job_key d a sx # ks"]) (auto simp: p)
  qed
qed simp

text \<open>
  The jobs one decision asks for have pairwise distinct idempotency keys, however many of its
  actions ask for the same kind of job, so none of them is taken for a repetition of another.
\<close>

theorem job_keys_distinct:
  assumes "logs_keys env" and "execute env d db w = (db', w', res)"
  shows "\<exists>ks. w' = w @ ks \<and> distinct ks"
proof (cases "assert_binding (xe_repo env) d db")
  case None
  with assms(2) show ?thesis by (simp add: execute_def)
next
  case (Some src)
  define as where "as = by_priority (ad_actions d)"
  obtain rows where run: "run_all env d src (zip as (job_suffixes as)) db w = (db', w', rows)"
    using assms(2) Some by (auto simp: execute_def as_def Let_def split: prod.splits)
  have m: "map (\<lambda>(a, s). (group_key a, s)) (zip as (job_suffixes as)) = zip (map group_key as) (job_suffixes as)"
    by (simp add: zip_map1)
  have "\<forall>p \<in> set (zip as (job_suffixes as)). ordinal (snd p)"
  proof
    fix p assume "p \<in> set (zip as (job_suffixes as))"
    then have "(group_key (fst p), snd p) \<in> set (zip (map group_key as) (job_suffixes as))"
      unfolding m [symmetric] by force
    then show "ordinal (snd p)" unfolding job_suffixes_def ordinal_def by (rule suffix_values)
  qed
  moreover have "distinct (filter (\<lambda>p. fst p \<noteq> None) (map (\<lambda>(a, s). (group_key a, s)) (zip as (job_suffixes as))))"
    unfolding m unfolding job_suffixes_def by (rule distinct_suffixes)
  ultimately show ?thesis using run_all_logs [OF assms(1) _ _ run] by blast
qed

end
