(* ===== verification/Action_Witnesses.thy ===== *)
theory Action_Witnesses
  imports Executor_Scope
begin

text \<open>
  The theorems of the action repository and the executor at concrete inputs: a private turn whose
  decision is one reply.
\<close>

section \<open>A text for every number\<close>

fun int_text :: "int \<Rightarrow> jstr" where
  "int_text n = (if n < 0 then 45 # decimal (nat (- n)) else decimal (nat n))"

fun number_text :: "js_number \<Rightarrow> jstr" where
  "number_text (JInt n) = int_text n"
| "number_text (JFrac n d) = int_text n @ 47 # decimal d"
| "number_text _ = []"

lemma decimal_digits: "\<forall>c \<in> set (decimal n). digit c"
proof (induction n rule: decimal.induct)
  case (1 n)
  have "n mod 10 < 10" by simp
  with 1 show ?case by (cases "n < 10") (auto simp: decimal.simps [of n] digit_def)
qed

lemma decimal_nonempty: "decimal n \<noteq> []"
  by (cases "n < 10") (simp_all add: decimal.simps [of n])

lemma decimal_no_sign: "decimal n \<noteq> 45 # r"
proof
  assume "decimal n = 45 # r"
  then have "45 \<in> set (decimal n)" by simp
  with decimal_digits show False by (force simp: digit_def)
qed

lemma int_text_inject: "int_text m = int_text n \<longleftrightarrow> m = n"
  using decimal_no_sign by (auto simp: decimal_no_sign [THEN not_sym])

lemma int_text_no_slash: "47 \<notin> set (int_text n)"
proof -
  have "\<not> digit 47" by (simp add: digit_def)
  then have "47 \<notin> set (decimal k)" for k using decimal_digits by metis
  then show ?thesis by simp
qed

lemma number_text_ok: "number_texts number_text"
proof -
  have u: "utf16 (decimal n)" for n
    using decimal_digits [of n] unfolding utf16_def list_all_iff digit_def by force
  have cut: "takeWhile (\<lambda>c. c \<noteq> 47) (int_text n @ 47 # r) = int_text n" for n r
    using int_text_no_slash [of n] by (subst takeWhile_append2) (auto simp del: int_text.simps)
  have no: "int_text n \<noteq> int_text m @ 47 # r" for n m r
    using int_text_no_slash [of n] by (metis in_set_conv_decomp)
  have "number_text m = number_text n \<longrightarrow> m = n" if "is_finite m" "is_finite n" for m n
  proof (cases m)
    case (JInt a)
    with that no show ?thesis by (cases n) (simp_all add: int_text_inject del: int_text.simps)
  next
    case (JFrac a b)
    show ?thesis
    proof (cases n)
      case (JFrac c e)
      show ?thesis
      proof
        assume eq: "number_text m = number_text n"
        then have "int_text a = int_text c" using cut [of a "decimal b"] cut [of c "decimal e"]
          by (simp add: \<open>m = _\<close> JFrac del: int_text.simps)
        with eq show "m = n" by (simp add: \<open>m = _\<close> JFrac int_text_inject del: int_text.simps)
      qed
    qed (use that JFrac no [symmetric] in \<open>simp_all del: int_text.simps\<close>)
  qed (use that in simp_all)
  moreover have "utf16 (number_text m)" for m by (cases m) (simp_all add: u)
  ultimately show ?thesis unfolding number_texts_def by blast
qed

section \<open>A decision\<close>

fun finite_value :: "jval \<Rightarrow> bool" where
  "finite_value (JNum n) \<longleftrightarrow> is_finite n"
| "finite_value (JDate d) \<longleftrightarrow> d \<noteq> None"
| "finite_value (JArr vs) \<longleftrightarrow> (\<forall>v \<in> set vs. finite_value v)"
| "finite_value (JObj fs) \<longleftrightarrow> (\<forall>p \<in> set fs. finite_value (snd p))"
| "finite_value v \<longleftrightarrow> True"

lemma canonical_defined: "finite_value v \<Longrightarrow> canonical number v \<noteq> None"
proof (induction v rule: finite_value.induct)
  case (3 vs)
  then have "those (map (canonical number) vs) \<noteq> None" by (simp add: those_map_None del: not_None_eq)
  then show ?case by simp
next
  case (4 fs)
  then have "those (map (entry_text (canonical number)) (sort_key fst fs)) \<noteq> None"
    by (auto simp: those_map_None entry_text_def simp del: not_None_eq)
  then show ?case unfolding canonical_object by simp
qed simp_all

definition ex_db :: action_db where
  "ex_db = \<lparr>db_turns = [\<lparr>tn_id = [116], tn_conversation = [99], tn_trigger = [101], tn_decision = None\<rparr>],
     db_events = [\<lparr>rv_id = [101], rv_conversation = Some [99]\<rparr>],
     db_chats = [\<lparr>ch_id = [109], ch_event = [101], ch_conversation = [99], ch_type = lit ''private'', ch_group = None\<rparr>],
     db_evaluators = [], db_decisions = [], db_executions = []\<rparr>"

definition ex_authority :: turn_authority where
  "ex_authority = \<lparr>ta_conversation = [99], ta_trigger = [101], ta_raw = Some [99], ta_count = 1, ta_chat = Some [99],
     ta_type = Some (lit ''private''), ta_group = None\<rparr>"

definition ex_action :: jval where
  "ex_action = obj [(''type'', text_val ''reply_full''), (''priority'', JNum (JInt 100)),
     (''target'', obj [(''conversationId'', JStr [99])]), (''payload'', obj [(''text'', JStr [104])]),
     (''constraints'', obj []), (''reason'', JStr [114])]"

definition ex_input :: decision_input where
  "ex_input = \<lparr>di_id = Some [100], di_turn = [116], di_decided_by = lit ''pi'', di_actions = [ex_action], di_risk = lit ''low'',
     di_confidence = JInt 1, di_reasons = [], di_suppressors = [], di_required = False, di_passed = None, di_evidence = None,
     di_created = None\<rparr>"

definition ex_decision :: action_decision where
  "ex_decision = \<lparr>ad_id = [100], ad_turn = [116], ad_created = Some 5, ad_decided_by = lit ''pi'', ad_actions = [ex_action],
     ad_risk = lit ''low'', ad_confidence = JInt 1, ad_reasons = [], ad_suppressors = [], ad_required = False, ad_passed = None,
     ad_evaluator = None, ad_prompt = None\<rparr>"

definition ex_text :: jstr where
  "ex_text = the (canonical number_text (bound_value ex_decision None ex_authority))"

text \<open>A hash without collisions on texts that start with a bracket.\<close>

definition ex_hash :: "jstr \<Rightarrow> jstr" where
  "ex_hash t = (if t = ex_text then replicate 64 48 else t)"

definition ex_env :: repo_env where
  "ex_env = \<lparr>re_stringify = \<lambda>_. [], re_number = number_text, re_hmac = ex_hash, re_invocation = \<lambda>_ _. True,
     re_claim = \<lambda>_. False, re_guard = \<lambda>_ t. t\<rparr>"

definition ex_fixed :: repo_env where
  "ex_fixed = ex_env\<lparr>re_hmac := \<lambda>_. replicate 64 48\<rparr>"

lemma ex_authority_read: "read_authority [116] ex_db = Some ex_authority"
  by (simp add: read_authority_def find_turn_def find_event_def trigger_chats_def first_chat_def ex_db_def ex_authority_def)

lemma ex_finite: "finite_value (bound_value ex_decision None ex_authority)"
  by (simp add: bound_value_def decision_value_def evaluator_value_def turn_value_def ex_decision_def ex_authority_def
      ex_action_def obj_def text_val_def)

lemma ex_canonical:
  "re_number env = number_text \<Longrightarrow> canonical_decision env ex_decision None ex_authority = Some ex_text"
  using canonical_defined [OF ex_finite, of number_text]
  by (auto simp: canonical_decision_def ex_text_def bound_value_def ex_decision_def)

definition ex_row :: action_row where
  "ex_row = to_decision_row ex_env ex_decision (lit ''v1:'' @ replicate 64 48) 5"

definition ex_after :: action_db where
  "ex_after = link_turn [116] [100] (ex_db\<lparr>db_decisions := [ex_row]\<rparr>)"

lemma ex_build: "re_claim env = (\<lambda>_. False) \<Longrightarrow> build_decision env ex_input [] 5 = ex_decision"
  by (simp add: build_decision_def guard_claims_def ex_input_def ex_decision_def split: option.splits)

lemma ex_created: "create_decision ex_env ex_input [] 5 ex_db = (ex_after, Inr ex_decision)"
  and ex_created_fixed: "create_decision ex_fixed ex_input [] 5 ex_db = (ex_after, Inr ex_decision)"
proof -
  have e: "re_claim ex_env = (\<lambda>_. False)" "re_number ex_env = number_text" "re_claim ex_fixed = (\<lambda>_. False)"
    "re_number ex_fixed = number_text" "re_hmac ex_env = ex_hash" "re_hmac ex_fixed t = replicate 64 48"
    "stored_texts ex_fixed d = stored_texts ex_env d" for t d
    by (simp_all add: ex_env_def ex_fixed_def stored_texts_def)
  have b: "execution_binding ex_env ex_decision None ex_authority = Some (lit ''v1:'' @ replicate 64 48)"
    "execution_binding ex_fixed ex_decision None ex_authority = Some (lit ''v1:'' @ replicate 64 48)"
    by (simp_all add: execution_binding_def ex_canonical e ex_hash_def)
  have i: "di_turn ex_input = [116]" "di_evidence ex_input = None" "validate_authority ex_db ex_input ex_authority = None"
    by (simp_all add: ex_input_def validate_authority_def)
  have d: "ad_created ex_decision = Some 5" "ad_id ex_decision = [100]" by (simp_all add: ex_decision_def)
  have r: "to_decision_row ex_fixed ex_decision (lit ''v1:'' @ replicate 64 48) 5 = ex_row"
    by (simp add: ex_row_def to_decision_row_def e)
  have ok: "decision_row_ok ex_row ex_db"
    by (simp add: decision_row_ok_def ex_db_def ex_row_def to_decision_row_def ex_decision_def risk_levels_def unit_number_def
        js_less_def split: prod.splits)
  have ds: "db_decisions ex_db = []" by (simp add: ex_db_def)
  show "create_decision ex_env ex_input [] 5 ex_db = (ex_after, Inr ex_decision)"
    using ok by (simp add: create_decision_def i ex_authority_read ex_build e b d ds ex_row_def [symmetric] ex_after_def)
  show "create_decision ex_fixed ex_input [] 5 ex_db = (ex_after, Inr ex_decision)"
    using ok by (simp add: create_decision_def i ex_authority_read ex_build e b d ds r ex_after_def)
qed

lemma hex_zeros: "hex64 (replicate 64 48)"
  by (simp add: hex64_def digit_def list_all_iff)

theorem decision_verifies_witness: "assert_binding ex_fixed ex_decision ex_after \<noteq> None"
proof -
  have "re_hmac ex_fixed t = replicate 64 48" for t by (simp add: ex_fixed_def)
  with decision_verifies [OF ex_created_fixed] hex_zeros show ?thesis by (auto simp: ex_input_def)
qed

theorem decision_superseded_witness: "assert_binding ex_env (ex_decision\<lparr>ad_id := [7]\<rparr>) ex_after = None"
  by (rule decision_superseded [OF ex_created]) (simp_all add: ex_decision_def ex_input_def)

lemma ex_verified: "assert_binding ex_env ex_decision ex_after = Some (to_turn_source [116] ex_authority)"
proof -
  have turn: "find_turn [116] ex_after = Some \<lparr>tn_id = [116], tn_conversation = [99], tn_trigger = [101], tn_decision = Some [100]\<rparr>"
    by (simp add: ex_after_def find_turn_def link_turn_def ex_db_def)
  have auth: "read_authority [116] ex_after = Some ex_authority"
    unfolding ex_after_def read_authority_link using ex_authority_read by (subst read_authority_frame [of _ ex_db]) simp_all
  have row: "dr_turn ex_row = [116]" "dr_id ex_row = [100]" "dr_binding ex_row = lit ''v1:'' @ replicate 64 48" "dr_evaluator ex_row = None"
    by (simp_all add: ex_row_def to_decision_row_def ex_decision_def split: prod.splits)
  have found: "find (\<lambda>r. dr_id r = ad_id ex_decision) (db_decisions ex_after) = Some ex_row"
    by (simp add: ex_after_def ex_decision_def row)
  have bind: "execution_binding ex_env ex_decision None ex_authority = Some (lit ''v1:'' @ replicate 64 48)"
    using ex_canonical [of ex_env] by (simp add: execution_binding_def ex_env_def ex_hash_def)
  have "row_matches ex_env ex_row ex_decision" unfolding ex_row_def by (rule row_matches_own) (simp add: ex_decision_def)
  moreover have "linked_evaluator_ok None ex_decision" by (simp add: linked_evaluator_ok_def ex_decision_def)
  moreover have "lit ''v1:'' @ replicate 64 48 \<noteq> []" by (simp add: lit_def)
  moreover have "ad_id ex_decision = [100]" by (simp add: ex_decision_def)
  ultimately show ?thesis
    unfolding assert_binding_def found option.case row turn auth joined_evaluator_def
    by (simp add: bind binding_same hex_zeros del: append.simps)
qed

lemma ex_utf16: "utf16_tables ex_after" "utf16_value (decision_value ex_decision)"
proof -
  show "utf16_tables ex_after"
    by (simp add: utf16_tables_def ex_after_def link_turn_def ex_db_def utf16_option_def)
  have "utf16_value ex_action" unfolding ex_action_def by (intro utf16_obj) (simp add: obj_def text_val_def)
  then show "utf16_value (decision_value ex_decision)"
    unfolding decision_value_def by (intro utf16_obj) (simp add: ex_decision_def)
qed

lemma no_bracket: "replicate 64 48 \<noteq> 91 # (r :: jstr)"
  by (simp add: numeral_eq_Suc)

theorem decision_tamper_evident_witness: "\<exists>a. read_authority [116] ex_db = Some a \<and> to_turn_source [116] ex_authority = to_turn_source [116] a"
proof -
  have n: "number_texts (re_number ex_env)" using number_text_ok by (simp add: ex_env_def)
  have starts: "\<exists>r. t = 91 # r" if "canonical_decision ex_env d e a = Some t" for d e a t
    using canonical_starts canonical_decision_bound [OF that] by blast
  have free: "t = u" if "canonical_decision ex_env d e a = Some t" "canonical_decision ex_env d e' a' = Some u"
      "re_hmac ex_env t = re_hmac ex_env u" for d e a e' a' t u
    using starts [OF that(1)] starts [OF that(2)] that(3)
    by (auto simp: ex_env_def ex_hash_def no_bracket no_bracket [symmetric] split: if_splits)
  from decision_tamper_evident [OF ex_created refl ex_verified refl n ex_utf16(1) ex_utf16(1) ex_utf16(2) ex_utf16(2) free]
  show ?thesis by (simp add: ex_input_def)
qed

section \<open>Executions\<close>

definition ex_world :: "nat exec_env" where
  "ex_world = \<lparr>xe_repo = ex_env, xe_send = \<lambda>t m w. (Suc w, Inr [109]), xe_react = None, xe_emoji = False, xe_face = False,
     xe_opted = Some (\<lambda>u k w. True), xe_enqueue = None, xe_summary = Some (\<lambda>r w. (Suc w, Inr [106])), xe_memory = None,
     xe_now = 9, xe_id = \<lambda>n. [n], xe_clock = \<lambda>n. 9\<rparr>"

lemma ex_type: "plan_type ex_action = text_val ''reply_full''"
  by (simp add: plan_type_def ex_action_def)

lemma ex_run: "fst (run_action ex_world ex_decision ex_action src sx 0) = 1"
proof -
  have p: "policy_rejection ex_decision ex_action = None"
    by (simp add: policy_rejection_def ex_decision_def constraint_def ex_action_def)
  have r: "text_val ''reply_full'' \<in> JStr ` set reply_types" unfolding reply_types_def text_val_member by simp
  have "truthy (path ex_action [''target''])" "trimmed (path ex_action [''payload'', ''text'']) = [104]"
    by (simp_all add: ex_action_def truthy_def obj_def text_val_def js_trim_def js_space_def)
  then show ?thesis
    unfolding run_action_def p option.case ex_type using r
    by (simp add: execute_reply_def Let_def ex_world_def)
qed

lemma ex_execute: "\<exists>db rows. execute ex_world ex_decision ex_after 0 = (db, 1, Some rows)"
proof -
  obtain x where r: "run_action ex_world ex_decision ex_action (to_turn_source [116] ex_authority) None 0 = (1, x)"
    using ex_run [of "to_turn_source [116] ex_authority" None]
    by (cases "run_action ex_world ex_decision ex_action (to_turn_source [116] ex_authority) None 0") simp
  have repo: "xe_repo ex_world = ex_env" by (simp add: ex_world_def)
  have as: "ad_actions ex_decision = [ex_action]" by (simp add: ex_decision_def)
  have "group_key ex_action = None" by (simp add: group_key_def ex_type)
  then have "job_suffixes [ex_action] = [None]" by (simp add: job_suffixes_def)
  then show ?thesis
    by (simp add: execute_def repo ex_verified as by_priority_def r Let_def create_execution_def split: prod.splits)
qed

theorem effects_need_approval_witness: "assert_binding ex_env ex_decision ex_after \<noteq> None"
proof -
  from ex_execute obtain db rows where "execute ex_world ex_decision ex_after 0 = (db, 1, Some rows)" by blast
  from effects_need_approval [OF this] show ?thesis by (simp add: ex_world_def)
qed

theorem every_action_recorded_witness: "\<exists>db :: action_db. length (db_executions db) = 1 \<and> (\<forall>r \<in> set (db_executions db). xi_decision r = [100])"
proof -
  from ex_execute obtain db rows where e: "execute ex_world ex_decision ex_after 0 = (db, 1, Some rows)" by blast
  have "\<forall>a \<in> set (ad_actions ex_decision). sound_number (priority a)"
    by (simp add: ex_decision_def priority_def ex_action_def sound_number_def)
  from every_action_recorded [OF e this] obtain as where
    f: "db = ex_after\<lparr>db_executions := db_executions ex_after @ rows\<rparr>" "\<forall>r \<in> set rows. xi_decision r = ad_id ex_decision"
      "mset as = mset (ad_actions ex_decision)" "map xi_type rows = map (string_of \<circ> plan_type) as" by blast
  have "length as = 1" using f(3) [THEN mset_eq_length] by (simp add: ex_decision_def)
  then have "length rows = 1" using f(4) by (metis length_map)
  moreover have "db_executions ex_after = []" by (simp add: ex_after_def link_turn_def ex_db_def)
  moreover have "ad_id ex_decision = [100]" by (simp add: ex_decision_def)
  ultimately have "length (db_executions db) = 1 \<and> (\<forall>r \<in> set (db_executions db). xi_decision r = [100])"
    using f(1,2) by simp
  then show ?thesis by blast
qed

definition ex_dm :: jval where
  "ex_dm = obj [(''type'', text_val ''dm_user''), (''target'', obj [(''userId'', JStr [117]), (''canonicalUserId'', JStr [117])]),
     (''payload'', obj [(''text'', JStr [104])]), (''constraints'', obj [(''proactive'', JBool True)])]"

definition ex_source :: turn_source where
  "ex_source = \<lparr>ts_turn = [116], ts_conversation = [99], ts_trigger = [101], ts_type = Some (lit ''group''), ts_group = Some [103]\<rparr>"

theorem opt_outs_respected_witness: "fst (run_action ex_world ex_decision ex_dm ex_source None 0) = 0"
proof -
  have "xe_opted ex_world = Some (\<lambda>u k w. True)" by (simp add: ex_world_def)
  from opt_outs_respected [OF this, where a = ex_dm and w = 0 and d = ex_decision and src = ex_source and sx = None] show ?thesis
    by (simp add: plan_type_def constraint_def ex_dm_def)
qed

definition ex_summary :: jval where
  "ex_summary = obj [(''type'', text_val ''silent_summarize_later''), (''constraints'', obj []),
     (''target'', obj [(''conversationId'', JStr [99]), (''conversationType'', text_val ''group''), (''groupId'', JStr [103])])]"

theorem group_summary_from_trigger_witness:
  "fst (run_action ex_world ex_decision ex_summary ex_source None 0) = 1 \<and> ts_group ex_source = Some [103]"
proof -
  have t: "plan_type ex_summary = text_val ''silent_summarize_later''" by (simp add: plan_type_def ex_summary_def)
  have p: "policy_rejection ex_decision ex_summary = None"
    by (simp add: policy_rejection_def ex_decision_def constraint_def ex_summary_def)
  have trim: "js_trim [n] = [n]" if "\<not> js_space n" for n using that by (simp add: js_trim_def)
  have sp: "\<not> js_space 99" "\<not> js_space 103" by (simp_all add: js_space_def)
  have ty: "target ''conversationType'' ex_summary = text_val ''group''" by (simp add: target_def ex_summary_def)
  have one: "fst (run_action ex_world ex_decision ex_summary ex_source None 0) = 1"
    unfolding run_dispatch(4) [OF p t]
    by (simp add: execute_silent_summary_def ty Let_def group_summary_action_def group_target_error_def
        group_source_error_def non_empty_def target_def ex_summary_def ex_source_def truthy_def ex_world_def trim sp)
  then have "fst (run_action ex_world ex_decision ex_summary ex_source None 0) \<noteq> 0" by simp
  from group_summary_from_trigger [OF this ty disjI1 [OF t]] one show ?thesis by (simp add: target_def ex_summary_def)
qed

definition ex_log :: "jstr list exec_env" where
  "ex_log = \<lparr>xe_repo = ex_env, xe_send = \<lambda>t m w. (w, Inr [109]), xe_react = None, xe_emoji = False, xe_face = False,
     xe_opted = None, xe_enqueue = Some (\<lambda>r w. (w @ [jr_key r], Inr [106])), xe_summary = None, xe_memory = None,
     xe_now = 9, xe_id = \<lambda>n. [n], xe_clock = \<lambda>n. 9\<rparr>"

theorem job_keys_distinct_witness: "distinct (fst (snd (execute ex_log ex_decision ex_after [])))"
proof -
  have "logs_keys ex_log" by (simp add: logs_keys_def ex_log_def)
  from job_keys_distinct [OF this, of ex_decision ex_after "[]"] show ?thesis
    by (cases "execute ex_log ex_decision ex_after []") force
qed

end
