(* ===== verification/Social_Witnesses.thy ===== *)
theory Social_Witnesses
  imports Social_Theorems Action_Witnesses
begin

text \<open>
  The theorems of the decision service at concrete inputs: a private message whose command needs a
  review, with an evaluator that approves, one that approves what it calls prohibited, and one that
  throws.
\<close>

definition sw_input :: social_input where
  "sw_input = \<lparr>si_turn = [116], si_event = [101],
     si_message = \<lparr>so_conversation = ConvPrivate, so_id = [99], so_sender = [117], so_group = None, so_mentions = False,
        so_role = None, so_text = Some [104]\<rparr>,
     si_response = [104],
     si_signals = \<lparr>sig_class = NeedsEvaluation, sig_score = 10, sig_triggers = [], sig_suppressors = [], sig_path = RiskPath\<rparr>,
     si_user = None, si_class = lit ''user''\<rparr>"

definition sw_result :: "string \<Rightarrow> jstr \<Rightarrow> social_result" where
  "sw_result risk i = \<lparr>sr_decision_id = [7], sr_request_id = i, sr_domain = lit ''social'', sr_decision = lit ''approve'', sr_reason = [],
     sr_confidence = JInt 1, sr_risk = lit risk, sr_decided_at = Some 5, sr_version = [], sr_invocation = None,
     sr_modified = JUndefined, sr_downgrade = JUndefined, sr_cooldown = JUndefined\<rparr>"

definition sw_env :: "(social_request \<Rightarrow> (social_request \<times> social_result) option) \<Rightarrow> social_env" where
  "sw_env evaluate = \<lparr>se_repo = ex_env, se_evaluate = evaluate, se_request_id = [8], se_requested = 5, se_now = 5,
     se_fresh = [9], se_created = 5\<rparr>"

definition sw_approves :: "string \<Rightarrow> social_request \<Rightarrow> (social_request \<times> social_result) option" where
  "sw_approves risk q = Some (q, sw_result risk (sq_id q))"

definition sw_throws :: "social_request \<Rightarrow> (social_request \<times> social_result) option" where
  "sw_throws q = None"

lemma sw_result_ok: "result_ok (sw_result risk i)"
  by (simp add: result_ok_def sw_result_def social_outcomes_def)

lemma sw_required: "requires_evaluator sw_input [base_plan sw_input]"
  by (rule review_required) (simp add: sw_input_def)

lemma sanitize_empty: "sanitize_narrative [] = []"
proof -
  have "redact_text [] = []" by code_simp
  then show ?thesis by (simp add: sanitize_narrative_def)
qed

lemma sw_same: "same_request (request_for env i (base_plan i)) (request_for env i (base_plan i))"
proof -
  have "proper (base_plan i)" using base_plan_ok by (simp add: plan_ok_def)
  moreover have "proper (signals_value s)" for s by (simp add: signals_value_def)
  ultimately show ?thesis by (simp add: same_request_def request_for_def deep_equal_refl)
qed

lemma sw_evaluated: "evaluate_action (sw_env (sw_approves risk)) sw_input [base_plan sw_input]
    = Inr (Some (request_for (sw_env (sw_approves risk)) sw_input (base_plan sw_input), sw_result risk [8]))"
  using sw_same [of "sw_env (sw_approves risk)" sw_input]
  by (simp add: evaluate_action_def Let_def sw_env_def sw_approves_def request_for_def sw_result_def)

lemma sw_plan: "base_plan sw_input = obj [(''type'', text_val ''reply_full''), (''priority'', JNum (JInt 100)),
     (''target'', plan_target sw_input), (''payload'', obj [(''text'', JStr [104])]),
     (''constraints'', obj [(''evaluatorRequired'', JBool True), (''proactive'', JBool False),
        (''cooldownKey'', JStr (lit ''private'' @ lit '':'' @ [99] @ lit '':'' @ lit ''reply_full'')),
        (''cooldownSeconds'', JNum (JInt 0)), (''maxResponseTokens'', JNum (JInt 1024)), (''redactionLevel'', text_val ''light'')]),
     (''reason'', text_val ''Pi produced response text'')]"
  by (simp add: base_plan_def sw_input_def Let_def js_trim_def js_space_def in_private_def review_needed_def is_proactive_def
      proactive_intervention_def reply_type_def reply_cooldown_def)

lemma sw_cooled: "apply_cooldowns now [base_plan sw_input] [] = ([], [base_plan sw_input], [])"
proof -
  have "constraint ''cooldownSeconds'' (base_plan sw_input) = JNum (JInt 0)" unfolding sw_plan by (simp add: constraint_def)
  then show ?thesis by (simp add: cool_one_def Let_def nullish_def js_not_positive_def js_less_def)
qed

definition sw_evidence :: "string \<Rightarrow> social_request \<times> social_result" where
  "sw_evidence risk = (request_for (sw_env (sw_approves risk)) sw_input (base_plan sw_input), sw_result risk [8])"

definition sw_stored :: "string \<Rightarrow> decision_input" where
  "sw_stored risk = decided_input sw_input True (Some (sw_evidence risk)) [base_plan sw_input] []"

lemma sw_decided: "social_decision (sw_env (sw_approves risk)) sw_input [] ex_db
    = ([], store_decision (sw_env (sw_approves risk)) (sw_stored risk) ex_db)"
proof -
  have clean: "(sw_result risk [8])\<lparr>sr_reason := sanitize_narrative (sr_reason (sw_result risk [8]))\<rparr> = sw_result risk [8]"
    by (simp add: sw_result_def sanitize_empty)
  have passed: "apply_evaluation [base_plan sw_input] (Some (sw_result risk [8])) = Inr ([base_plan sw_input], [])"
    by (simp add: apply_evaluation_def apply_passing_def sw_result_def)
  have sup: "sig_suppressors (si_signals sw_input) = []" by (simp add: sw_input_def)
  show ?thesis
    by (simp add: social_decision_def build_plans_def Let_def sw_required sw_evaluated clean_evidence_def clean passed sup
        sw_stored_def sw_evidence_def sw_cooled del: apply_cooldowns.simps)
qed

lemma sw_fields:
  "di_turn (sw_stored risk) = [116]" "di_evidence (sw_stored risk) = Some (sw_evidence risk)"
  "di_actions (sw_stored risk) = [base_plan sw_input]" "di_decided_by (sw_stored risk) = lit ''evaluator''" "di_required (sw_stored risk)"
  "di_passed (sw_stored risk) = Some True" "di_risk (sw_stored risk) = lit risk" "di_confidence (sw_stored risk) = JInt 1"
  "di_suppressors (sw_stored risk) = []" "di_id (sw_stored risk) = None" "di_created (sw_stored risk) = None"
  by (simp_all add: sw_stored_def decided_input_def sw_input_def sw_evidence_def sw_result_def passing_def)

lemma sw_event: "find_event [101] ex_db \<noteq> None"
  by (simp add: find_event_def ex_db_def)

lemma sw_valid:
  "validate_authority ex_db (sw_stored risk) ex_authority = (if lit risk = lit ''prohibited'' then Some ProhibitedPass else None)"
proof -
  let ?q = "fst (sw_evidence risk)" and ?r = "snd (sw_evidence risk)"
  have q: "sq_turn ?q = [116]" "sq_id ?q = [8]" "sq_domain ?q = lit ''social''" "sq_sources ?q = JArr [JStr [101]]"
    "sq_proposed ?q = base_plan sw_input"
    by (simp_all add: sw_evidence_def request_for_def sw_input_def sw_env_def)
  have r: "sr_request_id ?r = [8]" "sr_domain ?r = lit ''social''" "sr_decision ?r = lit ''approve''" "sr_risk ?r = lit risk"
    "sr_confidence ?r = JInt 1" "apply_passing [base_plan sw_input] ?r = Inr ([base_plan sw_input], [])"
    by (simp_all add: sw_evidence_def sw_result_def apply_passing_def)
  have "proper (base_plan sw_input)" using base_plan_ok by (simp add: plan_ok_def)
  then have "deep_equal (base_plan sw_input) (base_plan sw_input)" by (rule deep_equal_refl)
  then have "validate_evidence ex_db (sw_stored risk) ?q ?r ex_authority = (if lit risk = lit ''prohibited'' then Some ProhibitedPass else None)"
    using sw_event by (simp add: validate_evidence_def Let_def q r sw_fields passing_def ex_authority_def)
  then show ?thesis by (simp add: validate_authority_def sw_fields split_beta)
qed

theorem social_decision_accepted_witness:
  "social_decision (sw_env (sw_approves ''prohibited'')) sw_input [] ex_db = ([], ex_db, Inl (Repository ProhibitedPass))
    \<and> ProhibitedPass \<in> outside_errors \<and> cooldowns_ok []"
proof -
  have d: "social_decision (sw_env (sw_approves ''prohibited'')) sw_input [] ex_db = ([], ex_db, Inl (Repository ProhibitedPass))"
    by (simp add: sw_decided store_decision_def create_decision_def sw_fields ex_authority_read sw_valid)
  have ok: "result_ok r" if "se_evaluate (sw_env (sw_approves ''prohibited'')) q = Some (seen, r)" for q seen r
    using that sw_result_ok by (auto simp: sw_env_def sw_approves_def)
  have a: "read_authority (si_turn sw_input) ex_db = Some ex_authority" "ta_trigger ex_authority = si_event sw_input" "si_event sw_input \<noteq> []"
    using ex_authority_read by (simp_all add: sw_input_def ex_authority_def)
  from social_decision_accepted [OF d cooldowns_start ok a] d show ?thesis by simp
qed

definition sw_decision :: action_decision where
  "sw_decision = build_decision ex_env (sw_stored ''low'') [9] 5"

lemma sw_decision_fields:
  "ad_created sw_decision = Some 5" "ad_id sw_decision = [9]" "ad_turn sw_decision = [116]" "ad_actions sw_decision = [base_plan sw_input]"
  "ad_risk sw_decision = lit ''low''" "ad_confidence sw_decision = JInt 1" "ad_required sw_decision"
  "ad_passed sw_decision = Some True" "ad_prompt sw_decision = None" "ad_suppressors sw_decision = []"
  "ad_decided_by sw_decision = lit ''evaluator''"
  by (simp_all add: sw_decision_def build_decision_def sw_fields guard_claims_def ex_env_def sw_evidence_def sw_result_def passing_def
      split: option.splits)

lemma sw_created: "\<exists>db. create_decision ex_env (sw_stored ''low'') [9] 5 ex_db = (db, Inr sw_decision)"
proof -
  let ?row = "evidence_row ex_env (fst (sw_evidence ''low'')) (snd (sw_evidence ''low''))"
  have target: "finite_value (plan_target sw_input)"
    by (simp add: plan_target_def sw_input_def Let_def obj_def text_val_def in_private_def)
  have "finite_value (base_plan sw_input)" unfolding sw_plan using target by (simp add: obj_def text_val_def)
  moreover have row: "er_confidence ?row = JInt 1" "er_requested ?row = Some 5" "er_decided ?row = Some 5"
    "er_decision ?row = lit ''approve''" "er_risk ?row = lit ''low''" "er_actor_class ?row = lit ''user''" "er_context ?row = lit ''private_chat''"
    by (simp_all add: evidence_row_def sw_evidence_def sw_result_def request_for_def sw_env_def sw_input_def in_private_def)
  moreover have "finite_value (optional t)" "finite_value (nullable t)" for t by (cases t; simp)+
  ultimately have "finite_value (bound_value sw_decision (Some ?row) ex_authority)"
    by (simp add: bound_value_def decision_value_def evaluator_value_def turn_value_def sw_decision_fields ex_authority_def
        obj_def text_val_def)
  then obtain t where "canonical_decision ex_env sw_decision (Some ?row) ex_authority = Some t"
    using canonical_defined by (fastforce simp: canonical_decision_def bound_value_def sw_decision_fields)
  then have b: "\<exists>b. execution_binding ex_env sw_decision (Some ?row) ex_authority = Some b" by (simp add: execution_binding_def)
  have rows: "evaluator_row_ok ?row ex_db"
    using row by (simp add: evaluator_row_ok_def ex_db_def unit_number_def js_less_def risk_levels_def)
  have dec: "decision_row_ok (to_decision_row ex_env sw_decision c 5) (ex_db\<lparr>db_evaluators := es\<rparr>)" for c es
    by (simp add: decision_row_ok_def ex_db_def to_decision_row_def sw_decision_fields risk_levels_def unit_number_def js_less_def
        split: prod.splits)
  have inv: "sr_invocation (snd (sw_evidence ''low'')) = None" by (simp add: sw_evidence_def sw_result_def)
  obtain q r where e: "sw_evidence ''low'' = (q, r)" by fastforce
  show ?thesis
    using b rows dec [of _ "db_evaluators ex_db @ [?row]"] inv
    by (auto simp: create_decision_def sw_fields ex_authority_read sw_valid sw_decision_def [symmetric] e sw_decision_fields Let_def)
qed


section \<open>An evaluator that throws\<close>

definition sw_failure :: decision_input where
  "sw_failure = failure_input sw_input [base_plan sw_input]"

definition sw_silent :: action_decision where
  "sw_silent = build_decision ex_env sw_failure [9] 5"

lemma sw_failed: "social_decision (sw_env sw_throws) sw_input [] ex_db = ([], store_decision (sw_env sw_throws) sw_failure ex_db)"
  by (simp add: social_decision_def build_plans_def Let_def sw_required evaluate_action_def sw_env_def sw_throws_def sw_failure_def)

lemma sw_failure_fields:
  "di_turn sw_failure = [116]" "di_evidence sw_failure = None" "di_decided_by sw_failure = lit ''pi''" "di_passed sw_failure = Some False"
  "di_required sw_failure" "di_confidence sw_failure = JInt 1" "di_risk sw_failure = lit ''medium''" "di_id sw_failure = None" "di_created sw_failure = None"
  by (simp_all add: sw_failure_def failure_input_def sw_input_def score_number_def Let_def)

lemma no_claims: "guard_claims ex_env as = (as, False)"
proof -
  have "(case guarded_field a of Some (f, s) \<Rightarrow> re_claim ex_env s | None \<Rightarrow> False) = False" for a
    by (simp add: ex_env_def split: option.splits)
  then show ?thesis by (simp add: guard_claims_def list_ex_iff)
qed

lemma sw_silent_fields:
  "ad_created sw_silent = Some 5" "ad_id sw_silent = [9]" "ad_turn sw_silent = [116]" "ad_evaluator sw_silent = None"
  "ad_actions sw_silent = di_actions sw_failure" "ad_risk sw_silent = lit ''medium''" "ad_confidence sw_silent = JInt 1"
  "ad_decided_by sw_silent = lit ''pi''" "ad_prompt sw_silent = None"
  by (simp_all add: sw_silent_def build_decision_def sw_failure_fields no_claims)

lemma sw_silent_created: "\<exists>db. create_decision ex_env sw_failure [9] 5 ex_db = (db, Inr sw_silent)"
proof -
  have "finite_value (path (base_plan sw_input) [k])" if "k \<in> {''priority'', ''target'', ''constraints''}" for k
    using that unfolding sw_plan
    by (auto simp: plan_target_def sw_input_def Let_def obj_def text_val_def in_private_def)
  then have "\<forall>a \<in> set (di_actions sw_failure). finite_value a"
    by (simp add: sw_failure_def failure_input_def suppress_plan_def obj_def text_val_def)
  moreover have "finite_value (optional t)" "finite_value (nullable t)" for t by (cases t; simp)+
  ultimately have "finite_value (bound_value sw_silent None ex_authority)"
    by (auto simp: bound_value_def decision_value_def evaluator_value_def turn_value_def sw_silent_fields ex_authority_def
        obj_def text_val_def split: option.splits)
  then obtain t where "canonical_decision ex_env sw_silent None ex_authority = Some t"
    using canonical_defined by (fastforce simp: canonical_decision_def bound_value_def sw_silent_fields)
  then have b: "\<exists>b. execution_binding ex_env sw_silent None ex_authority = Some b" by (simp add: execution_binding_def)
  have v: "validate_authority ex_db sw_failure ex_authority = None" by (simp add: validate_authority_def sw_failure_fields)
  have dec: "decision_row_ok (to_decision_row ex_env sw_silent c 5) ex_db" for c
    by (simp add: decision_row_ok_def ex_db_def to_decision_row_def sw_silent_fields risk_levels_def unit_number_def js_less_def
        split: prod.splits)
  show ?thesis
    using b dec by (auto simp: create_decision_def sw_failure_fields ex_authority_read v sw_silent_def [symmetric] sw_silent_fields Let_def)
qed

theorem unapproved_stays_silent_witness:
  "\<exists>d. snd (snd (social_decision (sw_env sw_throws) sw_input [] ex_db)) = Inr d \<and> fst (snd (execute ex_world d ex_after 0)) = 0"
proof -
  obtain db where c: "create_decision ex_env sw_failure [9] 5 ex_db = (db, Inr sw_silent)" using sw_silent_created by blast
  then have d: "social_decision (sw_env sw_throws) sw_input [] ex_db = ([], db, Inr sw_silent)"
    unfolding sw_failed by (simp add: store_decision_def sw_env_def)
  obtain db2 w res where x: "execute ex_world sw_silent ex_after 0 = (db2, w, res)" by (metis prod_cases3)
  have r: "sig_class (si_signals sw_input) = NeedsEvaluation \<or> is_proactive sw_input" by (simp add: sw_input_def)
  have n: "\<not> passing (sr_decision r)" if "se_evaluate (sw_env sw_throws) q = Some (seen, r)" for q seen r
    using that by (simp add: sw_env_def sw_throws_def)
  from unapproved_stays_silent [OF d r n x] d x show ?thesis by (intro exI [of _ sw_silent]) simp
qed

section \<open>A cooldown\<close>

definition sw_cooling :: "string \<Rightarrow> jval" where
  "sw_cooling t = obj [(''type'', text_val t), (''constraints'', obj [(''cooldownKey'', JStr [107]), (''cooldownSeconds'', JNum (JInt 60))])]"

theorem cooldown_spacing_witness:
  "\<exists>c. apply_cooldowns 59999 [sw_cooling ''dm_user''] (cool_calls [(10, [])] [([107], \<lparr>ce_expires = JInt 60000, ce_type = text_val ''reply_short''\<rparr>)])
      = ([([107], \<lparr>ce_expires = JInt 60000, ce_type = text_val ''reply_short''\<rparr>)], [c], [lit ''cooldown:'' @ [107]]) \<and> silent c"
proof -
  let ?e = "[([107], \<lparr>ce_expires = JInt 60000, ce_type = text_val ''reply_short''\<rparr>)]"
  have "text_val t \<in> JStr ` set cooldown_types" if "t \<in> {''reply_short'', ''dm_user''}" for t
    using that unfolding cooldown_types_def text_val_member by auto
  then have ok: "cooling (sw_cooling ''reply_short'')" "cooling (sw_cooling ''dm_user'')"
    by (simp_all add: cooling_def cooldown_eligible_def plan_type_def constraint_def sw_cooling_def truthy_def nullish_def
        js_not_positive_def js_less_def)
  have c: "constraint ''cooldownSeconds'' (sw_cooling t) = JNum (JInt 60)" "key_of (sw_cooling t) = [107]" for t
    by (simp_all add: constraint_def sw_cooling_def)
  have f: "cool_one 0 (sw_cooling ''reply_short'') [] = (?e, sw_cooling ''reply_short'', [])"
    by (simp add: cool_one_cooling [OF ok(1)] c) (simp add: plan_type_def sw_cooling_def)
  have later: "js_less (JInt t) (expiry 0 (number_of (constraint ''cooldownSeconds'' (sw_cooling ''reply_short''))))" if "t < 60000" for t
    using that by (simp add: c js_less_def)
  have "\<forall>p \<in> set [(10, [])]. js_less (JInt (fst p)) (expiry 0 (number_of (constraint ''cooldownSeconds'' (sw_cooling ''reply_short''))))"
    using later by simp
  from cooldown_spacing [OF ok(1) f this ok(2) _ later] show ?thesis by (simp add: c del: apply_cooldowns.simps) (simp add: )
qed

end
