(* ===== verification/Model_Context.thy ===== *)
theory Model_Context
  imports Action_Repository "HOL-Library.Monad_Syntax"
begin

text \<open>
  The values that \<open>src/storage/model-invocation-repository.ts\<close> lets into its tables: bounded and
  redacted metadata, identities that must not look like credentials or platform numbers, token
  counts, and the trace of a context.  A check that throws gives \<open>None\<close>.  A JSON column holds the
  value its text encodes.
\<close>

section \<open>Bounded values\<close>

definition max_id_length :: nat where "max_id_length = 512"
definition max_provider_length :: nat where "max_provider_length = 128"
definition max_model_length :: nat where "max_model_length = 256"
definition max_prompt_version_length :: nat where "max_prompt_version_length = 256"
definition max_error_code_length :: nat where "max_error_code_length = 256"
definition max_trace_text_length :: nat where "max_trace_text_length = 512"
definition max_trace_name_length :: nat where "max_trace_name_length = 256"

definition identifier_ok :: "jstr \<Rightarrow> bool" where
  "identifier_ok s \<longleftrightarrow> js_trim s \<noteq> [] \<and> length s \<le> max_id_length"

fun id_of :: "jval \<Rightarrow> jstr option" where
  "id_of (JStr s) = (if identifier_ok s then Some s else None)"
| "id_of v = None"

definition timestamp_ok :: "js_number \<Rightarrow> bool" where
  "timestamp_ok n \<longleftrightarrow> is_safe_integer n \<and> 0 \<le> int_value n"

definition positive_ok :: "js_number \<Rightarrow> bool" where
  "positive_ok n \<longleftrightarrow> is_safe_integer n \<and> 1 \<le> int_value n"

fun count_ok :: "jval \<Rightarrow> bool" where
  "count_ok (JNum n) = timestamp_ok n"
| "count_ok v = False"

text \<open>\<open>value.match(/\[REDACTED:[a-z0-9_]+\]/gi)\<close>\<close>

definition rx_any_mark :: rx where
  "rx_any_mark = rx_seq [rx_ilit (lit ''[REDACTED:''), Rep 1 None (One (\<lambda>c. alnum c \<or> c = 95)), rx_lit (lit '']'')]"

fun spaced :: "jstr list \<Rightarrow> jstr" where
  "spaced [] = []"
| "spaced [t] = t"
| "spaced (t # u # ts) = t @ 32 # spaced (u # ts)"

text \<open>The markers that still fit behind the first, up to one that does not.\<close>

fun fitting_marks :: "nat \<Rightarrow> jstr list \<Rightarrow> jstr list \<Rightarrow> jstr list" where
  "fitting_marks limit parts [] = parts"
| "fitting_marks limit parts (m # ms) =
     (if limit \<le> length (32 # spaced parts @ 32 # m) then parts else fitting_marks limit (parts @ [m]) ms)"

definition truncate_marked :: "nat \<Rightarrow> jstr \<Rightarrow> jstr" where
  "truncate_marked limit t =
     (if length t \<le> limit then t
      else let marks = rev (remdups (rev (matched_from rx_any_mark [] t)));
               tail = 32 # spaced (fitting_marks limit [lit ''[TRUNCATED]''] marks)
           in take (limit - length tail) t @ tail)"

definition bounded_metadata :: "nat \<Rightarrow> jstr \<Rightarrow> jstr option" where
  "bounded_metadata limit s =
     (if js_trim s = [] then None else Some (truncate_marked limit (redact_text (js_trim s))))"

fun metadata :: "nat \<Rightarrow> jval \<Rightarrow> jstr option" where
  "metadata limit (JStr s) = bounded_metadata limit s"
| "metadata limit v = None"

definition rx_only_number :: rx where
  "rx_only_number = rx_seq [rx_start, Rep 5 (Some 12) (One digit), AtEnd]"

definition identity_metadata :: "nat \<Rightarrow> jstr \<Rightarrow> jstr option" where
  "identity_metadata limit s =
     (let t = js_trim s
      in if t = [] \<or> limit < length t \<or> redact_secrets t \<noteq> t \<or> rx_test rx_qq_number t \<or> rx_test rx_only_number t
         then None else Some t)"

fun all_some :: "('a \<Rightarrow> 'b option) \<Rightarrow> 'a list \<Rightarrow> 'b list option" where
  "all_some f [] = Some []"
| "all_some f (x # xs) = do { y \<leftarrow> f x; ys \<leftarrow> all_some f xs; Some (y # ys) }"

definition source_ids_ok :: "jstr list \<Rightarrow> bool" where
  "source_ids_ok ids \<longleftrightarrow> list_all identifier_ok ids \<and> distinct ids \<and> ids \<noteq> []"

text \<open>\<open>Buffer.byteLength(text, 'utf8')\<close>: a lone surrogate is replaced by a character of three bytes.\<close>

fun utf8_length :: "jstr \<Rightarrow> nat" where
  "utf8_length [] = 0"
| "utf8_length (c # cs) =
     (if c < 128 then 1 + utf8_length cs
      else if c < 2048 then 2 + utf8_length cs
      else case cs of
             d # ds \<Rightarrow> if high_surrogate c \<and> low_surrogate d then 4 + utf8_length ds else 3 + utf8_length cs
           | [] \<Rightarrow> 3)"

section \<open>Tokens\<close>

record token_counts =
  tk_input :: js_number
  tk_output :: js_number
  tk_total :: js_number
  tk_cache_read :: "js_number option"
  tk_cache_write :: "js_number option"
  tk_reasoning :: "js_number option"

definition tokens_ok :: "token_counts \<Rightarrow> bool" where
  "tokens_ok t \<longleftrightarrow> timestamp_ok (tk_input t) \<and> timestamp_ok (tk_output t) \<and> timestamp_ok (tk_total t)"

definition optional_count_ok :: "js_number option \<Rightarrow> bool" where
  "optional_count_ok n \<longleftrightarrow> (case n of None \<Rightarrow> True | Some m \<Rightarrow> timestamp_ok m)"

definition pi_tokens_ok :: "token_counts \<Rightarrow> bool" where
  "pi_tokens_ok t \<longleftrightarrow> tokens_ok t \<and> optional_count_ok (tk_cache_read t) \<and> optional_count_ok (tk_cache_write t)
     \<and> optional_count_ok (tk_reasoning t)"

section \<open>The trace of a context\<close>

record context_trace =
  ct_conversation :: jstr
  ct_type :: jstr
  ct_group :: "jstr option"
  ct_candidates :: "jstr list"
  ct_selected :: "jstr list"
  ct_rejected :: "(jstr \<times> jstr) list"
  ct_filters :: "jstr list"
  ct_fields :: "jstr list"
  ct_recent :: jval
  ct_budget :: jval
  ct_memories :: "jval list"
  ct_created :: int

definition opaque_reference :: "(jstr \<Rightarrow> jstr) \<Rightarrow> string \<Rightarrow> jstr \<Rightarrow> jstr" where
  "opaque_reference sha kind value =
     lit kind @ lit ''-sha256:'' @ sha (lit ''lethebot:model-context:'' @ lit kind @ lit '':v1'' @ [0] @ value)"

text \<open>\<open>value ?? fallback\<close>\<close>

definition or_else :: "jval \<Rightarrow> jval \<Rightarrow> jval" where
  "or_else v w = (if nullish v then w else v)"

fun identifiers :: "jval \<Rightarrow> jstr list option" where
  "identifiers (JArr vs) = do { ids \<leftarrow> all_some id_of vs; if distinct ids then Some ids else None }"
| "identifiers v = None"

fun text_of_value :: "jval \<Rightarrow> jstr option" where
  "text_of_value (JStr s) = Some s"
| "text_of_value v = None"

fun texts :: "jval \<Rightarrow> jstr list option" where
  "texts (JArr vs) = all_some text_of_value vs"
| "texts v = None"

fun array :: "jval \<Rightarrow> jval list option" where
  "array (JArr vs) = Some vs"
| "array v = None"

definition guard_that :: "bool \<Rightarrow> unit option" where
  "guard_that b = (if b then Some () else None)"

definition prompt_layer :: "jval \<Rightarrow> jval option" where
  "prompt_layer v = do {
     guard_that (count_ok (path v [''tokens'']));
     name \<leftarrow> metadata max_trace_name_length (path v [''name'']);
     version \<leftarrow> metadata max_trace_name_length (path v [''version'']);
     Some (obj [(''name'', JStr name), (''version'', JStr version), (''tokens'', path v [''tokens''])]) }"

definition token_budget :: "jval \<Rightarrow> jval option" where
  "token_budget v = do {
     guard_that (is_record v \<and> count_ok (path v [''max'']) \<and> count_ok (path v [''used'']));
     guard_that (\<not> js_less (number_of (path v [''max''])) (number_of (path v [''used''])));
     guard_that (is_record (path v [''breakdown'']));
     guard_that (list_all (\<lambda>k. count_ok (path v [''breakdown'', k])) [''recentMessages'', ''memory'', ''identity'', ''system'']);
     layers \<leftarrow> (if nullish (path v [''promptLayers'']) then Some []
                else do { ls \<leftarrow> array (path v [''promptLayers'']); vs \<leftarrow> all_some prompt_layer ls;
                          Some [(''promptLayers'', JArr vs)] });
     Some (obj ([(''max'', path v [''max'']), (''used'', path v [''used'']), (''breakdown'', path v [''breakdown''])] @ layers)) }"

definition rejected_memory :: "jval \<Rightarrow> (jstr \<times> jstr) option" where
  "rejected_memory v = do {
     m \<leftarrow> id_of (path v [''memoryId'']);
     r \<leftarrow> metadata max_trace_text_length (path v [''reason'']);
     Some (m, r) }"

definition optional_metadata :: "string \<Rightarrow> nat \<Rightarrow> jval \<Rightarrow> (string \<times> jval) list option" where
  "optional_metadata k limit v =
     (if path v [k] = JUndefined then Some []
      else do { s \<leftarrow> metadata limit (path v [k]); Some [(k, JStr s)] })"

definition retrieved_memory :: "jval \<Rightarrow> jval option" where
  "retrieved_memory v = do {
     guard_that (case path v [''confidence''] of JNum n \<Rightarrow> is_finite n | _ \<Rightarrow> False);
     m \<leftarrow> id_of (path v [''memoryId'']);
     scope \<leftarrow> metadata max_trace_name_length (path v [''scope'']);
     kind \<leftarrow> optional_metadata ''kind'' max_trace_name_length v;
     title \<leftarrow> metadata max_trace_text_length (path v [''title'']);
     origin \<leftarrow> optional_metadata ''sourceContext'' max_trace_text_length v;
     Some (obj ([(''memoryId'', JStr m), (''scope'', JStr scope)] @ kind @ [(''title'', JStr title)]
       @ [(''confidence'', path v [''confidence''])] @ origin)) }"

fun date_value :: "jval \<Rightarrow> js_number" where
  "date_value (JDate (Some t)) = JInt t"
| "date_value v = JNan"

definition empty_array :: jval where
  "empty_array = JArr []"

text \<open>\<open>prepareContextTrace\<close>\<close>

definition prepare_trace :: "(jstr \<Rightarrow> jstr) \<Rightarrow> jval \<Rightarrow> context_trace option" where
  "prepare_trace sha c = do {
     guard_that (is_record c);
     let created = date_value (path c [''createdAt'']);
     guard_that (timestamp_ok created);
     conversation \<leftarrow> id_of (path c [''conversation'', ''conversationId'']);
     type \<leftarrow> text_of_value (path c [''conversation'', ''conversationType'']);
     guard_that (type = lit ''private'' \<or> type = lit ''group'');
     let g = path c [''conversation'', ''groupId''];
     group \<leftarrow> (if g = JUndefined then Some None else do { i \<leftarrow> id_of g; Some (Some i) });
     selected \<leftarrow> identifiers (path c [''memory'', ''selectedMemoryIds'']);
     traced \<leftarrow> identifiers (or_else (path c [''trace'', ''selectedMemoryIds'']) (JArr (map JStr selected)));
     guard_that (selected = traced);
     candidates \<leftarrow> identifiers (or_else (path c [''trace'', ''candidateMemoryIds'']) empty_array);
     dropped \<leftarrow> array (or_else (path c [''trace'', ''rejectedMemories'']) empty_array);
     rejected \<leftarrow> all_some rejected_memory dropped;
     names \<leftarrow> texts (or_else (path c [''trace'', ''filtersApplied'']) empty_array);
     filters \<leftarrow> all_some (bounded_metadata max_trace_text_length) names;
     injected \<leftarrow> texts (path c [''injectedIdentityFields'']);
     fields \<leftarrow> all_some (bounded_metadata max_trace_name_length) injected;
     messages \<leftarrow> array (path c [''recentMessages'']);
     recent \<leftarrow> identifiers (JArr (map (\<lambda>m. path m [''messageId'']) messages));
     budget \<leftarrow> token_budget (path c [''tokenBudget'']);
     facts \<leftarrow> array (or_else (path c [''memory'', ''retrievedFacts'']) empty_array);
     memories \<leftarrow> all_some retrieved_memory facts;
     Some \<lparr>ct_conversation = opaque_reference sha ''ctxref'' conversation, ct_type = type,
           ct_group = map_option (opaque_reference sha ''groupref'') group, ct_candidates = candidates,
           ct_selected = selected, ct_rejected = rejected, ct_filters = filters, ct_fields = fields,
           ct_recent = JArr (map JStr recent), ct_budget = budget, ct_memories = memories, ct_created = int_value created\<rparr> }"

end
