(* ===== verification/Invocation_Ledger.thy ===== *)
theory Invocation_Ledger
  imports Model_Context Job_Queue
begin

text \<open>
  The ledger of model calls: \<open>ModelInvocationRepository\<close> and \<open>assertEvaluatorInvocationBinding\<close> of
  \<open>src/storage/model-invocation-repository.ts\<close> and \<open>TurnRepository\<close> of
  \<open>src/storage/turn-repository.ts\<close>, on one database.  The job tables are those of the job queue.  The
  triggers of the schema that abort running calls when their turn or attempt ends are part of the
  update of the turn or attempt.  Clock readings, new identifiers and SHA-256 are arguments.  An error
  is a message; the wordings a check uses for one argument are one message here, and so is every
  constraint of the schema that fails.  The length of a text is its number of code units.
\<close>

section \<open>Tables\<close>

datatype turn_status = TPending | TRunning | TCompleted | TFailed | TAborted

record agent_turn =
  at_id :: jstr
  at_conversation :: jstr
  at_trigger :: jstr
  at_pack :: "jstr option"
  at_model :: jstr
  at_provider :: jstr
  at_response :: "jstr option"
  at_status :: turn_status
  at_input :: "js_number option"
  at_output :: "js_number option"
  at_total :: "js_number option"
  at_started :: int
  at_completed :: "int option"

datatype invocation_purpose = ForSummary | ForEvaluator | ForPiTurn

datatype invocation_domain = DomainTool | DomainMemory | DomainSocial

datatype invocation_status = IvRunning | IvCompleted | IvFailed | IvAborted

record invocation =
  iv_id :: jstr
  iv_turn :: "jstr option"
  iv_attempt :: "jstr option"
  iv_context :: "jstr option"
  iv_purpose :: invocation_purpose
  iv_call :: int
  iv_request :: "jstr option"
  iv_domain :: "invocation_domain option"
  iv_prompt :: "jstr option"
  iv_provider :: jstr
  iv_model :: jstr
  iv_status :: invocation_status
  iv_started :: int
  iv_completed :: "int option"
  iv_input :: "int option"
  iv_output :: "int option"
  iv_total :: "int option"
  iv_cache_read :: "int option"
  iv_cache_write :: "int option"
  iv_reasoning :: "int option"
  iv_response :: "(jstr \<times> nat) option"
  iv_error :: "jstr option"

record model_context =
  mc_id :: jstr
  mc_attempt :: jstr
  mc_trace :: context_trace

record ledger =
  lg_turns :: "agent_turn list"
  lg_jobs :: job_db
  lg_contexts :: "model_context list"
  lg_invocations :: "invocation list"
  lg_sources :: "(jstr \<times> jstr) list"
  lg_events :: "jstr list"
  lg_messages :: "(jstr \<times> jstr) list"
  lg_linked :: "jstr list"

definition empty_ledger :: ledger where
  "empty_ledger = \<lparr>lg_turns = [], lg_jobs = empty_jobs, lg_contexts = [], lg_invocations = [], lg_sources = [],
     lg_events = [], lg_messages = [], lg_linked = []\<rparr>"

text \<open>The first check of a list that fails.\<close>

fun first_failing :: "(bool \<times> string) list \<Rightarrow> string option" where
  "first_failing [] = None"
| "first_failing ((b, m) # cs) = (if b then first_failing cs else Some m)"

section \<open>Constraints of the schema\<close>

definition length_within :: "nat \<Rightarrow> jstr \<Rightarrow> bool" where
  "length_within n s \<longleftrightarrow> 1 \<le> length s \<and> length s \<le> n"

definition count_column :: "int option \<Rightarrow> bool" where
  "count_column c \<longleftrightarrow> (case c of None \<Rightarrow> True | Some n \<Rightarrow> 0 \<le> n)"

definition owner_shape :: "invocation \<Rightarrow> bool" where
  "owner_shape v \<longleftrightarrow> (iv_turn v = None) \<noteq> (iv_attempt v = None)
     \<and> (case iv_purpose v of
          ForSummary \<Rightarrow> iv_turn v = None \<and> iv_context v \<noteq> None \<and> iv_request v = None \<and> iv_domain v = None \<and> iv_prompt v = None
        | ForEvaluator \<Rightarrow> iv_context v = None \<and> iv_domain v \<noteq> None \<and> (iv_domain v = Some DomainMemory \<or> iv_turn v \<noteq> None)
            \<and> (case iv_request v of None \<Rightarrow> False | Some r \<Rightarrow> length_within 512 r)
            \<and> (case iv_prompt v of None \<Rightarrow> False | Some p \<Rightarrow> length_within 256 p) \<and> iv_call v \<in> {1, 2}
        | ForPiTurn \<Rightarrow> iv_turn v \<noteq> None \<and> iv_context v = None \<and> iv_request v = None \<and> iv_domain v = None \<and> iv_prompt v = None)"

definition no_usage :: "invocation \<Rightarrow> bool" where
  "no_usage v \<longleftrightarrow> iv_input v = None \<and> iv_output v = None \<and> iv_total v = None
     \<and> iv_cache_read v = None \<and> iv_cache_write v = None \<and> iv_reasoning v = None"

definition known_usage :: "invocation \<Rightarrow> bool" where
  "known_usage v \<longleftrightarrow> iv_input v \<noteq> None \<and> iv_output v \<noteq> None \<and> iv_total v \<noteq> None"

definition status_shape :: "invocation \<Rightarrow> bool" where
  "status_shape v \<longleftrightarrow>
     (case iv_status v of
        IvRunning \<Rightarrow> iv_completed v = None \<and> no_usage v \<and> iv_response v = None \<and> iv_error v = None
      | IvCompleted \<Rightarrow> iv_completed v \<noteq> None \<and> (if iv_purpose v = ForPiTurn then no_usage v \<or> known_usage v else known_usage v)
          \<and> iv_response v \<noteq> None \<and> iv_error v = None
      | _ \<Rightarrow> iv_completed v \<noteq> None \<and> no_usage v \<and> iv_response v = None \<and> iv_error v \<noteq> None)"

definition invocation_shape :: "invocation \<Rightarrow> bool" where
  "invocation_shape v \<longleftrightarrow> owner_shape v \<and> status_shape v \<and> 1 \<le> iv_call v \<and> length_within 128 (iv_provider v)
     \<and> length_within 256 (iv_model v) \<and> 0 \<le> iv_started v
     \<and> (case iv_completed v of None \<Rightarrow> True | Some t \<Rightarrow> iv_started v \<le> t)
     \<and> list_all count_column [iv_input v, iv_output v, iv_total v, iv_cache_read v, iv_cache_write v, iv_reasoning v]
     \<and> (case iv_response v of None \<Rightarrow> True | Some (h, n) \<Rightarrow> hex64 h)
     \<and> (case iv_error v of None \<Rightarrow> True | Some e \<Rightarrow> length_within 256 e)"

text \<open>The three unique indexes.\<close>

definition same_call :: "invocation \<Rightarrow> invocation \<Rightarrow> bool" where
  "same_call v u \<longleftrightarrow> iv_purpose v = iv_purpose u \<and> iv_call v = iv_call u
     \<and> (case iv_purpose v of ForSummary \<Rightarrow> iv_attempt v = iv_attempt u | ForEvaluator \<Rightarrow> iv_request v = iv_request u
        | ForPiTurn \<Rightarrow> iv_turn v = iv_turn u)"

definition find_turn_row :: "jstr \<Rightarrow> ledger \<Rightarrow> agent_turn option" where
  "find_turn_row i db = find (\<lambda>t. at_id t = i) (lg_turns db)"

definition turn_running :: "jstr \<Rightarrow> ledger \<Rightarrow> bool" where
  "turn_running i db \<longleftrightarrow> (case find_turn_row i db of None \<Rightarrow> False | Some t \<Rightarrow> at_status t = TRunning)"

definition find_attempt :: "jstr \<Rightarrow> job_db \<Rightarrow> attempt_row option" where
  "find_attempt i q = find (\<lambda>a. a_id a = i) (attempts q)"

definition attempt_running :: "jstr \<Rightarrow> ledger \<Rightarrow> bool" where
  "attempt_running i db \<longleftrightarrow> (case find_attempt i (lg_jobs db) of None \<Rightarrow> False | Some a \<Rightarrow> a_status a = AttRunning)"

definition owner_exists :: "invocation \<Rightarrow> ledger \<Rightarrow> bool" where
  "owner_exists v db \<longleftrightarrow> (case iv_turn v of None \<Rightarrow> True | Some t \<Rightarrow> find_turn_row t db \<noteq> None)
     \<and> (case iv_attempt v of None \<Rightarrow> True | Some a \<Rightarrow> find_attempt a (lg_jobs db) \<noteq> None)
     \<and> (case iv_context v of None \<Rightarrow> True | Some c \<Rightarrow> (\<exists>m \<in> set (lg_contexts db). mc_id m = c \<and> Some (mc_attempt m) = iv_attempt v))"

definition invocation_allowed :: "invocation \<Rightarrow> jstr list \<Rightarrow> ledger \<Rightarrow> bool" where
  "invocation_allowed v events db \<longleftrightarrow> invocation_shape v
     \<and> list_all (\<lambda>u. iv_id u \<noteq> iv_id v \<and> \<not> same_call v u) (lg_invocations db)
     \<and> owner_exists v db \<and> (iv_purpose v = ForPiTurn \<longrightarrow> (case iv_turn v of None \<Rightarrow> False | Some t \<Rightarrow> turn_running t db))
     \<and> list_all (\<lambda>e. e \<in> set (lg_events db)) events"

definition constraint_failed :: string where
  "constraint_failed = ''constraint failed''"

definition insert_invocation :: "invocation \<Rightarrow> jstr list \<Rightarrow> ledger \<Rightarrow> ledger \<times> (string + jstr)" where
  "insert_invocation v events db =
     (if invocation_allowed v events db
      then (db\<lparr>lg_invocations := lg_invocations db @ [v], lg_sources := lg_sources db @ map (Pair (iv_id v)) events\<rparr>, Inr (iv_id v))
      else (db, Inl constraint_failed))"

section \<open>Contexts\<close>

definition create_context :: "(jstr \<Rightarrow> jstr) \<Rightarrow> jval \<Rightarrow> jstr \<Rightarrow> ledger \<Rightarrow> ledger \<times> (string + jstr)" where
  "create_context sha c attempt db =
     (case (id_of (path c [''id'']), identifier_ok attempt, prepare_trace sha c) of
        (Some i, True, Some trace) \<Rightarrow>
          if \<not> attempt_running attempt db then (db, Inl ''Job attempt is not running'')
          else if list_ex (\<lambda>m. mc_id m = i \<or> mc_attempt m = attempt) (lg_contexts db) then (db, Inl constraint_failed)
          else (db\<lparr>lg_contexts := lg_contexts db @ [\<lparr>mc_id = i, mc_attempt = attempt, mc_trace = trace\<rparr>]\<rparr>, Inr i)
      | _ \<Rightarrow> (db, Inl ''Context is invalid''))"

definition context_sources :: "jval \<Rightarrow> ledger \<Rightarrow> jstr list option" where
  "context_sources recent db = do {
     ids \<leftarrow> identifiers recent;
     events \<leftarrow> all_some (\<lambda>m. map_of (lg_messages db) m) ids;
     if distinct events then Some events else None }"

section \<open>Starting a call\<close>

record call_input =
  cl_id :: "jstr option"
  cl_provider :: jstr
  cl_model :: jstr
  cl_events :: "jstr list"
  cl_started :: "js_number option"

definition new_invocation :: "jstr \<Rightarrow> invocation_purpose \<Rightarrow> int \<Rightarrow> jstr \<Rightarrow> jstr \<Rightarrow> int \<Rightarrow> invocation" where
  "new_invocation i purpose call provider model started = \<lparr>iv_id = i, iv_turn = None, iv_attempt = None, iv_context = None,
     iv_purpose = purpose, iv_call = call, iv_request = None, iv_domain = None, iv_prompt = None, iv_provider = provider,
     iv_model = model, iv_status = IvRunning, iv_started = started, iv_completed = None, iv_input = None, iv_output = None,
     iv_total = None, iv_cache_read = None, iv_cache_write = None, iv_reasoning = None, iv_response = None, iv_error = None\<rparr>"

definition start_summary ::
  "call_input \<Rightarrow> jstr \<Rightarrow> jstr \<Rightarrow> js_number \<Rightarrow> jstr \<Rightarrow> js_number \<Rightarrow> ledger \<Rightarrow> ledger \<times> (string + jstr)" where
  "start_summary c context attempt call fresh now db =
     (let i = value_or (cl_id c) fresh; started = value_or (cl_started c) now;
          provider = bounded_metadata max_provider_length (cl_provider c);
          model = bounded_metadata max_model_length (cl_model c)
      in case first_failing [(identifier_ok i, ''Invocation id is invalid''), (identifier_ok context, ''Context id is invalid''),
                (identifier_ok attempt, ''Job attempt id is invalid''), (positive_ok call, ''Call number is invalid''),
                (timestamp_ok started, ''Started timestamp is invalid''), (provider \<noteq> None, ''Provider is invalid''),
                (model \<noteq> None, ''Model is invalid''), (source_ids_ok (cl_events c), ''Raw event ids are invalid'')] of
           Some e \<Rightarrow> (db, Inl e)
         | None \<Rightarrow>
             (case find (\<lambda>m. mc_id m = context \<and> mc_attempt m = attempt) (lg_contexts db) of
                None \<Rightarrow> (db, Inl ''Context does not belong to the running attempt'')
              | Some m \<Rightarrow>
                  if \<not> attempt_running attempt db then (db, Inl ''Context does not belong to the running attempt'')
                  else if context_sources (ct_recent (mc_trace m)) db \<noteq> Some (cl_events c)
                  then (db, Inl ''Invocation sources do not exactly match context messages'')
                  else insert_invocation
                         ((new_invocation i ForSummary (int_value call) (the provider) (the model) (int_value started))
                            \<lparr>iv_attempt := Some attempt, iv_context := Some context\<rparr>) (cl_events c) db))"

text \<open>\<open>COALESCE(MAX(call_number), 0) + 1\<close> over the calls of the turn.\<close>

definition pi_calls :: "jstr \<Rightarrow> ledger \<Rightarrow> invocation list" where
  "pi_calls t db = filter (\<lambda>v. iv_purpose v = ForPiTurn \<and> iv_turn v = Some t) (lg_invocations db)"

definition next_call :: "jstr \<Rightarrow> ledger \<Rightarrow> int" where
  "next_call t db = Max (insert 0 (iv_call ` set (pi_calls t db))) + 1"

definition start_pi_turn ::
  "call_input \<Rightarrow> jstr \<Rightarrow> js_number \<Rightarrow> jstr \<Rightarrow> js_number \<Rightarrow> ledger \<Rightarrow> ledger \<times> (string + jstr)" where
  "start_pi_turn c turn call fresh now db =
     (let i = value_or (cl_id c) fresh; started = value_or (cl_started c) now;
          provider = identity_metadata max_provider_length (cl_provider c);
          model = identity_metadata max_model_length (cl_model c)
      in case first_failing [(identifier_ok i, ''Invocation id is invalid''), (identifier_ok turn, ''Turn id is invalid''),
                (positive_ok call, ''Call number is invalid''), (timestamp_ok started, ''Started timestamp is invalid''),
                (provider \<noteq> None, ''Provider is invalid''), (model \<noteq> None, ''Model is invalid''),
                (source_ids_ok (cl_events c), ''Raw event ids are invalid'')] of
           Some e \<Rightarrow> (db, Inl e)
         | None \<Rightarrow>
             (case find_turn_row turn db of
                None \<Rightarrow> (db, Inl ''Pi turn invocation requires a running source-bound turn'')
              | Some t \<Rightarrow>
                  (case first_failing [(at_status t = TRunning \<and> at_trigger t \<in> set (cl_events c),
                             ''Pi turn invocation requires a running source-bound turn''),
                           (Some (at_provider t) = provider \<and> Some (at_model t) = model,
                             ''Pi turn invocation provider or model does not match its turn''),
                           (list_all (\<lambda>e. e \<in> set (lg_events db)) (cl_events c), ''Pi turn invocation source event does not exist''),
                           (next_call turn db = int_value call, ''Pi turn invocation call number is not the next ordinal'')] of
                     Some e \<Rightarrow> (db, Inl e)
                   | None \<Rightarrow> insert_invocation
                       ((new_invocation i ForPiTurn (int_value call) (the provider) (the model) (int_value started))
                          \<lparr>iv_turn := Some turn\<rparr>) (cl_events c) db)))"

subsection \<open>Evaluator calls\<close>

definition sources_of :: "jstr \<Rightarrow> ledger \<Rightarrow> jstr list" where
  "sources_of i db = map snd (filter (\<lambda>p. fst p = i) (lg_sources db))"

definition correction_error :: string where
  "correction_error = ''Evaluator correction requires matching invalid structured output''"

record correction =
  co_request :: jstr
  co_domain :: invocation_domain
  co_turn :: "jstr option"
  co_attempt :: "jstr option"
  co_call :: int
  co_provider :: jstr
  co_model :: jstr
  co_prompt :: jstr
  co_events :: "jstr list"
  co_started :: int
  co_created :: "int option"

definition predecessor_fits :: "correction \<Rightarrow> invocation \<Rightarrow> bool" where
  "predecessor_fits c p \<longleftrightarrow> iv_turn p = co_turn c \<and> iv_attempt p = co_attempt c \<and> iv_domain p = Some (co_domain c)
     \<and> iv_prompt p = Some (co_prompt c) \<and> iv_provider p = co_provider c \<and> iv_model p = co_model c \<and> iv_status p = IvFailed
     \<and> iv_error p = Some (lit ''invalid_structured_output'')
     \<and> (case co_created c of None \<Rightarrow> True | Some t \<Rightarrow> t \<le> iv_started p)
     \<and> (case iv_completed p of None \<Rightarrow> False | Some t \<Rightarrow> t \<le> co_started c)"

definition first_evaluator_call :: "jstr \<Rightarrow> ledger \<Rightarrow> invocation option" where
  "first_evaluator_call r db =
     find (\<lambda>v. iv_purpose v = ForEvaluator \<and> iv_request v = Some r \<and> iv_call v = 1) (lg_invocations db)"

definition correction_check :: "correction \<Rightarrow> string \<Rightarrow> ledger \<Rightarrow> string option" where
  "correction_check c failure db =
     (if co_call c = 1 then None
      else if co_call c \<noteq> 2 then Some ''Evaluator call number must be 1 or 2''
      else case first_evaluator_call (co_request c) db of
             None \<Rightarrow> Some failure
           | Some p \<Rightarrow> if predecessor_fits c p \<and> sources_of (iv_id p) db = co_events c then None else Some failure)"

definition owner_can_start :: "jstr option \<Rightarrow> jstr option \<Rightarrow> invocation_domain \<Rightarrow> jstr list \<Rightarrow> int \<Rightarrow> ledger \<Rightarrow> string option" where
  "owner_can_start turn attempt domain events now db =
     (case turn of
        Some t \<Rightarrow>
          (case find_turn_row t db of
             None \<Rightarrow> Some ''Evaluator invocation requires a running source-bound turn''
           | Some r \<Rightarrow> if at_status r = TRunning \<and> at_trigger r \<in> set events then None
                       else Some ''Evaluator invocation requires a running source-bound turn'')
      | None \<Rightarrow>
          (case attempt of
             None \<Rightarrow> Some ''Only memory evaluator invocations may use job-attempt authority''
           | Some a \<Rightarrow>
               if domain \<noteq> DomainMemory then Some ''Only memory evaluator invocations may use job-attempt authority''
               else (case find_attempt a (lg_jobs db) of
                       None \<Rightarrow> Some ''Evaluator invocation requires an active extraction job attempt''
                     | Some r \<Rightarrow>
                         (case find_job (a_job r) (lg_jobs db) of
                            None \<Rightarrow> Some ''Evaluator invocation requires an active extraction job attempt''
                          | Some j \<Rightarrow> if j_type j = lit ''extraction'' \<and> has_authority (lg_jobs db) (a_job r) a now None then None
                                      else Some ''Evaluator invocation requires an active extraction job attempt''))))"

record evaluator_call =
  ec_request :: jstr
  ec_domain :: invocation_domain
  ec_turn :: "jstr option"
  ec_attempt :: "jstr option"
  ec_call :: "int option"
  ec_prompt :: jstr

definition optional_id_ok :: "jstr option \<Rightarrow> bool" where
  "optional_id_ok i \<longleftrightarrow> (case i of None \<Rightarrow> True | Some s \<Rightarrow> identifier_ok s)"

definition start_evaluator ::
  "call_input \<Rightarrow> evaluator_call \<Rightarrow> jstr \<Rightarrow> js_number \<Rightarrow> ledger \<Rightarrow> ledger \<times> (string + jstr)" where
  "start_evaluator c e fresh now db =
     (let i = value_or (cl_id c) fresh;
          provider = identity_metadata max_provider_length (cl_provider c);
          model = identity_metadata max_model_length (cl_model c);
          prompt = identity_metadata max_prompt_version_length (ec_prompt e);
          call = value_or (ec_call e) 1;
          started = value_or (cl_started c) now
      in case first_failing [(identifier_ok i, ''Invocation id is invalid''), (identifier_ok (ec_request e), ''Evaluator request id is invalid''),
                (optional_id_ok (ec_turn e), ''Evaluator turn id is invalid''),
                (optional_id_ok (ec_attempt e), ''Evaluator job attempt id is invalid''),
                ((ec_turn e = None) \<noteq> (ec_attempt e = None), ''Evaluator invocation requires exactly one owner''),
                (optional_count_ok (cl_started c), ''Started timestamp is invalid''), (provider \<noteq> None, ''Provider is invalid''),
                (model \<noteq> None, ''Model is invalid''), (prompt \<noteq> None, ''Prompt version is invalid''),
                (source_ids_ok (cl_events c), ''Raw event ids are invalid''),
                (call = 1 \<or> call = 2, ''Evaluator call number must be 1 or 2''),
                (timestamp_ok now, ''Current timestamp is invalid'')] of
           Some m \<Rightarrow> (db, Inl m)
         | None \<Rightarrow>
             (case owner_can_start (ec_turn e) (ec_attempt e) (ec_domain e) (cl_events c) (int_value now) db of
                Some m \<Rightarrow> (db, Inl m)
              | None \<Rightarrow>
                  if \<not> list_all (\<lambda>x. x \<in> set (lg_events db)) (cl_events c)
                  then (db, Inl ''Evaluator invocation source event does not exist'')
                  else (case correction_check \<lparr>co_request = ec_request e, co_domain = ec_domain e, co_turn = ec_turn e,
                               co_attempt = ec_attempt e, co_call = call, co_provider = the provider, co_model = the model,
                               co_prompt = the prompt, co_events = cl_events c, co_started = int_value started, co_created = None\<rparr>
                               correction_error db of
                          Some m \<Rightarrow> (db, Inl m)
                        | None \<Rightarrow> insert_invocation
                            ((new_invocation i ForEvaluator call (the provider) (the model) (int_value started))
                               \<lparr>iv_turn := ec_turn e, iv_attempt := ec_attempt e, iv_request := Some (ec_request e),
                                iv_domain := Some (ec_domain e), iv_prompt := Some (the prompt)\<rparr>) (cl_events c) db)))"

section \<open>Settling a call\<close>

definition find_running :: "jstr \<Rightarrow> ledger \<Rightarrow> invocation option" where
  "find_running i db = find (\<lambda>v. iv_id v = i \<and> iv_status v = IvRunning) (lg_invocations db)"

definition can_complete :: "invocation \<Rightarrow> int \<Rightarrow> ledger \<Rightarrow> bool" where
  "can_complete v now db \<longleftrightarrow>
     (if iv_purpose v = ForSummary then (case iv_attempt v of None \<Rightarrow> False | Some a \<Rightarrow> attempt_running a db)
      else case iv_turn v of
             Some t \<Rightarrow> turn_running t db
           | None \<Rightarrow>
               (case iv_attempt v of
                  None \<Rightarrow> False
                | Some a \<Rightarrow> (case find_attempt a (lg_jobs db) of
                     None \<Rightarrow> False | Some r \<Rightarrow> has_authority (lg_jobs db) (a_job r) a now None)))"

definition not_running :: string where
  "not_running = ''Invocation is not running''"

text \<open>The update of a running row; a row that breaks a constraint undoes it.\<close>

definition settle :: "jstr \<Rightarrow> (invocation \<Rightarrow> invocation) \<Rightarrow> ledger \<Rightarrow> ledger \<times> string option" where
  "settle i f db =
     (case find_running i db of
        None \<Rightarrow> (db, Some not_running)
      | Some v \<Rightarrow>
          if invocation_shape (f v)
          then (db\<lparr>lg_invocations := update_where (\<lambda>u. iv_id u = i \<and> iv_status u = IvRunning) f (lg_invocations db)\<rparr>, None)
          else (db, Some constraint_failed))"

definition completed :: "(jstr \<Rightarrow> jstr) \<Rightarrow> int \<Rightarrow> jstr \<Rightarrow> invocation \<Rightarrow> invocation" where
  "completed sha now text v = v\<lparr>iv_status := IvCompleted, iv_completed := Some (max now (iv_started v)),
     iv_response := Some (sha text, utf8_length text)\<rparr>"

definition with_tokens :: "token_counts \<Rightarrow> invocation \<Rightarrow> invocation" where
  "with_tokens t v = v\<lparr>iv_input := Some (int_value (tk_input t)), iv_output := Some (int_value (tk_output t)),
     iv_total := Some (int_value (tk_total t))\<rparr>"

definition with_cache_tokens :: "token_counts \<Rightarrow> invocation \<Rightarrow> invocation" where
  "with_cache_tokens t v = v\<lparr>iv_cache_read := map_option int_value (tk_cache_read t),
     iv_cache_write := map_option int_value (tk_cache_write t), iv_reasoning := map_option int_value (tk_reasoning t)\<rparr>"

definition complete_invocation ::
  "(jstr \<Rightarrow> jstr) \<Rightarrow> jstr \<Rightarrow> token_counts \<Rightarrow> jstr \<Rightarrow> js_number \<Rightarrow> ledger \<Rightarrow> ledger \<times> string option" where
  "complete_invocation sha i tokens text now db =
     (case first_failing [(identifier_ok i, ''Invocation id is invalid''), (tokens_ok tokens, ''Invocation token counts are invalid''),
             (timestamp_ok now, ''Completed timestamp is invalid'')] of
        Some e \<Rightarrow> (db, Some e)
      | None \<Rightarrow>
          (case find_running i db of
             None \<Rightarrow> (db, Some not_running)
           | Some v \<Rightarrow>
               if iv_purpose v = ForPiTurn then (db, Some ''Pi turn invocation requires Pi completion evidence'')
               else if \<not> can_complete v (int_value now) db then (db, Some not_running)
               else settle i (with_tokens tokens \<circ> completed sha (int_value now) text) db))"

definition complete_pi_turn_invocation ::
  "(jstr \<Rightarrow> jstr) \<Rightarrow> jstr \<Rightarrow> token_counts option \<Rightarrow> jstr \<Rightarrow> js_number \<Rightarrow> ledger \<Rightarrow> ledger \<times> string option" where
  "complete_pi_turn_invocation sha i tokens text now db =
     (case first_failing [(identifier_ok i, ''Invocation id is invalid''),
             (case tokens of None \<Rightarrow> True | Some t \<Rightarrow> pi_tokens_ok t, ''Invocation token counts are invalid''),
             (timestamp_ok now, ''Completed timestamp is invalid'')] of
        Some e \<Rightarrow> (db, Some e)
      | None \<Rightarrow>
          (case find_running i db of
             None \<Rightarrow> (db, Some not_running)
           | Some v \<Rightarrow>
               if iv_purpose v \<noteq> ForPiTurn then (db, Some ''Invocation is not a Pi turn invocation'')
               else if \<not> can_complete v (int_value now) db then (db, Some not_running)
               else settle i ((case tokens of None \<Rightarrow> id | Some t \<Rightarrow> with_cache_tokens t \<circ> with_tokens t)
                                \<circ> completed sha (int_value now) text) db))"

definition fail_invocation :: "jstr \<Rightarrow> jstr \<Rightarrow> invocation_status \<Rightarrow> js_number \<Rightarrow> ledger \<Rightarrow> ledger \<times> string option" where
  "fail_invocation i code status now db =
     (case first_failing [(identifier_ok i, ''Invocation id is invalid''),
             (status = IvFailed \<or> status = IvAborted, ''Invocation failure status is invalid''),
             (bounded_metadata max_error_code_length code \<noteq> None, ''Error code is invalid''),
             (timestamp_ok now, ''Completed timestamp is invalid'')] of
        Some e \<Rightarrow> (db, Some e)
      | None \<Rightarrow> settle i (\<lambda>v. v\<lparr>iv_status := status, iv_completed := Some (max (int_value now) (iv_started v)),
                                iv_error := bounded_metadata max_error_code_length code\<rparr>) db)"

section \<open>Reading\<close>

definition find_context_by_id :: "jstr \<Rightarrow> ledger \<Rightarrow> model_context option" where
  "find_context_by_id i db = find (\<lambda>m. mc_id m = i) (lg_contexts db)"

definition find_invocation_by_id :: "jstr \<Rightarrow> ledger \<Rightarrow> invocation option" where
  "find_invocation_by_id i db = find (\<lambda>v. iv_id v = i) (lg_invocations db)"

definition list_for_attempt :: "jstr \<Rightarrow> ledger \<Rightarrow> invocation list" where
  "list_for_attempt a db = sort_key iv_call (filter (\<lambda>v. iv_attempt v = Some a) (lg_invocations db))"

definition list_for_turn :: "jstr \<Rightarrow> ledger \<Rightarrow> invocation list" where
  "list_for_turn t db = sort_key iv_call (pi_calls t db)"

end
