(* ===== verification/Ledger_Turns.thy ===== *)
theory Ledger_Turns
  imports Invocation_Ledger
begin

text \<open>
  The turns that own model calls (\<open>TurnRepository\<close> of \<open>src/storage/turn-repository.ts\<close>), the check
  that binds an evaluator decision to its call (\<open>assertEvaluatorInvocationBinding\<close> of
  \<open>src/storage/model-invocation-repository.ts\<close>), and the histories of the whole ledger.  The two
  triggers of \<open>migrations/007_pi_turn_model_invocations.sql\<close> abort the running calls of a turn or an
  attempt that stops running.  The instant of a \<open>Date\<close> is \<open>None\<close> when the date is invalid.
\<close>

section \<open>Triggers\<close>

definition aborted_at :: "int option \<Rightarrow> string \<Rightarrow> invocation \<Rightarrow> invocation" where
  "aborted_at t code v = v\<lparr>iv_status := IvAborted,
     iv_completed := Some (case t of None \<Rightarrow> iv_started v | Some n \<Rightarrow> max (iv_started v) n),
     iv_error := Some (lit code)\<rparr>"

definition coalesced :: "'a option \<Rightarrow> 'a option \<Rightarrow> 'a option" where
  "coalesced x y = (case x of None \<Rightarrow> y | Some _ \<Rightarrow> x)"

text \<open>An update of the status column of the turns that satisfy \<open>P\<close>, with its trigger.\<close>

definition turn_stops :: "(agent_turn \<Rightarrow> bool) \<Rightarrow> (agent_turn \<Rightarrow> agent_turn) \<Rightarrow> invocation \<Rightarrow> agent_turn \<Rightarrow> bool" where
  "turn_stops P f v t \<longleftrightarrow> iv_turn v = Some (at_id t) \<and> P t \<and> at_status t = TRunning \<and> at_status (f t) \<noteq> TRunning"

definition update_turns :: "(agent_turn \<Rightarrow> bool) \<Rightarrow> (agent_turn \<Rightarrow> agent_turn) \<Rightarrow> ledger \<Rightarrow> ledger" where
  "update_turns P f db = db\<lparr>lg_turns := update_where P f (lg_turns db),
     lg_invocations := map (\<lambda>v. if iv_status v = IvRunning then
         (case find (turn_stops P f v) (lg_turns db) of
            None \<Rightarrow> v
          | Some t \<Rightarrow> aborted_at (coalesced (at_completed (f t)) (at_completed t)) ''turn_ended'' v) else v)
       (lg_invocations db)\<rparr>"

text \<open>An operation of the job queue on the same database, with the trigger of the attempts.\<close>

definition attempt_stops :: "job_db \<Rightarrow> job_db \<Rightarrow> invocation \<Rightarrow> (attempt_row \<times> attempt_row) option" where
  "attempt_stops p q v =
     (case iv_attempt v of
        None \<Rightarrow> None
      | Some i \<Rightarrow>
          (case (find_attempt i p, find_attempt i q) of
             (Some a, Some b) \<Rightarrow> if a_status a = AttRunning \<and> a_status b \<noteq> AttRunning then Some (a, b) else None
           | _ \<Rightarrow> None))"

definition replace_jobs :: "job_db \<Rightarrow> ledger \<Rightarrow> ledger" where
  "replace_jobs q db = db\<lparr>lg_jobs := q,
     lg_invocations := map (\<lambda>v. if iv_status v = IvRunning then
         (case attempt_stops (lg_jobs db) q v of
            None \<Rightarrow> v
          | Some (a, b) \<Rightarrow>
              aborted_at (coalesced (a_completed b) (coalesced (a_heartbeat b) (a_heartbeat a))) ''job_attempt_ended'' v) else v)
       (lg_invocations db)\<rparr>"

section \<open>Turns\<close>

definition create_pending ::
  "jstr option \<Rightarrow> jstr \<Rightarrow> jstr \<Rightarrow> jstr \<Rightarrow> jstr \<Rightarrow> int option \<Rightarrow> jstr \<Rightarrow> ledger \<Rightarrow> ledger \<times> (string + jstr)" where
  "create_pending i conversation trigger model provider started fresh db =
     (let i' = value_or i fresh
      in case started of
           None \<Rightarrow> (db, Inl constraint_failed)
         | Some now \<Rightarrow>
             if find_turn_row i' db \<noteq> None \<or> trigger \<notin> set (lg_events db) then (db, Inl constraint_failed)
             else (db\<lparr>lg_turns := lg_turns db @ [\<lparr>at_id = i', at_conversation = conversation, at_trigger = trigger,
                      at_pack = None, at_model = model, at_provider = provider, at_response = None, at_status = TPending,
                      at_input = None, at_output = None, at_total = None, at_started = now, at_completed = None\<rparr>]\<rparr>, Inr i'))"

definition mark_running :: "jstr \<Rightarrow> jstr \<Rightarrow> ledger \<Rightarrow> ledger" where
  "mark_running i pack = update_turns (\<lambda>t. at_id t = i) (\<lambda>t. t\<lparr>at_status := TRunning, at_pack := Some pack\<rparr>)"

definition mark_completed ::
  "jstr \<Rightarrow> jstr option \<Rightarrow> js_number \<Rightarrow> js_number \<Rightarrow> js_number \<Rightarrow> int option \<Rightarrow> ledger \<Rightarrow> ledger" where
  "mark_completed i response input output whole now = update_turns (\<lambda>t. at_id t = i)
     (\<lambda>t. t\<lparr>at_status := TCompleted, at_response := response, at_input := Some input, at_output := Some output,
            at_total := Some whole, at_completed := now\<rparr>)"

definition mark_failed :: "jstr \<Rightarrow> jstr \<Rightarrow> int option \<Rightarrow> ledger \<Rightarrow> ledger" where
  "mark_failed i message now = update_turns (\<lambda>t. at_id t = i)
     (\<lambda>t. t\<lparr>at_status := TFailed, at_response := Some (redact_text message), at_completed := now\<rparr>)"

definition unsettled_turn :: "jstr \<Rightarrow> agent_turn \<Rightarrow> bool" where
  "unsettled_turn trigger t \<longleftrightarrow> at_trigger t = trigger \<and> (at_status t = TPending \<or> at_status t = TRunning)"

definition mark_aborted :: "jstr \<Rightarrow> jstr \<Rightarrow> int option \<Rightarrow> ledger \<Rightarrow> ledger \<times> nat" where
  "mark_aborted trigger reason now db =
     (update_turns (unsettled_turn trigger)
        (\<lambda>t. t\<lparr>at_status := TAborted, at_response := Some (redact_text reason), at_completed := now\<rparr>) db,
      changes (unsettled_turn trigger) (lg_turns db))"

subsection \<open>Completion from the evidence of the calls\<close>

record usage_sum =
  us_known :: bool
  us_input :: int
  us_output :: int
  us_total :: int

definition safe_count :: "int \<Rightarrow> bool" where
  "safe_count n \<longleftrightarrow> 0 \<le> n \<and> n \<le> max_safe"

fun sum_evidence :: "agent_turn \<Rightarrow> int \<Rightarrow> usage_sum \<Rightarrow> invocation list \<Rightarrow> string + usage_sum" where
  "sum_evidence t n s [] = Inr s"
| "sum_evidence t n s (v # vs) =
     (if iv_call v \<noteq> n + 1 then Inl ''Pi-backed invocation ordinals are not gap-free''
      else if iv_provider v \<noteq> at_provider t \<or> iv_model v \<noteq> at_model t
      then Inl ''Pi-backed invocation provider or model does not match its turn''
      else if iv_status v \<noteq> IvCompleted \<or> iv_completed v = None
      then Inl ''Pi-backed turn has an invocation that did not complete''
      else (case (iv_input v, iv_output v, iv_total v) of
              (None, None, None) \<Rightarrow> sum_evidence t (n + 1) (s\<lparr>us_known := False\<rparr>) vs
            | (Some i, Some out, Some all) \<Rightarrow>
                if \<not> (safe_count i \<and> safe_count out \<and> safe_count all)
                then Inl ''Pi-backed invocation usage evidence is invalid''
                else sum_evidence t (n + 1) (s\<lparr>us_input := us_input s + i, us_output := us_output s + out,
                                               us_total := us_total s + all\<rparr>) vs
            | _ \<Rightarrow> Inl ''Pi-backed invocation has partial usage evidence''))"

definition complete_from_evidence :: "jstr \<Rightarrow> jstr option \<Rightarrow> int option \<Rightarrow> ledger \<Rightarrow> ledger \<times> string option" where
  "complete_from_evidence i response now db =
     (case find_turn_row i db of
        None \<Rightarrow> (db, Some ''Agent turn does not exist'')
      | Some t \<Rightarrow>
          if at_status t = TCompleted then (db, None)
          else if at_status t \<noteq> TRunning then (db, Some ''Pi-backed turn must be running before completion'')
          else if list_for_turn i db = [] then (db, Some ''Pi-backed turn has no invocation evidence'')
          else (case sum_evidence t 0 \<lparr>us_known = True, us_input = 0, us_output = 0, us_total = 0\<rparr> (list_for_turn i db) of
                  Inl e \<Rightarrow> (db, Some e)
                | Inr s \<Rightarrow>
                    if \<not> list_all (\<lambda>n. \<bar>n\<bar> \<le> max_safe) [us_input s, us_output s, us_total s]
                    then (db, Some ''Pi-backed invocation usage aggregate is invalid'')
                    else (case now of
                            None \<Rightarrow> (db, Some ''Completed timestamp is invalid'')
                          | Some m \<Rightarrow>
                              if m < 0 then (db, Some ''Completed timestamp is invalid'')
                              else let known = (\<lambda>n. if us_known s then Some (JInt n) else None)
                                   in (update_turns (\<lambda>q. at_id q = i \<and> at_status q = TRunning)
                                         (\<lambda>q. q\<lparr>at_status := TCompleted, at_response := response,
                                                at_input := known (us_input s), at_output := known (us_output s),
                                                at_total := known (us_total s), at_completed := Some (max m (at_started t))\<rparr>) db,
                                       None))))"

section \<open>Binding a decision to its call\<close>

record binding_evidence =
  be_request :: jstr
  be_domain :: jstr
  be_turn :: "jstr option"
  be_attempt :: "jstr option"
  be_created :: "int option"
  be_sources :: "jval list"
  be_result_request :: jstr
  be_result_domain :: jstr
  be_decided :: "int option"
  be_version :: jstr
  be_invocation :: "jstr option"

definition social_evidence :: "social_request \<Rightarrow> social_result \<Rightarrow> binding_evidence" where
  "social_evidence q r = \<lparr>be_request = sq_id q, be_domain = sq_domain q, be_turn = Some (sq_turn q), be_attempt = None,
     be_created = sq_created q, be_sources = (case sq_sources q of JArr vs \<Rightarrow> vs | _ \<Rightarrow> []), be_result_request = sr_request_id r,
     be_result_domain = sr_domain r, be_decided = sr_decided_at r, be_version = sr_version r, be_invocation = sr_invocation r\<rparr>"

fun domain_text :: "invocation_domain \<Rightarrow> jstr" where
  "domain_text DomainTool = lit ''tool''"
| "domain_text DomainMemory = lit ''memory''"
| "domain_text DomainSocial = lit ''social''"

definition read_timestamp :: "int option \<Rightarrow> int option" where
  "read_timestamp t = (case t of None \<Rightarrow> None | Some n \<Rightarrow> if safe_count n then Some n else None)"

definition evaluator_version :: "invocation \<Rightarrow> jstr option" where
  "evaluator_version v = map_option (\<lambda>p. iv_provider v @ lit ''/'' @ iv_model v @ lit ''/'' @ p) (iv_prompt v)"

definition binding_fits :: "binding_evidence \<Rightarrow> invocation \<Rightarrow> bool" where
  "binding_fits e v \<longleftrightarrow> iv_purpose v = ForEvaluator \<and> iv_status v = IvCompleted \<and> iv_context v = None
     \<and> (iv_call v = 1 \<or> iv_call v = 2) \<and> iv_request v = Some (be_request e)
     \<and> map_option domain_text (iv_domain v) = Some (be_domain e) \<and> be_result_domain e = be_domain e
     \<and> be_result_request e = be_request e \<and> iv_turn v = be_turn e \<and> iv_attempt v = be_attempt e
     \<and> evaluator_version v = Some (be_version e)
     \<and> (case (read_timestamp (be_created e), iv_completed v, read_timestamp (be_decided e)) of
          (Some c, Some f, Some d) \<Rightarrow> c \<le> iv_started v \<and> iv_started v \<le> f \<and> f \<le> d
        | _ \<Rightarrow> False)"

definition binding_owner_active :: "invocation \<Rightarrow> int \<Rightarrow> ledger \<Rightarrow> bool" where
  "binding_owner_active v now db \<longleftrightarrow>
     (case iv_turn v of
        Some t \<Rightarrow> turn_running t db
      | None \<Rightarrow>
          (case iv_attempt v of
             None \<Rightarrow> False
           | Some a \<Rightarrow> (case find_attempt a (lg_jobs db) of
               None \<Rightarrow> False | Some r \<Rightarrow> has_authority (lg_jobs db) (a_job r) a now None)))"

definition mismatch :: string where
  "mismatch = ''Evaluator model invocation does not match evaluator evidence''"

text \<open>The correction check of the bound call, whose domain the evidence has already fixed.\<close>

definition bound_correction :: "binding_evidence \<Rightarrow> invocation \<Rightarrow> jstr list \<Rightarrow> correction" where
  "bound_correction e v events = \<lparr>co_request = be_request e, co_domain = the (iv_domain v), co_turn = be_turn e,
     co_attempt = be_attempt e, co_call = iv_call v, co_provider = iv_provider v, co_model = iv_model v,
     co_prompt = value_or (iv_prompt v) [], co_events = events, co_started = iv_started v,
     co_created = read_timestamp (be_created e)\<rparr>"

definition binding_check :: "binding_evidence \<Rightarrow> int \<Rightarrow> ledger \<Rightarrow> string option" where
  "binding_check e now db =
     (case be_invocation e of
        None \<Rightarrow> None
      | Some i \<Rightarrow>
          if \<not> identifier_ok i then Some ''Evaluator model invocation id is invalid''
          else (case find_invocation_by_id i db of
                  None \<Rightarrow> Some ''Evaluator model invocation does not exist''
                | Some v \<Rightarrow>
                    let events = sources_of i db
                    in case first_failing [(optional_id_ok (be_turn e), ''Evaluator turn id is invalid''),
                              (optional_id_ok (be_attempt e), ''Evaluator job attempt id is invalid''),
                              ((be_turn e = None) \<noteq> (be_attempt e = None), ''Evaluator invocation requires exactly one owner''),
                              (binding_fits e v, mismatch),
                              (binding_owner_active v now db, ''Evaluator model invocation owner is no longer active''),
                              (map JStr events = be_sources e, ''Evaluator model invocation sources do not match evaluator evidence'')] of
                         Some m \<Rightarrow> Some m
                       | None \<Rightarrow>
                           (case correction_check (bound_correction e v events) mismatch db of
                              Some m \<Rightarrow> Some m
                            | None \<Rightarrow> if i \<in> set (lg_linked db)
                                      then Some ''Evaluator model invocation is already linked to a decision'' else None)))"

text \<open>The argument of the action repository that stands for this check.\<close>

definition social_binding :: "int \<Rightarrow> ledger \<Rightarrow> social_request \<Rightarrow> social_result \<Rightarrow> bool" where
  "social_binding now db q r \<longleftrightarrow> binding_check (social_evidence q r) now db = None"

section \<open>Histories\<close>

inductive ledger_step :: "ledger \<Rightarrow> ledger \<Rightarrow> bool" where
  ls_event: "ledger_step db (db\<lparr>lg_events := lg_events db @ [e]\<rparr>)"
| ls_message: "ledger_step db (db\<lparr>lg_messages := lg_messages db @ [(m, e)]\<rparr>)"
| ls_link: "ledger_step db (db\<lparr>lg_linked := lg_linked db @ [i]\<rparr>)"
| ls_jobs: "job_step (lg_jobs db) q \<Longrightarrow> ledger_step db (replace_jobs q db)"
| ls_pending: "ledger_step db (fst (create_pending i conversation trigger model provider started fresh db))"
| ls_running: "ledger_step db (mark_running i pack db)"
| ls_completed: "ledger_step db (mark_completed i response input output whole at db)"
| ls_evidence: "ledger_step db (fst (complete_from_evidence i response at db))"
| ls_failed: "ledger_step db (mark_failed i message at db)"
| ls_aborted: "ledger_step db (fst (mark_aborted trigger message at db))"
| ls_context: "ledger_step db (fst (create_context sha c attempt db))"
| ls_summary: "ledger_step db (fst (start_summary cl context attempt call fresh now db))"
| ls_pi: "ledger_step db (fst (start_pi_turn cl turn call fresh now db))"
| ls_evaluator: "ledger_step db (fst (start_evaluator cl ec fresh now db))"
| ls_complete: "ledger_step db (fst (complete_invocation sha i tokens answer now db))"
| ls_complete_pi: "ledger_step db (fst (complete_pi_turn_invocation sha i usage answer now db))"
| ls_fail: "ledger_step db (fst (fail_invocation i code status now db))"

inductive_cases ledger_stepE: "ledger_step db db'"

definition ledger_reachable :: "ledger \<Rightarrow> bool" where
  "ledger_reachable db \<longleftrightarrow> ledger_step\<^sup>*\<^sup>* empty_ledger db"

end
