(* ===== verification/Ledger_Facts.thy ===== *)
theory Ledger_Facts
  imports Ledger_Turns Job_Queue_Facts
begin

text \<open>
  How a step changes the rows of the ledger: either it settles some running calls and leaves the rest
  as they are, or it adds one running call the constraints allow.  The invariant of the ledger follows
  from these two shapes.
\<close>

section \<open>Settling\<close>

definition identity_of_call where
  "identity_of_call v = (iv_id v, iv_turn v, iv_attempt v, iv_context v, iv_purpose v, iv_call v, iv_request v,
     iv_domain v, iv_prompt v, iv_provider v, iv_model v, iv_started v)"

definition settles :: "invocation \<Rightarrow> invocation \<Rightarrow> bool" where
  "settles v u \<longleftrightarrow> u = v \<or> (iv_status v = IvRunning \<and> iv_status u \<noteq> IvRunning
     \<and> identity_of_call u = identity_of_call v \<and> (invocation_shape v \<longrightarrow> invocation_shape u))"

lemma settles_refl [simp]: "settles v v"
  by (simp add: settles_def)

lemma settles_identity: "settles v u \<Longrightarrow> identity_of_call u = identity_of_call v"
  by (auto simp: settles_def)

lemmas settles_fields = settles_identity [unfolded identity_of_call_def prod.inject]

lemma list_all2_map_right: "(\<And>v. v \<in> set vs \<Longrightarrow> R v (f v)) \<Longrightarrow> list_all2 R vs (map f vs)"
  by (induction vs) auto

lemma list_all2_update:
  "(\<And>v. v \<in> set vs \<Longrightarrow> P v \<Longrightarrow> R v (f v)) \<Longrightarrow> (\<And>v. R v v) \<Longrightarrow> list_all2 R vs (update_where P f vs)"
  unfolding update_where_def by (rule list_all2_map_right) simp

lemma settles_filter:
  assumes "list_all2 settles vs us" and "\<And>v u. identity_of_call u = identity_of_call v \<Longrightarrow> P u = P v \<and> g u = g v"
  shows "map g (filter P us) = map g (filter P vs)"
  using assms(1)
proof (induction rule: list_all2_induct)
  case (Cons v vs u us)
  have "P u = P v" "g u = g v" using assms(2) [OF settles_identity [OF Cons(1)]] by simp_all
  with Cons show ?case by simp
qed simp

lemma settles_map:
  assumes "list_all2 settles vs us" and "\<And>v u. identity_of_call u = identity_of_call v \<Longrightarrow> g u = g v"
  shows "map g us = map g vs"
proof -
  have "map g (filter (\<lambda>_. True) us) = map g (filter (\<lambda>_. True) vs)"
    by (rule settles_filter [OF assms(1)]) (intro conjI refl assms(2))
  then show ?thesis by simp
qed

lemma settles_mem: "list_all2 settles vs us \<Longrightarrow> u \<in> set us \<Longrightarrow> \<exists>v \<in> set vs. settles v u"
  by (induction rule: list_all2_induct) auto

lemma settles_mem_left: "list_all2 settles vs us \<Longrightarrow> v \<in> set vs \<Longrightarrow> \<exists>u \<in> set us. settles v u"
  by (induction rule: list_all2_induct) auto

lemma owner_shape_identity:
  assumes "identity_of_call u = identity_of_call v"
  shows "owner_shape u \<longleftrightarrow> owner_shape v"
proof -
  note eqs = assms [unfolded identity_of_call_def prod.inject]
  have e: "iv_turn u = iv_turn v" "iv_attempt u = iv_attempt v" "iv_context u = iv_context v" "iv_purpose u = iv_purpose v"
    "iv_call u = iv_call v" "iv_request u = iv_request v" "iv_domain u = iv_domain v" "iv_prompt u = iv_prompt v"
    using eqs by simp_all
  show ?thesis unfolding owner_shape_def e by (rule refl)
qed

lemma shape_running:
  "invocation_shape v \<Longrightarrow> iv_status v = IvRunning \<Longrightarrow>
     no_usage v \<and> iv_response v = None \<and> iv_error v = None \<and> 0 \<le> iv_started v"
  by (simp add: invocation_shape_def status_shape_def)

lemma shape_aborted:
  assumes "invocation_shape v" and "iv_status v = IvRunning" and "length_within 256 (lit code)"
  shows "invocation_shape (aborted_at t code v)"
proof -
  have o: "owner_shape (aborted_at t code v)"
    using assms(1) owner_shape_identity [of "aborted_at t code v" v]
    by (simp add: invocation_shape_def aborted_at_def identity_of_call_def)
  have s: "status_shape (aborted_at t code v)"
    using shape_running [OF assms(1,2)] by (simp add: status_shape_def no_usage_def aborted_at_def)
  show ?thesis using assms o s unfolding invocation_shape_def by (cases t) (simp_all add: aborted_at_def)
qed

lemma aborted_settles:
  assumes "iv_status v = IvRunning" and "length_within 256 (lit code)"
  shows "settles v (aborted_at t code v)"
  unfolding settles_def
  by (intro disjI2 conjI impI) (use assms shape_aborted in \<open>simp_all add: aborted_at_def identity_of_call_def\<close>)

lemma code_lengths: "length_within 256 (lit ''turn_ended'')" "length_within 256 (lit ''job_attempt_ended'')"
  by (simp_all add: length_within_def lit_def)

section \<open>Owners\<close>

lemma find_none_ids: "find (\<lambda>r. key r = i) rs = None \<longleftrightarrow> i \<notin> key ` set rs"
  by (auto simp: find_None_iff)

lemma find_updated_row:
  "(\<And>r. key (f r) = key r) \<Longrightarrow>
     find (\<lambda>r. key r = i) (update_where P f rs) = map_option (\<lambda>r. if P r then f r else r) (find (\<lambda>r. key r = i) rs)"
  by (induction rs) (auto simp: update_where_def)

lemma attempt_ids_update: "(\<And>a. a_id (f a) = a_id a) \<Longrightarrow> map a_id (update_where P f as) = map a_id as"
  by (simp add: update_where_def)

lemma job_step_ids:
  assumes "job_step p q" and "job_inv p"
  shows "\<exists>new. map a_id (attempts q) = map a_id (attempts p) @ new"
  using assms(1)
proof (rule job_stepE)
  fix inp fresh clock r assume "enqueue inp fresh clock p = (q, r)"
  then have "attempts q = attempts p" unfolding enqueue_def by (auto simp: Let_def split: if_splits option.splits jval.splits)
  then show ?thesis by simp
next
  fix opts aid stale now r assume c: "claim_next opts aid stale now p = (q, r)"
  have e: "map a_id (attempts (fail_expired flt now p)) = map a_id (attempts p)" for flt
    by (simp add: fail_expired_def attempt_ids_update)
  from c assms(2) show ?thesis
    by (cases rule: claim_next_cases)
      (auto simp: e claim_row_def attempt_ids_update Let_def)
next
  fix jid aid result now r assume "complete_job jid aid result now p = (q, r)"
  then show ?thesis unfolding complete_job_def update_pair_def by (auto simp: attempt_ids_update split: if_splits)
next
  fix jid aid err terminal delay now r assume "fail_job jid aid err terminal delay now p = (q, r)"
  then show ?thesis unfolding fail_job_def update_pair_def
    by (auto simp: attempt_ids_update Let_def split: if_splits option.splits)
next
  fix jid aid worker lease now r assume "extend_lease jid aid worker lease now p = (q, r)"
  then show ?thesis unfolding extend_lease_def update_pair_def by (auto simp: attempt_ids_update split: if_splits)
next
  fix h assume "heartbeat h p = q"
  then have "attempts q = attempts p" by (auto simp: heartbeat_def)
  then show ?thesis by simp
qed

lemma job_step_keeps_attempt:
  assumes "job_step p q" and "job_inv p" and "find_attempt i p = Some a"
  shows "\<exists>b. find_attempt i q = Some b"
proof -
  obtain new where n: "map a_id (attempts q) = map a_id (attempts p) @ new" using job_step_ids [OF assms(1,2)] by blast
  have "i \<in> a_id ` set (attempts p)" using assms(3) find_none_ids [of a_id i "attempts p"] by (simp add: find_attempt_def)
  then have "i \<in> set (map a_id (attempts q))" unfolding n by simp
  then have "find_attempt i q \<noteq> None" unfolding find_attempt_def find_none_ids by simp
  then show ?thesis by simp
qed

lemma authority_running:
  assumes "has_authority q jid a now w" and "job_inv q"
  shows "(case find_attempt a q of None \<Rightarrow> False | Some r \<Rightarrow> a_status r = AttRunning)"
proof -
  obtain j r where r: "r \<in> set (attempts q)" "a_id r = a" "holds j r now"
    using assms(1) unfolding has_authority_iff [OF assms(2)] by blast
  have "find_attempt a q = Some r" unfolding find_attempt_def by (rule find_distinct [OF job_invD(2) [OF assms(2)] r(1,2)])
  with r(3) show ?thesis by (simp add: holds_def)
qed

definition owner_running :: "invocation \<Rightarrow> ledger \<Rightarrow> bool" where
  "owner_running v db \<longleftrightarrow>
     (case iv_turn v of
        Some t \<Rightarrow> turn_running t db
      | None \<Rightarrow> (case iv_attempt v of None \<Rightarrow> False | Some a \<Rightarrow> attempt_running a db))"

lemma owner_running_rows:
  "lg_turns db' = lg_turns db \<Longrightarrow> lg_jobs db' = lg_jobs db \<Longrightarrow> owner_running u db' \<longleftrightarrow> owner_running u db"
  by (simp add: owner_running_def turn_running_def attempt_running_def find_turn_row_def cong: option.case_cong)

text \<open>A step that settles calls keeps the owners of the calls it leaves running.\<close>

definition turn_key :: "agent_turn \<Rightarrow> jstr \<times> jstr \<times> jstr" where
  "turn_key t = (at_id t, at_provider t, at_model t)"

definition turns_kept :: "ledger \<Rightarrow> ledger \<Rightarrow> bool" where
  "turns_kept db db' \<longleftrightarrow> (\<exists>new. map turn_key (lg_turns db') = map turn_key (lg_turns db) @ new)"

lemma turns_kept_same: "lg_turns db' = lg_turns db \<Longrightarrow> turns_kept db db'"
  by (simp add: turns_kept_def)

lemma find_same_key:
  "map key xs = map key ys @ new \<Longrightarrow> (\<And>x y. key x = key y \<Longrightarrow> P x = P y) \<Longrightarrow> find P ys = Some y
     \<Longrightarrow> \<exists>x. find P xs = Some x \<and> key x = key y"
proof (induction ys arbitrary: xs)
  case (Cons z ys)
  obtain x xs' where x: "xs = x # xs'" "key x = key z" "map key xs' = map key ys @ new"
    using Cons.prems(1) by (cases xs) auto
  have "P x = P z" by (rule Cons.prems(2) [OF x(2)])
  with Cons.IH [OF x(3) Cons.prems(2)] Cons.prems(3) x show ?case by (cases "P z") simp_all
qed simp

lemma turns_keptD:
  assumes "turns_kept db db'" and "find_turn_row i db = Some t"
  obtains t' where "find_turn_row i db' = Some t'" and "at_provider t' = at_provider t" and "at_model t' = at_model t"
proof -
  obtain new where "map turn_key (lg_turns db') = map turn_key (lg_turns db) @ new" using assms(1) by (auto simp: turns_kept_def)
  then have "\<exists>x. find (\<lambda>t. at_id t = i) (lg_turns db') = Some x \<and> turn_key x = turn_key t"
    by (rule find_same_key [OF _ _ assms(2) [unfolded find_turn_row_def]]) (simp add: turn_key_def)
  with that show ?thesis by (auto simp: find_turn_row_def turn_key_def)
qed

definition settled_only :: "ledger \<Rightarrow> ledger \<Rightarrow> bool" where
  "settled_only db db' \<longleftrightarrow> list_all2 settles (lg_invocations db) (lg_invocations db') \<and> lg_sources db' = lg_sources db
     \<and> job_inv (lg_jobs db') \<and> turns_kept db db'
     \<and> (\<forall>u \<in> set (lg_invocations db'). iv_status u = IvRunning \<longrightarrow> owner_running u db \<longrightarrow> owner_running u db')"

lemma settled_onlyI:
  assumes "lg_invocations db' = lg_invocations db" and "lg_sources db' = lg_sources db" and "job_inv (lg_jobs db)"
    and "lg_jobs db' = lg_jobs db" and "\<And>i. turn_running i db \<Longrightarrow> turn_running i db'" and "turns_kept db db'"
  shows "settled_only db db'"
  unfolding settled_only_def
proof (intro conjI ballI impI)
  show "list_all2 settles (lg_invocations db) (lg_invocations db')" unfolding assms(1) by (simp add: list_all2_refl)
  show "owner_running u db'" if "owner_running u db" for u
    using that assms(4,5) by (auto simp: owner_running_def attempt_running_def split: option.splits)
qed (use assms in simp_all)

lemma settled_only_same: "job_inv (lg_jobs db) \<Longrightarrow> settled_only db db"
  by (rule settled_onlyI) (simp_all add: turns_kept_same)

lemma find_appended: "find P (xs @ ys) = (case find P xs of None \<Rightarrow> find P ys | Some x \<Rightarrow> Some x)"
  by (induction xs) auto

lemma kept_running:
  assumes "u = (if iv_status v = IvRunning then (case x of None \<Rightarrow> v | Some p \<Rightarrow> h p) else v)"
    and "iv_status u = IvRunning" and "\<And>p. iv_status (h p) \<noteq> IvRunning"
  shows "u = v" and "x = None"
  using assms by (cases x; cases "iv_status v = IvRunning"; force)+

lemma aborted_status [simp]: "iv_status (aborted_at t code v) = IvAborted"
  by (simp add: aborted_at_def)

lemma turn_running_append: "turn_running i db \<Longrightarrow> turn_running i (db\<lparr>lg_turns := lg_turns db @ ts\<rparr>)"
  by (auto simp: turn_running_def find_turn_row_def find_appended split: option.splits)

text \<open>An update of turns.\<close>

lemma settled_update_turns:
  assumes "job_inv (lg_jobs db)" and key: "\<And>t. turn_key (f t) = turn_key t"
  shows "settled_only db (update_turns P f db)"
  unfolding settled_only_def
proof (intro conjI ballI impI)
  have f: "at_id (f t) = at_id t" for t using key [of t] by (simp add: turn_key_def)
  show "turns_kept db (update_turns P f db)"
    unfolding turns_kept_def update_turns_def by (simp add: map_update_where key)
  show "list_all2 settles (lg_invocations db) (lg_invocations (update_turns P f db))"
    unfolding update_turns_def
    by (simp, rule list_all2_map_right) (auto simp: aborted_settles code_lengths split: option.split)
  fix u assume u: "u \<in> set (lg_invocations (update_turns P f db))" "iv_status u = IvRunning" and o: "owner_running u db"
  obtain v where "v \<in> set (lg_invocations db)" and v: "u = (if iv_status v = IvRunning then
         (case find (turn_stops P f v) (lg_turns db) of
            None \<Rightarrow> v
          | Some t \<Rightarrow> aborted_at (coalesced (at_completed (f t)) (at_completed t)) ''turn_ended'' v) else v)"
    using u(1) by (auto simp: update_turns_def)
  have "u = v" "find (turn_stops P f v) (lg_turns db) = None"
    by (rule kept_running [OF v u(2)], simp)+
  then have stays: "u = v" "find (turn_stops P f u) (lg_turns db) = None" by simp_all
  show "owner_running u (update_turns P f db)"
  proof (cases "iv_turn u")
    case None
    with o show ?thesis by (auto simp: owner_running_def attempt_running_def update_turns_def split: option.splits)
  next
    case (Some i)
    with o obtain t where t: "find_turn_row i db = Some t" "at_status t = TRunning"
      by (auto simp: owner_running_def turn_running_def split: option.splits)
    then have m: "t \<in> set (lg_turns db)" "at_id t = i" unfolding find_turn_row_def by (auto dest!: find_memberD)
    have "\<not> turn_stops P f u t" using stays(2) m(1) by (auto simp: find_None_iff)
    then have "at_status (if P t then f t else t) = TRunning" using Some m t(2) by (auto simp: turn_stops_def)
    moreover have "find_turn_row i (update_turns P f db) = Some (if P t then f t else t)"
      using t(1) unfolding find_turn_row_def update_turns_def by (simp add: find_updated_row f)
    ultimately show ?thesis using Some by (simp add: owner_running_def turn_running_def)
  qed
qed (use assms in \<open>simp_all add: update_turns_def\<close>)

text \<open>An operation of the job queue.\<close>

lemma settled_replace_jobs:
  assumes "job_inv (lg_jobs db)" and "job_step (lg_jobs db) q"
  shows "settled_only db (replace_jobs q db)"
  unfolding settled_only_def
proof (intro conjI ballI impI)
  show "list_all2 settles (lg_invocations db) (lg_invocations (replace_jobs q db))"
    unfolding replace_jobs_def
    by (simp, rule list_all2_map_right) (auto simp: aborted_settles code_lengths split: option.split)
next
  fix u assume u: "u \<in> set (lg_invocations (replace_jobs q db))" "iv_status u = IvRunning" and o: "owner_running u db"
  obtain v where "v \<in> set (lg_invocations db)" and v: "u = (if iv_status v = IvRunning then
         (case attempt_stops (lg_jobs db) q v of
            None \<Rightarrow> v
          | Some (a, b) \<Rightarrow>
              aborted_at (coalesced (a_completed b) (coalesced (a_heartbeat b) (a_heartbeat a))) ''job_attempt_ended'' v) else v)"
    using u(1) by (auto simp: replace_jobs_def)
  have "u = v" "attempt_stops (lg_jobs db) q v = None"
    by (rule kept_running [OF v u(2)], simp split: prod.split)+
  then have stays: "u = v" "attempt_stops (lg_jobs db) q u = None" by simp_all
  show "owner_running u (replace_jobs q db)"
  proof (cases "iv_turn u")
    case (Some i)
    with o show ?thesis by (simp add: owner_running_def turn_running_def replace_jobs_def find_turn_row_def)
  next
    case None
    with o obtain i a where a: "iv_attempt u = Some i" "find_attempt i (lg_jobs db) = Some a" "a_status a = AttRunning"
      by (auto simp: owner_running_def attempt_running_def split: option.splits)
    obtain b where b: "find_attempt i q = Some b" using job_step_keeps_attempt [OF assms(2,1) a(2)] by blast
    have "a_status b = AttRunning" using stays(2) a b by (simp add: attempt_stops_def split: if_splits)
    with None a(1) b show ?thesis by (simp add: owner_running_def attempt_running_def replace_jobs_def)
  qed
qed (use assms job_inv_step in \<open>auto simp: replace_jobs_def turns_kept_def\<close>)

text \<open>The completion or failure of one call.\<close>

lemma settled_settle:
  assumes "job_inv (lg_jobs db)" and "distinct (map iv_id (lg_invocations db))"
    and "\<And>v. identity_of_call (f v) = identity_of_call v \<and> iv_status (f v) \<noteq> IvRunning"
  shows "settled_only db (fst (settle i f db))"
proof (cases "find_running i db")
  case None
  then show ?thesis by (simp add: settle_def settled_only_same assms(1))
next
  case (Some v)
  then have v: "v \<in> set (lg_invocations db)" "iv_id v = i" "iv_status v = IvRunning"
    unfolding find_running_def by (auto dest!: find_memberD)
  show ?thesis
  proof (cases "invocation_shape (f v)")
    case False
    with Some show ?thesis by (simp add: settle_def settled_only_same assms(1))
  next
    case True
    let ?P = "\<lambda>u. iv_id u = i \<and> iv_status u = IvRunning"
    have one: "u = v" if "u \<in> set (lg_invocations db)" "iv_id u = i" for u
      using inj_onD [of iv_id "set (lg_invocations db)" u v] that v(1,2) assms(2) by (simp add: distinct_map)
    have step: "fst (settle i f db) = db\<lparr>lg_invocations := update_where ?P f (lg_invocations db)\<rparr>"
      using Some True by (simp add: settle_def)
    have "settles u (f u)" if "u \<in> set (lg_invocations db)" "?P u" for u
    proof -
      have e: "u = v" using one [OF that(1)] that(2) by blast
      show ?thesis unfolding settles_def e using v(3) True assms(3) [of v] by blast
    qed
    then have "list_all2 settles (lg_invocations db) (update_where ?P f (lg_invocations db))"
      by (rule list_all2_update) simp_all
    with assms(1) show ?thesis unfolding step by (simp add: settled_only_def turns_kept_same owner_running_rows [of "db\<lparr>lg_invocations := xs\<rparr>" db for xs])
  qed
qed

end
