(* ===== verification/Ledger_Theorems.thy ===== *)
theory Ledger_Theorems
  imports Ledger_Facts
begin

text \<open>
  The invariant of the ledger over its histories, and what it says of calls, turns and corrections.
\<close>

section \<open>Starting a call\<close>

lemma first_failing_None: "first_failing cs = None \<longleftrightarrow> list_all fst cs"
  by (induction cs rule: first_failing.induct) simp_all

text \<open>\<open>corrects p v\<close>: the call \<open>p\<close> is the failed first call that the second call \<open>v\<close> corrects.\<close>

definition corrects :: "invocation \<Rightarrow> invocation \<Rightarrow> bool" where
  "corrects p v \<longleftrightarrow> iv_purpose p = ForEvaluator \<and> iv_request p = iv_request v \<and> iv_call p = 1
     \<and> iv_turn p = iv_turn v \<and> iv_attempt p = iv_attempt v \<and> iv_domain p = iv_domain v \<and> iv_prompt p = iv_prompt v
     \<and> iv_provider p = iv_provider v \<and> iv_model p = iv_model v \<and> iv_status p = IvFailed
     \<and> iv_error p = Some (lit ''invalid_structured_output'')
     \<and> (case iv_completed p of None \<Rightarrow> False | Some t \<Rightarrow> t \<le> iv_started v)"

definition turn_identity :: "jstr \<Rightarrow> invocation \<Rightarrow> ledger \<Rightarrow> bool" where
  "turn_identity i v db \<longleftrightarrow>
     (\<exists>t. find_turn_row i db = Some t \<and> at_provider t = iv_provider v \<and> at_model t = iv_model v)"

definition adds :: "invocation \<Rightarrow> jstr list \<Rightarrow> ledger \<Rightarrow> ledger \<Rightarrow> bool" where
  "adds v events db db' \<longleftrightarrow>
     db' = db\<lparr>lg_invocations := lg_invocations db @ [v], lg_sources := lg_sources db @ map (Pair (iv_id v)) events\<rparr>
     \<and> iv_status v = IvRunning \<and> invocation_allowed v events db \<and> owner_running v db
     \<and> (iv_purpose v = ForPiTurn \<longrightarrow> (\<exists>i. iv_turn v = Some i \<and> iv_call v = next_call i db \<and> turn_identity i v db))
     \<and> (iv_purpose v = ForEvaluator \<longrightarrow> iv_call v = 2 \<longrightarrow>
          (\<exists>p \<in> set (lg_invocations db). corrects p v \<and> sources_of (iv_id p) db = events))"

definition starts_call :: "ledger \<Rightarrow> ledger \<Rightarrow> bool" where
  "starts_call db db' \<longleftrightarrow> db' = db \<or> (\<exists>v events. adds v events db db')"

lemma starts_nothing [simp]: "starts_call db db"
  by (simp add: starts_call_def)

lemma insert_cases:
  assumes "iv_status v = IvRunning" and "owner_running v db"
    and "iv_purpose v = ForPiTurn \<Longrightarrow> \<exists>i. iv_turn v = Some i \<and> iv_call v = next_call i db \<and> turn_identity i v db"
    and "iv_purpose v = ForEvaluator \<Longrightarrow> iv_call v = 2 \<Longrightarrow>
          \<exists>p \<in> set (lg_invocations db). corrects p v \<and> sources_of (iv_id p) db = events"
  shows "starts_call db (fst (insert_invocation v events db))"
proof (cases "invocation_allowed v events db")
  case True
  then have "adds v events db (fst (insert_invocation v events db))"
    using assms by (simp add: insert_invocation_def adds_def)
  then show ?thesis unfolding starts_call_def by blast
qed (simp add: insert_invocation_def)

lemma new_invocation_fields [simp]:
  "iv_status (new_invocation i purpose call provider model started) = IvRunning"
  "iv_purpose (new_invocation i purpose call provider model started) = purpose"
  "iv_call (new_invocation i purpose call provider model started) = call"
  "iv_started (new_invocation i purpose call provider model started) = started"
  "iv_provider (new_invocation i purpose call provider model started) = provider"
  "iv_model (new_invocation i purpose call provider model started) = model"
  "iv_turn (new_invocation i purpose call provider model started) = None"
  "iv_attempt (new_invocation i purpose call provider model started) = None"
  by (simp_all add: new_invocation_def)

lemma start_summary_cases:
  "starts_call db (fst (start_summary cl context attempt call fresh now db))"
proof -
  have "owner_running ((new_invocation i ForSummary n p m s)\<lparr>iv_attempt := Some attempt, iv_context := Some c\<rparr>) db"
    if "attempt_running attempt db" for i n p m s c
    using that by (simp add: owner_running_def)
  then show ?thesis
    unfolding start_summary_def Let_def
    by (auto split: option.split if_split intro!: insert_cases)
qed

lemma start_pi_cases:
  "starts_call db (fst (start_pi_turn cl turn call fresh now db))"
proof -
  have "owner_running ((new_invocation i ForPiTurn n p m s)\<lparr>iv_turn := Some turn\<rparr>) db"
    if "find_turn_row turn db = Some t" "at_status t = TRunning" for i n p m s t
    using that by (simp add: owner_running_def turn_running_def)
  moreover have "turn_identity turn ((new_invocation i ForPiTurn n (at_provider t) (at_model t) s)\<lparr>iv_turn := Some turn\<rparr>) db"
    if "find_turn_row turn db = Some t" for i n s t
    using that by (simp add: turn_identity_def)
  ultimately show ?thesis
    unfolding start_pi_turn_def Let_def
    by (auto simp: first_failing_None split: option.split if_split intro!: insert_cases)
qed

lemma correction_found:
  assumes "correction_check c m db = None" and "co_call c = 2"
  obtains p where "p \<in> set (lg_invocations db)" and "predecessor_fits c p" and "iv_purpose p = ForEvaluator"
    and "iv_request p = Some (co_request c)" and "iv_call p = 1" and "sources_of (iv_id p) db = co_events c"
  using assms unfolding correction_check_def first_evaluator_call_def
  by (auto split: option.splits if_splits dest!: find_memberD)

lemma owner_started:
  assumes "owner_can_start turn attempt domain events now db = None" and "job_inv (lg_jobs db)"
    and "iv_turn v = turn" and "iv_attempt v = attempt"
  shows "owner_running v db"
proof (cases turn)
  case (Some t)
  with assms show ?thesis by (auto simp: owner_can_start_def owner_running_def turn_running_def split: option.splits if_splits)
next
  case None
  obtain a where a: "attempt = Some a"
    using assms(1) None by (cases attempt) (simp_all add: owner_can_start_def)
  obtain r where r: "find_attempt a (lg_jobs db) = Some r"
    using assms(1) None a by (cases "find_attempt a (lg_jobs db)") (simp_all add: owner_can_start_def split: if_splits)
  have h: "has_authority (lg_jobs db) (a_job r) a now None"
    using assms(1) None a r by (simp add: owner_can_start_def split: if_splits option.splits)
  from authority_running [OF h assms(2)] None a assms(3,4) show ?thesis
    by (simp add: owner_running_def attempt_running_def)
qed

lemma start_evaluator_cases:
  assumes "job_inv (lg_jobs db)"
  shows "starts_call db (fst (start_evaluator cl ec fresh now db))"
proof -
  let ?v = "\<lambda>i n p m s prompt. (new_invocation i ForEvaluator n p m s)\<lparr>iv_turn := ec_turn ec, iv_attempt := ec_attempt ec,
     iv_request := Some (ec_request ec), iv_domain := Some (ec_domain ec), iv_prompt := Some prompt\<rparr>"
  have o: "owner_running (?v i n p m s prompt) db"
    if "owner_can_start (ec_turn ec) (ec_attempt ec) (ec_domain ec) (cl_events cl) t db = None" for i n p m s prompt t
    by (rule owner_started [OF that assms]) simp_all
  have c: "\<exists>q \<in> set (lg_invocations db). corrects q (?v i 2 p m s prompt) \<and> sources_of (iv_id q) db = cl_events cl"
    if "correction_check \<lparr>co_request = ec_request ec, co_domain = ec_domain ec, co_turn = ec_turn ec,
          co_attempt = ec_attempt ec, co_call = 2, co_provider = p, co_model = m, co_prompt = prompt, co_events = cl_events cl,
          co_started = s, co_created = None\<rparr> correction_error db = None" for i p m s prompt
    by (rule correction_found [OF that]) (auto simp: predecessor_fits_def corrects_def split: option.splits)
  have i: "starts_call db (fst (insert_invocation (?v i n p m s prompt) (cl_events cl) db))"
    if "owner_can_start (ec_turn ec) (ec_attempt ec) (ec_domain ec) (cl_events cl) t db = None"
      and "correction_check \<lparr>co_request = ec_request ec, co_domain = ec_domain ec, co_turn = ec_turn ec,
          co_attempt = ec_attempt ec, co_call = n, co_provider = p, co_model = m, co_prompt = prompt, co_events = cl_events cl,
          co_started = s, co_created = None\<rparr> correction_error db = None" for i n p m s prompt t
    by (rule insert_cases) (use o [OF that(1)] c that(2) in simp_all)
  show ?thesis
    unfolding start_evaluator_def Let_def by (simp del: first_failing.simps split: option.split add: i)
qed

section \<open>The shape of a step\<close>

lemma settled_cases:
  "job_inv (lg_jobs db) \<Longrightarrow> db' = db \<or> settled_only db db' \<Longrightarrow> settled_only db db'"
  by (auto simp: settled_only_same)

lemma identity_updates [simp]:
  "identity_of_call (v\<lparr>iv_status := s\<rparr>) = identity_of_call v"
  "identity_of_call (v\<lparr>iv_completed := c\<rparr>) = identity_of_call v"
  "identity_of_call (v\<lparr>iv_response := r\<rparr>) = identity_of_call v"
  "identity_of_call (v\<lparr>iv_error := e\<rparr>) = identity_of_call v"
  by (simp_all add: identity_of_call_def)

lemma completion_keeps [simp]:
  "identity_of_call (completed sha now t v) = identity_of_call v" "iv_status (completed sha now t v) = IvCompleted"
  "identity_of_call (with_tokens k v) = identity_of_call v" "iv_status (with_tokens k v) = iv_status v"
  "identity_of_call (with_cache_tokens k v) = identity_of_call v" "iv_status (with_cache_tokens k v) = iv_status v"
  by (simp_all add: completed_def with_tokens_def with_cache_tokens_def identity_of_call_def)

lemma settled_pending:
  "job_inv (lg_jobs db) \<Longrightarrow> settled_only db (fst (create_pending i conversation trigger model provider started fresh db))"
  unfolding create_pending_def Let_def
  by (auto simp: settled_only_same turn_running_append turns_kept_def split: option.split intro!: settled_onlyI)

lemma settled_evidence:
  assumes "job_inv (lg_jobs db)"
  shows "settled_only db (fst (complete_from_evidence i response at db))"
  unfolding complete_from_evidence_def Let_def
  by (simp add: settled_only_same assms turn_key_def settled_update_turns split: option.split sum.split)

lemma settled_context:
  assumes "job_inv (lg_jobs db)"
  shows "settled_only db (fst (create_context sha c attempt db))"
proof -
  have "settled_only db (db\<lparr>lg_contexts := cs\<rparr>)" for cs
    by (rule settled_onlyI) (simp_all add: assms turn_running_def find_turn_row_def turns_kept_def)
  then show ?thesis unfolding create_context_def by (simp add: settled_only_same assms split: option.split bool.split)
qed

lemma settled_complete:
  assumes "job_inv (lg_jobs db)" and "distinct (map iv_id (lg_invocations db))"
  shows "settled_only db (fst (complete_invocation sha i tokens answer now db))"
    and "settled_only db (fst (complete_pi_turn_invocation sha i usage answer now db))"
    and "settled_only db (fst (fail_invocation i code status now db))"
proof -
  note settle = settled_settle [OF assms] settled_only_same [OF assms(1)]
  show "settled_only db (fst (complete_invocation sha i tokens answer now db))"
    unfolding complete_invocation_def by (simp del: first_failing.simps add: settle split: option.split)
  show "settled_only db (fst (complete_pi_turn_invocation sha i usage answer now db))"
    unfolding complete_pi_turn_invocation_def by (simp del: first_failing.simps add: settle split: option.split)
  show "settled_only db (fst (fail_invocation i code status now db))"
  proof (cases "status = IvFailed \<or> status = IvAborted")
    case True
    then show ?thesis unfolding fail_invocation_def
      by (auto simp del: first_failing.simps simp add: settle split: option.split)
  next
    case False
    then show ?thesis unfolding fail_invocation_def by (simp add: settle split: option.split)
  qed
qed

lemma ledger_step_shape:
  assumes "ledger_step db db'" and j: "job_inv (lg_jobs db)" and d: "distinct (map iv_id (lg_invocations db))"
  shows "settled_only db db' \<or> (\<exists>v events. adds v events db db')"
proof -
  have started: "settled_only db x \<or> (\<exists>v events. adds v events db x)" if "starts_call db x" for x
    using that settled_only_same [OF j] unfolding starts_call_def by blast
  have rows: "settled_only db (db\<lparr>lg_events := es\<rparr>)" "settled_only db (db\<lparr>lg_messages := ms\<rparr>)"
    "settled_only db (db\<lparr>lg_linked := ls\<rparr>)" for es ms ls
    by (rule settled_onlyI; simp add: j turn_running_def find_turn_row_def turns_kept_def)+
  from assms(1) show ?thesis
    by (cases rule: ledger_step.cases)
      (simp_all add: rows started start_summary_cases start_pi_cases start_evaluator_cases j settled_complete [OF j d]
         settled_pending settled_evidence settled_context settled_replace_jobs mark_running_def mark_completed_def mark_failed_def
         mark_aborted_def settled_update_turns turn_key_def)
qed

section \<open>The invariant\<close>

definition calls_owned :: "ledger \<Rightarrow> bool" where
  "calls_owned db \<longleftrightarrow> (\<forall>v \<in> set (lg_invocations db). iv_status v = IvRunning \<longrightarrow> owner_running v db)"

definition calls_numbered :: "ledger \<Rightarrow> bool" where
  "calls_numbered db \<longleftrightarrow> (\<forall>i. map iv_call (pi_calls i db) = map (\<lambda>n. int (Suc n)) [0..<length (pi_calls i db)])"

definition calls_identified :: "ledger \<Rightarrow> bool" where
  "calls_identified db \<longleftrightarrow> (\<forall>v \<in> set (lg_invocations db). \<forall>i. iv_purpose v = ForPiTurn \<longrightarrow> iv_turn v = Some i \<longrightarrow> turn_identity i v db)"

definition corrections_justified :: "ledger \<Rightarrow> bool" where
  "corrections_justified db \<longleftrightarrow> (\<forall>v \<in> set (lg_invocations db). iv_purpose v = ForEvaluator \<longrightarrow> iv_call v = 2 \<longrightarrow>
     (\<exists>p \<in> set (lg_invocations db). corrects p v \<and> sources_of (iv_id p) db = sources_of (iv_id v) db))"

definition ledger_ok :: "ledger \<Rightarrow> bool" where
  "ledger_ok db \<longleftrightarrow> job_inv (lg_jobs db) \<and> distinct (map iv_id (lg_invocations db))
     \<and> fst ` set (lg_sources db) \<subseteq> iv_id ` set (lg_invocations db)
     \<and> (\<forall>v \<in> set (lg_invocations db). invocation_shape v)
     \<and> calls_owned db \<and> calls_numbered db \<and> calls_identified db \<and> corrections_justified db"

lemma ledger_ok_empty: "ledger_ok empty_ledger"
  by (simp add: ledger_ok_def empty_ledger_def job_inv_empty calls_owned_def calls_numbered_def calls_identified_def
      corrections_justified_def pi_calls_def)

lemma corrects_settled: "corrects p v \<Longrightarrow> settles v u \<Longrightarrow> corrects p u"
  using settles_identity [of v u] by (simp add: corrects_def identity_of_call_def split: option.splits)

subsection \<open>Settling steps\<close>

lemma settled_ok:
  assumes "settled_only db db'" and ok: "ledger_ok db"
  shows "ledger_ok db'"
proof -
  have s: "list_all2 settles (lg_invocations db) (lg_invocations db')" and src: "lg_sources db' = lg_sources db"
    and j: "job_inv (lg_jobs db')" and t: "turns_kept db db'"
    and own: "u \<in> set (lg_invocations db') \<Longrightarrow> iv_status u = IvRunning \<Longrightarrow> owner_running u db \<Longrightarrow> owner_running u db'" for u
    using assms(1) by (auto simp: settled_only_def)
  have ids: "map iv_id (lg_invocations db') = map iv_id (lg_invocations db)"
    by (rule settles_map [OF s]) (simp add: identity_of_call_def)
  have same_sources: "sources_of i db' = sources_of i db" for i by (simp add: sources_of_def src)
  have shape: "invocation_shape u" if "u \<in> set (lg_invocations db')" for u
    using settles_mem [OF s that] ok by (auto simp: settles_def ledger_ok_def)
  have owned: "calls_owned db'"
    unfolding calls_owned_def
  proof (intro ballI impI)
    fix u assume u: "u \<in> set (lg_invocations db')" "iv_status u = IvRunning"
    obtain v where "v \<in> set (lg_invocations db)" "settles v u" using settles_mem [OF s u(1)] by blast
    with u(2) ok have "owner_running u db" by (auto simp: settles_def ledger_ok_def calls_owned_def)
    with u own show "owner_running u db'" by blast
  qed
  have calls: "map iv_call (pi_calls i db') = map iv_call (pi_calls i db)" for i
    unfolding pi_calls_def by (rule settles_filter [OF s]) (simp add: identity_of_call_def)
  have len: "length (pi_calls i db') = length (pi_calls i db)" for i
    using calls [of i] by (metis length_map)
  have numbered: "calls_numbered db'" using ok by (simp add: ledger_ok_def calls_numbered_def calls len)
  have identified: "calls_identified db'"
    unfolding calls_identified_def
  proof (intro ballI allI impI)
    fix u i assume u: "u \<in> set (lg_invocations db')" "iv_purpose u = ForPiTurn" "iv_turn u = Some i"
    obtain v where v: "v \<in> set (lg_invocations db)" "settles v u" using settles_mem [OF s u(1)] by blast
    with u settles_identity [OF v(2)] ok have "turn_identity i v db"
      by (simp add: identity_of_call_def ledger_ok_def calls_identified_def)
    then obtain r where r: "find_turn_row i db = Some r" "at_provider r = iv_provider v" "at_model r = iv_model v"
      by (auto simp: turn_identity_def)
    from turns_keptD [OF t r(1)] r(2,3) settles_identity [OF v(2)] show "turn_identity i u db'"
      by (auto simp: turn_identity_def identity_of_call_def)
  qed
  have justified: "corrections_justified db'"
    unfolding corrections_justified_def
  proof (intro ballI impI)
    fix u assume u: "u \<in> set (lg_invocations db')" "iv_purpose u = ForEvaluator" "iv_call u = 2"
    obtain v where v: "v \<in> set (lg_invocations db)" "settles v u" using settles_mem [OF s u(1)] by blast
    have e: "iv_purpose v = ForEvaluator" "iv_call v = 2" "iv_id v = iv_id u"
      using u(2,3) settles_identity [OF v(2)] by (simp_all add: identity_of_call_def)
    from ok v(1) e obtain p where p: "p \<in> set (lg_invocations db)" "corrects p v"
      "sources_of (iv_id p) db = sources_of (iv_id v) db" by (auto simp: ledger_ok_def corrections_justified_def)
    obtain p' where p': "p' \<in> set (lg_invocations db')" "settles p p'" using settles_mem_left [OF s p(1)] by blast
    have "p' = p" using p(2) p'(2) by (auto simp: settles_def corrects_def)
    with p' p corrects_settled [OF p(2) v(2)] e(3)
    show "\<exists>p \<in> set (lg_invocations db'). corrects p u \<and> sources_of (iv_id p) db' = sources_of (iv_id u) db'"
      unfolding same_sources by auto
  qed
  have sub: "fst ` set (lg_sources db') \<subseteq> iv_id ` set (lg_invocations db')"
  proof -
    have "iv_id ` set (lg_invocations db') = iv_id ` set (lg_invocations db)" by (metis ids list.set_map)
    with ok src show ?thesis by (simp add: ledger_ok_def)
  qed
  from ok ids sub shape j owned numbered identified justified show ?thesis by (simp add: ledger_ok_def)
qed

subsection \<open>Starting steps\<close>

lemma max_of_numbers:
  assumes "map iv_call vs = map (\<lambda>n. int (Suc n)) [0..<length vs]"
  shows "Max (insert 0 (iv_call ` set vs)) = int (length vs)"
proof -
  have "iv_call ` set vs = set (map iv_call vs)" by simp
  also have "\<dots> = (\<lambda>n. int (Suc n)) ` {0..<length vs}" unfolding assms by simp
  finally have e: "iv_call ` set vs = (\<lambda>n. int (Suc n)) ` {0..<length vs}" .
  show ?thesis
  proof (cases "length vs")
    case (Suc n)
    then have "int (length vs) \<in> (\<lambda>n. int (Suc n)) ` {0..<length vs}" by (intro image_eqI [of _ _ n]) simp_all
    then show ?thesis unfolding e by (intro Max_eqI) auto
  qed simp
qed

lemma started_ok:
  assumes a: "adds v events db db'" and ok: "ledger_ok db"
  shows "ledger_ok db'"
proof -
  have db': "db' = db\<lparr>lg_invocations := lg_invocations db @ [v], lg_sources := lg_sources db @ map (Pair (iv_id v)) events\<rparr>"
    and allowed: "invocation_allowed v events db" and own: "owner_running v db" using a by (simp_all add: adds_def)
  have rows: "lg_invocations db' = lg_invocations db @ [v]" "lg_jobs db' = lg_jobs db" "lg_turns db' = lg_turns db"
    by (simp_all add: db')
  have fresh: "iv_id v \<notin> iv_id ` set (lg_invocations db)"
    using allowed by (auto simp: invocation_allowed_def list_all_iff)
  have owner: "owner_running u db' = owner_running u db" for u by (rule owner_running_rows) (simp_all add: rows)
  have old: "sources_of i db' = sources_of i db" if "i \<in> iv_id ` set (lg_invocations db)" for i
    using that fresh by (auto simp: sources_of_def db' filter_empty_conv)
  have none: "sources_of (iv_id v) db = []" using ok fresh by (auto simp: sources_of_def ledger_ok_def filter_empty_conv)
  have new: "sources_of (iv_id v) db' = events"
    using none by (simp add: sources_of_def db' filter_map comp_def)
  have ident: "turn_identity i u db' = turn_identity i u db" for i u by (simp add: turn_identity_def find_turn_row_def rows)
  have pi: "pi_calls i db' = pi_calls i db @ (if iv_purpose v = ForPiTurn \<and> iv_turn v = Some i then [v] else [])" for i
    by (simp add: pi_calls_def rows)
  have "calls_owned db'" using ok own by (auto simp: ledger_ok_def calls_owned_def owner rows)
  moreover have "calls_numbered db'"
    unfolding calls_numbered_def
  proof
    fix i
    have n: "map iv_call (pi_calls i db) = map (\<lambda>n. int (Suc n)) [0..<length (pi_calls i db)]"
      using ok by (simp add: ledger_ok_def calls_numbered_def)
    show "map iv_call (pi_calls i db') = map (\<lambda>n. int (Suc n)) [0..<length (pi_calls i db')]"
    proof (cases "iv_purpose v = ForPiTurn \<and> iv_turn v = Some i")
      case True
      with a have "iv_call v = next_call i db" by (auto simp: adds_def)
      then show ?thesis using n max_of_numbers [OF n] True by (simp add: pi next_call_def)
    next
      case False
      then have "pi_calls i db' = pi_calls i db" by (auto simp: pi)
      with n show ?thesis by simp
    qed
  qed
  moreover have "calls_identified db'"
  proof -
    have "turn_identity i v db" if "iv_purpose v = ForPiTurn" "iv_turn v = Some i" for i
      using a that by (auto simp: adds_def)
    then show ?thesis using ok by (auto simp: ledger_ok_def calls_identified_def ident rows)
  qed
  moreover have "corrections_justified db'"
    unfolding corrections_justified_def
  proof (intro ballI impI)
    fix u assume u: "u \<in> set (lg_invocations db')" "iv_purpose u = ForEvaluator" "iv_call u = 2"
    show "\<exists>p \<in> set (lg_invocations db'). corrects p u \<and> sources_of (iv_id p) db' = sources_of (iv_id u) db'"
    proof (cases "u = v")
      case True
      with a u obtain p where "p \<in> set (lg_invocations db)" "corrects p v" "sources_of (iv_id p) db = events"
        by (simp add: adds_def) blast
      with True old [of "iv_id p"] new show ?thesis by (auto simp: rows)
    next
      case False
      with u(1) have m: "u \<in> set (lg_invocations db)" by (simp add: rows)
      with ok u obtain p where p: "p \<in> set (lg_invocations db)" "corrects p u"
        "sources_of (iv_id p) db = sources_of (iv_id u) db" by (auto simp: ledger_ok_def corrections_justified_def)
      with m old [of "iv_id p"] old [of "iv_id u"] show ?thesis by (auto simp: rows)
    qed
  qed
  moreover have "fst ` set (lg_sources db') \<subseteq> iv_id ` set (lg_invocations db')"
    using ok by (auto simp: ledger_ok_def db')
  ultimately show ?thesis using ok fresh allowed by (auto simp: ledger_ok_def rows invocation_allowed_def)
qed

lemma ledger_ok_step: "ledger_step db db' \<Longrightarrow> ledger_ok db \<Longrightarrow> ledger_ok db'"
  using ledger_step_shape settled_ok started_ok ledger_ok_def by metis

lemma ledger_ok_steps: "ledger_step\<^sup>*\<^sup>* db db' \<Longrightarrow> ledger_ok db \<Longrightarrow> ledger_ok db'"
  by (induction rule: rtranclp_induct) (auto intro: ledger_ok_step)

lemma ledger_ok_reachable: "ledger_reachable db \<Longrightarrow> ledger_ok db"
  unfolding ledger_reachable_def by (erule ledger_ok_steps) (rule ledger_ok_empty)

end
