(* ===== verification/Ledger_Settlement.thy ===== *)
theory Ledger_Settlement
  imports Ledger_Theorems
begin

text \<open>
  The completion of a turn from the evidence of its calls, and the claims about the ledger with a
  history that they hold of.
\<close>

section \<open>Adding up the evidence\<close>

definition count_of :: "(invocation \<Rightarrow> int option) \<Rightarrow> invocation list \<Rightarrow> int" where
  "count_of f vs = sum_list (map (\<lambda>v. value_or (f v) 0) vs)"

definition counts_of :: "invocation list \<Rightarrow> int list" where
  "counts_of vs = [count_of iv_input vs, count_of iv_output vs, count_of iv_total vs]"

definition all_known :: "invocation list \<Rightarrow> bool" where
  "all_known vs \<longleftrightarrow> list_all (\<lambda>v. iv_input v \<noteq> None) vs"

definition evidence_ok :: "invocation \<Rightarrow> bool" where
  "evidence_ok v \<longleftrightarrow> iv_status v = IvCompleted \<and> list_all (\<lambda>f. safe_count (value_or (f v) 0)) [iv_input, iv_output, iv_total]"

lemma pi_usage_cases:
  assumes "invocation_shape v" and "iv_purpose v = ForPiTurn" and "iv_status v = IvCompleted"
  obtains (unknown) "iv_input v = None" and "iv_output v = None" and "iv_total v = None" and "iv_completed v \<noteq> None"
  | (known) i out all where "iv_input v = Some i" and "iv_output v = Some out" and "iv_total v = Some all" and "iv_completed v \<noteq> None"
  using assms by (auto simp: invocation_shape_def status_shape_def no_usage_def known_usage_def)

lemma sum_evidence_Inr:
  "sum_evidence t n s vs = Inr s' \<Longrightarrow> (\<forall>v \<in> set vs. evidence_ok v)"
proof (induction vs arbitrary: n s)
  case (Cons v vs)
  have "iv_status v = IvCompleted"
    using Cons.prems by (simp split: if_splits)
  moreover have "list_all (\<lambda>f. safe_count (value_or (f v) 0)) [iv_input, iv_output, iv_total]"
    using Cons.prems by (simp add: value_or_def safe_count_def max_safe_def split: if_splits option.splits)
  moreover have "\<exists>n s. sum_evidence t n s vs = Inr s'"
    using Cons.prems by (simp split: if_splits option.splits) blast+
  ultimately show ?case using Cons.IH by (auto simp: evidence_ok_def)
qed simp

lemma sum_evidence_total:
  assumes "map iv_call vs = map (\<lambda>k. n + int (Suc k)) [0..<length vs]"
    and "\<forall>v \<in> set vs. invocation_shape v \<and> iv_purpose v = ForPiTurn \<and> iv_provider v = at_provider t \<and> iv_model v = at_model t"
    and "\<forall>v \<in> set vs. evidence_ok v"
  shows "sum_evidence t n s vs = Inr (s\<lparr>us_known := us_known s \<and> all_known vs, us_input := us_input s + count_of iv_input vs,
     us_output := us_output s + count_of iv_output vs, us_total := us_total s + count_of iv_total vs\<rparr>)"
  using assms
proof (induction vs arbitrary: n s)
  case (Cons v vs)
  have up: "[0..<length (v # vs)] = 0 # map Suc [0..<length vs]" by (simp add: upt_conv_Cons map_Suc_upt del: upt_Suc)
  have n: "iv_call v = n + 1" and rest: "map iv_call vs = map (\<lambda>k. (n + 1) + int (Suc k)) [0..<length vs]"
    using Cons.prems(1) unfolding up by (simp_all add: comp_def algebra_simps)
  have v: "invocation_shape v" "iv_purpose v = ForPiTurn" "iv_provider v = at_provider t" "iv_model v = at_model t"
    and e: "evidence_ok v" using Cons.prems(2,3) by simp_all
  note IH = Cons.IH [OF rest]
  have fin: "iv_status v = IvCompleted" using e by (simp add: evidence_ok_def)
  from v(1,2) fin show ?case
  proof (cases rule: pi_usage_cases)
    case unknown
    with n v(3,4) fin Cons.prems(2,3) show ?thesis
      by (simp add: IH all_known_def count_of_def value_or_def)
  next
    case (known i out all)
    with e have "safe_count i" "safe_count out" "safe_count all" by (simp_all add: evidence_ok_def value_or_def)
    with known n v(3,4) fin Cons.prems(2,3) show ?thesis
      by (simp add: IH all_known_def count_of_def value_or_def add.assoc)
  qed
qed (simp add: all_known_def count_of_def)

lemma counted_ok:
  assumes "\<forall>v \<in> set vs. invocation_shape v \<and> iv_status v = IvCompleted"
    and "list_all (\<lambda>n. n \<le> max_safe) (counts_of vs)" and "v \<in> set vs"
  shows "evidence_ok v"
proof -
  have shape: "0 \<le> value_or (f u) 0" if "u \<in> set vs" "f = iv_input \<or> f = iv_output \<or> f = iv_total" for f u
  proof -
    have "count_column (iv_input u)" "count_column (iv_output u)" "count_column (iv_total u)"
      using assms(1) that(1) by (simp_all add: invocation_shape_def)
    with that(2) show ?thesis by (elim disjE) (simp_all add: count_column_def value_or_def split: option.splits)
  qed
  have le: "value_or (f v) 0 \<le> count_of f vs" if "f = iv_input \<or> f = iv_output \<or> f = iv_total" for f
    unfolding count_of_def
    by (rule member_le_sum_list) (use assms(3) shape [OF _ that] in auto)
  have "safe_count (value_or (f v) 0)" if "f = iv_input \<or> f = iv_output \<or> f = iv_total" for f
    using le [OF that] shape [OF assms(3) that] assms(2) that by (auto simp: safe_count_def counts_of_def)
  with assms(1,3) show ?thesis by (simp add: evidence_ok_def)
qed

lemma counts_nonneg:
  assumes "\<forall>v \<in> set vs. evidence_ok v" and "n \<in> set (counts_of vs)"
  shows "0 \<le> n"
proof -
  have "0 \<le> count_of f vs" if "f = iv_input \<or> f = iv_output \<or> f = iv_total" for f
    unfolding count_of_def
    by (rule sum_list_nonneg) (use assms(1) that in \<open>auto simp: evidence_ok_def safe_count_def\<close>)
  then show ?thesis using assms(2) by (auto simp: counts_of_def)
qed

text \<open>The calls of a turn in a history are in the order of their numbers.\<close>

lemma calls_in_order:
  assumes "ledger_ok db" and "find_turn_row i db = Some t"
  shows "list_for_turn i db = pi_calls i db"
    and "map iv_call (pi_calls i db) = map (\<lambda>k. 0 + int (Suc k)) [0..<length (pi_calls i db)]"
    and "\<forall>v \<in> set (pi_calls i db). invocation_shape v \<and> iv_purpose v = ForPiTurn \<and> iv_provider v = at_provider t \<and> iv_model v = at_model t"
proof -
  show n: "map iv_call (pi_calls i db) = map (\<lambda>k. 0 + int (Suc k)) [0..<length (pi_calls i db)]"
    using assms(1) by (simp add: ledger_ok_def calls_numbered_def)
  have "sorted (map iv_call (pi_calls i db))" unfolding n by (simp add: sorted_iff_nth_mono)
  then show "list_for_turn i db = pi_calls i db" by (simp add: list_for_turn_def sort_key_id_if_sorted)
  show "\<forall>v \<in> set (pi_calls i db). invocation_shape v \<and> iv_purpose v = ForPiTurn \<and> iv_provider v = at_provider t \<and> iv_model v = at_model t"
    using assms by (auto simp: pi_calls_def ledger_ok_def calls_identified_def turn_identity_def)
qed

end
