(* ===== verification/Short_Texts.thy ===== *)
theory Short_Texts
  imports Model_Context
begin

text \<open>
  A pattern matches no text that is shorter than the least it can consume, so a text of at most four
  code units holds neither a credential nor a platform number and passes the redaction unchanged.
\<close>

primrec least_length :: "rx \<Rightarrow> nat" where
  "least_length (One P) = 1"
| "least_length (Seq r s) = least_length r + least_length s"
| "least_length (Alt r s) = min (least_length r) (least_length s)"
| "least_length (Rep lo hi r) = (case hi of None \<Rightarrow> lo | Some h \<Rightarrow> min lo h) * least_length r"
| "least_length (NotBehind P) = 0"
| "least_length (NotAhead P) = 0"
| "least_length Boundary = 0"
| "least_length AtEnd = 0"

definition rounds :: "nat \<Rightarrow> nat option \<Rightarrow> nat" where
  "rounds lo hi = (case hi of None \<Rightarrow> lo | Some h \<Rightarrow> min lo h)"

lemma rounds_step: "hi \<noteq> Some 0 \<Longrightarrow> rounds lo hi \<le> Suc (rounds (lo - 1) (map_option (\<lambda>h. h - 1) hi))"
  by (cases hi) (auto simp: rounds_def)

lemma repeat_length:
  assumes m: "\<And>c d. d \<in> set (m c) \<Longrightarrow> length (snd d) + k \<le> length (snd c)"
  shows "d \<in> set (repeat n m lo hi c) \<Longrightarrow> length (snd d) + rounds lo hi * k \<le> length (snd c)"
proof (induction n arbitrary: lo hi c)
  case 0
  then show ?case by (cases hi) (auto simp: rounds_def split: if_splits)
next
  case (Suc n)
  show ?case
  proof (cases "d = c \<and> rounds lo hi = 0")
    case True
    then show ?thesis by simp
  next
    case False
    with Suc.prems have hi: "hi \<noteq> Some 0" by (auto simp: rounds_def)
    have "lo = 0 \<Longrightarrow> rounds lo hi = 0" by (cases hi) (simp_all add: rounds_def)
    with False Suc.prems hi obtain e where e: "e \<in> set (m c)"
      "d \<in> set (repeat n m (lo - 1) (map_option (\<lambda>h. h - 1) hi) e)" by (auto split: if_splits)
    have "rounds lo hi * k \<le> rounds (lo - 1) (map_option (\<lambda>h. h - 1) hi) * k + k"
      using mult_le_mono1 [OF rounds_step [OF hi, of lo], of k] by simp
    with Suc.IH [OF e(2)] m [OF e(1)] show ?thesis by linarith
  qed
qed

lemma run_length: "d \<in> set (run r c) \<Longrightarrow> length (snd d) + least_length r \<le> length (snd c)"
proof (induction r arbitrary: c d)
  case (One P)
  then show ?case by (cases "snd c") (auto split: if_splits)
next
  case (Seq r s)
  then obtain e where "e \<in> set (run r c)" "d \<in> set (run s e)" by auto
  with Seq.IH(1) [of e c] Seq.IH(2) [of d e] show ?case by simp
next
  case (Alt r s)
  then show ?case by (fastforce simp: min_def)
next
  case (Rep lo hi r)
  from Rep.prems have "d \<in> set (repeat (Suc (lo + length (snd c))) (run r) lo hi c)" by (simp del: repeat.simps)
  from repeat_length [OF Rep.IH this] show ?case by (simp add: rounds_def)
qed (auto split: if_splits)

lemma short_text_free: "length s < least_length r \<Longrightarrow> run r (b, s) = []"
  using run_length [of _ r "(b, s)"] by (metis add.commute add_leD1 in_set_replicate linorder_not_le list.set_intros(1) neq_Nil_conv snd_conv)

lemma short_matches: "length s < least_length r \<Longrightarrow> \<not> matches_from r b s"
proof (induction s arbitrary: b)
  case Nil
  with short_text_free [OF Nil] show ?case by (simp add: matches_from.simps)
next
  case (Cons x s)
  with short_text_free [OF Cons.prems] show ?case by (simp add: matches_from.simps)
qed

lemma short_test: "length s < least_length r \<Longrightarrow> \<not> rx_test r s"
  by (simp add: rx_test_def short_matches)

lemma short_replace: "length s < least_length r \<Longrightarrow> replace_from r t b s = s"
proof (induction s arbitrary: b)
  case Nil
  with short_text_free [OF Nil] show ?case by (simp add: replace_from.simps)
next
  case (Cons x s)
  with short_text_free [OF Cons.prems] show ?case by (simp add: replace_from.simps)
qed

lemma secret_lengths: "\<forall>p \<in> set secret_patterns. 4 < least_length (snd p)"
  by code_simp

lemma number_lengths: "least_length rx_qq_number = 8" "least_length rx_number = 5" "least_length rx_only_number = 5"
  by code_simp+

lemma short_secrets: "length s \<le> 4 \<Longrightarrow> redact_secrets s = s"
  by (rule redact_clean) (use secret_lengths short_test in \<open>force simp: scan_memory_empty\<close>)

lemma short_identifiers: "length s \<le> 4 \<Longrightarrow> redact_identifiers s = s"
  by (simp add: redact_identifiers_def rx_replace_def short_replace number_lengths)

lemma short_text: "length s \<le> 4 \<Longrightarrow> redact_text s = s"
  by (simp add: redact_text_def Let_def short_identifiers short_secrets)

lemma short_identity: "js_trim s = s \<Longrightarrow> s \<noteq> [] \<Longrightarrow> length s \<le> 4 \<Longrightarrow> 4 \<le> n \<Longrightarrow> identity_metadata n s = Some s"
  by (simp add: identity_metadata_def Let_def short_secrets short_test number_lengths)

section \<open>Alphabets\<close>

primrec blocked :: "nat list \<Rightarrow> rx \<Rightarrow> bool" where
  "blocked cs (One P) \<longleftrightarrow> list_all (\<lambda>c. \<not> P c) cs"
| "blocked cs (Seq r s) \<longleftrightarrow> blocked cs r \<or> blocked cs s"
| "blocked cs (Alt r s) \<longleftrightarrow> blocked cs r \<and> blocked cs s"
| "blocked cs (Rep lo hi r) \<longleftrightarrow> 0 < rounds lo hi \<and> blocked cs r"
| "blocked cs (NotBehind P) \<longleftrightarrow> False"
| "blocked cs (NotAhead P) \<longleftrightarrow> False"
| "blocked cs Boundary \<longleftrightarrow> False"
| "blocked cs AtEnd \<longleftrightarrow> False"

lemma repeat_blocked: "m c = [] \<Longrightarrow> 0 < rounds lo hi \<Longrightarrow> repeat n m lo hi c = []"
  by (cases n; cases hi) (auto simp: rounds_def)

lemma run_blocked: "blocked cs r \<Longrightarrow> set (snd c) \<subseteq> set cs \<Longrightarrow> run r c = []"
proof (induction r arbitrary: c)
  case (One P)
  then show ?case by (cases "snd c") (auto simp: list_all_iff)
next
  case (Seq r s)
  have sub: "set (snd d) \<subseteq> set cs" if "d \<in> set (run r c)" for d
    using moved_run [OF that] Seq.prems(2) by (auto simp: moved_def)
  show ?case
  proof (cases "blocked cs r")
    case True
    with Seq.IH(1) [OF _ Seq.prems(2)] show ?thesis by simp
  next
    case False
    with Seq.prems(1) sub Seq.IH(2) show ?thesis by (simp add: concat_eq_Nil_conv)
  qed
next
  case (Rep lo hi r)
  then show ?case by (simp del: repeat.simps add: repeat_blocked)
qed simp_all

lemma blocked_matches: "blocked cs r \<Longrightarrow> set s \<subseteq> set cs \<Longrightarrow> \<not> matches_from r b s"
  by (induction s arbitrary: b) (simp_all add: matches_from.simps run_blocked)

lemma blocked_test: "blocked cs r \<Longrightarrow> set s \<subseteq> set cs \<Longrightarrow> \<not> rx_test r s"
  by (simp add: rx_test_def blocked_matches)

lemma blocked_replace: "blocked cs r \<Longrightarrow> set s \<subseteq> set cs \<Longrightarrow> replace_from r t b s = s"
  by (induction s arbitrary: b) (simp_all add: replace_from.simps run_blocked)

definition harmless :: "nat list \<Rightarrow> bool" where
  "harmless cs \<longleftrightarrow> list_all (\<lambda>p. blocked cs (snd p)) secret_patterns \<and> blocked cs rx_qq_number \<and> blocked cs rx_number"

lemma harmless_text:
  assumes "harmless cs" and "set s \<subseteq> set cs"
  shows "redact_text s = s"
proof -
  have "redact_secrets s = s"
    by (rule redact_clean) (use assms in \<open>auto simp: harmless_def scan_memory_empty list_all_iff blocked_test\<close>)
  moreover have "redact_identifiers s = s"
    using assms by (simp add: harmless_def redact_identifiers_def rx_replace_def blocked_replace [of cs])
  ultimately show ?thesis by (simp add: redact_text_def Let_def)
qed

lemmas rx_building = secret_patterns_def rx_openai_key_def rx_github_token_def rx_jwt_def rx_aws_key_def rx_private_key_def
  rx_password_def rx_api_key_def rx_token_def rx_cookie_def rx_recovery_codes_def assignment_def among_def least_def ws_def
  opt_dash_def rx_opt_def rx_lit_def rx_ilit_def fold_case_def rounds_def digit_def upper_def lit_def rx_qq_number_def rx_number_def

lemma harmless_words: "harmless (lit ''invaldstruceop_'')"
  unfolding harmless_def by (intro conjI; simp add: rx_building)

end
