(* ===== verification/Ledger_Properties.thy ===== *)
theory Ledger_Properties
  imports Ledger_Settlement Short_Texts
begin

text \<open>
  The claims about the ledger of model calls, and a history that they apply to: a running turn
  \<open>t\<close> with a completed call, and the same turn with an evaluator call whose answer was malformed and
  a second call that corrects it.
\<close>

section \<open>A history\<close>

definition lx_call :: "string \<Rightarrow> int \<Rightarrow> call_input" where
  "lx_call i t = \<lparr>cl_id = Some (lit i), cl_provider = lit ''p'', cl_model = lit ''m'', cl_events = [lit ''e''], cl_started = Some (JInt t)\<rparr>"
definition lx_turn :: agent_turn where
  "lx_turn = \<lparr>at_id = lit ''t'', at_conversation = lit ''c'', at_trigger = lit ''e'', at_pack = Some (lit ''k''), at_model = lit ''m'',
     at_provider = lit ''p'', at_response = None, at_status = TRunning, at_input = None, at_output = None, at_total = None,
     at_started = 5, at_completed = None\<rparr>"
definition lx_ledger :: ledger where
  "lx_ledger = empty_ledger\<lparr>lg_events := [lit ''e''], lg_turns := [lx_turn]\<rparr>"
lemma lx_ledger_reachable: "ledger_reachable lx_ledger"
proof -
  let ?a = "empty_ledger\<lparr>lg_events := [lit ''e'']\<rparr>"
  let ?b = "fst (create_pending (Some (lit ''t'')) (lit ''c'') (lit ''e'') (lit ''m'') (lit ''p'') (Some 5) [] ?a)"
  have "ledger_step empty_ledger ?a" using ls_event [of empty_ledger "lit ''e''"] by (simp add: empty_ledger_def)
  moreover have "ledger_step ?a ?b" by (rule ls_pending)
  moreover have "ledger_step ?b (mark_running (lit ''t'') (lit ''k'') ?b)" by (rule ls_running)
  moreover have "mark_running (lit ''t'') (lit ''k'') ?b = lx_ledger"
    by (simp add: mark_running_def update_turns_def create_pending_def value_or_def find_turn_row_def lx_ledger_def lx_turn_def update_where_def empty_ledger_def Let_def)
  ultimately show ?thesis unfolding ledger_reachable_def by (metis rtranclp.rtrancl_refl rtranclp.rtrancl_into_rtrancl)
qed

text \<open>A call of the turn that completes, and a call of an evaluator whose answer is rejected.\<close>

lemma lx_texts: "identity_metadata max_provider_length (lit ''p'') = Some (lit ''p'')" "identity_metadata max_model_length (lit ''m'') = Some (lit ''m'')"
 "identity_metadata max_prompt_version_length (lit ''v'') = Some (lit ''v'')"
  by (rule short_identity; simp add: js_trim_def js_space_def lit_def max_provider_length_def max_model_length_def max_prompt_version_length_def)+
lemma lx_ids: "identifier_ok (lit ''i'')" "identifier_ok (lit ''j'')" "identifier_ok (lit ''t'')" "identifier_ok (lit ''r'')" "source_ids_ok [lit ''e'']"
  by (simp_all add: identifier_ok_def js_trim_def js_space_def lit_def max_id_length_def source_ids_ok_def)
lemma lx_call_fields [simp]: "cl_id (lx_call i t) = Some (lit i)" "cl_provider (lx_call i t) = lit ''p''" "cl_model (lx_call i t) = lit ''m''"
  "cl_events (lx_call i t) = [lit ''e'']" "cl_started (lx_call i t) = Some (JInt t)"
  by (simp_all add: lx_call_def)
lemmas lx_numbers = timestamp_ok_def positive_ok_def optional_count_ok_def optional_id_ok_def max_safe_def
lemmas lx_rows = lx_ledger_def lx_turn_def empty_ledger_def find_turn_row_def turn_running_def
lemmas lx_insert = insert_invocation_def invocation_allowed_def invocation_shape_def owner_shape_def status_shape_def no_usage_def length_within_def
  owner_exists_def new_invocation_def count_column_def same_call_def

definition lx_pi :: invocation where
  "lx_pi = (new_invocation (lit ''i'') ForPiTurn 1 (lit ''p'') (lit ''m'') 6)\<lparr>iv_turn := Some (lit ''t'')\<rparr>"
definition lx_pi_ledger :: ledger where
  "lx_pi_ledger = lx_ledger\<lparr>lg_invocations := [lx_pi], lg_sources := [(lit ''i'', lit ''e'')]\<rparr>"
lemma lx_pi_start: "start_pi_turn (lx_call ''i'' 6) (lit ''t'') (JInt 1) [] (JInt 6) lx_ledger = (lx_pi_ledger, Inr (lit ''i''))"
  by (simp add: start_pi_turn_def Let_def value_or_def lx_texts lx_ids lx_numbers lx_rows lx_insert next_call_def pi_calls_def lx_pi_def lx_pi_ledger_def)

definition lx_usage :: token_counts where
  "lx_usage = \<lparr>tk_input = JInt 7, tk_output = JInt 3, tk_total = JInt 10, tk_cache_read = None, tk_cache_write = None, tk_reasoning = None\<rparr>"
definition lx_sha :: "jstr \<Rightarrow> jstr" where "lx_sha t = replicate 64 48"
definition lx_pi_done :: invocation where
  "lx_pi_done = lx_pi\<lparr>iv_status := IvCompleted, iv_completed := Some 8, iv_input := Some 7, iv_output := Some 3, iv_total := Some 10, iv_response := Some (lx_sha [], 0)\<rparr>"
lemma hex64_ex: "hex64 (lx_sha t)" by (simp add: hex64_def lx_sha_def list_all_iff digit_def)
lemma lx_pi_complete: "complete_pi_turn_invocation lx_sha (lit ''i'') (Some lx_usage) [] (JInt 8) lx_pi_ledger
   = (lx_pi_ledger\<lparr>lg_invocations := [lx_pi_done]\<rparr>, None)"
  by (simp add: complete_pi_turn_invocation_def Let_def value_or_def lx_texts lx_ids lx_numbers lx_rows lx_insert lx_pi_def lx_pi_ledger_def
     pi_tokens_ok_def tokens_ok_def lx_usage_def find_running_def can_complete_def settle_def completed_def with_tokens_def with_cache_tokens_def
     hex64_ex known_usage_def update_where_def lx_pi_done_def)
definition lx_eval :: "int \<Rightarrow> evaluator_call" where "lx_eval n = \<lparr>ec_request = lit ''r'', ec_domain = DomainSocial, ec_turn = Some (lit ''t''), ec_attempt = None, ec_call = Some n, ec_prompt = lit ''v''\<rparr>"
definition lx_first :: invocation where "lx_first = (new_invocation (lit ''i'') ForEvaluator 1 (lit ''p'') (lit ''m'') 6)\<lparr>iv_turn := Some (lit ''t''),
   iv_request := Some (lit ''r''), iv_domain := Some DomainSocial, iv_prompt := Some (lit ''v'')\<rparr>"
definition lx_first_ledger :: ledger where
  "lx_first_ledger = lx_ledger\<lparr>lg_invocations := [lx_first], lg_sources := [(lit ''i'', lit ''e'')]\<rparr>"
lemma lx_first_start: "start_evaluator (lx_call ''i'' 6) (lx_eval 1) [] (JInt 6) lx_ledger = (lx_first_ledger, Inr (lit ''i''))"
  by (simp add: start_evaluator_def Let_def value_or_def lx_texts lx_ids lx_numbers lx_rows lx_insert lx_first_ledger_def lx_first_def lx_eval_def owner_can_start_def
   correction_check_def)
definition lx_rejected :: invocation where "lx_rejected = lx_first\<lparr>iv_status := IvFailed, iv_completed := Some 7, iv_error := Some (lit ''invalid_structured_output'')\<rparr>"

lemma lx_code: "bounded_metadata max_error_code_length (lit ''invalid_structured_output'') = Some (lit ''invalid_structured_output'')"
proof -
  have "redact_text (lit ''invalid_structured_output'') = lit ''invalid_structured_output''"
    by (rule harmless_text [OF harmless_words]) (simp add: lit_def)
  moreover have "js_trim (lit ''invalid_structured_output'') = lit ''invalid_structured_output''"
    by (simp add: js_trim_def js_space_def lit_def)
  moreover have "lit ''invalid_structured_output'' \<noteq> []" by (simp add: lit_def)
  ultimately show ?thesis by (simp add: bounded_metadata_def truncate_marked_def max_error_code_length_def)
qed

definition lx_rejected_ledger :: ledger where
  "lx_rejected_ledger = lx_first_ledger\<lparr>lg_invocations := [lx_rejected]\<rparr>"

lemma lx_reject: "fail_invocation (lit ''i'') (lit ''invalid_structured_output'') IvFailed (JInt 7) lx_first_ledger = (lx_rejected_ledger, None)"
  by (simp add: fail_invocation_def lx_code lx_ids lx_numbers lx_first_ledger_def lx_first_def lx_rejected_def lx_rejected_ledger_def
      find_running_def settle_def lx_insert update_where_def)

definition lx_second :: invocation where
  "lx_second = (new_invocation (lit ''j'') ForEvaluator 2 (lit ''p'') (lit ''m'') 8)\<lparr>iv_turn := Some (lit ''t''),
     iv_request := Some (lit ''r''), iv_domain := Some DomainSocial, iv_prompt := Some (lit ''v'')\<rparr>"

definition lx_second_ledger :: ledger where
  "lx_second_ledger = lx_rejected_ledger\<lparr>lg_invocations := [lx_rejected, lx_second],
     lg_sources := [(lit ''i'', lit ''e''), (lit ''j'', lit ''e'')]\<rparr>"

lemma lx_second_start: "start_evaluator (lx_call ''j'' 8) (lx_eval 2) [] (JInt 8) lx_rejected_ledger = (lx_second_ledger, Inr (lit ''j''))"
  by (simp add: start_evaluator_def Let_def value_or_def lx_texts lx_ids lx_numbers lx_rows lx_insert lx_first_ledger_def lx_first_def
      lx_eval_def owner_can_start_def correction_check_def first_evaluator_call_def predecessor_fits_def sources_of_def
      lx_rejected_def lx_rejected_ledger_def lx_second_def lx_second_ledger_def)

lemma lx_steps:
  "ledger_step lx_ledger lx_pi_ledger" "ledger_step lx_pi_ledger (lx_pi_ledger\<lparr>lg_invocations := [lx_pi_done]\<rparr>)"
  "ledger_step lx_ledger lx_first_ledger" "ledger_step lx_first_ledger lx_rejected_ledger"
  "ledger_step lx_rejected_ledger lx_second_ledger"
  using ls_pi [of lx_ledger "lx_call ''i'' 6" "lit ''t''" "JInt 1" "[]" "JInt 6"]
    ls_complete_pi [of lx_pi_ledger lx_sha "lit ''i''" "Some lx_usage" "[]" "JInt 8"]
    ls_evaluator [of lx_ledger "lx_call ''i'' 6" "lx_eval 1" "[]" "JInt 6"]
    ls_fail [of lx_first_ledger "lit ''i''" "lit ''invalid_structured_output''" IvFailed "JInt 7"]
    ls_evaluator [of lx_rejected_ledger "lx_call ''j'' 8" "lx_eval 2" "[]" "JInt 8"]
  by (simp_all only: lx_pi_start lx_pi_complete lx_first_start lx_reject lx_second_start fst_conv)

lemma lx_reachable:
  "ledger_reachable lx_pi_ledger" "ledger_reachable (lx_pi_ledger\<lparr>lg_invocations := [lx_pi_done]\<rparr>)"
  "ledger_reachable lx_rejected_ledger" "ledger_reachable lx_second_ledger"
  using lx_ledger_reachable lx_steps unfolding ledger_reachable_def
  by (meson rtranclp.rtrancl_into_rtrancl)+

section \<open>Claims\<close>

text \<open>
  C28.1 In every history of the ledger each row satisfies the constraints of its purpose and status,
  and a call that is still running belongs to a turn or job attempt that is itself still running: no
  call is left running behind a turn that completed, failed or was aborted, or behind an attempt whose
  lease was lost.
\<close>

theorem running_call_owned:
  assumes "ledger_reachable db" and "v \<in> set (lg_invocations db)"
  shows "invocation_shape v \<and> (iv_status v = IvRunning \<longrightarrow> owner_running v db)"
  using ledger_ok_reachable [OF assms(1)] assms(2) by (simp add: ledger_ok_def calls_owned_def)

lemma running_call_owned_witness: "invocation_shape lx_pi \<and> owner_running lx_pi lx_pi_ledger"
  using running_call_owned [OF lx_reachable(1), of lx_pi] by (simp add: lx_pi_ledger_def lx_pi_def new_invocation_def)

text \<open>
  C29.2 A call that has completed, failed or been aborted is final: whatever the turns, the job queue
  and the model calls do afterwards, its row stays as it is and is what its id finds.
\<close>

theorem settled_call_final:
  assumes "ledger_reachable db" and "ledger_step\<^sup>*\<^sup>* db db'"
    and "v \<in> set (lg_invocations db)" and "iv_status v \<noteq> IvRunning"
  shows "find_invocation_by_id (iv_id v) db' = Some v"
proof -
  from assms(2) have "ledger_ok db' \<and> v \<in> set (lg_invocations db')"
  proof (induction rule: rtranclp_induct)
    case base
    with ledger_ok_reachable [OF assms(1)] assms(3) show ?case by blast
  next
    case (step q r)
    then have ok: "ledger_ok q" and m: "v \<in> set (lg_invocations q)" by auto
    from ok have "settled_only q r \<or> (\<exists>u events. adds u events q r)"
      by (intro ledger_step_shape [OF step(2)]) (simp_all add: ledger_ok_def)
    then have "v \<in> set (lg_invocations r)"
    proof
      assume "settled_only q r"
      then have "list_all2 settles (lg_invocations q) (lg_invocations r)" by (simp add: settled_only_def)
      from settles_mem_left [OF this m] assms(4) show ?thesis by (auto simp: settles_def)
    qed (use m in \<open>auto simp: adds_def\<close>)
    with ledger_ok_step [OF step(2) ok] show ?case by blast
  qed
  then show ?thesis
    unfolding find_invocation_by_id_def by (intro find_distinct) (simp_all add: ledger_ok_def)
qed

lemma settled_call_final_witness: "find_invocation_by_id (iv_id lx_rejected) lx_second_ledger = Some lx_rejected"
  by (rule settled_call_final [OF lx_reachable(3) r_into_rtranclp [of ledger_step, OF lx_steps(5)]])
    (simp_all add: lx_rejected_ledger_def lx_rejected_def)

text \<open>
  C30.3 A second evaluator call of a request exists only to correct the first: the first call of the
  same request, owner, domain, prompt version, provider, model and source events failed with
  \<open>invalid_structured_output\<close> before the second started.
\<close>

theorem second_call_corrects:
  assumes "ledger_reachable db" and "v \<in> set (lg_invocations db)" and "iv_purpose v = ForEvaluator" and "iv_call v = 2"
  shows "\<exists>p \<in> set (lg_invocations db). corrects p v \<and> sources_of (iv_id p) db = sources_of (iv_id v) db"
  using ledger_ok_reachable [OF assms(1)] assms(2-4) by (simp add: ledger_ok_def corrections_justified_def)

lemma second_call_corrects_witness:
  "\<exists>p \<in> set (lg_invocations lx_second_ledger). corrects p lx_second \<and> sources_of (iv_id p) lx_second_ledger = sources_of (iv_id lx_second) lx_second_ledger"
  by (rule second_call_corrects [OF lx_reachable(4)]) (simp_all add: lx_second_ledger_def lx_second_def)

text \<open>
  C31.4 A running turn completes from the evidence of its model calls exactly when it has calls, all of
  them completed, and their token counts add up to safe integers; it then holds the sums, or no counts
  when the usage of some call is unknown, and no call is left running.  Otherwise nothing changes.  The
  errors about gaps in the ordinals, foreign providers and partial usage are unreachable.
\<close>

theorem turn_completes_from_calls:
  assumes "ledger_reachable db" and "find_turn_row i db = Some t" and "at_status t = TRunning" and "0 \<le> now"
    and "complete_from_evidence i response (Some now) db = (db', r)"
  shows "(r = None \<longleftrightarrow> pi_calls i db \<noteq> [] \<and> (\<forall>v \<in> set (pi_calls i db). iv_status v = IvCompleted)
             \<and> list_all (\<lambda>n. n \<le> max_safe) (counts_of (pi_calls i db)))
     \<and> (r \<noteq> None \<longrightarrow> db' = db)
     \<and> (r = None \<longrightarrow> find_turn_row i db' = Some (t\<lparr>at_status := TCompleted, at_response := response,
           at_input := (if all_known (pi_calls i db) then Some (JInt (count_of iv_input (pi_calls i db))) else None),
           at_output := (if all_known (pi_calls i db) then Some (JInt (count_of iv_output (pi_calls i db))) else None),
           at_total := (if all_known (pi_calls i db) then Some (JInt (count_of iv_total (pi_calls i db))) else None),
           at_completed := Some (max now (at_started t))\<rparr>))"
proof -
  let ?calls = "pi_calls i db" and ?zero = "\<lparr>us_known = True, us_input = 0, us_output = 0, us_total = 0\<rparr>"
  note order = calls_in_order [OF ledger_ok_reachable [OF assms(1)] assms(2)]
  have sum: "sum_evidence t 0 ?zero ?calls = Inr \<lparr>us_known = all_known ?calls, us_input = count_of iv_input ?calls,
      us_output = count_of iv_output ?calls, us_total = count_of iv_total ?calls\<rparr>" if "\<forall>v \<in> set ?calls. evidence_ok v"
    using sum_evidence_total [OF order(2,3) that, of ?zero] by simp
  have row: "find_turn_row i (update_turns (\<lambda>q. at_id q = i \<and> at_status q = TRunning) f db) = Some (f t)"
    if "\<And>q. at_id (f q) = at_id q" for f
    using assms(2,3) that find_memberD [OF assms(2) [unfolded find_turn_row_def]]
    unfolding find_turn_row_def update_turns_def by (simp add: find_updated_row)
  note run = assms(5) [unfolded complete_from_evidence_def, simplified assms(2,3) order(1), simplified]
  show ?thesis
  proof (cases "?calls \<noteq> [] \<and> (\<forall>v \<in> set ?calls. evidence_ok v)")
    case False
    then have "r \<noteq> None \<and> db' = db"
      using run assms(3) sum_evidence_Inr [of t 0 ?zero ?calls] by (auto split: if_splits sum.splits)
    moreover have "\<not> (?calls \<noteq> [] \<and> (\<forall>v \<in> set ?calls. iv_status v = IvCompleted) \<and> list_all (\<lambda>n. n \<le> max_safe) (counts_of ?calls))"
      using False counted_ok [of ?calls] order(3) by blast
    ultimately show ?thesis by blast
  next
    case True
    then have nonneg: "\<forall>n \<in> set (counts_of ?calls). 0 \<le> n" and fin: "\<forall>v \<in> set ?calls. iv_status v = IvCompleted"
      using counts_nonneg [of ?calls] by (auto simp: evidence_ok_def)
    show ?thesis
      using run True sum nonneg fin assms(3,4)
      by (auto simp: counts_of_def row Let_def split: if_splits)
  qed
qed

lemma lx_done_facts:
  "iv_status lx_pi_done = IvCompleted" "iv_input lx_pi_done = Some 7" "iv_output lx_pi_done = Some 3" "iv_total lx_pi_done = Some 10"
  by (simp_all add: lx_pi_done_def)

lemma turn_completes_from_calls_witness:
  "\<exists>db' t. complete_from_evidence (lit ''t'') None (Some 9) (lx_pi_ledger\<lparr>lg_invocations := [lx_pi_done]\<rparr>) = (db', None)
     \<and> find_turn_row (lit ''t'') db' = Some t \<and> at_status t = TCompleted \<and> at_total t = Some (JInt 10)"
proof -
  let ?db = "lx_pi_ledger\<lparr>lg_invocations := [lx_pi_done]\<rparr>"
  obtain db' r where e: "complete_from_evidence (lit ''t'') None (Some 9) ?db = (db', r)" by fastforce
  have t: "find_turn_row (lit ''t'') ?db = Some lx_turn" by (simp add: lx_rows lx_pi_ledger_def)
  have running: "at_status lx_turn = TRunning" by (simp add: lx_turn_def)
  have calls: "pi_calls (lit ''t'') ?db = [lx_pi_done]" by (simp add: pi_calls_def lx_pi_done_def lx_pi_def new_invocation_def)
  note h = turn_completes_from_calls [OF lx_reachable(2) t running _ e, unfolded calls, simplified]
  have "r = None" using h by (simp add: counts_of_def count_of_def value_or_def max_safe_def lx_done_facts)
  with h e show ?thesis by (simp add: all_known_def count_of_def value_or_def lx_done_facts)
qed

end
