(* ===== verification/Tool_Output.thy ===== *)
theory Tool_Output
  imports Model_Context
begin

text \<open>
  \<open>src/tools/output-limit.ts\<close>: the text and the stored output of a tool within a number of bytes of
  UTF-8, and \<open>JSON.stringify\<close>, which measures the stored output.  The texts of numbers that are not
  safe integers and of dates are arguments of the serialisation.
\<close>

section \<open>Serialisation\<close>

record json_env =
  je_number :: "js_number \<Rightarrow> jstr"
  je_date :: "int \<Rightarrow> jstr"

definition json_number :: "json_env \<Rightarrow> js_number \<Rightarrow> jstr" where
  "json_number e n =
     (if \<not> is_finite n then lit ''null''
      else if is_safe_integer n \<and> 0 \<le> int_value n then decimal (nat (int_value n)) else je_number e n)"

text \<open>In an array \<open>undefined\<close> counts as \<open>null\<close>.\<close>

fun json_value :: "json_env \<Rightarrow> jval \<Rightarrow> jstr" where
  "json_value e JUndefined = lit ''null''"
| "json_value e JNull = lit ''null''"
| "json_value e (JBool b) = (if b then lit ''true'' else lit ''false'')"
| "json_value e (JNum n) = json_number e n"
| "json_value e (JStr s) = json_string s"
| "json_value e (JDate d) = (case d of None \<Rightarrow> lit ''null'' | Some t \<Rightarrow> json_string (je_date e t))"
| "json_value e (JArr vs) = bracket (map (json_value e) vs)"
| "json_value e (JObj fs) = json_object (map (\<lambda>(k, v). (k, json_value e v)) (filter (\<lambda>(k, v). v \<noteq> JUndefined) fs))"

definition json_text :: "json_env \<Rightarrow> jval \<Rightarrow> jstr option" where
  "json_text e v = (if v = JUndefined then None else Some (json_value e v))"

section \<open>Code points\<close>

text \<open>The strings a \<open>for ... of\<close> over a string meets.\<close>

fun code_points :: "jstr \<Rightarrow> jstr list" where
  "code_points [] = []"
| "code_points [c] = [[c]]"
| "code_points (c # d # ds) =
     (if high_surrogate c \<and> low_surrogate d then [c, d] # code_points ds else [c] # code_points (d # ds))"

text \<open>\<open>jsonStringContentByteLength\<close> of a string of one code point.\<close>

definition content_bytes :: "jstr \<Rightarrow> nat" where
  "content_bytes p =
     (case p of
        [] \<Rightarrow> 0
      | [c] \<Rightarrow>
          if c = 34 \<or> c = 92 then 2
          else if c \<le> 31 then (if c = 8 \<or> c = 9 \<or> c = 10 \<or> c = 12 \<or> c = 13 then 2 else 6)
          else if 55296 \<le> c \<and> c \<le> 57343 then 6
          else utf8_length p
      | _ \<Rightarrow> utf8_length p)"

text \<open>The longest prefix of code points within a budget of bytes.\<close>

fun take_bytes :: "(jstr \<Rightarrow> nat) \<Rightarrow> int \<Rightarrow> jstr list \<Rightarrow> jstr list" where
  "take_bytes size_of b [] = []"
| "take_bytes size_of b (p # ps) = (if b < int (size_of p) then [] else p # take_bytes size_of (b - int (size_of p)) ps)"

section \<open>The limit\<close>

definition truncation_marker :: jstr where
  "truncation_marker = lit ''[TRUNCATED:tool_output]''"

definition envelope :: "nat \<Rightarrow> jstr \<Rightarrow> jval" where
  "envelope n preview = JObj [(lit ''truncated'', JBool True), (lit ''originalBytes'', JNum (JInt (int n))), (lit ''preview'', JStr preview)]"

definition serialized_length :: "json_env \<Rightarrow> jval \<Rightarrow> nat" where
  "serialized_length e v = (case json_text e v of None \<Rightarrow> 0 | Some t \<Rightarrow> utf8_length t)"

definition min_output_bytes :: "json_env \<Rightarrow> nat" where
  "min_output_bytes e = serialized_length e (envelope (nat max_safe) truncation_marker)"

definition truncate_text :: "jstr \<Rightarrow> nat \<Rightarrow> jstr" where
  "truncate_text s limit =
     concat (take_bytes utf8_length (int limit - int (utf8_length truncation_marker)) (code_points s)) @ truncation_marker"

definition truncation_envelope :: "json_env \<Rightarrow> jstr \<Rightarrow> nat \<Rightarrow> nat \<Rightarrow> jval" where
  "truncation_envelope e preview bytes limit =
     (let room = int limit - int (serialized_length e (envelope bytes truncation_marker))
      in envelope bytes (concat (take_bytes content_bytes room (code_points preview)) @ truncation_marker))"

record limited_output =
  lo_prompt :: jstr
  lo_durable :: jval
  lo_truncated :: bool

definition limit_tool_output :: "json_env \<Rightarrow> jstr \<Rightarrow> jval \<Rightarrow> nat option \<Rightarrow> limited_output" where
  "limit_tool_output e prompt durable limit =
     (case limit of
        None \<Rightarrow> \<lparr>lo_prompt = prompt, lo_durable = durable, lo_truncated = False\<rparr>
      | Some n \<Rightarrow>
          let bytes = serialized_length e durable; cut = n < utf8_length prompt; short = n < bytes
          in \<lparr>lo_prompt = (if cut then truncate_text prompt n else prompt),
              lo_durable = (if short \<and> json_text e durable \<noteq> None then truncation_envelope e prompt bytes n else durable),
              lo_truncated = cut \<or> short\<rparr>)"

section \<open>Bytes of texts\<close>

text \<open>A part of a text ends on a code point when what follows does not start with a low surrogate.\<close>

definition starts_low :: "jstr \<Rightarrow> bool" where
  "starts_low s \<longleftrightarrow> (case s of [] \<Rightarrow> False | c # cs \<Rightarrow> low_surrogate c)"

lemma code_points_append: "\<not> starts_low t \<Longrightarrow> code_points (s @ t) = code_points s @ code_points t"
proof (induction s rule: code_points.induct)
  case (2 c)
  then show ?case by (cases t) (auto simp: starts_low_def)
qed auto

lemma concat_code_points [simp]: "concat (code_points s) = s"
  by (induction s rule: code_points.induct) auto

lemma utf8_cons: "\<not> (high_surrogate c \<and> starts_low s) \<Longrightarrow> utf8_length (c # s) = utf8_length [c] + utf8_length s"
  by (cases s) (auto simp: starts_low_def)

lemma utf8_pair: "high_surrogate c \<Longrightarrow> low_surrogate d \<Longrightarrow> utf8_length (c # d # s) = utf8_length [c, d] + utf8_length s"
  by (auto simp: high_surrogate_def)

lemma utf8_points: "utf8_length s = sum_list (map utf8_length (code_points s))"
proof (induction s rule: code_points.induct)
  case (3 c d ds)
  then show ?case
    using utf8_pair [of c d ds] utf8_cons [of c "d # ds"] by (auto simp del: utf8_length.simps simp: starts_low_def)
qed auto

lemma utf8_append: "\<not> starts_low t \<Longrightarrow> utf8_length (s @ t) = utf8_length s + utf8_length t"
  unfolding utf8_points [of "s @ t"] utf8_points [of s] utf8_points [of t] by (simp add: code_points_append)

text \<open>Prefixes of the code points of a text.\<close>

lemma code_points_prefix:
  "code_points s = ps @ qs \<Longrightarrow> \<not> starts_low t \<Longrightarrow> code_points (concat ps @ t) = ps @ code_points t"
proof (induction s arbitrary: ps rule: code_points.induct)
  case (2 c)
  then show ?case by (cases ps) (auto simp: code_points_append [where s = "[c]", simplified])
next
  case (3 c d ds)
  show ?case
  proof (cases ps)
    case (Cons p ps')
    show ?thesis
    proof (cases "high_surrogate c \<and> low_surrogate d")
      case True
      with 3(3) Cons have p: "p = [c, d]" "code_points ds = ps' @ qs" by auto
      from 3(1) [OF True p(2) 3(4)] True p(1) Cons show ?thesis by simp
    next
      case False
      with 3 Cons have p: "p = [c]" "code_points (d # ds) = ps' @ qs" by auto
      with False 3 have IH: "code_points (concat ps' @ t) = ps' @ code_points t" by blast
      have "\<not> (high_surrogate c \<and> starts_low (concat ps' @ t))"
      proof (cases ps')
        case Nil
        with 3(4) show ?thesis by simp
      next
        case (Cons q qs')
        with p(2) have "concat (code_points (d # ds)) = concat (ps' @ qs)" by simp
        then have "d # ds = concat ps' @ concat qs" by (simp only: concat_code_points concat_append)
        moreover have "q \<noteq> []"
        proof -
          have "q \<in> set (code_points (d # ds))" using p(2) Cons by simp
          moreover have "[] \<notin> set (code_points u)" for u by (induction u rule: code_points.induct) auto
          ultimately show ?thesis by metis
        qed
        ultimately show ?thesis using Cons False by (cases q) (auto simp: starts_low_def)
      qed
      then show ?thesis using IH p Cons by (cases "concat ps' @ t") (auto simp: starts_low_def)
    qed
  qed simp
qed auto

lemma take_bytes_prefix: "\<exists>qs. ps = take_bytes f b ps @ qs"
  by (induction ps arbitrary: b) auto

lemma take_bytes_fits: "0 \<le> b \<Longrightarrow> int (sum_list (map f (take_bytes f b ps))) \<le> b"
proof (induction ps arbitrary: b)
  case (Cons p ps)
  show ?case
  proof (cases "b < int (f p)")
    case False
    then have "int (sum_list (map f (take_bytes f (b - int (f p)) ps))) \<le> b - int (f p)" by (intro Cons.IH) simp
    with False show ?thesis by simp
  qed (use Cons.prems in simp)
qed simp

lemma take_bytes_none: "b < 0 \<Longrightarrow> take_bytes f b ps = []"
  by (cases ps) auto

section \<open>Bytes of serialised texts\<close>

lemma json_split: "\<not> (high_surrogate c \<and> starts_low s) \<Longrightarrow> json_chars (c # s) = json_chars [c] @ json_chars s"
  by (cases s) (auto simp: json_chars.simps starts_low_def split: option.split)

lemma json_pair: "high_surrogate c \<Longrightarrow> low_surrogate d \<Longrightarrow> json_chars (c # d # s) = c # d # json_chars s"
  by (auto simp: json_chars.simps simple_escapes_def high_surrogate_def)

lemma json_not_low: "\<not> starts_low (json_chars s)"
proof (cases s)
  case (Cons c cs)
  then show ?thesis
    by (cases cs)
      (auto simp: json_chars.simps starts_low_def unicode_escape_def simple_escapes_def high_surrogate_def low_surrogate_def
        split: option.split)
qed (simp add: json_chars.simps starts_low_def)

lemma hex_small: "n < 16 \<Longrightarrow> hex_char n < 128"
  by (simp add: hex_char_def)

lemma escape_bytes: "c < 65536 \<Longrightarrow> utf8_length (unicode_escape c) = 6"
proof -
  assume "c < 65536"
  then have "c div 4096 < 16" by simp
  then show ?thesis by (simp add: unicode_escape_def hex_small)
qed

lemma content_bytes_single: "content_bytes [c] = utf8_length (json_chars [c])"
proof -
  consider (quoted) "c \<in> {34, 92, 8, 9, 10, 12, 13}" | (escaped) "c \<notin> {34, 92, 8, 9, 10, 12, 13}" "c < 32 \<or> (55296 \<le> c \<and> c \<le> 57343)"
    | (plain) "c \<notin> {34, 92}" "\<not> c < 32" "\<not> (55296 \<le> c \<and> c \<le> 57343)" by auto
  then show ?thesis
  proof cases
    case quoted
    then show ?thesis by (elim insertE) (simp_all add: content_bytes_def json_chars.simps simple_escapes_def)
  next
    case escaped
    then have "json_chars [c] = unicode_escape c"
      by (auto simp: json_chars.simps simple_escapes_def high_surrogate_def low_surrogate_def)
    moreover have "utf8_length (unicode_escape c) = 6" by (rule escape_bytes) (use escaped in auto)
    ultimately show ?thesis using escaped by (auto simp: content_bytes_def simp del: utf8_length.simps)
  next
    case plain
    then have "map_of simple_escapes c = None" by (simp add: simple_escapes_def)
    with plain have "json_chars [c] = [c]" by (auto simp: json_chars.simps high_surrogate_def low_surrogate_def)
    with plain show ?thesis by (auto simp: content_bytes_def simp del: utf8_length.simps)
  qed
qed

lemma json_bytes: "utf8_length (json_chars s) = sum_list (map content_bytes (code_points s))"
proof (induction s rule: code_points.induct)
  case (3 c d ds)
  show ?case
  proof (cases "high_surrogate c \<and> low_surrogate d")
    case True
    have p: "json_chars (c # d # ds) = c # d # json_chars ds" using True by (simp add: json_pair)
    have u: "utf8_length (c # d # json_chars ds) = utf8_length [c, d] + utf8_length (json_chars ds)"
      using True by (intro utf8_pair) simp_all
    have "content_bytes [c, d] = utf8_length [c, d]" by (simp add: content_bytes_def)
    then show ?thesis unfolding p u 3(1) [OF True] using True by (simp del: utf8_length.simps)
  next
    case False
    then have "json_chars (c # d # ds) = json_chars [c] @ json_chars (d # ds)"
      by (intro json_split) (simp add: starts_low_def)
    moreover have "code_points (c # d # ds) = [c] # code_points (d # ds)" using False by auto
    ultimately show ?thesis
      using 3(2) [OF False] by (simp add: utf8_append json_not_low content_bytes_single del: code_points.simps)
  qed
qed (simp_all add: json_chars.simps content_bytes_single)

section \<open>The bytes of a limited output\<close>

lemma starts_low_ascii [simp]: "c < 128 \<Longrightarrow> \<not> starts_low (c # s)"
  by (simp add: starts_low_def low_surrogate_def)

lemma utf8_ascii [simp]: "\<forall>c \<in> set s. c < 128 \<Longrightarrow> utf8_length s = length s"
  by (induction s) simp_all

lemma marker_ascii: "\<forall>c \<in> set truncation_marker. c < 128" "truncation_marker = 91 # lit ''TRUNCATED:tool_output]''"
  by (simp_all add: truncation_marker_def lit_def)

lemma marker_not_low: "\<not> starts_low (truncation_marker)"
  unfolding marker_ascii(2) by simp

lemma decimal_ascii: "\<forall>c \<in> set (decimal n). c < 128"
  by (induction n rule: decimal.induct) (subst decimal.simps, auto)

lemma length_decimal: "n < 10 ^ k \<Longrightarrow> 0 < k \<Longrightarrow> length (decimal n) \<le> k"
proof (induction n arbitrary: k rule: decimal.induct)
  case (1 n)
  show ?case
  proof (cases "n < 10")
    case True
    with 1(3) show ?thesis by (subst decimal.simps) simp
  next
    case False
    then obtain j where k: "k = Suc j" "0 < j" using 1(2) by (cases k; cases "k - 1") auto
    with 1(2) have "n div 10 < 10 ^ j" by (simp add: less_mult_imp_div_less mult.commute)
    from 1(1) [OF False this k(2)] False k(1) show ?thesis by (subst decimal.simps) simp
  qed
qed

text \<open>The text of an envelope.\<close>

definition envelope_head :: "nat \<Rightarrow> jstr" where
  "envelope_head n = lit ''{\"truncated\":true,\"originalBytes\":'' @ decimal n @ lit '',\"preview\":\"''"

lemma json_ascii: "\<forall>c \<in> set s. 35 \<le> c \<and> c \<noteq> 92 \<and> c < 128 \<Longrightarrow> json_chars s = s"
proof (induction s)
  case (Cons c s)
  then have "json_chars [c] = [c]"
    by (auto simp: json_chars.simps simple_escapes_def high_surrogate_def low_surrogate_def)
  moreover have "\<not> high_surrogate c" using Cons.prems by (auto simp: high_surrogate_def)
  ultimately show ?case using Cons json_split [of c s] by simp
qed (simp add: json_chars.simps)

lemma envelope_text:
  assumes "int n \<le> max_safe"
  shows "json_value e (envelope n s) = envelope_head n @ json_chars s @ [34, 125]"
proof -
  have names: "json_string (lit ''truncated'') = lit ''\"truncated\"''" "json_string (lit ''originalBytes'') = lit ''\"originalBytes\"''"
    "json_string (lit ''preview'') = lit ''\"preview\"''"
    by (simp_all add: json_string_def json_ascii lit_def)
  have num: "json_number e (JInt (int n)) = decimal n" using assms by (simp add: json_number_def)
  show ?thesis
    by (simp add: envelope_def json_object_def names num envelope_head_def) (simp add: json_string_def lit_def)
qed

lemma head_ascii: "\<forall>c \<in> set (envelope_head n). c < 128"
  using decimal_ascii [of n] by (auto simp: envelope_head_def lit_def)

lemma envelope_bytes:
  assumes "int n \<le> max_safe"
  shows "serialized_length e (envelope n s) = length (envelope_head n) + utf8_length (json_chars s) + 2"
proof -
  have "utf8_length (json_chars s @ [34, 125]) = utf8_length (json_chars s) + 2" by (simp add: utf8_append)
  moreover have "\<not> starts_low (json_chars s @ [34, 125])"
    using json_not_low [of s] by (cases "json_chars s") (auto simp: starts_low_def low_surrogate_def)
  ultimately show ?thesis
    using assms utf8_ascii [OF head_ascii]
    by (simp add: serialized_length_def json_text_def envelope_def [of n s, symmetric] envelope_text utf8_append)
       (simp add: envelope_def)
qed

lemma marker_json: "json_chars truncation_marker = truncation_marker"
  by (rule json_ascii) (simp add: truncation_marker_def lit_def)

lemma marker_bytes: "utf8_length truncation_marker = length truncation_marker"
  by (rule utf8_ascii) (rule marker_ascii(1))

lemma min_output_room:
  assumes "min_output_bytes e \<le> n"
  shows "utf8_length truncation_marker \<le> n"
    and "int b \<le> max_safe \<Longrightarrow> serialized_length e (envelope b truncation_marker) \<le> n"
proof -
  have m: "min_output_bytes e = length (envelope_head (nat max_safe)) + utf8_length truncation_marker + 2"
    unfolding min_output_bytes_def by (subst envelope_bytes) (simp_all add: max_safe_def marker_json)
  with assms show "utf8_length truncation_marker \<le> n" by simp
  assume b: "int b \<le> max_safe"
  then have "b < 10 ^ 16" by (simp add: max_safe_def)
  then have "length (decimal b) \<le> 16" by (rule length_decimal) simp
  moreover have "length (decimal (nat max_safe)) = 16" by (simp add: max_safe_def decimal.simps)
  ultimately have "length (envelope_head b) \<le> length (envelope_head (nat max_safe))" by (simp add: envelope_head_def)
  with m assms envelope_bytes [OF b, of e truncation_marker] show "serialized_length e (envelope b truncation_marker) \<le> n"
    by (simp add: marker_json)
qed

lemma taken_points: "code_points (concat (take_bytes f b (code_points s)) @ truncation_marker)
    = take_bytes f b (code_points s) @ code_points truncation_marker"
  using take_bytes_prefix [of "code_points s" f b] code_points_prefix [OF _ marker_not_low] by blast

lemma truncate_text_bytes:
  assumes "utf8_length truncation_marker \<le> n"
  shows "utf8_length (truncate_text s n) \<le> n"
proof -
  let ?ps = "take_bytes utf8_length (int n - int (utf8_length truncation_marker)) (code_points s)"
  have "utf8_length (truncate_text s n) = sum_list (map utf8_length ?ps) + utf8_length truncation_marker"
    unfolding truncate_text_def utf8_points [of "concat _ @ _"] taken_points by (simp add: utf8_points [of truncation_marker])
  moreover have "int (sum_list (map utf8_length ?ps)) \<le> int n - int (utf8_length truncation_marker)"
    by (rule take_bytes_fits) (use assms in simp)
  ultimately show ?thesis by simp
qed

lemma truncation_envelope_bytes:
  assumes "int b \<le> max_safe" and "serialized_length e (envelope b truncation_marker) \<le> n"
  shows "serialized_length e (truncation_envelope e s b n) \<le> n"
proof -
  let ?room = "int n - int (serialized_length e (envelope b truncation_marker))"
  let ?ps = "take_bytes content_bytes ?room (code_points s)"
  have "utf8_length (json_chars (concat ?ps @ truncation_marker))
      = sum_list (map content_bytes ?ps) + utf8_length (json_chars truncation_marker)"
    unfolding json_bytes taken_points by simp
  then have "serialized_length e (truncation_envelope e s b n)
      = sum_list (map content_bytes ?ps) + serialized_length e (envelope b truncation_marker)"
    using envelope_bytes [OF assms(1)] by (simp add: truncation_envelope_def Let_def)
  moreover have "int (sum_list (map content_bytes ?ps)) \<le> ?room"
    by (rule take_bytes_fits) (use assms(2) in simp)
  ultimately show ?thesis by simp
qed

text \<open>
  Neither the text given to the model nor the stored output of a tool is longer than the limit of
  the tool, counted in bytes of UTF-8 of the text and of its JSON: whatever surrogates, quotes and
  control characters the output holds.  An output within the limit is not touched.
\<close>

lemma tool_output_bounded:
  assumes "min_output_bytes e \<le> n" and "int (serialized_length e durable) \<le> max_safe"
  shows "utf8_length (lo_prompt (limit_tool_output e prompt durable (Some n))) \<le> n
     \<and> serialized_length e (lo_durable (limit_tool_output e prompt durable (Some n))) \<le> n
     \<and> (lo_truncated (limit_tool_output e prompt durable (Some n))
          \<or> lo_prompt (limit_tool_output e prompt durable (Some n)) = prompt
            \<and> lo_durable (limit_tool_output e prompt durable (Some n)) = durable)"
  using truncate_text_bytes [OF min_output_room(1) [OF assms(1)], of prompt]
    truncation_envelope_bytes [OF assms(2) min_output_room(2) [OF assms], of prompt]
  by (simp add: limit_tool_output_def Let_def) (auto simp: serialized_length_def)

definition out_env :: json_env where
  "out_env = \<lparr>je_number = \<lambda>_. lit ''0'', je_date = \<lambda>_. lit ''1970-01-01T00:00:00.000Z''\<rparr>"

lemma out_env_min: "min_output_bytes out_env = 87"
  unfolding min_output_bytes_def
  by (subst envelope_bytes) (simp_all add: max_safe_def marker_json marker_bytes envelope_head_def decimal.simps,
      simp add: truncation_marker_def)

end
