(* ===== verification/Tool_Access.thy ===== *)
theory Tool_Access
  imports Tool_Output Job_Queue
begin

text \<open>
  Which tool may be called: \<open>src/tools/registry.ts\<close>, \<open>src/tools/known-tools.ts\<close>,
  \<open>src/tools/sandbox-policy.ts\<close>, \<open>src/policy/gate.ts\<close> and the names a provider sees
  (\<open>toProviderToolName\<close> and \<open>createProviderToolNameMap\<close> of \<open>src/pi/tool-adapter.ts\<close>).  A handler is
  a number; no number stands for a value that is not a function.  The frozen copy an entry is stored as
  is the value of the record.  SHA-256 is an argument.
\<close>

section \<open>Entries\<close>

record permission_policy =
  pp_actors :: "jstr list"
  pp_contexts :: "jstr list"
  pp_users :: "jstr list option"
  pp_denied_users :: "jstr list option"
  pp_groups :: "jstr list option"
  pp_denied_groups :: "jstr list option"

record sandbox_policy =
  sb_filesystem :: jstr
  sb_network :: jstr
  sb_execution :: jstr
  sb_runtime :: jval
  sb_output :: jval

record tool_entry =
  te_name :: jstr
  te_capabilities :: "jstr list"
  te_permissions :: permission_policy
  te_evaluator :: jstr
  te_audit :: jstr
  te_sandbox :: sandbox_policy
  te_sensitivity :: jstr
  te_handler :: "nat option"

record actor_context =
  ac_class :: jstr
  ac_user :: "jstr option"
  ac_group :: "jstr option"

record tool_registry =
  tr_tools :: "(jstr \<times> tool_entry) list"
  tr_disabled :: "jstr list"

definition no_tools :: tool_registry where
  "no_tools = \<lparr>tr_tools = [], tr_disabled = []\<rparr>"

datatype tool_error =
    AlreadyRegistered | HandlerNotResolved | UnknownExecution | RuntimeNotPositive | RuntimeTooLong
  | OutputNotPositive | OutputTooSmall | NotRegistered

section \<open>Registration\<close>

definition known_tool_names :: "jstr list" where
  "known_tool_names = map lit [''group.recent_summary'', ''memory.disable'', ''memory.propose'', ''memory.search'',
     ''runtime.status'', ''runtime.tools'', ''web.fetch_text'', ''workspace.list'', ''workspace.read_text'']"

definition is_known_tool_name :: "jstr \<Rightarrow> bool" where
  "is_known_tool_name n \<longleftrightarrow> n \<in> set known_tool_names"

definition execution_values :: "jstr list" where
  "execution_values = map lit [''none'', ''in_process'', ''subprocess'', ''docker'']"

definition supported_execution :: "jstr \<Rightarrow> bool" where
  "supported_execution x \<longleftrightarrow> x = lit ''in_process''"

definition max_tool_runtime :: int where
  "max_tool_runtime = 2147483647"

fun limit_positive :: "jval \<Rightarrow> bool" where
  "limit_positive JUndefined = True"
| "limit_positive (JNum n) = (is_safe_integer n \<and> 0 < int_value n)"
| "limit_positive v = False"

fun limit_value :: "jval \<Rightarrow> int option" where
  "limit_value (JNum n) = Some (int_value n)"
| "limit_value v = None"

definition get_tool :: "jstr \<Rightarrow> tool_registry \<Rightarrow> tool_entry option" where
  "get_tool n r = map_of (tr_tools r) n"

definition register_tool :: "json_env \<Rightarrow> tool_entry \<Rightarrow> tool_registry \<Rightarrow> tool_registry \<times> tool_error option" where
  "register_tool e t r =
     (let sb = te_sandbox t; out = limit_value (sb_output sb); run = limit_value (sb_runtime sb)
      in if get_tool (te_name t) r \<noteq> None then (r, Some AlreadyRegistered)
         else if te_handler t = None then (r, Some HandlerNotResolved)
         else if sb_execution sb \<notin> set execution_values then (r, Some UnknownExecution)
         else if \<not> limit_positive (sb_runtime sb) then (r, Some RuntimeNotPositive)
         else if (case run of None \<Rightarrow> False | Some n \<Rightarrow> max_tool_runtime < n) then (r, Some RuntimeTooLong)
         else if \<not> limit_positive (sb_output sb) then (r, Some OutputNotPositive)
         else if (case out of None \<Rightarrow> False | Some n \<Rightarrow> n < int (min_output_bytes e)) then (r, Some OutputTooSmall)
         else (r\<lparr>tr_tools := tr_tools r @ [(te_name t, t)]\<rparr>, None))"

definition unregister_tool :: "jstr \<Rightarrow> tool_registry \<Rightarrow> tool_registry \<times> bool" where
  "unregister_tool n r =
     (r\<lparr>tr_tools := AList.delete n (tr_tools r), tr_disabled := removeAll n (tr_disabled r)\<rparr>, get_tool n r \<noteq> None)"

definition disable_tool :: "jstr \<Rightarrow> tool_registry \<Rightarrow> tool_registry \<times> tool_error option" where
  "disable_tool n r =
     (if get_tool n r = None then (r, Some NotRegistered)
      else (r\<lparr>tr_disabled := (if n \<in> set (tr_disabled r) then tr_disabled r else tr_disabled r @ [n])\<rparr>, None))"

definition enable_tool :: "jstr \<Rightarrow> tool_registry \<Rightarrow> tool_registry \<times> tool_error option" where
  "enable_tool n r =
     (if get_tool n r = None then (r, Some NotRegistered) else (r\<lparr>tr_disabled := removeAll n (tr_disabled r)\<rparr>, None))"

definition tool_enabled :: "jstr \<Rightarrow> tool_registry \<Rightarrow> bool" where
  "tool_enabled n r \<longleftrightarrow> get_tool n r \<noteq> None \<and> n \<notin> set (tr_disabled r)"

definition list_tools :: "tool_registry \<Rightarrow> tool_entry list" where
  "list_tools r = map snd (tr_tools r)"

definition get_handler :: "jstr \<Rightarrow> tool_registry \<Rightarrow> nat option" where
  "get_handler n r = (case get_tool n r of None \<Rightarrow> None | Some t \<Rightarrow> if tool_enabled n r then te_handler t else None)"

section \<open>Permission\<close>

text \<open>\<open>list?.includes(x)\<close>, and a list that admits only its members when it is not empty.\<close>

definition listed :: "jstr list option \<Rightarrow> jstr \<Rightarrow> bool" where
  "listed xs x \<longleftrightarrow> (case xs of None \<Rightarrow> False | Some ys \<Rightarrow> x \<in> set ys)"

definition excluded_by :: "jstr list option \<Rightarrow> jstr option \<Rightarrow> bool" where
  "excluded_by xs x \<longleftrightarrow>
     (case xs of None \<Rightarrow> False | Some ys \<Rightarrow> ys \<noteq> [] \<and> (case x of None \<Rightarrow> True | Some y \<Rightarrow> y = [] \<or> y \<notin> set ys))"

definition check_permission :: "jstr \<Rightarrow> actor_context \<Rightarrow> jstr \<Rightarrow> tool_registry \<Rightarrow> bool" where
  "check_permission n a context r =
     (case get_tool n r of
        None \<Rightarrow> False
      | Some t \<Rightarrow>
          let p = te_permissions t
          in if \<not> tool_enabled n r then False
             else if ac_class a \<notin> set (pp_actors p) then False
             else if context \<notin> set (pp_contexts p) then False
             else if listed (pp_denied_users p) (value_or (ac_user a) []) then False
             else if excluded_by (pp_users p) (ac_user a) then False
             else if listed (pp_denied_groups p) (value_or (ac_group a) []) then False
             else \<not> excluded_by (pp_groups p) (ac_group a))"

definition tool_requires_evaluator :: "jstr \<Rightarrow> tool_registry \<Rightarrow> bool" where
  "tool_requires_evaluator n r \<longleftrightarrow>
     (case get_tool n r of None \<Rightarrow> False | Some t \<Rightarrow> tool_enabled n r \<and> te_evaluator t = lit ''required'')"

datatype gate_result = GateDenied jstr | GateAllowed bool

definition denied_reason :: "jstr \<Rightarrow> actor_context \<Rightarrow> jstr \<Rightarrow> jstr" where
  "denied_reason n a context =
     lit ''Permission denied: '' @ n @ lit '' not allowed for '' @ ac_class a @ lit '' in '' @ context"

definition check_tool_call :: "jstr \<Rightarrow> actor_context \<Rightarrow> jstr \<Rightarrow> tool_registry \<Rightarrow> gate_result" where
  "check_tool_call n a context r =
     (case get_tool n r of
        None \<Rightarrow> GateDenied (lit ''Unknown tool: '' @ n)
      | Some t \<Rightarrow>
          if \<not> check_permission n a context r then GateDenied (denied_reason n a context)
          else if \<not> supported_execution (sb_execution (te_sandbox t))
          then GateDenied (lit ''Tool execution backend is unavailable for '' @ n @ lit ''; only in_process is supported'')
          else GateAllowed (tool_requires_evaluator n r))"

section \<open>Names for a provider\<close>

definition provider_char :: "nat \<Rightarrow> bool" where
  "provider_char c \<longleftrightarrow> alnum c \<or> c = 95 \<or> c = 45"

definition plain_provider_name :: "jstr \<Rightarrow> bool" where
  "plain_provider_name n \<longleftrightarrow> 1 \<le> length n \<and> length n \<le> 64 \<and> list_all provider_char n"

definition to_provider_name :: "(jstr \<Rightarrow> jstr) \<Rightarrow> jstr \<Rightarrow> jstr option" where
  "to_provider_name sha n =
     (if n = [] then None
      else if plain_provider_name n then Some n else Some (lit ''lb_'' @ take 48 (sha n)))"

fun provider_name_map :: "(jstr \<Rightarrow> jstr) \<Rightarrow> (jstr \<times> jstr) list \<Rightarrow> jstr list \<Rightarrow> (jstr \<times> jstr) list option" where
  "provider_name_map sha m [] = Some m"
| "provider_name_map sha m (n # ns) =
     (case to_provider_name sha n of
        None \<Rightarrow> None
      | Some p \<Rightarrow> if p \<in> fst ` set m then None else provider_name_map sha (m @ [(p, n)]) ns)"

text \<open>The tools a turn offers to its provider, with the names it may call them by; no value when two names collide.\<close>

definition offered_tools ::
  "(jstr \<Rightarrow> jstr) \<Rightarrow> actor_context \<Rightarrow> jstr \<Rightarrow> tool_registry \<Rightarrow> (tool_entry list \<times> (jstr \<times> jstr) list) option" where
  "offered_tools sha a context r =
     (let ts = filter (\<lambda>t. supported_execution (sb_execution (te_sandbox t)) \<and> check_permission (te_name t) a context r) (list_tools r)
      in map_option (\<lambda>m. (ts, m)) (provider_name_map sha [] (map te_name ts)))"

section \<open>Histories of a registry\<close>

inductive registry_step :: "json_env \<Rightarrow> tool_registry \<Rightarrow> tool_registry \<Rightarrow> bool" for e where
  rs_register: "registry_step e r (fst (register_tool e t r))"
| rs_unregister: "registry_step e r (fst (unregister_tool n r))"
| rs_disable: "registry_step e r (fst (disable_tool n r))"
| rs_enable: "registry_step e r (fst (enable_tool n r))"

inductive_cases registry_stepE: "registry_step e r r'"

definition registry_reachable :: "json_env \<Rightarrow> tool_registry \<Rightarrow> bool" where
  "registry_reachable e r \<longleftrightarrow> (registry_step e)\<^sup>*\<^sup>* no_tools r"

text \<open>What every entry of a registry satisfies.\<close>

definition entry_ok :: "json_env \<Rightarrow> tool_entry \<Rightarrow> bool" where
  "entry_ok e t \<longleftrightarrow> te_handler t \<noteq> None \<and> sb_execution (te_sandbox t) \<in> set execution_values
     \<and> (case limit_value (sb_runtime (te_sandbox t)) of None \<Rightarrow> True | Some n \<Rightarrow> 0 < n \<and> n \<le> max_tool_runtime)
     \<and> (case limit_value (sb_output (te_sandbox t)) of None \<Rightarrow> True | Some n \<Rightarrow> int (min_output_bytes e) \<le> n)"

definition registry_ok :: "json_env \<Rightarrow> tool_registry \<Rightarrow> bool" where
  "registry_ok e r \<longleftrightarrow> distinct (map fst (tr_tools r)) \<and> distinct (tr_disabled r)
     \<and> set (tr_disabled r) \<subseteq> fst ` set (tr_tools r)
     \<and> (\<forall>(n, t) \<in> set (tr_tools r). te_name t = n \<and> entry_ok e t)"

lemma registry_ok_empty: "registry_ok e no_tools"
  by (simp add: registry_ok_def no_tools_def)

lemma limit_positive_value: "limit_positive v \<Longrightarrow> limit_value v = Some n \<Longrightarrow> 0 < n"
  by (cases v) auto

lemma registry_ok_register: "registry_ok e r \<Longrightarrow> registry_ok e (fst (register_tool e t r))"
  unfolding register_tool_def Let_def
  by (auto simp: registry_ok_def get_tool_def map_of_eq_None_iff entry_ok_def dest: limit_positive_value split: option.splits)

lemma registry_ok_unregister:
  assumes "registry_ok e r"
  shows "registry_ok e (fst (unregister_tool n r))"
proof -
  let ?ts = "AList.delete n (tr_tools r)"
  have "map fst (AList.delete n ts) = filter (\<lambda>k. n \<noteq> k) (map fst ts)" for ts :: "(jstr \<times> tool_entry) list"
    unfolding AList.delete_eq by (induction ts) auto
  then have "fst ` set ?ts = fst ` set (tr_tools r) - {n}" and "distinct (map fst ?ts)"
    using assms by (auto simp: registry_ok_def simp flip: set_map)
  moreover have "set ?ts \<subseteq> set (tr_tools r)" unfolding AList.delete_eq by auto
  ultimately show ?thesis
    using assms unfolding registry_ok_def unregister_tool_def by (simp add: distinct_removeAll) blast
qed

lemma registry_ok_step: "registry_step e r r' \<Longrightarrow> registry_ok e r \<Longrightarrow> registry_ok e r'"
proof (erule registry_stepE, goal_cases)
  case (3 n)
  then show ?case by (auto simp: registry_ok_def disable_tool_def get_tool_def map_of_eq_None_iff)
next
  case (4 n)
  then show ?case by (auto simp: registry_ok_def enable_tool_def distinct_removeAll)
qed (simp_all add: registry_ok_register registry_ok_unregister)

end
