(* ===== verification/Tool_Evidence.thy ===== *)
theory Tool_Evidence
  imports Tool_Access Ledger_Turns "HOL-Library.List_Lexorder"
begin

text \<open>
  What the database keeps of tool calls: \<open>ToolCallRepository\<close> (\<open>src/storage/tool-call-repository.ts\<close>),
  the insertion of \<open>AuditRepository\<close> (\<open>src/storage/audit-repository.ts\<close>) and the tool decisions of
  \<open>EvaluatorDecisionRepository\<close> (\<open>src/storage/evaluator-decision-repository.ts\<close>), next to the ledger
  of model calls.  A JSON column holds the value its text encodes.  An error is a message, and a
  constraint of the schema that fails is one error.  The table of decisions holds those of the domain
  \<open>tool\<close>, and the audit table the entries of tools; ids are compared by their code units.
\<close>

section \<open>Redaction with a mark\<close>

text \<open>\<open>redactToolCallText\<close>: whether anything was redacted.\<close>

definition text_redacted :: "jstr \<Rightarrow> bool" where
  "text_redacted t \<longleftrightarrow>
     (let platform = redact_identifiers t; secret = redact_secrets platform
      in platform \<noteq> t \<or> scan_memory platform \<noteq> [] \<or> redact_identifiers secret \<noteq> secret
         \<or> (js_includes platform redaction_mark \<and> \<not> js_includes (redact_identifiers secret) redaction_mark))"

fun value_redacted :: "jstr option \<Rightarrow> jval \<Rightarrow> bool" where
  "value_redacted k (JStr s) = text_redacted s"
| "value_redacted k (JNum n) = numeric_identifier k n"
| "value_redacted k (JArr vs) = list_ex (value_redacted k) vs"
| "value_redacted k (JObj fs) = list_ex (\<lambda>(f, v). text_redacted f \<or> value_redacted (Some f) v) fs"
| "value_redacted k v = False"

section \<open>Tables\<close>

record tool_row =
  tc_id :: jstr
  tc_turn :: jstr
  tc_decision :: "jstr option"
  tc_tool :: jstr
  tc_input :: jval
  tc_output :: "jval option"
  tc_requested_by :: jstr
  tc_user :: "jstr option"
  tc_class :: jstr
  tc_context :: jstr
  tc_status :: jstr
  tc_code :: "jstr option"
  tc_message :: "jstr option"
  tc_time :: "int option"
  tc_redacted :: bool
  tc_created :: int

record tool_audit_row =
  au_id :: jstr
  au_time :: int
  au_category :: jstr
  au_level :: jstr
  au_type :: jstr
  au_event :: jstr
  au_user :: "jstr option"
  au_class :: jstr
  au_context :: jstr
  au_summary :: jstr
  au_details :: "jval option"
  au_redacted :: bool
  au_risk :: "jstr option"
  au_decision :: "jstr option"

record tool_decision_row =
  td_id :: jstr
  td_request :: jstr
  td_turn :: jstr
  td_decision :: jstr
  td_reason :: jstr
  td_confidence :: js_number
  td_risk :: jstr
  td_version :: jstr
  td_invocation :: "jstr option"
  td_tool :: jstr
  td_user :: "jstr option"
  td_class :: jstr
  td_context :: jstr
  td_sources :: "jstr list"
  td_requested :: int
  td_decided :: int

record tool_db =
  tb_calls :: "tool_row list"
  tb_audit :: "tool_audit_row list"
  tb_decisions :: "tool_decision_row list"
  tb_ledger :: ledger

section \<open>Tool calls\<close>

definition statuses :: "jstr list" where
  "statuses = map lit [''success'', ''error'', ''timeout'', ''rejected'']"

definition requesters :: "jstr list" where
  "requesters = map lit [''pi'', ''evaluator'', ''user'', ''system'']"

definition tool_call_allowed :: "tool_row \<Rightarrow> tool_db \<Rightarrow> bool" where
  "tool_call_allowed c db \<longleftrightarrow> tc_id c \<notin> tc_id ` set (tb_calls db) \<and> find_turn_row (tc_turn c) (tb_ledger db) \<noteq> None
     \<and> (case tc_decision c of None \<Rightarrow> True | Some d \<Rightarrow> d \<in> td_id ` set (tb_decisions db))
     \<and> tc_status c \<in> set statuses \<and> tc_requested_by c \<in> set requesters"

text \<open>The stored form of a call: its texts and values redacted, and marked when anything was.\<close>

definition stored_call :: "tool_row \<Rightarrow> tool_row" where
  "stored_call c =
     (let input = (if tc_input c = JUndefined then JNull else tc_input c)
      in c\<lparr>tc_input := redact_value None input, tc_output := map_option (redact_value None) (tc_output c),
           tc_code := map_option redact_text (tc_code c), tc_message := map_option redact_text (tc_message c),
           tc_redacted := tc_redacted c \<or> value_redacted None input
             \<or> (case tc_output c of None \<Rightarrow> False | Some v \<Rightarrow> value_redacted None v)
             \<or> (case tc_code c of None \<Rightarrow> False | Some t \<Rightarrow> text_redacted t)
             \<or> (case tc_message c of None \<Rightarrow> False | Some t \<Rightarrow> text_redacted t)\<rparr>)"

definition create_tool_call :: "tool_row \<Rightarrow> tool_db \<Rightarrow> string + tool_db" where
  "create_tool_call c db =
     (if tool_call_allowed c db then Inr (db\<lparr>tb_calls := tb_calls db @ [stored_call c]\<rparr>) else Inl constraint_failed)"

definition find_tool_call :: "jstr \<Rightarrow> tool_db \<Rightarrow> tool_row option" where
  "find_tool_call i db = find (\<lambda>c. tc_id c = i) (tb_calls db)"

definition calls_of_turn :: "jstr \<Rightarrow> tool_db \<Rightarrow> tool_row list" where
  "calls_of_turn t db = sort_key tc_created (sort_key tc_id (filter (\<lambda>c. tc_turn c = t) (tb_calls db)))"

section \<open>Audit\<close>

definition audit_levels :: "jstr list" where
  "audit_levels = map lit [''summary'', ''redacted_full'', ''full'']"

definition stored_audit :: "tool_audit_row \<Rightarrow> tool_audit_row" where
  "stored_audit a = a\<lparr>au_summary := redact_text (au_summary a), au_details := map_option (redact_value None) (au_details a),
     au_redacted := au_redacted a \<or> text_redacted (au_summary a)
       \<or> (case au_details a of None \<Rightarrow> False | Some v \<Rightarrow> value_redacted None v)\<rparr>"

definition create_audit :: "tool_audit_row \<Rightarrow> tool_db \<Rightarrow> string + tool_db" where
  "create_audit a db =
     (if au_id a \<notin> au_id ` set (tb_audit db) \<and> au_level a \<in> set audit_levels
      then Inr (db\<lparr>tb_audit := tb_audit db @ [stored_audit a]\<rparr>) else Inl constraint_failed)"

section \<open>Decisions of an evaluator\<close>

record tool_request =
  tq_id :: jstr
  tq_turn :: jstr
  tq_user :: "jstr option"
  tq_class :: jstr
  tq_context :: jstr
  tq_sources :: "jstr list"
  tq_summary :: jstr
  tq_created :: "int option"
  tq_tool :: jstr
  tq_capabilities :: "jstr list"
  tq_input :: jval

definition non_empty_text :: "jval \<Rightarrow> bool" where
  "non_empty_text v \<longleftrightarrow> (case v of JStr s \<Rightarrow> js_trim s \<noteq> [] | _ \<Rightarrow> False)"

fun date_of :: "jval \<Rightarrow> int option" where
  "date_of (JDate t) = t"
| "date_of v = None"

definition constraint_number_ok :: "jval \<Rightarrow> bool" where
  "constraint_number_ok v \<longleftrightarrow> (case v of JUndefined \<Rightarrow> True | JNum n \<Rightarrow> is_finite n \<and> \<not> js_less n (JInt 0) | _ \<Rightarrow> False)"

definition constraints_finite :: "jval \<Rightarrow> bool" where
  "constraints_finite r \<longleftrightarrow>
     (let c = path r [''additionalConstraints'']
      in \<not> truthy c \<or> (constraint_number_ok (path c [''maxRuntimeMs'']) \<and> constraint_number_ok (path c [''maxOutputBytes''])))"

definition timestamps_ordered :: "tool_request \<Rightarrow> jval \<Rightarrow> bool" where
  "timestamps_ordered q r \<longleftrightarrow>
     (case (tq_created q, date_of (path r [''decidedAt''])) of (Some c, Some d) \<Rightarrow> c \<le> d | _ \<Rightarrow> False)"

definition tool_evidence_error :: "tool_request \<Rightarrow> jval \<Rightarrow> ledger \<Rightarrow> string option" where
  "tool_evidence_error q r db =
     first_failing [(path r [''domain''] = text_val ''tool'', ''Evaluator evidence domain must be tool''),
       (path r [''requestId''] = JStr (tq_id q), ''Evaluator result request does not match evaluator request''),
       (non_empty_text (JStr (tq_id q)) \<and> non_empty_text (path r [''decisionId'']) \<and> non_empty_text (JStr (tq_turn q))
          \<and> non_empty_text (JStr (tq_tool q)) \<and> non_empty_text (path r [''evaluatorVersion''])
          \<and> (case path r [''reason''] of JStr s \<Rightarrow> True | _ \<Rightarrow> False), ''Evaluator evidence metadata is invalid''),
       ((case path r [''confidence''] of JNum n \<Rightarrow> unit_number n | _ \<Rightarrow> False), ''Evaluator confidence is invalid''),
       (constraints_finite r, ''Evaluator constraint metadata is invalid''),
       (timestamps_ordered q r, ''Evaluator timestamp metadata is invalid''),
       (find_turn_row (tq_turn q) db \<noteq> None, ''Evaluator request turn does not exist''),
       ((case find_turn_row (tq_turn q) db of None \<Rightarrow> False | Some t \<Rightarrow>
           list_all (\<lambda>s. non_empty_text (JStr s)) (tq_sources q) \<and> at_trigger t \<in> set (tq_sources q)),
        ''Evaluator source events must include the turn trigger event''),
       (list_all (\<lambda>s. s \<in> set (lg_events db)) (tq_sources q), ''Evaluator source event does not exist'')]"

definition invocation_value :: "jval \<Rightarrow> jstr option" where
  "invocation_value r = (case path r [''modelInvocationId''] of JStr s \<Rightarrow> Some s | _ \<Rightarrow> None)"

definition tool_binding :: "tool_request \<Rightarrow> jval \<Rightarrow> binding_evidence" where
  "tool_binding q r = \<lparr>be_request = tq_id q, be_domain = lit ''tool'', be_turn = Some (tq_turn q), be_attempt = None,
     be_created = tq_created q, be_sources = map JStr (tq_sources q), be_result_request = string_of (path r [''requestId'']),
     be_result_domain = string_of (path r [''domain'']), be_decided = date_of (path r [''decidedAt'']),
     be_version = string_of (path r [''evaluatorVersion'']), be_invocation = invocation_value r\<rparr>"

definition tool_decision_row_of :: "tool_request \<Rightarrow> jval \<Rightarrow> tool_decision_row" where
  "tool_decision_row_of q r = \<lparr>td_id = string_of (path r [''decisionId'']), td_request = string_of (path r [''requestId'']),
     td_turn = tq_turn q, td_decision = string_of (path r [''decision'']),
     td_reason = sanitize_narrative (string_of (path r [''reason''])), td_confidence = number_of (path r [''confidence'']),
     td_risk = string_of (path r [''riskLevel'']), td_version = string_of (path r [''evaluatorVersion'']),
     td_invocation = invocation_value r, td_tool = tq_tool q, td_user = tq_user q, td_class = tq_class q,
     td_context = tq_context q, td_sources = tq_sources q, td_requested = value_or (tq_created q) 0,
     td_decided = value_or (date_of (path r [''decidedAt''])) 0\<rparr>"

definition decision_words :: "jstr list" where
  "decision_words = map lit [''approve'', ''reject'', ''downgrade'', ''propose'']"

definition risk_words :: "jstr list" where
  "risk_words = map lit [''low'', ''medium'', ''high'', ''prohibited'']"

definition actor_words :: "jstr list" where
  "actor_words = map lit [''owner'', ''admin'', ''trusted_user'', ''user'', ''group_admin'', ''system_worker'', ''evaluator'', ''tool'']"

definition context_words :: "jstr list" where
  "context_words = map lit [''private_chat'', ''group_chat'', ''admin_cli'', ''background_worker'', ''internal'']"

definition tool_decision_allowed :: "tool_decision_row \<Rightarrow> tool_db \<Rightarrow> bool" where
  "tool_decision_allowed d db \<longleftrightarrow>
     list_all (\<lambda>o'. td_id o' \<noteq> td_id d \<and> td_request o' \<noteq> td_request d) (tb_decisions db)
     \<and> td_decision d \<in> set decision_words \<and> td_risk d \<in> set risk_words \<and> td_class d \<in> set actor_words
     \<and> td_context d \<in> set context_words"

definition create_tool_decision :: "tool_request \<Rightarrow> jval \<Rightarrow> int \<Rightarrow> tool_db \<Rightarrow> string + (tool_db \<times> jstr)" where
  "create_tool_decision q r now db =
     (case tool_evidence_error q r (tb_ledger db) of
        Some e \<Rightarrow> Inl e
      | None \<Rightarrow>
          if path r [''modelInvocationId''] \<noteq> JUndefined \<and> invocation_value r = None
          then Inl ''Evaluator model invocation id is invalid''
          else (case binding_check (tool_binding q r) now (tb_ledger db) of
                  Some e \<Rightarrow> Inl e
                | None \<Rightarrow>
                    let d = tool_decision_row_of q r
                    in if tool_decision_allowed d db
                       then Inr (db\<lparr>tb_decisions := tb_decisions db @ [d],
                                    tb_ledger := (tb_ledger db)\<lparr>lg_linked := lg_linked (tb_ledger db)
                                      @ (case td_invocation d of None \<Rightarrow> [] | Some i \<Rightarrow> [i])\<rparr>\<rparr>, td_id d)
                       else Inl constraint_failed))"

end
