(* ===== verification/Tool_Execution.thy ===== *)
theory Tool_Execution
  imports Tool_Evidence
begin

text \<open>
  The execution of a tool call of the model: the \<open>execute\<close> function that \<open>convertTools\<close> of
  \<open>src/pi/pi-adapter.ts\<close> gives every tool, with \<open>evaluateRequiredTool\<close>, \<open>auditToolCall\<close>,
  \<open>buildToolTerminalEvidence\<close> and \<open>formatToolResult\<close>, the runtime guard of
  \<open>src/tools/runtime-limit.ts\<close>, the prepared effects of \<open>src/tools/prepared-local-effect.ts\<close> and the
  transactions of \<open>src/storage/local-tool-effect-coordinator.ts\<close>.

  The evaluator, the handlers and what other tasks do while the decision is awaited are arguments;
  each may change the registry, the tables and the rest of the state.  A handler reports what it
  returned or threw, the aborts that reached its signal in their order and the time it took.  The texts
  of \<open>JSON.stringify(v, null, 2)\<close> and \<open>String(v)\<close> are arguments.
\<close>

section \<open>The runtime guard\<close>

datatype runtime_failure = RuntimeAborted | RuntimeExpired

record runtime_guard =
  rg_failure :: "runtime_failure option"
  rg_max :: "int option"

definition guard_abort :: "runtime_failure \<Rightarrow> runtime_guard \<Rightarrow> runtime_guard" where
  "guard_abort k g = (if rg_failure g \<noteq> None then g else g\<lparr>rg_failure := Some k\<rparr>)"

definition start_guard :: "bool \<Rightarrow> int option \<Rightarrow> runtime_guard" where
  "start_guard aborted limit =
     (let g = \<lparr>rg_failure = None, rg_max = limit\<rparr> in if aborted then guard_abort RuntimeAborted g else g)"

definition guard_check :: "int \<Rightarrow> runtime_guard \<Rightarrow> runtime_guard" where
  "guard_check elapsed g =
     (if rg_failure g = None \<and> (case rg_max g of None \<Rightarrow> False | Some m \<Rightarrow> m \<le> elapsed)
      then guard_abort RuntimeExpired g else g)"

fun failure_status :: "runtime_failure \<Rightarrow> jstr" where
  "failure_status RuntimeExpired = lit ''timeout''"
| "failure_status RuntimeAborted = lit ''error''"

fun failure_code :: "runtime_failure \<Rightarrow> jstr" where
  "failure_code RuntimeExpired = lit ''TOOL_RUNTIME_LIMIT_EXCEEDED''"
| "failure_code RuntimeAborted = lit ''TOOL_EXECUTION_ABORTED''"

fun failure_message :: "runtime_failure \<Rightarrow> jstr" where
  "failure_message RuntimeExpired = lit ''Tool runtime limit exceeded''"
| "failure_message RuntimeAborted = lit ''Tool execution aborted''"

section \<open>The world of a call\<close>

record 'w tool_world =
  tw_registry :: tool_registry
  tw_db :: tool_db
  tw_state :: 'w
  tw_used :: "nat list"
  tw_recorded :: "jstr list"

datatype 'w handler_result = Returned jval | Prepared nat jval "'w \<Rightarrow> jstr + 'w" | Threw jstr

record handler_request =
  hr_call :: jstr
  hr_turn :: "jstr option"
  hr_tool :: jstr
  hr_input :: jval
  hr_actor :: actor_context
  hr_context :: jstr
  hr_decision :: "jstr option"
  hr_sources :: "jstr list option"

record 'w run_report =
  rr_world :: "'w tool_world"
  rr_result :: "'w handler_result"
  rr_aborts :: "runtime_failure list"
  rr_elapsed :: int

datatype evaluator_answer = EvaluatorThrew | EvaluatorSaid tool_request jval

record 'w exec_tools =
  xe_json :: json_env
  xe_pretty :: "jval \<Rightarrow> jstr"
  xe_string :: "jval \<Rightarrow> jstr"
  xe_evaluator :: "(tool_request \<Rightarrow> 'w tool_world \<Rightarrow> 'w tool_world \<times> evaluator_answer) option"
  xe_between :: "'w tool_world \<Rightarrow> 'w tool_world"
  xe_handler :: "nat \<Rightarrow> handler_request \<Rightarrow> 'w tool_world \<Rightarrow> 'w run_report"
  xe_calls :: bool
  xe_audits :: bool
  xe_coordinator :: bool

record tool_run =
  xr_entry :: tool_entry
  xr_call :: jstr
  xr_params :: jval
  xr_actor :: actor_context
  xr_context :: jstr
  xr_turn :: "jstr option"
  xr_sources :: "jstr list"
  xr_summary :: jstr
  xr_live :: bool
  xr_aborted :: bool
  xr_before :: int
  xr_started :: int
  xr_later :: int
  xr_request :: jstr
  xr_audit :: "nat \<Rightarrow> jstr"

definition run_tool :: "tool_run \<Rightarrow> jstr" where
  "run_tool x = te_name (xr_entry x)"

definition gate_of :: "tool_run \<Rightarrow> 'w tool_world \<Rightarrow> gate_result" where
  "gate_of x w = check_tool_call (run_tool x) (xr_actor x) (xr_context x) (tw_registry w)"

definition record_call :: "jstr \<Rightarrow> 'w tool_world \<Rightarrow> 'w tool_world" where
  "record_call i w = w\<lparr>tw_recorded := (if i \<in> set (tw_recorded w) then tw_recorded w else tw_recorded w @ [i])\<rparr>"

section \<open>Evidence\<close>

definition rx_marker_any :: rx where
  "rx_marker_any = rx_seq [rx_lit (lit ''[REDACTED:''), Rep 1 None (One (\<lambda>c. c \<noteq> 93)), rx_lit (lit '']'')]"

definition marked_text :: "jstr \<Rightarrow> bool" where
  "marked_text s \<longleftrightarrow> redact_text s \<noteq> s \<or> rx_test rx_marker_any (redact_text s)"

fun redact_structured :: "jstr option \<Rightarrow> jval \<Rightarrow> jval" where
  "redact_structured k (JStr s) = JStr (redact_text s)"
| "redact_structured k (JNum n) = (if numeric_identifier k n then JStr redaction_mark else JNum n)"
| "redact_structured k (JArr vs) = JArr (map (redact_structured k) vs)"
| "redact_structured k (JObj fs) =
     JObj (from_entries (map (\<lambda>(f, v). (redact_text f, redact_structured (Some f) v)) fs))"
| "redact_structured k (JDate d) = JObj []"
| "redact_structured k v = v"

fun marked_value :: "jstr option \<Rightarrow> jval \<Rightarrow> bool" where
  "marked_value k (JStr s) = marked_text s"
| "marked_value k (JNum n) = numeric_identifier k n"
| "marked_value k (JArr vs) = list_ex (marked_value k) vs"
| "marked_value k (JObj fs) = list_ex (\<lambda>(f, v). marked_text f \<or> marked_value (Some f) v) fs"
| "marked_value k v = False"

record tool_audit =
  ta_status :: jstr
  ta_summary :: jstr
  ta_output :: "jval option"
  ta_message :: "jstr option"
  ta_code :: "jstr option"
  ta_decided :: "jstr option"
  ta_timed :: bool
  ta_redacted :: bool

definition high_capabilities :: "jstr list" where
  "high_capabilities = map lit [''shell_exec'', ''credential_access'', ''platform_admin'', ''write_local'', ''external_side_effect'']"

definition tool_risk :: "tool_entry \<Rightarrow> jstr" where
  "tool_risk t =
     (if te_evaluator t = lit ''required'' \<or> list_ex (\<lambda>c. c \<in> set high_capabilities) (te_capabilities t) then lit ''high''
      else if te_sensitivity t = lit ''sensitive'' \<or> te_sensitivity t = lit ''secret_possible'' then lit ''medium''
      else lit ''low'')"

definition audit_level :: "jstr \<Rightarrow> bool \<Rightarrow> jstr" where
  "audit_level configured redacted =
     (if redacted then lit ''redacted_full'' else if configured = lit ''none'' then lit ''summary'' else configured)"

definition audit_type :: "jstr \<Rightarrow> jstr" where
  "audit_type status =
     (if status = lit ''success'' then lit ''tool.executed'' else if status = lit ''rejected'' then lit ''tool.rejected''
      else lit ''tool.failed'')"

definition default_code :: "jstr \<Rightarrow> jstr option" where
  "default_code status =
     (if status = lit ''success'' then None else if status = lit ''rejected'' then Some (lit ''TOOL_REJECTED'')
      else if status = lit ''timeout'' then Some (lit ''TOOL_TIMEOUT'') else Some (lit ''TOOL_ERROR''))"

definition given :: "string \<Rightarrow> jval option \<Rightarrow> (string \<times> jval) list" where
  "given k v = (case v of None \<Rightarrow> [] | Some u \<Rightarrow> if u = JUndefined then [] else [(k, u)])"

text \<open>The group of an actor, unless it is missing or empty.\<close>

definition group_field :: "actor_context \<Rightarrow> (string \<times> jval) list" where
  "group_field a = (case ac_group a of None \<Rightarrow> [] | Some g \<Rightarrow> if g = [] then [] else [(''groupId'', JStr g)])"

definition evidence_details :: "tool_run \<Rightarrow> tool_audit \<Rightarrow> bool \<Rightarrow> jval \<Rightarrow> jval" where
  "evidence_details x a redacted params =
     (let shared = [(''toolName'', JStr (run_tool x)), (''status'', JStr (ta_status a)),
            (''capabilities'', JArr (map JStr (te_capabilities (xr_entry x))))] @ group_field (xr_actor x)
      in if audit_level (te_audit (xr_entry x)) redacted = lit ''summary''
         then obj (shared @ [(''redactionApplied'', JBool redacted)] @ given ''errorMessage'' (map_option JStr (ta_message a)))
         else obj (shared @ given ''input'' (Some params) @ given ''output'' (ta_output a)
                   @ given ''errorMessage'' (map_option JStr (ta_message a)) @ [(''redactionApplied'', JBool redacted)]))"

definition evidence_redacted :: "tool_run \<Rightarrow> tool_audit \<Rightarrow> bool" where
  "evidence_redacted x a \<longleftrightarrow> ta_redacted a \<or> marked_value None (xr_params x)"

definition evidence_call :: "tool_run \<Rightarrow> tool_audit \<Rightarrow> tool_row option" where
  "evidence_call x a =
     (case xr_turn x of
        None \<Rightarrow> None
      | Some t \<Rightarrow>
          if t = [] then None
          else Some \<lparr>tc_id = xr_call x, tc_turn = t, tc_decision = ta_decided a, tc_tool = run_tool x,
             tc_input = redact_structured None (xr_params x), tc_output = ta_output a, tc_requested_by = lit ''pi'',
             tc_user = ac_user (xr_actor x), tc_class = ac_class (xr_actor x), tc_context = xr_context x,
             tc_status = ta_status a, tc_code = (case ta_code a of None \<Rightarrow> default_code (ta_status a) | Some c \<Rightarrow> Some c),
             tc_message = ta_message a, tc_time = (if ta_timed a then Some (xr_later x - xr_started x) else None),
             tc_redacted = evidence_redacted x a, tc_created = xr_later x\<rparr>)"

definition evidence_audit :: "nat \<Rightarrow> tool_run \<Rightarrow> tool_audit \<Rightarrow> tool_audit_row" where
  "evidence_audit n x a =
     (let redacted = evidence_redacted x a; level = audit_level (te_audit (xr_entry x)) redacted
      in \<lparr>au_id = xr_audit x n, au_time = xr_later x, au_category = lit ''tool'', au_level = level,
          au_type = audit_type (ta_status a), au_event = xr_call x, au_user = ac_user (xr_actor x),
          au_class = ac_class (xr_actor x), au_context = xr_context x, au_summary = ta_summary a,
          au_details = Some (evidence_details x a redacted (redact_structured None (xr_params x))),
          au_redacted = (redacted \<or> level = lit ''redacted_full''), au_risk = Some (tool_risk (xr_entry x)),
          au_decision = ta_decided a\<rparr>)"

section \<open>Persistence\<close>

definition persist_pair :: "tool_row \<Rightarrow> tool_audit_row \<Rightarrow> tool_db \<Rightarrow> string + tool_db" where
  "persist_pair c a db = (case create_tool_call c db of Inl e \<Rightarrow> Inl e | Inr db' \<Rightarrow> create_audit a db')"

datatype 'w audit_mode = PlainAudit | AtomicAudit | EffectAudit nat "'w \<Rightarrow> jstr + 'w"

definition needs_coordinator :: string where
  "needs_coordinator = ''atomic tool terminal persistence requires a coordinator and turn id''"

definition effect_needs_coordinator :: string where
  "effect_needs_coordinator = ''prepared local tool effect requires atomic terminal persistence''"

text \<open>One transaction: the effect, the call and its audit entry.  A consumed effect stays consumed.\<close>

definition commit_effect :: "nat \<Rightarrow> ('w \<Rightarrow> jstr + 'w) \<Rightarrow> tool_row \<Rightarrow> tool_audit_row \<Rightarrow> 'w tool_world \<Rightarrow> 'w tool_world \<times> jstr option" where
  "commit_effect p f c a w =
     (if p \<in> set (tw_used w) then (w, Some (lit ''prepared local tool effect already consumed''))
      else let w' = w\<lparr>tw_used := tw_used w @ [p]\<rparr>
           in case f (tw_state w) of
                Inl e \<Rightarrow> (w', Some e)
              | Inr s \<Rightarrow> (case persist_pair c a (tw_db w) of
                            Inl e \<Rightarrow> (w', Some (lit e))
                          | Inr db \<Rightarrow> (w'\<lparr>tw_state := s, tw_db := db\<rparr>, None)))"

definition audit_tool_call ::
  "'w exec_tools \<Rightarrow> tool_run \<Rightarrow> nat \<Rightarrow> 'w audit_mode \<Rightarrow> tool_audit \<Rightarrow> 'w tool_world \<Rightarrow> 'w tool_world \<times> jstr option" where
  "audit_tool_call e x n mode a w =
     (let entry = evidence_audit n x a
      in case mode of
           EffectAudit p f \<Rightarrow>
             (case evidence_call x a of
                Some c \<Rightarrow> if xe_coordinator e then commit_effect p f c entry w else (w, Some (lit effect_needs_coordinator))
              | None \<Rightarrow> (w, Some (lit effect_needs_coordinator)))
         | AtomicAudit \<Rightarrow>
             (case evidence_call x a of
                Some c \<Rightarrow>
                  if xe_coordinator e
                  then (case persist_pair c entry (tw_db w) of
                          Inl m \<Rightarrow> (w, Some (lit m)) | Inr db \<Rightarrow> (w\<lparr>tw_db := db\<rparr>, None))
                  else (w, Some (lit needs_coordinator))
              | None \<Rightarrow> (w, Some (lit needs_coordinator)))
         | PlainAudit \<Rightarrow>
             (case (case evidence_call x a of
                      Some c \<Rightarrow> if xe_calls e then create_tool_call c (tw_db w) else Inr (tw_db w)
                    | None \<Rightarrow> Inr (tw_db w)) of
                Inl m \<Rightarrow> (w, Some (lit m))
              | Inr db \<Rightarrow>
                  if \<not> xe_audits e then (w\<lparr>tw_db := db\<rparr>, None)
                  else (case create_audit entry db of
                          Inl m \<Rightarrow> (w\<lparr>tw_db := db\<rparr>, Some (lit m))
                        | Inr db' \<Rightarrow> (w\<lparr>tw_db := db'\<rparr>, None))))"

section \<open>The review of an evaluator\<close>

record refusal =
  rf_reason :: jstr
  rf_code :: jstr
  rf_decision :: "jstr option"

definition refuse :: "string \<Rightarrow> string \<Rightarrow> refusal" where
  "refuse reason code = \<lparr>rf_reason = lit reason, rf_code = lit code, rf_decision = None\<rparr>"

definition upper_text :: "jstr \<Rightarrow> jstr" where
  "upper_text s = map (\<lambda>c. if 97 \<le> c \<and> c \<le> 122 then c - 32 else c) s"

text \<open>A field that is one of some words.\<close>

definition one_of_words :: "jstr list \<Rightarrow> jval \<Rightarrow> bool" where
  "one_of_words ws' v \<longleftrightarrow> (case v of JStr s \<Rightarrow> s \<in> set ws' | _ \<Rightarrow> False)"

fun filled :: "jval \<Rightarrow> bool" where
  "filled (JStr s) = (s \<noteq> [])"
| "filled v = False"

definition valid_tool_result :: "jval \<Rightarrow> jstr \<Rightarrow> bool" where
  "valid_tool_result r request \<longleftrightarrow> path r [''domain''] = text_val ''tool'' \<and> filled (path r [''decisionId''])
     \<and> path r [''requestId''] = JStr request \<and> one_of_words decision_words (path r [''decision''])
     \<and> (case path r [''reason''] of JStr s \<Rightarrow> True | _ \<Rightarrow> False)
     \<and> (case path r [''confidence''] of JNum n \<Rightarrow> unit_number n | _ \<Rightarrow> False)
     \<and> one_of_words risk_words (path r [''riskLevel'']) \<and> date_of (path r [''decidedAt'']) \<noteq> None
     \<and> filled (path r [''evaluatorVersion''])"

definition review_request :: "tool_run \<Rightarrow> jstr \<Rightarrow> tool_request" where
  "review_request x turn = \<lparr>tq_id = xr_request x, tq_turn = turn, tq_user = ac_user (xr_actor x), tq_class = ac_class (xr_actor x),
     tq_context = xr_context x, tq_sources = rev (remdups (rev (xr_sources x))), tq_summary = take 512 (xr_summary x),
     tq_created = Some (xr_started x), tq_tool = run_tool x, tq_capabilities = te_capabilities (xr_entry x),
     tq_input = xr_params x\<rparr>"

text \<open>What a recorded decision allows.\<close>

definition read_decision :: "jval \<Rightarrow> jstr \<Rightarrow> refusal + jstr" where
  "read_decision r d =
     (let refused = (\<lambda>reason code. Inl \<lparr>rf_reason = lit reason, rf_code = code, rf_decision = Some d\<rparr>)
      in if path r [''decision''] \<noteq> text_val ''approve''
         then refused ''Tool evaluator did not approve execution''
                (lit ''EVALUATOR_'' @ upper_text (string_of (path r [''decision''])))
         else if path r [''riskLevel''] = text_val ''prohibited''
         then refused ''Tool evaluator classified execution as prohibited'' (lit ''EVALUATOR_PROHIBITED'')
         else if path r [''modifiedToolInput''] \<noteq> JUndefined \<or> path r [''alternativeTool''] \<noteq> JUndefined
                 \<or> path r [''additionalConstraints''] \<noteq> JUndefined
         then refused ''Tool evaluator requested unsupported execution changes'' (lit ''EVALUATOR_CHANGES_UNSUPPORTED'')
         else Inr d)"

definition evaluate_required ::
  "'w exec_tools \<Rightarrow> tool_run \<Rightarrow> 'w tool_world \<Rightarrow> 'w tool_world \<times> (refusal + jstr)" where
  "evaluate_required e x w =
     (case xe_evaluator e of
        None \<Rightarrow> (w, Inl (refuse ''Tool requires evaluator review'' ''EVALUATOR_REQUIRED''))
      | Some ask \<Rightarrow>
          if xr_turn x = None \<or> xr_turn x = Some []
          then (w, Inl (refuse ''Tool evaluator review requires a current turn'' ''EVALUATOR_TURN_REQUIRED''))
          else if xr_sources x = [] \<or> list_ex (\<lambda>s. js_trim s = []) (xr_sources x)
          then (w, Inl (refuse ''Tool evaluator review requires source event evidence'' ''EVALUATOR_SOURCE_REQUIRED''))
          else if \<not> is_record (xr_params x)
          then (w, Inl (refuse ''Tool evaluator input must be a cloneable object'' ''EVALUATOR_INPUT_INVALID''))
          else let q = review_request x (the (xr_turn x))
               in case ask q w of
                    (w1, EvaluatorThrew) \<Rightarrow> (w1, Inl (refuse ''Tool evaluator review failed'' ''EVALUATOR_ERROR''))
                  | (w1, EvaluatorSaid q' r) \<Rightarrow>
                      if q' \<noteq> q
                      then (w1, Inl (refuse ''Tool evaluator mutated its review request'' ''EVALUATOR_REQUEST_MUTATED''))
                      else if \<not> valid_tool_result r (tq_id q)
                      then (w1, Inl (refuse ''Tool evaluator returned an invalid decision'' ''EVALUATOR_INVALID_RESULT''))
                      else (case create_tool_decision q r (xr_later x) (tw_db w1) of
                              Inl m \<Rightarrow> (w1, Inl (refuse ''Tool evaluator decision could not be recorded'' ''EVALUATOR_PERSISTENCE_ERROR''))
                            | Inr (db, d) \<Rightarrow>
                                if JStr d \<noteq> path r [''decisionId'']
                                then (w1\<lparr>tw_db := db\<rparr>, Inl (refuse ''Tool evaluator decision identity mismatch'' ''EVALUATOR_IDENTITY_MISMATCH''))
                                else (w1\<lparr>tw_db := db\<rparr>, read_decision r d)))"

section \<open>Results\<close>

datatype tool_result = ToolOutput jstr jval | ToolFailed jstr

definition format_tool_result :: "'w exec_tools \<Rightarrow> jval \<Rightarrow> jstr" where
  "format_tool_result e v =
     (case v of
        JStr s \<Rightarrow> s
      | JObj fs \<Rightarrow>
          (case (path v [''summary''], path v [''message''], path v [''output'']) of
             (JStr s, _, _) \<Rightarrow> s
           | (_, JStr s, _) \<Rightarrow> s
           | (_, _, JStr s) \<Rightarrow> s
           | (_, _, u) \<Rightarrow> if u \<noteq> JUndefined then xe_pretty e u else xe_pretty e v)
      | JArr vs \<Rightarrow> xe_pretty e v
      | JDate d \<Rightarrow> xe_pretty e v
      | _ \<Rightarrow> xe_string e v)"

definition output_limit :: "tool_entry \<Rightarrow> nat option" where
  "output_limit t = map_option nat (limit_value (sb_output (te_sandbox t)))"

definition limited_result :: "'w exec_tools \<Rightarrow> tool_run \<Rightarrow> jval \<Rightarrow> limited_output" where
  "limited_result e x v =
     limit_tool_output (xe_json e) (redact_text (format_tool_result e v)) (redact_structured None v) (output_limit (xr_entry x))"

definition result_redacted :: "'w exec_tools \<Rightarrow> jval \<Rightarrow> bool" where
  "result_redacted e v \<longleftrightarrow> marked_text (format_tool_result e v) \<or> marked_value None v"

definition failed_audit :: "jstr \<Rightarrow> jstr \<Rightarrow> jstr \<Rightarrow> jstr \<Rightarrow> jstr option \<Rightarrow> bool \<Rightarrow> tool_audit" where
  "failed_audit status summary message code decision redacted = \<lparr>ta_status = status, ta_summary = summary, ta_output = None,
     ta_message = Some message, ta_code = Some code, ta_decided = decision, ta_timed = True, ta_redacted = redacted\<rparr>"

definition success_audit :: "'w exec_tools \<Rightarrow> tool_run \<Rightarrow> jval \<Rightarrow> jstr option \<Rightarrow> tool_audit" where
  "success_audit e x v decision =
     (let out = limited_result e x v; redacted = result_redacted e v
      in \<lparr>ta_status = lit ''success'',
          ta_summary = run_tool x @ lit '' executed'' @ (if redacted then lit '' (redacted)'' else [])
            @ (if lo_truncated out then lit '' (output truncated)'' else []),
          ta_output = (if lo_durable out = JUndefined then None else Some (lo_durable out)), ta_message = None, ta_code = None,
          ta_decided = decision, ta_timed = True, ta_redacted = redacted\<rparr>)"

section \<open>Execution\<close>

text \<open>A call that is not executed: its evidence, then the reason, or the error of the evidence.\<close>

definition refuse_call :: "'w exec_tools \<Rightarrow> tool_run \<Rightarrow> tool_audit \<Rightarrow> jstr \<Rightarrow> 'w tool_world \<Rightarrow> 'w tool_world \<times> tool_result" where
  "refuse_call e x a reason w =
     (case audit_tool_call e x 0 PlainAudit a w of
        (w', Some m) \<Rightarrow> (w', ToolFailed m)
      | (w', None) \<Rightarrow> (record_call (xr_call x) w', ToolFailed reason))"

text \<open>Everything before the handler: \<open>Inr\<close> gives the world the handler will run in and the decision.\<close>

definition authorize_tool ::
  "'w exec_tools \<Rightarrow> tool_run \<Rightarrow> 'w tool_world \<Rightarrow> ('w tool_world \<times> tool_result) + ('w tool_world \<times> jstr option)" where
  "authorize_tool e x w =
     (case gate_of x w of
        GateDenied reason \<Rightarrow>
          Inl (refuse_call e x (failed_audit (lit ''rejected'') (run_tool x @ lit '' rejected: '' @ reason) reason
                 (lit ''POLICY_DENIED'') None False) reason w)
      | GateAllowed False \<Rightarrow> Inr (w, None)
      | GateAllowed True \<Rightarrow>
          (case evaluate_required e x w of
             (w1, Inl f) \<Rightarrow>
               Inl (refuse_call e x (failed_audit (lit ''rejected'') (run_tool x @ lit '' rejected by evaluator policy'') (rf_reason f)
                      (rf_code f) (rf_decision f) False) (rf_reason f) (xe_between e w1))
           | (w1, Inr d) \<Rightarrow>
               let w2 = xe_between e w1
               in case gate_of x w2 of
                    GateDenied reason \<Rightarrow>
                      Inl (refuse_call e x (failed_audit (lit ''rejected'') (run_tool x @ lit '' rejected after evaluator review'') reason
                             (lit ''POLICY_DENIED_AFTER_EVALUATION'') (Some d) False) reason w2)
                  | GateAllowed needs \<Rightarrow> Inr (w2, Some d)))"

text \<open>The failure of an execution that had begun.\<close>

definition fail_tool ::
  "'w exec_tools \<Rightarrow> tool_run \<Rightarrow> nat \<Rightarrow> bool \<Rightarrow> runtime_failure option \<Rightarrow> jstr \<Rightarrow> jstr option \<Rightarrow> 'w tool_world \<Rightarrow> 'w tool_world \<times> tool_result" where
  "fail_tool e x n atomic failure message decision w =
     (let m = redact_secrets (case failure of None \<Rightarrow> message | Some k \<Rightarrow> failure_message k);
          found = scan_memory (case failure of None \<Rightarrow> message | Some k \<Rightarrow> failure_message k) \<noteq> [];
          status = (case failure of None \<Rightarrow> lit ''error'' | Some k \<Rightarrow> failure_status k);
          code = (case failure of None \<Rightarrow> lit ''TOOL_HANDLER_ERROR'' | Some k \<Rightarrow> failure_code k)
      in case audit_tool_call e x n (if atomic then AtomicAudit else PlainAudit)
                (failed_audit status (run_tool x @ lit '' failed: '' @ m) m code decision found) w of
           (w', Some err) \<Rightarrow> (w', ToolFailed err)
         | (w', None) \<Rightarrow> (record_call (xr_call x) w', ToolFailed m))"

definition complete_tool ::
  "'w exec_tools \<Rightarrow> tool_run \<Rightarrow> jval \<Rightarrow> (nat \<times> ('w \<Rightarrow> jstr + 'w)) option \<Rightarrow> jstr option \<Rightarrow> 'w tool_world \<Rightarrow> 'w tool_world \<times> tool_result" where
  "complete_tool e x v prepared decision w =
     (case audit_tool_call e x 0 (case prepared of None \<Rightarrow> PlainAudit | Some (p, f) \<Rightarrow> EffectAudit p f)
             (success_audit e x v decision) (record_call (xr_call x) w) of
        (w', Some m) \<Rightarrow> fail_tool e x 1 (prepared \<noteq> None) None m decision w'
      | (w', None) \<Rightarrow> (w', ToolOutput (lo_prompt (limited_result e x v)) (lo_durable (limited_result e x v))))"

definition handler_call :: "tool_run \<Rightarrow> jstr option \<Rightarrow> handler_request" where
  "handler_call x decision = \<lparr>hr_call = xr_call x, hr_turn = xr_turn x, hr_tool = run_tool x, hr_input = xr_params x,
     hr_actor = xr_actor x, hr_context = xr_context x, hr_decision = decision,
     hr_sources = (if xr_sources x = [] then None else Some (xr_sources x))\<rparr>"

text \<open>What follows a handler: the abort or the time limit that stopped it, what it threw or what it returned.\<close>

definition finish_handler ::
  "'w exec_tools \<Rightarrow> tool_run \<Rightarrow> jstr option \<Rightarrow> runtime_guard \<Rightarrow> 'w run_report \<Rightarrow> 'w tool_world \<times> tool_result" where
  "finish_handler e x decision g rep =
     (let w = rr_world rep; stop = rg_failure (guard_check (rr_elapsed rep) (foldl (\<lambda>g k. guard_abort k g) g (rr_aborts rep)))
      in case rr_result rep of
           Threw m \<Rightarrow> fail_tool e x 0 False stop m decision w
         | Returned v \<Rightarrow>
             if stop \<noteq> None then fail_tool e x 0 False stop [] decision w else complete_tool e x v None decision w
         | Prepared p v f \<Rightarrow>
             if stop \<noteq> None then fail_tool e x 0 True stop [] decision w else complete_tool e x v (Some (p, f)) decision w)"

definition run_handler ::
  "'w exec_tools \<Rightarrow> tool_run \<Rightarrow> jstr option \<Rightarrow> 'w tool_world \<Rightarrow> 'w tool_world \<times> handler_request list \<times> tool_result" where
  "run_handler e x decision w =
     (case get_handler (run_tool x) (tw_registry w) of
        None \<Rightarrow>
          let reason = lit ''No resolved function handler for tool: '' @ run_tool x
          in (case refuse_call e x (failed_audit (lit ''error'') (run_tool x @ lit '' failed: missing handler'') reason
                     (lit ''HANDLER_NOT_FOUND'') decision False) reason w of (w', r) \<Rightarrow> (w', [], r))
      | Some h \<Rightarrow>
          let g = guard_check (xr_before x) (start_guard (xr_aborted x) (limit_value (sb_runtime (te_sandbox (xr_entry x)))));
              q = handler_call x decision
          in if rg_failure g \<noteq> None
             then (case fail_tool e x 0 False (rg_failure g) [] decision w of (w', r) \<Rightarrow> (w', [], r))
             else (case finish_handler e x decision g (xe_handler e h q w) of (w', r) \<Rightarrow> (w', [q], r)))"

definition execute_tool ::
  "'w exec_tools \<Rightarrow> tool_run \<Rightarrow> 'w tool_world \<Rightarrow> 'w tool_world \<times> handler_request list \<times> tool_result" where
  "execute_tool e x w =
     (if \<not> xr_live x then (w, [], ToolFailed (lit ''Tool is not available for the current turn''))
      else case authorize_tool e x w of
             Inl (w', r) \<Rightarrow> (w', [], r)
           | Inr (w', d) \<Rightarrow> run_handler e x d w')"

end
