(* ===== verification/Tool_Facts.thy ===== *)
theory Tool_Facts
  imports Tool_Execution
begin

text \<open>
  Facts on the execution of tools that the properties share: the registries a history reaches, what a
  review leaves behind when it allows a call, what one piece of evidence adds to the tables, and the
  transaction of a prepared effect.
\<close>

section \<open>Registries\<close>

lemma registry_ok_reachable: "registry_reachable e r \<Longrightarrow> registry_ok e r"
  unfolding registry_reachable_def
  by (induction rule: rtranclp_induct) (auto intro: registry_ok_empty registry_ok_step)

lemma registry_entry: "registry_ok e r \<Longrightarrow> (n, t) \<in> set (tr_tools r) \<Longrightarrow> te_name t = n \<and> entry_ok e t"
  unfolding registry_ok_def by blast

lemma get_tool_ok: "registry_ok e r \<Longrightarrow> get_tool n r = Some t \<Longrightarrow> te_name t = n \<and> entry_ok e t"
  unfolding get_tool_def by (rule registry_entry [OF _ map_of_SomeD])

lemma list_tools_ok:
  assumes "registry_ok e r" and "t \<in> set (list_tools r)"
  shows "get_tool (te_name t) r = Some t \<and> entry_ok e t"
proof -
  from assms(2) obtain n where n: "(n, t) \<in> set (tr_tools r)" by (auto simp: list_tools_def)
  with registry_entry [OF assms(1) n] assms(1) show ?thesis by (auto simp: get_tool_def registry_ok_def)
qed

text \<open>A call the gate lets through is one of a listed and enabled tool with a handler.\<close>

lemma check_permission_enabled: "check_permission n a c r \<Longrightarrow> tool_enabled n r"
  unfolding check_permission_def by (auto split: option.splits if_splits simp: Let_def)

lemma gate_allowed:
  assumes "check_tool_call n a c r = GateAllowed b"
  shows "check_permission n a c r" and "tool_enabled n r" and "b = tool_requires_evaluator n r"
    and "\<exists>t. get_tool n r = Some t \<and> supported_execution (sb_execution (te_sandbox t))"
  using assms check_permission_enabled unfolding check_tool_call_def by (auto split: option.splits if_splits)

lemma gate_handler: "registry_ok e r \<Longrightarrow> check_tool_call n a c r = GateAllowed b \<Longrightarrow> get_handler n r \<noteq> None"
  using gate_allowed(2,4) [of n a c r b] get_tool_ok [of e r n] by (fastforce simp: get_handler_def entry_ok_def)

section \<open>Names for a provider\<close>

lemma provider_name_map_extends:
  "provider_name_map sha m ns = Some m' \<Longrightarrow> distinct (map fst m) \<Longrightarrow>
     \<exists>ps. m' = m @ zip ps ns \<and> length ps = length ns \<and> distinct (map fst m')
       \<and> list_all2 (\<lambda>p n. to_provider_name sha n = Some p) ps ns"
proof (induction ns arbitrary: m)
  case (Cons n ns)
  from Cons.prems(1) obtain p where p: "to_provider_name sha n = Some p" "p \<notin> fst ` set m"
    and rest: "provider_name_map sha (m @ [(p, n)]) ns = Some m'"
    by (auto split: option.splits if_splits)
  have "distinct (map fst (m @ [(p, n)]))" using Cons.prems(2) p(2) by auto
  from Cons.IH [OF rest this] obtain ps where "m' = (m @ [(p, n)]) @ zip ps ns" "length ps = length ns"
    "distinct (map fst m')" "list_all2 (\<lambda>p n. to_provider_name sha n = Some p) ps ns" by blast
  with p(1) have "m' = m @ zip (p # ps) (n # ns) \<and> length (p # ps) = length (n # ns) \<and> distinct (map fst m')
      \<and> list_all2 (\<lambda>p n. to_provider_name sha n = Some p) (p # ps) (n # ns)" by simp
  then show ?case by blast
qed simp

lemma provider_names:
  assumes "provider_name_map sha [] ns = Some m" and "n \<in> set ns"
  shows "\<exists>p. to_provider_name sha n = Some p \<and> map_of m p = Some n"
proof -
  from provider_name_map_extends [OF assms(1)] obtain ps where m: "m = zip ps ns" "length ps = length ns" "distinct (map fst m)"
    and names: "list_all2 (\<lambda>p n. to_provider_name sha n = Some p) ps ns" by auto
  from assms(2) obtain i where i: "i < length ns" "n = ns ! i" by (auto simp: in_set_conv_nth)
  with names have "to_provider_name sha n = Some (ps ! i)" using list_all2_nthD2 by fastforce
  moreover have "(ps ! i, n) \<in> set m" using m i by (auto simp: set_zip)
  ultimately show ?thesis using m(3) by auto
qed

section \<open>Reviews\<close>

lemma read_decision_approved:
  "read_decision r d = Inr d' \<Longrightarrow> d' = d \<and> path r [''decision''] = text_val ''approve'' \<and> path r [''riskLevel''] \<noteq> text_val ''prohibited''"
  unfolding read_decision_def Let_def by (auto split: if_splits)

lemma read_decision_refused: "read_decision r d = Inl f \<Longrightarrow> rf_decision f = Some d"
  unfolding read_decision_def Let_def by (auto split: if_splits)

lemma create_tool_decision_row:
  assumes "create_tool_decision q r now db = Inr (db', d)"
  shows "tb_decisions db' = tb_decisions db @ [tool_decision_row_of q r]" and "d = td_id (tool_decision_row_of q r)"
    and "tb_calls db' = tb_calls db" and "tb_audit db' = tb_audit db"
    and "find_turn_row t (tb_ledger db') = find_turn_row t (tb_ledger db)"
  using assms unfolding create_tool_decision_def Let_def
  by (auto split: option.splits if_splits simp: find_turn_row_def)

text \<open>The stored decision a review rests on.\<close>

definition approving_row :: "tool_run \<Rightarrow> jstr \<Rightarrow> tool_decision_row \<Rightarrow> bool" where
  "approving_row x d row \<longleftrightarrow> td_id row = d \<and> td_decision row = lit ''approve'' \<and> td_risk row \<noteq> lit ''prohibited''
     \<and> xr_turn x = Some (td_turn row) \<and> td_tool row = run_tool x \<and> td_user row = ac_user (xr_actor x)
     \<and> td_class row = ac_class (xr_actor x) \<and> td_context row = xr_context x"

lemma string_of_words: "one_of_words words v \<Longrightarrow> v = JStr (string_of v)"
  by (cases v) (auto simp: one_of_words_def)

lemma row_approves:
  assumes "valid_tool_result r i" and "path r [''decision''] = text_val ''approve''"
    and "path r [''riskLevel''] \<noteq> text_val ''prohibited''" and "xr_turn x = Some t"
  shows "approving_row x (td_id (tool_decision_row_of (review_request x t) r)) (tool_decision_row_of (review_request x t) r)"
proof -
  have "path r [''riskLevel''] = JStr (string_of (path r [''riskLevel'']))"
    using assms(1) string_of_words unfolding valid_tool_result_def by blast
  then show ?thesis
    using assms by (auto simp: approving_row_def tool_decision_row_of_def review_request_def text_val_def)
qed

lemma evaluate_required_approved:
  assumes "evaluate_required e x w = (w', Inr d)"
  shows "\<exists>row \<in> set (tb_decisions (tw_db w')). approving_row x d row"
  using assms unfolding evaluate_required_def Let_def
  by (fastforce split: option.splits if_splits prod.splits evaluator_answer.splits sum.splits
      dest: read_decision_approved create_tool_decision_row(1,2) intro: row_approves)

section \<open>Evidence\<close>

lemma evidence_call_some: "xr_turn x = Some t \<Longrightarrow> t \<noteq> [] \<Longrightarrow> evidence_call x a \<noteq> None"
  by (simp add: evidence_call_def)

lemma evidence_call_fields:
  "evidence_call x a = Some c \<Longrightarrow> tc_id c = xr_call x \<and> xr_turn x = Some (tc_turn c) \<and> tc_status c = ta_status a
     \<and> tc_decision c = ta_decided a \<and> tc_requested_by c = lit ''pi'' \<and> tc_output c = ta_output a"
  unfolding evidence_call_def by (auto split: option.splits if_splits)

lemma stored_call_fields [simp]:
  "tc_id (stored_call c) = tc_id c" "tc_turn (stored_call c) = tc_turn c" "tc_status (stored_call c) = tc_status c"
  "tc_decision (stored_call c) = tc_decision c" "tc_tool (stored_call c) = tc_tool c"
  by (simp_all add: stored_call_def Let_def)

lemma evidence_audit_fields [simp]:
  "au_id (evidence_audit n x a) = xr_audit x n" "au_event (evidence_audit n x a) = xr_call x"
  "au_type (evidence_audit n x a) = audit_type (ta_status a)"
  "au_level (evidence_audit n x a) = audit_level (te_audit (xr_entry x)) (evidence_redacted x a)"
  by (simp_all add: evidence_audit_def Let_def)

lemma stored_audit_fields [simp]: "au_id (stored_audit a) = au_id a" "au_event (stored_audit a) = au_event a"
  "au_type (stored_audit a) = au_type a"
  by (simp_all add: stored_audit_def)

text \<open>The tables with the evidence of one call.\<close>

definition evidence_stored :: "tool_run \<Rightarrow> nat \<Rightarrow> tool_audit \<Rightarrow> tool_db \<Rightarrow> tool_db" where
  "evidence_stored x n a db = db\<lparr>tb_calls := tb_calls db @ [stored_call (the (evidence_call x a))],
     tb_audit := tb_audit db @ [stored_audit (evidence_audit n x a)]\<rparr>"

lemma persist_pair_adds:
  assumes "evidence_call x a = Some c" and "persist_pair c (evidence_audit n x a) db = Inr db'"
  shows "db' = evidence_stored x n a db"
  using assms unfolding persist_pair_def create_tool_call_def create_audit_def evidence_stored_def
  by (auto split: if_splits)

text \<open>The tables that take the evidence of a call.\<close>

definition known_levels :: "jstr list" where
  "known_levels = map lit [''none'', ''summary'', ''redacted_full'', ''full'']"

definition takes_evidence :: "tool_run \<Rightarrow> nat \<Rightarrow> tool_audit \<Rightarrow> tool_db \<Rightarrow> bool" where
  "takes_evidence x n a db \<longleftrightarrow> (\<exists>t. xr_turn x = Some t \<and> t \<noteq> [] \<and> find_turn_row t (tb_ledger db) \<noteq> None)
     \<and> xr_call x \<notin> tc_id ` set (tb_calls db) \<and> xr_audit x n \<notin> au_id ` set (tb_audit db)
     \<and> te_audit (xr_entry x) \<in> set known_levels \<and> ta_status a \<in> set statuses
     \<and> (case ta_decided a of None \<Rightarrow> True | Some d \<Rightarrow> d \<in> td_id ` set (tb_decisions db))"

lemma audit_level_known: "l \<in> set known_levels \<Longrightarrow> audit_level l b \<in> set audit_levels"
  by (auto simp: known_levels_def audit_level_def audit_levels_def)

lemma pi_requester: "lit ''pi'' \<in> set requesters"
  by (simp add: requesters_def)

lemma persist_pair_takes:
  assumes "takes_evidence x n a db"
  shows "persist_pair (the (evidence_call x a)) (evidence_audit n x a) db = Inr (evidence_stored x n a db)"
proof -
  from assms obtain t where t: "xr_turn x = Some t" "t \<noteq> []" "find_turn_row t (tb_ledger db) \<noteq> None"
    unfolding takes_evidence_def by blast
  obtain c where c: "evidence_call x a = Some c" using evidence_call_some [OF t(1,2)] by blast
  have "tool_call_allowed c db"
    using assms t evidence_call_fields [OF c] pi_requester by (auto simp: takes_evidence_def tool_call_allowed_def)
  moreover have "au_level (evidence_audit n x a) \<in> set audit_levels"
    using assms by (simp add: takes_evidence_def audit_level_known)
  ultimately show ?thesis
    using assms c by (simp add: persist_pair_def create_tool_call_def create_audit_def takes_evidence_def evidence_stored_def)
qed

text \<open>With the tables and the repositories there, every mode of recording adds the evidence and nothing else.\<close>

definition repositories :: "'w exec_tools \<Rightarrow> bool" where
  "repositories e \<longleftrightarrow> xe_calls e \<and> xe_audits e \<and> xe_coordinator e"

lemma takes_call: "takes_evidence x n a db \<Longrightarrow> evidence_call x a = Some (the (evidence_call x a))"
  unfolding takes_evidence_def using evidence_call_some by fastforce

lemma audit_recorded:
  assumes "repositories e" and "takes_evidence x n a (tw_db w)" and "mode = PlainAudit \<or> mode = AtomicAudit"
  shows "audit_tool_call e x n mode a w = (w\<lparr>tw_db := evidence_stored x n a (tw_db w)\<rparr>, None)"
proof -
  obtain c where c: "evidence_call x a = Some c" using takes_call [OF assms(2)] by blast
  have p: "persist_pair c (evidence_audit n x a) (tw_db w) = Inr (evidence_stored x n a (tw_db w))"
    using persist_pair_takes [OF assms(2)] c by simp
  from assms(3) show ?thesis
  proof
    assume "mode = PlainAudit"
    with p assms(1) c show ?thesis
      unfolding audit_tool_call_def repositories_def persist_pair_def
      by (cases "create_tool_call c (tw_db w)") (simp_all add: Let_def)
  next
    assume "mode = AtomicAudit"
    with p assms(1) c show ?thesis unfolding audit_tool_call_def repositories_def by simp
  qed
qed

lemma effect_recorded:
  assumes "repositories e" and "takes_evidence x n a (tw_db w)" and "p \<notin> set (tw_used w)"
  shows "audit_tool_call e x n (EffectAudit p f) a w =
     (case f (tw_state w) of
        Inl m \<Rightarrow> (w\<lparr>tw_used := tw_used w @ [p]\<rparr>, Some m)
      | Inr s \<Rightarrow> (w\<lparr>tw_used := tw_used w @ [p], tw_state := s, tw_db := evidence_stored x n a (tw_db w)\<rparr>, None))"
proof -
  obtain c where c: "evidence_call x a = Some c" using takes_call [OF assms(2)] by blast
  have p: "persist_pair c (evidence_audit n x a) (tw_db w) = Inr (evidence_stored x n a (tw_db w))"
    using persist_pair_takes [OF assms(2)] c by simp
  show ?thesis
    using p assms(1,3) c by (simp add: audit_tool_call_def repositories_def commit_effect_def Let_def split: sum.splits)
qed

end
