(* ===== verification/Tool_Theorems.thy ===== *)
theory Tool_Theorems
  imports Tool_Facts
begin

text \<open>
  What the execution of a tool call promises: a handler runs only for a call that the gate, and where
  the tool asks for it an evaluator, let through; a prepared effect and its record are there together or
  not at all; every call leaves one record; what the model and the tables get stays within the limit of
  the tool.
\<close>

section \<open>Authorisation\<close>

lemma authorized:
  assumes "authorize_tool e x w = Inr (w1, d)"
  shows "(d = None \<and> w1 = w \<and> gate_of x w = GateAllowed False)
     \<or> (\<exists>w0 d' needs. d = Some d' \<and> gate_of x w = GateAllowed True \<and> evaluate_required e x w = (w0, Inr d')
          \<and> w1 = xe_between e w0 \<and> gate_of x w1 = GateAllowed needs)"
  using assms unfolding authorize_tool_def Let_def
  by (auto split: gate_result.splits bool.splits prod.splits sum.splits)

lemma authorized_gate: "authorize_tool e x w = Inr (w1, d) \<Longrightarrow> \<exists>needs. gate_of x w1 = GateAllowed needs"
  using authorized by blast

lemma run_handler_request:
  assumes "run_handler e x d w = (w', q # qs, r)"
  shows "qs = [] \<and> q = handler_call x d \<and> (\<exists>h g. get_handler (run_tool x) (tw_registry w) = Some h
     \<and> finish_handler e x d g (xe_handler e h q w) = (w', r))"
  using assms unfolding run_handler_def Let_def
  by (cases "get_handler (run_tool x) (tw_registry w)") (auto split: if_splits prod.splits)

lemma handler_ran:
  assumes "execute_tool e x w = (w', q # qs, r)"
  shows "qs = [] \<and> xr_live x \<and> (\<exists>w1 d. authorize_tool e x w = Inr (w1, d) \<and> q = handler_call x d
     \<and> run_handler e x d w1 = (w', [q], r))"
proof (cases "authorize_tool e x w")
  case (Inr a)
  obtain w1 d where a: "a = (w1, d)" by (cases a)
  with assms Inr have "xr_live x" and "run_handler e x d w1 = (w', q # qs, r)"
    by (simp_all add: execute_tool_def split: if_splits)
  with run_handler_request [OF this(2)] Inr a show ?thesis by simp
qed (use assms in \<open>auto simp: execute_tool_def split: if_splits prod.splits\<close>)

text \<open>
  C32. A handler is invoked at most once by a call, only while the turn of the call is live, and only
  when the policy gate allows the tool to the actor in its context.  When the tool asks for a review, an
  evaluator's approval of this very call (its turn, tool, actor and context; not prohibited) is a stored
  decision before the handler runs, the handler gets its id, and the gate has allowed the call again
  after the review, in the registry as it then is; when no review took place, the tool asks for none.
\<close>

theorem tool_call_authorized:
  assumes "execute_tool e x w = (w', q # qs, r)"
  shows "qs = [] \<and> xr_live x \<and> hr_tool q = run_tool x \<and> hr_actor q = xr_actor x \<and> hr_context q = xr_context x
     \<and> check_permission (run_tool x) (xr_actor x) (xr_context x) (tw_registry w)
     \<and> (case hr_decision q of
          None \<Rightarrow> \<not> tool_requires_evaluator (run_tool x) (tw_registry w)
        | Some d \<Rightarrow> \<exists>w1. evaluate_required e x w = (w1, Inr d)
             \<and> (\<exists>row \<in> set (tb_decisions (tw_db w1)). approving_row x d row)
             \<and> check_permission (run_tool x) (xr_actor x) (xr_context x) (tw_registry (xe_between e w1)))"
proof -
  from handler_ran [OF assms] obtain w1 d where
    a: "authorize_tool e x w = Inr (w1, d)" and q: "q = handler_call x d" "qs = []" "xr_live x" by blast
  have fields: "hr_tool q = run_tool x" "hr_actor q = xr_actor x" "hr_context q = xr_context x" "hr_decision q = d"
    by (simp_all add: q handler_call_def)
  from authorized [OF a] show ?thesis
  proof (elim disjE exE conjE)
    assume d: "d = None" and g: "gate_of x w = GateAllowed False"
    from gate_allowed [OF g [unfolded gate_of_def]] show ?thesis by (simp add: fields q(2,3) d)
  next
    fix w0 d' needs
    assume d: "d = Some d'" and g: "gate_of x w = GateAllowed True" and ev: "evaluate_required e x w = (w0, Inr d')"
      and w1: "w1 = xe_between e w0" and g': "gate_of x w1 = GateAllowed needs"
    from gate_allowed(1) [OF g [unfolded gate_of_def]] gate_allowed(1) [OF g' [unfolded gate_of_def w1]]
      evaluate_required_approved [OF ev] ev
    show ?thesis by (simp add: fields q(2,3) d)
  qed
qed

section \<open>Prepared effects\<close>

lemma create_call_adds: "create_tool_call c db = Inr db' \<Longrightarrow> tb_calls db' = tb_calls db @ [stored_call c]"
  unfolding create_tool_call_def by (auto split: if_splits)

lemma create_audit_calls: "create_audit a db = Inr db' \<Longrightarrow> tb_calls db' = tb_calls db"
  unfolding create_audit_def by (auto split: if_splits)

lemma persist_pair_calls: "persist_pair c a db = Inr db' \<Longrightarrow> tb_calls db' = tb_calls db @ [stored_call c]"
  unfolding persist_pair_def by (cases "create_tool_call c db") (simp_all add: create_call_adds create_audit_calls)

text \<open>Recording without an effect adds at most the row of the call.\<close>

definition call_added :: "tool_run \<Rightarrow> tool_audit \<Rightarrow> 'w tool_world \<Rightarrow> 'w tool_world \<Rightarrow> bool" where
  "call_added x a w w' \<longleftrightarrow> tw_state w' = tw_state w \<and> tw_used w' = tw_used w
     \<and> (tb_calls (tw_db w') = tb_calls (tw_db w)
        \<or> (\<exists>c. tb_calls (tw_db w') = tb_calls (tw_db w) @ [stored_call c] \<and> evidence_call x a = Some c))"

lemma audit_atomic_added: "audit_tool_call e x n AtomicAudit a w = (w', err) \<Longrightarrow> call_added x a w w'"
  unfolding audit_tool_call_def Let_def call_added_def
  by (auto split: option.splits if_splits sum.splits dest: persist_pair_calls)

lemma audit_plain_added:
  assumes "audit_tool_call e x n PlainAudit a w = (w', err)"
  shows "call_added x a w w'"
proof -
  obtain s where s: "(case evidence_call x a of Some c \<Rightarrow> if xe_calls e then create_tool_call c (tw_db w) else Inr (tw_db w)
      | None \<Rightarrow> Inr (tw_db w)) = s" by blast
  have "call_added x a w (w\<lparr>tw_db := db\<rparr>)" if "s = Inr db" for db
    using s that by (auto simp: call_added_def split: option.splits if_splits dest: create_call_adds)
  moreover have "call_added x a w w" by (simp add: call_added_def)
  moreover have "call_added x a w (w\<lparr>tw_db := db'\<rparr>)"
    if "call_added x a w (w\<lparr>tw_db := db\<rparr>)" "create_audit y db = Inr db'" for db db' y
    using that by (auto simp: call_added_def dest: create_audit_calls)
  ultimately show ?thesis
    using assms s unfolding audit_tool_call_def Let_def
    by (cases s; cases "xe_audits e") (auto split: sum.splits)
qed

lemma fail_tool_state:
  assumes "fail_tool e x n atomic failure m d w = (w', r)"
  shows "(\<exists>t. r = ToolFailed t) \<and> tw_state w' = tw_state w \<and> tw_used w' = tw_used w
     \<and> (tb_calls (tw_db w') = tb_calls (tw_db w)
        \<or> (\<exists>c. tb_calls (tw_db w') = tb_calls (tw_db w) @ [c] \<and> tc_id c = xr_call x \<and> tc_status c \<noteq> lit ''success''))"
proof -
  obtain a mode w1 err where au: "audit_tool_call e x n mode a w = (w1, err)" and mode: "mode = PlainAudit \<or> mode = AtomicAudit"
    and status: "ta_status a \<noteq> lit ''success''" and w': "w' = (if err = None then record_call (xr_call x) w1 else w1)"
    and r: "\<exists>t. r = ToolFailed t"
  proof -
    define m' where "m' = (case failure of None \<Rightarrow> m | Some k \<Rightarrow> failure_message k)"
    define st where "st = (case failure of None \<Rightarrow> lit ''error'' | Some k \<Rightarrow> failure_status k)"
    define a where "a = failed_audit st (run_tool x @ lit '' failed: '' @ redact_secrets m') (redact_secrets m')
      (case failure of None \<Rightarrow> lit ''TOOL_HANDLER_ERROR'' | Some k \<Rightarrow> failure_code k) d (scan_memory m' \<noteq> [])"
    define mode where "mode = (if atomic then AtomicAudit else PlainAudit :: 'a audit_mode)"
    obtain w1 err where au: "audit_tool_call e x n mode a w = (w1, err)" by fastforce
    have "failure_status k \<noteq> lit ''success''" for k by (cases k) (simp_all add: lit_def)
    then have "ta_status a \<noteq> lit ''success''"
      by (simp add: a_def st_def failed_audit_def lit_def split: option.split)
    moreover have "w' = (if err = None then record_call (xr_call x) w1 else w1)" "\<exists>t. r = ToolFailed t"
      using assms au unfolding fail_tool_def Let_def a_def st_def m'_def mode_def by (auto split: option.splits)
    ultimately show thesis using that [OF au] by (simp add: mode_def)
  qed
  have "call_added x a w w1" using au mode audit_plain_added audit_atomic_added by metis
  then show ?thesis
    using w' r status by (auto simp: call_added_def record_call_def dest!: evidence_call_fields)
qed

lemma complete_effect:
  assumes "complete_tool e x v (Some (p, f)) d w = (w', r)"
  shows "(\<exists>t s c a. r = ToolOutput t s \<and> p \<notin> set (tw_used w) \<and> p \<in> set (tw_used w') \<and> f (tw_state w) = Inr (tw_state w')
        \<and> tb_calls (tw_db w') = tb_calls (tw_db w) @ [c] \<and> tc_id c = xr_call x \<and> tc_status c = lit ''success''
        \<and> tb_audit (tw_db w') = tb_audit (tw_db w) @ [a] \<and> au_event a = xr_call x)
     \<or> (\<exists>m. r = ToolFailed m \<and> tw_state w' = tw_state w
        \<and> (tb_calls (tw_db w') = tb_calls (tw_db w)
          \<or> (\<exists>c. tb_calls (tw_db w') = tb_calls (tw_db w) @ [c] \<and> tc_id c = xr_call x \<and> tc_status c \<noteq> lit ''success'')))"
proof -
  let ?a = "success_audit e x v d"
  have status: "ta_status ?a = lit ''success''" by (simp add: success_audit_def Let_def)
  obtain w1 o1 where au: "audit_tool_call e x 0 (EffectAudit p f) ?a (record_call (xr_call x) w) = (w1, o1)" by fastforce
  show ?thesis
  proof (cases o1)
    case (Some m)
    then have f: "fail_tool e x 1 True None m d w1 = (w', r)" using assms au by (simp add: complete_tool_def)
    have "tw_state w1 = tw_state w" and "tw_db w1 = tw_db w"
      using au Some by (auto simp: audit_tool_call_def commit_effect_def record_call_def Let_def
          split: option.splits if_splits sum.splits)
    with fail_tool_state [OF f] show ?thesis by simp
  next
    case None
    then have r: "r = ToolOutput (lo_prompt (limited_result e x v)) (lo_durable (limited_result e x v))" and "w' = w1"
      using assms au by (auto simp: complete_tool_def)
    from au None obtain c where c: "evidence_call x ?a = Some c"
      and ce: "commit_effect p f c (evidence_audit 0 x ?a) (record_call (xr_call x) w) = (w1, None)"
      by (auto simp: audit_tool_call_def Let_def split: option.splits if_splits)
    from ce obtain s db where "p \<notin> set (tw_used w)" "f (tw_state w) = Inr s"
      and db: "persist_pair c (evidence_audit 0 x ?a) (tw_db w) = Inr db"
      and "tw_state w1 = s" "tw_db w1 = db" "p \<in> set (tw_used w1)"
      by (auto simp: commit_effect_def record_call_def Let_def split: if_splits sum.splits)
    with r \<open>w' = w1\<close> c persist_pair_adds [OF c db] evidence_call_fields [OF c] status show ?thesis
      by (simp add: evidence_stored_def)
  qed
qed

text \<open>
  C33. The effect a handler prepared and the record of the call are one transaction.  Either the call
  succeeds: the effect is applied to the state the handler left, once, and the call with status success
  and its audit entry are the only rows added.  Or it fails: the state is the one the handler left, and
  no call with status success is added.
\<close>

theorem tool_effect_atomic:
  assumes "run_handler e x d w = (w', [q], r)" and "get_handler (run_tool x) (tw_registry w) = Some h"
    and "rep = xe_handler e h q w" and "rr_result rep = Prepared p v f"
  shows "(\<exists>t s c a. r = ToolOutput t s \<and> p \<notin> set (tw_used (rr_world rep)) \<and> p \<in> set (tw_used w')
        \<and> f (tw_state (rr_world rep)) = Inr (tw_state w')
        \<and> tb_calls (tw_db w') = tb_calls (tw_db (rr_world rep)) @ [c] \<and> tc_id c = xr_call x \<and> tc_status c = lit ''success''
        \<and> tb_audit (tw_db w') = tb_audit (tw_db (rr_world rep)) @ [a] \<and> au_event a = xr_call x)
     \<or> (\<exists>m. r = ToolFailed m \<and> tw_state w' = tw_state (rr_world rep)
        \<and> (tb_calls (tw_db w') = tb_calls (tw_db (rr_world rep))
          \<or> (\<exists>c. tb_calls (tw_db w') = tb_calls (tw_db (rr_world rep)) @ [c] \<and> tc_id c = xr_call x
               \<and> tc_status c \<noteq> lit ''success'')))"
proof -
  obtain g where "finish_handler e x d g rep = (w', r)" using run_handler_request [OF assms(1)] assms(2,3) by auto
  then consider (failed) n failure m where "fail_tool e x n True failure m d (rr_world rep) = (w', r)"
    | (complete) "complete_tool e x v (Some (p, f)) d (rr_world rep) = (w', r)"
    using assms(4) by (auto simp: finish_handler_def Let_def split: if_splits)
  then show ?thesis
  proof cases
    case failed
    from fail_tool_state [OF this] show ?thesis by blast
  next
    case complete
    from complete_effect [OF this] show ?thesis by blast
  qed
qed

end
