(* ===== verification/Tool_Recording.thy ===== *)
theory Tool_Recording
  imports Tool_Theorems
begin

text \<open>
  Every call of a tool leaves one row and one audit entry, whatever path it took, and what the model
  and the tables get of its result stays within the limit its entry declares.
\<close>

section \<open>Calls that can be recorded\<close>

text \<open>What an evaluator, a handler or another task leaves of the tables a record needs.\<close>

definition keeps_tables :: "tool_db \<Rightarrow> tool_db \<Rightarrow> bool" where
  "keeps_tables db db' \<longleftrightarrow> tb_calls db' = tb_calls db \<and> tb_audit db' = tb_audit db
     \<and> set (tb_decisions db) \<subseteq> set (tb_decisions db')
     \<and> (\<forall>t. find_turn_row t (tb_ledger db) \<noteq> None \<longrightarrow> find_turn_row t (tb_ledger db') \<noteq> None)"

definition quiet :: "'w exec_tools \<Rightarrow> bool" where
  "quiet e \<longleftrightarrow> (\<forall>ask q w. xe_evaluator e = Some ask \<longrightarrow> keeps_tables (tw_db w) (tw_db (fst (ask q w))))
     \<and> (\<forall>w. keeps_tables (tw_db w) (tw_db (xe_between e w)))
     \<and> (\<forall>h q w. keeps_tables (tw_db w) (tw_db (rr_world (xe_handler e h q w))))"

definition recordable :: "tool_run \<Rightarrow> tool_db \<Rightarrow> bool" where
  "recordable x db \<longleftrightarrow> (\<exists>t. xr_turn x = Some t \<and> t \<noteq> [] \<and> find_turn_row t (tb_ledger db) \<noteq> None)
     \<and> xr_call x \<notin> tc_id ` set (tb_calls db) \<and> xr_audit x 0 \<notin> au_id ` set (tb_audit db)
     \<and> xr_audit x 1 \<notin> au_id ` set (tb_audit db) \<and> te_audit (xr_entry x) \<in> set known_levels"

definition decided :: "jstr option \<Rightarrow> tool_db \<Rightarrow> bool" where
  "decided d db \<longleftrightarrow> (case d of None \<Rightarrow> True | Some i \<Rightarrow> i \<in> td_id ` set (tb_decisions db))"

lemma keeps_refl [simp]: "keeps_tables db db"
  by (simp add: keeps_tables_def)

lemma keeps_trans: "keeps_tables a b \<Longrightarrow> keeps_tables b c \<Longrightarrow> keeps_tables a c"
  unfolding keeps_tables_def by auto

lemma recordable_kept: "recordable x db \<Longrightarrow> keeps_tables db db' \<Longrightarrow> recordable x db'"
  unfolding recordable_def keeps_tables_def by auto

lemma decided_kept: "decided d db \<Longrightarrow> keeps_tables db db' \<Longrightarrow> decided d db'"
  unfolding decided_def keeps_tables_def by (auto split: option.splits)

lemma recordable_takes:
  "recordable x db \<Longrightarrow> n = 0 \<or> n = 1 \<Longrightarrow> ta_status a \<in> set statuses \<Longrightarrow> decided (ta_decided a) db \<Longrightarrow> takes_evidence x n a db"
  unfolding recordable_def takes_evidence_def decided_def by auto

section \<open>One record\<close>

definition recorded_once :: "tool_run \<Rightarrow> tool_db \<Rightarrow> 'w tool_world \<Rightarrow> tool_result \<Rightarrow> bool" where
  "recorded_once x db w' r \<longleftrightarrow> (\<exists>c a. tb_calls (tw_db w') = tb_calls db @ [c] \<and> tb_audit (tw_db w') = tb_audit db @ [a]
     \<and> tc_id c = xr_call x \<and> au_event a = xr_call x \<and> xr_call x \<in> set (tw_recorded w')
     \<and> (tc_status c = lit ''success'') = (\<exists>t s. r = ToolOutput t s) \<and> au_type a = audit_type (tc_status c))"

lemma evidence_once:
  assumes "takes_evidence x n a db" and "keeps_tables db0 db" and "tw_db w' = evidence_stored x n a db"
    and "xr_call x \<in> set (tw_recorded w')" and "(ta_status a = lit ''success'') = (\<exists>t s. r = ToolOutput t s)"
  shows "recorded_once x db0 w' r"
proof -
  from takes_call [OF assms(1)] have "evidence_call x a = Some (the (evidence_call x a))" .
  from evidence_call_fields [OF this] assms(2-) show ?thesis
    by (auto simp: recorded_once_def evidence_stored_def keeps_tables_def)
qed

lemma in_record_call [simp]: "i \<in> set (tw_recorded (record_call i w))" "tw_db (record_call i w) = tw_db w"
  "tw_used (record_call i w) = tw_used w"
  by (simp_all add: record_call_def)

lemma words_recorded:
  "lit ''rejected'' \<in> set statuses" "lit ''error'' \<in> set statuses" "lit ''success'' \<in> set statuses"
  "failure_status k \<in> set statuses" "lit ''rejected'' \<noteq> lit ''success''" "lit ''error'' \<noteq> lit ''success''"
  "failure_status k \<noteq> lit ''success''"
  by (cases k; simp add: statuses_def lit_def)+

lemma refuse_once:
  assumes "repositories e" and "keeps_tables db0 (tw_db w)" and "recordable x (tw_db w)"
    and "ta_status a \<in> set statuses" and "ta_status a \<noteq> lit ''success''" and "decided (ta_decided a) (tw_db w)"
    and "refuse_call e x a reason w = (w', r)"
  shows "recorded_once x db0 w' r"
proof -
  have t: "takes_evidence x 0 a (tw_db w)" using assms by (intro recordable_takes) simp_all
  from assms(7) audit_recorded [OF assms(1) t, of PlainAudit]
  have "w' = record_call (xr_call x) (w\<lparr>tw_db := evidence_stored x 0 a (tw_db w)\<rparr>)" "r = ToolFailed reason"
    by (simp_all add: refuse_call_def)
  then show ?thesis using assms(5) by (intro evidence_once [OF t assms(2)]) simp_all
qed

lemma rejected_once:
  assumes "repositories e" and "keeps_tables db0 (tw_db w)" and "recordable x (tw_db w)" and "decided d (tw_db w)"
    and "status = lit ''rejected'' \<or> status = lit ''error''"
    and "refuse_call e x (failed_audit status summary m code d red) reason w = (w', r)"
  shows "recorded_once x db0 w' r"
  by (rule refuse_once [OF assms(1,2,3) _ _ _ assms(6)]) (use assms(4,5) words_recorded in \<open>auto simp: failed_audit_def\<close>)

lemma fail_once:
  assumes "repositories e" and "keeps_tables db0 (tw_db w)" and "recordable x (tw_db w)" and "n = 0 \<or> n = 1"
    and "decided d (tw_db w)" and "fail_tool e x n atomic failure m d w = (w', r)"
  shows "recorded_once x db0 w' r"
proof -
  define m' where "m' = (case failure of None \<Rightarrow> m | Some k \<Rightarrow> failure_message k)"
  define st where "st = (case failure of None \<Rightarrow> lit ''error'' | Some k \<Rightarrow> failure_status k)"
  define a where "a = failed_audit st (run_tool x @ lit '' failed: '' @ redact_secrets m') (redact_secrets m')
    (case failure of None \<Rightarrow> lit ''TOOL_HANDLER_ERROR'' | Some k \<Rightarrow> failure_code k) d (scan_memory m' \<noteq> [])"
  have st: "ta_status a \<in> set statuses" "ta_status a \<noteq> lit ''success''" "ta_decided a = d"
    by (simp_all add: a_def st_def failed_audit_def words_recorded split: option.split)
  have t: "takes_evidence x n a (tw_db w)" using assms st by (intro recordable_takes) simp_all
  have "audit_tool_call e x n (if atomic then AtomicAudit else PlainAudit) a w
      = (w\<lparr>tw_db := evidence_stored x n a (tw_db w)\<rparr>, None)"
    by (rule audit_recorded [OF assms(1) t]) simp
  with assms(6) have "w' = record_call (xr_call x) (w\<lparr>tw_db := evidence_stored x n a (tw_db w)\<rparr>)"
      "r = ToolFailed (redact_secrets m')"
    by (simp_all add: fail_tool_def a_def st_def m'_def Let_def)
  then show ?thesis using st by (intro evidence_once [OF t assms(2)]) simp_all
qed

lemma complete_once:
  assumes "repositories e" and "keeps_tables db0 (tw_db w)" and "recordable x (tw_db w)" and "decided d (tw_db w)"
    and "complete_tool e x v prepared d w = (w', r)"
  shows "recorded_once x db0 w' r"
proof -
  let ?a = "success_audit e x v d" and ?w = "record_call (xr_call x) w"
  have st: "ta_status ?a = lit ''success''" "ta_decided ?a = d" by (simp_all add: success_audit_def Let_def)
  have t: "takes_evidence x 0 ?a (tw_db ?w)" using assms st words_recorded by (intro recordable_takes) simp_all
  have good: "recorded_once x db0 w' r"
    if "audit_tool_call e x 0 mode ?a ?w = (w1, None)" "tw_db w1 = evidence_stored x 0 ?a (tw_db ?w)"
       "tw_recorded w1 = tw_recorded ?w" "mode = (case prepared of None \<Rightarrow> PlainAudit | Some (p, f) \<Rightarrow> EffectAudit p f)" for w1 mode
  proof -
    from assms(5) that have "w' = w1" "\<exists>t s. r = ToolOutput t s" by (auto simp: complete_tool_def)
    with that(2,3) st show ?thesis by (intro evidence_once [OF t]) (simp_all add: assms(2))
  qed
  have bad: "recorded_once x db0 w' r"
    if "audit_tool_call e x 0 mode ?a ?w = (w1, Some m)" "tw_db w1 = tw_db ?w"
       "mode = (case prepared of None \<Rightarrow> PlainAudit | Some (p, f) \<Rightarrow> EffectAudit p f)" for w1 mode m
  proof (rule fail_once [OF assms(1), where w = w1])
    show "fail_tool e x 1 (prepared \<noteq> None) None m d w1 = (w', r)" using assms(5) that by (simp add: complete_tool_def)
  qed (use assms that(2) in simp_all)
  show ?thesis
  proof (cases prepared)
    case None
    have "audit_tool_call e x 0 PlainAudit ?a ?w = (?w\<lparr>tw_db := evidence_stored x 0 ?a (tw_db ?w)\<rparr>, None)"
      by (rule audit_recorded [OF assms(1) t]) simp
    then show ?thesis by (rule good) (simp_all add: None)
  next
    case (Some pf)
    obtain p f where pf: "prepared = Some (p, f)" using Some by (cases pf) simp
    show ?thesis
    proof (cases "p \<in> set (tw_used w)")
      case True
      obtain c where c: "evidence_call x ?a = Some c" using takes_call [OF t] by blast
      have "audit_tool_call e x 0 (EffectAudit p f) ?a ?w = (?w, Some (lit ''prepared local tool effect already consumed''))"
        using True assms(1) c by (simp add: audit_tool_call_def repositories_def commit_effect_def)
      then show ?thesis by (rule bad) (simp_all add: pf)
    next
      case False
      note er = effect_recorded [OF assms(1) t, of p f]
      show ?thesis
      proof (cases "f (tw_state ?w)")
        case (Inl m)
        with er False have "audit_tool_call e x 0 (EffectAudit p f) ?a ?w = (?w\<lparr>tw_used := tw_used ?w @ [p]\<rparr>, Some m)" by simp
        then show ?thesis by (rule bad) (simp_all add: pf)
      next
        case (Inr s)
        with er False have "audit_tool_call e x 0 (EffectAudit p f) ?a ?w
            = (?w\<lparr>tw_used := tw_used ?w @ [p], tw_state := s, tw_db := evidence_stored x 0 ?a (tw_db ?w)\<rparr>, None)" by simp
        then show ?thesis by (rule good) (simp_all add: pf)
      qed
    qed
  qed
qed

section \<open>Reviews and handlers\<close>

lemma create_tool_decision_keeps:
  "create_tool_decision q r now db = Inr (db', d) \<Longrightarrow> keeps_tables db db' \<and> decided (Some d) db'"
  using create_tool_decision_row [of q r now db db' d] by (auto simp: keeps_tables_def decided_def)

lemma evaluate_keeps:
  assumes "quiet e" and "evaluate_required e x w = (w', res)"
  shows "keeps_tables (tw_db w) (tw_db w') \<and> decided (case res of Inl f \<Rightarrow> rf_decision f | Inr d \<Rightarrow> Some d) (tw_db w')"
proof (cases "xe_evaluator e")
  case None
  then show ?thesis using assms(2) by (auto simp: evaluate_required_def refuse_def decided_def)
next
  case (Some ask)
  define q where "q = review_request x (the (xr_turn x))"
  obtain w1 answer where ask: "ask q w = (w1, answer)" by fastforce
  have k: "keeps_tables (tw_db w) (tw_db w1)" using assms(1) Some ask unfolding quiet_def by (metis fst_conv)
  note ev = assms(2)[unfolded evaluate_required_def Some option.case Let_def, folded q_def, unfolded ask]
  have no: "decided (rf_decision (refuse a b)) db" for a b db by (simp add: refuse_def decided_def)
  show ?thesis
  proof (cases answer)
    case EvaluatorThrew
    with ev k no show ?thesis by (auto split: if_splits)
  next
    case (EvaluatorSaid q' r)
    show ?thesis
    proof (cases "create_tool_decision q r (xr_later x) (tw_db w1)")
      case (Inl m)
      with ev EvaluatorSaid k no show ?thesis by (auto split: if_splits)
    next
      case (Inr dd)
      obtain db d where dd: "dd = (db, d)" by (cases dd)
      note kept = create_tool_decision_keeps [OF Inr [unfolded dd]]
      have k': "keeps_tables (tw_db w) db" using k kept keeps_trans by blast
      have read: "decided (case read_decision r d of Inl f \<Rightarrow> rf_decision f | Inr d \<Rightarrow> Some d) db"
        using kept by (cases "read_decision r d") (auto dest: read_decision_refused read_decision_approved)
      show ?thesis using ev EvaluatorSaid Inr dd k k' no read by (auto split: if_splits)
    qed
  qed
qed

lemma run_handler_once:
  assumes "repositories e" and "quiet e" and "keeps_tables db0 (tw_db w)" and "recordable x (tw_db w)" and "decided d (tw_db w)"
    and "run_handler e x d w = (w', qs, r)"
  shows "recorded_once x db0 w' r"
proof (cases "get_handler (run_tool x) (tw_registry w)")
  case None
  with assms(6) show ?thesis
    by (auto simp: run_handler_def Let_def split: prod.splits intro: rejected_once [OF assms(1,3,4,5)])
next
  case (Some h)
  define rep where "rep = xe_handler e h (handler_call x d) w"
  define g where "g = guard_check (xr_before x) (start_guard (xr_aborted x) (limit_value (sb_runtime (te_sandbox (xr_entry x)))))"
  have k: "keeps_tables (tw_db w) (tw_db (rr_world rep))" using assms(2) by (simp add: quiet_def rep_def)
  note kept = keeps_trans [OF assms(3) k] recordable_kept [OF assms(4) k] decided_kept [OF assms(5) k]
  have run: "run_handler e x d w = (if rg_failure g \<noteq> None
      then (case fail_tool e x 0 False (rg_failure g) [] d w of (w', r) \<Rightarrow> (w', [], r))
      else (case finish_handler e x d g rep of (w', r) \<Rightarrow> (w', [handler_call x d], r)))"
    using Some by (simp add: run_handler_def Let_def g_def rep_def)
  show ?thesis
  proof (cases "rg_failure g")
    case (Some k)
    with assms(6) run obtain "fail_tool e x 0 False (Some k) [] d w = (w', r)" by (auto split: prod.splits)
    then show ?thesis using assms by (intro fail_once [OF assms(1,3,4)]) simp_all
  next
    case None
    with assms(6) run have "finish_handler e x d g rep = (w', r)" by (auto split: prod.splits)
    then show ?thesis
      by (auto simp: finish_handler_def Let_def split: handler_result.splits if_splits
          intro: fail_once [OF assms(1) kept(1,2) _ kept(3)] complete_once [OF assms(1) kept])
  qed
qed


section \<open>Limits\<close>

text \<open>The result of a handler, if it has one.\<close>

definition result_value :: "'w run_report \<Rightarrow> jval option" where
  "result_value rep = (case rr_result rep of Returned v \<Rightarrow> Some v | Prepared p v f \<Rightarrow> Some v | Threw m \<Rightarrow> None)"

definition results_fit :: "'w exec_tools \<Rightarrow> bool" where
  "results_fit e \<longleftrightarrow> (\<forall>h q w v. result_value (xe_handler e h q w) = Some v
     \<longrightarrow> int (serialized_length (xe_json e) (redact_structured None v)) \<le> max_safe)"

lemma fail_no_output: "fail_tool e x n atomic failure m d w1 \<noteq> (w2, ToolOutput t s)"
  using fail_tool_state by fastforce

lemma refuse_no_output: "refuse_call e x a reason w1 \<noteq> (w2, ToolOutput t s)"
  by (auto simp: refuse_call_def split: prod.splits option.splits)

lemma authorize_no_output:
  assumes "authorize_tool e x w = Inl (w', ToolOutput t s)"
  shows False
proof (cases "gate_of x w")
  case (GateDenied reason)
  with assms show ?thesis by (simp add: authorize_tool_def refuse_no_output)
next
  case (GateAllowed needs)
  obtain w1 res where ev: "evaluate_required e x w = (w1, res)" by fastforce
  show ?thesis
    using assms GateAllowed ev
    by (cases needs; cases res; cases "gate_of x (xe_between e w1)") (simp_all add: authorize_tool_def refuse_no_output Let_def)
qed

lemma complete_output: "complete_tool e x v p d w1 = (w2, ToolOutput t s) \<Longrightarrow>
    t = lo_prompt (limited_result e x v) \<and> s = lo_durable (limited_result e x v)"
  by (auto simp: complete_tool_def fail_no_output split: prod.splits option.splits)

lemma output_source:
  assumes "execute_tool e x w = (w', qs, ToolOutput t s)"
  shows "\<exists>v h q w1. result_value (xe_handler e h q w1) = Some v \<and> t = lo_prompt (limited_result e x v)
     \<and> s = lo_durable (limited_result e x v)"
proof -
  obtain d w1 where run: "run_handler e x d w1 = (w', qs, ToolOutput t s)"
  proof (cases "authorize_tool e x w")
    case (Inl a)
    with assms authorize_no_output [of e x w] show ?thesis by (cases a) (auto simp: execute_tool_def split: if_splits)
  next
    case (Inr a)
    with assms that show ?thesis by (cases a) (auto simp: execute_tool_def split: if_splits)
  qed
  have "\<exists>g h q. finish_handler e x d g (xe_handler e h q w1) = (w', ToolOutput t s)"
  proof (cases "get_handler (run_tool x) (tw_registry w1)")
    case None
    with run show ?thesis by (auto simp: run_handler_def refuse_no_output Let_def split: prod.splits)
  next
    case (Some h)
    with run show ?thesis by (auto simp: run_handler_def fail_no_output Let_def split: if_splits prod.splits)
  qed
  then obtain g h q where f: "finish_handler e x d g (xe_handler e h q w1) = (w', ToolOutput t s)" by blast
  show ?thesis
  proof (cases "rr_result (xe_handler e h q w1)")
    case (Returned v)
    with f complete_output have "t = lo_prompt (limited_result e x v) \<and> s = lo_durable (limited_result e x v)"
      by (simp add: finish_handler_def Let_def fail_no_output split: if_splits)
    moreover have "result_value (xe_handler e h q w1) = Some v" using Returned by (simp add: result_value_def)
    ultimately show ?thesis by blast
  next
    case (Prepared p v u)
    with f complete_output have "t = lo_prompt (limited_result e x v) \<and> s = lo_durable (limited_result e x v)"
      by (simp add: finish_handler_def Let_def fail_no_output split: if_splits)
    moreover have "result_value (xe_handler e h q w1) = Some v" using Prepared by (simp add: result_value_def)
    ultimately show ?thesis by blast
  next
    case (Threw m)
    with f show ?thesis by (simp add: finish_handler_def Let_def fail_no_output)
  qed
qed

text \<open>
  For a tool of a registry that any history of registrations reached, the text the model gets and
  the output the tables keep are, in bytes of UTF-8 of the text and of its JSON, within the limit the
  entry of the tool declares, whatever the handler returned and whatever surrogates, quotes and control
  characters it holds.
\<close>

theorem tool_text_bounded:
  assumes "registry_reachable (xe_json e) reg" and "xr_entry x \<in> set (list_tools reg)"
    and "limit_value (sb_output (te_sandbox (xr_entry x))) = Some m"
    and "results_fit e"
    and "execute_tool e x w = (w', qs, ToolOutput t s)"
  shows "int (utf8_length t) \<le> m \<and> int (serialized_length (xe_json e) s) \<le> m"
proof -
  have "entry_ok (xe_json e) (xr_entry x)"
    using list_tools_ok [OF registry_ok_reachable [OF assms(1)] assms(2)] by blast
  then have m: "int (min_output_bytes (xe_json e)) \<le> m" using assms(3) by (simp add: entry_ok_def)
  from output_source [OF assms(5)] obtain v h q w1 where v: "result_value (xe_handler e h q w1) = Some v"
    and out: "t = lo_prompt (limited_result e x v)" "s = lo_durable (limited_result e x v)" by blast
  have "int (serialized_length (xe_json e) (redact_structured None v)) \<le> max_safe"
    using assms(4) v unfolding results_fit_def by blast
  with tool_output_bounded [of "xe_json e" "nat m" "redact_structured None v" "redact_text (format_tool_result e v)"] m assms(3) out
  show ?thesis by (simp add: limited_result_def output_limit_def nat_le_iff le_nat_iff)
qed

section \<open>Offers\<close>

text \<open>
  C35. Every tool a turn offers to its provider is one the registry has enabled and the policy gate
  allows to the actor, it has a handler, and the name the provider calls it by resolves to exactly this
  tool: two tools never share a name.
\<close>

theorem tool_offer_resolves:
  assumes "registry_reachable e r" and "offered_tools sha a context r = Some (ts, m)" and "t \<in> set ts"
  shows "(\<exists>needs. check_tool_call (te_name t) a context r = GateAllowed needs) \<and> get_handler (te_name t) r \<noteq> None
     \<and> (\<exists>p. to_provider_name sha (te_name t) = Some p \<and> map_of m p = Some (te_name t))"
proof -
  have t: "t \<in> set (list_tools r)" "supported_execution (sb_execution (te_sandbox t))" "check_permission (te_name t) a context r"
    and m: "provider_name_map sha [] (map te_name ts) = Some m"
    using assms(2,3) by (auto simp: offered_tools_def Let_def)
  have "get_tool (te_name t) r = Some t" using list_tools_ok [OF registry_ok_reachable [OF assms(1)] t(1)] by blast
  with t have g: "check_tool_call (te_name t) a context r = GateAllowed (tool_requires_evaluator (te_name t) r)"
    by (simp add: check_tool_call_def)
  with gate_handler [OF registry_ok_reachable [OF assms(1)] g] provider_names [OF m, of "te_name t"] assms(3)
  show ?thesis by auto
qed

end
