(* ===== verification/Tool_Witnesses.thy ===== *)
theory Tool_Witnesses
  imports Tool_Recording Short_Texts
begin

text \<open>
  The properties of tool execution on one call: a tool that asks for a review is called by the owner in
  a private chat, the evaluator approves, the handler prepares an effect that adds one to a counter.
\<close>

definition tx_entry :: tool_entry where
  "tx_entry = \<lparr>te_name = lit ''n'', te_capabilities = [lit ''write_local''],
     te_permissions = \<lparr>pp_actors = [lit ''owner''], pp_contexts = [lit ''private_chat''], pp_users = None, pp_denied_users = None,
       pp_groups = None, pp_denied_groups = None\<rparr>,
     te_evaluator = lit ''required'', te_audit = lit ''full'',
     te_sandbox = \<lparr>sb_filesystem = lit ''none'', sb_network = lit ''none'', sb_execution = lit ''in_process'', sb_runtime = JUndefined,
       sb_output = JNum (JInt 87)\<rparr>,
     te_sensitivity = lit ''normal'', te_handler = Some 0\<rparr>"

definition tx_registry :: tool_registry where
  "tx_registry = \<lparr>tr_tools = [(lit ''n'', tx_entry)], tr_disabled = []\<rparr>"

definition tx_turn :: agent_turn where
  "tx_turn = \<lparr>at_id = lit ''t'', at_conversation = lit ''c'', at_trigger = lit ''e'', at_pack = None, at_model = lit ''m'',
     at_provider = lit ''p'', at_response = None, at_status = TRunning, at_input = None, at_output = None, at_total = None,
     at_started = 5, at_completed = None\<rparr>"

definition tx_db :: tool_db where
  "tx_db = \<lparr>tb_calls = [], tb_audit = [], tb_decisions = [], tb_ledger = empty_ledger\<lparr>lg_events := [lit ''e''], lg_turns := [tx_turn]\<rparr>\<rparr>"

definition tx_world :: "nat tool_world" where
  "tx_world = \<lparr>tw_registry = tx_registry, tw_db = tx_db, tw_state = 0, tw_used = [], tw_recorded = []\<rparr>"

definition tx_answer :: jval where
  "tx_answer = obj [(''domain'', text_val ''tool''), (''decisionId'', text_val ''d''), (''requestId'', text_val ''r''),
     (''decision'', text_val ''approve''), (''reason'', text_val ''ok''), (''confidence'', JNum (JInt 1)), (''riskLevel'', text_val ''low''),
     (''decidedAt'', JDate (Some 7)), (''evaluatorVersion'', text_val ''v'')]"

definition tx_exec :: "nat exec_tools" where
  "tx_exec = \<lparr>xe_json = out_env, xe_pretty = \<lambda>v. [], xe_string = \<lambda>v. [],
     xe_evaluator = Some (\<lambda>q w. (w, EvaluatorSaid q tx_answer)), xe_between = \<lambda>w. w,
     xe_handler = \<lambda>h q w. \<lparr>rr_world = w, rr_result = Prepared 0 (JStr (lit ''ok'')) (\<lambda>n. Inr (Suc n)), rr_aborts = [], rr_elapsed = 1\<rparr>,
     xe_calls = True, xe_audits = True, xe_coordinator = True\<rparr>"

definition tx_run :: tool_run where
  "tx_run = \<lparr>xr_entry = tx_entry, xr_call = lit ''c'', xr_params = JObj [], xr_actor = \<lparr>ac_class = lit ''owner'', ac_user = Some (lit ''u''), ac_group = None\<rparr>,
     xr_context = lit ''private_chat'', xr_turn = Some (lit ''t''), xr_sources = [lit ''e''], xr_summary = lit ''s'', xr_live = True,
     xr_aborted = False, xr_before = 0, xr_started = 6, xr_later = 8, xr_request = lit ''r'', xr_audit = \<lambda>n. replicate (Suc n) 97\<rparr>"

section \<open>The call\<close>

lemma tx_registry_made: "fst (register_tool out_env tx_entry no_tools) = tx_registry"
  by (simp add: register_tool_def no_tools_def tx_entry_def get_tool_def execution_values_def max_tool_runtime_def out_env_min
      tx_registry_def Let_def max_safe_def)

lemma tx_registry_reachable: "registry_reachable out_env tx_registry"
  using rs_register [of out_env no_tools tx_entry] unfolding registry_reachable_def tx_registry_made by blast

lemma tx_gate: "gate_of tx_run tx_world = GateAllowed True"
  by (simp add: gate_of_def check_tool_call_def run_tool_def tx_run_def tx_world_def tx_registry_def get_tool_def tx_entry_def
      check_permission_def tool_enabled_def listed_def excluded_by_def supported_execution_def tool_requires_evaluator_def)

lemma tx_fields [simp]:
  "get_field tx_answer (lit ''domain'') = JStr (lit ''tool'')" "get_field tx_answer (lit ''decisionId'') = JStr (lit ''d'')"
  "get_field tx_answer (lit ''requestId'') = JStr (lit ''r'')" "get_field tx_answer (lit ''decision'') = JStr (lit ''approve'')"
  "get_field tx_answer (lit ''reason'') = JStr (lit ''ok'')" "get_field tx_answer (lit ''confidence'') = JNum (JInt 1)"
  "get_field tx_answer (lit ''riskLevel'') = JStr (lit ''low'')" "get_field tx_answer (lit ''decidedAt'') = JDate (Some 7)"
  "get_field tx_answer (lit ''evaluatorVersion'') = JStr (lit ''v'')" "get_field tx_answer (lit ''modelInvocationId'') = JUndefined"
  "get_field tx_answer (lit ''additionalConstraints'') = JUndefined" "get_field tx_answer (lit ''modifiedToolInput'') = JUndefined"
  "get_field tx_answer (lit ''alternativeTool'') = JUndefined"
  by (simp_all add: tx_answer_def obj_def text_val_def lit_def)

lemma tx_words [simp]:
  "lit ''d'' \<noteq> []" "lit ''v'' \<noteq> []" "lit ''t'' \<noteq> []" "lit ''low'' \<noteq> lit ''prohibited''"
  "lit ''approve'' \<in> set decision_words" "lit ''low'' \<in> set risk_words" "lit ''owner'' \<in> set actor_words"
  "lit ''private_chat'' \<in> set context_words"
  by (simp_all add: lit_def decision_words_def risk_words_def actor_words_def context_words_def)

lemma tx_texts [simp]: "non_empty_text (JStr (lit ''d''))" "non_empty_text (JStr (lit ''r''))" "non_empty_text (JStr (lit ''t''))"
  "non_empty_text (JStr (lit ''n''))" "non_empty_text (JStr (lit ''v''))" "non_empty_text (JStr (lit ''e''))" "js_trim (lit ''e'') \<noteq> []"
  by (simp_all add: non_empty_text_def js_trim_def js_space_def lit_def)

lemma tx_valid: "valid_tool_result tx_answer (lit ''r'')"
  by (simp add: valid_tool_result_def text_val_def one_of_words_def unit_number_def js_less_def)

definition tx_reviewed :: "nat tool_world" where
  "tx_reviewed = tx_world\<lparr>tw_db := tx_db\<lparr>tb_decisions := [tool_decision_row_of (review_request tx_run (lit ''t'')) tx_answer]\<rparr>\<rparr>"

lemma tx_decided: "create_tool_decision (review_request tx_run (lit ''t'')) tx_answer 8 tx_db = Inr (tw_db tx_reviewed, lit ''d'')"
proof -
  let ?q = "review_request tx_run (lit ''t'')"
  have q: "tq_id ?q = lit ''r''" "tq_turn ?q = lit ''t''" "tq_tool ?q = lit ''n''" "tq_sources ?q = [lit ''e'']" "tq_created ?q = Some 6"
    "tq_class ?q = lit ''owner''" "tq_context ?q = lit ''private_chat''"
    by (simp_all add: review_request_def tx_run_def run_tool_def tx_entry_def)
  have evidence: "tool_evidence_error ?q tx_answer (tb_ledger tx_db) = None"
    by (simp add: tool_evidence_error_def q text_val_def unit_number_def js_less_def truthy_def constraints_finite_def timestamps_ordered_def
        tx_db_def tx_turn_def empty_ledger_def find_turn_row_def)
  have row: "tool_decision_allowed (tool_decision_row_of ?q tx_answer) tx_db"
    by (simp add: tool_decision_allowed_def tool_decision_row_of_def q tx_db_def)
  have "invocation_value tx_answer = None" by (simp add: invocation_value_def)
  with evidence row show ?thesis
    by (simp add: create_tool_decision_def binding_check_def tool_binding_def tx_reviewed_def tool_decision_row_of_def tx_db_def)
qed

lemma tx_evaluated: "evaluate_required tx_exec tx_run tx_world = (tx_reviewed, Inr (lit ''d''))"
proof -
  have x: "xr_turn tx_run = Some (lit ''t'')" "xr_sources tx_run = [lit ''e'']" "xr_params tx_run = JObj []" "xr_later tx_run = 8"
    "tq_id (review_request tx_run (lit ''t'')) = lit ''r''"
    by (simp_all add: tx_run_def review_request_def)
  have "read_decision tx_answer (lit ''d'') = Inr (lit ''d'')" by (simp add: read_decision_def text_val_def)
  moreover have "tx_world\<lparr>tw_db := tw_db tx_reviewed\<rparr> = tx_reviewed" and "tw_db tx_world = tx_db"
    by (simp_all add: tx_reviewed_def tx_world_def)
  ultimately show ?thesis
    using tx_decided tx_valid by (simp add: evaluate_required_def tx_exec_def x Let_def)
qed

lemma tx_authorized: "authorize_tool tx_exec tx_run tx_world = Inr (tx_reviewed, Some (lit ''d''))"
proof -
  have "xe_between tx_exec = (\<lambda>w. w)" by (simp add: tx_exec_def)
  moreover have "gate_of tx_run tx_reviewed = GateAllowed True"
    using tx_gate by (simp add: gate_of_def tx_reviewed_def)
  ultimately show ?thesis using tx_gate tx_evaluated by (simp add: authorize_tool_def Let_def)
qed

section \<open>Its effect\<close>

definition tx_request :: handler_request where
  "tx_request = handler_call tx_run (Some (lit ''d''))"

definition tx_done :: "nat tool_world" where
  "tx_done = tx_reviewed\<lparr>tw_recorded := [lit ''c''], tw_used := [0], tw_state := 1,
     tw_db := evidence_stored tx_run 0 (success_audit tx_exec tx_run (JStr (lit ''ok'')) (Some (lit ''d''))) (tw_db tx_reviewed)\<rparr>"

lemma tx_repositories: "repositories tx_exec"
  by (simp add: repositories_def tx_exec_def)

lemma tx_recordable: "recordable tx_run tx_db"
  by (simp add: recordable_def tx_run_def tx_db_def tx_turn_def tx_entry_def known_levels_def find_turn_row_def)

lemma tx_takes: "takes_evidence tx_run 0 (success_audit tx_exec tx_run v (Some (lit ''d''))) (tw_db tx_reviewed)"
proof -
  have "keeps_tables tx_db (tw_db tx_reviewed)" and "decided (Some (lit ''d'')) (tw_db tx_reviewed)"
    using create_tool_decision_keeps [OF tx_decided] by auto
  then show ?thesis
    using recordable_kept [OF tx_recordable] words_recorded by (intro recordable_takes) (simp_all add: success_audit_def Let_def)
qed

lemma tx_output:
  "lo_prompt (limited_result tx_exec tx_run (JStr (lit ''ok''))) = lit ''ok''"
  "lo_durable (limited_result tx_exec tx_run (JStr (lit ''ok''))) = JStr (lit ''ok'')"
proof -
  have t: "redact_text (lit ''ok'') = lit ''ok''" by (rule short_text) (simp add: lit_def)
  have f: "format_tool_result tx_exec (JStr (lit ''ok'')) = lit ''ok''" by (simp add: format_tool_result_def)
  have j: "xe_json tx_exec = out_env" "output_limit (xr_entry tx_run) = Some 87"
    by (simp_all add: tx_exec_def output_limit_def tx_run_def tx_entry_def)
  have n: "utf8_length (lit ''ok'') = 2" "serialized_length out_env (JStr (lit ''ok'')) = 4"
    by (simp_all add: serialized_length_def json_text_def json_string_def json_ascii lit_def)
  show "lo_prompt (limited_result tx_exec tx_run (JStr (lit ''ok''))) = lit ''ok''"
    "lo_durable (limited_result tx_exec tx_run (JStr (lit ''ok''))) = JStr (lit ''ok'')"
    by (simp_all add: limited_result_def f j t n limit_tool_output_def Let_def)
qed

lemma tx_handler: "get_handler (run_tool tx_run) (tw_registry tx_reviewed) = Some 0"
  by (simp add: get_handler_def run_tool_def tx_run_def tx_entry_def tx_reviewed_def tx_world_def tx_registry_def get_tool_def
      tool_enabled_def)

lemma tx_complete: "complete_tool tx_exec tx_run (JStr (lit ''ok'')) (Some (0, \<lambda>n. Inr (Suc n))) (Some (lit ''d'')) tx_reviewed
   = (tx_done, ToolOutput (lit ''ok'') (JStr (lit ''ok'')))"
proof -
  let ?w = "record_call (xr_call tx_run) tx_reviewed"
  have w: "tw_db ?w = tw_db tx_reviewed" "tw_used ?w = []" "tw_state ?w = 0" "tw_recorded ?w = [lit ''c'']"
    by (simp_all add: record_call_def tx_reviewed_def tx_world_def tx_run_def)
  have u: "tw_used tx_reviewed = []" "tw_state tx_reviewed = 0" using w(2,3) by (simp_all add: record_call_def)
  have "?w\<lparr>tw_used := [0], tw_state := 1, tw_db := D\<rparr> = tx_reviewed\<lparr>tw_recorded := [lit ''c''], tw_used := [0], tw_state := 1, tw_db := D\<rparr>" for D
    by (simp add: record_call_def tx_reviewed_def tx_world_def tx_run_def)
  moreover have "audit_tool_call tx_exec tx_run 0 (EffectAudit 0 (\<lambda>n. Inr (Suc n)))
      (success_audit tx_exec tx_run (JStr (lit ''ok'')) (Some (lit ''d''))) ?w
    = (?w\<lparr>tw_used := [0], tw_state := 1,
         tw_db := evidence_stored tx_run 0 (success_audit tx_exec tx_run (JStr (lit ''ok'')) (Some (lit ''d''))) (tw_db tx_reviewed)\<rparr>, None)"
    by (subst effect_recorded [OF tx_repositories]) (simp_all add: tx_takes u w)
  ultimately have "audit_tool_call tx_exec tx_run 0 (EffectAudit 0 (\<lambda>n. Inr (Suc n)))
      (success_audit tx_exec tx_run (JStr (lit ''ok'')) (Some (lit ''d''))) ?w = (tx_done, None)"
    unfolding tx_done_def by simp
  then show ?thesis by (simp add: complete_tool_def tx_output)
qed

lemma tx_ran: "run_handler tx_exec tx_run (Some (lit ''d'')) tx_reviewed = (tx_done, [tx_request], ToolOutput (lit ''ok'') (JStr (lit ''ok'')))"
proof -
  have x: "xr_aborted tx_run = False" "sb_runtime (te_sandbox (xr_entry tx_run)) = JUndefined" by (simp_all add: tx_run_def tx_entry_def)
  have h: "xe_handler tx_exec 0 tx_request tx_reviewed
      = \<lparr>rr_world = tx_reviewed, rr_result = Prepared 0 (JStr (lit ''ok'')) (\<lambda>n. Inr (Suc n)), rr_aborts = [], rr_elapsed = 1\<rparr>"
    by (simp add: tx_exec_def)
  show ?thesis
    by (simp add: run_handler_def tx_handler x start_guard_def guard_check_def Let_def h tx_complete finish_handler_def flip: tx_request_def)
qed

lemma tx_executed: "execute_tool tx_exec tx_run tx_world = (tx_done, [tx_request], ToolOutput (lit ''ok'') (JStr (lit ''ok'')))"
proof -
  have "xr_live tx_run" by (simp add: tx_run_def)
  then show ?thesis by (simp add: execute_tool_def tx_authorized tx_ran)
qed

lemma tx_quiet: "quiet tx_exec"
  by (simp add: quiet_def tx_exec_def)

lemma tx_fits: "results_fit tx_exec"
proof -
  have "redact_text (lit ''ok'') = lit ''ok''" by (rule short_text) (simp add: lit_def)
  moreover have "serialized_length out_env (JStr (lit ''ok'')) = 4"
    by (simp add: serialized_length_def json_text_def json_string_def json_ascii lit_def)
  ultimately show ?thesis by (simp add: results_fit_def result_value_def tx_exec_def max_safe_def)
qed

section \<open>The properties on it\<close>

lemma tool_call_authorized_witness:
  "execute_tool tx_exec tx_run tx_world = (tx_done, [tx_request], ToolOutput (lit ''ok'') (JStr (lit ''ok'')))
   \<and> (\<exists>row \<in> set (tb_decisions (tw_db tx_reviewed)). approving_row tx_run (lit ''d'') row)"
proof -
  have "hr_decision tx_request = Some (lit ''d'')" by (simp add: tx_request_def handler_call_def)
  with tool_call_authorized [OF tx_executed] tx_evaluated tx_executed show ?thesis by auto
qed

lemma tool_effect_atomic_witness:
  "tw_state tx_reviewed = 0 \<and> tw_state tx_done = 1 \<and> (\<exists>c. tb_calls (tw_db tx_done) = tb_calls (tw_db tx_reviewed) @ [c]
     \<and> tc_status c = lit ''success'')"
proof -
  have "tw_state tx_reviewed = 0" "tw_state tx_done = 1" by (simp_all add: tx_reviewed_def tx_world_def tx_done_def)
  with tool_effect_atomic [OF tx_ran tx_handler refl, of 0 "JStr (lit ''ok'')" "\<lambda>n. Inr (Suc n)"] show ?thesis
    by (auto simp: tx_exec_def)
qed


lemma tool_text_bounded_witness:
  "int (utf8_length (lit ''ok'')) \<le> 87 \<and> int (serialized_length out_env (JStr (lit ''ok''))) \<le> 87"
proof -
  have e: "xe_json tx_exec = out_env" by (simp add: tx_exec_def)
  show ?thesis
    by (rule tool_text_bounded [of tx_exec tx_registry, OF _ _ _ tx_fits tx_executed, unfolded e])
      (simp_all add: tx_registry_reachable, simp_all add: tx_registry_def list_tools_def tx_run_def tx_entry_def)
qed

lemma tool_offer_resolves_witness:
  "get_handler (lit ''n'') tx_registry = Some 0
   \<and> (\<exists>m p. offered_tools (\<lambda>s. s) (xr_actor tx_run) (lit ''private_chat'') tx_registry = Some ([tx_entry], m) \<and> map_of m p = Some (lit ''n''))"
proof -
  have g: "check_permission (lit ''n'') (xr_actor tx_run) (lit ''private_chat'') tx_registry"
    using gate_allowed(1) [OF tx_gate [unfolded gate_of_def]]
    by (simp add: run_tool_def tx_run_def tx_entry_def tx_world_def)
  have n: "te_name tx_entry = lit ''n''" "supported_execution (sb_execution (te_sandbox tx_entry))" "list_tools tx_registry = [tx_entry]"
    by (simp_all add: tx_entry_def supported_execution_def tx_registry_def list_tools_def)
  have p: "to_provider_name (\<lambda>s. s) (lit ''n'') = Some (lit ''n'')"
    by (simp add: to_provider_name_def plain_provider_name_def provider_char_def alnum_def lit_def digit_def upper_def)
  have o: "offered_tools (\<lambda>s. s) (xr_actor tx_run) (lit ''private_chat'') tx_registry = Some ([tx_entry], [(lit ''n'', lit ''n'')])"
    using g by (simp add: offered_tools_def n p Let_def)
  from tool_offer_resolves [OF tx_registry_reachable o, of tx_entry] o tx_handler show ?thesis
    by (auto simp: n run_tool_def tx_run_def tx_reviewed_def tx_world_def)
qed

end
