(* ===== verification/Context_Retrieval.thy ===== *)
theory Context_Retrieval
  imports Memory_Repository Tool_Output
begin

text \<open>
  How \<open>ContextBuilder\<close> (\<open>src/context/builder.ts\<close>) finds and ranks the memories of a context: the
  queries it takes from the messages, the routes it retrieves along, the evidence of a ranking, what
  keeps a memory out of a context and the order of those that are let in; and \<open>toSafeMemoryFtsQuery\<close> of
  \<open>src/memory/fts-query.ts\<close>.

  Which code points are letters or numbers, the order of \<open>localeCompare\<close>, the full-text index and the
  semantic retrieval are arguments; a similarity is an integer number of units, \<open>score_one\<close> for 1.
\<close>

section \<open>Messages\<close>

datatype sender_role = MemberRole | AdminRole | OwnerRole

record recent_message =
  rm_id :: jstr
  rm_sender :: jstr
  rm_name :: jstr
  rm_text :: "jstr option"
  rm_time :: int
  rm_bot :: bool
  rm_role :: "sender_role option"
  rm_ref :: "jstr option"
  rm_speaker :: "jstr option"
  rm_current :: "bool option"

datatype reply_resolution = ReplyUnresolved | ReplyResolved jstr bool

definition find_message :: "jstr \<Rightarrow> recent_message list \<Rightarrow> recent_message option" where
  "find_message i ms = find (\<lambda>m. rm_id m = i) ms"

section \<open>Queries\<close>

definition max_fts_source :: nat where "max_fts_source = 4096"
definition max_fts_tokens :: nat where "max_fts_tokens = 8"
definition max_fts_token :: nat where "max_fts_token = 64"

text \<open>The maximal runs of code points a predicate holds for.\<close>

fun word_runs :: "(jstr \<Rightarrow> bool) \<Rightarrow> jstr \<Rightarrow> jstr list \<Rightarrow> jstr list" where
  "word_runs P acc [] = (if acc = [] then [] else [acc])"
| "word_runs P acc (p # ps) =
     (if P p then word_runs P (acc @ p) ps else if acc = [] then word_runs P [] ps else acc # word_runs P [] ps)"

definition fts_word :: "(jstr \<Rightarrow> bool) \<Rightarrow> jstr \<Rightarrow> bool" where
  "fts_word letter_or_number p \<longleftrightarrow> letter_or_number p \<or> p = [95] \<or> p = [45]"

fun distinct_tokens :: "jstr list \<Rightarrow> jstr list \<Rightarrow> jstr list" where
  "distinct_tokens seen [] = seen"
| "distinct_tokens seen (t # ts) =
     (let u = take max_fts_token t
      in if u = [] \<or> u \<in> set seen then distinct_tokens seen ts
         else if length (seen @ [u]) = max_fts_tokens then seen @ [u] else distinct_tokens (seen @ [u]) ts)"

definition quoted_token :: "jstr \<Rightarrow> jstr" where
  "quoted_token t = [34] @ concat (map (\<lambda>c. if c = 34 then [34, 34] else [c]) t) @ [34]"

fun join_with :: "jstr \<Rightarrow> jstr list \<Rightarrow> jstr" where
  "join_with sep [] = []"
| "join_with sep [t] = t"
| "join_with sep (t # u # ts) = t @ sep @ join_with sep (u # ts)"

definition safe_fts_query :: "(jstr \<Rightarrow> bool) \<Rightarrow> jstr \<Rightarrow> jstr option" where
  "safe_fts_query letter_or_number text =
     (let ts = distinct_tokens [] (word_runs (fts_word letter_or_number) [] (code_points (take max_fts_source text)))
      in if ts = [] then None else Some (join_with (lit '' OR '') (map quoted_token ts)))"

datatype query_source = CurrentMessage | QuotedMessage | RecentThread

datatype retrieval_method = ScopedRank | FullText | SemanticMatch

datatype scope_affinity = ExactConversation | ExactGroup | SameUser | GlobalAffinity

record memory_query =
  mq_source :: query_source
  mq_text :: jstr
  mq_fts :: "jstr option"

record semantic_identity =
  sm_model :: jstr
  sm_revision :: jstr
  sm_dimensions :: int
  sm_version :: int

record semantic_result =
  sm_status :: jstr
  sm_matches :: "(nat \<times> jstr \<times> int) list"
  sm_identity :: "semantic_identity option"
  sm_stale :: nat
  sm_truncated :: bool

record context_scope =
  cs_user :: "jstr option"
  cs_type :: chat_type
  cs_group :: "jstr option"
  cs_conversation :: jstr

record context_env =
  ce_letter :: "jstr \<Rightarrow> bool"
  ce_fts :: "memory_row list \<Rightarrow> jstr \<Rightarrow> memory_row \<Rightarrow> int option"
  ce_options :: memory_options
  ce_semantic :: "(jstr list \<Rightarrow> context_scope \<Rightarrow> semantic_result) option"
  ce_locale :: "jstr \<Rightarrow> jstr \<Rightarrow> int"
  ce_user :: "jstr \<Rightarrow> jstr option"
  ce_profile :: "jstr \<Rightarrow> jstr option \<Rightarrow> jstr option"
  ce_now :: int

definition query_of :: "context_env \<Rightarrow> query_source \<Rightarrow> jstr option \<Rightarrow> memory_query list" where
  "query_of e src text =
     (case text of
        None \<Rightarrow> []
      | Some t \<Rightarrow>
          let f = safe_fts_query (ce_letter e) t
          in if js_trim t \<noteq> [] \<and> (f \<noteq> None \<or> ce_semantic e \<noteq> None) then [\<lparr>mq_source = src, mq_text = t, mq_fts = f\<rparr>] else [])"

text \<open>The text of a message by its id, and of the other messages, the newest first.\<close>

definition text_by_id :: "jstr option \<Rightarrow> recent_message list \<Rightarrow> jstr option" where
  "text_by_id i ms = (case i of None \<Rightarrow> None | Some j \<Rightarrow> (case find_message j ms of None \<Rightarrow> None | Some m \<Rightarrow> rm_text m))"

definition quoted_id :: "reply_resolution option \<Rightarrow> jstr option" where
  "quoted_id r = (case r of Some (ReplyResolved i w) \<Rightarrow> Some i | _ \<Rightarrow> None)"

definition thread_text :: "recent_message list \<Rightarrow> jstr option \<Rightarrow> jstr option \<Rightarrow> jstr" where
  "thread_text ms current quoted =
     join_with [10] (map (\<lambda>m. value_or (rm_text m) [])
       (rev (filter (\<lambda>m. Some (rm_id m) \<noteq> current \<and> Some (rm_id m) \<noteq> quoted \<and> rm_text m \<noteq> None) ms)))"

definition memory_queries ::
  "context_env \<Rightarrow> recent_message list \<Rightarrow> jstr option \<Rightarrow> reply_resolution option \<Rightarrow> memory_query list" where
  "memory_queries e ms current reply =
     query_of e CurrentMessage (text_by_id current ms) @ query_of e QuotedMessage (text_by_id (quoted_id reply) ms)
     @ query_of e RecentThread (Some (thread_text ms current (quoted_id reply)))"

section \<open>Routes\<close>

definition no_filter :: memory_filters where
  "no_filter = \<lparr>mf_user = None, mf_group = None, mf_conversation = None, mf_scope = None, mf_context = None, mf_state = Some Active,
     mf_limit = None\<rparr>"

definition filter_routes :: "context_scope \<Rightarrow> memory_filters list" where
  "filter_routes s =
     (let grouped = cs_type s = GroupType \<and> cs_group s \<noteq> None; talk = cs_conversation s \<noteq> [];
          here = no_filter\<lparr>mf_context := Some (cs_type s)\<rparr>; mine = here\<lparr>mf_user := cs_user s\<rparr>;
          everyone = here\<lparr>mf_scope := Some MGlobal\<rparr>
      in (if present (cs_user s)
          then [mine] @ (if grouped then [mine\<lparr>mf_group := cs_group s\<rparr>] else [])
            @ (if talk then [mine\<lparr>mf_conversation := Some (cs_conversation s)\<rparr>] else []) @ [no_filter\<lparr>mf_user := cs_user s\<rparr>]
          else [])
         @ (if talk then [here\<lparr>mf_scope := Some MConversation, mf_conversation := Some (cs_conversation s)\<rparr>] else [])
         @ (if grouped then [here\<lparr>mf_scope := Some MGroup, mf_group := cs_group s\<rparr>] else [])
         @ [everyone] @ (if grouped then [everyone\<lparr>mf_group := cs_group s\<rparr>] else [])
         @ (if talk then [everyone\<lparr>mf_conversation := Some (cs_conversation s)\<rparr>] else []) @ [no_filter\<lparr>mf_scope := Some MGlobal\<rparr>])"

section \<open>Rankings\<close>

record ranking =
  rk_sources :: "query_source list"
  rk_methods :: "retrieval_method list"
  rk_affinity :: scope_affinity
  rk_ordinal :: "nat option"
  rk_semantic :: "(int \<times> semantic_identity) option"

definition affinity :: "context_scope \<Rightarrow> memory_row \<Rightarrow> scope_affinity" where
  "affinity s r =
     (if mr_conversation r = Some (cs_conversation s) then ExactConversation
      else if cs_group s \<noteq> None \<and> mr_group r = cs_group s then ExactGroup
      else if cs_user s \<noteq> None \<and> mr_user r = cs_user s then SameUser
      else case mr_scope r of MConversation \<Rightarrow> ExactConversation | MGroup \<Rightarrow> ExactGroup | MUser \<Rightarrow> SameUser | _ \<Rightarrow> GlobalAffinity)"

type_synonym found_memories = "(jstr \<times> memory_record) list \<times> (jstr \<times> ranking) list"

definition md_id :: "memory_record \<Rightarrow> jstr" where
  "md_id m = mr_id (md_row m)"

definition ranked :: "retrieval_method \<Rightarrow> query_source option \<Rightarrow> nat \<Rightarrow> ranking \<Rightarrow> ranking" where
  "ranked how src ordinal k = k\<lparr>rk_methods := List.insert how (rk_methods k),
     rk_sources := (case src of None \<Rightarrow> rk_sources k | Some q \<Rightarrow> List.insert q (rk_sources k)),
     rk_ordinal := (if how = FullText
       then Some (case rk_ordinal k of None \<Rightarrow> ordinal | Some o' \<Rightarrow> min o' ordinal) else rk_ordinal k)\<rparr>"

definition new_ranking :: "context_scope \<Rightarrow> memory_record \<Rightarrow> ranking" where
  "new_ranking s m = \<lparr>rk_sources = [], rk_methods = [], rk_affinity = affinity s (md_row m), rk_ordinal = None, rk_semantic = None\<rparr>"

fun record_found ::
  "context_scope \<Rightarrow> retrieval_method \<Rightarrow> query_source option \<Rightarrow> nat \<Rightarrow> memory_record list \<Rightarrow> found_memories \<Rightarrow> found_memories" where
  "record_found s how src n [] found = found"
| "record_found s how src n (m # ms) (all, ranks) =
     record_found s how src (Suc n) ms
       (AList.update (md_id m) m all,
        AList.update (md_id m)
          (ranked how src n (case map_of ranks (md_id m) of None \<Rightarrow> new_ranking s m | Some k \<Rightarrow> k)) ranks)"

definition search_route :: "context_env \<Rightarrow> memory_db \<Rightarrow> context_scope \<Rightarrow> memory_filters \<Rightarrow> memory_query \<Rightarrow> found_memories \<Rightarrow> found_memories" where
  "search_route e db s f q found =
     (case mq_fts q of
        None \<Rightarrow> found
      | Some t \<Rightarrow> record_found s FullText (Some (mq_source q)) 1 (search (ce_fts e) (ce_options e) t f (ce_now e) db) found)"

definition follow_route ::
  "context_env \<Rightarrow> memory_db \<Rightarrow> context_scope \<Rightarrow> memory_query list \<Rightarrow> memory_filters \<Rightarrow> found_memories \<Rightarrow> found_memories" where
  "follow_route e db s qs f found =
     (let found' = record_found s ScopedRank None 1 (retrieve (ce_options e) f (ce_now e) db) found
      in if mf_context f = None then found' else fold (search_route e db s f) qs found')"

text \<open>A semantic match counts once the memory, the query and the identity of the model are there.\<close>

definition record_match ::
  "memory_db \<Rightarrow> context_scope \<Rightarrow> memory_query list \<Rightarrow> semantic_identity option \<Rightarrow> nat \<times> jstr \<times> int \<Rightarrow> found_memories \<Rightarrow> found_memories" where
  "record_match db s qs who match' found =
     (case match' of
        (i, memory, score) \<Rightarrow>
          (case (find_by_id memory db, who) of
             (Some m, Some model) \<Rightarrow>
               if length qs \<le> i then found
               else (case record_found s SemanticMatch (Some (mq_source (qs ! i))) 1 [m] found of
                       (all, ranks) \<Rightarrow>
                         (all, (case map_of ranks (md_id m) of
                            None \<Rightarrow> ranks
                          | Some k \<Rightarrow>
                              if (case rk_semantic k of None \<Rightarrow> True | Some (old, _) \<Rightarrow> old < score)
                              then AList.update (md_id m) (k\<lparr>rk_semantic := Some (score, model)\<rparr>) ranks else ranks)))
           | _ \<Rightarrow> found))"

section \<open>What may enter a context\<close>

fun sensitivity_name :: "mem_sensitivity \<Rightarrow> string" where
  "sensitivity_name SecretSensitivity = ''secret''"
| "sensitivity_name ProhibitedSensitivity = ''prohibited''"
| "sensitivity_name NormalSensitivity = ''normal''"
| "sensitivity_name Personal = ''personal''"
| "sensitivity_name Sensitive = ''sensitive''"

fun finding_kind :: "secret_finding \<Rightarrow> string" where
  "finding_kind (SecretFound p) = ''secret''"
| "finding_kind (ProhibitedFound p) = ''prohibited''"

definition other_owner :: "jstr option \<Rightarrow> jstr option \<Rightarrow> bool" where
  "other_owner mine theirs \<longleftrightarrow> present mine \<and> present theirs \<and> mine \<noteq> theirs"

definition rejection_reason :: "context_env \<Rightarrow> context_scope \<Rightarrow> memory_row \<Rightarrow> jstr option" where
  "rejection_reason e s r =
     (let findings = scan_memory (mr_title r @ [10] @ mr_content r); talk = Some (cs_conversation s)
      in if mr_state r \<noteq> Active then Some (lit ''state:'' @ state_name (mr_state r))
         else if mr_sensitivity r \<in> {SecretSensitivity, ProhibitedSensitivity}
         then Some (lit ''sensitivity:'' @ lit (sensitivity_name (mr_sensitivity r)))
         else if findings \<noteq> [] then Some (lit ''content_policy:'' @ lit (finding_kind (hd findings)))
         else if (case mr_expires r of None \<Rightarrow> False | Some t \<Rightarrow> t \<le> ce_now e) then Some (lit ''expired'')
         else if mr_scope r = MUser \<and> other_owner (mr_user r) (cs_user s) then Some (lit ''unrelated_user_scope'')
         else if mr_scope r = MConversation \<and> other_owner (mr_conversation r) talk then Some (lit ''unrelated_conversation_scope'')
         else if mr_scope r = MGroup \<and> other_owner (mr_group r) (cs_group s) \<and> mr_conversation r \<noteq> talk
         then Some (lit ''unrelated_group_scope'')
         else case mr_visibility r of
                OwnerAdminOnly \<Rightarrow> Some (lit ''owner_admin_only'')
              | PrivateOnly \<Rightarrow> if cs_type s = PrivateType then None else Some (lit ''private_only_in_group_context'')
              | SameGroupOnly \<Rightarrow>
                  if cs_type s = GroupType
                     \<and> ((present (cs_group s) \<and> mr_group r = cs_group s) \<or> (cs_conversation s \<noteq> [] \<and> mr_conversation r = talk))
                  then None else Some (lit ''not_same_group_context'')
              | SameUserAnyContext \<Rightarrow> None
              | PublicMemory \<Rightarrow> None)"

section \<open>The order of memories\<close>

definition query_priority :: "ranking option \<Rightarrow> int" where
  "query_priority k =
     (case k of
        None \<Rightarrow> 0
      | Some r \<Rightarrow> if CurrentMessage \<in> set (rk_sources r) then 3 else if QuotedMessage \<in> set (rk_sources r) then 2
                 else if RecentThread \<in> set (rk_sources r) then 1 else 0)"

definition affinity_priority :: "ranking option \<Rightarrow> int" where
  "affinity_priority k =
     (case k of
        None \<Rightarrow> 0
      | Some r \<Rightarrow> (case rk_affinity r of ExactConversation \<Rightarrow> 4 | ExactGroup \<Rightarrow> 3 | SameUser \<Rightarrow> 2 | GlobalAffinity \<Rightarrow> 1))"

definition flag :: "bool \<Rightarrow> int" where
  "flag b = (if b then 1 else 0)"

definition by_full_text :: "ranking option \<Rightarrow> bool" where
  "by_full_text k \<longleftrightarrow> (case k of None \<Rightarrow> False | Some r \<Rightarrow> FullText \<in> set (rk_methods r))"

definition full_text_rank :: "ranking option \<Rightarrow> int" where
  "full_text_rank k = (case k of None \<Rightarrow> max_safe | Some r \<Rightarrow> (case rk_ordinal r of None \<Rightarrow> max_safe | Some n \<Rightarrow> int n))"

definition semantic_score :: "ranking option \<Rightarrow> int" where
  "semantic_score k = (case k of None \<Rightarrow> - score_one | Some r \<Rightarrow> (case rk_semantic r of None \<Rightarrow> - score_one | Some (v, _) \<Rightarrow> v))"

fun first_nonzero :: "int list \<Rightarrow> int" where
  "first_nonzero [] = 0"
| "first_nonzero (n # ns) = (if n \<noteq> 0 then n else first_nonzero ns)"

definition compare_rankings :: "context_env \<Rightarrow> (jstr \<times> ranking) list \<Rightarrow> memory_record \<Rightarrow> memory_record \<Rightarrow> int" where
  "compare_rankings e ranks x y =
     (let a = md_row x; b = md_row y; p = map_of ranks (md_id x); q = map_of ranks (md_id y)
      in first_nonzero [query_priority q - query_priority p, flag (by_full_text q) - flag (by_full_text p),
           affinity_priority q - affinity_priority p, full_text_rank p - full_text_rank q, semantic_score q - semantic_score p,
           flag (mr_scope a = MGlobal) - flag (mr_scope b = MGlobal), mr_importance b - mr_importance a,
           mr_created b - mr_created a, mr_confidence b - mr_confidence a, ce_locale e (mr_id a) (mr_id b)])"

text \<open>The stable sort by a comparison.\<close>

fun sort_in :: "('a \<Rightarrow> 'a \<Rightarrow> int) \<Rightarrow> 'a \<Rightarrow> 'a list \<Rightarrow> 'a list" where
  "sort_in cmp x [] = [x]"
| "sort_in cmp x (y # ys) = (if 0 < cmp x y then y # sort_in cmp x ys else x # y # ys)"

definition sort_by :: "('a \<Rightarrow> 'a \<Rightarrow> int) \<Rightarrow> 'a list \<Rightarrow> 'a list" where
  "sort_by cmp xs = foldr (sort_in cmp) xs []"

lemma set_sort_in [simp]: "set (sort_in cmp x ys) = insert x (set ys)"
  by (induction ys) auto

lemma set_sort_by [simp]: "set (sort_by cmp xs) = set xs"
  unfolding sort_by_def by (induction xs) auto

lemma length_sort_in [simp]: "length (sort_in cmp x ys) = Suc (length ys)"
  by (induction ys) auto

lemma mset_sort_in [simp]: "mset (sort_in cmp x ys) = add_mset x (mset ys)"
  by (induction ys) auto

lemma mset_sort_by [simp]: "mset (sort_by cmp xs) = mset xs"
  unfolding sort_by_def by (induction xs) auto

section \<open>Retrieving\<close>

record retrieval =
  rt_selected :: "memory_record list"
  rt_rankings :: "(jstr \<times> ranking) list"
  rt_candidates :: "jstr list"
  rt_rejected :: "(jstr \<times> jstr) list"
  rt_filters :: "jstr list"

definition no_retrieval :: retrieval where
  "no_retrieval = \<lparr>rt_selected = [], rt_rankings = [], rt_candidates = [], rt_rejected = [], rt_filters = []\<rparr>"

definition summaries_off :: "memory_db \<Rightarrow> context_scope \<Rightarrow> bool" where
  "summaries_off db s \<longleftrightarrow>
     cs_type s = GroupType \<and> (case cs_group s of None \<Rightarrow> False | Some g \<Rightarrow> \<not> group_policy_enabled db g)"

definition found_by :: "context_env \<Rightarrow> memory_db \<Rightarrow> context_scope \<Rightarrow> memory_query list \<Rightarrow> semantic_result option \<Rightarrow> found_memories" where
  "found_by e db s qs sem =
     (let found = fold (follow_route e db s qs) (filter_routes s) ([], [])
      in case sem of None \<Rightarrow> found | Some r \<Rightarrow> fold (record_match db s qs (sm_identity r)) (sm_matches r) found)"

definition blocked_for :: "context_env \<Rightarrow> memory_db \<Rightarrow> context_scope \<Rightarrow> memory_error + jstr list" where
  "blocked_for e db s = (if summaries_off db s then blocked_summary_ids (value_or (cs_group s) []) None (ce_now e) db else Inr [])"

definition retrieval_tags :: "context_env \<Rightarrow> memory_db \<Rightarrow> context_scope \<Rightarrow> memory_query list \<Rightarrow> semantic_result option \<Rightarrow> jstr list" where
  "retrieval_tags e db s qs sem =
     (if summaries_off db s then [lit ''group_summary_policy=disabled''] else [])
     @ (if \<not> procedure_retrieval (ce_options e) then [lit ''procedure_retrieval=disabled''] else [])
     @ (if qs \<noteq> [] then [lit ''memory_ranking=query_fts_scope_recency_v1''] else [])
     @ (case sem of
          None \<Rightarrow> []
        | Some r \<Rightarrow> [lit ''semantic_status='' @ sm_status r, lit ''semantic_stale='' @ decimal (sm_stale r)]
            @ (if sm_truncated r then [lit ''semantic_scan=bounded''] else []))"

definition retrieve_memory :: "context_env \<Rightarrow> memory_db \<Rightarrow> context_scope \<Rightarrow> memory_query list \<Rightarrow> memory_error + retrieval" where
  "retrieve_memory e db s qs =
     (let sem = map_option (\<lambda>f. f (map mq_text qs) s) (ce_semantic e); found = found_by e db s qs sem
      in case blocked_for e db s of
           Inl m \<Rightarrow> Inl m
         | Inr blocked \<Rightarrow>
             let seen = filter (\<lambda>(i, m). i \<notin> set blocked) (fst found)
             in Inr \<lparr>rt_selected = sort_by (compare_rankings e (snd found))
                       (map snd (filter (\<lambda>(i, m). rejection_reason e s (md_row m) = None) seen)),
                     rt_rankings = snd found,
                     rt_candidates = map fst (fst found) @ filter (\<lambda>i. i \<notin> fst ` set (fst found)) blocked,
                     rt_rejected = map (\<lambda>i. (i, lit ''group_summary_policy_disabled'')) blocked
                       @ concat (map (\<lambda>(i, m). case rejection_reason e s (md_row m) of None \<Rightarrow> [] | Some why \<Rightarrow> [(i, why)]) seen),
                     rt_filters = retrieval_tags e db s qs sem\<rparr>)"

end
