(* ===== verification/Context_Budget.thy ===== *)
theory Context_Budget
  imports Context_Retrieval
begin

text \<open>
  How \<open>ContextBuilder\<close> (\<open>src/context/builder.ts\<close>) fits a context into its token budget: the references
  and participants it gives the selected messages, the texts it counts, the truncation of a message to
  the longest prefix that fits, and \<open>applyTokenBudget\<close>.
\<close>

section \<open>Identities and participants\<close>

record message_identity =
  mt_key :: jstr
  mt_user :: "jstr option"
  mt_name :: jstr
  mt_role :: "sender_role option"

record participant =
  pt_user :: "jstr option"
  pt_speaker :: "jstr option"
  pt_name :: jstr
  pt_card :: "jstr option"
  pt_role :: "sender_role option"
  pt_owner :: "bool option"
  pt_admin :: "bool option"
  pt_trusted :: "bool option"
  pt_account :: "jstr option"

record reply_reference =
  rp_resolved :: bool
  rp_source :: jstr
  rp_target :: "jstr option"
  rp_speaker :: "jstr option"
  rp_role :: "jstr option"
  rp_window :: "bool option"

record materialized =
  mz_messages :: "recent_message list"
  mz_participants :: "participant list"
  mz_current :: "jstr option"
  mz_reply :: "reply_reference option"

definition starts_with :: "string \<Rightarrow> jstr \<Rightarrow> bool" where
  "starts_with p s \<longleftrightarrow> take (length p) s = lit p"

definition default_identity :: "recent_message \<Rightarrow> message_identity" where
  "default_identity m = \<lparr>mt_key = (if rm_bot m then lit ''bot:self'' else lit ''sender:'' @ rm_sender m), mt_user = None,
     mt_name = (if rm_bot m then lit ''LetheBot'' else lit ''unknown''), mt_role = None\<rparr>"

definition identity_of :: "(jstr \<times> message_identity) list \<Rightarrow> recent_message \<Rightarrow> message_identity" where
  "identity_of ids m = (case map_of ids (rm_id m) of None \<Rightarrow> default_identity m | Some i \<Rightarrow> i)"

definition speaker_name :: "nat \<Rightarrow> jstr" where
  "speaker_name n = lit ''speaker_'' @ decimal n"

text \<open>The messages of a prompt: numbered, and one speaker for every identity in the order they appear.\<close>

fun refer ::
  "(jstr \<times> message_identity) list \<Rightarrow> jstr option \<Rightarrow> nat \<Rightarrow> (jstr \<times> jstr) list \<Rightarrow> recent_message list
    \<Rightarrow> recent_message list \<times> (jstr \<times> jstr) list" where
  "refer ids current n speakers [] = ([], speakers)"
| "refer ids current n speakers (m # ms) =
     (let i = identity_of ids m;
          speakers' = (if map_of speakers (mt_key i) = None
                       then speakers @ [(mt_key i, speaker_name (length speakers + 1))] else speakers);
          m' = m\<lparr>rm_name := mt_name i, rm_ref := Some (lit ''message_'' @ decimal n), rm_speaker := map_of speakers' (mt_key i),
                 rm_current := Some (Some (rm_id m) = current)\<rparr>
      in case refer ids current (Suc n) speakers' ms of (ms', sp) \<Rightarrow> (m' # ms', sp))"

definition account_of :: "participant \<Rightarrow> jstr option" where
  "account_of p = map_option (\<lambda>a. if starts_with ''qq-'' a then a else lit ''qq-'' @ a) (pt_account p)"

definition supplied_for :: "message_identity option \<Rightarrow> recent_message \<Rightarrow> participant list \<Rightarrow> participant option" where
  "supplied_for i m ps =
     find (\<lambda>p. (case i of None \<Rightarrow> False | Some j \<Rightarrow> mt_user j \<noteq> None \<and> pt_user p = mt_user j)
             \<or> account_of p = Some (rm_sender m)) ps"

definition participant_of :: "message_identity option \<Rightarrow> recent_message \<Rightarrow> participant option \<Rightarrow> participant" where
  "participant_of i m p =
     (let role = first_some (Option.bind i mt_role) (first_some (rm_role m) (Option.bind p pt_role));
          other = value_or (map_option pt_name p) (lit ''unknown'')
      in \<lparr>pt_user = first_some (Option.bind i mt_user) (Option.bind p pt_user), pt_speaker = rm_speaker m,
          pt_name = (case i of None \<Rightarrow> other | Some j \<Rightarrow> if mt_name j = lit ''unknown'' then other else mt_name j),
          pt_card = Option.bind p pt_card, pt_role = role,
          pt_owner = Some (value_or (Option.bind p pt_owner) (role = Some OwnerRole)),
          pt_admin = Some (value_or (Option.bind p pt_admin) (role = Some AdminRole \<or> role = Some OwnerRole)),
          pt_trusted = Some (value_or (Option.bind p pt_trusted) False), pt_account = None\<rparr>)"

fun speakers_of ::
  "(jstr \<times> message_identity) list \<Rightarrow> participant list \<Rightarrow> jstr list \<Rightarrow> recent_message list \<Rightarrow> participant list" where
  "speakers_of ids ps seen [] = []"
| "speakers_of ids ps seen (m # ms) =
     (case rm_speaker m of
        None \<Rightarrow> speakers_of ids ps seen ms
      | Some sp \<Rightarrow>
          if rm_bot m \<or> sp \<in> set seen then speakers_of ids ps seen ms
          else participant_of (map_of ids (rm_id m)) m (supplied_for (map_of ids (rm_id m)) m ps)
               # speakers_of ids ps (seen @ [sp]) ms)"

fun numbered_participants :: "nat \<Rightarrow> participant list \<Rightarrow> participant list" where
  "numbered_participants n [] = []"
| "numbered_participants n (p # ps) = p\<lparr>pt_speaker := Some (speaker_name n)\<rparr> # numbered_participants (Suc n) ps"

definition participants_for ::
  "chat_type \<Rightarrow> (jstr \<times> message_identity) list \<Rightarrow> participant list \<Rightarrow> bool \<Rightarrow> recent_message list \<Rightarrow> nat \<Rightarrow> participant list" where
  "participants_for ctx ids ps without ms next =
     (if ctx \<noteq> GroupType then []
      else if ms = [] then if without then numbered_participants next ps else []
      else speakers_of ids ps [] ms)"

definition reply_reference_of :: "reply_resolution \<Rightarrow> jstr \<Rightarrow> recent_message list \<Rightarrow> reply_reference" where
  "reply_reference_of r source ms =
     (let lost = \<lparr>rp_resolved = False, rp_source = source, rp_target = None, rp_speaker = None, rp_role = None, rp_window = None\<rparr>
      in case r of
           ReplyUnresolved \<Rightarrow> lost
         | ReplyResolved i w \<Rightarrow>
             (case find_message i ms of
                None \<Rightarrow> lost
              | Some m \<Rightarrow> \<lparr>rp_resolved = True, rp_source = source, rp_target = rm_ref m, rp_speaker = rm_speaker m,
                  rp_role = Some (if rm_bot m then lit ''bot'' else lit ''human''), rp_window = Some w\<rparr>))"

record budget_input =
  bi_messages :: "recent_message list"
  bi_memories :: "memory_record list"
  bi_fields :: "(jstr \<times> jstr) list"
  bi_participants :: "participant list"
  bi_type :: chat_type
  bi_current :: "jstr option"
  bi_reply :: "reply_resolution option"
  bi_identities :: "(jstr \<times> message_identity) list"
  bi_rankings :: "(jstr \<times> ranking) list"

definition materialize :: "budget_input \<Rightarrow> recent_message list \<Rightarrow> materialized" where
  "materialize b ms =
     (case refer (bi_identities b) (bi_current b) 1 [] ms of
        (ms', speakers) \<Rightarrow>
          let current = Option.bind (find (\<lambda>m. rm_current m = Some True) ms') rm_ref
          in \<lparr>mz_messages = ms',
              mz_participants = participants_for (bi_type b) (bi_identities b) (bi_participants b) (bi_messages b = []) ms'
                (length speakers + 1),
              mz_current = current,
              mz_reply = (case (bi_reply b, current) of (Some r, Some source) \<Rightarrow> Some (reply_reference_of r source ms') | _ \<Rightarrow> None)\<rparr>)"

section \<open>Texts that count\<close>

definition prompt_text :: "jstr \<Rightarrow> jstr" where
  "prompt_text t = concat (map (\<lambda>c. if c = 60 then [8249] else if c = 62 then [8250] else [c])
     (rx_replace (Rep 1 None (One (\<lambda>c. c = 10 \<or> c = 13))) (lit '' '') (redact_text t)))"

definition prompt_literal :: "jstr \<Rightarrow> jstr" where
  "prompt_literal t = json_string (prompt_text t)"

definition text_tokens :: "jstr \<Rightarrow> nat" where
  "text_tokens t = (length t + 1) div 2"

definition render_message :: "recent_message \<Rightarrow> jstr" where
  "render_message m =
     (if rm_bot m then value_or (rm_text m) []
      else let shown = lit ''sender_display_name='' @ prompt_literal (rm_name m)
           in case rm_text m of
                None \<Rightarrow> shown
              | Some t \<Rightarrow> if t = [] then shown else shown @ [10] @ lit ''message_text:'' @ [10] @ t)"

definition word_of :: "bool \<Rightarrow> jstr" where
  "word_of b = (if b then lit ''true'' else lit ''false'')"

definition reference_line :: "jstr option \<Rightarrow> recent_message \<Rightarrow> jstr list" where
  "reference_line current m =
     (case (rm_ref m, rm_speaker m) of
        (Some r, Some s) \<Rightarrow> [lit ''- message_ref='' @ r @ lit '' speaker_ref='' @ s @ lit '' role=''
          @ (if rm_bot m then lit ''bot'' else lit ''human'') @ lit '' current='' @ word_of (Some r = current)]
      | _ \<Rightarrow> [])"

definition named :: "string \<Rightarrow> jstr option \<Rightarrow> jstr list" where
  "named k v = (case v of None \<Rightarrow> [] | Some t \<Rightarrow> [lit k @ t])"

definition reply_line :: "reply_reference \<Rightarrow> jstr" where
  "reply_line r = join_with [32] ([lit ''- reply'', lit ''status='' @ (if rp_resolved r then lit ''resolved'' else lit ''unresolved''),
       lit ''source_message_ref='' @ rp_source r]
     @ named ''target_message_ref='' (rp_target r) @ named ''target_speaker_ref='' (rp_speaker r)
     @ named ''target_role='' (rp_role r) @ named ''target_in_rolling_window='' (map_option word_of (rp_window r)))"

definition render_references :: "recent_message list \<Rightarrow> jstr option \<Rightarrow> reply_reference option \<Rightarrow> jstr" where
  "render_references ms current reply =
     (if ms = [] then []
      else join_with [10] ([lit ''## Message References''] @ concat (map (reference_line current) ms)
             @ (case reply of None \<Rightarrow> [] | Some r \<Rightarrow> [reply_line r]) @ [[]]))"

definition summary_of :: "mem_scope \<Rightarrow> memory_row list \<Rightarrow> memory_row option" where
  "summary_of sc rs = find (\<lambda>r. mr_scope r = sc \<and> mr_kind r = SummaryKind) rs"

definition profile_lines :: "string \<Rightarrow> memory_row option \<Rightarrow> jstr list" where
  "profile_lines title r = (case r of None \<Rightarrow> [] | Some x \<Rightarrow> [lit title, mr_content x, []])"

definition render_memories :: "memory_row list \<Rightarrow> jstr" where
  "render_memories rs = join_with [10]
     (profile_lines ''## User Profile'' (summary_of MUser rs) @ profile_lines ''## Group Context'' (summary_of MGroup rs)
      @ (if rs = [] then []
         else [lit ''## Relevant Facts''] @ map (\<lambda>r. lit ''- **'' @ mr_title r @ lit ''**: '' @ mr_content r) rs @ [[]]))"

definition render_fields :: "(jstr \<times> jstr) list \<Rightarrow> jstr" where
  "render_fields fs =
     (if fs = [] then []
      else join_with [10] ([lit ''## Identity''] @ map (\<lambda>(k, v). lit ''- '' @ k @ lit ''='' @ prompt_literal v) fs @ [[]]))"

fun role_text :: "sender_role \<Rightarrow> jstr" where
  "role_text MemberRole = lit ''member''"
| "role_text AdminRole = lit ''admin''"
| "role_text OwnerRole = lit ''owner''"

definition participant_flags :: "participant \<Rightarrow> jstr list" where
  "participant_flags p = (if pt_owner p = Some True then [lit ''owner''] else []) @ (if pt_admin p = Some True then [lit ''admin''] else [])
     @ (if pt_trusted p = Some True then [lit ''trusted''] else [])"

definition participant_line :: "participant \<Rightarrow> jstr" where
  "participant_line p = join_with [32]
     ([lit ''- speaker_ref='' @ value_or (pt_speaker p) (lit ''speaker_unknown''), lit ''display_name='' @ prompt_literal (pt_name p)]
      @ (if participant_flags p = [] then [] else [lit ''flags=['' @ join_with (lit '', '') (participant_flags p) @ lit '']''])
      @ named ''role='' (map_option role_text (pt_role p))
      @ (case pt_card p of None \<Rightarrow> [] | Some c \<Rightarrow> if c = [] then [] else [lit ''group_card='' @ prompt_literal c]))"

definition render_participants :: "participant list \<Rightarrow> chat_type \<Rightarrow> jstr" where
  "render_participants ps ctx =
     (if ctx \<noteq> GroupType \<or> ps = [] then []
      else join_with [10] ([lit ''## Participants''] @ map participant_line ps @ [[]]))"

section \<open>The budget\<close>

definition max_budget :: nat where "max_budget = 8000"
definition system_tokens :: nat where "system_tokens = 300"

record token_use =
  us_messages :: nat
  us_memory :: nat
  us_fields :: nat
  us_participants :: nat
  us_references :: nat

definition tokens_used :: "token_use \<Rightarrow> nat" where
  "tokens_used u = us_messages u + us_memory u + us_fields u + us_participants u + us_references u + system_tokens"

definition current_speaker :: "materialized \<Rightarrow> jstr option" where
  "current_speaker z = Option.bind (find (\<lambda>m. rm_ref m = mz_current z \<and> rm_current m = Some True) (mz_messages z)) rm_speaker"

definition prompt_fields :: "materialized \<Rightarrow> (jstr \<times> jstr) list \<Rightarrow> (jstr \<times> jstr) list" where
  "prompt_fields z fs =
     map (\<lambda>(k, v). (k, if k = lit ''target_user_ref'' then value_or (current_speaker z) v else v)) fs"

definition calculate_tokens :: "budget_input \<Rightarrow> materialized \<Rightarrow> memory_record list \<Rightarrow> token_use" where
  "calculate_tokens b z mems =
     \<lparr>us_messages = sum_list (map (text_tokens \<circ> render_message) (mz_messages z)),
      us_memory = text_tokens (render_memories (map md_row mems)),
      us_fields = text_tokens (render_fields (prompt_fields z (bi_fields b))),
      us_participants = text_tokens (render_participants (mz_participants z) (bi_type b)),
      us_references = text_tokens (render_references (mz_messages z) (mz_current z) (mz_reply z))\<rparr>"

type_synonym chosen_messages = "(nat \<times> recent_message) list"

definition chosen_order :: "chosen_messages \<Rightarrow> recent_message list" where
  "chosen_order sel = map snd (sort_by (\<lambda>a b. int (fst a) - int (fst b)) sel)"

definition selection_tokens :: "budget_input \<Rightarrow> chosen_messages \<Rightarrow> memory_record list \<Rightarrow> nat" where
  "selection_tokens b sel mems = tokens_used (calculate_tokens b (materialize b (chosen_order sel)) mems)"

definition within :: "budget_input \<Rightarrow> chosen_messages \<Rightarrow> memory_record list \<Rightarrow> bool" where
  "within b sel mems \<longleftrightarrow> selection_tokens b sel mems \<le> max_budget"

section \<open>Truncation\<close>

definition cut_marker :: jstr where
  "cut_marker = lit '' [truncated]''"

definition cut_to :: "nat \<Rightarrow> recent_message \<Rightarrow> recent_message" where
  "cut_to n m = m\<lparr>rm_text := Some (take n (value_or (rm_text m) []) @ cut_marker)\<rparr>"

text \<open>The binary search of \<open>truncateMessageToFit\<close>.\<close>

function search_fit :: "(nat \<Rightarrow> bool) \<Rightarrow> int \<Rightarrow> int \<Rightarrow> nat option \<Rightarrow> nat option" where
  "search_fit fits low high best =
     (if high < low then best
      else let mid = (low + high) div 2
           in if fits (nat mid) then search_fit fits (mid + 1) high (Some (nat mid)) else search_fit fits low (mid - 1) best)"
  by pat_completeness auto
termination
  by (relation "measure (\<lambda>(fits, low, high, best). nat (high - low + 1))") auto

declare search_fit.simps [simp del]

definition truncate_to_fit :: "recent_message \<Rightarrow> (recent_message \<Rightarrow> bool) \<Rightarrow> recent_message option" where
  "truncate_to_fit m fits =
     map_option (\<lambda>n. cut_to n m)
       (search_fit (\<lambda>n. fits (cut_to n m)) 0 (int (length (value_or (rm_text m) []))) None)"

section \<open>Profiles\<close>

definition compare_profiles :: "context_env \<Rightarrow> memory_record \<Rightarrow> memory_record \<Rightarrow> int" where
  "compare_profiles e x y =
     (let a = md_row x; b = md_row y
      in first_nonzero [mr_confidence b - mr_confidence a, mr_importance b - mr_importance a, mr_updated b - mr_updated a,
           ce_locale e (mr_id a) (mr_id b)])"

definition best_profile :: "context_env \<Rightarrow> mem_scope \<Rightarrow> memory_record list \<Rightarrow> memory_record option" where
  "best_profile e sc ms =
     (case sort_by (compare_profiles e) (filter (\<lambda>m. mr_scope (md_row m) = sc \<and> mr_kind (md_row m) = SummaryKind) ms) of
        [] \<Rightarrow> None | m # _ \<Rightarrow> Some m)"

definition priority_profiles :: "context_env \<Rightarrow> memory_record list \<Rightarrow> memory_record list" where
  "priority_profiles e ms = List.map_filter (\<lambda>sc. best_profile e sc ms) [MUser, MGroup]"

definition order_for_budget :: "context_env \<Rightarrow> (jstr \<times> ranking) list \<Rightarrow> memory_record list \<Rightarrow> memory_record list" where
  "order_for_budget e ranks ms =
     (let ps = priority_profiles e ms
      in ps @ sort_by (compare_rankings e ranks) (filter (\<lambda>m. md_id m \<notin> md_id ` set ps) ms))"

section \<open>Selection\<close>

datatype context_error =
    GroupIdNotAllowed | GroupIdRequired | GroupIdUntrimmed | CurrentUnavailable | FixedLayersTooLarge | CurrentTooLarge
  | QuoteTooLarge | CurrentAndQuoteTooLarge | SelectionExceeded | RankingMissing | MemoryFailed memory_error

definition index_of_message :: "jstr option \<Rightarrow> recent_message list \<Rightarrow> nat option" where
  "index_of_message i ms = (if list_ex (\<lambda>m. Some (rm_id m) = i) ms then Some (length (takeWhile (\<lambda>m. Some (rm_id m) \<noteq> i) ms)) else None)"

definition cut_current_tag :: jstr where
  "cut_current_tag = lit ''token_budget:latest_user_message_truncated''"

definition cut_quote_tag :: jstr where
  "cut_quote_tag = lit ''token_budget:quote_target_truncated''"

definition take_current :: "budget_input \<Rightarrow> nat option \<Rightarrow> context_error + chosen_messages \<times> jstr list" where
  "take_current b i =
     (case i of
        None \<Rightarrow> Inr ([], [])
      | Some k \<Rightarrow>
          let m = bi_messages b ! k
          in if within b [(k, m)] [] then Inr ([(k, m)], [])
             else (case truncate_to_fit m (\<lambda>c. within b [(k, c)] []) of
                     None \<Rightarrow> Inl CurrentTooLarge | Some c \<Rightarrow> Inr ([(k, c)], [cut_current_tag])))"

definition add_tag :: "jstr \<Rightarrow> jstr list \<Rightarrow> jstr list" where
  "add_tag t ts = (if t \<in> set ts then ts else ts @ [t])"

definition least_quote :: "recent_message \<Rightarrow> recent_message" where
  "least_quote m = (case rm_text m of None \<Rightarrow> m | Some t \<Rightarrow> m\<lparr>rm_text := Some cut_marker\<rparr>)"

definition take_quote ::
  "budget_input \<Rightarrow> nat option \<Rightarrow> nat option \<Rightarrow> chosen_messages \<Rightarrow> jstr list \<Rightarrow> context_error + chosen_messages \<times> jstr list" where
  "take_quote b current quote sel tags =
     (case quote of
        None \<Rightarrow> Inr (sel, tags)
      | Some k \<Rightarrow>
          if quote = current then Inr (sel, tags)
          else let m = bi_messages b ! k
               in if within b (sel @ [(k, m)]) [] then Inr (sel @ [(k, m)], tags)
                  else (case truncate_to_fit m (\<lambda>c. within b (sel @ [(k, c)]) []) of
                          Some c \<Rightarrow> Inr (sel @ [(k, c)], tags @ [cut_quote_tag])
                        | None \<Rightarrow>
                            (case sel of
                               [] \<Rightarrow> Inl QuoteTooLarge
                             | (j, c) # rest \<Rightarrow>
                                 (case truncate_to_fit c (\<lambda>d. within b (rest @ [(j, d), (k, least_quote m)]) []) of
                                    None \<Rightarrow> Inl CurrentAndQuoteTooLarge
                                  | Some d \<Rightarrow> Inr (((j, d) # rest) @ [(k, least_quote m)], add_tag cut_current_tag tags @ [cut_quote_tag])))))"

text \<open>Memories taken one after the other while they fit; those that do not are skipped.\<close>

fun take_memories :: "budget_input \<Rightarrow> chosen_messages \<Rightarrow> memory_record list \<Rightarrow> memory_record list \<Rightarrow> memory_record list" where
  "take_memories b sel chosen [] = chosen"
| "take_memories b sel chosen (m # ms) =
     take_memories b sel (if within b sel (chosen @ [m]) then chosen @ [m] else chosen) ms"

text \<open>Older messages, the newest first, until one does not fit.\<close>

fun take_recent :: "budget_input \<Rightarrow> nat option list \<Rightarrow> memory_record list \<Rightarrow> chosen_messages \<Rightarrow> nat list \<Rightarrow> chosen_messages" where
  "take_recent b required mems sel [] = sel"
| "take_recent b required mems sel (i # is) =
     (if Some i \<in> set required then take_recent b required mems sel is
      else if within b (sel @ [(i, bi_messages b ! i)]) mems
      then take_recent b required mems (sel @ [(i, bi_messages b ! i)]) is else sel)"

record budget_result =
  br_context :: materialized
  br_memories :: "memory_record list"
  br_use :: token_use
  br_rejected :: "(jstr \<times> jstr) list"
  br_tags :: "jstr list"

definition omitted_tags :: "budget_input \<Rightarrow> materialized \<Rightarrow> jstr list" where
  "omitted_tags b z =
     (let left = length (bi_messages b) - length (mz_messages z);
          shown = List.map_filter pt_user (mz_participants z);
          out = length (filter (\<lambda>p. case pt_user p of None \<Rightarrow> True | Some u \<Rightarrow> u \<notin> set shown) (bi_participants b))
      in (if 0 < left then [lit ''token_budget:recent_messages_omitted='' @ decimal left] else [])
         @ (if 0 < out \<and> bi_messages b \<noteq> [] then [lit ''token_budget:participants_omitted='' @ decimal out] else []))"

definition over_budget :: "jstr list \<Rightarrow> jstr list \<Rightarrow> (jstr \<times> jstr) list" where
  "over_budget ordered chosen = map (\<lambda>i. (i, lit ''token_budget_exceeded'')) (filter (\<lambda>i. i \<notin> set chosen) (remdups ordered))"

definition apply_token_budget :: "context_env \<Rightarrow> budget_input \<Rightarrow> context_error + budget_result" where
  "apply_token_budget e b =
     (let ms = bi_messages b; current = (case bi_current b of None \<Rightarrow> None | i \<Rightarrow> index_of_message i ms);
          quote = (case quoted_id (bi_reply b) of None \<Rightarrow> None | i \<Rightarrow> index_of_message i ms)
      in if \<not> within b [] [] then Inl FixedLayersTooLarge
         else case take_current b current of
                Inl x \<Rightarrow> Inl x
              | Inr (sel, tags) \<Rightarrow>
                  (case take_quote b current quote sel tags of
                     Inl x \<Rightarrow> Inl x
                   | Inr (sel', tags') \<Rightarrow>
                       let profiles = priority_profiles e (bi_memories b);
                           first = take_memories b sel' [] profiles;
                           sel'' = take_recent b [current, quote] first sel' (rev [0..<length ms]);
                           rest = filter (\<lambda>m. md_id m \<notin> md_id ` set profiles) (order_for_budget e (bi_rankings b) (bi_memories b));
                           chosen = take_memories b sel'' first rest;
                           z = materialize b (chosen_order sel'')
                       in if \<not> within b sel'' chosen then Inl SelectionExceeded
                          else Inr \<lparr>br_context = z, br_memories = chosen, br_use = calculate_tokens b z chosen,
                                    br_rejected = over_budget (map md_id profiles @ map md_id rest @ map md_id (bi_memories b)) (map md_id chosen),
                                    br_tags = tags' @ omitted_tags b z\<rparr>))"

end
