(* ===== verification/Context_Builder.thy ===== *)
theory Context_Builder
  imports Context_Budget
begin

text \<open>
  \<open>ContextBuilder.buildContext\<close> of \<open>src/context/builder.ts\<close>: the messages of a conversation from the
  table and from the caller, the message replied to, the current message, who sent them, the memories
  they call for and the pack that fits the budget.  A stored message is the join of its row with the
  source of its raw event; the table is in the order of the rows.  Identifiers and times of the pack are
  not modelled.
\<close>

section \<open>Stored messages\<close>

record stored_message =
  sg_id :: jstr
  sg_message :: jstr
  sg_conversation :: jstr
  sg_type :: chat_type
  sg_group :: "jstr option"
  sg_sender :: jstr
  sg_role :: "sender_role option"
  sg_text :: "jstr option"
  sg_time :: int
  sg_source :: "jstr option"

definition bot_sender :: "jstr \<Rightarrow> jstr option \<Rightarrow> bool" where
  "bot_sender s source \<longleftrightarrow> source = Some (lit ''agent'') \<or> s = lit ''bot'' \<or> s = lit ''bot-self'' \<or> starts_with ''bot-'' s"

definition sender_name :: "jstr \<Rightarrow> bool \<Rightarrow> jstr" where
  "sender_name s own =
     (if own then lit ''bot-self'' else if starts_with ''qq-'' s \<or> starts_with ''user-'' s then s else lit ''qq-'' @ s)"

definition stored_to_recent :: "stored_message \<Rightarrow> recent_message" where
  "stored_to_recent r =
     (let own = bot_sender (sg_sender r) (sg_source r)
      in \<lparr>rm_id = sg_id r, rm_sender = sender_name (sg_sender r) own, rm_name = (if own then lit ''LetheBot'' else lit ''unknown''),
          rm_text = sg_text r, rm_time = sg_time r, rm_bot = own, rm_role = sg_role r, rm_ref = None, rm_speaker = None, rm_current = None\<rparr>)"

text \<open>The newest first, the later row first among those of one time.\<close>

definition newest_first :: "stored_message list \<Rightarrow> stored_message list" where
  "newest_first rows = sort_key (\<lambda>r. - sg_time r) (rev rows)"

definition load_recent :: "context_scope \<Rightarrow> nat \<Rightarrow> stored_message list \<Rightarrow> recent_message list" where
  "load_recent s limit rows =
     map stored_to_recent (rev (take limit (newest_first (filter (\<lambda>r. sg_conversation r = cs_conversation s \<and> sg_type r = cs_type s
       \<and> (if cs_type s = GroupType \<and> cs_group s \<noteq> None then sg_group r = cs_group s else sg_group r = None)) rows))))"

definition load_reply_target :: "context_scope \<Rightarrow> jstr \<Rightarrow> stored_message list \<Rightarrow> recent_message list" where
  "load_reply_target s platform_id rows =
     (if cs_type s = GroupType \<and> cs_group s = None then []
      else map stored_to_recent (take 2 (newest_first (filter (\<lambda>r. sg_message r = platform_id \<and> sg_conversation r = cs_conversation s
        \<and> sg_type r = cs_type s \<and> (if cs_type s = GroupType then sg_group r = cs_group s else sg_group r = None)) rows))))"

section \<open>The input\<close>

record context_input =
  ci_conversation :: jstr
  ci_type :: chat_type
  ci_recent :: "recent_message list"
  ci_participants :: "participant list"
  ci_target :: "jstr option"
  ci_user :: "jstr option"
  ci_group :: "jstr option"
  ci_limit :: nat
  ci_memory :: bool
  ci_current :: "jstr option"
  ci_reply :: "jstr option"

definition target_user :: "context_input \<Rightarrow> jstr option" where
  "target_user i = first_some (ci_target i) (ci_user i)"

definition scope_of :: "context_input \<Rightarrow> context_scope" where
  "scope_of i = \<lparr>cs_user = target_user i, cs_type = ci_type i, cs_group = ci_group i, cs_conversation = ci_conversation i\<rparr>"

definition check_group :: "context_input \<Rightarrow> context_error option" where
  "check_group i =
     (if ci_type i = PrivateType then (if ci_group i \<noteq> None then Some GroupIdNotAllowed else None)
      else case ci_group i of
             None \<Rightarrow> Some GroupIdRequired
           | Some g \<Rightarrow> if g = [] then Some GroupIdRequired else if js_trim g \<noteq> g then Some GroupIdUntrimmed else None)"

section \<open>Messages of a context\<close>

record gathered =
  gt_messages :: "recent_message list"
  gt_reply :: "reply_resolution option"
  gt_persisted :: "jstr list"

definition loaded_messages :: "context_input \<Rightarrow> stored_message list option \<Rightarrow> recent_message list" where
  "loaded_messages i rows = (case rows of None \<Rightarrow> [] | Some rs \<Rightarrow> load_recent (scope_of i) (ci_limit i) rs)"

definition all_messages :: "context_input \<Rightarrow> stored_message list option \<Rightarrow> recent_message list" where
  "all_messages i rows =
     filter (\<lambda>m. rm_id m \<notin> rm_id ` set (ci_recent i)) (loaded_messages i rows) @ ci_recent i"

definition gather_messages :: "context_input \<Rightarrow> stored_message list option \<Rightarrow> gathered" where
  "gather_messages i rows =
     (let loaded = loaded_messages i rows; ms = all_messages i rows; ids = map rm_id loaded
      in case ci_reply i of
           None \<Rightarrow> \<lparr>gt_messages = ms, gt_reply = None, gt_persisted = ids\<rparr>
         | Some p \<Rightarrow>
             (case (case rows of None \<Rightarrow> [] | Some rs \<Rightarrow> load_reply_target (scope_of i) p rs) of
                [t] \<Rightarrow> \<lparr>gt_messages = (if list_ex (\<lambda>m. rm_id m = rm_id t) ms then ms else t # ms),
                        gt_reply = Some (ReplyResolved (rm_id t) (rm_id t \<in> set ids)), gt_persisted = ids @ [rm_id t]\<rparr>
              | _ \<Rightarrow> \<lparr>gt_messages = ms, gt_reply = Some ReplyUnresolved, gt_persisted = ids\<rparr>))"

definition resolve_current :: "recent_message list \<Rightarrow> jstr option \<Rightarrow> context_error + jstr option" where
  "resolve_current ms given_id =
     (case given_id of
        Some c \<Rightarrow> if list_ex (\<lambda>m. rm_id m = c) ms then Inr (Some c) else Inl CurrentUnavailable
      | None \<Rightarrow> Inr (map_option rm_id (find (\<lambda>m. \<not> rm_bot m) (rev ms))))"

definition canonical_sender :: "context_env \<Rightarrow> recent_message \<Rightarrow> jstr option" where
  "canonical_sender e m =
     (if starts_with ''user-'' (rm_sender m) then Some (rm_sender m)
      else ce_user e (if starts_with ''qq-'' (rm_sender m) then drop 3 (rm_sender m) else rm_sender m))"

definition filled_text :: "jstr option \<Rightarrow> jstr option" where
  "filled_text t = (case t of None \<Rightarrow> None | Some s \<Rightarrow> if s = [] then None else Some s)"

definition message_identity_of :: "context_env \<Rightarrow> context_input \<Rightarrow> jstr list \<Rightarrow> recent_message \<Rightarrow> message_identity" where
  "message_identity_of e i persisted m =
     (if rm_bot m then \<lparr>mt_key = lit ''bot:self'', mt_user = None, mt_name = lit ''LetheBot'', mt_role = None\<rparr>
      else let u = canonical_sender e m;
               profile = (case u of None \<Rightarrow> None
                 | Some c \<Rightarrow> if ci_type i = GroupType \<and> ci_group i = None then None
                            else ce_profile e c (if ci_type i = GroupType then ci_group i else None));
               supplied = (if (rm_id m \<in> rm_id ` set (ci_recent i) \<or> rm_id m \<notin> set persisted)
                             \<and> js_trim (rm_name m) \<noteq> [] \<and> rm_name m \<noteq> rm_sender m then Some (rm_name m) else None)
           in \<lparr>mt_key = (case u of
                 Some c \<Rightarrow> lit ''canonical:'' @ c
               | None \<Rightarrow> if rm_sender m = lit ''unknown'' \<or> rm_sender m = lit ''qq-unknown''
                         then lit ''unresolved-message:'' @ rm_id m else lit ''sender:'' @ rm_sender m),
               mt_user = u, mt_name = value_or (first_some (filled_text profile) supplied) (lit ''unknown''), mt_role = rm_role m\<rparr>)"

definition message_identities :: "context_env \<Rightarrow> context_input \<Rightarrow> gathered \<Rightarrow> (jstr \<times> message_identity) list" where
  "message_identities e i g =
     fold (\<lambda>m ids. AList.update (rm_id m) (message_identity_of e i (gt_persisted g) m) ids) (gt_messages g) []"

definition identity_fields :: "context_input \<Rightarrow> (jstr \<times> jstr) list" where
  "identity_fields i =
     [(lit ''conversation_id'', ci_conversation i), (lit ''conversation_type'', if ci_type i = GroupType then lit ''group'' else lit ''private'')]
     @ (case filled_text (ci_group i) of None \<Rightarrow> [] | Some g \<Rightarrow> [(lit ''group_id'', g)])
     @ (case filled_text (target_user i) of None \<Rightarrow> [] | Some u \<Rightarrow> [(lit ''target_user_ref'', u)])"

section \<open>The pack\<close>

datatype selection_reason = ProfilePriority | QueryMatch | RankedFallback

record memory_selection =
  ms_memory :: jstr
  ms_sources :: "query_source list"
  ms_methods :: "retrieval_method list"
  ms_affinity :: scope_affinity
  ms_rank :: nat
  ms_semantic :: "(int \<times> semantic_identity) option"
  ms_reason :: selection_reason

definition selection_evidence ::
  "(jstr \<times> ranking) list \<Rightarrow> jstr list \<Rightarrow> jstr list \<Rightarrow> memory_record \<Rightarrow> memory_selection option" where
  "selection_evidence ranks ordered profiles m =
     (case map_of ranks (md_id m) of
        None \<Rightarrow> None
      | Some k \<Rightarrow>
          if md_id m \<notin> set ordered then None
          else let sources = filter (\<lambda>q. q \<in> set (rk_sources k)) [CurrentMessage, QuotedMessage, RecentThread]
               in Some \<lparr>ms_memory = md_id m, ms_sources = sources,
                    ms_methods = filter (\<lambda>q. q \<in> set (rk_methods k)) [ScopedRank, FullText, SemanticMatch],
                    ms_affinity = rk_affinity k, ms_rank = length (takeWhile (\<lambda>j. j \<noteq> md_id m) ordered) + 1,
                    ms_semantic = rk_semantic k,
                    ms_reason = (if md_id m \<in> set profiles then ProfilePriority else if sources \<noteq> [] then QueryMatch else RankedFallback)\<rparr>)"

record context_pack =
  cp_messages :: "recent_message list"
  cp_current :: "jstr option"
  cp_reply :: "reply_reference option"
  cp_memories :: "memory_record list"
  cp_user_profile :: "memory_row option"
  cp_group_profile :: "memory_row option"
  cp_participants :: "participant list"
  cp_fields :: "jstr list"
  cp_field_data :: "(jstr \<times> jstr) list"
  cp_use :: token_use
  cp_candidates :: "jstr list"
  cp_rejected :: "(jstr \<times> jstr) list"
  cp_selections :: "memory_selection list"
  cp_filters :: "jstr list"

definition injected_fields :: "context_input \<Rightarrow> materialized \<Rightarrow> jstr list" where
  "injected_fields i z =
     map lit [''conversation_id'', ''conversation_type''] @ (if present (ci_group i) then [lit ''group_id''] else [])
     @ (if present (target_user i) then [lit ''target_user_ref''] else [])
     @ (if ci_type i = GroupType \<and> mz_participants z \<noteq> [] then [lit ''participant_context''] else [])
     @ (if mz_current z \<noteq> None then [lit ''message_reference_context''] else [])
     @ (if mz_reply z \<noteq> None then [lit ''reply_reference''] else [])"

definition memory_filter_tags :: "context_input \<Rightarrow> retrieval \<Rightarrow> jstr list" where
  "memory_filter_tags i rt =
     (if \<not> ci_memory i then [lit ''memory=excluded_by_caller'']
      else [lit ''state=active'', lit ''sensitivity!=secret/prohibited'',
            lit ''contextType='' @ (if ci_type i = GroupType then lit ''group'' else lit ''private''), lit ''visibility_scope_filter'']
           @ rt_filters rt)"

definition pack_of ::
  "context_env \<Rightarrow> context_input \<Rightarrow> retrieval \<Rightarrow> budget_result \<Rightarrow> context_error + context_pack" where
  "pack_of e i rt br =
     (let ordered = map md_id (order_for_budget e (rt_rankings rt) (rt_selected rt));
          profiles = map md_id (priority_profiles e (rt_selected rt)); z = br_context br; rows = map md_row (br_memories br)
      in case all_some (selection_evidence (rt_rankings rt) ordered profiles) (br_memories br) of
           None \<Rightarrow> Inl RankingMissing
         | Some selections \<Rightarrow> Inr \<lparr>cp_messages = mz_messages z, cp_current = mz_current z, cp_reply = mz_reply z,
             cp_memories = br_memories br, cp_user_profile = summary_of MUser rows, cp_group_profile = summary_of MGroup rows,
             cp_participants = mz_participants z, cp_fields = injected_fields i z, cp_field_data = identity_fields i,
             cp_use = br_use br, cp_candidates = rt_candidates rt, cp_rejected = rt_rejected rt @ br_rejected br,
             cp_selections = selections, cp_filters = memory_filter_tags i rt @ br_tags br\<rparr>)"

definition budget_input_of ::
  "context_env \<Rightarrow> context_input \<Rightarrow> gathered \<Rightarrow> jstr option \<Rightarrow> retrieval \<Rightarrow> budget_input" where
  "budget_input_of e i g current rt = \<lparr>bi_messages = gt_messages g, bi_memories = rt_selected rt, bi_fields = identity_fields i,
     bi_participants = ci_participants i, bi_type = ci_type i, bi_current = current, bi_reply = gt_reply g,
     bi_identities = message_identities e i g, bi_rankings = rt_rankings rt\<rparr>"

definition memories_for ::
  "context_env \<Rightarrow> context_input \<Rightarrow> gathered \<Rightarrow> jstr option \<Rightarrow> memory_db \<Rightarrow> memory_error + retrieval" where
  "memories_for e i g current db =
     (if ci_memory i then retrieve_memory e db (scope_of i) (memory_queries e (gt_messages g) current (gt_reply g)) else Inr no_retrieval)"

definition build_context :: "context_env \<Rightarrow> context_input \<Rightarrow> stored_message list option \<Rightarrow> memory_db \<Rightarrow> context_error + context_pack" where
  "build_context e i rows db =
     (case check_group i of
        Some x \<Rightarrow> Inl x
      | None \<Rightarrow>
          let g = gather_messages i rows
          in case resolve_current (gt_messages g) (ci_current i) of
               Inl x \<Rightarrow> Inl x
             | Inr current \<Rightarrow>
                 (case memories_for e i g current db of
                    Inl m \<Rightarrow> Inl (MemoryFailed m)
                  | Inr rt \<Rightarrow>
                      (case apply_token_budget e (budget_input_of e i g current rt) of
                         Inl x \<Rightarrow> Inl x
                       | Inr br \<Rightarrow> pack_of e i rt br)))"

end
