(* ===== verification/Context_Facts.thy ===== *)
theory Context_Facts
  imports Context_Builder
begin

text \<open>
  Facts on the building of a context: what retrieval finds and how its rankings follow it, the binary
  search of a truncation, the selection that stays within the budget at every step, and how a text bears
  on the tokens counted.
\<close>

section \<open>What retrieval finds\<close>

text \<open>Every memory found is the record of a stored row under its own id, and it has a ranking.\<close>

definition found_ok :: "memory_db \<Rightarrow> found_memories \<Rightarrow> bool" where
  "found_ok db found \<longleftrightarrow> distinct (map fst (fst found)) \<and> fst ` set (fst found) \<subseteq> fst ` set (snd found)
     \<and> (\<forall>(i, m) \<in> set (fst found). md_id m = i \<and> (\<exists>r \<in> set (memories db). m = row_to_record db r))"

definition stored_records :: "memory_db \<Rightarrow> memory_record list \<Rightarrow> bool" where
  "stored_records db ms \<longleftrightarrow> (\<forall>m \<in> set ms. \<exists>r \<in> set (memories db). m = row_to_record db r)"

lemma found_ok_empty [simp]: "found_ok db ([], [])"
  by (simp add: found_ok_def)

lemma update_set: "p \<in> set (AList.update k v xs) \<Longrightarrow> p = (k, v) \<or> p \<in> set xs"
  by (induction xs) (auto split: if_splits)

lemma update_keys: "fst ` set (AList.update k v xs) = insert k (fst ` set xs)"
  by (induction xs) auto

lemma record_found_ok:
  "found_ok db found \<Longrightarrow> stored_records db ms \<Longrightarrow> found_ok db (record_found s how src n ms found)"
proof (induction s how src n ms found rule: record_found.induct)
  case (2 s how src n m ms all ranks)
  let ?f = "(AList.update (md_id m) m all, AList.update (md_id m)
    (ranked how src n (case map_of ranks (md_id m) of None \<Rightarrow> new_ranking s m | Some k \<Rightarrow> k)) ranks)"
  have "found_ok db ?f"
    using 2(2,3) unfolding found_ok_def stored_records_def
    by (auto simp: update_keys distinct_update dest!: update_set)
  moreover have "stored_records db ms" using 2(3) by (simp add: stored_records_def)
  ultimately show ?case using 2(1) by simp
qed simp

lemma retrieve_stored: "stored_records db (retrieve opts f now db)"
  unfolding stored_records_def retrieve_def by (auto dest!: in_set_takeD)

lemma search_stored: "stored_records db (search fts opts q f now db)"
  unfolding stored_records_def search_def by (auto dest!: in_set_takeD)

lemma fold_keeps: "(\<And>x acc. P acc \<Longrightarrow> P (f x acc)) \<Longrightarrow> P acc \<Longrightarrow> P (fold f xs acc)"
  by (induction xs arbitrary: acc) auto

lemma search_route_ok: "found_ok db found \<Longrightarrow> found_ok db (search_route e db s f q found)"
  unfolding search_route_def by (auto split: option.split intro: record_found_ok search_stored)

lemma follow_route_ok: "found_ok db found \<Longrightarrow> found_ok db (follow_route e db s qs f found)"
  unfolding follow_route_def Let_def
  by (auto intro!: fold_keeps [where P = "found_ok db"] search_route_ok record_found_ok retrieve_stored)

lemma record_match_ok:
  assumes "found_ok db found"
  shows "found_ok db (record_match db s qs who mt found)"
proof (cases mt)
  case (fields i memory score)
  show ?thesis
  proof (cases "find_by_id memory db = None \<or> who = None \<or> length qs \<le> i")
    case True
    with assms fields show ?thesis by (auto simp: record_match_def split: option.splits)
  next
    case False
    then obtain m model where m: "find_by_id memory db = Some m" "who = Some model" "\<not> length qs \<le> i" by auto
    then have "stored_records db [m]"
      by (auto simp: stored_records_def find_by_id_def find_memory_def find_Some_iff)
    from record_found_ok [OF assms this] obtain all ranks where
      r: "record_found s SemanticMatch (Some (mq_source (qs ! i))) 1 [m] found = (all, ranks)" and ok: "found_ok db (all, ranks)"
      by (metis prod.collapse)
    have "found_ok db (all, AList.update k v ranks)" for k v
      using ok by (auto simp: found_ok_def update_keys)
    with r ok m fields show ?thesis by (auto simp: record_match_def split: option.split)
  qed
qed

lemma found_by_ok: "found_ok db (found_by e db s qs sem)"
  unfolding found_by_def Let_def
  by (auto split: option.split intro!: fold_keeps [where P = "found_ok db"] follow_route_ok record_match_ok)

section \<open>The binary search\<close>

lemma search_fit_sound:
  "search_fit fits low high best = Some n \<Longrightarrow> 0 \<le> low \<Longrightarrow> best = Some n \<or> (fits n \<and> low \<le> int n \<and> int n \<le> high)"
proof (induction fits low high best rule: search_fit.induct)
  case (1 fits low high best)
  show ?case
  proof (cases "high < low")
    case True
    with 1(3) show ?thesis by (simp add: search_fit.simps)
  next
    case False
    let ?mid = "(low + high) div 2"
    have mid: "low \<le> ?mid" "?mid \<le> high" using False by simp_all
    show ?thesis
    proof (cases "fits (nat ?mid)")
      case True
      with 1(3) False have "search_fit fits (?mid + 1) high (Some (nat ?mid)) = Some n" by (subst (asm) search_fit.simps) (simp add: Let_def)
      from 1(1) [OF False refl True this] mid 1(4) True show ?thesis by auto
    next
      case No: False
      with 1(3) False have "search_fit fits low (?mid - 1) best = Some n" by (subst (asm) search_fit.simps) (simp add: Let_def)
      from 1(2) [OF False refl No this 1(4)] mid show ?thesis by auto
    qed
  qed
qed

text \<open>On a test that a shorter prefix passes whenever a longer one does, it finds the longest.\<close>

lemma search_fit_longest:
  assumes "\<And>n m. n \<le> m \<Longrightarrow> fits m \<Longrightarrow> fits n"
  shows "0 \<le> low \<Longrightarrow> low \<le> high + 1 \<Longrightarrow> high \<le> h \<Longrightarrow>
    (if low = 0 then best = None else best = Some (nat (low - 1)) \<and> fits (nat (low - 1))) \<Longrightarrow>
    (\<And>n. high < int n \<Longrightarrow> int n \<le> h \<Longrightarrow> \<not> fits n) \<Longrightarrow>
    (case search_fit fits low high best of
       None \<Rightarrow> \<forall>n. int n \<le> h \<longrightarrow> \<not> fits n
     | Some n \<Rightarrow> fits n \<and> int n \<le> h \<and> (\<forall>m. n < m \<and> int m \<le> h \<longrightarrow> \<not> fits m))"
  using assms
proof (induction fits low high best rule: search_fit.induct)
  case (1 fits low high best)
  show ?case
  proof (cases "high < low")
    case True
    with 1(4) have low: "low = high + 1" by simp
    with True have "search_fit fits low high best = best" by (simp add: search_fit.simps)
    with low 1(3,5-7) show ?thesis by (cases "low = 0") auto
  next
    case False
    let ?mid = "(low + high) div 2"
    have mid: "low \<le> ?mid" "?mid \<le> high" "0 \<le> ?mid" using False 1(3) by simp_all
    show ?thesis
    proof (cases "fits (nat ?mid)")
      case True
      have step: "search_fit fits low high best = search_fit fits (?mid + 1) high (Some (nat ?mid))"
        using False True by (subst search_fit.simps) (simp add: Let_def)
      show ?thesis unfolding step
        by (rule 1(1) [OF False refl True]) (use mid 1(5,7,8) True in auto)
    next
      case No: False
      have step: "search_fit fits low high best = search_fit fits low (?mid - 1) best"
        using False No by (subst search_fit.simps) (simp add: Let_def)
      have none: "\<not> fits n" if "?mid - 1 < int n" "int n \<le> h" for n
      proof
        assume "fits n"
        moreover have "nat ?mid \<le> n" using that(1) by simp
        ultimately have "fits (nat ?mid)" using 1(8) by blast
        with No show False ..
      qed
      show ?thesis unfolding step
        by (rule 1(2) [OF False refl No]) (use mid 1(3,5,6,8) none in auto)
    qed
  qed
qed

section \<open>Selections within the budget\<close>

lemma truncate_fits:
  assumes "truncate_to_fit m fits = Some c"
  shows "\<exists>n. c = cut_to n m \<and> fits c \<and> n \<le> length (value_or (rm_text m) [])"
proof -
  from assms obtain n where n: "search_fit (\<lambda>n. fits (cut_to n m)) 0 (int (length (value_or (rm_text m) []))) None = Some n"
    and c: "c = cut_to n m" by (auto simp: truncate_to_fit_def)
  from search_fit_sound [OF n] c show ?thesis by auto
qed

lemma take_current_within:
  "take_current b i = Inr (sel, tags) \<Longrightarrow> within b [] [] \<Longrightarrow> within b sel [] \<and> length sel \<le> 1"
  unfolding take_current_def by (auto split: option.splits if_splits simp: Let_def dest: truncate_fits)

lemma take_quote_within:
  assumes "take_quote b current quote sel tags = Inr (sel', tags')" and "within b sel []" and "length sel \<le> 1"
  shows "within b sel' []"
proof (cases "quote = None \<or> quote = current")
  case True
  with assms show ?thesis by (auto simp: take_quote_def split: option.splits)
next
  case False
  then obtain k where k: "quote = Some k" "Some k \<noteq> current" by auto
  let ?m = "bi_messages b ! k"
  consider "sel = []" | (one) j c where "sel = [(j, c)]" using assms(3) by (cases sel) auto
  then show ?thesis
  proof cases
    case one
    show ?thesis
      using assms(1) k one
      by (auto simp: take_quote_def Let_def split: if_splits option.splits dest: truncate_fits)
  qed (use assms(1) k in \<open>auto simp: take_quote_def Let_def split: if_splits option.splits dest: truncate_fits\<close>)
qed

lemma take_memories_within: "within b sel chosen \<Longrightarrow> within b sel (take_memories b sel chosen ms)"
  by (induction ms arbitrary: chosen) auto

lemma take_recent_within: "within b sel mems \<Longrightarrow> within b (take_recent b req mems sel is) mems"
  by (induction "is" arbitrary: sel) auto

lemma budget_keeps:
  assumes "apply_token_budget e b = Inr br"
  shows "tokens_used (br_use br) \<le> max_budget"
  using assms
  by (auto simp: apply_token_budget_def Let_def within_def selection_tokens_def split: if_splits sum.splits)

text \<open>The last check of the budget never fails.\<close>

lemma budget_no_overrun: "apply_token_budget e b \<noteq> Inl SelectionExceeded"
proof -
  have "take_current b i \<noteq> Inl SelectionExceeded" for i
    by (auto simp: take_current_def Let_def split: option.splits)
  moreover have "take_quote b i j sel tags \<noteq> Inl SelectionExceeded" for i j sel tags
    by (auto simp: take_quote_def Let_def split: option.splits list.splits)
  moreover have "within b (take_recent b req first sel' is) (take_memories b (take_recent b req first sel' is) first rest)"
    if "within b [] []" "take_current b i = Inr (sel, tags)" "take_quote b i j sel tags = Inr (sel', tags')"
       "first = take_memories b sel' [] ps" for i j sel tags sel' tags' first ps rest req "is"
    using take_current_within [OF that(2,1)] take_quote_within [OF that(3)] that(4)
    by (simp add: take_memories_within take_recent_within)
  ultimately show ?thesis
    by (auto simp: apply_token_budget_def Let_def split: sum.splits)
qed

end
