(* ===== verification/Context_Theorems.thy ===== *)
theory Context_Theorems
  imports Context_Facts
begin

text \<open>
  What a context promises: it fits the budget and keeps the current message, every memory in it may be
  shown where it is shown, its trace accounts for every memory considered, the errors that would mean a
  fault of the builder never occur, and a cut message keeps the longest prefix that fits.
\<close>

section \<open>Selected messages\<close>

lemma refer_messages:
  "list_all2 (\<lambda>m m'. rm_id m' = rm_id m \<and> rm_text m' = rm_text m \<and> rm_bot m' = rm_bot m \<and> rm_sender m' = rm_sender m
      \<and> rm_current m' = Some (Some (rm_id m) = current)) ms (fst (refer ids current n sp ms))"
  by (induction ms arbitrary: n sp) (simp_all add: Let_def case_prod_unfold)

lemma refer_keeps: "m \<in> set ms \<Longrightarrow> \<exists>m' \<in> set (fst (refer ids current n sp ms)). rm_id m' = rm_id m \<and> rm_text m' = rm_text m
    \<and> rm_current m' = Some (Some (rm_id m) = current)"
  using refer_messages [of current ms ids n sp] by (fastforce simp: list_all2_conv_all_nth in_set_conv_nth)

lemma materialize_messages: "mz_messages (materialize b ms) = fst (refer (bi_identities b) (bi_current b) 1 [] ms)"
  by (simp add: materialize_def Let_def split: prod.split)

lemma take_recent_keeps: "x \<in> set sel \<Longrightarrow> x \<in> set (take_recent b req mems sel is)"
  by (induction "is" arbitrary: sel) auto

text \<open>The current message, whole or cut, once or twice.\<close>

definition cut_of :: "recent_message \<Rightarrow> recent_message \<Rightarrow> bool" where
  "cut_of o' m \<longleftrightarrow> rm_id m = rm_id o' \<and> (rm_text m = rm_text o' \<or> (\<exists>n k. rm_text m
     = Some (take n (take k (value_or (rm_text o') []) @ cut_marker) @ cut_marker)))"

lemma cut_once: "n \<le> length (value_or (rm_text m) []) \<Longrightarrow> cut_of m (cut_to n m)"
  unfolding cut_of_def cut_to_def by (auto intro!: exI [of _ n])

lemma take_current_cut:
  assumes "take_current b (Some k) = Inr (sel, tags)"
  shows "\<exists>c. sel = [(k, c)] \<and> (c = bi_messages b ! k \<or> (\<exists>n \<le> length (value_or (rm_text (bi_messages b ! k)) []). c = cut_to n (bi_messages b ! k)))"
  using assms by (auto simp: take_current_def Let_def split: if_splits option.splits dest!: truncate_fits)

lemma cut_again:
  assumes "c = m \<or> (\<exists>n \<le> length (value_or (rm_text m) []). c = cut_to n m)"
  shows "cut_of m c" and "d = cut_to j c \<Longrightarrow> j \<le> length (value_or (rm_text c) []) \<Longrightarrow> cut_of m d"
proof -
  show "cut_of m c" using assms cut_once by (auto simp: cut_of_def)
  assume d: "d = cut_to j c" "j \<le> length (value_or (rm_text c) [])"
  show "cut_of m d"
  proof (cases "c = m")
    case True
    with d cut_once show ?thesis by simp
  next
    case False
    with assms obtain n where "c = cut_to n m" by blast
    with d(1) have "rm_id d = rm_id m"
      "rm_text d = Some (take j (take n (value_or (rm_text m) []) @ cut_marker) @ cut_marker)"
      by (simp_all add: cut_to_def value_or_def)
    then show ?thesis unfolding cut_of_def by blast
  qed
qed

lemma take_quote_current:
  assumes "take_quote b (Some k) quote [(k, c)] tags = Inr (sel', tags')"
    and "c = bi_messages b ! k \<or> (\<exists>n \<le> length (value_or (rm_text (bi_messages b ! k)) []). c = cut_to n (bi_messages b ! k))"
  shows "\<exists>d. (k, d) \<in> set sel' \<and> cut_of (bi_messages b ! k) d"
  using assms(1) cut_again [OF assms(2)]
  by (auto simp: take_quote_def Let_def split: option.splits if_splits dest!: truncate_fits)

lemma chosen_in_order: "(k, c) \<in> set sel \<Longrightarrow> c \<in> set (chosen_order sel)"
  unfolding chosen_order_def by force

lemma takeWhile_short: "\<exists>m \<in> set ms. \<not> P m \<Longrightarrow> length (takeWhile P ms) < length ms"
  by (induction ms) auto

lemma index_of_message_at:
  assumes "index_of_message (Some i) ms = Some k"
  shows "k < length ms \<and> rm_id (ms ! k) = i"
proof -
  let ?P = "\<lambda>m. Some (rm_id m) \<noteq> Some i"
  from assms have k: "k = length (takeWhile ?P ms)" and ex: "\<exists>m \<in> set ms. \<not> ?P m"
    by (auto simp: index_of_message_def list_ex_iff split: if_splits)
  have "k < length ms" unfolding k by (rule takeWhile_short [OF ex])
  with nth_length_takeWhile [of ?P ms] show ?thesis unfolding k by blast
qed

lemma index_of_message_there: "list_ex (\<lambda>m. rm_id m = i) ms \<Longrightarrow> \<exists>k. index_of_message (Some i) ms = Some k"
  by (simp add: index_of_message_def)

lemma budget_current:
  assumes "apply_token_budget e b = Inr br" and "bi_current b = Some i" and "list_ex (\<lambda>m. rm_id m = i) (bi_messages b)"
  shows "\<exists>o' m. o' \<in> set (bi_messages b) \<and> m \<in> set (mz_messages (br_context br)) \<and> rm_current m = Some True \<and> rm_id m = i \<and> cut_of o' m"
proof -
  obtain k where k: "index_of_message (Some i) (bi_messages b) = Some k" using index_of_message_there [OF assms(3)] by blast
  note at = index_of_message_at [OF k]
  from assms(1) obtain sel tags quote sel' tags' req first js chosen where
    cur: "take_current b (Some k) = Inr (sel, tags)" and quo: "take_quote b (Some k) quote sel tags = Inr (sel', tags')"
    and br: "br_context br = materialize b (chosen_order (take_recent b req first sel' js))"
    using k assms(2) by (auto simp: apply_token_budget_def Let_def split: if_splits sum.splits)
  from take_current_cut [OF cur] obtain c where sel: "sel = [(k, c)]"
    and c: "c = bi_messages b ! k \<or> (\<exists>n \<le> length (value_or (rm_text (bi_messages b ! k)) []). c = cut_to n (bi_messages b ! k))" by blast
  from take_quote_current [OF quo [unfolded sel] c] obtain d where d: "(k, d) \<in> set sel'" "cut_of (bi_messages b ! k) d" by blast
  have "d \<in> set (chosen_order (take_recent b req first sel' js))"
    using chosen_in_order [OF take_recent_keeps [OF d(1)]] .
  from refer_keeps [OF this, of "bi_identities b" "bi_current b" 1 "[]"] obtain m where
    m: "m \<in> set (mz_messages (br_context br))" "rm_id m = rm_id d" "rm_text m = rm_text d"
    "rm_current m = Some (Some (rm_id d) = bi_current b)" by (auto simp: br materialize_messages)
  have "rm_id d = i" using d(2) at by (simp add: cut_of_def)
  moreover have "bi_messages b ! k \<in> set (bi_messages b)" using at by simp
  moreover have "cut_of (bi_messages b ! k) m" using d(2) m(2,3) by (simp add: cut_of_def)
  ultimately show ?thesis using m(1,2,4) assms(2) by auto
qed

section \<open>The parts of a context\<close>

lemma build_parts:
  assumes "build_context e i rows db = Inr p"
  obtains current rt br where "check_group i = None" and "resolve_current (gt_messages (gather_messages i rows)) (ci_current i) = Inr current"
    and "memories_for e i (gather_messages i rows) current db = Inr rt"
    and "apply_token_budget e (budget_input_of e i (gather_messages i rows) current rt) = Inr br" and "pack_of e i rt br = Inr p"
  using assms unfolding build_context_def Let_def by (auto split: option.splits sum.splits)

lemma pack_fields:
  assumes "pack_of e i rt br = Inr p"
  shows "cp_use p = br_use br" and "cp_messages p = mz_messages (br_context br)" and "cp_memories p = br_memories br"
    and "cp_candidates p = rt_candidates rt" and "cp_rejected p = rt_rejected rt @ br_rejected br"
  using assms unfolding pack_of_def Let_def by (auto split: option.splits)

lemma resolved_present: "resolve_current ms g = Inr (Some c) \<Longrightarrow> list_ex (\<lambda>m. rm_id m = c) ms"
  by (auto simp: resolve_current_def list_ex_iff find_Some_iff split: option.splits if_splits)
     (metis in_set_conv_nth set_rev length_rev)+


end
