(* ===== verification/Context_Memories.thy ===== *)
theory Context_Memories
  imports Context_Theorems "HOL-Library.Sublist"
begin

text \<open>
  The memories of a context: each may be shown where it is shown, the trace accounts for every candidate,
  and the errors that would mean a fault of the builder never occur.
\<close>

section \<open>What retrieval lets in\<close>

lemma reasons_list:
  "map fst (concat (map (\<lambda>(i, m). case f m of None \<Rightarrow> [] | Some why \<Rightarrow> [(i, why)]) xs)) = map fst (filter (\<lambda>(i, m). f m \<noteq> None) xs)"
  by (induction xs) (auto split: option.splits)

lemma reasons_ids:
  "fst ` set (concat (map (\<lambda>(i, m). case f m of None \<Rightarrow> [] | Some why \<Rightarrow> [(i, why)]) xs)) = fst ` set (filter (\<lambda>(i, m). f m \<noteq> None) xs)"
  using arg_cong [OF reasons_list [of f xs], of set] by (simp only: set_map)

lemma subseq_distinct: "subseq xs ys \<Longrightarrow> distinct ys \<Longrightarrow> distinct xs"
  by (metis subseq_conv_nths distinct_nthsI)

lemma retrieved:
  assumes "retrieve_memory e db s qs = Inr rt"
  obtains blocked found where "blocked_for e db s = Inr blocked" and "found_ok db found"
    and "mset (rt_selected rt) = mset (map snd (filter (\<lambda>(i, m). i \<notin> set blocked \<and> rejection_reason e s (md_row m) = None) (fst found)))"
    and "rt_rankings rt = snd found"
    and "set (rt_candidates rt) = fst ` set (fst found) \<union> set blocked"
    and "fst ` set (rt_rejected rt) = set blocked \<union> fst ` set (filter (\<lambda>(i, m). i \<notin> set blocked \<and> rejection_reason e s (md_row m) \<noteq> None) (fst found))"
proof -
  define sem where "sem = map_option (\<lambda>f. f (map mq_text qs) s) (ce_semantic e)"
  define found where "found = found_by e db s qs sem"
  from assms obtain blocked where b: "blocked_for e db s = Inr blocked"
    unfolding retrieve_memory_def Let_def by (auto split: sum.splits)
  note rt = assms [unfolded retrieve_memory_def Let_def, folded sem_def, folded found_def, unfolded b sum.case sum.inject, symmetric]
  have two: "filter (\<lambda>(i, m). rejection_reason e s (md_row m) = None) (filter (\<lambda>(i, m). i \<notin> set blocked) (fst found))
      = filter (\<lambda>(i, m). i \<notin> set blocked \<and> rejection_reason e s (md_row m) = None) (fst found)"
    by (auto intro: filter_cong)
  show thesis
  proof (rule that [OF b])
    show "found_ok db found" unfolding found_def by (rule found_by_ok)
    show "mset (rt_selected rt) = mset (map snd (filter (\<lambda>(i, m). i \<notin> set blocked \<and> rejection_reason e s (md_row m) = None) (fst found)))"
      unfolding rt two [symmetric] by simp
    show "rt_rankings rt = snd found" unfolding rt by simp
    show "set (rt_candidates rt) = fst ` set (fst found) \<union> set blocked" unfolding rt by auto
    show "fst ` set (rt_rejected rt) = set blocked
        \<union> fst ` set (filter (\<lambda>(i, m). i \<notin> set blocked \<and> rejection_reason e s (md_row m) \<noteq> None) (fst found))"
    proof -
      have "filter (\<lambda>(i, m). rejection_reason e s (md_row m) \<noteq> None) (filter (\<lambda>(i, m). i \<notin> set blocked) (fst found))
          = filter (\<lambda>(i, m). i \<notin> set blocked \<and> rejection_reason e s (md_row m) \<noteq> None) (fst found)"
        by (simp add: case_prod_unfold conj_commute)
      moreover have "fst ` set (map (\<lambda>i. (i, why)) blocked) = set blocked" for why :: jstr by force
      ultimately show ?thesis
        using reasons_ids [of "\<lambda>m. rejection_reason e s (md_row m)" "filter (\<lambda>(i, m). i \<notin> set blocked) (fst found)"]
        unfolding rt by (simp only: retrieval.simps set_append image_Un)
    qed
  qed
qed

definition rows_unique :: "memory_record list \<Rightarrow> bool" where
  "rows_unique ms \<longleftrightarrow> distinct (map md_id ms)"

lemma retrieved_selected:
  assumes "retrieve_memory e db s qs = Inr rt"
  shows "rows_unique (rt_selected rt)" and "md_id ` set (rt_selected rt) \<subseteq> fst ` set (rt_rankings rt)"
    and "\<And>m. m \<in> set (rt_selected rt) \<Longrightarrow> rejection_reason e s (md_row m) = None \<and> (\<exists>r \<in> set (memories db). m = row_to_record db r)"
    and "set (rt_candidates rt) = md_id ` set (rt_selected rt) \<union> fst ` set (rt_rejected rt)"
    and "md_id ` set (rt_selected rt) \<inter> fst ` set (rt_rejected rt) = {}"
proof -
  from retrieved [OF assms] obtain blocked found where b: "blocked_for e db s = Inr blocked" and ok: "found_ok db found"
    and sel: "mset (rt_selected rt) = mset (map snd (filter (\<lambda>(i, m). i \<notin> set blocked \<and> rejection_reason e s (md_row m) = None) (fst found)))"
    and ranks: "rt_rankings rt = snd found"
    and cand: "set (rt_candidates rt) = fst ` set (fst found) \<union> set blocked"
    and rej: "fst ` set (rt_rejected rt) = set blocked
        \<union> fst ` set (filter (\<lambda>(i, m). i \<notin> set blocked \<and> rejection_reason e s (md_row m) \<noteq> None) (fst found))" .
  let ?in = "filter (\<lambda>(i, m). i \<notin> set blocked \<and> rejection_reason e s (md_row m) = None) (fst found)"
  have all: "\<forall>(i, m) \<in> set (fst found). md_id m = i \<and> (\<exists>r \<in> set (memories db). m = row_to_record db r)"
    using ok by (simp add: found_ok_def)
  have keys: "md_id m = i" if "(i, m) \<in> set (fst found)" for i m using bspec [OF all that] by simp
  have dist: "distinct (map fst (fst found))" using ok unfolding found_ok_def by blast
  have same: "map md_id (map snd xs) = map fst xs" if "set xs \<subseteq> set (fst found)" for xs
    using that keys by (induction xs) auto
  have map_in: "map md_id (map snd ?in) = map fst ?in" by (rule same) auto
  have set_sel: "set (rt_selected rt) = snd ` set ?in" using mset_eq_setD [OF sel] by simp
  have ids: "md_id ` set (rt_selected rt) = fst ` set ?in" using arg_cong [OF map_in, of set] unfolding set_sel
    by (simp only: set_map)
  have "distinct (map fst ?in)" using dist by (rule distinct_map_filter)
  then have d: "distinct (map md_id (map snd ?in))" unfolding map_in .
  have e: "mset (map md_id (rt_selected rt)) = mset (map md_id (map snd ?in))"
    using arg_cong [OF sel, of "image_mset md_id"] by (simp only: mset_map)
  show "rows_unique (rt_selected rt)" unfolding rows_unique_def using mset_eq_imp_distinct_iff [OF e] d by (rule iffD2)
  show "md_id ` set (rt_selected rt) \<subseteq> fst ` set (rt_rankings rt)" 
  proof -
    have "fst ` set (fst found) \<subseteq> fst ` set (snd found)" using ok by (simp add: found_ok_def)
    then show ?thesis unfolding ids ranks by auto
  qed
  show "rejection_reason e s (md_row m) = None \<and> (\<exists>r \<in> set (memories db). m = row_to_record db r)" if m: "m \<in> set (rt_selected rt)" for m
  proof -
    from m obtain k where k: "(k, m) \<in> set (fst found)" "rejection_reason e s (md_row m) = None" unfolding set_sel by auto
    with bspec [OF all k(1)] show ?thesis by simp
  qed
  show "set (rt_candidates rt) = md_id ` set (rt_selected rt) \<union> fst ` set (rt_rejected rt)"
  proof -
    have "fst ` set (fst found) \<subseteq> fst ` set ?in \<union> set blocked
        \<union> fst ` set (filter (\<lambda>(i, m). i \<notin> set blocked \<and> rejection_reason e s (md_row m) \<noteq> None) (fst found))"
      by (auto simp: image_iff)
    moreover have "fst ` set (filter P (fst found)) \<subseteq> fst ` set (fst found)" for P by auto
    ultimately show ?thesis unfolding cand rej ids by blast
  qed
  show "md_id ` set (rt_selected rt) \<inter> fst ` set (rt_rejected rt) = {}"
  proof -
    have one: "m = n" if "(i, m) \<in> set (fst found)" "(i, n) \<in> set (fst found)" for i m n
      using eq_key_imp_eq_value [OF dist that] .
    have "False" if "i \<in> fst ` set ?in" and "i \<in> fst ` set (filter (\<lambda>(i, m). i \<notin> set blocked \<and> rejection_reason e s (md_row m) \<noteq> None) (fst found))" for i
    proof -
      from that obtain m n where "(i, m) \<in> set (fst found)" "rejection_reason e s (md_row m) = None"
        "(i, n) \<in> set (fst found)" "rejection_reason e s (md_row n) \<noteq> None" by auto
      with one [of i m n] show False by simp
    qed
    then have "fst ` set ?in \<inter> fst ` set (filter (\<lambda>(i, m). i \<notin> set blocked \<and> rejection_reason e s (md_row m) \<noteq> None) (fst found)) = {}"
      by blast
    moreover have "fst ` set ?in \<inter> set blocked = {}" by auto
    ultimately show ?thesis unfolding ids rej Int_Un_distrib by (simp only: Un_empty)
  qed
qed

section \<open>What the budget takes\<close>

lemma take_memories_part: "\<exists>ys. take_memories b sel chosen ms = chosen @ ys \<and> subseq ys ms"
proof (induction ms arbitrary: chosen)
  case (Cons m ms)
  show ?case
  proof (cases "within b sel (chosen @ [m])")
    case True
    from Cons [of "chosen @ [m]"] obtain ys where "take_memories b sel (chosen @ [m]) ms = (chosen @ [m]) @ ys" "subseq ys ms" by blast
    with True have "take_memories b sel chosen (m # ms) = chosen @ (m # ys) \<and> subseq (m # ys) (m # ms)" by simp
    then show ?thesis by blast
  next
    case False
    from Cons [of chosen] obtain ys where "take_memories b sel chosen ms = chosen @ ys" "subseq ys ms" by blast
    with False have "take_memories b sel chosen (m # ms) = chosen @ ys \<and> subseq ys (m # ms)" by (simp add: list_emb_Cons)
    then show ?thesis by blast
  qed
qed simp

lemma best_profile_in: "best_profile e sc ms = Some m \<Longrightarrow> m \<in> set ms \<and> mr_scope (md_row m) = sc"
proof -
  assume "best_profile e sc ms = Some m"
  then obtain xs where "sort_by (compare_profiles e) (filter (\<lambda>m. mr_scope (md_row m) = sc \<and> mr_kind (md_row m) = SummaryKind) ms) = m # xs"
    by (auto simp: best_profile_def split: list.splits)
  then have "m \<in> set (sort_by (compare_profiles e) (filter (\<lambda>m. mr_scope (md_row m) = sc \<and> mr_kind (md_row m) = SummaryKind) ms))"
    by (metis list.set_intros(1))
  then show ?thesis by simp
qed

lemma profiles_in: "set (priority_profiles e ms) \<subseteq> set ms"
  unfolding priority_profiles_def by (auto simp: List.map_filter_def dest: best_profile_in)

lemma profiles_unique: "rows_unique ms \<Longrightarrow> rows_unique (priority_profiles e ms)"
proof -
  assume u: "rows_unique ms"
  have "md_id x \<noteq> md_id y" if "best_profile e MUser ms = Some x" "best_profile e MGroup ms = Some y" for x y
  proof
    assume "md_id x = md_id y"
    with u best_profile_in [OF that(1)] best_profile_in [OF that(2)] have "x = y"
      unfolding rows_unique_def by (metis distinct_map inj_on_def)
    with best_profile_in [OF that(1)] best_profile_in [OF that(2)] show False by simp
  qed
  then show ?thesis
    unfolding priority_profiles_def rows_unique_def
    by (auto simp: List.map_filter_simps split: option.splits)
qed

lemma order_for_budget_ids: "md_id ` set (order_for_budget e ranks ms) = md_id ` set ms"
  using profiles_in [of e ms] by (auto simp: order_for_budget_def Let_def)

lemma order_rest:
  "filter (\<lambda>m. md_id m \<notin> md_id ` set (priority_profiles e ms)) (order_for_budget e ranks ms)
     = sort_by (compare_rankings e ranks) (filter (\<lambda>m. md_id m \<notin> md_id ` set (priority_profiles e ms)) ms)"
proof -
  have "filter (\<lambda>m. md_id m \<notin> md_id ` set ps) (ps @ sort_by c (filter (\<lambda>m. md_id m \<notin> md_id ` set ps) ms))
      = sort_by c (filter (\<lambda>m. md_id m \<notin> md_id ` set ps) ms)" for ps c
    by (simp add: filter_id_conv)
  then show ?thesis by (simp add: order_for_budget_def Let_def)
qed

lemma over_budget_ids: "fst ` set (over_budget os cs) = set os - set cs"
  unfolding over_budget_def by force

lemma budget_memories:
  assumes "apply_token_budget e b = Inr br" and "rows_unique (bi_memories b)"
  shows "set (br_memories br) \<subseteq> set (bi_memories b)" and "rows_unique (br_memories br)"
    and "md_id ` set (br_memories br) \<union> fst ` set (br_rejected br) = md_id ` set (bi_memories b)"
    and "md_id ` set (br_memories br) \<inter> fst ` set (br_rejected br) = {}"
proof -
  define ps where "ps = priority_profiles e (bi_memories b)"
  define rest where "rest = sort_by (compare_rankings e (bi_rankings b)) (filter (\<lambda>m. md_id m \<notin> md_id ` set ps) (bi_memories b))"
  from assms(1) obtain sel sel' where
    mem: "br_memories br = take_memories b sel (take_memories b sel' [] ps) rest"
    and rej: "br_rejected br = over_budget (map md_id ps @ map md_id rest @ map md_id (bi_memories b)) (map md_id (br_memories br))"
    by (auto simp: apply_token_budget_def Let_def order_rest ps_def rest_def split: if_splits sum.splits)
  from take_memories_part [of b sel' "[]" ps] obtain xs where xs: "take_memories b sel' [] ps = xs" "subseq xs ps" by auto
  from take_memories_part [of b sel xs rest] mem xs(1) obtain ys where ys: "br_memories br = xs @ ys" "subseq ys rest" by auto
  have ps: "set ps \<subseteq> set (bi_memories b)" unfolding ps_def by (rule profiles_in)
  have rest: "set rest \<subseteq> set (bi_memories b)" "md_id ` set rest \<inter> md_id ` set ps = {}" unfolding rest_def by auto
  have in_ps: "set xs \<subseteq> set ps" and in_rest: "set ys \<subseteq> set rest"
    using list_emb_set [OF xs(2)] list_emb_set [OF ys(2)] by auto
  show sub: "set (br_memories br) \<subseteq> set (bi_memories b)" using in_ps in_rest ps rest by (auto simp: ys)
  have "mset (map md_id rest) = mset (map md_id (filter (\<lambda>m. md_id m \<notin> md_id ` set ps) (bi_memories b)))"
    unfolding rest_def by (metis mset_map mset_sort_by)
  then have "distinct (map md_id rest)"
    using assms(2) unfolding rows_unique_def by (metis distinct_map_filter mset_eq_imp_distinct_iff)
  then have "distinct (map md_id ys)" using ys(2) by (metis subseq_distinct subseq_map)
  moreover have "distinct (map md_id xs)"
    using profiles_unique [OF assms(2), of e] xs(2) unfolding rows_unique_def ps_def by (metis subseq_distinct subseq_map)
  ultimately show "rows_unique (br_memories br)"
    using in_ps in_rest rest(2) unfolding rows_unique_def ys by auto
  show "md_id ` set (br_memories br) \<union> fst ` set (br_rejected br) = md_id ` set (bi_memories b)"
    using image_mono [OF sub, of md_id] image_mono [OF ps, of md_id] image_mono [OF rest(1), of md_id]
    unfolding rej over_budget_ids set_append set_map by blast
  show "md_id ` set (br_memories br) \<inter> fst ` set (br_rejected br) = {}" unfolding rej over_budget_ids set_map by blast
qed

section \<open>The memories of a pack\<close>

text \<open>What may be shown to whom, said without the order of the checks.\<close>

definition may_show :: "int \<Rightarrow> context_scope \<Rightarrow> memory_row \<Rightarrow> bool" where
  "may_show now s r \<longleftrightarrow> mr_state r = Active \<and> mr_sensitivity r \<noteq> SecretSensitivity \<and> mr_sensitivity r \<noteq> ProhibitedSensitivity
     \<and> scan_memory (mr_title r @ [10] @ mr_content r) = [] \<and> not_expired now r \<and> mr_visibility r \<noteq> OwnerAdminOnly
     \<and> (mr_visibility r = PrivateOnly \<longrightarrow> cs_type s = PrivateType)
     \<and> (mr_visibility r = SameGroupOnly \<longrightarrow> cs_type s = GroupType
          \<and> (mr_group r = cs_group s \<and> present (cs_group s) \<or> mr_conversation r = Some (cs_conversation s)))
     \<and> (mr_scope r = MUser \<longrightarrow> \<not> other_owner (mr_user r) (cs_user s))"

lemma accepted_may_show: "rejection_reason e s r = None \<Longrightarrow> may_show (ce_now e) s r"
  unfolding rejection_reason_def may_show_def not_expired_def Let_def
  by (auto split: if_splits mem_visibility.splits option.splits)

lemma build_memories:
  assumes "build_context e i rows db = Inr p" and "ci_memory i"
  obtains rt qs and br :: budget_result where "retrieve_memory e db (scope_of i) qs = Inr rt" and "rows_unique (cp_memories p)"
    and "set (cp_memories p) \<subseteq> set (rt_selected rt)" and "cp_candidates p = rt_candidates rt"
    and "cp_rejected p = rt_rejected rt @ br_rejected br"
    and "md_id ` set (cp_memories p) \<union> fst ` set (br_rejected br) = md_id ` set (rt_selected rt)"
    and "md_id ` set (cp_memories p) \<inter> fst ` set (br_rejected br) = {}"
proof -
  from build_parts [OF assms(1)] obtain current rt br where
    rt: "memories_for e i (gather_messages i rows) current db = Inr rt"
    and br: "apply_token_budget e (budget_input_of e i (gather_messages i rows) current rt) = Inr br" and p: "pack_of e i rt br = Inr p" .
  from rt assms(2) have r: "retrieve_memory e db (scope_of i) (memory_queries e (gt_messages (gather_messages i rows)) current
      (gt_reply (gather_messages i rows))) = Inr rt"
    by (simp add: memories_for_def)
  have b: "bi_memories (budget_input_of e i (gather_messages i rows) current rt) = rt_selected rt" by (simp add: budget_input_of_def)
  have u: "rows_unique (bi_memories (budget_input_of e i (gather_messages i rows) current rt))"
    unfolding b by (rule retrieved_selected(1) [OF r])
  note m = budget_memories [OF br u, unfolded b]
  show thesis
    by (rule that [OF r, where br = br]) (simp_all add: pack_fields [OF p] m)
qed



section \<open>Errors\<close>

lemma all_some_total: "(\<And>x. x \<in> set xs \<Longrightarrow> f x \<noteq> None) \<Longrightarrow> all_some f xs \<noteq> None"
proof (induction xs)
  case (Cons x xs)
  then have "f x \<noteq> None" "all_some f xs \<noteq> None" by auto
  then show ?case by auto
qed simp

lemma pack_complete:
  assumes "md_id ` set (br_memories br) \<subseteq> fst ` set (rt_rankings rt)" and "set (br_memories br) \<subseteq> set (rt_selected rt)"
  shows "\<exists>p. pack_of e i rt br = Inr p"
proof -
  let ?f = "selection_evidence (rt_rankings rt) (map md_id (order_for_budget e (rt_rankings rt) (rt_selected rt)))
    (map md_id (priority_profiles e (rt_selected rt)))"
  have "?f m \<noteq> None" if "m \<in> set (br_memories br)" for m
  proof -
    have "map_of (rt_rankings rt) (md_id m) \<noteq> None" using assms(1) that by (auto simp: map_of_eq_None_iff)
    moreover have "md_id m \<in> md_id ` set (order_for_budget e (rt_rankings rt) (rt_selected rt))"
      unfolding order_for_budget_ids using assms(2) that by blast
    ultimately show ?thesis by (auto simp: selection_evidence_def Let_def split: option.splits)
  qed
  then have "all_some ?f (br_memories br) \<noteq> None" by (rule all_some_total)
  then show ?thesis unfolding pack_of_def Let_def by auto
qed

lemma group_not_blocked:
  assumes "check_group i = None"
  shows "blocked_for e db (scope_of i) \<noteq> Inl m"
proof (cases "summaries_off db (scope_of i)")
  case True
  then obtain g where g: "ci_group i = Some g" "ci_type i = GroupType" by (auto simp: summaries_off_def scope_of_def split: option.splits)
  with assms have "g \<noteq> [] \<and> js_trim g = g" by (auto simp: check_group_def split: if_splits)
  with True g show ?thesis by (simp add: blocked_for_def scope_of_def blocked_summary_ids_def value_or_def)
qed (simp add: blocked_for_def)

lemma retrieval_returns: "blocked_for e db s = Inr b \<Longrightarrow> \<exists>rt. retrieve_memory e db s qs = Inr rt"
  by (simp add: retrieve_memory_def Let_def)

text \<open>
  C40. The building of a context fails only for reasons its caller can know: a group that does not suit
  the conversation, a current message that is not there, or fixed layers, a current message or a quoted
  message too large for the budget.  A selection that overruns its own estimate, a selected memory
  without a ranking and a refused group id never happen.
\<close>

theorem context_errors_known:
  assumes "build_context e i rows db = Inl x"
  shows "x \<in> {GroupIdNotAllowed, GroupIdRequired, GroupIdUntrimmed, CurrentUnavailable, FixedLayersTooLarge, CurrentTooLarge,
     QuoteTooLarge, CurrentAndQuoteTooLarge}"
proof (cases "check_group i")
  case (Some y)
  with assms show ?thesis by (auto simp: build_context_def check_group_def split: if_splits option.splits)
next
  case None
  let ?g = "gather_messages i rows"
  show ?thesis
  proof (cases "resolve_current (gt_messages ?g) (ci_current i)")
    case (Inl y)
    with None assms show ?thesis by (auto simp: build_context_def resolve_current_def Let_def split: option.splits if_splits)
  next
    case (Inr current)
    let ?qs = "memory_queries e (gt_messages ?g) current (gt_reply ?g)"
    obtain b where b: "blocked_for e db (scope_of i) = Inr b" using group_not_blocked [OF None, of e db] by (cases "blocked_for e db (scope_of i)") auto
    obtain rt where rt: "memories_for e i ?g current db = Inr rt"
      using retrieval_returns [OF b, of ?qs] by (cases "ci_memory i") (auto simp: memories_for_def)
    have sel: "rows_unique (rt_selected rt) \<and> md_id ` set (rt_selected rt) \<subseteq> fst ` set (rt_rankings rt)"
    proof (cases "ci_memory i")
      case True
      with rt have "retrieve_memory e db (scope_of i) ?qs = Inr rt" by (simp add: memories_for_def)
      then show ?thesis using retrieved_selected(1,2) by blast
    next
      case False
      with rt have "rt = no_retrieval" by (simp add: memories_for_def)
      then show ?thesis by (simp add: no_retrieval_def rows_unique_def)
    qed
    let ?b = "budget_input_of e i ?g current rt"
    have mem: "bi_memories ?b = rt_selected rt" by (simp add: budget_input_of_def)
    show ?thesis
    proof (cases "apply_token_budget e ?b")
      case budget: (Inl y)
      from None Inr rt budget assms have "x = y" by (simp add: build_context_def)
      moreover have "y \<noteq> SelectionExceeded" using budget budget_no_overrun by metis
      ultimately show ?thesis
        using budget by (auto simp: apply_token_budget_def take_current_def take_quote_def Let_def
            split: if_splits sum.splits option.splits list.splits)
    next
      case budget: (Inr br)
      have "set (br_memories br) \<subseteq> set (rt_selected rt)"
        using budget_memories(1) [OF budget] sel mem by simp
      with sel have "\<exists>p. pack_of e i rt br = Inr p" by (intro pack_complete) auto
      with None Inr rt budget assms show ?thesis by (auto simp: build_context_def)
    qed
  qed
qed

end
