(* ===== verification/Context_Cut.thy ===== *)
theory Context_Cut
  imports Context_Theorems
begin

text \<open>
  The cut of a current message that does not fit: a longer text never counts less, so the binary search
  finds the longest prefix that fits.
\<close>

section \<open>Texts and tokens\<close>

definition with_text :: "jstr \<Rightarrow> recent_message \<Rightarrow> recent_message" where
  "with_text t m = m\<lparr>rm_text := Some t\<rparr>"

lemma with_text_fields [simp]:
  "rm_id (with_text t m) = rm_id m" "rm_sender (with_text t m) = rm_sender m" "rm_bot (with_text t m) = rm_bot m"
  "rm_role (with_text t m) = rm_role m" "rm_text (with_text t m) = Some t"
  by (simp_all add: with_text_def)

lemma identity_with_text [simp]: "identity_of ids (with_text t m) = identity_of ids m"
  by (simp add: identity_of_def default_identity_def split: option.split)

text \<open>A single message of a prompt: its reference, its speaker and its text.\<close>

definition labelled :: "budget_input \<Rightarrow> recent_message \<Rightarrow> jstr \<Rightarrow> recent_message" where
  "labelled b m t = (with_text t m)\<lparr>rm_name := mt_name (identity_of (bi_identities b) m), rm_ref := Some (lit ''message_'' @ decimal 1),
     rm_speaker := Some (speaker_name 1), rm_current := Some (Some (rm_id m) = bi_current b)\<rparr>"

lemma labelled_fields [simp]:
  "rm_id (labelled b m t) = rm_id m" "rm_sender (labelled b m t) = rm_sender m" "rm_bot (labelled b m t) = rm_bot m"
  "rm_role (labelled b m t) = rm_role m" "rm_text (labelled b m t) = Some t" "rm_speaker (labelled b m t) = Some (speaker_name 1)"
  "rm_ref (labelled b m t) = Some (lit ''message_'' @ decimal 1)" "rm_name (labelled b m t) = mt_name (identity_of (bi_identities b) m)"
  "rm_current (labelled b m t) = Some (Some (rm_id m) = bi_current b)"
  by (simp_all add: labelled_def)

lemma refer_one:
  "refer (bi_identities b) (bi_current b) (Suc 0) [] [with_text t m]
     = ([labelled b m t], [(mt_key (identity_of (bi_identities b) m), speaker_name 1)])"
  by (simp add: Let_def labelled_def)

definition one_current :: "budget_input \<Rightarrow> recent_message \<Rightarrow> jstr option" where
  "one_current b m = (if Some (rm_id m) = bi_current b then Some (lit ''message_'' @ decimal 1) else None)"

lemma materialize_one:
  "mz_messages (materialize b [with_text t m]) = [labelled b m t]" "mz_current (materialize b [with_text t m]) = one_current b m"
  "mz_participants (materialize b [with_text t m]) = mz_participants (materialize b [with_text u m])"
  "mz_reply (materialize b [with_text t m]) = mz_reply (materialize b [with_text u m])"
proof -
  have p: "participant_of x (labelled b m t) y = participant_of x (labelled b m u) y"
    "supplied_for x (labelled b m t) ps = supplied_for x (labelled b m u) ps" for x y ps
    by (simp_all add: participant_of_def supplied_for_def Let_def)
  show "mz_messages (materialize b [with_text t m]) = [labelled b m t]" "mz_current (materialize b [with_text t m]) = one_current b m"
    by (simp_all add: materialize_def refer_one one_current_def Let_def del: refer.simps)
  show "mz_participants (materialize b [with_text t m]) = mz_participants (materialize b [with_text u m])"
    by (simp add: materialize_def refer_one Let_def participants_for_def p del: refer.simps)
  show "mz_reply (materialize b [with_text t m]) = mz_reply (materialize b [with_text u m])"
    by (simp add: materialize_def refer_one Let_def reply_reference_of_def find_message_def del: refer.simps
        split: option.split reply_resolution.split)
qed

text \<open>All layers but the messages count the same for every text.\<close>

lemma tokens_one:
  "selection_tokens b [(k, with_text t m)] [] + text_tokens (render_message (labelled b m u))
     = selection_tokens b [(k, with_text u m)] [] + text_tokens (render_message (labelled b m t))"
proof -
  have one: "chosen_order [(k, c)] = [c]" for c by (simp add: chosen_order_def sort_by_def)
  have "current_speaker (materialize b [with_text t m]) = current_speaker (materialize b [with_text u m])"
    by (simp add: current_speaker_def materialize_one(1,2))
  then have f: "prompt_fields (materialize b [with_text t m]) fs = prompt_fields (materialize b [with_text u m]) fs" for fs
    by (simp only: prompt_fields_def)
  have r: "render_references (mz_messages (materialize b [with_text t m])) c y = render_references (mz_messages (materialize b [with_text u m])) c y" for c y
    by (simp add: materialize_one(1) render_references_def reference_line_def)
  show ?thesis
    unfolding selection_tokens_def one tokens_used_def calculate_tokens_def
    using materialize_one(3,4) [of b t m u] f [of "bi_fields b"] r
    by (simp add: materialize_one(1,2))
qed

lemma render_mono:
  "t \<noteq> [] \<Longrightarrow> length t \<le> length u \<Longrightarrow> text_tokens (render_message (labelled b m t)) \<le> text_tokens (render_message (labelled b m u))"
  by (cases "u = []") (auto simp: render_message_def Let_def value_or_def text_tokens_def intro!: div_le_mono)

lemma cut_mono:
  assumes "n \<le> j" and "within b [(k, cut_to j m)] []"
  shows "within b [(k, cut_to n m)] []"
proof -
  have cut: "cut_to i m = with_text (take i (value_or (rm_text m) []) @ cut_marker) m" for i
    by (simp add: cut_to_def with_text_def)
  let ?t = "\<lambda>i. take i (value_or (rm_text m) []) @ cut_marker"
  have "?t n \<noteq> []" by (simp add: cut_marker_def lit_def)
  moreover have "length (?t n) \<le> length (?t j)" using assms(1) by auto
  ultimately have "text_tokens (render_message (labelled b m (?t n))) \<le> text_tokens (render_message (labelled b m (?t j)))"
    by (rule render_mono)
  with tokens_one [of b k "?t n" m "?t j"] assms(2) show ?thesis unfolding within_def cut by linarith
qed

text \<open>
  C39. A current message that does not fit the budget keeps the longest prefix that does: the binary
  search returns a prefix that fits and no longer one fits, and the context is refused exactly when not
  even the marker alone would fit.
\<close>

theorem current_cut_longest:
  assumes "k < length (bi_messages b)" and "\<not> within b [(k, bi_messages b ! k)] []"
  shows "case take_current b (Some k) of
      Inl x \<Rightarrow> \<not> within b [(k, cut_to 0 (bi_messages b ! k))] []
    | Inr (sel, tags) \<Rightarrow> \<exists>n \<le> length (value_or (rm_text (bi_messages b ! k)) []).
        sel = [(k, cut_to n (bi_messages b ! k))] \<and> within b sel []
        \<and> (\<forall>j. n < j \<and> j \<le> length (value_or (rm_text (bi_messages b ! k)) []) \<longrightarrow> \<not> within b [(k, cut_to j (bi_messages b ! k))] [])"
proof -
  let ?m = "bi_messages b ! k" and ?len = "length (value_or (rm_text (bi_messages b ! k)) [])"
  let ?fits = "\<lambda>n. within b [(k, cut_to n ?m)] []"
  have longest: "case search_fit ?fits 0 (int ?len) None of
      None \<Rightarrow> \<forall>n. int n \<le> int ?len \<longrightarrow> \<not> ?fits n
    | Some n \<Rightarrow> ?fits n \<and> int n \<le> int ?len \<and> (\<forall>j. n < j \<and> int j \<le> int ?len \<longrightarrow> \<not> ?fits j)"
    by (rule search_fit_longest [where fits = ?fits]) (auto intro: cut_mono)
  have cut: "truncate_to_fit ?m (\<lambda>c. within b [(k, c)] []) = map_option (\<lambda>n. cut_to n ?m) (search_fit ?fits 0 (int ?len) None)"
    by (simp add: truncate_to_fit_def)
  show ?thesis
  proof (cases "search_fit ?fits 0 (int ?len) None")
    case None
    with longest assms(2) cut show ?thesis by (auto simp: take_current_def Let_def)
  next
    case (Some n)
    with longest assms(2) cut show ?thesis by (auto simp: take_current_def Let_def intro!: exI [of _ n])
  qed
qed

end
