(* ===== verification/Context_Witnesses.thy ===== *)
theory Context_Witnesses
  imports Context_Memories Context_Cut Short_Texts Memory_Theorems
begin

text \<open>
  The properties of contexts on a private chat of one message, with one memory that concerns everyone,
  and on a message too long for its context.
\<close>

definition cw_env :: context_env where
  "cw_env = \<lparr>ce_letter = \<lambda>t. False, ce_fts = \<lambda>rs q r. None, ce_options = \<lparr>procedure_writes = True, procedure_retrieval = True\<rparr>,
     ce_semantic = None, ce_locale = \<lambda>a b. 0, ce_user = \<lambda>u. None, ce_profile = \<lambda>u g. None, ce_now = 9\<rparr>"

definition cw_message :: recent_message where
  "cw_message = \<lparr>rm_id = [109], rm_sender = [117], rm_name = lit ''unknown'', rm_text = Some [104, 105], rm_time = 3, rm_bot = False,
     rm_role = None, rm_ref = None, rm_speaker = None, rm_current = None\<rparr>"

definition cw_input :: context_input where
  "cw_input = \<lparr>ci_conversation = [99], ci_type = PrivateType, ci_recent = [cw_message], ci_participants = [], ci_target = None,
     ci_user = None, ci_group = None, ci_limit = 20, ci_memory = True, ci_current = None, ci_reply = None\<rparr>"

definition cw_row :: memory_row where
  "cw_row = \<lparr>mr_id = [105], mr_scope = MGlobal, mr_user = None, mr_group = None, mr_conversation = None, mr_subject = None,
     mr_visibility = PrivateOnly, mr_sensitivity = NormalSensitivity, mr_authority = Inferred, mr_kind = Fact, mr_title = [97],
     mr_content = [98], mr_state = Active, mr_confidence = 1, mr_importance = 1, mr_context = None, mr_decision = None,
     mr_created = 1, mr_updated = 1, mr_expires = None\<rparr>"

definition cw_memory :: memory_record where
  "cw_memory = \<lparr>md_row = cw_row, md_sources = []\<rparr>"

definition cw_db :: memory_db where
  "cw_db = empty_memory\<lparr>memories := [cw_row]\<rparr>"

section \<open>Retrieval\<close>

lemma cw_gathered: "gather_messages cw_input None = \<lparr>gt_messages = [cw_message], gt_reply = None, gt_persisted = []\<rparr>"
  by (simp add: gather_messages_def cw_input_def all_messages_def loaded_messages_def)

lemma cw_queries: "memory_queries cw_env [cw_message] (Some [109]) None = []"
  by (simp add: memory_queries_def query_of_def cw_env_def text_by_id_def quoted_id_def thread_text_def safe_fts_query_def
      cw_message_def find_message_def js_trim_def js_space_def max_fts_source_def fts_word_def Let_def)

definition cw_scope :: context_scope where
  "cw_scope = scope_of cw_input"

lemma cw_found: "found_by cw_env cw_db cw_scope [] None = ([([105], cw_memory)],
    [([105], \<lparr>rk_sources = [], rk_methods = [ScopedRank], rk_affinity = GlobalAffinity, rk_ordinal = None, rk_semantic = None\<rparr>)])"
  by (simp add: found_by_def filter_routes_def cw_scope_def scope_of_def cw_input_def target_user_def first_some_def Let_def
      no_filter_def follow_route_def retrieve_def cw_db_def empty_memory_def select_clause_def cw_env_def cw_row_def value_or_def
      not_expired_def column_filter_def context_clause_def summary_clause_def allowed_for_retrieval_def row_to_record_def
      list_source_ids_def md_id_def cw_memory_def new_ranking_def affinity_def ranked_def)

lemma cw_clean: "scan_memory [97, 10, 98] = []"
  unfolding scan_memory_empty using secret_lengths short_test [of "[97, 10, 98]"] by force

lemma cw_shown: "rejection_reason cw_env cw_scope cw_row = None"
  by (simp add: rejection_reason_def Let_def cw_row_def cw_env_def cw_clean cw_scope_def scope_of_def cw_input_def)

definition cw_retrieval :: retrieval where
  "cw_retrieval = \<lparr>rt_selected = [cw_memory], rt_rankings = snd (found_by cw_env cw_db cw_scope [] None), rt_candidates = [[105]],
     rt_rejected = [], rt_filters = []\<rparr>"

lemma cw_retrieved: "retrieve_memory cw_env cw_db cw_scope [] = Inr cw_retrieval"
proof -
  have "summaries_off cw_db cw_scope = False" by (simp add: summaries_off_def cw_scope_def scope_of_def cw_input_def)
  moreover have "ce_semantic cw_env = None" "procedure_retrieval (ce_options cw_env)" by (simp_all add: cw_env_def)
  moreover have "rejection_reason cw_env cw_scope (md_row cw_memory) = None" using cw_shown by (simp add: cw_memory_def)
  ultimately show ?thesis
    by (simp add: retrieve_memory_def cw_found blocked_for_def cw_retrieval_def retrieval_tags_def sort_by_def)
qed

section \<open>The budget\<close>

lemma harmless_field: "harmless (lit ''privateunkowch'')"
  unfolding harmless_def by (intro conjI; simp add: rx_building)

lemma cw_literals: "prompt_literal (lit ''private'') = [34] @ lit ''private'' @ [34]" "prompt_literal [99] = [34, 99, 34]"
  "prompt_literal (lit ''unknown'') = [34] @ lit ''unknown'' @ [34]"
proof -
  have "redact_text (lit ''private'') = lit ''private''" "redact_text (lit ''unknown'') = lit ''unknown''" "redact_text [99] = [99]"
    by (rule harmless_text [OF harmless_field]; simp add: lit_def)+
  moreover have "rx_replace (Rep 1 None (One (\<lambda>c. c = 10 \<or> c = 13))) t (lit ''private'') = lit ''private''"
    "rx_replace (Rep 1 None (One (\<lambda>c. c = 10 \<or> c = 13))) t (lit ''unknown'') = lit ''unknown''"
    "rx_replace (Rep 1 None (One (\<lambda>c. c = 10 \<or> c = 13))) t [99] = [99]" for t
    unfolding rx_replace_def
    by (rule blocked_replace [where cs = "lit ''privateunkowch''"]; simp add: lit_def rounds_def)+
  ultimately show "prompt_literal (lit ''private'') = [34] @ lit ''private'' @ [34]" "prompt_literal [99] = [34, 99, 34]"
    "prompt_literal (lit ''unknown'') = [34] @ lit ''unknown'' @ [34]"
    by (simp_all add: prompt_literal_def prompt_text_def json_string_def json_chars.simps simple_escapes_def high_surrogate_def low_surrogate_def lit_def)
qed

definition cw_budget :: budget_input where
  "cw_budget = budget_input_of cw_env cw_input (gather_messages cw_input None) (Some [109]) cw_retrieval"

lemma cw_fields: "bi_messages cw_budget = [cw_message]" "bi_memories cw_budget = [cw_memory]" "bi_participants cw_budget = []"
  "bi_fields cw_budget = [(lit ''conversation_id'', [99]), (lit ''conversation_type'', lit ''private'')]" "bi_type cw_budget = PrivateType"
  "bi_current cw_budget = Some [109]" "bi_reply cw_budget = None"
  "bi_identities cw_budget = [([109], \<lparr>mt_key = lit ''sender:u'', mt_user = None, mt_name = lit ''unknown'', mt_role = None\<rparr>)]"
  unfolding cw_budget_def budget_input_of_def message_identities_def cw_gathered
  by (simp_all add: cw_retrieval_def identity_fields_def cw_input_def target_user_def
      first_some_def filled_text_def message_identity_of_def canonical_sender_def cw_message_def cw_env_def
      starts_with_def value_or_def js_trim_def js_space_def lit_def)

lemma cw_layers: "text_tokens (render_fields (bi_fields cw_budget)) = 32"
  unfolding cw_fields render_fields_def by (simp add: cw_literals text_tokens_def)

lemma cw_empty: "within cw_budget [] []"
  using cw_layers
  by (simp add: within_def selection_tokens_def chosen_order_def sort_by_def materialize_def cw_fields calculate_tokens_def
      tokens_used_def participants_for_def render_references_def render_participants_def render_memories_def summary_of_def
      prompt_fields_def current_speaker_def profile_lines_def text_tokens_def max_budget_def system_tokens_def)

lemma cw_referred: "materialize cw_budget [cw_message] = \<lparr>mz_messages = [cw_message\<lparr>rm_ref := Some (lit ''message_'' @ decimal 1),
     rm_speaker := Some (speaker_name 1), rm_current := Some True\<rparr>], mz_participants = [],
     mz_current = Some (lit ''message_'' @ decimal 1), mz_reply = None\<rparr>"
  by (simp add: materialize_def cw_fields Let_def identity_of_def participants_for_def) (simp add: cw_message_def)

lemma cw_fits: "within cw_budget [(0, cw_message)] []" "within cw_budget [(0, cw_message)] [cw_memory]"
proof -
  define r where "r = Some (lit ''message_'' @ decimal 1)"
  define m where "m = cw_message\<lparr>rm_ref := r, rm_speaker := Some (speaker_name 1), rm_current := Some True\<rparr>"
  have one: "chosen_order [(0, cw_message)] = [cw_message]" by (simp add: chosen_order_def sort_by_def)
  have z: "materialize cw_budget [cw_message] = \<lparr>mz_messages = [m], mz_participants = [], mz_current = r, mz_reply = None\<rparr>"
    by (simp only: cw_referred m_def r_def)
  have f: "prompt_fields z (bi_fields cw_budget) = bi_fields cw_budget" for z by (simp add: prompt_fields_def cw_fields)
  have sizes: "text_tokens (render_message m) \<le> 50" "text_tokens (render_references [m] r None) \<le> 100"
    "text_tokens (render_memories []) = 0" "text_tokens (render_memories [md_row cw_memory]) \<le> 50" "text_tokens (render_participants [] c) = 0" for c
    by (simp_all add: m_def r_def render_message_def cw_message_def cw_literals text_tokens_def render_references_def reference_line_def
        speaker_name_def decimal.simps [of "Suc 0"] word_of_def render_memories_def profile_lines_def summary_of_def cw_memory_def
        cw_row_def render_participants_def)
  show "within cw_budget [(0, cw_message)] []" "within cw_budget [(0, cw_message)] [cw_memory]"
    unfolding within_def selection_tokens_def one z calculate_tokens_def tokens_used_def max_budget_def system_tokens_def f
    using sizes cw_layers by simp_all
qed

section \<open>The pack\<close>

lemma cw_applied: "\<exists>br. apply_token_budget cw_env cw_budget = Inr br \<and> br_memories br = [cw_memory]"
proof -
  have i: "index_of_message (Some [109]) [cw_message] = Some 0" by (simp add: index_of_message_def cw_message_def)
  have p: "priority_profiles cw_env [cw_memory] = []"
    by (simp add: priority_profiles_def List.map_filter_simps best_profile_def cw_memory_def cw_row_def sort_by_def)
  show ?thesis
    using cw_empty cw_fits
    by (simp add: apply_token_budget_def cw_fields i p quoted_id_def take_current_def take_quote_def order_for_budget_def sort_by_def Let_def)
qed

lemma build_from_parts:
  assumes "check_group i = None" and "resolve_current (gt_messages (gather_messages i rows)) (ci_current i) = Inr current"
    and "memories_for e i (gather_messages i rows) current db = Inr rt"
    and "apply_token_budget e (budget_input_of e i (gather_messages i rows) current rt) = Inr br" and "pack_of e i rt br = Inr p"
  shows "build_context e i rows db = Inr p"
  using assms by (simp add: build_context_def)

lemma cw_built: "\<exists>p. build_context cw_env cw_input None cw_db = Inr p \<and> cp_memories p = [cw_memory]"
proof -
  obtain br where br: "apply_token_budget cw_env cw_budget = Inr br" "br_memories br = [cw_memory]" using cw_applied by blast
  have g: "check_group cw_input = None" by (simp add: check_group_def cw_input_def)
  have c: "resolve_current (gt_messages (gather_messages cw_input None)) (ci_current cw_input) = Inr (Some [109])"
    unfolding cw_gathered by (simp add: resolve_current_def cw_input_def cw_message_def)
  have m: "memories_for cw_env cw_input (gather_messages cw_input None) (Some [109]) cw_db = Inr cw_retrieval"
    using cw_retrieved unfolding memories_for_def cw_gathered cw_scope_def by (simp add: cw_queries) (simp add: cw_input_def)
  have "md_id ` set (br_memories br) \<subseteq> fst ` set (rt_rankings cw_retrieval)" "set (br_memories br) \<subseteq> set (rt_selected cw_retrieval)"
    by (simp_all add: br cw_retrieval_def cw_found md_id_def cw_memory_def cw_row_def)
  from pack_complete [OF this] obtain p where p: "pack_of cw_env cw_input cw_retrieval br = Inr p" by blast
  have "build_context cw_env cw_input None cw_db = Inr p"
    by (rule build_from_parts [OF g c m br(1) [unfolded cw_budget_def] p])
  moreover have "cp_memories p = [cw_memory]" using pack_fields(3) [OF p] br(2) by (rule trans)
  ultimately show ?thesis by (intro exI conjI)
qed

definition cw_pack :: context_pack where
  "cw_pack = (case build_context cw_env cw_input None cw_db of Inr p \<Rightarrow> p | Inl x \<Rightarrow> undefined)"

lemma cw_pack: "build_context cw_env cw_input None cw_db = Inr cw_pack" "cp_memories cw_pack = [cw_memory]"
  using cw_built unfolding cw_pack_def by (metis sum.case(2))+




theorem context_errors_known_witness: "build_context cw_env (cw_input\<lparr>ci_group := Some [103]\<rparr>) None cw_db = Inl GroupIdNotAllowed
    \<and> GroupIdNotAllowed \<in> {GroupIdNotAllowed, GroupIdRequired, GroupIdUntrimmed, CurrentUnavailable, FixedLayersTooLarge, CurrentTooLarge,
         QuoteTooLarge, CurrentAndQuoteTooLarge}"
proof -
  have e: "build_context cw_env (cw_input\<lparr>ci_group := Some [103]\<rparr>) None cw_db = Inl GroupIdNotAllowed"
    by (simp add: build_context_def check_group_def cw_input_def)
  with context_errors_known [OF e] show ?thesis by blast
qed

section \<open>A message that does not fit\<close>

definition cw_long :: recent_message where
  "cw_long = cw_message\<lparr>rm_bot := True, rm_text := Some (replicate 16001 97)\<rparr>"

definition cw_tight :: budget_input where
  "cw_tight = cw_budget\<lparr>bi_messages := [cw_long]\<rparr>"

lemma cw_tight_fields: "bi_messages cw_tight = [cw_long]" "bi_participants cw_tight = []" "bi_fields cw_tight = bi_fields cw_budget"
  "bi_type cw_tight = PrivateType" "bi_current cw_tight = Some [109]" "bi_reply cw_tight = None"
  "bi_identities cw_tight = bi_identities cw_budget"
  by (simp_all add: cw_tight_def cw_fields)

lemma cw_too_long: "\<not> within cw_tight [(0, bi_messages cw_tight ! 0)] []"
proof -
  have one: "chosen_order [(0, m)] = [m]" for m by (simp add: chosen_order_def sort_by_def)
  have "mz_messages (materialize cw_tight [cw_long]) = [cw_long\<lparr>rm_ref := Some (lit ''message_'' @ decimal 1),
     rm_speaker := Some (speaker_name 1), rm_current := Some True\<rparr>]"
    by (simp add: materialize_def cw_tight_fields cw_fields Let_def identity_of_def) (simp add: cw_long_def cw_message_def)
  moreover have "text_tokens (render_message (cw_long\<lparr>rm_ref := r, rm_speaker := s, rm_current := c\<rparr>)) = 8001" for r s c
    by (simp add: render_message_def cw_long_def text_tokens_def value_or_def)
  ultimately show ?thesis
    by (simp add: within_def selection_tokens_def cw_tight_fields one calculate_tokens_def tokens_used_def max_budget_def del: One_nat_def)
qed

theorem current_cut_longest_witness:
  "case take_current cw_tight (Some 0) of Inl x \<Rightarrow> \<not> within cw_tight [(0, cut_to 0 cw_long)] []
    | Inr (sel, tags) \<Rightarrow> within cw_tight sel [] \<and> (\<exists>n. sel = [(0, cut_to n cw_long)])"
proof -
  have "0 < length (bi_messages cw_tight)" by (simp add: cw_tight_fields)
  from current_cut_longest [OF this cw_too_long] show ?thesis
    by (simp only: cw_tight_fields nth_Cons_0) (auto split: sum.splits prod.splits)
qed

end
