(* ===== verification/Spec2Isabelle.thy ===== *)
theory Spec2Isabelle
  imports Turn_Admission_Facts Scope_Handles Resource_Handles Preview_Handles Delayed_Attention_Theorems Memory_Theorems Summary_Policy_Theorems
    Background_Worker_Theorems Redaction_Theorems Social_Witnesses Ledger_Properties Tool_Witnesses Context_Witnesses
begin

text \<open>
  A verification development of LetheBot, a chat agent written in TypeScript over one SQLite database.
  A chat event is admitted (\<open>src/pi/turn-admission-controller.ts\<close>), judged worth an answer now, later or
  never (\<open>src/attention\<close>), given a context of recent messages and memories (\<open>src/context\<close>), answered by a
  model that may call tools (\<open>src/pi\<close>, \<open>src/tools\<close>), and the answer is turned into actions that are
  evaluated, persisted and carried out (\<open>src/actions\<close>).  Memories, jobs, calls of models and tools,
  decisions and audit entries are rows (\<open>src/storage\<close>); workers take the jobs (\<open>src/workers\<close>); an
  operator governs the whole through handles with a short life (\<open>src/http\<close>).

  Where what is modelled:

    \<^item> \<open>Lethe_Prelude\<close>, \<open>Json_Text\<close>, \<open>Js_Regex\<close>: strings as lists of UTF-16 code units, insertion-ordered
      maps as association lists, values of unknown shape, \<open>JSON.stringify\<close> of strings, and a backtracking
      matcher for the regular expressions of the program.
    \<^item> \<open>Turn_Admission\<close>, \<open>Turn_Admission_Facts\<close>: queueing of turns per conversation, the ring of runnable
      conversations, deadlines and cancellation.  Bounds, mutual exclusion, exactly-once settlement, order,
      no late start, and that a controller that is pumped drains.
    \<^item> \<open>Governance_Scope\<close>, \<open>Handle_Registry\<close>, \<open>Handle_Log\<close>, \<open>Scope_Handles\<close>, \<open>Resource_Handles\<close>,
      \<open>Preview_Handles\<close>: the three handle registries over one store.  The locale \<open>session_store\<close> states what
      the stores under them share, \<open>handle_service\<close> what a registry promises over the log of its calls; both are
      interpreted on the registries; a preview is consumed at most once, by whom it was issued to.
    \<^item> \<open>Job_Queue\<close> with its facts and theorems: \<open>JobRepository\<close>, leases, retries, cancellation and attempts;
      the locale \<open>lease_authority\<close> carries a lease over the history of the queue, the claims fence older attempts, and the tables refine an abstract life cycle.
    \<^item> \<open>Attention_Engine\<close>, \<open>Delayed_Attention\<close> with its facts and theorems: the decision of the engine, and
      candidates for a later answer over the job queue.
    \<^item> \<open>Secret_Scan\<close>, \<open>Diagnostic_Redaction\<close>, \<open>Redaction_Theorems\<close>, \<open>Short_Texts\<close>: patterns of secrets and of
      platform numbers and what no redacted value can hold.
    \<^item> \<open>Memory_Sources\<close>, \<open>Memory_Evidence\<close>, \<open>Memory_Repository\<close> with its facts and theorems: creation under
      governance, evidence, revisions, changes of state, retrieval and search.
    \<^item> \<open>Summary_Policy\<close> with its facts and theorems: the generations of the policy of a group.
    \<^item> \<open>Background_Worker\<close> with its theorems: one iteration of the worker as a history of the queue.
    \<^item> \<open>Action_Plans\<close>, \<open>Action_Repository\<close>, \<open>Action_Executor\<close>, \<open>Executor_Scope\<close>, \<open>Social_Decision\<close> with
      their facts, theorems and witnesses: plans, cooldowns, decisions bound by a digest to what was decided,
      the evaluation of actions and their execution.
    \<^item> \<open>Model_Context\<close>, \<open>Invocation_Ledger\<close>, \<open>Ledger_Turns\<close> with facts and theorems: calls of models, the
      turns that own them, and the completion of a turn from the evidence of its calls.
    \<^item> \<open>Tool_Output\<close>, \<open>Tool_Access\<close>, \<open>Tool_Evidence\<close>, \<open>Tool_Execution\<close> with facts, theorems and witnesses: the
      limit on outputs in bytes of UTF-8, the registry and the gate, the rows a call leaves, and the
      execution of a call from the review to the record.
    \<^item> \<open>Context_Retrieval\<close>, \<open>Context_Budget\<close>, \<open>Context_Builder\<close> with facts, theorems and witnesses: how the
      messages and memories of a context are found, ranked, let in and fitted into 8000 tokens.

  How the code is translated.  A class is a record of its fields and a table a list of row records in the
  order of their insertion; an operation is a function from the state to the state and its result.  An
  exception is \<open>Inl\<close> of an error; a transaction that throws returns the state it began with.  A property
  that is absent or \<open>undefined\<close> is \<open>None\<close>; where the code tells the two apart, the value type has a
  constructor for each.  A column of JSON holds the value and not its text.  Times are integers of
  milliseconds, and a score between 0 and 1 is an integer number of units.  Histories are inductive step
  relations whose steps are the operations and, where the code only reads a table, arbitrary changes of it.

  Parameters.  The clock, ULIDs and random handles, SHA-256 and HMAC, \<open>JSON.stringify\<close> of whole values,
  \<open>String\<close> of a number, \<open>localeCompare\<close>, the Unicode classes, full-text search, semantic retrieval, the
  lookup of identities, the evaluator and the handlers of tools are arguments.  What a theorem needs of one
  is its hypothesis (that a digest has no collisions among the texts compared, that ids are fresh).  The
  messages of errors that no caller tells apart are one constructor.  Between the review of a tool call and
  its record other work may change the tables (\<open>xe_between\<close>), and the evidence of a call reads the clock once.

  Bounds and fuel.  The matcher repeats a group at most as often as its least number of rounds and the code
  units left together allow, which is enough, because an optional round that consumes nothing ends the
  repetition in ECMAScript too.  The draw of a fresh handle may go on for ever with an unlucky source of
  randomness: it is a partial function, \<open>None\<close> is not returning, and \<open>scope_issue_returns\<close> says when it
  returns.  All other loops are structural or have a termination proof: the pump of the admission controller
  by its backlog, the search of a truncation by its interval.

  Not modelled.  The HTTP and websocket servers, the browser assets, the command line, releases, backups
  and restores and the opening of the database are input and output around the parts above.  The queries of
  governance project tables into pages.  The handlers of the workers call a model or compute with
  floating-point scores.  The gateway, the evaluators and the model clients speak protocols of third parties
  and are arguments here.  Of \<open>src/pi/pi-adapter.ts\<close> only the execution of tools is translated; streaming,
  sessions and the prompt are not.
\<close>

end
